(* ===== verification/Prelude.thy ===== *)
theory Prelude
  imports Main "HOL-Library.Word"
begin

text \<open>
  Shared vocabulary of the development: the machine integers of the Zynq target
  (\<^verbatim>\<open>config.h\<close> sets \<^verbatim>\<open>HOST "armv7l-unknown-linux-gnueabihf"\<close> and \<^verbatim>\<open>SIZEOF_VOID_P 4\<close>,
  so \<open>size_t\<close>, \<open>u32\<close> and pointers are 32-bit words), the result type of operations that may
  fault or not return, and lemmas on words and lists that several components use.
\<close>

unbundle bit_operations_syntax

section \<open>Machine integers\<close>

type_synonym u32 = "32 word"
type_synonym size_t = "32 word"
type_synonym addr = "32 word"
type_synonym byte = "8 word"

abbreviation (input) NULL :: addr where "NULL \<equiv> 0"

section \<open>Outcomes\<close>

text \<open>
  What C leaves undefined, and what the environment answers with a trap, is a value of
  \<open>fault\<close>. An operation returns \<open>Some (Inr x)\<close> when it completes with \<open>x\<close>, \<open>Some (Inl f)\<close> when it
  runs into the fault \<open>f\<close>, and \<open>None\<close> when it does not return (a loop that never ends).
\<close>

datatype fault =
    NullDeref        \<comment>\<open>a field of a null pointer is read or written\<close>
  | UseAfterFree     \<comment>\<open>a field of memory that is not allocated\<close>
  | OutOfBounds      \<comment>\<open>an access past the end of an object\<close>
  | BadFree          \<comment>\<open>a free of memory that is not allocated\<close>
  | DivByZero
  | AssertFail       \<comment>\<open>a failed \<open>assert\<close>\<close>
  | BadIo            \<comment>\<open>a register access outside the mapped window\<close>
  | Exit int         \<comment>\<open>\<open>exit (n)\<close>\<close>

type_synonym 'a prog = "(fault + 'a) option"

definition ok :: "'a \<Rightarrow> 'a prog" where
  "ok x = Some (Inr x)"

definition throw :: "fault \<Rightarrow> 'a prog" where
  "throw e = Some (Inl e)"

fun andthen :: "'a prog \<Rightarrow> ('a \<Rightarrow> 'b prog) \<Rightarrow> 'b prog" where
  "andthen None f = None"
| "andthen (Some (Inl e)) f = Some (Inl e)"
| "andthen (Some (Inr x)) f = f x"

lemma andthen_ok [simp]: "andthen (ok x) f = f x"
  by (simp add: ok_def)

lemma andthen_throw [simp]: "andthen (throw e) f = throw e"
  by (simp add: throw_def)

lemma ok_inject [simp]: "ok x = ok y \<longleftrightarrow> x = y"
  by (simp add: ok_def)

lemma throw_inject [simp]: "throw e = throw e' \<longleftrightarrow> e = e'"
  by (simp add: throw_def)

lemma ok_not_throw [simp]: "ok x \<noteq> throw e" "throw e \<noteq> ok x"
  by (simp_all add: ok_def throw_def)

lemma prog_not_None [simp]: "ok x \<noteq> None" "None \<noteq> ok x" "throw e \<noteq> None" "None \<noteq> throw e"
  by (simp_all add: ok_def throw_def)

lemma andthen_eq_ok: "andthen m f = ok y \<longleftrightarrow> (\<exists>x. m = ok x \<and> f x = ok y)"
  by (cases "(m, f)" rule: andthen.cases) (auto simp: ok_def)

lemma andthen_eq_throw:
  "andthen m f = throw e \<longleftrightarrow> m = throw e \<or> (\<exists>x. m = ok x \<and> f x = throw e)"
  by (cases "(m, f)" rule: andthen.cases) (auto simp: ok_def throw_def)

lemma prog_cases [case_names diverges throw ok]:
  obtains "m = None" | e where "m = throw e" | x where "m = ok x"
  by (cases m) (auto simp: ok_def throw_def split: sum.splits elim: sumE)

lemma andthen_assoc: "andthen (andthen m f) g = andthen m (\<lambda>x. andthen (f x) g)"
  by (cases "(m, f)" rule: andthen.cases) auto

section \<open>Words\<close>

lemma unat_add_no_wrap:
  fixes x y :: "'a::len word"
  assumes "unat x + unat y < 2 ^ LENGTH('a)"
  shows "unat (x + y) = unat x + unat y"
  using assms by (simp add: unat_word_ariths)

lemma unat_sub_no_wrap:
  fixes x y :: "'a::len word"
  assumes "unat y \<le> unat x"
  shows "unat (x - y) = unat x - unat y"
  using assms by (simp add: unat_sub word_le_nat_alt)

lemma unat_lt32 [simp]: "unat (x :: u32) < 4294967296"
  using unsigned_less[of x] by simp

lemma u32_less_unat: "(x :: u32) < y \<longleftrightarrow> unat x < unat y"
  by (rule word_less_nat_alt)

lemma u32_le_unat: "(x :: u32) \<le> y \<longleftrightarrow> unat x \<le> unat y"
  by (rule word_le_nat_alt)

text \<open>A test of one bit, read as arithmetic on \<open>unat\<close>.\<close>

lemma and_mask_unat:
  "unat (x AND (mask n :: 'a::len word)) = unat x mod 2 ^ n"
  by (simp flip: take_bit_eq_mask add: unsigned_take_bit_eq) (simp add: take_bit_eq_mod)

section \<open>Optional heads and tails of lists\<close>

text \<open>A C pointer to a list element is an option: \<open>None\<close> is the null pointer.\<close>

definition first_ref :: "'a list \<Rightarrow> 'a option" where
  "first_ref xs = (if xs = [] then None else Some (hd xs))"

definition last_ref :: "'a list \<Rightarrow> 'a option" where
  "last_ref xs = (if xs = [] then None else Some (last xs))"

lemma first_ref_simps [simp]:
  "first_ref [] = None" "first_ref (x # xs) = Some x"
  "first_ref (xs @ ys) = (if xs = [] then first_ref ys else first_ref xs)"
  by (simp_all add: first_ref_def)

lemma last_ref_simps [simp]:
  "last_ref [] = None" "last_ref [x] = Some x" "last_ref (xs @ [x]) = Some x"
  by (simp_all add: last_ref_def)

lemma first_ref_None [simp]: "first_ref xs = None \<longleftrightarrow> xs = []"
  by (simp add: first_ref_def)

lemma last_ref_None [simp]: "last_ref xs = None \<longleftrightarrow> xs = []"
  by (simp add: last_ref_def)

lemma last_ref_Cons: "last_ref (x # xs) = (if xs = [] then Some x else last_ref xs)"
  by (simp add: last_ref_def)

lemma last_ref_append: "last_ref (xs @ ys) = (if ys = [] then last_ref xs else last_ref ys)"
  by (simp add: last_ref_def)

end
