(* ===== verification/Fpga_Driver.thy ===== *)
theory Fpga_Driver
  imports Prelude
begin

text \<open>
  The Linux character drivers of the FPGA ports
  (\<^verbatim>\<open>linux_driver/fpgacl_device_driver/fpgacl_device_driver_{hp0,hp1,hp2,hp3,acp}.c\<close>).
  The five files are one text up to the port's name, its register window and its \<open>ioctl\<close>
  numbers; the operations are written once here and instantiated per port in
  \<open>Fpga_Ports\<close>. The state of a driver is its static variables and what it owns in
  the kernel: the doubly linked list of argument nodes (\<open>kmalloc\<close>), the coherent DMA buffers
  and the memory-mapped registers of the accelerator. What the kernel answers (addresses from
  the allocators, bytes not copied from or to the user) is an argument of each operation.
\<close>

section \<open>Data\<close>

record fpga_buffer_type =
  linux_kernel_memory :: addr
  buf_index :: u32
  buf_size :: u32
  phys_add :: u32

record fpga_argument_type =
  kernel_mapped_fpga_address :: addr
  fpga_address_offset :: u32
  arg_type :: u32                 \<comment>\<open>0 for a pointer, 1 for a scalar\<close>
  fpga_buffer :: fpga_buffer_type

record kernel_argument_list_type =
  previous :: addr
  "next" :: addr
  fpga_arguments :: fpga_argument_type

record argument_parameters_type =
  ap_size :: u32
  ap_type_size :: u32
  ap_fpga_reg_offset_address :: u32
  ap_index :: u32

text \<open>\<open>user_data_address\<close> only selects the user memory; its bytes come with the answers.\<close>

record read_write_command_type =
  rw_value :: u32
  rw_argument_index :: u32
  rw_read_write :: u32

text \<open>The kernel's answers to the calls of one operation.\<close>

record kernel_answers =
  kmalloc_ptr :: addr                            \<comment>\<open>0 when out of memory\<close>
  kmalloc_content :: kernel_argument_list_type   \<comment>\<open>the bytes found in the new node\<close>
  dma_ptr :: addr                                \<comment>\<open>0 when out of memory\<close>
  dma_handle :: u32                              \<comment>\<open>the bus address stored through the handle\<close>
  dma_content :: "byte list"                     \<comment>\<open>the bytes found in the new buffer\<close>
  cfu_index :: u32                               \<comment>\<open>bytes not copied, per parameter field\<close>
  cfu_size :: u32
  cfu_offset :: u32
  cfu_type_size :: u32
  copy_rest :: u32                               \<comment>\<open>bytes not copied by the data copy\<close>
  copy_landed :: "byte list"                     \<comment>\<open>what the data copy leaves in the kernel buffer\<close>

record driver =
  device_open :: int
  arguments_list :: addr
  knodes :: "addr \<rightharpoonup> kernel_argument_list_type"
  dma_mem :: "addr \<rightharpoonup> byte list"
  io_base :: addr                                \<comment>\<open>the result of \<open>ioremap\<close>\<close>
  io :: "addr \<Rightarrow> u32"                             \<comment>\<open>the mapped registers\<close>
  chrdev_region :: bool
  cdev_live :: bool

text \<open>A port: its register base and the four \<open>ioctl\<close> numbers of the header.\<close>

record port =
  device_address_base :: u32
  FPGACL_ARGUMEN_POINTER :: u32
  FPGACL_ARGUMEN_DATA :: u32
  FPGACL_START :: u32
  FPGACL_CTRL :: u32

abbreviation ENODEV :: int where "ENODEV \<equiv> 19"
abbreviation EBUSY :: int where "EBUSY \<equiv> 16"

abbreviation FPGACL_DEVICE_NO_PORT :: nat where "FPGACL_DEVICE_NO_PORT \<equiv> 1000"

section \<open>Access to nodes, buffers and registers\<close>

definition node_at :: "driver \<Rightarrow> addr \<Rightarrow> kernel_argument_list_type prog" where
  "node_at s p =
     (if p = NULL then throw NullDeref
      else case knodes s p of None \<Rightarrow> throw UseAfterFree | Some nd \<Rightarrow> ok nd)"

definition set_node :: "driver \<Rightarrow> addr \<Rightarrow> kernel_argument_list_type \<Rightarrow> driver" where
  "set_node s p nd = s\<lparr>knodes := (knodes s)(p \<mapsto> nd)\<rparr>"

text \<open>\<open>iowrite32\<close> and \<open>ioread32\<close> inside the window that \<open>ioremap\<close> was asked for.\<close>

definition in_window :: "driver \<Rightarrow> addr \<Rightarrow> bool" where
  "in_window s a \<longleftrightarrow> unat (a - io_base s) + 4 \<le> FPGACL_DEVICE_NO_PORT"

definition iowrite32 :: "u32 \<Rightarrow> addr \<Rightarrow> driver \<Rightarrow> driver prog" where
  "iowrite32 v a s =
     (if in_window s a then ok (s\<lparr>io := (io s)(a := v)\<rparr>) else throw BadIo)"

definition ioread32 :: "driver \<Rightarrow> addr \<Rightarrow> u32 prog" where
  "ioread32 s a = (if in_window s a then ok (io s a) else throw BadIo)"

text \<open>The first \<open>n\<close> bytes of a kernel buffer, and overwriting them.\<close>

definition kernel_bytes :: "driver \<Rightarrow> addr \<Rightarrow> nat \<Rightarrow> byte list prog" where
  "kernel_bytes s p n =
     (if n = 0 then ok []
      else if p = NULL then throw NullDeref
      else case dma_mem s p of
             None \<Rightarrow> throw UseAfterFree
           | Some b \<Rightarrow> if length b < n then throw OutOfBounds else ok (take n b))"

definition copy_from_user :: "kernel_answers \<Rightarrow> addr \<Rightarrow> nat \<Rightarrow> driver \<Rightarrow> driver prog" where
  "copy_from_user a p n s =
     (if p = NULL then throw NullDeref
      else case dma_mem s p of
             None \<Rightarrow> throw UseAfterFree
           | Some b \<Rightarrow>
               if length b < n then throw OutOfBounds
               else ok (s\<lparr>dma_mem := (dma_mem s)(p \<mapsto> take n (copy_landed a) @ drop n b)\<rparr>))"

section \<open>The argument list\<close>

text \<open>\<open>for (i = 0; i < arg_index; i++) arg = arg->next;\<close>\<close>

fun walk :: "driver \<Rightarrow> addr \<Rightarrow> nat \<Rightarrow> addr prog" where
  "walk s arg 0 = ok arg"
| "walk s arg (Suc n) = andthen (node_at s arg) (\<lambda>nd. walk s (next nd) n)"

text \<open>\<open>while (tail->next != NULL) tail = tail->next;\<close>\<close>

partial_function (option) find_tail :: "driver \<Rightarrow> addr \<Rightarrow> addr prog" where
  "find_tail s tail =
     (if tail = NULL then throw NullDeref
      else case knodes s tail of
             None \<Rightarrow> throw UseAfterFree
           | Some nd \<Rightarrow> if next nd = NULL then ok tail else find_tail s (next nd))"

text \<open>\<open>kmalloc\<close> of a node and its insertion at the end of the list.\<close>

definition append_argument :: "kernel_answers \<Rightarrow> driver \<Rightarrow> (addr \<times> driver) prog" where
  "append_argument a s =
     (let arg = kmalloc_ptr a;
          s1 = (if arg = NULL then s else set_node s arg (kmalloc_content a))
      in if arguments_list s1 = NULL
         then andthen (node_at s1 arg) (\<lambda>nd.
                ok (arg, set_node (s1\<lparr>arguments_list := arg\<rparr>) arg
                           (nd\<lparr>next := NULL, previous := NULL\<rparr>)))
         else andthen (find_tail s1 (arguments_list s1)) (\<lambda>tail.
              andthen (node_at s1 tail) (\<lambda>tnd.
              let s2 = set_node s1 tail (tnd\<lparr>next := arg\<rparr>)
              in andthen (node_at s2 arg) (\<lambda>nd.
                 ok (arg, set_node s2 arg (nd\<lparr>previous := tail, next := NULL\<rparr>))))))"

section \<open>read and write\<close>

definition enpower_opencl_mohammad_read ::
  "kernel_answers \<Rightarrow> read_write_command_type \<Rightarrow> size_t \<Rightarrow> driver \<Rightarrow> (int \<times> byte list) prog" where
  "enpower_opencl_mohammad_read a cmd len s =
     (if rw_read_write cmd = 0
      then andthen (walk s (arguments_list s) (unat (rw_argument_index cmd))) (\<lambda>arg.
           andthen (node_at s arg) (\<lambda>nd.
           andthen (kernel_bytes s (linux_kernel_memory (fpga_buffer (fpga_arguments nd)))
                      (unat len)) (\<lambda>bytes.
           ok (0, take (unat len - unat (copy_rest a)) bytes))))
      else ok (0, []))"

definition enpower_opencl_mohammad_write ::
  "kernel_answers \<Rightarrow> read_write_command_type \<Rightarrow> size_t \<Rightarrow> driver \<Rightarrow> (int \<times> driver) prog" where
  "enpower_opencl_mohammad_write a cmd len s =
     (if rw_read_write cmd = 1
      then if len \<noteq> 0
        then andthen (walk s (arguments_list s) (unat (rw_argument_index cmd))) (\<lambda>arg.
             andthen (node_at s arg) (\<lambda>nd.
             let fa = fpga_arguments nd
             in if arg_type fa = 0
                then andthen (copy_from_user a (linux_kernel_memory (fpga_buffer fa))
                                (unat len) s) (\<lambda>s'. ok (0, s'))
                else if arg_type fa = 1
                then andthen (iowrite32 (rw_value cmd) (kernel_mapped_fpga_address fa) s)
                       (\<lambda>s'. ok (0, s'))
                else ok (0, s)))
        else ok (0, s)
      else ok (0, s))"

section \<open>ioctl\<close>

text \<open>The buffer is updated in place: the result is the buffer, the state and the return value.\<close>

definition fpga_buffer_allocation ::
  "kernel_answers \<Rightarrow> fpga_buffer_type \<Rightarrow> u32 \<Rightarrow> driver \<Rightarrow> fpga_buffer_type \<times> driver \<times> int" where
  "fpga_buffer_allocation a b sz s =
     (let b' = b\<lparr>buf_size := sz, linux_kernel_memory := dma_ptr a, phys_add := dma_handle a\<rparr>
      in if dma_ptr a = NULL then (b', s, - ENODEV)
         else (b', s\<lparr>dma_mem := (dma_mem s)(dma_ptr a \<mapsto> dma_content a)\<rparr>, 0))"

definition set_argument :: "driver \<Rightarrow> addr \<Rightarrow> fpga_argument_type \<Rightarrow> driver prog" where
  "set_argument s p fa =
     andthen (node_at s p) (\<lambda>nd. ok (set_node s p (nd\<lparr>fpga_arguments := fa\<rparr>)))"

definition ioctl_argument_pointer ::
  "kernel_answers \<Rightarrow> argument_parameters_type \<Rightarrow> driver \<Rightarrow> (int \<times> driver) prog" where
  "ioctl_argument_pointer a ap s =
     (if cfu_index a \<noteq> 0 \<or> cfu_size a \<noteq> 0 \<or> cfu_offset a \<noteq> 0 \<or> cfu_type_size a \<noteq> 0
      then ok (- ENODEV, s)
      else
        andthen (append_argument a s) (\<lambda>(arg, s1).
        andthen (node_at s1 arg) (\<lambda>nd.
        let fa = (fpga_arguments nd)
                   \<lparr>fpga_address_offset := ap_fpga_reg_offset_address ap,
                    arg_type := 0,
                    fpga_buffer := (fpga_buffer (fpga_arguments nd))
                      \<lparr>linux_kernel_memory := NULL, buf_size := ap_size ap,
                       buf_index := ap_index ap\<rparr>\<rparr>;
            (b, s2, state) = fpga_buffer_allocation a (fpga_buffer fa) (buf_size (fpga_buffer fa)) s1;
            fa' = fa\<lparr>fpga_buffer := b\<rparr>
        in if state \<noteq> 0
           then andthen (set_argument s2 arg fa') (\<lambda>s3. ok (- ENODEV, s3))
           else let fa'' = fa'\<lparr>kernel_mapped_fpga_address :=
                                  io_base s2 + fpga_address_offset fa'\<rparr>
                in andthen (set_argument s2 arg fa'') (\<lambda>s3.
                   if ap_type_size ap = 0 then throw DivByZero
                   else andthen (iowrite32 (phys_add b div ap_type_size ap)
                                   (kernel_mapped_fpga_address fa'') s3)
                          (\<lambda>s4. ok (0, s4))))))"

definition ioctl_argument_data ::
  "kernel_answers \<Rightarrow> argument_parameters_type \<Rightarrow> driver \<Rightarrow> (int \<times> driver) prog" where
  "ioctl_argument_data a ap s =
     (if cfu_index a \<noteq> 0 \<or> cfu_size a \<noteq> 0 \<or> cfu_offset a \<noteq> 0 then ok (- ENODEV, s)
      else
        andthen (append_argument a s) (\<lambda>(arg, s1).
        andthen (node_at s1 arg) (\<lambda>nd.
        let fa = (fpga_arguments nd)
                   \<lparr>fpga_address_offset := ap_fpga_reg_offset_address ap,
                    arg_type := 1,
                    fpga_buffer := (fpga_buffer (fpga_arguments nd))
                      \<lparr>linux_kernel_memory := NULL, buf_size := 0,
                       buf_index := ap_index ap\<rparr>\<rparr>;
            fa' = fa\<lparr>kernel_mapped_fpga_address := io_base s1 + fpga_address_offset fa\<rparr>
        in andthen (set_argument s1 arg fa') (\<lambda>s2. ok (0, s2)))))"

definition ioctl_start :: "u32 \<Rightarrow> driver \<Rightarrow> (int \<times> driver) prog" where
  "ioctl_start param s =
     andthen (ioread32 s (io_base s + param)) (\<lambda>r.
     let data_cntrl = r AND 0x80
     in andthen (iowrite32 (data_cntrl OR 0x01) (io_base s + param) s) (\<lambda>s'. ok (0, s')))"

definition ioctl_ctrl :: "u32 \<Rightarrow> driver \<Rightarrow> (int \<times> driver) prog" where
  "ioctl_ctrl param s =
     andthen (ioread32 s (io_base s + param)) (\<lambda>data_cntrl.
     ok (uint (drop_bit 1 data_cntrl AND 0x1), s))"

text \<open>
  The parameter of an \<open>ioctl\<close> is the address of user parameters for the first two commands
  (here the parameters themselves) and a register offset for the other two.
\<close>

definition enpower_opencl_mohammad_ioctl ::
  "port \<Rightarrow> kernel_answers \<Rightarrow> u32 \<Rightarrow> argument_parameters_type \<Rightarrow> u32 \<Rightarrow> driver
     \<Rightarrow> (int \<times> driver) prog" where
  "enpower_opencl_mohammad_ioctl P a ioctl_num arg_param ioctl_param s =
     (if ioctl_num = FPGACL_ARGUMEN_POINTER P then ioctl_argument_pointer a arg_param s
      else if ioctl_num = FPGACL_ARGUMEN_DATA P then ioctl_argument_data a arg_param s
      else if ioctl_num = FPGACL_START P then ioctl_start ioctl_param s
      else if ioctl_num = FPGACL_CTRL P then ioctl_ctrl ioctl_param s
      else ok (0, s))"

section \<open>open, release, init and exit\<close>

definition enpower_opencl_mohammad_open :: "driver \<Rightarrow> int \<times> driver" where
  "enpower_opencl_mohammad_open s =
     (if device_open s \<noteq> 0 then (- EBUSY, s)
      else (0, s\<lparr>device_open := device_open s + 1, arguments_list := NULL\<rparr>))"

definition dma_free_coherent :: "addr \<Rightarrow> driver \<Rightarrow> driver prog" where
  "dma_free_coherent p s =
     (if dma_mem s p = None then throw BadFree else ok (s\<lparr>dma_mem := (dma_mem s)(p := None)\<rparr>))"

definition kfree :: "addr \<Rightarrow> driver \<Rightarrow> driver" where
  "kfree p s = s\<lparr>knodes := (knodes s)(p := None)\<rparr>"

definition free_argument :: "addr \<Rightarrow> driver \<Rightarrow> (addr \<times> driver) prog" where
  "free_argument arg s =
     andthen (node_at s arg) (\<lambda>nd.
     andthen (if arg_type (fpga_arguments nd) = 0
              then dma_free_coherent (linux_kernel_memory (fpga_buffer (fpga_arguments nd))) s
              else ok s) (\<lambda>s'. ok (next nd, kfree arg s')))"

partial_function (option) release_arguments :: "addr \<Rightarrow> driver \<Rightarrow> driver prog" where
  "release_arguments arg s =
     (if arg = NULL then ok s
      else case free_argument arg s of
             None \<Rightarrow> None
           | Some (Inl e) \<Rightarrow> throw e
           | Some (Inr (arg_next, s')) \<Rightarrow> release_arguments arg_next s')"

definition enpower_opencl_mohammad_release :: "driver \<Rightarrow> (int \<times> driver) prog" where
  "enpower_opencl_mohammad_release s =
     andthen (release_arguments (arguments_list s) s) (\<lambda>s'.
     ok (0, s'\<lparr>arguments_list := NULL, device_open := device_open s' - 1\<rparr>))"

record init_answers =
  alloc_chrdev_state :: int
  cdev_alloc_ptr :: addr
  cdev_add_state :: int
  ioremap_ptr :: "u32 \<Rightarrow> nat \<Rightarrow> addr"

definition enpower_opencl_mohammad_init ::
  "port \<Rightarrow> init_answers \<Rightarrow> driver \<Rightarrow> (int \<times> driver) prog" where
  "enpower_opencl_mohammad_init P a s =
     (let s1 = (if alloc_chrdev_state a \<noteq> 0 then s else s\<lparr>chrdev_region := True\<rparr>)
      in if cdev_alloc_ptr a = NULL then throw NullDeref
         else let s2 = (if cdev_add_state a < 0 then s1 else s1\<lparr>cdev_live := True\<rparr>);
                  s3 = s2\<lparr>io_base := ioremap_ptr a (device_address_base P) FPGACL_DEVICE_NO_PORT\<rparr>
              in if io_base s3 = NULL then ok (- ENODEV, s3) else ok (0, s3))"

definition enpower_opencl_mohammad_exit :: "driver \<Rightarrow> driver" where
  "enpower_opencl_mohammad_exit s = s\<lparr>cdev_live := False, chrdev_region := False\<rparr>"

end
