(* ===== verification/Fpga_Inv.thy ===== *)
theory Fpga_Inv
  imports Fpga_Driver
begin

text \<open>
  What the pointer structure of a driver represents: the list of its arguments
  (\<open>arguments\<close>), an invariant tying the arguments to the DMA buffers (\<open>driver_inv\<close>), and the
  behaviour of every operation in these terms.
\<close>

section \<open>The argument list as a HOL list\<close>

fun arg_seg :: "(addr \<rightharpoonup> kernel_argument_list_type) \<Rightarrow> addr \<Rightarrow> addr \<Rightarrow> addr list \<Rightarrow> addr \<Rightarrow> bool" where
  "arg_seg h q p [] e \<longleftrightarrow> p = e"
| "arg_seg h q p (a # as) e \<longleftrightarrow>
     p = a \<and> a \<noteq> NULL \<and> (\<exists>nd. h a = Some nd \<and> previous nd = q \<and> arg_seg h a (next nd) as e)"

lemma arg_seg_append:
  "arg_seg h q p (as @ bs) e \<longleftrightarrow>
     (\<exists>r. arg_seg h q p as r \<and> arg_seg h (if as = [] then q else last as) r bs e)"
  by (induction as arbitrary: q p) auto

lemma arg_seg_upd [simp]:
  "a \<notin> set as \<Longrightarrow> arg_seg (h(a := v)) q p as e \<longleftrightarrow> arg_seg h q p as e"
  by (induction as arbitrary: q p) auto

lemma arg_seg_dom: "arg_seg h q p as e \<Longrightarrow> set as \<subseteq> dom h \<and> NULL \<notin> set as"
  by (induction as arbitrary: q p) auto

lemma arg_seg_snoc_upd:
  assumes "arg_seg h q p (as @ [a]) e" and "a \<notin> set as" and "h a = Some nd"
  shows "arg_seg (h(a \<mapsto> nd\<lparr>next := e'\<rparr>)) q p (as @ [a]) e'"
  using assms by (auto simp: arg_seg_append)

lemma arg_seg_fields:
  assumes "arg_seg h q p as e" and "a \<in> set as"
  shows "\<exists>nd. h a = Some nd"
  using arg_seg_dom[OF assms(1)] assms(2) by auto

lemma arg_seg_argument_upd:
  assumes "arg_seg h q p as e" and "h a = Some nd"
  shows "arg_seg (h(a \<mapsto> nd\<lparr>fpga_arguments := fa\<rparr>)) q p as e"
  using assms by (induction as arbitrary: q p) auto

definition rep :: "driver \<Rightarrow> addr list \<Rightarrow> bool" where
  "rep s ps \<longleftrightarrow> arg_seg (knodes s) NULL (arguments_list s) ps NULL \<and> distinct ps
     \<and> dom (knodes s) = set ps"

definition arguments :: "driver \<Rightarrow> addr list \<Rightarrow> fpga_argument_type list" where
  "arguments s ps = map (\<lambda>p. fpga_arguments (the (knodes s p))) ps"

lemma rep_nodes: "rep s ps \<Longrightarrow> p \<in> set ps \<Longrightarrow> p \<noteq> NULL \<and> (\<exists>nd. knodes s p = Some nd)"
  using arg_seg_dom by (fastforce simp: rep_def)

lemma rep_empty: "rep s [] \<longleftrightarrow> arguments_list s = NULL \<and> knodes s = Map.empty"
  by (auto simp: rep_def)

lemma node_at_ok [simp]: "p \<noteq> NULL \<Longrightarrow> knodes s p = Some nd \<Longrightarrow> node_at s p = ok nd"
  by (simp add: node_at_def)

lemma node_at_NULL [simp]: "node_at s NULL = throw NullDeref"
  by (simp add: node_at_def)

lemma walk_seg:
  assumes "arg_seg (knodes s) q p ps NULL"
  shows "walk s p n = (if n < length ps then ok (ps ! n)
           else if n = length ps then ok NULL else throw NullDeref)"
  using assms
proof (induction n arbitrary: q p ps)
  case 0
  then show ?case by (cases ps) auto
next
  case (Suc n)
  show ?case
  proof (cases ps)
    case Nil
    with Suc.prems show ?thesis by simp
  next
    case (Cons a as)
    with Suc.prems obtain nd where nd: "p = a" "a \<noteq> NULL" "knodes s a = Some nd"
      "arg_seg (knodes s) a (next nd) as NULL" by auto
    with Suc.IH[OF nd(4)] Cons show ?thesis by simp
  qed
qed

lemma find_tail_seg:
  assumes "arg_seg (knodes s) q p ps NULL" and "ps \<noteq> []"
  shows "find_tail s p = ok (last ps)"
  using assms
proof (induction ps arbitrary: q p)
  case (Cons a as)
  then obtain nd where nd: "p = a" "a \<noteq> NULL" "knodes s a = Some nd"
    "arg_seg (knodes s) a (next nd) as NULL" by auto
  show ?case
  proof (cases as)
    case Nil
    with nd show ?thesis by (simp add: find_tail.simps[of s a])
  next
    case (Cons b bs)
    with nd have "next nd \<noteq> NULL" by auto
    with nd Cons Cons.IH[OF nd(4)] show ?thesis by (simp add: find_tail.simps[of s a])
  qed
qed simp

section \<open>Appending an argument\<close>

lemma append_argument_NULL:
  assumes "rep s ps" and "kmalloc_ptr a = NULL"
  shows "append_argument a s = throw NullDeref"
proof (cases "ps = []")
  case True
  with assms show ?thesis by (simp add: append_argument_def rep_empty Let_def)
next
  case False
  from assms(1) have seg: "arg_seg (knodes s) NULL (arguments_list s) ps NULL"
    by (simp add: rep_def)
  from rep_nodes[OF assms(1), of "last ps"] False obtain nd
    where "last ps \<noteq> NULL" "knodes s (last ps) = Some nd" by auto
  moreover from seg False have "arguments_list s \<noteq> NULL" by (cases ps) auto
  ultimately show ?thesis
    using assms(2) find_tail_seg[OF seg False] by (simp add: append_argument_def Let_def)
qed

lemma append_argument_ok:
  assumes rep: "rep s ps" and fresh: "kmalloc_ptr a \<noteq> NULL" "knodes s (kmalloc_ptr a) = None"
  obtains s' where "append_argument a s = ok (kmalloc_ptr a, s')"
    and "rep s' (ps @ [kmalloc_ptr a])"
    and "arguments s' (ps @ [kmalloc_ptr a])
           = arguments s ps @ [fpga_arguments (kmalloc_content a)]"
    and "\<exists>l k. s' = s\<lparr>arguments_list := l, knodes := k\<rparr>"
proof -
  let ?p = "kmalloc_ptr a"
  let ?s1 = "set_node s ?p (kmalloc_content a)"
  from rep fresh have notin: "?p \<notin> set ps" by (auto simp: rep_def)
  from rep have seg: "arg_seg (knodes s) NULL (arguments_list s) ps NULL" and dist: "distinct ps"
    and dom: "dom (knodes s) = set ps"
    by (simp_all add: rep_def)
  show thesis
  proof (cases ps rule: rev_cases)
    case Nil
    with rep have e: "arguments_list s = NULL" "knodes s = Map.empty" by (simp_all add: rep_empty)
    let ?s' = "set_node (?s1\<lparr>arguments_list := ?p\<rparr>) ?p
                 ((kmalloc_content a)\<lparr>next := NULL, previous := NULL\<rparr>)"
    from e fresh have "append_argument a s = ok (?p, ?s')"
      by (simp add: append_argument_def Let_def set_node_def)
    moreover from e fresh have "rep ?s' [?p]" by (simp add: rep_def set_node_def)
    ultimately show thesis using Nil that[of ?s']
      by (auto simp: arguments_def set_node_def)
  next
    case (snoc qs t)
    from rep_nodes[OF rep, of t] snoc obtain tnd where t: "t \<noteq> NULL" "knodes s t = Some tnd"
      by auto
    from seg snoc have ne: "arguments_list s \<noteq> NULL" by (cases qs) auto
    from seg notin have seg1: "arg_seg (knodes ?s1) NULL (arguments_list s) ps NULL"
      by (simp add: set_node_def)
    from notin snoc have tp: "t \<noteq> ?p" by auto
    let ?s2 = "set_node ?s1 t (tnd\<lparr>next := ?p\<rparr>)"
    let ?s' = "set_node ?s2 ?p ((kmalloc_content a)\<lparr>previous := t, next := NULL\<rparr>)"
    from find_tail_seg[OF seg1] snoc ne fresh t tp
    have eq: "append_argument a s = ok (?p, ?s')"
      by (simp add: append_argument_def Let_def set_node_def)
    have "arg_seg (knodes ?s2) NULL (arguments_list s) ps ?p"
      using arg_seg_snoc_upd[of "knodes ?s1" NULL "arguments_list s" qs t NULL tnd ?p]
        seg1 snoc dist t tp
      by (simp add: set_node_def)
    with notin tp have "arg_seg (knodes ?s') NULL (arguments_list s) ps ?p"
      by (simp add: set_node_def fun_upd_twist[of ?p t])
    with snoc fresh have "arg_seg (knodes ?s') NULL (arguments_list s) (ps @ [?p]) NULL"
      by (auto simp: arg_seg_append set_node_def)
    with dist notin dom snoc have "rep ?s' (ps @ [?p])"
      by (auto simp: rep_def set_node_def)
    moreover have "arguments ?s' (ps @ [?p]) = arguments s ps @ [fpga_arguments (kmalloc_content a)]"
      using notin t by (auto simp: arguments_def set_node_def)
    moreover have "?s' = s\<lparr>arguments_list := arguments_list s, knodes := knodes ?s'\<rparr>"
      by (simp add: set_node_def)
    ultimately show thesis using that[OF eq] by blast
  qed
qed


section \<open>Looking an argument up\<close>

lemma nth_argument:
  assumes "rep s ps" and "i < length ps"
  obtains nd where "ps ! i \<noteq> NULL" "knodes s (ps ! i) = Some nd"
    "fpga_arguments nd = arguments s ps ! i"
  using rep_nodes[OF assms(1), of "ps ! i"] assms(2) that by (auto simp: arguments_def)

lemma lookup_argument:
  assumes "rep s ps"
  shows "andthen (walk s (arguments_list s) i) (\<lambda>arg. andthen (node_at s arg) f)
           = (if i < length ps then f (the (knodes s (ps ! i))) else throw NullDeref)"
proof -
  from assms have "arg_seg (knodes s) NULL (arguments_list s) ps NULL" by (simp add: rep_def)
  from walk_seg[OF this, of i] assms show ?thesis
    by (auto elim: nth_argument)
qed

lemma length_arguments [simp]: "length (arguments s ps) = length ps"
  by (simp add: arguments_def)

lemma lookup_fields:
  assumes "rep s ps" and "i < length ps"
  shows "fpga_arguments (the (knodes s (ps ! i))) = arguments s ps ! i"
  using assms by (simp add: arguments_def)

lemma set_argument_last:
  assumes "rep s (ps @ [p])"
  obtains s' where "set_argument s p fa = ok s'" "rep s' (ps @ [p])"
    "arguments s' (ps @ [p]) = arguments s ps @ [fa]" "\<exists>k. s' = s\<lparr>knodes := k\<rparr>"
proof -
  from rep_nodes[OF assms, of p] obtain nd where nd: "p \<noteq> NULL" "knodes s p = Some nd" by auto
  let ?s' = "set_node s p (nd\<lparr>fpga_arguments := fa\<rparr>)"
  from assms nd have "rep ?s' (ps @ [p])"
    by (auto simp: rep_def set_node_def intro!: arg_seg_argument_upd)
  moreover from assms have "arguments ?s' (ps @ [p]) = arguments s ps @ [fa]"
    by (auto simp: arguments_def rep_def set_node_def)
  moreover have "\<exists>k. ?s' = s\<lparr>knodes := k\<rparr>" by (auto simp: set_node_def)
  ultimately show thesis using that[of ?s'] nd by (simp add: set_argument_def)
qed

lemma rep_cong:
  "knodes s' = knodes s \<Longrightarrow> arguments_list s' = arguments_list s \<Longrightarrow> rep s' ps = rep s ps"
  by (simp add: rep_def)

lemma arguments_cong: "knodes s' = knodes s \<Longrightarrow> arguments s' ps = arguments s ps"
  by (simp add: arguments_def)

section \<open>The invariant of a driver\<close>

abbreviation kernel_memory :: "fpga_argument_type \<Rightarrow> addr" where
  "kernel_memory fa \<equiv> linux_kernel_memory (fpga_buffer fa)"

definition buf_ptrs :: "fpga_argument_type list \<Rightarrow> addr list" where
  "buf_ptrs fas = filter (\<lambda>p. p \<noteq> NULL) (map kernel_memory fas)"

lemma buf_ptrs_simps [simp]:
  "buf_ptrs [] = []"
  "buf_ptrs (fa # fas) = (if kernel_memory fa = NULL then [] else [kernel_memory fa]) @ buf_ptrs fas"
  "buf_ptrs (fas @ gas) = buf_ptrs fas @ buf_ptrs gas"
  by (simp_all add: buf_ptrs_def)

lemma buf_ptrs_mem: "fa \<in> set fas \<Longrightarrow> kernel_memory fa \<noteq> NULL \<Longrightarrow> kernel_memory fa \<in> set (buf_ptrs fas)"
  by (auto simp: buf_ptrs_def)

definition argument_ok :: "driver \<Rightarrow> fpga_argument_type \<Rightarrow> bool" where
  "argument_ok s fa \<longleftrightarrow>
     (arg_type fa = 0 \<or> arg_type fa = 1 \<and> kernel_memory fa = NULL) \<and>
     (kernel_memory fa \<noteq> NULL \<longrightarrow>
        (\<exists>b. dma_mem s (kernel_memory fa) = Some b \<and> length b = unat (buf_size (fpga_buffer fa)))) \<and>
     (arg_type fa = 1 \<or> kernel_memory fa \<noteq> NULL \<longrightarrow>
        kernel_mapped_fpga_address fa = io_base s + fpga_address_offset fa)"

definition driver_inv :: "driver \<Rightarrow> addr list \<Rightarrow> bool" where
  "driver_inv s ps \<longleftrightarrow>
     rep s ps \<and> (\<forall>fa \<in> set (arguments s ps). argument_ok s fa) \<and>
     distinct (buf_ptrs (arguments s ps)) \<and>
     dom (dma_mem s) = set (buf_ptrs (arguments s ps)) \<and>
     (device_open s = 0 \<and> ps = [] \<or> device_open s = 1)"

text \<open>What a user of the device sees of an argument.\<close>

datatype slot =
    Scalar addr               \<comment>\<open>a scalar, at this register\<close>
  | Buffer "byte list"        \<comment>\<open>a pointer, with the contents of its buffer\<close>
  | Unbacked                  \<comment>\<open>a pointer whose buffer could not be allocated\<close>

definition slot_of :: "driver \<Rightarrow> fpga_argument_type \<Rightarrow> slot" where
  "slot_of s fa =
     (if arg_type fa = 1 then Scalar (kernel_mapped_fpga_address fa)
      else case dma_mem s (kernel_memory fa) of None \<Rightarrow> Unbacked | Some b \<Rightarrow> Buffer b)"

definition slots :: "driver \<Rightarrow> addr list \<Rightarrow> slot list" where
  "slots s ps = map (slot_of s) (arguments s ps)"

lemma length_slots [simp]: "length (slots s ps) = length ps"
  by (simp add: slots_def)

lemma NULL_not_dma: "driver_inv s ps \<Longrightarrow> dma_mem s NULL = None"
  by (auto simp: driver_inv_def buf_ptrs_def)

lemma buffer_slot:
  assumes "driver_inv s ps" and "i < length ps"
    and "slots s ps ! i = Buffer b"
  shows "arg_type (arguments s ps ! i) = 0" and "kernel_memory (arguments s ps ! i) \<noteq> NULL"
    and "dma_mem s (kernel_memory (arguments s ps ! i)) = Some b"
    and "length b = unat (buf_size (fpga_buffer (arguments s ps ! i)))"
proof -
  have "argument_ok s (arguments s ps ! i)"
    using assms by (auto simp: driver_inv_def)
  with assms NULL_not_dma[OF assms(1)]
  show "arg_type (arguments s ps ! i) = 0" and "kernel_memory (arguments s ps ! i) \<noteq> NULL"
    and "dma_mem s (kernel_memory (arguments s ps ! i)) = Some b"
    and "length b = unat (buf_size (fpga_buffer (arguments s ps ! i)))"
    by (auto simp: slots_def slot_of_def argument_ok_def split: if_splits option.splits)
qed

lemma distinct_buf_ptrs_nth:
  assumes "distinct (buf_ptrs fas)" and "i < length fas" and "j < length fas" and "i \<noteq> j"
    and "kernel_memory (fas ! i) \<noteq> NULL"
  shows "kernel_memory (fas ! j) \<noteq> kernel_memory (fas ! i)"
  using assms
proof (induction fas arbitrary: i j)
  case (Cons fa fas)
  then show ?case
    using buf_ptrs_mem[of "fas ! (j - 1)" fas] buf_ptrs_mem[of "fas ! (i - 1)" fas]
    by (cases i; cases j) (auto split: if_splits)
qed simp

end
