(* ===== verification/Fpga_Ops.thy ===== *)
theory Fpga_Ops
  imports Fpga_Inv
begin

text \<open>
  Every operation of the driver in terms of the invariant and of the slots a user sees:
  results on every branch, what changes, and the faults.
\<close>

section \<open>read and write\<close>

lemma write_lookup:
  assumes "rep s ps" and "rw_read_write cmd = 1" and "len \<noteq> 0"
    and "i = unat (rw_argument_index cmd)"
  shows "enpower_opencl_mohammad_write a cmd len s =
    (if i < length ps
     then let fa = arguments s ps ! i
          in if arg_type fa = 0
             then andthen (copy_from_user a (kernel_memory fa) (unat len) s) (\<lambda>s'. ok (0, s'))
             else if arg_type fa = 1
             then andthen (iowrite32 (rw_value cmd) (kernel_mapped_fpga_address fa) s)
                    (\<lambda>s'. ok (0, s'))
             else ok (0, s)
     else throw NullDeref)"
  using assms lookup_fields[OF assms(1)]
  by (simp add: enpower_opencl_mohammad_write_def lookup_argument[OF assms(1)])

lemma read_lookup:
  assumes "rep s ps" and "rw_read_write cmd = 0" and "i = unat (rw_argument_index cmd)"
  shows "enpower_opencl_mohammad_read a cmd len s =
    (if i < length ps
     then andthen (kernel_bytes s (kernel_memory (arguments s ps ! i)) (unat len))
            (\<lambda>bytes. ok (0, take (unat len - unat (copy_rest a)) bytes))
     else throw NullDeref)"
  using assms lookup_fields[OF assms(1)]
  by (simp add: enpower_opencl_mohammad_read_def lookup_argument[OF assms(1)])

lemma driver_inv_rep: "driver_inv s ps \<Longrightarrow> rep s ps"
  by (simp add: driver_inv_def)

lemma driver_inv_dma_upd:
  assumes inv: "driver_inv s ps" and i: "i < length ps" and b: "slots s ps ! i = Buffer b"
    and len: "length b' = length b"
  defines "s' \<equiv> s\<lparr>dma_mem := (dma_mem s)(kernel_memory (arguments s ps ! i) \<mapsto> b')\<rparr>"
  shows "driver_inv s' ps" and "slots s' ps = (slots s ps)[i := Buffer b']"
proof -
  note bs = buffer_slot[OF inv i b]
  have fas: "arguments s' ps = arguments s ps"
    by (rule arguments_cong) (simp add: s'_def)
  have "rep s' ps" using driver_inv_rep[OF inv] rep_cong[of s' s] by (simp add: s'_def)
  moreover have "argument_ok s' fa" if "fa \<in> set (arguments s ps)" for fa
  proof -
    from inv that have "argument_ok s fa" by (simp add: driver_inv_def)
    with bs len show ?thesis by (auto simp: argument_ok_def s'_def)
  qed
  moreover have "dom (dma_mem s') = dom (dma_mem s)" using bs by (auto simp: s'_def)
  moreover have "device_open s' = device_open s" by (simp add: s'_def)
  ultimately show "driver_inv s' ps"
    using inv by (simp add: driver_inv_def fas)
  from inv have dist: "distinct (buf_ptrs (arguments s ps))" by (simp add: driver_inv_def)
  have "slot_of s' (arguments s ps ! j) = (if j = i then Buffer b' else slot_of s (arguments s ps ! j))"
    if "j < length ps" for j
    using bs that i distinct_buf_ptrs_nth[OF dist, of i j]
    by (auto simp: slot_of_def s'_def)
  then show "slots s' ps = (slots s ps)[i := Buffer b']"
    using i by (auto simp: slots_def fas nth_list_update intro!: nth_equalityI)
qed

lemma write_buffer:
  assumes inv: "driver_inv s ps" and cmd: "rw_read_write cmd = 1"
    and i: "unat (rw_argument_index cmd) < length ps"
    and b: "slots s ps ! unat (rw_argument_index cmd) = Buffer b"
    and len: "len \<noteq> 0" "unat len \<le> length b" "length (copy_landed a) = unat len"
  obtains s' where "enpower_opencl_mohammad_write a cmd len s = ok (0, s')"
    and "driver_inv s' ps" and "\<exists>d. s' = s\<lparr>dma_mem := d\<rparr>"
    and "slots s' ps = (slots s ps)[unat (rw_argument_index cmd)
                          := Buffer (copy_landed a @ drop (unat len) b)]"
proof -
  note bs = buffer_slot[OF inv i b]
  have l: "length (copy_landed a @ drop (unat len) b) = length b" using len by simp
  have t: "take (unat len) (copy_landed a) = copy_landed a" using len by simp
  note upd = driver_inv_dma_upd[OF inv i b l]
  have "enpower_opencl_mohammad_write a cmd len s = ok (0, s\<lparr>dma_mem := (dma_mem s)
          (kernel_memory (arguments s ps ! unat (rw_argument_index cmd))
             \<mapsto> copy_landed a @ drop (unat len) b)\<rparr>)"
    using write_lookup[OF driver_inv_rep[OF inv] cmd len(1) refl] i bs len t
    by (simp add: copy_from_user_def)
  then show thesis by (rule that[OF _ upd(1) _ upd(2)]) blast
qed

lemma write_buffer_overflow:
  assumes inv: "driver_inv s ps" and cmd: "rw_read_write cmd = 1"
    and i: "unat (rw_argument_index cmd) < length ps"
    and b: "slots s ps ! unat (rw_argument_index cmd) = Buffer b"
    and len: "length b < unat len"
  shows "enpower_opencl_mohammad_write a cmd len s = throw OutOfBounds"
proof -
  from len have "len \<noteq> 0" by auto
  from write_lookup[OF driver_inv_rep[OF inv] cmd this refl] buffer_slot[OF inv i b] i len
  show ?thesis by (simp add: copy_from_user_def)
qed

lemma write_scalar:
  assumes inv: "driver_inv s ps" and cmd: "rw_read_write cmd = 1"
    and i: "unat (rw_argument_index cmd) < length ps"
    and r: "slots s ps ! unat (rw_argument_index cmd) = Scalar r"
    and len: "len \<noteq> 0" and win: "in_window s r"
  shows "enpower_opencl_mohammad_write a cmd len s
           = ok (0, s\<lparr>io := (io s)(r := rw_value cmd)\<rparr>)"
proof -
  from i r have "arg_type (arguments s ps ! unat (rw_argument_index cmd)) = 1"
    "kernel_mapped_fpga_address (arguments s ps ! unat (rw_argument_index cmd)) = r"
    by (auto simp: slots_def slot_of_def split: if_splits option.splits)
  with write_lookup[OF driver_inv_rep[OF inv] cmd len refl] i win
  show ?thesis by (simp add: iowrite32_def)
qed

lemma read_buffer:
  assumes inv: "driver_inv s ps" and cmd: "rw_read_write cmd = 0"
    and i: "unat (rw_argument_index cmd) < length ps"
    and b: "slots s ps ! unat (rw_argument_index cmd) = Buffer b"
    and len: "unat len \<le> length b"
  shows "enpower_opencl_mohammad_read a cmd len s
           = ok (0, take (unat len - unat (copy_rest a)) b)"
proof -
  have "take (unat len - unat (copy_rest a)) (take (unat len) b)
          = take (unat len - unat (copy_rest a)) b"
    by (simp add: min_def)
  with read_lookup[OF driver_inv_rep[OF inv] cmd refl, of a len] buffer_slot[OF inv i b] i len
  show ?thesis by (auto simp: kernel_bytes_def)
qed

lemma index_out_of_range:
  assumes inv: "driver_inv s ps" and i: "length ps \<le> unat (rw_argument_index cmd)"
  shows "rw_read_write cmd = 0 \<Longrightarrow> enpower_opencl_mohammad_read a cmd len s = throw NullDeref"
    and "rw_read_write cmd = 1 \<Longrightarrow> len \<noteq> 0
           \<Longrightarrow> enpower_opencl_mohammad_write a cmd len s = throw NullDeref"
  using i read_lookup[OF driver_inv_rep[OF inv] _ refl] write_lookup[OF driver_inv_rep[OF inv] _ _ refl]
  by simp_all

section \<open>Registers\<close>

text \<open>Changing registers only keeps everything else.\<close>

lemma driver_inv_io [simp]: "driver_inv (s\<lparr>io := r\<rparr>) ps = driver_inv s ps"
  by (simp add: driver_inv_def rep_def arguments_def argument_ok_def)

lemma slots_io [simp]: "slots (s\<lparr>io := r\<rparr>) ps = slots s ps"
  by (simp add: slots_def arguments_def slot_of_def)

lemma ioctl_start_ok:
  assumes "in_window s (io_base s + param)"
  shows "ioctl_start param s = ok (0, s\<lparr>io := (io s)(io_base s + param :=
           (io s (io_base s + param) AND 0x80) OR 1)\<rparr>)"
  using assms by (simp add: ioctl_start_def ioread32_def iowrite32_def)

lemma ioctl_ctrl_ok:
  assumes "in_window s (io_base s + param)"
  shows "ioctl_ctrl param s = ok (if bit (io s (io_base s + param)) 1 then 1 else 0, s)"
proof -
  have "drop_bit 1 w AND 1 = (if bit w 1 then 1 else 0)" for w :: u32
    by (simp add: and_one_eq bit_iff_odd_drop_bit mod_2_eq_odd)
  with assms show ?thesis by (simp add: ioctl_ctrl_def ioread32_def)
qed

section \<open>Adding arguments\<close>

lemma driver_inv_snoc:
  assumes inv: "driver_inv s ps" and op: "device_open s = 1"
    and rep': "rep s' (ps @ [p])" and args: "arguments s' (ps @ [p]) = arguments s ps @ [fa]"
    and dma: "dma_mem s' = (if kernel_memory fa = NULL then dma_mem s
                            else (dma_mem s)(kernel_memory fa \<mapsto> b))"
    and fresh: "dma_mem s (kernel_memory fa) = None"
    and fa: "argument_ok s' fa"
    and frame: "io_base s' = io_base s" "device_open s' = device_open s"
  shows "driver_inv s' (ps @ [p])" and "slots s' (ps @ [p]) = slots s ps @ [slot_of s' fa]"
proof -
  from inv have dom: "dom (dma_mem s) = set (buf_ptrs (arguments s ps))" by (simp add: driver_inv_def)
  have keep: "dma_mem s' (kernel_memory ga) = dma_mem s (kernel_memory ga)"
    if "ga \<in> set (arguments s ps)" for ga
  proof (cases "kernel_memory ga = NULL")
    case True
    then show ?thesis by (auto simp: dma)
  next
    case False
    with that dom have "kernel_memory ga \<in> dom (dma_mem s)" by (auto dest: buf_ptrs_mem)
    with fresh show ?thesis by (auto simp: dma)
  qed
  have "argument_ok s' ga" if "ga \<in> set (arguments s ps)" for ga
    using inv that keep[OF that] frame by (auto simp: driver_inv_def argument_ok_def)
  with inv op rep' args dma fresh fa dom frame show "driver_inv s' (ps @ [p])"
    by (auto simp: driver_inv_def)
  from keep show "slots s' (ps @ [p]) = slots s ps @ [slot_of s' fa]"
    by (simp add: slots_def args slot_of_def)
qed

text \<open>Allocators return null or memory that is not in use; a new buffer has the size asked for.\<close>

definition fresh_node :: "driver \<Rightarrow> kernel_answers \<Rightarrow> bool" where
  "fresh_node s a \<longleftrightarrow> kmalloc_ptr a \<noteq> NULL \<and> knodes s (kmalloc_ptr a) = None"

definition fresh_buffer :: "driver \<Rightarrow> kernel_answers \<Rightarrow> u32 \<Rightarrow> bool" where
  "fresh_buffer s a sz \<longleftrightarrow> dma_mem s (dma_ptr a) = None \<and> length (dma_content a) = unat sz"

lemma append_fresh:
  assumes inv: "driver_inv s ps" and node: "fresh_node s a"
  obtains s1 l k nd where "append_argument a s = ok (kmalloc_ptr a, s1)"
    and "rep s1 (ps @ [kmalloc_ptr a])" and "s1 = s\<lparr>arguments_list := l, knodes := k\<rparr>"
    and "arguments s1 ps = arguments s ps"
    and "kmalloc_ptr a \<noteq> NULL" and "k (kmalloc_ptr a) = Some nd"
proof -
  let ?p = "kmalloc_ptr a"
  from append_argument_ok[OF driver_inv_rep[OF inv]] node obtain s1 l k
    where s1: "append_argument a s = ok (?p, s1)" "rep s1 (ps @ [?p])"
      "arguments s1 (ps @ [?p]) = arguments s ps @ [fpga_arguments (kmalloc_content a)]"
      "s1 = s\<lparr>arguments_list := l, knodes := k\<rparr>"
    unfolding fresh_node_def by metis
  from rep_nodes[OF s1(2), of ?p] obtain nd where "?p \<noteq> NULL" "knodes s1 ?p = Some nd" by auto
  moreover from s1(3) have "arguments s1 ps = arguments s ps" by (simp add: arguments_def)
  ultimately show thesis using that[OF s1(1,2,4)] s1(4) by simp
qed

lemma ioctl_pointer_ok:
  assumes inv: "driver_inv s ps" and op: "device_open s = 1"
    and cfu: "cfu_index a = 0" "cfu_size a = 0" "cfu_offset a = 0" "cfu_type_size a = 0"
    and node: "fresh_node s a" and buf: "fresh_buffer s a (ap_size ap)" "dma_ptr a \<noteq> NULL"
    and ts: "ap_type_size ap \<noteq> 0"
    and win: "in_window s (io_base s + ap_fpga_reg_offset_address ap)"
  obtains s' where "ioctl_argument_pointer a ap s = ok (0, s')"
    and "driver_inv s' (ps @ [kmalloc_ptr a])"
    and "slots s' (ps @ [kmalloc_ptr a]) = slots s ps @ [Buffer (dma_content a)]"
    and "io s' = (io s)(io_base s + ap_fpga_reg_offset_address ap
                          := dma_handle a div ap_type_size ap)"
    and "device_open s' = 1" and "io_base s' = io_base s"
proof -
  let ?p = "kmalloc_ptr a"
  from append_fresh[OF inv node] obtain s1 l k nd
    where s1: "append_argument a s = ok (?p, s1)" "rep s1 (ps @ [?p])"
      "s1 = s\<lparr>arguments_list := l, knodes := k\<rparr>" "arguments s1 ps = arguments s ps"
      and nd: "?p \<noteq> NULL" "k ?p = Some nd"
    by metis
  let ?s2 = "s1\<lparr>dma_mem := (dma_mem s1)(dma_ptr a \<mapsto> dma_content a)\<rparr>"
  let ?b = "(fpga_buffer (fpga_arguments nd))\<lparr>buf_size := ap_size ap,
              buf_index := ap_index ap, linux_kernel_memory := dma_ptr a, phys_add := dma_handle a\<rparr>"
  let ?fa = "(fpga_arguments nd)\<lparr>fpga_address_offset := ap_fpga_reg_offset_address ap,
               arg_type := 0, fpga_buffer := ?b,
               kernel_mapped_fpga_address := io_base s + ap_fpga_reg_offset_address ap\<rparr>"
  have "rep ?s2 (ps @ [?p])" using s1(2) rep_cong[of ?s2 s1] by simp
  from set_argument_last[OF this] obtain s3 k3
    where s3: "set_argument ?s2 ?p ?fa = ok s3" "rep s3 (ps @ [?p])"
      "arguments s3 (ps @ [?p]) = arguments ?s2 ps @ [?fa]" "s3 = ?s2\<lparr>knodes := k3\<rparr>"
    by metis
  have "arguments ?s2 ps = arguments s ps"
    using s1(4) by (simp add: arguments_def)
  note args3 = s3(3)[unfolded this]
  let ?s4 = "s3\<lparr>io := (io s3)(io_base s + ap_fpga_reg_offset_address ap
                          := dma_handle a div ap_type_size ap)\<rparr>"
  have step: "ioctl_argument_pointer a ap s = ok (0, ?s4)"
    using cfu ts win s1 nd s3 buf(2)
    by (simp add: ioctl_argument_pointer_def fpga_buffer_allocation_def iowrite32_def
        in_window_def Let_def)
  have "driver_inv s3 (ps @ [?p])" "slots s3 (ps @ [?p]) = slots s ps @ [slot_of s3 ?fa]"
    by (rule driver_inv_snoc[OF inv op s3(2) args3, where b = "dma_content a"];
        use s1(3) s3(4) buf in \<open>simp add: fresh_buffer_def argument_ok_def\<close>)+
  moreover have "slot_of s3 ?fa = Buffer (dma_content a)"
    using s3(4) by (simp add: slot_of_def)
  ultimately show thesis
    using that[OF step] s1(3) s3(4) op by simp
qed


lemma ioctl_pointer_no_memory:
  assumes inv: "driver_inv s ps" and op: "device_open s = 1"
    and cfu: "cfu_index a = 0" "cfu_size a = 0" "cfu_offset a = 0" "cfu_type_size a = 0"
    and node: "fresh_node s a" and none: "dma_ptr a = NULL"
  obtains s' where "ioctl_argument_pointer a ap s = ok (- ENODEV, s')"
    and "driver_inv s' (ps @ [kmalloc_ptr a])"
    and "slots s' (ps @ [kmalloc_ptr a]) = slots s ps @ [Unbacked]"
    and "io s' = io s" and "device_open s' = 1" and "io_base s' = io_base s"
proof -
  let ?p = "kmalloc_ptr a"
  from append_fresh[OF inv node] obtain s1 l k nd
    where s1: "append_argument a s = ok (?p, s1)" "rep s1 (ps @ [?p])"
      "s1 = s\<lparr>arguments_list := l, knodes := k\<rparr>" "arguments s1 ps = arguments s ps"
      and nd: "?p \<noteq> NULL" "k ?p = Some nd"
    by metis
  let ?fa = "(fpga_arguments nd)\<lparr>fpga_address_offset := ap_fpga_reg_offset_address ap,
               arg_type := 0, fpga_buffer := (fpga_buffer (fpga_arguments nd))\<lparr>buf_size := ap_size ap,
                 buf_index := ap_index ap, linux_kernel_memory := NULL, phys_add := dma_handle a\<rparr>\<rparr>"
  from set_argument_last[OF s1(2)] obtain s3 k3
    where s3: "set_argument s1 ?p ?fa = ok s3" "rep s3 (ps @ [?p])"
      "arguments s3 (ps @ [?p]) = arguments s1 ps @ [?fa]" "s3 = s1\<lparr>knodes := k3\<rparr>"
    by metis
  have step: "ioctl_argument_pointer a ap s = ok (- ENODEV, s3)"
    using cfu s1 nd s3 none
    by (simp add: ioctl_argument_pointer_def fpga_buffer_allocation_def Let_def)
  have "driver_inv s3 (ps @ [?p])" "slots s3 (ps @ [?p]) = slots s ps @ [slot_of s3 ?fa]"
    by (rule driver_inv_snoc[OF inv op s3(2) s3(3)[unfolded s1(4)]];
        use s1(3) s3(4) NULL_not_dma[OF inv] in \<open>simp add: argument_ok_def\<close>)+
  moreover have "slot_of s3 ?fa = Unbacked"
    using s1(3) s3(4) NULL_not_dma[OF inv] by (simp add: slot_of_def)
  ultimately show thesis
    using that[OF step] s1(3) s3(4) op by simp
qed

lemma ioctl_data_ok:
  assumes inv: "driver_inv s ps" and op: "device_open s = 1"
    and cfu: "cfu_index a = 0" "cfu_size a = 0" "cfu_offset a = 0"
    and node: "fresh_node s a"
  obtains s' where "ioctl_argument_data a ap s = ok (0, s')"
    and "driver_inv s' (ps @ [kmalloc_ptr a])"
    and "slots s' (ps @ [kmalloc_ptr a])
           = slots s ps @ [Scalar (io_base s + ap_fpga_reg_offset_address ap)]"
    and "io s' = io s" and "device_open s' = 1" and "io_base s' = io_base s"
proof -
  let ?p = "kmalloc_ptr a"
  from append_fresh[OF inv node] obtain s1 l k nd
    where s1: "append_argument a s = ok (?p, s1)" "rep s1 (ps @ [?p])"
      "s1 = s\<lparr>arguments_list := l, knodes := k\<rparr>" "arguments s1 ps = arguments s ps"
      and nd: "?p \<noteq> NULL" "k ?p = Some nd"
    by metis
  let ?fa = "(fpga_arguments nd)\<lparr>fpga_address_offset := ap_fpga_reg_offset_address ap,
               arg_type := 1, fpga_buffer := (fpga_buffer (fpga_arguments nd))
                 \<lparr>linux_kernel_memory := NULL, buf_size := 0, buf_index := ap_index ap\<rparr>,
               kernel_mapped_fpga_address := io_base s + ap_fpga_reg_offset_address ap\<rparr>"
  from set_argument_last[OF s1(2)] obtain s3 k3
    where s3: "set_argument s1 ?p ?fa = ok s3" "rep s3 (ps @ [?p])"
      "arguments s3 (ps @ [?p]) = arguments s1 ps @ [?fa]" "s3 = s1\<lparr>knodes := k3\<rparr>"
    by metis
  have step: "ioctl_argument_data a ap s = ok (0, s3)"
    using cfu s1 nd s3 by (simp add: ioctl_argument_data_def Let_def)
  have "driver_inv s3 (ps @ [?p])" "slots s3 (ps @ [?p]) = slots s ps @ [slot_of s3 ?fa]"
    by (rule driver_inv_snoc[OF inv op s3(2) s3(3)[unfolded s1(4)]];
        use s1(3) s3(4) NULL_not_dma[OF inv] in \<open>simp add: argument_ok_def\<close>)+
  moreover have "slot_of s3 ?fa = Scalar (io_base s + ap_fpga_reg_offset_address ap)"
    by (simp add: slot_of_def)
  ultimately show thesis
    using that[OF step] s1(3) s3(4) op by simp
qed

section \<open>open and release\<close>

lemma open_busy: "device_open s = 1 \<Longrightarrow> enpower_opencl_mohammad_open s = (- EBUSY, s)"
  by (simp add: enpower_opencl_mohammad_open_def)

lemma open_free:
  assumes "driver_inv s ps" and "device_open s = 0"
  obtains s' where "enpower_opencl_mohammad_open s = (0, s')" "driver_inv s' []" "device_open s' = 1"
    "io s' = io s" "io_base s' = io_base s"
  using assms
  by (auto simp: enpower_opencl_mohammad_open_def driver_inv_def rep_empty arguments_def)

lemma release_arguments_chain:
  assumes "arg_seg (knodes s) q p ps NULL" and "distinct ps"
    and "\<forall>fa \<in> set (arguments s ps). arg_type fa = 0 \<or> arg_type fa = 1 \<and> kernel_memory fa = NULL"
    and "distinct (buf_ptrs (arguments s ps))" and "dma_mem s NULL = None"
  shows "release_arguments p s =
     (if \<exists>fa \<in> set (arguments s ps). arg_type fa = 0 \<and> dma_mem s (kernel_memory fa) = None
      then throw BadFree
      else ok (s\<lparr>knodes := knodes s |` (- set ps),
                 dma_mem := dma_mem s |` (- set (buf_ptrs (arguments s ps)))\<rparr>))"
  using assms
proof (induction ps arbitrary: q p s)
  case Nil
  then show ?case by (simp add: release_arguments.simps[of 0 s] arguments_def restrict_map_def)
next
  case (Cons a as)
  from Cons.prems(1) obtain nd where nd: "p = a" "a \<noteq> NULL" "knodes s a = Some nd"
    "arg_seg (knodes s) a (next nd) as NULL" by auto
  let ?fa = "fpga_arguments nd"
  have fas: "arguments s (a # as) = ?fa # arguments s as" using nd by (simp add: arguments_def)
  let ?d = "(dma_mem s)(kernel_memory ?fa := None)"
  let ?s' = "s\<lparr>dma_mem := ?d, knodes := (knodes s)(a := None)\<rparr>"
  have fas': "arguments ?s' as = arguments s as"
    using Cons.prems(2) by (auto simp: arguments_def)
  from nd Cons.prems(2) have seg': "arg_seg (knodes ?s') a (next nd) as NULL" by simp
  have notin: "kernel_memory ?fa \<noteq> kernel_memory fa"
    if "fa \<in> set (arguments s as)" "kernel_memory ?fa \<noteq> NULL" for fa
    using Cons.prems(4) that by (auto simp: fas dest: buf_ptrs_mem)
  have IH: "release_arguments (next nd) ?s' =
     (if \<exists>fa \<in> set (arguments s as). arg_type fa = 0 \<and> ?d (kernel_memory fa) = None
      then throw BadFree
      else ok (?s'\<lparr>knodes := knodes ?s' |` (- set as),
                 dma_mem := ?d |` (- set (buf_ptrs (arguments s as)))\<rparr>))"
    using Cons.IH[OF seg'] Cons.prems(2-5) by (simp add: fas fas')
  have d_iff: "?d (kernel_memory fa) = None \<longleftrightarrow> dma_mem s (kernel_memory fa) = None"
    if "fa \<in> set (arguments s as)" for fa
    using notin[OF that] Cons.prems(5) by (cases "kernel_memory ?fa = 0") auto
  have kn: "((knodes s)(a := None)) |` (- set as) = knodes s |` (- insert a (set as))"
    by (auto simp: restrict_map_def fun_eq_iff)
  show ?case
  proof (cases "arg_type ?fa = 0 \<and> dma_mem s (kernel_memory ?fa) = None")
    case True
    with nd show ?thesis
      by (simp add: release_arguments.simps[of a s] free_argument_def dma_free_coherent_def fas)
        (simp add: throw_def)
  next
    case False
    have free: "free_argument a s = ok (next nd, ?s')"
    proof (cases "arg_type ?fa = 0")
      case True
      with False nd show ?thesis
        by (auto simp: free_argument_def dma_free_coherent_def kfree_def)
    next
      case F: False
      with Cons.prems(3) fas have "kernel_memory ?fa = NULL" by auto
      with Cons.prems(5) have "?d = dma_mem s" by auto
      with F nd show ?thesis by (simp add: free_argument_def kfree_def)
    qed
    have mem: "?d |` (- set (buf_ptrs (arguments s as)))
        = dma_mem s |` (- set (buf_ptrs (arguments s (a # as))))"
      using Cons.prems(5) by (auto simp: fas restrict_map_def fun_eq_iff)
    have "release_arguments p s = release_arguments (next nd) ?s'"
      using free nd by (simp add: release_arguments.simps[of a s] ok_def)
    moreover have "?s'\<lparr>knodes := knodes ?s' |` (- set as), dma_mem := ?d |` (- set (buf_ptrs (arguments s as)))\<rparr>
        = s\<lparr>knodes := knodes s |` (- set (a # as)),
            dma_mem := dma_mem s |` (- set (buf_ptrs (arguments s (a # as))))\<rparr>"
      unfolding mem by (simp add: kn[simplified])
    moreover have "(\<exists>fa \<in> set (arguments s as). arg_type fa = 0 \<and> ?d (kernel_memory fa) = None)
        \<longleftrightarrow> (\<exists>fa \<in> set (arguments s (a # as)). arg_type fa = 0 \<and> dma_mem s (kernel_memory fa) = None)"
      using False d_iff by (auto simp: fas)
    ultimately show ?thesis using IH by (simp only:)
  qed
qed

lemma release_ok:
  assumes inv: "driver_inv s ps" and op: "device_open s = 1" and "Unbacked \<notin> set (slots s ps)"
  obtains s' where "enpower_opencl_mohammad_release s = ok (0, s')"
    and "driver_inv s' []" "device_open s' = 0" "knodes s' = Map.empty" "dma_mem s' = Map.empty"
    and "io s' = io s" "io_base s' = io_base s"
proof -
  from inv have r: "rep s ps" "distinct (buf_ptrs (arguments s ps))"
    "dom (dma_mem s) = set (buf_ptrs (arguments s ps))" "dom (knodes s) = set ps"
    "\<forall>fa \<in> set (arguments s ps). arg_type fa = 0 \<or> arg_type fa = 1 \<and> kernel_memory fa = NULL"
    by (auto simp: driver_inv_def rep_def argument_ok_def)
  have e: "knodes s |` (- set ps) = Map.empty"
      "dma_mem s |` (- set (buf_ptrs (arguments s ps))) = Map.empty"
    using r(3,4) by (auto simp: restrict_map_def fun_eq_iff dom_def)
  have "\<not> (\<exists>fa \<in> set (arguments s ps). arg_type fa = 0 \<and> dma_mem s (kernel_memory fa) = None)"
    using assms(3) by (force simp: slots_def slot_of_def)
  with release_arguments_chain[of s NULL "arguments_list s" ps] r NULL_not_dma[OF inv] e
  have "release_arguments (arguments_list s) s = ok (s\<lparr>knodes := Map.empty, dma_mem := Map.empty\<rparr>)"
    by (simp add: rep_def)
  with op that show thesis
    by (simp add: enpower_opencl_mohammad_release_def driver_inv_def rep_empty arguments_def)
qed

lemma release_unbacked:
  assumes inv: "driver_inv s ps" and "Unbacked \<in> set (slots s ps)"
  shows "enpower_opencl_mohammad_release s = throw BadFree"
proof -
  from inv have r: "rep s ps" "distinct (buf_ptrs (arguments s ps))"
    "\<forall>fa \<in> set (arguments s ps). arg_type fa = 0 \<or> arg_type fa = 1 \<and> kernel_memory fa = NULL"
    by (auto simp: driver_inv_def rep_def argument_ok_def)
  with assms(2) have
    "\<exists>fa \<in> set (arguments s ps). arg_type fa = 0 \<and> dma_mem s (kernel_memory fa) = None"
    by (fastforce simp: slots_def slot_of_def split: if_splits option.splits)
  with release_arguments_chain[of s NULL "arguments_list s" ps] r NULL_not_dma[OF inv]
  show ?thesis by (simp add: rep_def enpower_opencl_mohammad_release_def)
qed

end
