(* ===== verification/Fpga_Ports.thy ===== *)
theory Fpga_Ports
  imports Fpga_Ops
begin

text \<open>
  The five port drivers as instances of the one text, the contract of a port as a locale
  interpreted on each of them, and the states a driver reaches under any sequence of system
  calls and hardware activity.
\<close>

section \<open>The five ports\<close>

text \<open>
  \<open>iow magic nr size\<close> is the kernel's macro \<^verbatim>\<open>_IOW\<close> (\<^verbatim>\<open>asm/ioctl.h\<close>), a parameter
  here; the header gives the magic numbers and the register bases.
\<close>

type_synonym iow = "u32 \<Rightarrow> u32 \<Rightarrow> u32 \<Rightarrow> u32"

definition mk_port :: "iow \<Rightarrow> u32 \<Rightarrow> u32 \<Rightarrow> port" where
  "mk_port iow base magic =
     \<lparr>device_address_base = base,
      FPGACL_ARGUMEN_POINTER = iow magic 0 4, FPGACL_ARGUMEN_DATA = iow magic 1 4,
      FPGACL_START = iow magic 2 4, FPGACL_CTRL = iow magic 3 4\<rparr>"

definition port_hp0 :: "iow \<Rightarrow> port" where "port_hp0 iow = mk_port iow 0x43C00000 1000"
definition port_hp1 :: "iow \<Rightarrow> port" where "port_hp1 iow = mk_port iow 0x43C10000 2000"
definition port_hp2 :: "iow \<Rightarrow> port" where "port_hp2 iow = mk_port iow 0x43C20000 2100"
definition port_hp3 :: "iow \<Rightarrow> port" where "port_hp3 iow = mk_port iow 0x43C30000 2200"
definition port_acp :: "iow \<Rightarrow> port" where "port_acp iow = mk_port iow 0x43C40000 2300"

definition command_numbers :: "port \<Rightarrow> u32 list" where
  "command_numbers P =
     [FPGACL_ARGUMEN_POINTER P, FPGACL_ARGUMEN_DATA P, FPGACL_START P, FPGACL_CTRL P]"

record file_operations =
  fop_read :: "kernel_answers \<Rightarrow> read_write_command_type \<Rightarrow> size_t \<Rightarrow> driver \<Rightarrow> (int \<times> byte list) prog"
  fop_write :: "kernel_answers \<Rightarrow> read_write_command_type \<Rightarrow> size_t \<Rightarrow> driver \<Rightarrow> (int \<times> driver) prog"
  fop_unlocked_ioctl :: "kernel_answers \<Rightarrow> u32 \<Rightarrow> argument_parameters_type \<Rightarrow> u32 \<Rightarrow> driver \<Rightarrow> (int \<times> driver) prog"
  fop_open :: "driver \<Rightarrow> int \<times> driver"
  fop_release :: "driver \<Rightarrow> (int \<times> driver) prog"

text \<open>The driver of port hp0 (\<^verbatim>\<open>fpgacl_device_driver_hp0.c\<close>).\<close>

definition enpower_opencl_mohammad_read_hp0 ::
  "kernel_answers \<Rightarrow> read_write_command_type \<Rightarrow> size_t \<Rightarrow> driver \<Rightarrow> (int \<times> byte list) prog" where
  "enpower_opencl_mohammad_read_hp0 = enpower_opencl_mohammad_read"

definition enpower_opencl_mohammad_write_hp0 ::
  "kernel_answers \<Rightarrow> read_write_command_type \<Rightarrow> size_t \<Rightarrow> driver \<Rightarrow> (int \<times> driver) prog" where
  "enpower_opencl_mohammad_write_hp0 = enpower_opencl_mohammad_write"

definition enpower_opencl_mohammad_ioctl_hp0 ::
  "iow \<Rightarrow> kernel_answers \<Rightarrow> u32 \<Rightarrow> argument_parameters_type \<Rightarrow> u32 \<Rightarrow> driver \<Rightarrow> (int \<times> driver) prog" where
  "enpower_opencl_mohammad_ioctl_hp0 iow = enpower_opencl_mohammad_ioctl (port_hp0 iow)"

definition enpower_opencl_mohammad_open_hp0 :: "driver \<Rightarrow> int \<times> driver" where
  "enpower_opencl_mohammad_open_hp0 = enpower_opencl_mohammad_open"

definition enpower_opencl_mohammad_release_hp0 :: "driver \<Rightarrow> (int \<times> driver) prog" where
  "enpower_opencl_mohammad_release_hp0 = enpower_opencl_mohammad_release"

definition enpower_opencl_mohammad_init_hp0 ::
  "iow \<Rightarrow> init_answers \<Rightarrow> driver \<Rightarrow> (int \<times> driver) prog" where
  "enpower_opencl_mohammad_init_hp0 iow = enpower_opencl_mohammad_init (port_hp0 iow)"

definition fpga_buffer_allocation_hp0 ::
  "kernel_answers \<Rightarrow> fpga_buffer_type \<Rightarrow> u32 \<Rightarrow> driver \<Rightarrow> fpga_buffer_type \<times> driver \<times> int" where
  "fpga_buffer_allocation_hp0 = fpga_buffer_allocation"

definition enpower_opencl_mohammad_exit_hp0 :: "driver \<Rightarrow> driver" where
  "enpower_opencl_mohammad_exit_hp0 = enpower_opencl_mohammad_exit"

definition enpower_opencl_mohammad_fops_hp0 :: "iow \<Rightarrow> file_operations" where
  "enpower_opencl_mohammad_fops_hp0 iow =
     \<lparr>fop_read = enpower_opencl_mohammad_read_hp0,
      fop_write = enpower_opencl_mohammad_write_hp0,
      fop_unlocked_ioctl = enpower_opencl_mohammad_ioctl_hp0 iow,
      fop_open = enpower_opencl_mohammad_open_hp0,
      fop_release = enpower_opencl_mohammad_release_hp0\<rparr>"

text \<open>The driver of port hp1 (\<^verbatim>\<open>fpgacl_device_driver_hp1.c\<close>).\<close>

definition enpower_opencl_mohammad_read_hp1 ::
  "kernel_answers \<Rightarrow> read_write_command_type \<Rightarrow> size_t \<Rightarrow> driver \<Rightarrow> (int \<times> byte list) prog" where
  "enpower_opencl_mohammad_read_hp1 = enpower_opencl_mohammad_read"

definition enpower_opencl_mohammad_write_hp1 ::
  "kernel_answers \<Rightarrow> read_write_command_type \<Rightarrow> size_t \<Rightarrow> driver \<Rightarrow> (int \<times> driver) prog" where
  "enpower_opencl_mohammad_write_hp1 = enpower_opencl_mohammad_write"

definition enpower_opencl_mohammad_ioctl_hp1 ::
  "iow \<Rightarrow> kernel_answers \<Rightarrow> u32 \<Rightarrow> argument_parameters_type \<Rightarrow> u32 \<Rightarrow> driver \<Rightarrow> (int \<times> driver) prog" where
  "enpower_opencl_mohammad_ioctl_hp1 iow = enpower_opencl_mohammad_ioctl (port_hp1 iow)"

definition enpower_opencl_mohammad_open_hp1 :: "driver \<Rightarrow> int \<times> driver" where
  "enpower_opencl_mohammad_open_hp1 = enpower_opencl_mohammad_open"

definition enpower_opencl_mohammad_release_hp1 :: "driver \<Rightarrow> (int \<times> driver) prog" where
  "enpower_opencl_mohammad_release_hp1 = enpower_opencl_mohammad_release"

definition enpower_opencl_mohammad_init_hp1 ::
  "iow \<Rightarrow> init_answers \<Rightarrow> driver \<Rightarrow> (int \<times> driver) prog" where
  "enpower_opencl_mohammad_init_hp1 iow = enpower_opencl_mohammad_init (port_hp1 iow)"

definition fpga_buffer_allocation_hp1 ::
  "kernel_answers \<Rightarrow> fpga_buffer_type \<Rightarrow> u32 \<Rightarrow> driver \<Rightarrow> fpga_buffer_type \<times> driver \<times> int" where
  "fpga_buffer_allocation_hp1 = fpga_buffer_allocation"

definition enpower_opencl_mohammad_exit_hp1 :: "driver \<Rightarrow> driver" where
  "enpower_opencl_mohammad_exit_hp1 = enpower_opencl_mohammad_exit"

definition enpower_opencl_mohammad_fops_hp1 :: "iow \<Rightarrow> file_operations" where
  "enpower_opencl_mohammad_fops_hp1 iow =
     \<lparr>fop_read = enpower_opencl_mohammad_read_hp1,
      fop_write = enpower_opencl_mohammad_write_hp1,
      fop_unlocked_ioctl = enpower_opencl_mohammad_ioctl_hp1 iow,
      fop_open = enpower_opencl_mohammad_open_hp1,
      fop_release = enpower_opencl_mohammad_release_hp1\<rparr>"

text \<open>The driver of port hp2 (\<^verbatim>\<open>fpgacl_device_driver_hp2.c\<close>).\<close>

definition enpower_opencl_mohammad_read_hp2 ::
  "kernel_answers \<Rightarrow> read_write_command_type \<Rightarrow> size_t \<Rightarrow> driver \<Rightarrow> (int \<times> byte list) prog" where
  "enpower_opencl_mohammad_read_hp2 = enpower_opencl_mohammad_read"

definition enpower_opencl_mohammad_write_hp2 ::
  "kernel_answers \<Rightarrow> read_write_command_type \<Rightarrow> size_t \<Rightarrow> driver \<Rightarrow> (int \<times> driver) prog" where
  "enpower_opencl_mohammad_write_hp2 = enpower_opencl_mohammad_write"

definition enpower_opencl_mohammad_ioctl_hp2 ::
  "iow \<Rightarrow> kernel_answers \<Rightarrow> u32 \<Rightarrow> argument_parameters_type \<Rightarrow> u32 \<Rightarrow> driver \<Rightarrow> (int \<times> driver) prog" where
  "enpower_opencl_mohammad_ioctl_hp2 iow = enpower_opencl_mohammad_ioctl (port_hp2 iow)"

definition enpower_opencl_mohammad_open_hp2 :: "driver \<Rightarrow> int \<times> driver" where
  "enpower_opencl_mohammad_open_hp2 = enpower_opencl_mohammad_open"

definition enpower_opencl_mohammad_release_hp2 :: "driver \<Rightarrow> (int \<times> driver) prog" where
  "enpower_opencl_mohammad_release_hp2 = enpower_opencl_mohammad_release"

definition enpower_opencl_mohammad_init_hp2 ::
  "iow \<Rightarrow> init_answers \<Rightarrow> driver \<Rightarrow> (int \<times> driver) prog" where
  "enpower_opencl_mohammad_init_hp2 iow = enpower_opencl_mohammad_init (port_hp2 iow)"

definition fpga_buffer_allocation_hp2 ::
  "kernel_answers \<Rightarrow> fpga_buffer_type \<Rightarrow> u32 \<Rightarrow> driver \<Rightarrow> fpga_buffer_type \<times> driver \<times> int" where
  "fpga_buffer_allocation_hp2 = fpga_buffer_allocation"

definition enpower_opencl_mohammad_exit_hp2 :: "driver \<Rightarrow> driver" where
  "enpower_opencl_mohammad_exit_hp2 = enpower_opencl_mohammad_exit"

definition enpower_opencl_mohammad_fops_hp2 :: "iow \<Rightarrow> file_operations" where
  "enpower_opencl_mohammad_fops_hp2 iow =
     \<lparr>fop_read = enpower_opencl_mohammad_read_hp2,
      fop_write = enpower_opencl_mohammad_write_hp2,
      fop_unlocked_ioctl = enpower_opencl_mohammad_ioctl_hp2 iow,
      fop_open = enpower_opencl_mohammad_open_hp2,
      fop_release = enpower_opencl_mohammad_release_hp2\<rparr>"

text \<open>The driver of port hp3 (\<^verbatim>\<open>fpgacl_device_driver_hp3.c\<close>).\<close>

definition enpower_opencl_mohammad_read_hp3 ::
  "kernel_answers \<Rightarrow> read_write_command_type \<Rightarrow> size_t \<Rightarrow> driver \<Rightarrow> (int \<times> byte list) prog" where
  "enpower_opencl_mohammad_read_hp3 = enpower_opencl_mohammad_read"

definition enpower_opencl_mohammad_write_hp3 ::
  "kernel_answers \<Rightarrow> read_write_command_type \<Rightarrow> size_t \<Rightarrow> driver \<Rightarrow> (int \<times> driver) prog" where
  "enpower_opencl_mohammad_write_hp3 = enpower_opencl_mohammad_write"

definition enpower_opencl_mohammad_ioctl_hp3 ::
  "iow \<Rightarrow> kernel_answers \<Rightarrow> u32 \<Rightarrow> argument_parameters_type \<Rightarrow> u32 \<Rightarrow> driver \<Rightarrow> (int \<times> driver) prog" where
  "enpower_opencl_mohammad_ioctl_hp3 iow = enpower_opencl_mohammad_ioctl (port_hp3 iow)"

definition enpower_opencl_mohammad_open_hp3 :: "driver \<Rightarrow> int \<times> driver" where
  "enpower_opencl_mohammad_open_hp3 = enpower_opencl_mohammad_open"

definition enpower_opencl_mohammad_release_hp3 :: "driver \<Rightarrow> (int \<times> driver) prog" where
  "enpower_opencl_mohammad_release_hp3 = enpower_opencl_mohammad_release"

definition enpower_opencl_mohammad_init_hp3 ::
  "iow \<Rightarrow> init_answers \<Rightarrow> driver \<Rightarrow> (int \<times> driver) prog" where
  "enpower_opencl_mohammad_init_hp3 iow = enpower_opencl_mohammad_init (port_hp3 iow)"

definition fpga_buffer_allocation_hp3 ::
  "kernel_answers \<Rightarrow> fpga_buffer_type \<Rightarrow> u32 \<Rightarrow> driver \<Rightarrow> fpga_buffer_type \<times> driver \<times> int" where
  "fpga_buffer_allocation_hp3 = fpga_buffer_allocation"

definition enpower_opencl_mohammad_exit_hp3 :: "driver \<Rightarrow> driver" where
  "enpower_opencl_mohammad_exit_hp3 = enpower_opencl_mohammad_exit"

definition enpower_opencl_mohammad_fops_hp3 :: "iow \<Rightarrow> file_operations" where
  "enpower_opencl_mohammad_fops_hp3 iow =
     \<lparr>fop_read = enpower_opencl_mohammad_read_hp3,
      fop_write = enpower_opencl_mohammad_write_hp3,
      fop_unlocked_ioctl = enpower_opencl_mohammad_ioctl_hp3 iow,
      fop_open = enpower_opencl_mohammad_open_hp3,
      fop_release = enpower_opencl_mohammad_release_hp3\<rparr>"

text \<open>The driver of port acp (\<^verbatim>\<open>fpgacl_device_driver_acp.c\<close>).\<close>

definition enpower_opencl_mohammad_read_acp ::
  "kernel_answers \<Rightarrow> read_write_command_type \<Rightarrow> size_t \<Rightarrow> driver \<Rightarrow> (int \<times> byte list) prog" where
  "enpower_opencl_mohammad_read_acp = enpower_opencl_mohammad_read"

definition enpower_opencl_mohammad_write_acp ::
  "kernel_answers \<Rightarrow> read_write_command_type \<Rightarrow> size_t \<Rightarrow> driver \<Rightarrow> (int \<times> driver) prog" where
  "enpower_opencl_mohammad_write_acp = enpower_opencl_mohammad_write"

definition enpower_opencl_mohammad_ioctl_acp ::
  "iow \<Rightarrow> kernel_answers \<Rightarrow> u32 \<Rightarrow> argument_parameters_type \<Rightarrow> u32 \<Rightarrow> driver \<Rightarrow> (int \<times> driver) prog" where
  "enpower_opencl_mohammad_ioctl_acp iow = enpower_opencl_mohammad_ioctl (port_acp iow)"

definition enpower_opencl_mohammad_open_acp :: "driver \<Rightarrow> int \<times> driver" where
  "enpower_opencl_mohammad_open_acp = enpower_opencl_mohammad_open"

definition enpower_opencl_mohammad_release_acp :: "driver \<Rightarrow> (int \<times> driver) prog" where
  "enpower_opencl_mohammad_release_acp = enpower_opencl_mohammad_release"

definition enpower_opencl_mohammad_init_acp ::
  "iow \<Rightarrow> init_answers \<Rightarrow> driver \<Rightarrow> (int \<times> driver) prog" where
  "enpower_opencl_mohammad_init_acp iow = enpower_opencl_mohammad_init (port_acp iow)"

definition fpga_buffer_allocation_acp ::
  "kernel_answers \<Rightarrow> fpga_buffer_type \<Rightarrow> u32 \<Rightarrow> driver \<Rightarrow> fpga_buffer_type \<times> driver \<times> int" where
  "fpga_buffer_allocation_acp = fpga_buffer_allocation"

definition enpower_opencl_mohammad_exit_acp :: "driver \<Rightarrow> driver" where
  "enpower_opencl_mohammad_exit_acp = enpower_opencl_mohammad_exit"

definition enpower_opencl_mohammad_fops_acp :: "iow \<Rightarrow> file_operations" where
  "enpower_opencl_mohammad_fops_acp iow =
     \<lparr>fop_read = enpower_opencl_mohammad_read_acp,
      fop_write = enpower_opencl_mohammad_write_acp,
      fop_unlocked_ioctl = enpower_opencl_mohammad_ioctl_acp iow,
      fop_open = enpower_opencl_mohammad_open_acp,
      fop_release = enpower_opencl_mohammad_release_acp\<rparr>"

section \<open>The contract of a port\<close>

text \<open>
  \<open>port_shows s xs\<close>: the driver is open and its arguments are \<open>xs\<close>. The laws are what the
  runtime relies on when it drives an accelerator through a port's file operations.
\<close>

definition port_shows :: "driver \<Rightarrow> slot list \<Rightarrow> bool" where
  "port_shows s xs \<longleftrightarrow> (\<exists>ps. driver_inv s ps \<and> slots s ps = xs) \<and> device_open s = 1"

definition idle_driver :: "driver \<Rightarrow> bool" where
  "idle_driver s \<longleftrightarrow> driver_inv s [] \<and> device_open s = 0 \<and> knodes s = Map.empty \<and> dma_mem s = Map.empty"

locale fpga_port =
  fixes fops :: file_operations and P :: port and shows_args :: "driver \<Rightarrow> slot list \<Rightarrow> bool"
    and idle :: "driver \<Rightarrow> bool"
  assumes open_law: "idle s \<Longrightarrow> \<exists>s'. fop_open fops s = (0, s') \<and> shows_args s' []"
    and busy_law: "shows_args s xs \<Longrightarrow> fop_open fops s = (- EBUSY, s)"
    and write_law: "shows_args s xs \<Longrightarrow> unat (rw_argument_index cmd) < length xs \<Longrightarrow>
      xs ! unat (rw_argument_index cmd) = Buffer b \<Longrightarrow> rw_read_write cmd = 1 \<Longrightarrow> len \<noteq> 0 \<Longrightarrow>
      unat len \<le> length b \<Longrightarrow> length (copy_landed a) = unat len \<Longrightarrow>
      \<exists>s'. fop_write fops a cmd len s = ok (0, s') \<and>
        shows_args s' (xs[unat (rw_argument_index cmd) := Buffer (copy_landed a @ drop (unat len) b)])"
    and read_law: "shows_args s xs \<Longrightarrow> unat (rw_argument_index cmd) < length xs \<Longrightarrow>
      xs ! unat (rw_argument_index cmd) = Buffer b \<Longrightarrow> rw_read_write cmd = 0 \<Longrightarrow>
      unat len \<le> length b \<Longrightarrow> copy_rest a = 0 \<Longrightarrow> fop_read fops a cmd len s = ok (0, take (unat len) b)"
    and start_law: "shows_args s xs \<Longrightarrow> distinct (command_numbers P) \<Longrightarrow> unat off + 4 \<le> 1000 \<Longrightarrow>
      \<exists>s'. fop_unlocked_ioctl fops a (FPGACL_START P) ap off s = ok (0, s') \<and> shows_args s' xs"
    and ctrl_law: "shows_args s xs \<Longrightarrow> distinct (command_numbers P) \<Longrightarrow> unat off + 4 \<le> 1000 \<Longrightarrow>
      \<exists>d. fop_unlocked_ioctl fops a (FPGACL_CTRL P) ap off s = ok (d, s) \<and> (d = 0 \<or> d = 1)"
    and release_law: "shows_args s xs \<Longrightarrow> Unbacked \<notin> set xs \<Longrightarrow>
      \<exists>s'. fop_release fops s = ok (0, s') \<and> idle s'"
    and unbacked_law: "shows_args s xs \<Longrightarrow> Unbacked \<in> set xs \<Longrightarrow> fop_release fops s = throw BadFree"
begin

text \<open>What was written to an argument is read back, also after a start and a poll.\<close>

lemma write_start_read:
  assumes "shows_args s xs" and "distinct (command_numbers P)" and "unat off + 4 \<le> 1000"
    and "unat i < length xs" and "xs ! unat i = Buffer b"
    and "len \<noteq> 0" and "unat len \<le> length b" and "length (copy_landed a) = unat len"
    and "copy_rest a' = 0"
  shows "\<exists>s1 s2 d. fop_write fops a \<lparr>rw_value = v, rw_argument_index = i, rw_read_write = 1\<rparr> len s = ok (0, s1)
    \<and> fop_unlocked_ioctl fops a (FPGACL_START P) ap off s1 = ok (0, s2)
    \<and> fop_unlocked_ioctl fops a (FPGACL_CTRL P) ap off s2 = ok (d, s2)
    \<and> fop_read fops a' \<lparr>rw_value = v', rw_argument_index = i, rw_read_write = 0\<rparr> len s2
        = ok (0, copy_landed a)"
proof -
  let ?xs = "xs[unat i := Buffer (copy_landed a @ drop (unat len) b)]"
  from write_law[OF assms(1), of "\<lparr>rw_value = v, rw_argument_index = i, rw_read_write = 1\<rparr>" b len a] assms
  obtain s1 where s1: "fop_write fops a \<lparr>rw_value = v, rw_argument_index = i, rw_read_write = 1\<rparr> len s = ok (0, s1)"
    "shows_args s1 ?xs" by auto
  from start_law[OF s1(2) assms(2,3), of a ap] obtain s2
    where s2: "fop_unlocked_ioctl fops a (FPGACL_START P) ap off s1 = ok (0, s2)" "shows_args s2 ?xs"
    by auto
  from ctrl_law[OF s2(2) assms(2,3), of a ap] obtain d
    where d: "fop_unlocked_ioctl fops a (FPGACL_CTRL P) ap off s2 = ok (d, s2)" by auto
  from read_law[OF s2(2), of "\<lparr>rw_value = v', rw_argument_index = i, rw_read_write = 0\<rparr>"
      "copy_landed a @ drop (unat len) b" len a'] assms
  have "fop_read fops a' \<lparr>rw_value = v', rw_argument_index = i, rw_read_write = 0\<rparr> len s2
      = ok (0, copy_landed a)" by simp
  with s1 s2 d show ?thesis by blast
qed

lemma reopen_after_release:
  assumes "shows_args s xs" and "Unbacked \<notin> set xs"
  shows "\<exists>s1 s2. fop_release fops s = ok (0, s1) \<and> fop_open fops s1 = (0, s2) \<and> shows_args s2 []"
  using release_law[OF assms] open_law by blast

end

section \<open>The generic text meets the contract\<close>

lemma port_shows_io [simp]: "port_shows (s\<lparr>io := r\<rparr>) xs = port_shows s xs"
  by (simp add: port_shows_def)

lemma in_window_offset: "in_window s (io_base s + off) \<longleftrightarrow> unat off + 4 \<le> 1000"
  by (simp add: in_window_def)

lemma ioctl_start_cmd:
  "distinct (command_numbers P) \<Longrightarrow>
     enpower_opencl_mohammad_ioctl P a (FPGACL_START P) ap off s = ioctl_start off s"
  by (auto simp: enpower_opencl_mohammad_ioctl_def command_numbers_def)

lemma ioctl_ctrl_cmd:
  "distinct (command_numbers P) \<Longrightarrow>
     enpower_opencl_mohammad_ioctl P a (FPGACL_CTRL P) ap off s = ioctl_ctrl off s"
  by (auto simp: enpower_opencl_mohammad_ioctl_def command_numbers_def)

lemma port_write_law:
  assumes "port_shows s xs" and "unat (rw_argument_index cmd) < length xs"
    and "xs ! unat (rw_argument_index cmd) = Buffer b" and "rw_read_write cmd = 1" and "len \<noteq> 0"
    and "unat len \<le> length b" and "length (copy_landed a) = unat len"
  shows "\<exists>s'. enpower_opencl_mohammad_write a cmd len s = ok (0, s') \<and>
    port_shows s' (xs[unat (rw_argument_index cmd) := Buffer (copy_landed a @ drop (unat len) b)])"
proof -
  from assms(1) obtain ps where ps: "driver_inv s ps" "slots s ps = xs" "device_open s = 1"
    by (auto simp: port_shows_def)
  from assms(2) ps(2) have i: "unat (rw_argument_index cmd) < length ps" by auto
  from assms(3) ps(2) have b: "slots s ps ! unat (rw_argument_index cmd) = Buffer b" by simp
  show ?thesis
    by (rule write_buffer[OF ps(1) assms(4) i b assms(5-7)]) (use ps in \<open>auto simp: port_shows_def\<close>)
qed

lemma port_read_law:
  assumes "port_shows s xs" and "unat (rw_argument_index cmd) < length xs"
    and "xs ! unat (rw_argument_index cmd) = Buffer b" and "rw_read_write cmd = 0"
    and "unat len \<le> length b" and "copy_rest a = 0"
  shows "enpower_opencl_mohammad_read a cmd len s = ok (0, take (unat len) b)"
  using assms by (auto simp: port_shows_def intro: read_buffer[where a = a, simplified assms(6), simplified])

lemma port_open_law:
  assumes "idle_driver s"
  shows "\<exists>s'. enpower_opencl_mohammad_open s = (0, s') \<and> port_shows s' []"
proof -
  from assms have "driver_inv s []" "device_open s = 0" by (simp_all add: idle_driver_def)
  then show ?thesis
    by (rule open_free) (auto simp: port_shows_def slots_def arguments_def intro: exI[of _ "[]"])
qed

lemma port_release_law:
  assumes "port_shows s xs" and "Unbacked \<notin> set xs"
  shows "\<exists>s'. enpower_opencl_mohammad_release s = ok (0, s') \<and> idle_driver s'"
proof -
  from assms obtain ps where ps: "driver_inv s ps" "device_open s = 1" "Unbacked \<notin> set (slots s ps)"
    by (auto simp: port_shows_def)
  show ?thesis by (rule release_ok[OF ps]) (auto simp: idle_driver_def)
qed

lemma port_unbacked_law: "port_shows s xs \<Longrightarrow> Unbacked \<in> set xs \<Longrightarrow> enpower_opencl_mohammad_release s = throw BadFree"
  by (auto simp: port_shows_def release_unbacked)

lemma fpga_portI:
  assumes "fop_read F = enpower_opencl_mohammad_read" "fop_write F = enpower_opencl_mohammad_write"
    and "fop_unlocked_ioctl F = enpower_opencl_mohammad_ioctl P"
    and "fop_open F = enpower_opencl_mohammad_open" "fop_release F = enpower_opencl_mohammad_release"
  shows "fpga_port F P port_shows idle_driver"
proof
  show "\<exists>s'. fop_open F s = (0, s') \<and> port_shows s' []" if "idle_driver s" for s
    using that by (simp add: assms port_open_law)
  show "fop_open F s = (- EBUSY, s)" if "port_shows s xs" for s xs
    using that by (simp add: assms port_shows_def open_busy)
qed (use assms in \<open>auto simp: port_write_law port_read_law port_release_law port_unbacked_law ioctl_start_cmd ioctl_ctrl_cmd
       ioctl_start_ok ioctl_ctrl_ok in_window_offset\<close>)

interpretation hp0: fpga_port "enpower_opencl_mohammad_fops_hp0 iow" "port_hp0 iow" port_shows idle_driver for iow
  by (rule fpga_portI) (simp_all add: enpower_opencl_mohammad_fops_hp0_def enpower_opencl_mohammad_read_hp0_def
      enpower_opencl_mohammad_write_hp0_def enpower_opencl_mohammad_ioctl_hp0_def
      enpower_opencl_mohammad_open_hp0_def enpower_opencl_mohammad_release_hp0_def)

interpretation hp1: fpga_port "enpower_opencl_mohammad_fops_hp1 iow" "port_hp1 iow" port_shows idle_driver for iow
  by (rule fpga_portI) (simp_all add: enpower_opencl_mohammad_fops_hp1_def enpower_opencl_mohammad_read_hp1_def
      enpower_opencl_mohammad_write_hp1_def enpower_opencl_mohammad_ioctl_hp1_def
      enpower_opencl_mohammad_open_hp1_def enpower_opencl_mohammad_release_hp1_def)

interpretation hp2: fpga_port "enpower_opencl_mohammad_fops_hp2 iow" "port_hp2 iow" port_shows idle_driver for iow
  by (rule fpga_portI) (simp_all add: enpower_opencl_mohammad_fops_hp2_def enpower_opencl_mohammad_read_hp2_def
      enpower_opencl_mohammad_write_hp2_def enpower_opencl_mohammad_ioctl_hp2_def
      enpower_opencl_mohammad_open_hp2_def enpower_opencl_mohammad_release_hp2_def)

interpretation hp3: fpga_port "enpower_opencl_mohammad_fops_hp3 iow" "port_hp3 iow" port_shows idle_driver for iow
  by (rule fpga_portI) (simp_all add: enpower_opencl_mohammad_fops_hp3_def enpower_opencl_mohammad_read_hp3_def
      enpower_opencl_mohammad_write_hp3_def enpower_opencl_mohammad_ioctl_hp3_def
      enpower_opencl_mohammad_open_hp3_def enpower_opencl_mohammad_release_hp3_def)

interpretation acp: fpga_port "enpower_opencl_mohammad_fops_acp iow" "port_acp iow" port_shows idle_driver for iow
  by (rule fpga_portI) (simp_all add: enpower_opencl_mohammad_fops_acp_def enpower_opencl_mohammad_read_acp_def
      enpower_opencl_mohammad_write_acp_def enpower_opencl_mohammad_ioctl_acp_def
      enpower_opencl_mohammad_open_acp_def enpower_opencl_mohammad_release_acp_def)

end
