(* ===== verification/Utlist.thy ===== *)
theory Utlist
  imports Prelude
begin

text \<open>
  The intrusive list macros of \<^verbatim>\<open>include/utlist.h\<close> that the runtime uses, on the link
  fields of the elements, and the contract they share: they implement append and remove on
  the HOL list that a head pointer represents, and touch no links outside it. In a doubly
  linked list of this header the first element's \<open>prev\<close> points to the last element and the
  last element's \<open>next\<close> is null.
\<close>

section \<open>The macros\<close>

record 'p links =
  nxt :: "'p \<Rightarrow> 'p option"
  prv :: "'p \<Rightarrow> 'p option"

definition set_nxt :: "'p \<Rightarrow> 'p option \<Rightarrow> 'p links \<Rightarrow> 'p links" where
  "set_nxt p q lk = lk\<lparr>nxt := (nxt lk)(p := q)\<rparr>"

definition set_prv :: "'p \<Rightarrow> 'p option \<Rightarrow> 'p links \<Rightarrow> 'p links" where
  "set_prv p q lk = lk\<lparr>prv := (prv lk)(p := q)\<rparr>"

definition DL_APPEND :: "'p links \<Rightarrow> 'p option \<Rightarrow> 'p \<Rightarrow> ('p links \<times> 'p option) prog" where
  "DL_APPEND lk head add =
     (case head of
        Some h \<Rightarrow>
          let lk1 = set_prv add (prv lk h) lk
          in (case prv lk1 h of
                None \<Rightarrow> throw NullDeref
              | Some l \<Rightarrow>
                  ok (set_nxt add None (set_prv h (Some add) (set_nxt l (Some add) lk1)), head))
      | None \<Rightarrow> ok (set_nxt add None (set_prv add (Some add) lk), Some add))"

definition DL_DELETE :: "'p links \<Rightarrow> 'p option \<Rightarrow> 'p \<Rightarrow> ('p links \<times> 'p option) prog" where
  "DL_DELETE lk head del =
     (case prv lk del of
        None \<Rightarrow> throw AssertFail
      | Some p \<Rightarrow>
          if p = del then ok (lk, None)
          else if head = Some del
          then (case nxt lk del of
                  None \<Rightarrow> throw NullDeref
                | Some n \<Rightarrow> let lk1 = set_prv n (prv lk del) lk in ok (lk1, nxt lk1 del))
          else let lk1 = set_nxt p (nxt lk del) lk
               in (case nxt lk1 del of
                     Some n \<Rightarrow> ok (set_prv n (prv lk1 del) lk1, head)
                   | None \<Rightarrow> (case head of
                       None \<Rightarrow> throw NullDeref
                     | Some h \<Rightarrow> ok (set_prv h (prv lk1 del) lk1, head))))"

text \<open>The singly linked macros only use \<open>next\<close>: their links are the \<open>next\<close> fields alone.\<close>

type_synonym 'p nexts = "'p \<Rightarrow> 'p option"

definition LL_PREPEND :: "'p nexts \<Rightarrow> 'p option \<Rightarrow> 'p \<Rightarrow> 'p nexts \<times> 'p option" where
  "LL_PREPEND n head add = (n(add := head), Some add)"

text \<open>\<open>while (_tmp->next) _tmp = _tmp->next;\<close>\<close>

partial_function (option) ll_last :: "'p nexts \<Rightarrow> 'p \<Rightarrow> 'p option" where
  "ll_last n tmp = (case n tmp of None \<Rightarrow> Some tmp | Some t \<Rightarrow> ll_last n t)"

definition LL_APPEND :: "'p nexts \<Rightarrow> 'p option \<Rightarrow> 'p \<Rightarrow> ('p nexts \<times> 'p option) prog" where
  "LL_APPEND n head add =
     (let n1 = n(add := None)
      in case head of
           None \<Rightarrow> ok (n1, Some add)
         | Some h \<Rightarrow> (case ll_last n1 h of None \<Rightarrow> None | Some t \<Rightarrow> ok (n1(t := Some add), head)))"

text \<open>\<open>while (_tmp->next && _tmp->next != del) _tmp = _tmp->next;\<close>\<close>

partial_function (option) ll_before :: "'p nexts \<Rightarrow> 'p \<Rightarrow> 'p \<Rightarrow> 'p option" where
  "ll_before n del tmp =
     (case n tmp of None \<Rightarrow> Some tmp | Some t \<Rightarrow> if t = del then Some tmp else ll_before n del t)"

definition LL_DELETE :: "'p nexts \<Rightarrow> 'p option \<Rightarrow> 'p \<Rightarrow> ('p nexts \<times> 'p option) prog" where
  "LL_DELETE n head del =
     (if head = Some del then ok (n, n del)
      else case head of
             None \<Rightarrow> throw NullDeref
           | Some h \<Rightarrow>
               (case ll_before n del h of
                  None \<Rightarrow> None
                | Some t \<Rightarrow> ok (if n t = None then n else n(t := n del), head)))"

text \<open>\<open>LL_FOREACH\<close> and \<open>DL_FOREACH\<close> with a body that stops at the first hit.\<close>

partial_function (option) foreach_find :: "'p nexts \<Rightarrow> ('p \<Rightarrow> bool) \<Rightarrow> 'p option \<Rightarrow> 'p option option" where
  "foreach_find n P el =
     (case el of None \<Rightarrow> Some None | Some e \<Rightarrow> if P e then Some (Some e) else foreach_find n P (n e))"

declare ll_last.simps [code] ll_before.simps [code] foreach_find.simps [code]

section \<open>Segments\<close>

definition or_else :: "'a option \<Rightarrow> 'a option \<Rightarrow> 'a option" where
  "or_else a b = (case a of None \<Rightarrow> b | Some x \<Rightarrow> a)"

lemma or_else_simps [simp]: "or_else None b = b" "or_else (Some x) b = Some x" "or_else a None = a"
  "a \<noteq> None \<Longrightarrow> or_else a b = a"
  by (auto simp: or_else_def split: option.splits)

lemma or_else_assoc: "or_else (or_else a b) c = or_else a (or_else b c)"
  by (cases a) auto

lemma first_ref_append_or_else: "first_ref (xs @ ys) = or_else (first_ref xs) (first_ref ys)"
  by (cases xs) auto

fun nseg :: "'p nexts \<Rightarrow> 'p list \<Rightarrow> 'p option \<Rightarrow> bool" where
  "nseg n [] e \<longleftrightarrow> True"
| "nseg n (x # xs) e \<longleftrightarrow> n x = or_else (first_ref xs) e \<and> nseg n xs e"

fun pseg :: "'p nexts \<Rightarrow> 'p option \<Rightarrow> 'p list \<Rightarrow> bool" where
  "pseg p q [] \<longleftrightarrow> True"
| "pseg p q (x # xs) \<longleftrightarrow> p x = q \<and> pseg p (Some x) xs"

lemma nseg_append [simp]:
  "nseg n (xs @ ys) e \<longleftrightarrow> nseg n xs (or_else (first_ref ys) e) \<and> nseg n ys e"
  by (induction xs) (auto simp: first_ref_append_or_else or_else_assoc)

lemma pseg_append [simp]:
  "pseg p q (xs @ ys) \<longleftrightarrow> pseg p q xs \<and> pseg p (or_else (last_ref xs) q) ys"
  by (induction xs arbitrary: q) (auto simp: last_ref_Cons)

lemma nseg_cong: "(\<And>x. x \<in> set xs \<Longrightarrow> n' x = n x) \<Longrightarrow> nseg n' xs e = nseg n xs e"
  by (induction xs) auto

lemma pseg_cong: "(\<And>x. x \<in> set xs \<Longrightarrow> p' x = p x) \<Longrightarrow> pseg p' q xs = pseg p q xs"
  by (induction xs arbitrary: q) auto

lemma nseg_upd [simp]: "x \<notin> set xs \<Longrightarrow> nseg (n(x := v)) xs e = nseg n xs e"
  by (rule nseg_cong) auto

lemma pseg_upd [simp]: "x \<notin> set xs \<Longrightarrow> pseg (p(x := v)) q xs = pseg p q xs"
  by (rule pseg_cong) auto

text \<open>The singly and the doubly linked list that a head represents.\<close>

definition ll :: "'p nexts \<Rightarrow> 'p option \<Rightarrow> 'p list \<Rightarrow> bool" where
  "ll n head xs \<longleftrightarrow> head = first_ref xs \<and> distinct xs \<and> nseg n xs None"

definition dll :: "'p links \<Rightarrow> 'p option \<Rightarrow> 'p list \<Rightarrow> bool" where
  "dll lk head xs \<longleftrightarrow> head = first_ref xs \<and> distinct xs \<and> nseg (nxt lk) xs None
     \<and> pseg (prv lk) (last_ref xs) xs"

definition agree_nexts :: "'p set \<Rightarrow> 'p nexts \<Rightarrow> 'p nexts \<Rightarrow> bool" where
  "agree_nexts A n n' \<longleftrightarrow> (\<forall>p \<in> A. n' p = n p)"

definition agree_links :: "'p set \<Rightarrow> 'p links \<Rightarrow> 'p links \<Rightarrow> bool" where
  "agree_links A lk lk' \<longleftrightarrow> agree_nexts A (nxt lk) (nxt lk') \<and> agree_nexts A (prv lk) (prv lk')"

lemma set_nxt_sel [simp]: "nxt (set_nxt p q lk) = (nxt lk)(p := q)" "prv (set_nxt p q lk) = prv lk"
  by (simp_all add: set_nxt_def)

lemma set_prv_sel [simp]: "prv (set_prv p q lk) = (prv lk)(p := q)" "nxt (set_prv p q lk) = nxt lk"
  by (simp_all add: set_prv_def)

section \<open>The contract of an intrusive list\<close>

locale intrusive_list =
  fixes rep :: "'h \<Rightarrow> 'p option \<Rightarrow> 'p list \<Rightarrow> bool"
    and agree :: "'p set \<Rightarrow> 'h \<Rightarrow> 'h \<Rightarrow> bool"
    and append :: "'h \<Rightarrow> 'p option \<Rightarrow> 'p \<Rightarrow> ('h \<times> 'p option) prog"
    and delete :: "'h \<Rightarrow> 'p option \<Rightarrow> 'p \<Rightarrow> ('h \<times> 'p option) prog"
  assumes rep_unique: "rep h a xs \<Longrightarrow> rep h a ys \<Longrightarrow> xs = ys"
    and rep_distinct: "rep h a xs \<Longrightarrow> distinct xs"
    and rep_head: "rep h a xs \<Longrightarrow> a = first_ref xs"
    and rep_frame: "agree A h h' \<Longrightarrow> set xs \<subseteq> A \<Longrightarrow> rep h a xs \<Longrightarrow> rep h' a xs"
    and agree_mono: "agree A h h' \<Longrightarrow> B \<subseteq> A \<Longrightarrow> agree B h h'"
    and agree_trans: "agree A h h' \<Longrightarrow> agree A h' h'' \<Longrightarrow> agree A h h''"
    and append_law: "rep h a xs \<Longrightarrow> x \<notin> set xs \<Longrightarrow>
      \<exists>h' a'. append h a x = ok (h', a') \<and> rep h' a' (xs @ [x]) \<and> agree (- insert x (set xs)) h h'"
    and delete_law: "rep h a xs \<Longrightarrow> x \<in> set xs \<Longrightarrow>
      \<exists>h' a'. delete h a x = ok (h', a') \<and> rep h' a' (remove1 x xs) \<and> agree (- set xs) h h'"
begin

text \<open>Moving an element from one list to the end of another.\<close>

lemma move_law:
  assumes "rep h a xs" and "rep h b ys" and "set xs \<inter> set ys = {}" and "x \<in> set xs"
  shows "\<exists>h1 a1 h2 b2. delete h a x = ok (h1, a1) \<and> append h1 b x = ok (h2, b2)
    \<and> rep h2 a1 (remove1 x xs) \<and> rep h2 b2 (ys @ [x]) \<and> agree (- (set xs \<union> set ys)) h h2"
proof -
  from delete_law[OF assms(1,4)] obtain h1 a1
    where 1: "delete h a x = ok (h1, a1)" "rep h1 a1 (remove1 x xs)" "agree (- set xs) h h1" by blast
  have "rep h1 b ys" by (rule rep_frame[OF 1(3) _ assms(2)]) (use assms(3) in auto)
  from append_law[OF this, of x] assms(3,4) obtain h2 b2
    where 2: "append h1 b x = ok (h2, b2)" "rep h2 b2 (ys @ [x])" "agree (- insert x (set ys)) h1 h2"
    by auto
  have "set (remove1 x xs) \<subseteq> - insert x (set ys)"
    using rep_distinct[OF assms(1)] assms(3) by auto
  from rep_frame[OF 2(3) this 1(2)] have "rep h2 a1 (remove1 x xs)" .
  moreover have "agree (- (set xs \<union> set ys)) h h2"
    by (rule agree_trans[OF agree_mono[OF 1(3)] agree_mono[OF 2(3)]]) (use assms(4) in auto)
  ultimately show ?thesis using 1 2 by blast
qed

text \<open>Taking the head of one list and inserting it before the last element of another.\<close>

lemma insert_before_last:
  assumes "rep h a (ys @ [l])" and "rep h b (x # gs)" and "set (ys @ [l]) \<inter> set (x # gs) = {}"
  shows "\<exists>h1 b1 h2 a2 h3 a3 h4 a4. delete h b x = ok (h1, b1) \<and> delete h1 a l = ok (h2, a2)
    \<and> append h2 a2 x = ok (h3, a3) \<and> append h3 a3 l = ok (h4, a4)
    \<and> rep h4 a4 (ys @ [x, l]) \<and> rep h4 b1 gs"
proof -
  let ?A = "set (ys @ [x, l])"
  have dist: "distinct (ys @ [l])" "distinct (x # gs)"
    using rep_distinct[OF assms(1)] rep_distinct[OF assms(2)] by blast+
  from delete_law[OF assms(2), of x] obtain h1 b1
    where 1: "delete h b x = ok (h1, b1)" "rep h1 b1 gs" "agree (- set (x # gs)) h h1" by auto
  have "rep h1 a (ys @ [l])" by (rule rep_frame[OF 1(3) _ assms(1)]) (use assms(3) in auto)
  from delete_law[OF this, of l] dist(1) obtain h2 a2
    where 2: "delete h1 a l = ok (h2, a2)" "rep h2 a2 ys" "agree (- set (ys @ [l])) h1 h2"
    by (auto simp: remove1_append)
  from append_law[OF 2(2), of x] assms(3) obtain h3 a3
    where 3: "append h2 a2 x = ok (h3, a3)" "rep h3 a3 (ys @ [x])" "agree (- insert x (set ys)) h2 h3"
    by auto
  from append_law[OF 3(2), of l] assms(3) dist(1) obtain h4 a4
    where 4: "append h3 a3 l = ok (h4, a4)" "rep h4 a4 (ys @ [x, l])"
      "agree (- insert l (set (ys @ [x]))) h3 h4"
    by auto
  have "agree (- ?A) h1 h4"
    by (intro agree_trans[OF agree_mono[OF 2(3)] agree_trans[OF agree_mono[OF 3(3)] agree_mono[OF 4(3)]]])
      auto
  from rep_frame[OF this _ 1(2)] assms(3) dist(2) have "rep h4 b1 gs" by auto
  with 1 2 3 4 show ?thesis by blast
qed

end

section \<open>The doubly linked macros meet the contract\<close>

lemma dll_distinct: "dll lk h xs \<Longrightarrow> distinct xs"
  by (simp add: dll_def)

lemma DL_APPEND_dll:
  assumes "dll lk head xs" and "x \<notin> set xs"
  obtains lk' head' where "DL_APPEND lk head x = ok (lk', head')" and "dll lk' head' (xs @ [x])"
    and "agree_links (- insert x (set xs)) lk lk'" and "nxt lk' x = None"
proof (cases xs rule: rev_cases)
  case Nil
  let ?lk = "set_nxt x None (set_prv x (Some x) lk)"
  from Nil assms have "DL_APPEND lk head x = ok (?lk, Some x)"
    by (simp add: DL_APPEND_def dll_def)
  then show thesis by (rule that) (use Nil in \<open>auto simp: dll_def agree_links_def agree_nexts_def\<close>)
next
  case (snoc ys l)
  obtain h zs0 where h0: "xs = h # zs0" using snoc by (metis list.exhaust snoc_eq_iff_butlast)
  with assms have h: "head = Some h" "h = hd xs" "h \<in> set xs" by (auto simp: dll_def)
  have ls: "last_ref xs = Some l" "l \<in> set xs" using snoc by simp_all
  have pl: "prv lk h = Some l" "pseg (prv lk) (Some h) zs0" using assms(1) h0 ls(1) by (auto simp: dll_def)
  have hx: "h \<noteq> x" "h \<notin> set zs0" "x \<notin> set zs0" using assms h0 by (auto simp: dll_def)
  let ?lk = "set_nxt x None (set_prv h (Some x) (set_nxt l (Some x) (set_prv x (Some l) lk)))"
  have eq: "DL_APPEND lk head x = ok (?lk, head)"
    using h(1) pl(1) hx(1) by (simp add: DL_APPEND_def Let_def)
  have d: "nseg (nxt lk) ys (Some l)" "nxt lk l = None" "l \<notin> set ys" "x \<notin> set ys" "x \<noteq> l"
    using assms snoc by (auto simp: dll_def)
  have "pseg (prv ?lk) (Some x) xs" unfolding h0 using pl(2) hx by simp
  moreover have "prv ?lk x = Some l" using hx(1) by simp
  moreover have "nseg (nxt ?lk) (xs @ [x]) None" unfolding snoc using d by simp
  moreover have "first_ref (xs @ [x]) = head" using h(1) h0 by simp
  ultimately have "dll ?lk head (xs @ [x])"
    using assms ls(1) by (simp add: dll_def)
  moreover have "agree_links (- insert x (set xs)) lk ?lk"
    using h(3) ls(2) by (auto simp: agree_links_def agree_nexts_def)
  ultimately show thesis using eq that by simp
qed

lemma DL_DELETE_dll:
  assumes "dll lk head xs" and "x \<in> set xs"
  obtains lk' head' where "DL_DELETE lk head x = ok (lk', head')" and "dll lk' head' (remove1 x xs)"
    and "agree_links (- set xs) lk lk'" and "nxt lk' x = nxt lk x"
proof -
  from assms(2) obtain as bs where xs: "xs = as @ x # bs" "x \<notin> set as"
    by (metis split_list_first)
  from assms(1) xs have d: "distinct (as @ x # bs)" "head = first_ref (as @ x # bs)"
    and n: "nseg (nxt lk) as (Some x)" "nxt lk x = first_ref bs" "nseg (nxt lk) bs None"
    and p: "pseg (prv lk) (last_ref xs) as" "prv lk x = or_else (last_ref as) (last_ref xs)"
      "pseg (prv lk) (Some x) bs"
    by (auto simp: dll_def)
  have rm: "remove1 x xs = as @ bs" using xs by (simp add: remove1_append)
  show thesis
  proof (cases as rule: rev_cases)
    case Nil
    show thesis
    proof (cases bs)
      case bs: Nil
      with Nil p xs have "DL_DELETE lk head x = ok (lk, None)" by (simp add: DL_DELETE_def last_ref_def)
      then show thesis by (rule that) (use Nil bs rm in \<open>auto simp: dll_def agree_links_def agree_nexts_def\<close>)
    next
      case (Cons b cs)
      let ?lk = "set_prv b (prv lk x) lk"
      have px: "prv lk x = last_ref bs" using p Nil Cons xs by (simp add: last_ref_def)
      have "last_ref bs \<noteq> Some x" using d Cons by (auto simp: last_ref_def)
      then have "DL_DELETE lk head x = ok (?lk, Some b)"
        using Nil Cons d n px by (auto simp: DL_DELETE_def Let_def last_ref_def)
      moreover have "dll ?lk (Some b) (remove1 x xs)"
        using Nil Cons rm d n p px by (auto simp: dll_def)
      moreover have "agree_links (- set xs) lk ?lk"
        using xs Cons by (auto simp: agree_links_def agree_nexts_def)
      ultimately show thesis by (rule that) simp
    qed
  next
    case (snoc cs l)
    have px: "prv lk x = Some l" and ne: "l \<noteq> x" "head \<noteq> Some x" using p d snoc
      by (auto simp: first_ref_def hd_append split: if_splits)
    show thesis
    proof (cases bs)
      case Nil
      define h where "h = hd (cs @ [l])"
      have h: "head = Some h" using d snoc by (cases cs) (auto simp: h_def)
      have hin: "h \<in> set xs" using xs snoc by (cases cs) (auto simp: h_def)
      let ?lk = "set_prv h (Some l) (set_nxt l None lk)"
      have "DL_DELETE lk head x = ok (?lk, head)"
        using px ne n Nil h by (simp add: DL_DELETE_def Let_def)
      moreover have "dll ?lk head (remove1 x xs)"
        using Nil rm snoc d n p h xs by (cases cs) (auto simp: dll_def last_ref_Cons h_def)
      moreover have "agree_links (- set xs) lk ?lk"
        using xs hin snoc by (auto simp: agree_links_def agree_nexts_def)
      ultimately show thesis by (rule that) (use ne in simp)
    next
      case (Cons b es)
      let ?lk = "set_prv b (Some l) (set_nxt l (Some b) lk)"
      have "DL_DELETE lk head x = ok (?lk, head)"
        using px ne n Cons by (auto simp: DL_DELETE_def Let_def)
      moreover have "dll ?lk head (remove1 x xs)"
        using Cons rm snoc d n p xs by (auto simp: dll_def last_ref_def first_ref_def hd_append split: if_splits)
      moreover have "agree_links (- set xs) lk ?lk"
        using xs Cons snoc by (auto simp: agree_links_def agree_nexts_def)
      ultimately show thesis by (rule that) (use ne in simp)
    qed
  qed
qed

lemma dll_unique: "dll lk h xs \<Longrightarrow> dll lk h ys \<Longrightarrow> xs = ys"
proof -
  have gen: "nseg n xs None \<Longrightarrow> nseg n ys None \<Longrightarrow> first_ref xs = first_ref ys \<Longrightarrow> xs = ys" for n :: "'a nexts"
  proof (induction xs arbitrary: ys)
    case (Cons x xs)
    then show ?case by (cases ys) auto
  qed (metis first_ref_None first_ref_simps(1))
  show "dll lk h xs \<Longrightarrow> dll lk h ys \<Longrightarrow> xs = ys" using gen[of "nxt lk"] by (auto simp: dll_def)
qed

lemma dll_frame: "agree_links A lk lk' \<Longrightarrow> set xs \<subseteq> A \<Longrightarrow> dll lk h xs \<Longrightarrow> dll lk' h xs"
  using nseg_cong[of xs "nxt lk'" "nxt lk"] pseg_cong[of xs "prv lk'" "prv lk"]
  by (auto simp: dll_def agree_links_def agree_nexts_def subset_iff)

interpretation dl: intrusive_list dll agree_links DL_APPEND DL_DELETE
proof
  show "\<exists>lk' a'. DL_APPEND lk a x = ok (lk', a') \<and> dll lk' a' (xs @ [x])
      \<and> agree_links (- insert x (set xs)) lk lk'"
    if "dll lk a xs" "x \<notin> set xs" for lk :: "'a links" and a xs x
    by (rule DL_APPEND_dll[OF that]) blast
  show "\<exists>lk' a'. DL_DELETE lk a x = ok (lk', a') \<and> dll lk' a' (remove1 x xs)
      \<and> agree_links (- set xs) lk lk'"
    if "dll lk a xs" "x \<in> set xs" for lk :: "'a links" and a xs x
    by (rule DL_DELETE_dll[OF that]) blast
  show "xs = ys" if "dll lk a xs" "dll lk a ys" for lk :: "'a links" and a xs ys
    using that by (rule dll_unique)
  show "dll lk' a xs" if "agree_links A lk lk'" "set xs \<subseteq> A" "dll lk a xs" for lk lk' :: "'a links" and A a xs
    using that by (rule dll_frame)
qed (auto simp: agree_links_def agree_nexts_def dll_def)

section \<open>The singly linked macros meet the contract\<close>

lemma ll_unique: "ll n h xs \<Longrightarrow> ll n h ys \<Longrightarrow> xs = ys"
proof -
  have gen: "nseg n xs None \<Longrightarrow> nseg n ys None \<Longrightarrow> first_ref xs = first_ref ys \<Longrightarrow> xs = ys"
  proof (induction xs arbitrary: ys)
    case (Cons x xs)
    then show ?case by (cases ys) auto
  qed (metis first_ref_None first_ref_simps(1))
  show "ll n h xs \<Longrightarrow> ll n h ys \<Longrightarrow> xs = ys" using gen by (auto simp: ll_def)
qed

lemma ll_frame: "agree_nexts A n n' \<Longrightarrow> set xs \<subseteq> A \<Longrightarrow> ll n h xs \<Longrightarrow> ll n' h xs"
  using nseg_cong[of xs n' n] by (auto simp: ll_def agree_nexts_def subset_iff)

lemma ll_last_seg:
  "nseg n (x # xs) None \<Longrightarrow> ll_last n x = Some (last (x # xs))"
proof (induction xs arbitrary: x)
  case Nil
  then show ?case by (simp add: ll_last.simps[of n x])
next
  case (Cons y ys)
  then show ?case by (simp add: ll_last.simps[of n x])
qed

lemma ll_before_seg:
  assumes "nseg n (x # as) (Some d)" and "d \<notin> set (x # as)"
  shows "ll_before n d x = Some (last (x # as))"
  using assms
proof (induction as arbitrary: x)
  case Nil
  then show ?case by (simp add: ll_before.simps[of n d x])
next
  case (Cons y ys)
  then show ?case by (auto simp: ll_before.simps[of n d x])
qed

lemma LL_APPEND_ll:
  assumes "ll n head xs" and "x \<notin> set xs"
  obtains n' head' where "LL_APPEND n head x = ok (n', head')" and "ll n' head' (xs @ [x])"
    and "agree_nexts (- insert x (set xs)) n n'"
proof (cases xs rule: rev_cases)
  case Nil
  with assms have "LL_APPEND n head x = ok (n(x := None), Some x)"
    by (simp add: LL_APPEND_def ll_def)
  then show thesis by (rule that) (use Nil in \<open>auto simp: ll_def agree_nexts_def\<close>)
next
  case (snoc ys l)
  obtain h zs where "xs = h # zs" using snoc by (metis list.exhaust snoc_eq_iff_butlast)
  with assms have h: "xs = h # zs" "head = Some h" by (simp_all add: ll_def)
  have "nseg (n(x := None)) xs None" using assms by (simp add: ll_def)
  with h have "ll_last (n(x := None)) h = Some (last xs)" using ll_last_seg by metis
  moreover have "last xs = l" using snoc by simp
  ultimately have "LL_APPEND n head x = ok (n(x := None, l := Some x), head)"
    using h(2) by (simp add: LL_APPEND_def Let_def)
  then show thesis
    by (rule that) (use assms snoc in \<open>auto simp: ll_def agree_nexts_def fun_upd_twist[of x l]\<close>)
qed

lemma LL_DELETE_ll:
  assumes "ll n head xs" and "x \<in> set xs"
  obtains n' head' where "LL_DELETE n head x = ok (n', head')" and "ll n' head' (remove1 x xs)"
    and "agree_nexts (- set xs) n n'" and "n' x = n x"
proof -
  from assms(2) obtain as bs where xs: "xs = as @ x # bs" "x \<notin> set as" by (metis split_list_first)
  from assms(1) xs have d: "distinct (as @ x # bs)" "head = first_ref (as @ x # bs)"
    and n: "nseg n as (Some x)" "n x = first_ref bs" "nseg n bs None"
    by (auto simp: ll_def)
  have rm: "remove1 x xs = as @ bs" using xs by (simp add: remove1_append)
  show thesis
  proof (cases as)
    case Nil
    with d n have "LL_DELETE n head x = ok (n, first_ref bs)" by (simp add: LL_DELETE_def)
    then show thesis by (rule that) (use Nil d n rm in \<open>auto simp: ll_def agree_nexts_def\<close>)
  next
    case (Cons a cs)
    obtain ys l where yl: "as = ys @ [l]" using Cons by (metis list.distinct(1) rev_exhaust)
    have "ll_before n x a = Some l" using ll_before_seg[of n a cs x] n(1) xs(2) yl Cons
      by (metis last_snoc)
    moreover have nl: "n l = Some x" "nseg n ys (Some l)" using n(1) yl by auto
    moreover have "head = Some a" "a \<noteq> x" using d Cons by auto
    ultimately have eq: "LL_DELETE n head x = ok (n(l := n x), head)"
      by (simp add: LL_DELETE_def)
    have "ll (n(l := n x)) head (remove1 x xs)"
      using d n(2,3) nl yl by (auto simp: ll_def rm)
    then show thesis
      using xs d yl by (intro that[OF eq]) (auto simp: agree_nexts_def)
  qed
qed

interpretation sl: intrusive_list ll agree_nexts LL_APPEND LL_DELETE
proof
  show "\<exists>n' a'. LL_APPEND n a x = ok (n', a') \<and> ll n' a' (xs @ [x])
      \<and> agree_nexts (- insert x (set xs)) n n'"
    if "ll n a xs" "x \<notin> set xs" for n :: "'a nexts" and a xs x
    by (rule LL_APPEND_ll[OF that]) blast
  show "\<exists>n' a'. LL_DELETE n a x = ok (n', a') \<and> ll n' a' (remove1 x xs) \<and> agree_nexts (- set xs) n n'"
    if "ll n a xs" "x \<in> set xs" for n :: "'a nexts" and a xs x
    by (rule LL_DELETE_ll[OF that]) blast
  show "xs = ys" if "ll n a xs" "ll n a ys" for n :: "'a nexts" and a xs ys
    using that by (rule ll_unique)
  show "ll n' a xs" if "agree_nexts A n n'" "set xs \<subseteq> A" "ll n a xs" for n n' :: "'a nexts" and A a xs
    using that by (rule ll_frame)
qed (auto simp: agree_nexts_def ll_def)

lemma LL_PREPEND_ll:
  assumes "ll n head xs" and "x \<notin> set xs"
  shows "ll (fst (LL_PREPEND n head x)) (snd (LL_PREPEND n head x)) (x # xs)"
    and "agree_nexts (- {x}) n (fst (LL_PREPEND n head x))"
  using assms by (auto simp: LL_PREPEND_def ll_def agree_nexts_def)

text \<open>A search over the list finds the first element that satisfies the test.\<close>

lemma foreach_find_seg:
  "nseg n xs None \<Longrightarrow> foreach_find n P (first_ref xs) = Some (find P xs)"
  by (induction xs) (simp_all add: foreach_find.simps[of n P])

lemma foreach_find_dll: "dll lk h xs \<Longrightarrow> foreach_find (nxt lk) P h = Some (find P xs)"
  using foreach_find_seg by (auto simp: dll_def)

lemma foreach_find_ll: "ll n h xs \<Longrightarrow> foreach_find n P h = Some (find P xs)"
  using foreach_find_seg by (auto simp: ll_def)

end
