(* ===== verification/Cl_Defs.thy ===== *)
theory Cl_Defs
  imports Utlist
begin

text \<open>
  The OpenCL constants and objects that several parts of the runtime share
  (\<^verbatim>\<open>include/CL/cl.h\<close>, \<^verbatim>\<open>lib/CL/pocl_cl.h\<close>). Status codes are C \<open>int\<close>s, none of which comes
  near the bounds of the type.
\<close>

section \<open>Status codes\<close>

abbreviation CL_SUCCESS :: int where "CL_SUCCESS \<equiv> 0"
abbreviation CL_MEM_OBJECT_ALLOCATION_FAILURE :: int where "CL_MEM_OBJECT_ALLOCATION_FAILURE \<equiv> -4"
abbreviation CL_OUT_OF_RESOURCES :: int where "CL_OUT_OF_RESOURCES \<equiv> -5"
abbreviation CL_OUT_OF_HOST_MEMORY :: int where "CL_OUT_OF_HOST_MEMORY \<equiv> -6"
abbreviation CL_MEM_COPY_OVERLAP :: int where "CL_MEM_COPY_OVERLAP \<equiv> -8"
abbreviation CL_INVALID_VALUE :: int where "CL_INVALID_VALUE \<equiv> -30"
abbreviation CL_INVALID_CONTEXT :: int where "CL_INVALID_CONTEXT \<equiv> -34"
abbreviation CL_INVALID_COMMAND_QUEUE :: int where "CL_INVALID_COMMAND_QUEUE \<equiv> -36"
abbreviation CL_INVALID_MEM_OBJECT :: int where "CL_INVALID_MEM_OBJECT \<equiv> -38"
abbreviation CL_INVALID_PROGRAM :: int where "CL_INVALID_PROGRAM \<equiv> -44"
abbreviation CL_INVALID_KERNEL :: int where "CL_INVALID_KERNEL \<equiv> -48"
abbreviation CL_INVALID_WORK_DIMENSION :: int where "CL_INVALID_WORK_DIMENSION \<equiv> -53"
abbreviation CL_INVALID_WORK_GROUP_SIZE :: int where "CL_INVALID_WORK_GROUP_SIZE \<equiv> -54"
abbreviation CL_INVALID_WORK_ITEM_SIZE :: int where "CL_INVALID_WORK_ITEM_SIZE \<equiv> -55"
abbreviation CL_INVALID_GLOBAL_OFFSET :: int where "CL_INVALID_GLOBAL_OFFSET \<equiv> -56"
abbreviation CL_INVALID_EVENT_WAIT_LIST :: int where "CL_INVALID_EVENT_WAIT_LIST \<equiv> -57"
abbreviation CL_INVALID_EVENT :: int where "CL_INVALID_EVENT \<equiv> -58"
abbreviation CL_INVALID_GLOBAL_WORK_SIZE :: int where "CL_INVALID_GLOBAL_WORK_SIZE \<equiv> -63"

section \<open>Memory objects\<close>

type_synonym vec3 = "size_t \<times> size_t \<times> size_t"
type_synonym cl_bitfield = "64 word"

abbreviation CL_MEM_OBJECT_BUFFER :: int where "CL_MEM_OBJECT_BUFFER \<equiv> 0x10F0"

text \<open>
  A pointer to an object of the runtime is the number of the object. \<open>device_ptrs\<close> gives the
  buffer's pointer per device; \<open>mappings\<close> is the head of the list of mapped regions.
\<close>

record cl_mem =
  mem_refcount :: int
  mem_type :: int
  mem_flags :: cl_bitfield
  mem_size :: size_t
  mem_host_ptr :: addr
  map_count :: u32
  mem_context :: nat
  device_ptrs :: "nat \<Rightarrow> addr"
  mappings :: "nat option"
  parent :: "nat option"

section \<open>Words from their values\<close>

lemma word_of_unat: "(x :: 'a::len word) = of_nat (unat x)"
  by simp

lemma unat_eqI:
  "(w :: u32) = of_nat n \<Longrightarrow> n < 2 ^ 32 \<Longrightarrow> unat w = n"
  by (simp add: unat_of_nat)

end
