(* ===== verification/Zynq_Run.thy ===== *)
theory Zynq_Run
  imports Fpga_Ports Cl_Defs
begin

text \<open>
  The runtime's side of the FPGA (\<^verbatim>\<open>lib/CL/devices/zynq_basic/zynq_basic.c\<close>): the table of buffers
  and \<open>pocl_zynq_basic_run\<close>, which splits an image into five blocks of lines and drives five
  accelerators through the device files of the port drivers of \<open>Fpga_Ports\<close>.
\<close>

section \<open>State and environment\<close>

text \<open>The device files in the order of the image blocks.\<close>

datatype devfile = ACP | HP0 | HP1 | HP2 | HP3

definition files :: "devfile list" where
  "files = [ACP, HP0, HP1, HP2, HP3]"

text \<open>
  \<open>driver_state f\<close> is the state of the driver behind the device file \<open>f\<close>; \<open>device_memory\<close> and
  \<open>device_buffer\<close> are arrays of 100 pointers; \<open>user\<close> is the memory of the process and \<open>calls\<close> the
  number of system calls made so far.
\<close>

record zynq =
  driver_state :: "devfile \<Rightarrow> driver"
  device_memory :: "nat \<Rightarrow> addr"
  device_buffer :: "nat \<Rightarrow> addr"
  device_buffer_index :: u32
  user :: "addr \<Rightarrow> byte"
  calls :: nat

abbreviation MAX_ARGUMENT_NUMBER :: nat where "MAX_ARGUMENT_NUMBER \<equiv> 100"

text \<open>
  What is not in the program: the driver bound to each device file, the answers of the kernel to
  each system call, what the hardware behind a file has done until that call, and the calls of
  \<open>malloc\<close> that fail.
\<close>

record environment =
  served_by :: "devfile \<Rightarrow> file_operations"
  answer :: "nat \<Rightarrow> kernel_answers"
  hardware :: "nat \<Rightarrow> devfile \<Rightarrow> driver \<Rightarrow> driver"
  malloc_fails :: "nat \<Rightarrow> bool"

text \<open>The \<open>ioctl\<close> numbers of the runtime's copy of the header.\<close>

fun FPGACL_IOC_MAGIC :: "devfile \<Rightarrow> u32" where
  "FPGACL_IOC_MAGIC ACP = 1000"
| "FPGACL_IOC_MAGIC HP0 = 2000"
| "FPGACL_IOC_MAGIC HP1 = 2100"
| "FPGACL_IOC_MAGIC HP2 = 2200"
| "FPGACL_IOC_MAGIC HP3 = 2300"

fun FPGACL_DEVICE_BASE_ADDRESS :: "devfile \<Rightarrow> u32" where
  "FPGACL_DEVICE_BASE_ADDRESS ACP = 0x43C00000"
| "FPGACL_DEVICE_BASE_ADDRESS HP0 = 0x43C10000"
| "FPGACL_DEVICE_BASE_ADDRESS HP1 = 0x43C20000"
| "FPGACL_DEVICE_BASE_ADDRESS HP2 = 0x43C30000"
| "FPGACL_DEVICE_BASE_ADDRESS HP3 = 0x43C40000"

definition runtime_port :: "iow \<Rightarrow> devfile \<Rightarrow> port" where
  "runtime_port iow f = mk_port iow (FPGACL_DEVICE_BASE_ADDRESS f) (FPGACL_IOC_MAGIC f)"

abbreviation IMAGE_WIDTH :: nat where "IMAGE_WIDTH \<equiv> 1920"
abbreviation IMAGE_HEIGHT :: nat where "IMAGE_HEIGHT \<equiv> 1080"
abbreviation MASK_WIDTH :: nat where "MASK_WIDTH \<equiv> 7"
abbreviation MASK_HEIGHT :: nat where "MASK_HEIGHT \<equiv> 7"

abbreviation XIMGCONV_LITE_ADDR_AP_CTRL :: u32 where "XIMGCONV_LITE_ADDR_AP_CTRL \<equiv> 0x00"
abbreviation XIMGCONV_LITE_ADDR_INPUT_IMAGE_OFFSET_DATA :: u32 where
  "XIMGCONV_LITE_ADDR_INPUT_IMAGE_OFFSET_DATA \<equiv> 0x14"
abbreviation XIMGCONV_LITE_ADDR_OUTPUT_IMAGE_OFFSET_DATA :: u32 where
  "XIMGCONV_LITE_ADDR_OUTPUT_IMAGE_OFFSET_DATA \<equiv> 0x1c"
abbreviation XIMGCONV_LITE_ADDR_FIRST_FLAG_DATA :: u32 where
  "XIMGCONV_LITE_ADDR_FIRST_FLAG_DATA \<equiv> 0x24"

section \<open>Buffers\<close>

text \<open>
  \<open>g\<close> is the global memory of the device. The host pointer of the memory object becomes the device
  pointer and is entered in the table, of 100 pointers, at an index that only grows.
\<close>

definition pocl_zynq_basic_alloc_mem_obj :: "nat \<Rightarrow> cl_mem \<Rightarrow> zynq \<Rightarrow> (int \<times> cl_mem \<times> zynq) prog" where
  "pocl_zynq_basic_alloc_mem_obj g mem_obj s =
     (let b = mem_host_ptr mem_obj; i = unat (device_buffer_index s)
      in if MAX_ARGUMENT_NUMBER \<le> i then throw OutOfBounds
         else ok (CL_SUCCESS, mem_obj\<lparr>device_ptrs := (device_ptrs mem_obj)(g := b)\<rparr>,
                  s\<lparr>device_memory := (device_memory s)(i := b), device_buffer_index := device_buffer_index s + 1\<rparr>))"

text \<open>Reading a buffer transfers nothing; the call that did is commented out.\<close>

definition pocl_zynq_basic_read :: "addr \<Rightarrow> addr \<Rightarrow> size_t \<Rightarrow> size_t \<Rightarrow> zynq \<Rightarrow> zynq" where
  "pocl_zynq_basic_read host_ptr device_ptr offset cb s = s"

text \<open>
  Writing one transfers nothing either, but looks the device pointer up in \<open>device_buffer\<close>; the
  result tells whether the message \<open>Error write into buffer\<close> is printed.
\<close>

definition pocl_zynq_basic_write :: "addr \<Rightarrow> addr \<Rightarrow> size_t \<Rightarrow> size_t \<Rightarrow> zynq \<Rightarrow> bool prog" where
  "pocl_zynq_basic_write host_ptr device_ptr offset cb s =
     (if host_ptr = device_ptr then ok False
      else let n = unat (device_buffer_index s);
               i = length (takeWhile (\<lambda>i. i < MAX_ARGUMENT_NUMBER \<and> device_buffer s i \<noteq> device_ptr) [0..<n])
           in if i < n \<and> MAX_ARGUMENT_NUMBER \<le> i then throw OutOfBounds else ok (i = n))"

section \<open>System calls\<close>

definition user_bytes :: "(addr \<Rightarrow> byte) \<Rightarrow> addr \<Rightarrow> nat \<Rightarrow> byte list" where
  "user_bytes u p n = map (\<lambda>i. u (p + of_nat i)) [0..<n]"

definition put_bytes :: "addr \<Rightarrow> byte list \<Rightarrow> (addr \<Rightarrow> byte) \<Rightarrow> addr \<Rightarrow> byte" where
  "put_bytes p bs u = (\<lambda>a. let i = unat (a - p) in if i < length bs then bs ! i else u a)"

text \<open>The driver behind \<open>f\<close> as the next system call finds it.\<close>

definition driver_now :: "environment \<Rightarrow> devfile \<Rightarrow> zynq \<Rightarrow> driver" where
  "driver_now E f s = hardware E (calls s) f (driver_state s f)"

definition returned :: "devfile \<Rightarrow> driver \<Rightarrow> zynq \<Rightarrow> zynq" where
  "returned f d s = s\<lparr>driver_state := (driver_state s)(f := d), calls := calls s + 1\<rparr>"

definition sys_ioctl ::
  "environment \<Rightarrow> devfile \<Rightarrow> u32 \<Rightarrow> argument_parameters_type \<Rightarrow> u32 \<Rightarrow> zynq \<Rightarrow> (int \<times> zynq) prog" where
  "sys_ioctl E f num ap param s =
     andthen (fop_unlocked_ioctl (served_by E f) (answer E (calls s)) num ap param (driver_now E f s)) (\<lambda>(r, d).
     ok (r, returned f d s))"

text \<open>If all bytes could be copied, the kernel buffer holds those of the user's memory.\<close>

definition sys_write ::
  "environment \<Rightarrow> devfile \<Rightarrow> addr \<Rightarrow> read_write_command_type \<Rightarrow> size_t \<Rightarrow> zynq \<Rightarrow> (int \<times> zynq) prog" where
  "sys_write E f user_data_address cmd len s =
     (let a = answer E (calls s);
          a' = (if copy_rest a = 0
                then a\<lparr>copy_landed := user_bytes (user s) user_data_address (unat len)\<rparr> else a)
      in andthen (fop_write (served_by E f) a' cmd len (driver_now E f s)) (\<lambda>(r, d).
         ok (r, returned f d s)))"

definition sys_read ::
  "environment \<Rightarrow> devfile \<Rightarrow> addr \<Rightarrow> read_write_command_type \<Rightarrow> size_t \<Rightarrow> zynq \<Rightarrow> (int \<times> zynq) prog" where
  "sys_read E f user_data_address cmd len s =
     andthen (fop_read (served_by E f) (answer E (calls s)) cmd len (driver_now E f s)) (\<lambda>(r, bs).
     ok (r, (returned f (driver_now E f s) s)\<lparr>user := put_bytes user_data_address bs (user s)\<rparr>))"

section \<open>Setting up the arguments of a port\<close>

definition argument_parameters :: "nat \<Rightarrow> nat \<Rightarrow> u32 \<Rightarrow> u32 \<Rightarrow> argument_parameters_type" where
  "argument_parameters sz type_size off index =
     \<lparr>ap_size = of_nat sz, ap_type_size = of_nat type_size, ap_fpga_reg_offset_address = off, ap_index = index\<rparr>"

definition with_malloc :: "environment \<Rightarrow> zynq \<Rightarrow> 'a prog \<Rightarrow> 'a prog" where
  "with_malloc E s m = (if malloc_fails E (calls s) then throw NullDeref else m)"

definition setup_port :: "environment \<Rightarrow> iow \<Rightarrow> devfile \<Rightarrow> zynq \<Rightarrow> zynq prog" where
  "setup_port E iow f s =
     with_malloc E s (
     andthen (sys_ioctl E f (FPGACL_ARGUMEN_POINTER (runtime_port iow f))
        (argument_parameters ((IMAGE_WIDTH + MASK_WIDTH) * 4) 4 XIMGCONV_LITE_ADDR_INPUT_IMAGE_OFFSET_DATA 0) 0 s) (\<lambda>(r1, s1).
     with_malloc E s1 (
     andthen (sys_ioctl E f (FPGACL_ARGUMEN_POINTER (runtime_port iow f))
        (argument_parameters (IMAGE_WIDTH * 4) 4 XIMGCONV_LITE_ADDR_OUTPUT_IMAGE_OFFSET_DATA 1) 0 s1) (\<lambda>(r2, s2).
     with_malloc E s2 (
     andthen (sys_ioctl E f (FPGACL_ARGUMEN_DATA (runtime_port iow f))
        (argument_parameters 1 1 XIMGCONV_LITE_ADDR_FIRST_FLAG_DATA 2) 0 s2) (\<lambda>(r3, s3). ok s3))))))"

fun setup_ports :: "environment \<Rightarrow> iow \<Rightarrow> devfile list \<Rightarrow> zynq \<Rightarrow> zynq prog" where
  "setup_ports E iow [] s = ok s"
| "setup_ports E iow (f # fs) s = andthen (setup_port E iow f s) (setup_ports E iow fs)"

section \<open>One line of the image\<close>

text \<open>The pointers are pointers to 4-byte words.\<close>

definition input_line :: "nat \<Rightarrow> nat \<Rightarrow> zynq \<Rightarrow> addr" where
  "input_line block_index row s =
     device_memory s 0 + 4 * of_nat ((block_index * IMAGE_HEIGHT div 5 + row) * (IMAGE_WIDTH + MASK_WIDTH))"

definition output_line :: "nat \<Rightarrow> nat \<Rightarrow> zynq \<Rightarrow> addr" where
  "output_line block_index row s =
     device_memory s 1 + 4 * of_nat (block_index * IMAGE_HEIGHT div 5 * IMAGE_WIDTH + row * IMAGE_WIDTH)"

definition start_line :: "environment \<Rightarrow> iow \<Rightarrow> nat \<Rightarrow> devfile \<times> nat \<Rightarrow> zynq \<Rightarrow> zynq prog" where
  "start_line E iow row fb s =
     (let (f, block_index) = fb in
      andthen (sys_write E f (input_line block_index row s)
        \<lparr>rw_value = 0, rw_argument_index = 0, rw_read_write = 1\<rparr> (of_nat ((IMAGE_WIDTH + MASK_WIDTH) * 4)) s) (\<lambda>(r1, s1).
      andthen (sys_write E f (input_line block_index row s)
        \<lparr>rw_value = (if row = 0 then 1 else 0), rw_argument_index = 2, rw_read_write = 1\<rparr> 1 s1) (\<lambda>(r2, s2).
      andthen (sys_ioctl E f (FPGACL_START (runtime_port iow f))
        (argument_parameters 0 0 0 0) XIMGCONV_LITE_ADDR_AP_CTRL s2) (\<lambda>(r3, s3). ok s3))))"

definition fetch_line :: "environment \<Rightarrow> nat \<Rightarrow> devfile \<times> nat \<Rightarrow> zynq \<Rightarrow> zynq prog" where
  "fetch_line E row fb s =
     (let (f, block_index) = fb in
      andthen (sys_read E f (output_line block_index row s)
        \<lparr>rw_value = 0, rw_argument_index = 1, rw_read_write = 0\<rparr> (of_nat (IMAGE_WIDTH * 4)) s) (\<lambda>(r, s1). ok s1))"

fun for_each :: "(devfile \<times> nat \<Rightarrow> zynq \<Rightarrow> zynq prog) \<Rightarrow> (devfile \<times> nat) list \<Rightarrow> zynq \<Rightarrow> zynq prog" where
  "for_each g [] s = ok s"
| "for_each g (fb # fbs) s = andthen (g fb s) (for_each g fbs)"

definition blocks :: "(devfile \<times> nat) list" where
  "blocks = zip files [0..<5]"

text \<open>The sum of the five answers to \<open>FPGACL_CTRL\<close>, and the loop until it is not 0.\<close>

fun poll_ports :: "environment \<Rightarrow> iow \<Rightarrow> devfile list \<Rightarrow> u32 \<Rightarrow> zynq \<Rightarrow> (u32 \<times> zynq) prog" where
  "poll_ports E iow [] isIdle s = ok (isIdle, s)"
| "poll_ports E iow (f # fs) isIdle s =
     andthen (sys_ioctl E f (FPGACL_CTRL (runtime_port iow f))
       (argument_parameters 0 0 0 0) XIMGCONV_LITE_ADDR_AP_CTRL s) (\<lambda>(r, s1).
     poll_ports E iow fs (isIdle + word_of_int r) s1)"

partial_function (option) wait_idle :: "environment \<Rightarrow> iow \<Rightarrow> zynq \<Rightarrow> zynq prog" where
  "wait_idle E iow s =
     (case poll_ports E iow files 0 s of
        None \<Rightarrow> None
      | Some (Inl e) \<Rightarrow> Some (Inl e)
      | Some (Inr (isIdle, s1)) \<Rightarrow> if isIdle \<noteq> 0 then Some (Inr s1) else wait_idle E iow s1)"

declare wait_idle.simps [code]

definition run_row :: "environment \<Rightarrow> iow \<Rightarrow> nat \<Rightarrow> zynq \<Rightarrow> zynq prog" where
  "run_row E iow row s =
     andthen (for_each (start_line E iow row) blocks s) (\<lambda>s1.
     andthen (wait_idle E iow s1) (\<lambda>s2.
     if 2 * MASK_WIDTH div 2 \<le> row \<and> row \<le> IMAGE_HEIGHT div 5 + 2 * MASK_WIDTH div 2
     then for_each (fetch_line E row) blocks s2 else ok s2))"

fun run_rows :: "environment \<Rightarrow> iow \<Rightarrow> nat list \<Rightarrow> zynq \<Rightarrow> zynq prog" where
  "run_rows E iow [] s = ok s"
| "run_rows E iow (r # rs) s = andthen (run_row E iow r s) (run_rows E iow rs)"

definition pocl_zynq_basic_run :: "environment \<Rightarrow> iow \<Rightarrow> zynq \<Rightarrow> zynq prog" where
  "pocl_zynq_basic_run E iow s =
     andthen (setup_ports E iow files s) (\<lambda>s1.
     with_malloc E s1 (run_rows E iow [0..<Suc (2 * MASK_HEIGHT div 2 + IMAGE_HEIGHT div 5)] s1))"

section \<open>Opening the device files\<close>

text \<open>\<open>pocl_zynq_basic_init\<close> ends the process when a device file cannot be opened.\<close>

fun open_files :: "environment \<Rightarrow> devfile list \<Rightarrow> zynq \<Rightarrow> zynq prog" where
  "open_files E [] s = ok s"
| "open_files E (f # fs) s =
     (let (fd, d) = fop_open (served_by E f) (driver_now E f s)
      in if fd < 0 then throw (Exit (-1)) else open_files E fs (returned f d s))"

end
