(* ===== verification/Fpga_Reach.thy ===== *)
theory Fpga_Reach
  imports Fpga_Ports
begin

text \<open>
  The states a driver reaches: any sequence of system calls with allocators that behave, and
  of activity of the hardware (registers and buffer contents may change at any time). Every
  reachable state satisfies the invariant of \<open>Fpga_Inv\<close>.
\<close>

section \<open>Steps\<close>

text \<open>The answers of a kernel whose allocators return null or unused memory.\<close>

definition good_answers :: "driver \<Rightarrow> kernel_answers \<Rightarrow> u32 \<Rightarrow> bool" where
  "good_answers s a sz \<longleftrightarrow>
     (kmalloc_ptr a \<noteq> NULL \<longrightarrow> fresh_node s a) \<and> (dma_ptr a \<noteq> NULL \<longrightarrow> fresh_buffer s a sz)"

definition same_sizes :: "(addr \<rightharpoonup> byte list) \<Rightarrow> (addr \<rightharpoonup> byte list) \<Rightarrow> bool" where
  "same_sizes d d' \<longleftrightarrow> (\<forall>p. map_option length (d' p) = map_option length (d p))"

inductive driver_step :: "port \<Rightarrow> driver \<Rightarrow> driver \<Rightarrow> bool" for P where
  step_open: "enpower_opencl_mohammad_open s = (r, s') \<Longrightarrow> driver_step P s s'"
| step_write: "device_open s = 1 \<Longrightarrow> length (copy_landed a) = unat len \<Longrightarrow>
    enpower_opencl_mohammad_write a cmd len s = ok (r, s') \<Longrightarrow> driver_step P s s'"
| step_ioctl: "device_open s = 1 \<Longrightarrow> good_answers s a (ap_size ap) \<Longrightarrow>
    enpower_opencl_mohammad_ioctl P a num ap param s = ok (r, s') \<Longrightarrow> driver_step P s s'"
| step_release: "device_open s = 1 \<Longrightarrow>
    enpower_opencl_mohammad_release s = ok (r, s') \<Longrightarrow> driver_step P s s'"
| step_registers: "driver_step P s (s\<lparr>io := regs\<rparr>)"
| step_dma: "same_sizes (dma_mem s) d \<Longrightarrow> driver_step P s (s\<lparr>dma_mem := d\<rparr>)"

definition loaded :: "driver \<Rightarrow> bool" where
  "loaded s \<longleftrightarrow> device_open s = 0 \<and> arguments_list s = NULL \<and> knodes s = Map.empty
     \<and> dma_mem s = Map.empty"

inductive driver_reachable :: "port \<Rightarrow> driver \<Rightarrow> bool" for P where
  reach_loaded: "loaded s \<Longrightarrow> driver_reachable P s"
| reach_step: "driver_reachable P s \<Longrightarrow> driver_step P s s' \<Longrightarrow> driver_reachable P s'"

section \<open>Each step keeps the invariant\<close>

lemma driver_inv_open_flag: "driver_inv s ps \<Longrightarrow> device_open s = 0 \<and> ps = [] \<or> device_open s = 1"
  by (auto simp: driver_inv_def)

lemma open_keeps:
  assumes "driver_inv s ps" and "enpower_opencl_mohammad_open s = (r, s')"
  shows "\<exists>ps'. driver_inv s' ps'"
proof (cases "device_open s = 0")
  case True
  from assms(1) True show ?thesis by (rule open_free) (use assms(2) in auto)
next
  case False
  with assms show ?thesis using driver_inv_open_flag[OF assms(1)] open_busy[of s] by auto
qed

lemma write_keeps:
  assumes inv: "driver_inv s ps" and landed: "length (copy_landed a) = unat len"
    and run: "enpower_opencl_mohammad_write a cmd len s = ok (r, s')"
  shows "driver_inv s' ps"
proof (cases "rw_read_write cmd = 1 \<and> len \<noteq> 0")
  case False
  with run have "s' = s" by (auto simp: enpower_opencl_mohammad_write_def split: if_splits)
  with inv show ?thesis by simp
next
  case True
  let ?i = "unat (rw_argument_index cmd)"
  from run True index_out_of_range(2)[OF inv, of cmd len a] have i: "?i < length ps"
    by (metis leI ok_not_throw(1))
  show ?thesis
  proof (cases "slots s ps ! ?i")
    case (Buffer b)
    from write_buffer_overflow[OF inv _ i Buffer, of len a] True run
    have "unat len \<le> length b" by (metis leI ok_not_throw(1))
    from write_buffer[OF inv _ i Buffer _ this landed] True run show ?thesis by auto
  next
    case (Scalar r')
    then have "arg_type (arguments s ps ! ?i) = 1"
      using i by (auto simp: slots_def slot_of_def split: if_splits option.splits)
    with write_lookup[OF driver_inv_rep[OF inv] _ _ refl, of cmd len a] True i run
    have "\<exists>r. s' = s\<lparr>io := r\<rparr>" by (auto simp: iowrite32_def Let_def split: if_splits)
    with inv show ?thesis by auto
  next
    case Unbacked
    then have "arg_type (arguments s ps ! ?i) \<noteq> 1" "dma_mem s (kernel_memory (arguments s ps ! ?i)) = None"
      using i by (auto simp: slots_def slot_of_def split: if_splits option.splits)
    moreover have "argument_ok s (arguments s ps ! ?i)" using inv i by (auto simp: driver_inv_def)
    ultimately show ?thesis
      using write_lookup[OF driver_inv_rep[OF inv] _ _ refl, of cmd len a] True i run
      by (auto simp: copy_from_user_def argument_ok_def Let_def split: if_splits)
  qed
qed

lemma pointer_result:
  assumes "rep s ps" and "ioctl_argument_pointer a ap s = ok (r, s')"
    and cfu: "cfu_index a = 0" "cfu_size a = 0" "cfu_offset a = 0" "cfu_type_size a = 0"
  shows "kmalloc_ptr a \<noteq> NULL"
  using assms append_argument_NULL[OF assms(1), of a]
  by (auto simp: ioctl_argument_pointer_def)

lemma data_result:
  assumes "rep s ps" and "ioctl_argument_data a ap s = ok (r, s')"
    and cfu: "cfu_index a = 0" "cfu_size a = 0" "cfu_offset a = 0"
  shows "kmalloc_ptr a \<noteq> NULL"
  using assms append_argument_NULL[OF assms(1), of a]
  by (auto simp: ioctl_argument_data_def)

lemma pointer_keeps:
  assumes inv: "driver_inv s ps" and op: "device_open s = 1" and good: "good_answers s a (ap_size ap)"
    and run: "ioctl_argument_pointer a ap s = ok (r, s')"
    and cfu: "cfu_index a = 0" "cfu_size a = 0" "cfu_offset a = 0" "cfu_type_size a = 0"
  shows "\<exists>ps'. driver_inv s' ps'"
proof -
  from pointer_result[OF driver_inv_rep[OF inv] run cfu] good have node: "fresh_node s a"
    by (simp add: good_answers_def)
  show ?thesis
  proof (cases "dma_ptr a = NULL")
    case True
    show ?thesis by (rule ioctl_pointer_no_memory[OF inv op cfu node True, of ap]) (use run in auto)
  next
    case False
    from append_fresh[OF inv node] obtain s1 l k nd
      where s1: "append_argument a s = ok (kmalloc_ptr a, s1)" "s1 = s\<lparr>arguments_list := l, knodes := k\<rparr>"
        "kmalloc_ptr a \<noteq> 0" "k (kmalloc_ptr a) = Some nd" by metis
    have "andthen (set_argument s2 p fa) f = ok x \<Longrightarrow> \<exists>s3. f s3 = ok x \<and> io_base s3 = io_base s2"
      for s2 p fa f and x :: "int \<times> driver"
      by (auto simp: set_argument_def andthen_eq_ok set_node_def)
    note setD = this
    from run cfu s1 False have "ap_type_size ap \<noteq> 0" "in_window s (io_base s + ap_fpga_reg_offset_address ap)"
      by (auto simp: ioctl_argument_pointer_def fpga_buffer_allocation_def Let_def iowrite32_def
          in_window_def dest!: setD split: if_splits)
    from ioctl_pointer_ok[OF inv op cfu node _ False this] good False run show ?thesis
      by (auto simp: good_answers_def)
  qed
qed

lemma ioctl_keeps:
  assumes inv: "driver_inv s ps" and op: "device_open s = 1" and good: "good_answers s a (ap_size ap)"
    and run: "enpower_opencl_mohammad_ioctl P a num ap param s = ok (r, s')"
  shows "\<exists>ps'. driver_inv s' ps'"
proof -
  consider (ptr) "ioctl_argument_pointer a ap s = ok (r, s')"
    | (dat) "ioctl_argument_data a ap s = ok (r, s')"
    | (start) "ioctl_start param s = ok (r, s')" | (ctrl) "ioctl_ctrl param s = ok (r, s')"
    | (other) "s' = s"
    using run by (auto simp: enpower_opencl_mohammad_ioctl_def split: if_splits)
  then show ?thesis
  proof cases
    case ptr
    then show ?thesis
      using pointer_keeps[OF inv op good ptr] inv
      by (cases "cfu_index a \<noteq> 0 \<or> cfu_size a \<noteq> 0 \<or> cfu_offset a \<noteq> 0 \<or> cfu_type_size a \<noteq> 0")
        (auto simp: ioctl_argument_pointer_def)
  next
    case dat
    show ?thesis
    proof (cases "cfu_index a = 0 \<and> cfu_size a = 0 \<and> cfu_offset a = 0")
      case True
      with data_result[OF driver_inv_rep[OF inv] dat] good have "fresh_node s a"
        by (simp add: good_answers_def)
      from ioctl_data_ok[OF inv op _ _ _ this, of ap] True dat show ?thesis by auto
    qed (use dat inv in \<open>auto simp: ioctl_argument_data_def\<close>)
  next
    case start
    with inv show ?thesis
      by (auto simp: ioctl_start_def ioread32_def iowrite32_def split: if_splits)
  next
    case ctrl
    with inv show ?thesis
      by (auto simp: ioctl_ctrl_def ioread32_def split: if_splits)
  qed (use inv in auto)
qed

lemma release_keeps:
  assumes inv: "driver_inv s ps" and op: "device_open s = 1"
    and run: "enpower_opencl_mohammad_release s = ok (r, s')"
  shows "driver_inv s' []"
proof (cases "Unbacked \<in> set (slots s ps)")
  case True
  from release_unbacked[OF inv True] run show ?thesis by simp
next
  case False
  from release_ok[OF inv op False] run show ?thesis by auto
qed

lemma dma_keeps:
  assumes inv: "driver_inv s ps" and same: "same_sizes (dma_mem s) d"
  shows "driver_inv (s\<lparr>dma_mem := d\<rparr>) ps"
proof -
  have dom: "dom d = dom (dma_mem s)"
  proof -
    have "(d p = None) = (dma_mem s p = None)" for p
      using same by (metis same_sizes_def map_option_is_None)
    then show ?thesis by (auto simp: dom_def)
  qed
  have "argument_ok (s\<lparr>dma_mem := d\<rparr>) fa" if "argument_ok s fa" for fa
  proof -
    have "map_option length (d (kernel_memory fa)) = map_option length (dma_mem s (kernel_memory fa))"
      using same by (simp add: same_sizes_def)
    with that show ?thesis by (auto simp: argument_ok_def)
  qed
  with inv dom show ?thesis
    by (auto simp: driver_inv_def rep_def arguments_def)
qed

lemma driver_step_inv: "driver_step P s s' \<Longrightarrow> driver_inv s ps \<Longrightarrow> \<exists>ps'. driver_inv s' ps'"
proof (induction rule: driver_step.induct)
  case (step_open s r s')
  then show ?case by (blast intro: open_keeps)
next
  case (step_write s a len cmd r s')
  then show ?case by (blast intro: write_keeps)
next
  case (step_ioctl s a ap num param r s')
  then show ?case by (blast intro: ioctl_keeps)
next
  case (step_release s r s')
  then show ?case by (blast intro: release_keeps)
next
  case (step_registers s regs)
  then show ?case by auto
next
  case (step_dma s d)
  then show ?case by (blast intro: dma_keeps)
qed

lemma loaded_inv: "loaded s \<Longrightarrow> driver_inv s []"
  by (simp add: loaded_def driver_inv_def rep_empty arguments_def)

lemma reachable_inv: "driver_reachable P s \<Longrightarrow> \<exists>ps. driver_inv s ps"
  by (induction rule: driver_reachable.induct) (blast intro: loaded_inv driver_step_inv)+

end
