(* ===== verification/Zynq_Setup.thy ===== *)
theory Zynq_Setup
  imports Zynq_Run Fpga_Reach
begin

text \<open>
  Setting up the arguments of the accelerators: under a kernel that grants memory and hardware that
  only touches registers and buffer contents, every port ends up with its input line, its output
  line and the flag.
\<close>

section \<open>What a driver shows, with its memory\<close>

definition holds :: "driver \<Rightarrow> addr list \<Rightarrow> addr set \<Rightarrow> slot list \<Rightarrow> bool" where
  "holds d ps D xs \<longleftrightarrow> driver_inv d ps \<and> slots d ps = xs \<and> device_open d = 1 \<and> dom (dma_mem d) = D"

lemma port_shows_holds: "port_shows d xs \<longleftrightarrow> (\<exists>ps D. holds d ps D xs)"
  by (auto simp: port_shows_def holds_def)

lemma holds_Nil: "port_shows d [] \<longleftrightarrow> holds d [] {} []"
  by (auto simp: port_shows_def holds_def slots_def arguments_def driver_inv_def rep_def)

text \<open>An argument keeps its kind, its register and the size of its buffer.\<close>

fun same_slot :: "slot \<Rightarrow> slot \<Rightarrow> bool" where
  "same_slot (Scalar r) (Scalar r') \<longleftrightarrow> r = r'"
| "same_slot (Buffer b) (Buffer b') \<longleftrightarrow> length b = length b'"
| "same_slot Unbacked Unbacked \<longleftrightarrow> True"
| "same_slot _ _ \<longleftrightarrow> False"

fun_cases same_slot_ScalarE: "same_slot (Scalar r) y"
  and same_slot_BufferE: "same_slot (Buffer b) y"

text \<open>Hardware may change registers and the contents of buffers.\<close>

definition hardware_ok :: "environment \<Rightarrow> bool" where
  "hardware_ok E \<longleftrightarrow> (\<forall>n f d. \<exists>regs m. hardware E n f d = d\<lparr>io := regs, dma_mem := m\<rparr> \<and> same_sizes (dma_mem d) m)"

lemma same_sizes_dom: "same_sizes m m' \<Longrightarrow> dom m' = dom m"
  unfolding same_sizes_def dom_def by (metis map_option_is_None)

lemma holds_hardware:
  assumes "hardware_ok E" and "holds d ps D xs"
  obtains xs' where "holds (hardware E n f d) ps D xs'" and "list_all2 same_slot xs xs'"
    and "io_base (hardware E n f d) = io_base d"
proof -
  obtain regs m where h: "hardware E n f d = d\<lparr>io := regs, dma_mem := m\<rparr>" and s: "same_sizes (dma_mem d) m"
    using assms(1) unfolding hardware_ok_def by blast
  let ?d = "d\<lparr>dma_mem := m\<rparr>"
  have hd: "hardware E n f d = ?d\<lparr>io := regs\<rparr>" using h by simp
  note H = assms(2)[unfolded holds_def]
  have i: "driver_inv ?d ps" using dma_keeps[OF _ s] H by blast
  have a: "arguments ?d ps = arguments d ps" by (rule arguments_cong) simp
  have same: "same_slot (slot_of d fa) (slot_of ?d fa)" for fa
  proof -
    have l: "map_option length (m (kernel_memory fa)) = map_option length (dma_mem d (kernel_memory fa))"
      using s by (simp add: same_sizes_def)
    show ?thesis
      using l by (cases "dma_mem d (kernel_memory fa)"; cases "m (kernel_memory fa)") (auto simp: slot_of_def)
  qed
  have "list_all2 same_slot (slots d ps) (slots ?d ps)"
    unfolding slots_def a by (simp add: list_all2_map1 list_all2_map2 list_all2_same same)
  moreover have "holds (hardware E n f d) ps D (slots ?d ps)"
    unfolding hd using i H same_sizes_dom[OF s] by (simp add: holds_def)
  moreover have "io_base (hardware E n f d) = io_base d" by (simp add: h)
  ultimately show thesis using that H by blast
qed

section \<open>The two ioctl commands\<close>

definition grants_fields :: "kernel_answers \<Rightarrow> bool" where
  "grants_fields a \<longleftrightarrow> cfu_index a = 0 \<and> cfu_size a = 0 \<and> cfu_offset a = 0 \<and> cfu_type_size a = 0"

lemma ioctl_pointer_dma:
  assumes "driver_inv s ps" and "grants_fields a" and "fresh_node s a" and "dma_ptr a \<noteq> NULL"
    and "ioctl_argument_pointer a ap s = ok (r, s')"
  shows "dma_mem s' = (dma_mem s)(dma_ptr a \<mapsto> dma_content a)"
proof -
  from append_fresh[OF assms(1,3)] obtain s1 l k nd
    where s1: "append_argument a s = ok (kmalloc_ptr a, s1)" "s1 = s\<lparr>arguments_list := l, knodes := k\<rparr>"
      "kmalloc_ptr a \<noteq> NULL" "k (kmalloc_ptr a) = Some nd" by metis
  have set_arg: "dma_mem s3 = dma_mem s2" if "set_argument s2 p fa = ok s3" for s2 p fa s3
    using that by (auto simp: set_argument_def set_node_def andthen_eq_ok)
  have io: "dma_mem s3 = dma_mem s2" if "iowrite32 v p s2 = ok s3" for v p s2 s3
    using that by (auto simp: iowrite32_def split: if_splits)
  from assms(5,2,4) s1 show ?thesis
    by (auto simp: ioctl_argument_pointer_def grants_fields_def fpga_buffer_allocation_def Let_def andthen_eq_ok
        split: if_splits dest!: set_arg io)
qed

lemma ioctl_data_dma:
  assumes "driver_inv s ps" and "grants_fields a" and "fresh_node s a"
    and "ioctl_argument_data a ap s = ok (r, s')"
  shows "dma_mem s' = dma_mem s"
proof -
  from append_fresh[OF assms(1,3)] obtain s1 l k nd
    where s1: "append_argument a s = ok (kmalloc_ptr a, s1)" "s1 = s\<lparr>arguments_list := l, knodes := k\<rparr>"
      "kmalloc_ptr a \<noteq> NULL" "k (kmalloc_ptr a) = Some nd" by metis
  from assms(4,2) s1 show ?thesis
    by (auto simp: ioctl_argument_data_def grants_fields_def Let_def set_argument_def set_node_def andthen_eq_ok)
qed

lemma holds_knodes: "holds d ps D xs \<Longrightarrow> dom (knodes d) = set ps"
  by (simp add: holds_def driver_inv_def rep_def)

lemma pointer_holds:
  assumes h: "holds d ps D xs" and a: "grants_fields a" "kmalloc_ptr a \<noteq> NULL" "kmalloc_ptr a \<notin> set ps"
    "dma_ptr a \<noteq> NULL" "dma_ptr a \<notin> D" "length (dma_content a) = unat (ap_size ap)"
    and ap: "ap_type_size ap \<noteq> 0" "unat (ap_fpga_reg_offset_address ap) + 4 \<le> 1000"
  obtains d' where "ioctl_argument_pointer a ap d = ok (0, d')"
    and "holds d' (ps @ [kmalloc_ptr a]) (insert (dma_ptr a) D) (xs @ [Buffer (dma_content a)])"
    and "io d' = (io d)(io_base d + ap_fpga_reg_offset_address ap := dma_handle a div ap_type_size ap)"
    and "io_base d' = io_base d"
proof -
  note H = h[unfolded holds_def]
  have inv: "driver_inv d ps" and op: "device_open d = 1" using H by simp_all
  have node: "fresh_node d a" using a holds_knodes[OF h] by (auto simp: fresh_node_def)
  have buf: "fresh_buffer d a (ap_size ap)" using a H by (auto simp: fresh_buffer_def)
  have win: "in_window d (io_base d + ap_fpga_reg_offset_address ap)" using ap(2) by (simp add: in_window_offset)
  from ioctl_pointer_ok[OF inv op _ _ _ _ node buf a(4) ap(1) win] a(1) obtain d' where d':
    "ioctl_argument_pointer a ap d = ok (0, d')" "driver_inv d' (ps @ [kmalloc_ptr a])"
    "slots d' (ps @ [kmalloc_ptr a]) = slots d ps @ [Buffer (dma_content a)]"
    "io d' = (io d)(io_base d + ap_fpga_reg_offset_address ap := dma_handle a div ap_type_size ap)"
    "device_open d' = 1" "io_base d' = io_base d" unfolding grants_fields_def by metis
  with H ioctl_pointer_dma[OF inv a(1) node a(4) d'(1)] show thesis
    by (intro that[OF d'(1)]) (auto simp: holds_def)
qed

lemma data_holds:
  assumes h: "holds d ps D xs" and a: "grants_fields a" "kmalloc_ptr a \<noteq> NULL" "kmalloc_ptr a \<notin> set ps"
  obtains d' where "ioctl_argument_data a ap d = ok (0, d')"
    and "holds d' (ps @ [kmalloc_ptr a]) D (xs @ [Scalar (io_base d + ap_fpga_reg_offset_address ap)])"
    and "io d' = io d" and "io_base d' = io_base d"
proof -
  note H = h[unfolded holds_def]
  have inv: "driver_inv d ps" and op: "device_open d = 1" using H by simp_all
  have node: "fresh_node d a" using a holds_knodes[OF h] by (auto simp: fresh_node_def)
  from ioctl_data_ok[OF inv op _ _ _ node, of ap] a(1) obtain d' where d':
    "ioctl_argument_data a ap d = ok (0, d')" "driver_inv d' (ps @ [kmalloc_ptr a])"
    "slots d' (ps @ [kmalloc_ptr a]) = slots d ps @ [Scalar (io_base d + ap_fpga_reg_offset_address ap)]"
    "io d' = io d" "device_open d' = 1" "io_base d' = io_base d" unfolding grants_fields_def by metis
  with H ioctl_data_dma[OF inv a(1) node d'(1)] show thesis
    by (intro that[OF d'(1)]) (auto simp: holds_def)
qed

section \<open>A device file served by a port driver\<close>

text \<open>The driver behind the file understands the \<open>ioctl\<close> numbers that the runtime uses for it.\<close>

definition served :: "environment \<Rightarrow> iow \<Rightarrow> devfile \<Rightarrow> bool" where
  "served E iow f \<longleftrightarrow> distinct (command_numbers (runtime_port iow f)) \<and>
     (\<exists>P. command_numbers P = command_numbers (runtime_port iow f) \<and>
        fop_read (served_by E f) = enpower_opencl_mohammad_read \<and>
        fop_write (served_by E f) = enpower_opencl_mohammad_write \<and>
        fop_unlocked_ioctl (served_by E f) = enpower_opencl_mohammad_ioctl P)"

lemma served_ioctl:
  assumes "served E iow f"
  shows "fop_unlocked_ioctl (served_by E f) a (FPGACL_ARGUMEN_POINTER (runtime_port iow f)) ap p d = ioctl_argument_pointer a ap d"
    and "fop_unlocked_ioctl (served_by E f) a (FPGACL_ARGUMEN_DATA (runtime_port iow f)) ap p d = ioctl_argument_data a ap d"
    and "fop_unlocked_ioctl (served_by E f) a (FPGACL_START (runtime_port iow f)) ap p d = ioctl_start p d"
    and "fop_unlocked_ioctl (served_by E f) a (FPGACL_CTRL (runtime_port iow f)) ap p d = ioctl_ctrl p d"
  using assms unfolding served_def command_numbers_def
  by (auto simp: enpower_opencl_mohammad_ioctl_def)

text \<open>The kernel grants the three requests made from system call \<open>n\<close> on.\<close>

definition grants :: "environment \<Rightarrow> nat \<Rightarrow> bool" where
  "grants E n \<longleftrightarrow>
     (\<forall>i < 3. grants_fields (answer E (n + i)) \<and> kmalloc_ptr (answer E (n + i)) \<noteq> NULL \<and> \<not> malloc_fails E (n + i)) \<and>
     distinct (map (\<lambda>i. kmalloc_ptr (answer E (n + i))) [0, 1, 2]) \<and>
     dma_ptr (answer E n) \<noteq> NULL \<and> dma_ptr (answer E (n + 1)) \<noteq> NULL \<and>
     dma_ptr (answer E n) \<noteq> dma_ptr (answer E (n + 1)) \<and>
     length (dma_content (answer E n)) = 7708 \<and> length (dma_content (answer E (n + 1))) = 7680"

text \<open>A port that is ready: its buffers hold an input and an output line.\<close>

definition ready_driver :: "driver \<Rightarrow> bool" where
  "ready_driver d \<longleftrightarrow> (\<exists>b0 b1. port_shows d [Buffer b0, Buffer b1, Scalar (io_base d + 0x24)] \<and>
     length b0 = 7708 \<and> length b1 = 7680)"

lemma ready_hardware:
  assumes "hardware_ok E" and "ready_driver d"
  shows "ready_driver (hardware E n f d)" and "io_base (hardware E n f d) = io_base d"
proof -
  from assms(2) obtain b0 b1 ps D where b: "holds d ps D [Buffer b0, Buffer b1, Scalar (io_base d + 0x24)]"
    "length b0 = 7708" "length b1 = 7680" by (auto simp: ready_driver_def port_shows_holds)
  from holds_hardware[OF assms(1) b(1), of n f] obtain xs where xs:
    "holds (hardware E n f d) ps D xs" "list_all2 same_slot [Buffer b0, Buffer b1, Scalar (io_base d + 0x24)] xs"
    "io_base (hardware E n f d) = io_base d" by blast
  from xs(2) obtain c0 c1 where "xs = [Buffer c0, Buffer c1, Scalar (io_base d + 0x24)]"
    "length c0 = 7708" "length c1 = 7680" using b(2,3)
    by (auto simp: list_all2_Cons1 elim!: same_slot_ScalarE same_slot_BufferE)
  with xs show "ready_driver (hardware E n f d)" by (auto simp: ready_driver_def port_shows_holds)
  show "io_base (hardware E n f d) = io_base d" by (rule xs(3))
qed

end
