(* ===== verification/Zynq_Lines.thy ===== *)
theory Zynq_Lines
  imports Zynq_Setup
begin

text \<open>
  The run of a kernel on the five accelerators: every port is set up, every line goes to its port
  and starts it, the loop ends once a port is idle, and only output lines are written.
\<close>

section \<open>Set-up\<close>

text \<open>What the calls on the device files leave alone.\<close>

definition only_ports :: "zynq \<Rightarrow> zynq \<Rightarrow> bool" where
  "only_ports s s' \<longleftrightarrow> s' = s\<lparr>driver_state := driver_state s', calls := calls s'\<rparr>"

lemma only_ports_trans: "only_ports s s1 \<Longrightarrow> only_ports s1 s2 \<Longrightarrow> only_ports s s2"
  by (cases s; cases s1; cases s2) (simp add: only_ports_def)

lemma only_ports_refl [simp]: "only_ports s s"
  by (cases s) (simp add: only_ports_def)

lemma only_ports_returned [simp]: "only_ports s (returned f d s)"
  by (cases s) (simp add: only_ports_def returned_def)

lemma only_ports_sel:
  "only_ports s s' \<Longrightarrow> user s' = user s \<and> device_memory s' = device_memory s
     \<and> device_buffer s' = device_buffer s \<and> device_buffer_index s' = device_buffer_index s"
  by (cases s; cases s') (simp add: only_ports_def)

lemma returned_simps [simp]:
  "driver_state (returned f d s) = (driver_state s)(f := d)" "calls (returned f d s) = calls s + 1"
  "user (returned f d s) = user s" "device_memory (returned f d s) = device_memory s"
  by (simp_all add: returned_def)

lemma all3: "(\<forall>i < 3. P i) \<longleftrightarrow> P (0 :: nat) \<and> P 1 \<and> P 2"
  by (auto simp: numeral_3_eq_3 less_Suc_eq numeral_2_eq_2)

lemma setup_port_ok:
  assumes hw: "hardware_ok E" and sv: "served E iow f" and gr: "grants E (calls s)"
    and emp: "port_shows (driver_state s f) []"
  obtains s' where "setup_port E iow f s = ok s'" and "only_ports s s'" and "calls s' = calls s + 3"
    and "ready_driver (driver_state s' f)" and "\<forall>g. g \<noteq> f \<longrightarrow> driver_state s' g = driver_state s g"
    and "io_base (driver_state s' f) = io_base (driver_state s f)"
proof -
  let ?n = "calls s"
  define a0 a1 a2 where "a0 = answer E ?n" and "a1 = answer E (?n + 1)" and "a2 = answer E (?n + 2)"
  have g: "grants_fields a0" "grants_fields a1" "grants_fields a2"
    "kmalloc_ptr a0 \<noteq> NULL" "kmalloc_ptr a1 \<noteq> NULL" "kmalloc_ptr a2 \<noteq> NULL"
    "\<not> malloc_fails E ?n" "\<not> malloc_fails E (?n + 1)" "\<not> malloc_fails E (?n + 2)"
    "kmalloc_ptr a1 \<noteq> kmalloc_ptr a0" "kmalloc_ptr a2 \<noteq> kmalloc_ptr a0" "kmalloc_ptr a2 \<noteq> kmalloc_ptr a1"
    "dma_ptr a0 \<noteq> NULL" "dma_ptr a1 \<noteq> NULL" "dma_ptr a1 \<noteq> dma_ptr a0"
    "length (dma_content a0) = 7708" "length (dma_content a1) = 7680"
    using gr unfolding grants_def all3 a0_def a1_def a2_def by auto
  note ioctl = served_ioctl[OF sv]
  define h0 where "h0 = driver_now E f s"
  have "holds (driver_state s f) [] {} []" using emp by (simp add: holds_Nil)
  from holds_hardware[OF hw this, of ?n f] have h0: "holds h0 [] {} []" "io_base h0 = io_base (driver_state s f)"
    by (auto simp: h0_def driver_now_def)
  obtain d1 where d1: "ioctl_argument_pointer a0 (argument_parameters ((IMAGE_WIDTH + MASK_WIDTH) * 4) 4
        XIMGCONV_LITE_ADDR_INPUT_IMAGE_OFFSET_DATA 0) h0 = ok (0, d1)"
    "holds d1 ([] @ [kmalloc_ptr a0]) (insert (dma_ptr a0) {}) ([] @ [Buffer (dma_content a0)])"
    "io_base d1 = io_base h0"
    by (rule pointer_holds[OF h0(1) g(1,4) _ g(13), where ap = "argument_parameters ((IMAGE_WIDTH + MASK_WIDTH) * 4) 4
          XIMGCONV_LITE_ADDR_INPUT_IMAGE_OFFSET_DATA 0"]) (use g in \<open>simp_all add: argument_parameters_def\<close>)
  define s1 where "s1 = returned f d1 s"
  have s1: "driver_state s1 f = d1" "calls s1 = ?n + 1" by (simp_all add: s1_def)
  have e1: "sys_ioctl E f (FPGACL_ARGUMEN_POINTER (runtime_port iow f)) (argument_parameters ((IMAGE_WIDTH + MASK_WIDTH) * 4) 4
        XIMGCONV_LITE_ADDR_INPUT_IMAGE_OFFSET_DATA 0) 0 s = ok (0, s1)"
    using d1(1) by (simp add: sys_ioctl_def ioctl s1_def h0_def a0_def)
  define h1 where "h1 = driver_now E f s1"
  obtain x1 where h1: "holds h1 [kmalloc_ptr a0] {dma_ptr a0} x1" "list_all2 same_slot [Buffer (dma_content a0)] x1"
    "io_base h1 = io_base h0"
    using holds_hardware[OF hw d1(2)[simplified], of "?n + 1" f] d1(3) by (auto simp: h1_def driver_now_def s1)
  obtain d2 where d2: "ioctl_argument_pointer a1 (argument_parameters (IMAGE_WIDTH * 4) 4
        XIMGCONV_LITE_ADDR_OUTPUT_IMAGE_OFFSET_DATA 1) h1 = ok (0, d2)"
    "holds d2 ([kmalloc_ptr a0] @ [kmalloc_ptr a1]) (insert (dma_ptr a1) {dma_ptr a0}) (x1 @ [Buffer (dma_content a1)])"
    "io_base d2 = io_base h1"
    by (rule pointer_holds[OF h1(1) g(2,5) _ g(14), where ap = "argument_parameters (IMAGE_WIDTH * 4) 4
          XIMGCONV_LITE_ADDR_OUTPUT_IMAGE_OFFSET_DATA 1"]) (use g in \<open>simp_all add: argument_parameters_def\<close>)
  define s2 where "s2 = returned f d2 s1"
  have s2: "driver_state s2 f = d2" "calls s2 = ?n + 2" by (simp_all add: s2_def s1)
  have e2: "sys_ioctl E f (FPGACL_ARGUMEN_POINTER (runtime_port iow f)) (argument_parameters (IMAGE_WIDTH * 4) 4
        XIMGCONV_LITE_ADDR_OUTPUT_IMAGE_OFFSET_DATA 1) 0 s1 = ok (0, s2)"
    using d2(1) by (simp add: sys_ioctl_def ioctl s2_def h1_def a1_def s1)
  define h2 where "h2 = driver_now E f s2"
  obtain x2 where h2: "holds h2 [kmalloc_ptr a0, kmalloc_ptr a1] (insert (dma_ptr a1) {dma_ptr a0}) x2"
    "list_all2 same_slot (x1 @ [Buffer (dma_content a1)]) x2" "io_base h2 = io_base h0"
    using holds_hardware[OF hw d2(2)[simplified], of "?n + 2" f] d2(3) h1(3) by (auto simp: h2_def driver_now_def s2)
  obtain d3 where d3: "ioctl_argument_data a2 (argument_parameters 1 1 XIMGCONV_LITE_ADDR_FIRST_FLAG_DATA 2) h2 = ok (0, d3)"
    "holds d3 ([kmalloc_ptr a0, kmalloc_ptr a1] @ [kmalloc_ptr a2]) (insert (dma_ptr a1) {dma_ptr a0})
       (x2 @ [Scalar (io_base h2 + ap_fpga_reg_offset_address (argument_parameters 1 1 XIMGCONV_LITE_ADDR_FIRST_FLAG_DATA 2))])"
    "io_base d3 = io_base h2"
    by (rule data_holds[OF h2(1) g(3,6), where ap = "argument_parameters 1 1 XIMGCONV_LITE_ADDR_FIRST_FLAG_DATA 2"]) (use g in auto)
  define s3 where "s3 = returned f d3 s2"
  have e3: "sys_ioctl E f (FPGACL_ARGUMEN_DATA (runtime_port iow f))
      (argument_parameters 1 1 XIMGCONV_LITE_ADDR_FIRST_FLAG_DATA 2) 0 s2 = ok (0, s3)"
    using d3(1) by (simp add: sys_ioctl_def ioctl s3_def h2_def a2_def s2)
  have "setup_port E iow f s = ok s3"
    unfolding setup_port_def with_malloc_def e1 andthen_ok prod.case e2 e3
    using g(7-9) by (simp add: s1 s2)
  moreover have "only_ports s s3" "calls s3 = calls s + 3" "driver_state s3 f = d3"
    "\<forall>g. g \<noteq> f \<longrightarrow> driver_state s3 g = driver_state s g"
    using only_ports_trans[OF only_ports_returned only_ports_trans[OF only_ports_returned only_ports_returned]]
    by (simp_all add: s3_def s2_def s1_def)
  moreover have "ready_driver d3"
  proof -
    from h1(2) h2(2) g(16,17) obtain b0 b1 where "x2 = [Buffer b0, Buffer b1]" "length b0 = 7708" "length b1 = 7680"
      by (auto simp: list_all2_Cons1 elim!: same_slot_BufferE)
    with d3 show ?thesis by (auto simp: ready_driver_def port_shows_holds argument_parameters_def)
  qed
  ultimately show thesis using that d3(3) h2(3) h0(2) by simp
qed

lemma setup_ports_ok:
  assumes "hardware_ok E" and "\<forall>f \<in> set fs. served E iow f" and "\<forall>k < length fs. grants E (calls s + 3 * k)"
    and "distinct fs" and "\<forall>f \<in> set fs. port_shows (driver_state s f) []"
  shows "\<exists>s'. setup_ports E iow fs s = ok s' \<and> only_ports s s' \<and> calls s' = calls s + 3 * length fs \<and>
    (\<forall>f \<in> set fs. ready_driver (driver_state s' f) \<and> io_base (driver_state s' f) = io_base (driver_state s f)) \<and>
    (\<forall>g. g \<notin> set fs \<longrightarrow> driver_state s' g = driver_state s g)"
  using assms(2-5)
proof (induction fs arbitrary: s)
  case Nil
  then show ?case by simp
next
  case (Cons f fs)
  have g: "grants E (calls s)" using Cons.prems(2) by auto
  from setup_port_ok[OF assms(1) _ g, of iow f] Cons.prems obtain s1 where s1:
    "setup_port E iow f s = ok s1" "only_ports s s1" "calls s1 = calls s + 3" "ready_driver (driver_state s1 f)"
    "\<forall>g. g \<noteq> f \<longrightarrow> driver_state s1 g = driver_state s g" "io_base (driver_state s1 f) = io_base (driver_state s f)"
    by auto
  have "\<forall>k < length fs. grants E (calls s1 + 3 * k)"
  proof (intro allI impI)
    fix k assume "k < length fs"
    then have "grants E (calls s + 3 * Suc k)" using Cons.prems(2)[rule_format, of "Suc k"] by simp
    then show "grants E (calls s1 + 3 * k)" unfolding s1(3) by (simp add: add.assoc)
  qed
  moreover have "\<forall>g \<in> set fs. port_shows (driver_state s1 g) []"
    using Cons.prems s1(5) by auto
  ultimately obtain s2 where s2: "setup_ports E iow fs s1 = ok s2" "only_ports s1 s2" "calls s2 = calls s1 + 3 * length fs"
    "\<forall>f \<in> set fs. ready_driver (driver_state s2 f) \<and> io_base (driver_state s2 f) = io_base (driver_state s1 f)"
    "\<forall>g. g \<notin> set fs \<longrightarrow> driver_state s2 g = driver_state s1 g"
    using Cons.IH[of s1] Cons.prems by auto
  have "f \<notin> set fs" using Cons.prems by simp
  then have f2: "driver_state s2 f = driver_state s1 f" using s2(5) by blast
  have "only_ports s s2" by (rule only_ports_trans[OF s1(2) s2(2)])
  moreover have "\<forall>h \<in> set (f # fs). ready_driver (driver_state s2 h) \<and> io_base (driver_state s2 h) = io_base (driver_state s h)"
    using s1(4-6) s2(4) f2 \<open>f \<notin> set fs\<close> by auto
  moreover have "\<forall>g. g \<notin> set (f # fs) \<longrightarrow> driver_state s2 g = driver_state s g" using s1(5) s2(5) by simp
  ultimately show ?case using s1(1,3) s2(1,3) by simp
qed

end
