(* ===== verification/Zynq_Rows.thy ===== *)
theory Zynq_Rows
  imports Zynq_Lines
begin

text \<open>
  The lines of the image: what starting a line and fetching a line do on a port that is set up,
  the polling loop, and the whole run.
\<close>

section \<open>One line\<close>

definition transfers :: "environment \<Rightarrow> bool" where
  "transfers E \<longleftrightarrow> (\<forall>n. copy_rest (answer E n) = 0)"

lemma length_user_bytes [simp]: "length (user_bytes u p n) = n"
  by (simp add: user_bytes_def)

lemma driver_now_ready:
  assumes "hardware_ok E" and "ready_driver (driver_state s f)"
  shows "ready_driver (driver_now E f s)" and "io_base (driver_now E f s) = io_base (driver_state s f)"
  using ready_hardware[OF assms] by (simp_all add: driver_now_def)

text \<open>The two kinds of write and the start, on a port that is set up.\<close>

lemma write_line_ok:
  assumes "served E iow f" and "transfers E" and d: "driver_now E f s = d"
    and sh: "port_shows d [Buffer b0, Buffer b1, Scalar r]" and "length b0 = 7708"
  obtains d' where "sys_write E f p \<lparr>rw_value = v, rw_argument_index = 0, rw_read_write = 1\<rparr> 7708 s = ok (0, returned f d' s)"
    and "port_shows d' [Buffer (user_bytes (user s) p 7708), Buffer b1, Scalar r]"
    and "io d' = io d" and "io_base d' = io_base d"
proof -
  from sh obtain ps where ps: "driver_inv d ps" "slots d ps = [Buffer b0, Buffer b1, Scalar r]" "device_open d = 1"
    by (auto simp: port_shows_def)
  then have l: "length ps = 3" by (metis length_slots length_Cons list.size(3) numeral_3_eq_3)
  let ?a = "(answer E (calls s))\<lparr>copy_landed := user_bytes (user s) p 7708\<rparr>"
  let ?cmd = "\<lparr>rw_value = v, rw_argument_index = 0, rw_read_write = 1\<rparr>"
  obtain d' where d': "enpower_opencl_mohammad_write ?a ?cmd 7708 d = ok (0, d')" "driver_inv d' ps"
    "\<exists>m. d' = d\<lparr>dma_mem := m\<rparr>"
    "slots d' ps = (slots d ps)[unat (rw_argument_index ?cmd) := Buffer (copy_landed ?a @ drop (unat (7708 :: u32)) b0)]"
    by (rule write_buffer[OF ps(1), where cmd = ?cmd and b = b0 and len = 7708 and a = ?a])
      (use assms(5) l ps(2) in auto)
  have w: "fop_write (served_by E f) = enpower_opencl_mohammad_write" using assms(1) by (auto simp: served_def)
  have "sys_write E f p ?cmd 7708 s = ok (0, returned f d' s)"
    using d'(1) assms(2) by (simp add: sys_write_def transfers_def w d)
  moreover have "slots d' ps = [Buffer (user_bytes (user s) p 7708), Buffer b1, Scalar r]"
    using d'(4) ps(2) assms(5) by simp
  moreover have "io d' = io d" "io_base d' = io_base d" "device_open d' = device_open d" using d'(3) by auto
  ultimately show thesis using d'(2) ps(3) by (intro that[of d']) (auto simp: port_shows_def)
qed

lemma write_flag_ok:
  assumes "served E iow f" and d: "driver_now E f s = d"
    and sh: "port_shows d [b0, b1, Scalar (io_base d + 0x24)]"
  shows "sys_write E f p \<lparr>rw_value = v, rw_argument_index = 2, rw_read_write = 1\<rparr> 1 s
    = ok (0, returned f (d\<lparr>io := (io d)(io_base d + 0x24 := v)\<rparr>) s)"
proof -
  from sh obtain ps where ps: "driver_inv d ps" "slots d ps = [b0, b1, Scalar (io_base d + 0x24)]"
    by (auto simp: port_shows_def)
  then have l: "length ps = 3" by (metis length_slots length_Cons list.size(3) numeral_3_eq_3)
  have w: "fop_write (served_by E f) = enpower_opencl_mohammad_write" using assms(1) by (auto simp: served_def)
  have "enpower_opencl_mohammad_write a \<lparr>rw_value = v, rw_argument_index = 2, rw_read_write = 1\<rparr> 1 d
      = ok (0, d\<lparr>io := (io d)(io_base d + 0x24 := v)\<rparr>)" for a
    using write_scalar[OF ps(1), of "\<lparr>rw_value = v, rw_argument_index = 2, rw_read_write = 1\<rparr>" "io_base d + 0x24" 1 a]
      l ps(2) by (simp add: in_window_offset)
  then show ?thesis by (simp add: sys_write_def w d Let_def)
qed

lemma start_ok:
  assumes "served E iow f" and d: "driver_now E f s = d"
  shows "sys_ioctl E f (FPGACL_START (runtime_port iow f)) ap 0 s
    = ok (0, returned f (d\<lparr>io := (io d)(io_base d := (io d (io_base d) AND 0x80) OR 1)\<rparr>) s)"
  using ioctl_start_ok[of d 0] in_window_offset[of d 0] by (simp add: sys_ioctl_def served_ioctl[OF assms(1)] d)

lemma start_line_ok:
  assumes hw: "hardware_ok E" and sv: "served E iow f" and tr: "transfers E"
    and rd: "ready_driver (driver_state s f)"
  obtains s' where "start_line E iow row (f, b) s = ok s'" and "only_ports s s'" and "calls s' = calls s + 3"
    and "ready_driver (driver_state s' f)" and "\<forall>g. g \<noteq> f \<longrightarrow> driver_state s' g = driver_state s g"
proof -
  define d0 where "d0 = driver_now E f s"
  have "ready_driver d0" using driver_now_ready[OF hw rd] by (simp add: d0_def)
  then obtain b0 b1 where b: "port_shows d0 [Buffer b0, Buffer b1, Scalar (io_base d0 + 0x24)]"
    "length b0 = 7708" "length b1 = 7680" by (auto simp: ready_driver_def)
  obtain d1 where d1: "sys_write E f (input_line b row s) \<lparr>rw_value = 0, rw_argument_index = 0, rw_read_write = 1\<rparr> 7708 s
      = ok (0, returned f d1 s)"
    "port_shows d1 [Buffer (user_bytes (user s) (input_line b row s) 7708), Buffer b1, Scalar (io_base d0 + 0x24)]"
    "io_base d1 = io_base d0"
    by (rule write_line_ok[OF sv tr d0_def[symmetric] b(1,2)])
  let ?s1 = "returned f d1 s"
  have "ready_driver d1" using d1 b(3) unfolding ready_driver_def by fastforce
  then have r1: "ready_driver (driver_now E f ?s1)" by (intro driver_now_ready[OF hw]) simp
  define d2 where "d2 = driver_now E f ?s1"
  from r1 obtain c0 c1 where c: "port_shows d2 [Buffer c0, Buffer c1, Scalar (io_base d2 + 0x24)]"
    "length c0 = 7708" "length c1 = 7680" by (auto simp: ready_driver_def d2_def)
  define v where "v = (if row = 0 then 1 else 0 :: u32)"
  let ?d2 = "d2\<lparr>io := (io d2)(io_base d2 + 0x24 := v)\<rparr>" and ?s2 = "returned f (d2\<lparr>io := (io d2)(io_base d2 + 0x24 := v)\<rparr>) ?s1"
  have e2: "sys_write E f (input_line b row s) \<lparr>rw_value = v, rw_argument_index = 2, rw_read_write = 1\<rparr> 1 ?s1 = ok (0, ?s2)"
    by (rule write_flag_ok[OF sv d2_def[symmetric] c(1)])
  have "ready_driver ?d2" using c unfolding ready_driver_def by auto
  then have r2: "ready_driver (driver_now E f ?s2)" by (intro driver_now_ready[OF hw]) simp
  define d3 where "d3 = driver_now E f ?s2"
  let ?d3 = "d3\<lparr>io := (io d3)(io_base d3 := (io d3 (io_base d3) AND 0x80) OR 1)\<rparr>"
  let ?s3 = "returned f ?d3 ?s2"
  have e3: "sys_ioctl E f (FPGACL_START (runtime_port iow f)) (argument_parameters 0 0 0 0) 0 ?s2 = ok (0, ?s3)"
    by (rule start_ok[OF sv d3_def[symmetric]])
  have "start_line E iow row (f, b) s = ok ?s3"
    using d1(1) e2 e3 unfolding start_line_def v_def by simp
  moreover have "ready_driver ?d3" using r2 unfolding d3_def[symmetric] ready_driver_def by auto
  ultimately show thesis
    by (intro that[of ?s3])
      (simp_all add: only_ports_trans[OF only_ports_returned only_ports_trans[OF only_ports_returned only_ports_returned]])
qed

lemma fetch_line_ok:
  assumes hw: "hardware_ok E" and sv: "served E iow f" and tr: "transfers E"
    and rd: "ready_driver (driver_state s f)"
  obtains s' bs where "fetch_line E row (f, b) s = ok s'" and "calls s' = calls s + 1"
    and "ready_driver (driver_state s' f)" and "\<forall>g. g \<noteq> f \<longrightarrow> driver_state s' g = driver_state s g"
    and "length bs = 7680" and "user s' = put_bytes (output_line b row s) bs (user s)"
    and "device_memory s' = device_memory s"
    and "\<exists>b0 r. port_shows (driver_now E f s) [b0, Buffer bs, r]"
proof -
  define d0 where "d0 = driver_now E f s"
  have r0: "ready_driver d0" using driver_now_ready[OF hw rd] by (simp add: d0_def)
  then obtain b0 b1 where b: "port_shows d0 [Buffer b0, Buffer b1, Scalar (io_base d0 + 0x24)]"
    "length b0 = 7708" "length b1 = 7680" by (auto simp: ready_driver_def)
  let ?cmd = "\<lparr>rw_value = 0, rw_argument_index = 1, rw_read_write = 0\<rparr>"
  have "enpower_opencl_mohammad_read (answer E (calls s)) ?cmd 7680 d0 = ok (0, take (unat (7680 :: u32)) b1)"
    by (rule port_read_law[OF b(1)]) (use b(3) tr in \<open>simp_all add: transfers_def\<close>)
  moreover have "fop_read (served_by E f) = enpower_opencl_mohammad_read" using sv by (auto simp: served_def)
  ultimately have "fetch_line E row (f, b) s
      = ok ((returned f d0 s)\<lparr>user := put_bytes (output_line b row s) b1 (user s)\<rparr>)"
    using b(3) by (simp add: fetch_line_def sys_read_def d0_def)
  then show thesis
    by (rule that) (use r0 b d0_def in auto)
qed

section \<open>All blocks\<close>

lemma start_lines_ok:
  assumes "hardware_ok E" and "transfers E" and "\<forall>(f, b) \<in> set fbs. served E iow f"
    and "\<forall>f. ready_driver (driver_state s f)"
  shows "\<exists>s'. for_each (start_line E iow row) fbs s = ok s' \<and> only_ports s s' \<and> (\<forall>f. ready_driver (driver_state s' f))"
  using assms(3,4)
proof (induction fbs arbitrary: s)
  case (Cons fb fbs)
  obtain f b where fb: "fb = (f, b)" by (cases fb)
  have "served E iow f" using Cons.prems fb by auto
  from start_line_ok[OF assms(1) this assms(2), of s row b] Cons.prems(2) obtain s1 where s1:
    "start_line E iow row fb s = ok s1" "only_ports s s1" "ready_driver (driver_state s1 f)"
    "\<forall>g. g \<noteq> f \<longrightarrow> driver_state s1 g = driver_state s g" unfolding fb by blast
  have "\<forall>g. ready_driver (driver_state s1 g)"
  proof
    fix g show "ready_driver (driver_state s1 g)" using s1(3,4) Cons.prems(2) by (cases "g = f") auto
  qed
  with Cons.IH[of s1] Cons.prems(1) obtain s2 where "for_each (start_line E iow row) fbs s1 = ok s2"
    "only_ports s1 s2" "\<forall>f. ready_driver (driver_state s2 f)" by auto
  with s1 show ?case using only_ports_trans by auto
qed simp

text \<open>The bytes of the output that the lines \<open>rows\<close> of the blocks \<open>bs\<close> cover.\<close>

definition output_bytes :: "nat list \<Rightarrow> nat list \<Rightarrow> zynq \<Rightarrow> addr set" where
  "output_bytes rows bs s = {output_line b row s + of_nat i | b row i. b \<in> set bs \<and> row \<in> set rows \<and> i < 7680}"

lemma output_line_memory: "device_memory s' = device_memory s \<Longrightarrow> output_line b row s' = output_line b row s"
  by (simp add: output_line_def)

lemma put_bytes_outside:
  assumes "\<forall>i < length bs. a \<noteq> p + of_nat i"
  shows "put_bytes p bs u a = u a"
proof -
  have "\<not> unat (a - p) < length bs"
  proof
    assume "unat (a - p) < length bs"
    moreover have "a = p + of_nat (unat (a - p))" by simp
    ultimately show False using assms by blast
  qed
  then show ?thesis by (simp add: put_bytes_def)
qed

lemma fetch_lines_ok:
  assumes "hardware_ok E" and "transfers E" and "\<forall>(f, b) \<in> set fbs. served E iow f"
    and "\<forall>f. ready_driver (driver_state s f)"
  shows "\<exists>s'. for_each (fetch_line E row) fbs s = ok s' \<and> (\<forall>f. ready_driver (driver_state s' f)) \<and>
    device_memory s' = device_memory s \<and>
    (\<forall>a. a \<notin> output_bytes [row] (map snd fbs) s \<longrightarrow> user s' a = user s a)"
  using assms(3,4)
proof (induction fbs arbitrary: s)
  case (Cons fb fbs)
  obtain f b where fb: "fb = (f, b)" by (cases fb)
  have "served E iow f" using Cons.prems fb by auto
  from fetch_line_ok[OF assms(1) this assms(2), of s row b] Cons.prems(2) obtain s1 bs where s1:
    "fetch_line E row fb s = ok s1" "ready_driver (driver_state s1 f)" "\<forall>g. g \<noteq> f \<longrightarrow> driver_state s1 g = driver_state s g"
    "length bs = 7680" "user s1 = put_bytes (output_line b row s) bs (user s)" "device_memory s1 = device_memory s"
    unfolding fb by metis
  have "\<forall>g. ready_driver (driver_state s1 g)"
  proof
    fix g show "ready_driver (driver_state s1 g)" using s1(2,3) Cons.prems(2) by (cases "g = f") auto
  qed
  with Cons.IH[of s1] Cons.prems(1) obtain s2 where s2: "for_each (fetch_line E row) fbs s1 = ok s2"
    "\<forall>f. ready_driver (driver_state s2 f)" "device_memory s2 = device_memory s1"
    "\<forall>a. a \<notin> output_bytes [row] (map snd fbs) s1 \<longrightarrow> user s2 a = user s1 a" by auto
  have "user s2 a = user s a" if "a \<notin> output_bytes [row] (map snd (fb # fbs)) s" for a
  proof -
    have "a \<notin> output_bytes [row] (map snd fbs) s1"
      using that output_line_memory[OF s1(6)] by (auto simp: output_bytes_def)
    then have "user s2 a = user s1 a" using s2(4) by blast
    moreover have "\<forall>i < length bs. a \<noteq> output_line b row s + of_nat i"
      using that s1(4) by (auto simp: output_bytes_def fb)
    ultimately show ?thesis using put_bytes_outside by (simp add: s1(5))
  qed
  with s1 s2 show ?case by auto
qed simp

section \<open>Polling\<close>

text \<open>At infinitely many system calls the hardware shows its port idle.\<close>

definition idle_again :: "environment \<Rightarrow> bool" where
  "idle_again E \<longleftrightarrow> (\<forall>n. \<exists>k \<ge> n. \<forall>f d. bit (io (hardware E k f d) (io_base d)) 1)"

lemma ctrl_ok:
  assumes "served E iow f"
  shows "sys_ioctl E f (FPGACL_CTRL (runtime_port iow f)) ap 0 s
    = ok (if bit (io (driver_now E f s) (io_base (driver_now E f s))) 1 then 1 else 0, returned f (driver_now E f s) s)"
  using ioctl_ctrl_ok[of "driver_now E f s" 0] in_window_offset[of "driver_now E f s" 0]
  by (simp add: sys_ioctl_def served_ioctl[OF assms])

lemma poll_ports_ok:
  assumes hw: "hardware_ok E" and sv: "\<forall>f \<in> set fs. served E iow f"
    and rd: "\<forall>f. ready_driver (driver_state s f)" and n: "unat n + length fs < 2 ^ 32"
  shows "\<exists>v s'. poll_ports E iow fs n s = ok (v, s') \<and> only_ports s s' \<and> calls s' = calls s + length fs \<and>
    (\<forall>f. ready_driver (driver_state s' f)) \<and> unat n \<le> unat v \<and>
    (\<forall>k. calls s \<le> k \<longrightarrow> k < calls s + length fs \<longrightarrow> (\<forall>f d. bit (io (hardware E k f d) (io_base d)) 1) \<longrightarrow> unat n < unat v)"
  using sv rd n
proof (induction fs arbitrary: s n)
  case Nil
  then show ?case by simp
next
  case (Cons f fs)
  let ?d = "driver_now E f s"
  define r where "r = (if bit (io ?d (io_base ?d)) 1 then 1 else 0 :: int)"
  let ?s1 = "returned f ?d s" and ?n1 = "n + word_of_int r"
  have rd: "\<forall>g. ready_driver (driver_state ?s1 g)"
    using Cons.prems(2) driver_now_ready(1)[OF hw, of s] by simp
  have u: "unat ?n1 = unat n + (if r = 1 then 1 else 0)"
    using Cons.prems(3) by (auto simp: r_def unat_add_no_wrap)
  have "unat ?n1 + length fs < 2 ^ 32" using Cons.prems(3) unfolding u by auto
  with Cons.IH[of ?s1 ?n1] Cons.prems(1) rd obtain v s' where IH:
    "poll_ports E iow fs ?n1 ?s1 = ok (v, s')" "only_ports ?s1 s'" "calls s' = calls ?s1 + length fs"
    "\<forall>f. ready_driver (driver_state s' f)" "unat ?n1 \<le> unat v"
    "\<forall>k. calls ?s1 \<le> k \<longrightarrow> k < calls ?s1 + length fs \<longrightarrow> (\<forall>f d. bit (io (hardware E k f d) (io_base d)) 1) \<longrightarrow> unat ?n1 < unat v"
    by auto
  have "served E iow f" using Cons.prems(1) by simp
  from ctrl_ok[OF this, of "argument_parameters 0 0 0 0" s] IH(1)
  have e: "poll_ports E iow (f # fs) n s = ok (v, s')" by (simp add: r_def)
  have "unat n < unat v" if k: "calls s \<le> k" "k < calls s + length (f # fs)"
    "\<forall>f d. bit (io (hardware E k f d) (io_base d)) 1" for k
  proof (cases "k = calls s")
    case True
    have "io_base ?d = io_base (driver_state s f)"
      using driver_now_ready(2)[OF hw] Cons.prems(2) by blast
    with True k(3) have "r = 1" by (simp add: r_def driver_now_def)
    with u IH(5) show ?thesis by simp
  next
    case False
    then have "calls ?s1 \<le> k" "k < calls ?s1 + length fs" using k by auto
    then have "unat ?n1 < unat v" using IH(6)[rule_format, of k] k(3) by blast
    with u show ?thesis by simp
  qed
  moreover have "only_ports s s'" by (rule only_ports_trans[OF only_ports_returned IH(2)])
  moreover have "unat n \<le> unat v" using u IH(5) by simp
  ultimately show ?case using e IH(3,4) by (intro exI[of _ v] exI[of _ s']) auto
qed

lemma wait_idle_ok:
  assumes hw: "hardware_ok E" and sv: "\<forall>f. served E iow f" and id: "idle_again E"
    and rd: "\<forall>f. ready_driver (driver_state s f)"
  shows "\<exists>s'. wait_idle E iow s = ok s' \<and> only_ports s s' \<and> (\<forall>f. ready_driver (driver_state s' f))"
proof -
  obtain k where k: "calls s \<le> k" "\<forall>f d. bit (io (hardware E k f d) (io_base d)) 1"
    using id unfolding idle_again_def by blast
  have l: "length files = 5" by (simp add: files_def)
  show ?thesis using k(1) rd
  proof (induction "k - calls s" arbitrary: s rule: less_induct)
    case less
    have z: "unat (0 :: u32) + length files < 2 ^ 32" by (simp add: l)
    from poll_ports_ok[OF hw _ less.prems(2) z, of iow] sv obtain v s1 where p:
      "poll_ports E iow files 0 s = ok (v, s1)" "only_ports s s1" "calls s1 = calls s + 5"
      "\<forall>f. ready_driver (driver_state s1 f)"
      "calls s \<le> k \<longrightarrow> k < calls s + 5 \<longrightarrow> unat (0 :: u32) < unat v" using k(2) unfolding l by blast
    show ?case
    proof (cases "v = 0")
      case False
      then have "wait_idle E iow s = ok s1" using p(1) by (simp add: wait_idle.simps[of E iow s] ok_def)
      then show ?thesis using p by auto
    next
      case True
      then have "calls s + 5 \<le> k" using p(5) less.prems(1) by (cases "k < calls s + 5") auto
      then have "k - calls s1 < k - calls s" "calls s1 \<le> k" using p(3) by auto
      from less.hyps[OF this p(4)] obtain s2 where "wait_idle E iow s1 = ok s2" "only_ports s1 s2"
        "\<forall>f. ready_driver (driver_state s2 f)" by blast
      moreover have "wait_idle E iow s = wait_idle E iow s1"
        using p(1) True by (simp add: wait_idle.simps[of E iow s] ok_def)
      ultimately show ?thesis using only_ports_trans[OF p(2)] by auto
    qed
  qed
qed

end
