(* ===== verification/Fpga_Props.thy ===== *)
theory Fpga_Props
  imports Fpga_Reach
begin

text \<open>
  The properties of the port drivers: resource ownership in every reachable state, exclusive
  open, the round trip of data through an argument, registers, and the inputs on which the
  code faults.
\<close>

section \<open>A concrete open device\<close>

text \<open>One open device with a pointer argument backed by four bytes, and one scalar argument.\<close>

definition ex_buffer_node :: kernel_argument_list_type where
  "ex_buffer_node = \<lparr>previous = 0, next = 24, fpga_arguments =
     \<lparr>kernel_mapped_fpga_address = 0xF0000014, fpga_address_offset = 0x14, arg_type = 0,
      fpga_buffer = \<lparr>linux_kernel_memory = 32, buf_index = 0, buf_size = 4, phys_add = 0x1000\<rparr>\<rparr>\<rparr>"

definition ex_scalar_node :: kernel_argument_list_type where
  "ex_scalar_node = \<lparr>previous = 16, next = 0, fpga_arguments =
     \<lparr>kernel_mapped_fpga_address = 0xF000001C, fpga_address_offset = 0x1C, arg_type = 1,
      fpga_buffer = \<lparr>linux_kernel_memory = 0, buf_index = 1, buf_size = 0, phys_add = 0\<rparr>\<rparr>\<rparr>"

definition ex_driver :: driver where
  "ex_driver = \<lparr>device_open = 1, arguments_list = 16,
     knodes = [16 \<mapsto> ex_buffer_node, 24 \<mapsto> ex_scalar_node], dma_mem = [32 \<mapsto> [1, 2, 3, 4]],
     io_base = 0xF0000000, io = (\<lambda>_. 0x84), chrdev_region = True, cdev_live = True\<rparr>"

definition ex_slots :: "slot list" where
  "ex_slots = [Buffer [1, 2, 3, 4], Scalar 0xF000001C]"

lemmas ex_defs = ex_buffer_node_def ex_scalar_node_def ex_driver_def ex_slots_def

lemma ex_inv: "driver_inv ex_driver [16, 24]"
proof -
  have "rep ex_driver [16, 24]" by (auto simp: rep_def ex_defs)
  then show ?thesis
    by (auto simp: driver_inv_def arguments_def argument_ok_def buf_ptrs_def ex_defs)
qed

lemma ex_slots_eq: "slots ex_driver [16, 24] = ex_slots"
  by (simp add: slots_def arguments_def slot_of_def ex_defs)

lemma ex_shows: "port_shows ex_driver ex_slots"
  unfolding port_shows_def using ex_inv ex_slots_eq by (auto simp: ex_driver_def)

definition ex_answers :: kernel_answers where
  "ex_answers = \<lparr>kmalloc_ptr = 40, kmalloc_content = ex_scalar_node, dma_ptr = 48,
     dma_handle = 0x2000, dma_content = [0, 0, 0, 0, 0, 0, 0, 0], cfu_index = 0, cfu_size = 0,
     cfu_offset = 0, cfu_type_size = 0, copy_rest = 0, copy_landed = [9, 8]\<rparr>"

definition ex_parameters :: argument_parameters_type where
  "ex_parameters = \<lparr>ap_size = 8, ap_type_size = 4, ap_fpga_reg_offset_address = 0x24, ap_index = 2\<rparr>"

definition iow_linux :: iow where
  "iow_linux t n sz = 0x40000000 OR push_bit 16 sz OR push_bit 8 t OR n"

lemma ex_closed: "driver_inv (ex_driver\<lparr>device_open := 0, arguments_list := 0, knodes := Map.empty,
    dma_mem := Map.empty\<rparr>) []"
  by (simp add: driver_inv_def rep_empty arguments_def)

section \<open>Properties\<close>

text \<open>
  C1: Ownership in every reachable state. After any sequence of system calls and hardware
  activity, the argument list is a well-formed doubly linked list holding every node the
  driver allocated, every pointer argument that was set up has its own DMA buffer of the
  recorded size, no buffer is owned twice or by no argument, and a closed device owns neither
  nodes nor buffers.
\<close>

theorem driver_reachable_owns:
  assumes "driver_reachable P s"
  shows "\<exists>ps. driver_inv s ps \<and> dom (knodes s) = set ps \<and>
           dom (dma_mem s) = set (buf_ptrs (arguments s ps)) \<and> distinct (buf_ptrs (arguments s ps)) \<and>
           (device_open s = 0 \<longrightarrow> knodes s = Map.empty \<and> dma_mem s = Map.empty)"
proof -
  from reachable_inv[OF assms] obtain ps where ps: "driver_inv s ps" by blast
  then have "dom (knodes s) = set ps" "dom (dma_mem s) = set (buf_ptrs (arguments s ps))"
    "distinct (buf_ptrs (arguments s ps))"
    by (auto simp: driver_inv_def rep_def)
  with ps driver_inv_open_flag[OF ps] show ?thesis
    by (intro exI[of _ ps]) (auto simp: arguments_def)
qed

theorem driver_reachable_owns_witness:
  "\<exists>s. driver_reachable (port_hp0 iow_linux) s \<and> device_open s = 1 \<and>
     (\<exists>ps. driver_inv s ps \<and> dom (knodes s) = set ps)"
proof -
  let ?s0 = "ex_driver\<lparr>device_open := 0, arguments_list := 0, knodes := Map.empty, dma_mem := Map.empty\<rparr>"
  let ?s1 = "snd (enpower_opencl_mohammad_open ?s0)"
  have "driver_reachable (port_hp0 iow_linux) ?s0"
    by (rule reach_loaded) (simp add: loaded_def)
  moreover have "driver_step (port_hp0 iow_linux) ?s0 ?s1"
    by (rule step_open[of _ "fst (enpower_opencl_mohammad_open ?s0)"]) simp
  ultimately have r: "driver_reachable (port_hp0 iow_linux) ?s1" by (rule reach_step)
  have "device_open ?s1 = 1" by (simp add: enpower_opencl_mohammad_open_def)
  with r driver_reachable_owns[OF r] show ?thesis by blast
qed

text \<open>
  C2: Round trip on every port. On each of the five ports, data written to a pointer argument
  is delivered again by a read of the same argument after the accelerator was started and
  polled, whatever the other arguments are, and the poll answers 0 or 1.
\<close>

definition all_ports :: "iow \<Rightarrow> (file_operations \<times> port) list" where
  "all_ports iow =
     [(enpower_opencl_mohammad_fops_hp0 iow, port_hp0 iow),
      (enpower_opencl_mohammad_fops_hp1 iow, port_hp1 iow),
      (enpower_opencl_mohammad_fops_hp2 iow, port_hp2 iow),
      (enpower_opencl_mohammad_fops_hp3 iow, port_hp3 iow),
      (enpower_opencl_mohammad_fops_acp iow, port_acp iow)]"

theorem port_write_start_read:
  assumes "(F, P) \<in> set (all_ports iow)" and "port_shows s xs"
    and "distinct (command_numbers P)" and "unat off + 4 \<le> 1000"
    and "unat i < length xs" and "xs ! unat i = Buffer b"
    and "len \<noteq> 0" and "unat len \<le> length b" and "length (copy_landed a) = unat len"
    and "copy_rest a' = 0"
  shows "\<exists>s1 s2 d. fop_write F a \<lparr>rw_value = v, rw_argument_index = i, rw_read_write = 1\<rparr> len s = ok (0, s1)
    \<and> fop_unlocked_ioctl F a (FPGACL_START P) ap off s1 = ok (0, s2)
    \<and> fop_unlocked_ioctl F a (FPGACL_CTRL P) ap off s2 = ok (d, s2)
    \<and> fop_read F a' \<lparr>rw_value = v', rw_argument_index = i, rw_read_write = 0\<rparr> len s2
        = ok (0, copy_landed a)"
  using assms(1) hp0.write_start_read[OF assms(2) _ assms(4-10)] hp1.write_start_read[OF assms(2) _ assms(4-10)]
    hp2.write_start_read[OF assms(2) _ assms(4-10)] hp3.write_start_read[OF assms(2) _ assms(4-10)]
    acp.write_start_read[OF assms(2) _ assms(4-10)] assms(3)
  by (auto simp: all_ports_def)

theorem port_write_start_read_witness:
  "\<exists>s1 s2 d. fop_write (enpower_opencl_mohammad_fops_acp iow_linux) ex_answers
        \<lparr>rw_value = 0, rw_argument_index = 0, rw_read_write = 1\<rparr> 2 ex_driver = ok (0, s1)
    \<and> fop_unlocked_ioctl (enpower_opencl_mohammad_fops_acp iow_linux) ex_answers
        (FPGACL_START (port_acp iow_linux)) ex_parameters 0 s1 = ok (0, s2)
    \<and> fop_unlocked_ioctl (enpower_opencl_mohammad_fops_acp iow_linux) ex_answers
        (FPGACL_CTRL (port_acp iow_linux)) ex_parameters 0 s2 = ok (d, s2)
    \<and> fop_read (enpower_opencl_mohammad_fops_acp iow_linux) ex_answers
        \<lparr>rw_value = 0, rw_argument_index = 0, rw_read_write = 0\<rparr> 2 s2 = ok (0, [9, 8])"
proof -
  have p: "(enpower_opencl_mohammad_fops_acp iow_linux, port_acp iow_linux) \<in> set (all_ports iow_linux)"
    by (simp add: all_ports_def)
  have d: "distinct (command_numbers (port_acp iow_linux))"
    by (simp add: command_numbers_def port_acp_def mk_port_def iow_linux_def)
  show ?thesis
    using port_write_start_read[OF p ex_shows d, of 0 0 "[1, 2, 3, 4]" 2 ex_answers ex_answers 0 ex_parameters 0]
    by (simp add: ex_slots_def ex_answers_def)
qed

text \<open>
  C3: Setting up a pointer argument. With memory available and a register offset inside the
  window, the \<open>ioctl\<close> appends one argument whose buffer holds the new memory, writes the
  buffer's bus address divided by the element size to the argument's register, and keeps all
  earlier arguments and their data.
\<close>

theorem argument_pointer_appends:
  assumes "port_shows s xs" and "distinct (command_numbers P)"
    and "cfu_index a = 0" "cfu_size a = 0" "cfu_offset a = 0" "cfu_type_size a = 0"
    and "fresh_node s a" and "fresh_buffer s a (ap_size ap)" and "dma_ptr a \<noteq> NULL"
    and "ap_type_size ap \<noteq> 0" and "unat (ap_fpga_reg_offset_address ap) + 4 \<le> 1000"
  shows "\<exists>s'. enpower_opencl_mohammad_ioctl P a (FPGACL_ARGUMEN_POINTER P) ap param s = ok (0, s')
    \<and> port_shows s' (xs @ [Buffer (dma_content a)])
    \<and> io s' = (io s)(io_base s + ap_fpga_reg_offset_address ap := dma_handle a div ap_type_size ap)"
proof -
  from assms(1) obtain ps where ps: "driver_inv s ps" "slots s ps = xs" "device_open s = 1"
    by (auto simp: port_shows_def)
  have "enpower_opencl_mohammad_ioctl P a (FPGACL_ARGUMEN_POINTER P) ap param s
          = ioctl_argument_pointer a ap s"
    by (simp add: enpower_opencl_mohammad_ioctl_def)
  with ioctl_pointer_ok[OF ps(1,3) assms(3-10)] assms(11) ps(2) show ?thesis
    by (metis in_window_offset port_shows_def)
qed

theorem argument_pointer_appends_witness:
  "\<exists>s'. enpower_opencl_mohammad_ioctl (port_hp1 iow_linux) ex_answers
        (FPGACL_ARGUMEN_POINTER (port_hp1 iow_linux)) ex_parameters 0 ex_driver = ok (0, s')
    \<and> port_shows s' (ex_slots @ [Buffer [0, 0, 0, 0, 0, 0, 0, 0]]) \<and> io s' 0xF0000024 = 0x800"
proof -
  have d: "distinct (command_numbers (port_hp1 iow_linux))"
    by (simp add: command_numbers_def port_hp1_def mk_port_def iow_linux_def)
  show ?thesis
    using argument_pointer_appends[OF ex_shows d, of ex_answers ex_parameters 0]
    by (auto simp: ex_answers_def ex_parameters_def fresh_node_def fresh_buffer_def ex_driver_def)
qed

text \<open>
  C4: Closing an open device of any port. When every pointer argument got its buffer, it frees every node
  and every buffer, and the device can be opened again, with no arguments; when one of them has no
  buffer, because the allocation of its DMA memory failed, closing frees memory that was never allocated.
\<close>

theorem release_frees_all:
  assumes "(F, P) \<in> set (all_ports iow)" and "port_shows s xs"
  shows "if Unbacked \<in> set xs then fop_release F s = throw BadFree
    else \<exists>s1 s2. fop_release F s = ok (0, s1) \<and> knodes s1 = Map.empty \<and> dma_mem s1 = Map.empty
      \<and> fop_open F s1 = (0, s2) \<and> port_shows s2 []"
proof (cases "Unbacked \<in> set xs")
  case True
  note bad = hp0.unbacked_law[OF assms(2) True] hp1.unbacked_law[OF assms(2) True] hp2.unbacked_law[OF assms(2) True]
    hp3.unbacked_law[OF assms(2) True] acp.unbacked_law[OF assms(2) True]
  from True assms(1) show ?thesis by (auto simp: all_ports_def bad)
next
  case False
  have "\<exists>s1 s2. fop_release F s = ok (0, s1) \<and> knodes s1 = Map.empty \<and> dma_mem s1 = Map.empty
      \<and> fop_open F s1 = (0, s2) \<and> port_shows s2 []"
    using assms(1) hp0.release_law[OF assms(2) False] hp1.release_law[OF assms(2) False] hp2.release_law[OF assms(2) False]
      hp3.release_law[OF assms(2) False] acp.release_law[OF assms(2) False]
      hp0.open_law hp1.open_law hp2.open_law hp3.open_law acp.open_law
    unfolding all_ports_def by (simp, elim disjE) (metis idle_driver_def)+
  with False show ?thesis by simp
qed

theorem release_frees_all_witness:
  "\<exists>s1 s2. fop_release (enpower_opencl_mohammad_fops_hp2 iow_linux) ex_driver = ok (0, s1)
    \<and> dma_mem s1 = Map.empty \<and> fop_open (enpower_opencl_mohammad_fops_hp2 iow_linux) s1 = (0, s2)"
proof -
  have p: "(enpower_opencl_mohammad_fops_hp2 iow_linux, port_hp2 iow_linux) \<in> set (all_ports iow_linux)"
    by (simp add: all_ports_def)
  show ?thesis using release_frees_all[OF p ex_shows] by (auto simp: ex_slots_def)
qed

text \<open>
  C5: A failed allocation poisons the device. When the DMA allocation of a pointer argument
  fails the \<open>ioctl\<close> answers \<open>-ENODEV\<close> but leaves the argument in the list without a buffer,
  and closing the device then hands memory that was never allocated to \<open>dma_free_coherent\<close>.
\<close>

theorem failed_allocation_bad_free:
  assumes "port_shows s xs" and "distinct (command_numbers P)"
    and "cfu_index a = 0" "cfu_size a = 0" "cfu_offset a = 0" "cfu_type_size a = 0"
    and "fresh_node s a" and "dma_ptr a = NULL"
  shows "\<exists>s'. enpower_opencl_mohammad_ioctl P a (FPGACL_ARGUMEN_POINTER P) ap param s = ok (- ENODEV, s')
    \<and> port_shows s' (xs @ [Unbacked]) \<and> enpower_opencl_mohammad_release s' = throw BadFree"
proof -
  from assms(1) obtain ps where ps: "driver_inv s ps" "slots s ps = xs" "device_open s = 1"
    by (auto simp: port_shows_def)
  from ioctl_pointer_no_memory[OF ps(1,3) assms(3-8), of ap] obtain s'
    where s': "ioctl_argument_pointer a ap s = ok (- ENODEV, s')"
      "driver_inv s' (ps @ [kmalloc_ptr a])" "slots s' (ps @ [kmalloc_ptr a]) = xs @ [Unbacked]"
      "device_open s' = 1"
    using ps(2) by metis
  from release_unbacked[OF s'(2)] s' show ?thesis
    by (auto simp: enpower_opencl_mohammad_ioctl_def port_shows_def)
qed

theorem failed_allocation_bad_free_witness:
  "\<exists>s'. enpower_opencl_mohammad_ioctl (port_hp3 iow_linux) (ex_answers\<lparr>dma_ptr := 0\<rparr>)
        (FPGACL_ARGUMEN_POINTER (port_hp3 iow_linux)) ex_parameters 0 ex_driver = ok (- ENODEV, s')
    \<and> enpower_opencl_mohammad_release s' = throw BadFree"
proof -
  have d: "distinct (command_numbers (port_hp3 iow_linux))"
    by (simp add: command_numbers_def port_hp3_def mk_port_def iow_linux_def)
  show ?thesis
    using failed_allocation_bad_free[OF ex_shows d, of "ex_answers\<lparr>dma_ptr := 0\<rparr>" ex_parameters 0]
    by (auto simp: ex_answers_def fresh_node_def ex_driver_def)
qed

text \<open>
  C6: The index and the length of a transfer are not checked. An argument index past the list
  dereferences a null pointer, and a length above the buffer's size runs past the buffer.
\<close>

theorem unchecked_transfers_fault:
  assumes "port_shows s xs"
  shows "(length xs \<le> unat (rw_argument_index cmd) \<and> rw_read_write cmd = 0 \<longrightarrow>
           enpower_opencl_mohammad_read a cmd len s = throw NullDeref) \<and>
         (length xs \<le> unat (rw_argument_index cmd) \<and> rw_read_write cmd = 1 \<and> len \<noteq> 0 \<longrightarrow>
           enpower_opencl_mohammad_write a cmd len s = throw NullDeref) \<and>
         (unat (rw_argument_index cmd) < length xs \<and> xs ! unat (rw_argument_index cmd) = Buffer b \<and>
           rw_read_write cmd = 1 \<and> length b < unat len \<longrightarrow>
           enpower_opencl_mohammad_write a cmd len s = throw OutOfBounds)"
  using assms index_out_of_range write_buffer_overflow by (auto simp: port_shows_def)

theorem unchecked_transfers_fault_witness:
  "enpower_opencl_mohammad_read ex_answers \<lparr>rw_value = 0, rw_argument_index = 2, rw_read_write = 0\<rparr> 2 ex_driver
     = throw NullDeref \<and>
   enpower_opencl_mohammad_write ex_answers \<lparr>rw_value = 0, rw_argument_index = 0, rw_read_write = 1\<rparr> 5 ex_driver
     = throw OutOfBounds"
  using unchecked_transfers_fault[OF ex_shows,
      of "\<lparr>rw_value = 0, rw_argument_index = 2, rw_read_write = 0\<rparr>" ex_answers 2]
    unchecked_transfers_fault[OF ex_shows,
      of "\<lparr>rw_value = 0, rw_argument_index = 0, rw_read_write = 1\<rparr>" ex_answers 5 "[1, 2, 3, 4]"]
  by (simp add: ex_slots_def)

text \<open>
  C7: The control register. \<open>FPGACL_START\<close> sets bit 0, keeps bit 7 and clears every other bit
  of the register it is given; \<open>FPGACL_CTRL\<close> answers bit 1 and changes nothing.
\<close>

theorem control_register:
  assumes "distinct (command_numbers P)" and "unat off + 4 \<le> 1000"
  shows "\<exists>s'. enpower_opencl_mohammad_ioctl P a (FPGACL_START P) ap off s = ok (0, s')
    \<and> (\<forall>n < 32. bit (io s' (io_base s + off)) n
         \<longleftrightarrow> n = 0 \<or> n = 7 \<and> bit (io s (io_base s + off)) 7)
    \<and> (\<forall>r. r \<noteq> io_base s + off \<longrightarrow> io s' r = io s r)
    \<and> enpower_opencl_mohammad_ioctl P a (FPGACL_CTRL P) ap off s
        = ok (if bit (io s (io_base s + off)) 1 then 1 else 0, s)"
proof -
  have b: "bit ((w AND 0x80) OR 1) n \<longleftrightarrow> n = 0 \<or> n = 7 \<and> bit w 7" for w :: u32 and n
  proof -
    have "bit (0x80 :: u32) n \<longleftrightarrow> n = 7"
      using bit_exp_iff[where ?'a = "32 word", of 7 n] by auto
    then show ?thesis by (auto simp: bit_and_iff bit_or_iff bit_1_iff)
  qed
  have w: "in_window s (io_base s + off)" using assms(2) by (simp add: in_window_offset)
  show ?thesis
    using ioctl_start_ok[OF w] ioctl_ctrl_ok[OF w] assms(1)
    by (simp add: ioctl_start_cmd ioctl_ctrl_cmd b)
qed

theorem control_register_witness:
  "\<exists>s'. enpower_opencl_mohammad_ioctl (port_acp iow_linux) ex_answers (FPGACL_START (port_acp iow_linux))
      ex_parameters 0 ex_driver = ok (0, s') \<and> bit (io s' 0xF0000000) 0 \<and> bit (io s' 0xF0000000) 7
      \<and> \<not> bit (io s' 0xF0000000) 2"
proof -
  have d: "distinct (command_numbers (port_acp iow_linux))"
    by (simp add: command_numbers_def port_acp_def mk_port_def iow_linux_def)
  have "bit (0x84 :: u32) 7" by (simp add: bit_iff_odd drop_bit_eq_div)
  then show ?thesis
    using control_register[OF d, of 0 ex_answers ex_parameters ex_driver]
    by (auto simp: ex_driver_def)
qed

text \<open>
  C8: The register windows of the five ports lie one after the other without overlap, whatever
  the \<open>ioctl\<close> encoding.
\<close>

theorem port_windows_disjoint:
  "sorted_wrt (\<lambda>P Q. unat (device_address_base P) + FPGACL_DEVICE_NO_PORT \<le> unat (device_address_base Q))
     (map snd (all_ports iow)) \<and> length (all_ports iow) = 5"
  by (simp add: all_ports_def port_hp0_def port_hp1_def port_hp2_def port_hp3_def port_acp_def
      mk_port_def)

end
