(* ===== verification/Zynq_Props.thy ===== *)
theory Zynq_Props
  imports Zynq_Rows Fpga_Props
begin

text \<open>
  The run of a kernel on the FPGA: with the device files bound to the drivers that know the runtime's
  \<open>ioctl\<close> numbers it returns and writes nothing but the output lines; with each device file bound to
  the driver of its own name it dereferences a null pointer in the kernel, because the two copies of
  the header differ.
\<close>

section \<open>Rows\<close>

lemma snd_blocks: "map snd blocks = [0..<5]"
  by (simp add: blocks_def files_def)

definition all_ready :: "zynq \<Rightarrow> bool" where
  "all_ready s \<longleftrightarrow> (\<forall>f. ready_driver (driver_state s f))"

text \<open>A row that reads lines writes the output lines of that row only, any other row nothing.\<close>

lemma run_row_ok:
  assumes hw: "hardware_ok E" and sv: "\<forall>f. served E iow f" and tr: "transfers E" and id: "idle_again E"
    and rd: "all_ready s"
  shows "\<exists>s'. run_row E iow row s = ok s' \<and> all_ready s' \<and> device_memory s' = device_memory s \<and>
    (\<forall>a. a \<notin> output_bytes [row' \<leftarrow> [row]. 7 \<le> row' \<and> row' < 224] [0..<5] s \<longrightarrow> user s' a = user s a)"
proof -
  have b: "\<forall>(f, b) \<in> set blocks. served E iow f" using sv by auto
  from start_lines_ok[OF hw tr b, of s row] rd obtain s1 where s1:
    "for_each (start_line E iow row) blocks s = ok s1" "only_ports s s1" "all_ready s1"
    unfolding all_ready_def by blast
  from wait_idle_ok[OF hw sv id, of s1] s1(3) obtain s2 where s2:
    "wait_idle E iow s1 = ok s2" "only_ports s1 s2" "all_ready s2" unfolding all_ready_def by blast
  have same: "device_memory s2 = device_memory s" "user s2 = user s"
    using only_ports_sel[OF only_ports_trans[OF s1(2) s2(2)]] by simp_all
  show ?thesis
  proof (cases "7 \<le> row \<and> row < 224")
    case False
    then have "run_row E iow row s = ok s2" by (auto simp: run_row_def s1 s2)
    with s2(3) same show ?thesis by simp
  next
    case True
    from fetch_lines_ok[OF hw tr b, of s2 row] s2(3) obtain s3 where s3:
      "for_each (fetch_line E row) blocks s2 = ok s3" "all_ready s3" "device_memory s3 = device_memory s2"
      "\<forall>a. a \<notin> output_bytes [row] (map snd blocks) s2 \<longrightarrow> user s3 a = user s2 a"
      unfolding all_ready_def by blast
    from True have "run_row E iow row s = ok s3" by (simp add: run_row_def s1 s2 s3)
    moreover have "output_bytes [row] [0..<5] s2 = output_bytes [row] [0..<5] s"
      by (simp only: output_bytes_def output_line_memory[OF same(1)])
    ultimately show ?thesis using s3 same True by (simp add: snd_blocks)
  qed
qed

lemma output_bytes_mono: "set rows \<subseteq> set rows' \<Longrightarrow> output_bytes rows bs s \<subseteq> output_bytes rows' bs s"
  by (auto simp: output_bytes_def)

lemma run_rows_ok:
  assumes hw: "hardware_ok E" and sv: "\<forall>f. served E iow f" and tr: "transfers E" and id: "idle_again E"
  shows "all_ready s \<Longrightarrow> \<exists>s'. run_rows E iow rows s = ok s' \<and> all_ready s' \<and> device_memory s' = device_memory s \<and>
    (\<forall>a. a \<notin> output_bytes [row \<leftarrow> rows. 7 \<le> row \<and> row < 224] [0..<5] s \<longrightarrow> user s' a = user s a)"
proof (induction rows arbitrary: s)
  case (Cons r rows)
  let ?R = "\<lambda>rows. [row \<leftarrow> rows. 7 \<le> row \<and> row < (224 :: nat)]"
  from run_row_ok[OF assms Cons.prems, of r] obtain s1 where s1: "run_row E iow r s = ok s1" "all_ready s1"
    "device_memory s1 = device_memory s" "\<forall>a. a \<notin> output_bytes (?R [r]) [0..<5] s \<longrightarrow> user s1 a = user s a" by blast
  from Cons.IH[OF s1(2)] obtain s2 where s2: "run_rows E iow rows s1 = ok s2" "all_ready s2"
    "device_memory s2 = device_memory s1" "\<forall>a. a \<notin> output_bytes (?R rows) [0..<5] s1 \<longrightarrow> user s2 a = user s1 a" by blast
  have m: "output_bytes (?R [r]) [0..<5] s \<subseteq> output_bytes (?R (r # rows)) [0..<5] s"
    "output_bytes (?R rows) [0..<5] s \<subseteq> output_bytes (?R (r # rows)) [0..<5] s"
    by (rule output_bytes_mono; auto)+
  have e: "output_bytes (?R rows) [0..<5] s1 = output_bytes (?R rows) [0..<5] s"
    by (simp only: output_bytes_def output_line_memory[OF s1(3)])
  note n = contra_subsetD[OF m(1)] contra_subsetD[OF m(2), folded e]
  have "user s2 a = user s a" if "a \<notin> output_bytes (?R (r # rows)) [0..<5] s" for a
    using s1(4)[rule_format, OF n(1)[OF that]] s2(4)[rule_format, OF n(2)[OF that]] by (rule trans[rotated])
  moreover have "run_rows E iow (r # rows) s = ok s2" using s1(1) s2(1) by simp
  ultimately show ?case using s2(2,3) s1(3) by (intro exI[of _ s2]) (simp only: simp_thms, blast)
qed simp

lemma output_bytes_cong:
  assumes "set rows = set rows'" and "device_memory s = device_memory s'"
  shows "output_bytes rows bs s = output_bytes rows' bs s'"
  by (simp add: output_bytes_def output_line_memory[OF assms(2)] assms(1))

section \<open>The run returns\<close>

text \<open>
  The run when every device file is served by a driver that knows the runtime's \<open>ioctl\<close> numbers for it.
\<close>

lemma run_served:
  assumes "hardware_ok E" and "\<forall>f. served E iow f" and "transfers E" and "idle_again E"
    and "\<forall>k < 5. grants E (calls s + 3 * k)" and "\<not> malloc_fails E (calls s + 15)"
    and "\<forall>f. port_shows (driver_state s f) []"
  shows "\<exists>s'. pocl_zynq_basic_run E iow s = ok s' \<and> (\<forall>f. ready_driver (driver_state s' f)) \<and>
    device_memory s' = device_memory s \<and>
    (\<forall>a. a \<notin> output_bytes [7..<224] [0..<5] s \<longrightarrow> user s' a = user s a)"
proof -
  have l: "length files = 5" "distinct files" "\<forall>f. f \<in> set files" 
    by (simp_all add: files_def, metis devfile.exhaust)
  from setup_ports_ok[OF assms(1), of files iow s] assms(2,5,7) l obtain s1 where s1:
    "setup_ports E iow files s = ok s1" "only_ports s s1" "calls s1 = calls s + 15" "all_ready s1"
    unfolding all_ready_def by auto
  from run_rows_ok[OF assms(1-4) s1(4), of "[0..<224]"] obtain s2 where s2:
    "run_rows E iow [0..<224] s1 = ok s2" "all_ready s2" "device_memory s2 = device_memory s1"
    "\<forall>a. a \<notin> output_bytes [row \<leftarrow> [0..<224]. 7 \<le> row \<and> row < 224] [0..<5] s1 \<longrightarrow> user s2 a = user s1 a" by blast
  have "set [row \<leftarrow> [0..<224]. 7 \<le> row \<and> row < (224 :: nat)] = set [7..<224]"
    by (rule set_eqI) (simp only: set_filter set_upt mem_Collect_eq atLeastLessThan_iff, arith)
  moreover have "device_memory s1 = device_memory s" using only_ports_sel[OF s1(2)] by blast
  ultimately have o: "output_bytes [row \<leftarrow> [0..<224]. 7 \<le> row \<and> row < 224] [0..<5] s1 = output_bytes [7..<224] [0..<5] s"
    by (rule output_bytes_cong)
  moreover have "pocl_zynq_basic_run E iow s = ok s2"
    using assms(6) s2(1) by (simp add: pocl_zynq_basic_run_def s1 with_malloc_def)
  moreover have "user s1 = user s" "device_memory s1 = device_memory s" using only_ports_sel[OF s1(2)] by blast+
  ultimately show ?thesis
    using s2(2-4) unfolding all_ready_def o by (intro exI[of _ s2]) simp
qed

section \<open>The drivers of the same name\<close>

definition named_driver :: "iow \<Rightarrow> devfile \<Rightarrow> file_operations" where
  "named_driver iow f = (case f of
       ACP \<Rightarrow> enpower_opencl_mohammad_fops_acp iow
     | HP0 \<Rightarrow> enpower_opencl_mohammad_fops_hp0 iow
     | HP1 \<Rightarrow> enpower_opencl_mohammad_fops_hp1 iow
     | HP2 \<Rightarrow> enpower_opencl_mohammad_fops_hp2 iow
     | HP3 \<Rightarrow> enpower_opencl_mohammad_fops_hp3 iow)"

text \<open>
  The driver that the address and the numbers of a device file belong to: the runtime's header counts
  the ports from \<open>ACP\<close> at the address where the drivers' header has \<open>HP0\<close>.
\<close>

definition numbered_driver :: "iow \<Rightarrow> devfile \<Rightarrow> file_operations" where
  "numbered_driver iow f = (case f of
       ACP \<Rightarrow> enpower_opencl_mohammad_fops_hp0 iow
     | HP0 \<Rightarrow> enpower_opencl_mohammad_fops_hp1 iow
     | HP1 \<Rightarrow> enpower_opencl_mohammad_fops_hp2 iow
     | HP2 \<Rightarrow> enpower_opencl_mohammad_fops_hp3 iow
     | HP3 \<Rightarrow> enpower_opencl_mohammad_fops_acp iow)"

lemma numbered_port:
  "runtime_port iow ACP = port_hp0 iow" "runtime_port iow HP0 = port_hp1 iow" "runtime_port iow HP1 = port_hp2 iow"
  "runtime_port iow HP2 = port_hp3 iow" "runtime_port iow HP3 = port_acp iow"
  by (simp_all add: runtime_port_def mk_port_def port_hp0_def port_hp1_def port_hp2_def port_hp3_def port_acp_def)

text \<open>The twenty numbers differ, as the kernel's macro promises for different arguments.\<close>

definition distinct_numbers :: "iow \<Rightarrow> bool" where
  "distinct_numbers iow \<longleftrightarrow> distinct (concat (map (\<lambda>f. command_numbers (runtime_port iow f)) files))"

lemma distinct_concat_map:
  assumes "distinct (concat (map F xs))"
  shows "x \<in> set xs \<Longrightarrow> distinct (F x)" and "x \<in> set xs \<Longrightarrow> y \<in> set xs \<Longrightarrow> x \<noteq> y \<Longrightarrow> set (F x) \<inter> set (F y) = {}"
  using assms by (induction xs) auto

lemma distinct_numbersD:
  assumes "distinct_numbers iow"
  shows "distinct (command_numbers (runtime_port iow f))"
    and "f \<noteq> g \<Longrightarrow> set (command_numbers (runtime_port iow f)) \<inter> set (command_numbers (runtime_port iow g)) = {}"
proof -
  have a: "h \<in> set files" for h by (cases h) (simp_all add: files_def)
  note D = distinct_concat_map[OF assms[unfolded distinct_numbers_def]]
  show "distinct (command_numbers (runtime_port iow f))" by (rule D(1)[OF a])
  show "f \<noteq> g \<Longrightarrow> set (command_numbers (runtime_port iow f)) \<inter> set (command_numbers (runtime_port iow g)) = {}"
    by (rule D(2)[OF a a])
qed

text \<open>The driver of the same name knows the numbers of the file before, in a circle.\<close>

fun before :: "devfile \<Rightarrow> devfile" where
  "before HP0 = ACP"
| "before HP1 = HP0"
| "before HP2 = HP1"
| "before HP3 = HP2"
| "before ACP = HP3"

lemmas fops_text =
  enpower_opencl_mohammad_fops_hp0_def enpower_opencl_mohammad_fops_hp1_def enpower_opencl_mohammad_fops_hp2_def
  enpower_opencl_mohammad_fops_hp3_def enpower_opencl_mohammad_fops_acp_def
  enpower_opencl_mohammad_read_hp0_def enpower_opencl_mohammad_read_hp1_def enpower_opencl_mohammad_read_hp2_def
  enpower_opencl_mohammad_read_hp3_def enpower_opencl_mohammad_read_acp_def
  enpower_opencl_mohammad_write_hp0_def enpower_opencl_mohammad_write_hp1_def enpower_opencl_mohammad_write_hp2_def
  enpower_opencl_mohammad_write_hp3_def enpower_opencl_mohammad_write_acp_def
  enpower_opencl_mohammad_ioctl_hp0_def enpower_opencl_mohammad_ioctl_hp1_def enpower_opencl_mohammad_ioctl_hp2_def
  enpower_opencl_mohammad_ioctl_hp3_def enpower_opencl_mohammad_ioctl_acp_def

lemmas port_numbers = command_numbers_def runtime_port_def mk_port_def
  port_hp0_def port_hp1_def port_hp2_def port_hp3_def port_acp_def

text \<open>What the two bindings come to.\<close>

definition numbers_of :: "iow \<Rightarrow> devfile \<Rightarrow> file_operations \<Rightarrow> bool" where
  "numbers_of iow f F \<longleftrightarrow> (\<exists>P. command_numbers P = command_numbers (runtime_port iow f) \<and>
     fop_read F = enpower_opencl_mohammad_read \<and> fop_write F = enpower_opencl_mohammad_write \<and>
     fop_unlocked_ioctl F = enpower_opencl_mohammad_ioctl P)"

lemma numbers_of_port:
  "numbers_of iow ACP (enpower_opencl_mohammad_fops_hp0 iow)"
  "numbers_of iow HP0 (enpower_opencl_mohammad_fops_hp1 iow)"
  "numbers_of iow HP1 (enpower_opencl_mohammad_fops_hp2 iow)"
  "numbers_of iow HP2 (enpower_opencl_mohammad_fops_hp3 iow)"
  "numbers_of iow HP3 (enpower_opencl_mohammad_fops_acp iow)"
  unfolding numbers_of_def
  by (rule exI[of _ "port_hp0 iow"], simp add: port_numbers fops_text,
      rule exI[of _ "port_hp1 iow"], simp add: port_numbers fops_text,
      rule exI[of _ "port_hp2 iow"], simp add: port_numbers fops_text,
      rule exI[of _ "port_hp3 iow"], simp add: port_numbers fops_text,
      rule exI[of _ "port_acp iow"], simp add: port_numbers fops_text)

lemma numbered_driver_serves:
  assumes "distinct_numbers iow" and "served_by E f = numbered_driver iow f"
  shows "served E iow f"
proof -
  have "numbers_of iow f (numbered_driver iow f)"
    by (cases f) (simp_all add: numbered_driver_def numbers_of_port)
  then show ?thesis
    using distinct_numbersD(1)[OF assms(1)] by (simp add: served_def numbers_of_def assms(2))
qed

text \<open>The driver of the same name knows none of the numbers used for its file.\<close>

lemma named_driver_unknown:
  assumes "distinct_numbers iow" and "num \<in> set (command_numbers (runtime_port iow f))"
  shows "fop_unlocked_ioctl (named_driver iow f) a num ap p d = ok (0, d)"
    and "fop_write (named_driver iow f) = enpower_opencl_mohammad_write"
proof -
  have "numbers_of iow (before f) (named_driver iow f)"
    by (cases f) (simp_all add: named_driver_def numbers_of_port)
  then obtain P where P: "command_numbers P = command_numbers (runtime_port iow (before f))"
    "fop_write (named_driver iow f) = enpower_opencl_mohammad_write"
    "fop_unlocked_ioctl (named_driver iow f) = enpower_opencl_mohammad_ioctl P" by (auto simp: numbers_of_def)
  have "f \<noteq> before f" by (cases f) simp_all
  then have "num \<notin> set (command_numbers P)" using distinct_numbersD(2)[OF assms(1)] assms(2) P(1) by auto
  then show "fop_unlocked_ioctl (named_driver iow f) a num ap p d = ok (0, d)"
    by (simp add: P(3) command_numbers_def enpower_opencl_mohammad_ioctl_def)
  show "fop_write (named_driver iow f) = enpower_opencl_mohammad_write" by (rule P(2))
qed

lemma empty_hardware:
  assumes "hardware_ok E" and "port_shows (driver_state s f) []"
  shows "port_shows (driver_now E f s) []"
proof -
  have "holds (driver_state s f) [] {} []" using assms(2) by (simp add: holds_Nil)
  from holds_hardware[OF assms(1) this, of "calls s" f] show ?thesis
    by (auto simp: driver_now_def holds_Nil)
qed

lemma unknown_ioctl:
  assumes "distinct_numbers iow" and "served_by E f = named_driver iow f"
    and "num \<in> set (command_numbers (runtime_port iow f))"
  shows "sys_ioctl E f num ap p s = ok (0, returned f (driver_now E f s) s)"
  using named_driver_unknown[OF assms(1,3)] by (simp add: sys_ioctl_def assms(2))

lemma unknown_setup:
  assumes "hardware_ok E" and "distinct_numbers iow" and "served_by E f = named_driver iow f"
    and "\<forall>n. \<not> malloc_fails E n" and "\<forall>g. port_shows (driver_state s g) []"
  shows "\<exists>s'. setup_port E iow f s = ok s' \<and> only_ports s s' \<and> (\<forall>g. port_shows (driver_state s' g) [])"
proof -
  let ?next = "\<lambda>s. returned f (driver_now E f s) s"
  have step: "only_ports s (?next s) \<and> (\<forall>g. port_shows (driver_state (?next s) g) [])"
    if "\<forall>g. port_shows (driver_state s g) []" for s
    using empty_hardware[OF assms(1)] that by simp
  have "FPGACL_ARGUMEN_POINTER (runtime_port iow f) \<in> set (command_numbers (runtime_port iow f))"
    "FPGACL_ARGUMEN_DATA (runtime_port iow f) \<in> set (command_numbers (runtime_port iow f))"
    by (simp_all add: command_numbers_def)
  note u = this[THEN unknown_ioctl[OF assms(2,3)]]
  have "setup_port E iow f s = ok (?next (?next (?next s)))"
    using assms(4) by (simp add: setup_port_def with_malloc_def u del: fun_upd_apply returned_simps)
  moreover from step[OF assms(5)] have 1: "only_ports s (?next s)" "\<forall>g. port_shows (driver_state (?next s) g) []" by blast+
  moreover from step[OF 1(2)] have 2: "only_ports (?next s) (?next (?next s))"
    "\<forall>g. port_shows (driver_state (?next (?next s)) g) []" by blast+
  moreover from step[OF 2(2)] have "only_ports (?next (?next s)) (?next (?next (?next s)))"
    "\<forall>g. port_shows (driver_state (?next (?next (?next s))) g) []" by blast+
  ultimately show ?thesis using only_ports_trans by metis
qed

lemma unknown_setups:
  assumes "hardware_ok E" and "distinct_numbers iow" and "\<forall>f. served_by E f = named_driver iow f"
    and "\<forall>n. \<not> malloc_fails E n"
  shows "\<forall>g. port_shows (driver_state s g) [] \<Longrightarrow>
    \<exists>s'. setup_ports E iow fs s = ok s' \<and> only_ports s s' \<and> (\<forall>g. port_shows (driver_state s' g) [])"
proof (induction fs arbitrary: s)
  case (Cons f fs)
  from unknown_setup[OF assms(1,2) _ assms(4) Cons.prems, of f] assms(3) obtain s1 where s1:
    "setup_port E iow f s = ok s1" "only_ports s s1" "\<forall>g. port_shows (driver_state s1 g) []" by blast
  from Cons.IH[OF s1(3)] s1 show ?case using only_ports_trans by auto
qed simp

section \<open>A concrete system\<close>

text \<open>Hardware that is always idle, a kernel that grants everything, five freshly opened ports.\<close>

definition fresh_port :: driver where
  "fresh_port = \<lparr>device_open = 1, arguments_list = 0, knodes = Map.empty, dma_mem = Map.empty,
     io_base = 0xF0000000, io = (\<lambda>_. 0), chrdev_region = True, cdev_live = True\<rparr>"

definition idle_hardware :: "driver \<Rightarrow> driver" where
  "idle_hardware d = d\<lparr>io := (io d)(io_base d := 4 OR 2)\<rparr>"

definition granted :: "nat \<Rightarrow> kernel_answers" where
  "granted n = \<lparr>kmalloc_ptr = of_nat (n + 1), kmalloc_content = ex_scalar_node, dma_ptr = of_nat (n + 1),
     dma_handle = 0x2000, dma_content = replicate (if n mod 3 = 0 then 7708 else 7680) 0, cfu_index = 0,
     cfu_size = 0, cfu_offset = 0, cfu_type_size = 0, copy_rest = 0, copy_landed = []\<rparr>"

definition ex_environment :: "(devfile \<Rightarrow> file_operations) \<Rightarrow> environment" where
  "ex_environment F = \<lparr>served_by = F, answer = granted, hardware = (\<lambda>n f. idle_hardware), malloc_fails = (\<lambda>n. False)\<rparr>"

definition ex_zynq :: zynq where
  "ex_zynq = \<lparr>driver_state = (\<lambda>f. fresh_port), device_memory = (\<lambda>i. 0), device_buffer = (\<lambda>i. 0),
     device_buffer_index = 2, user = (\<lambda>a. 0), calls = 0\<rparr>"

lemma fresh_port_shows: "port_shows fresh_port []"
  by (auto simp: holds_Nil holds_def driver_inv_def rep_empty arguments_def slots_def fresh_port_def)

lemma ex_environment_ok: "hardware_ok (ex_environment F)" "transfers (ex_environment F)" "idle_again (ex_environment F)"
proof -
  show "hardware_ok (ex_environment F)"
    unfolding hardware_ok_def
  proof (intro allI)
    fix n f d
    have "hardware (ex_environment F) n f d = d\<lparr>io := (io d)(io_base d := 4 OR 2), dma_mem := dma_mem d\<rparr>"
      by (simp add: ex_environment_def idle_hardware_def)
    then show "\<exists>regs m. hardware (ex_environment F) n f d = d\<lparr>io := regs, dma_mem := m\<rparr> \<and> same_sizes (dma_mem d) m"
      by (intro exI conjI) (assumption, simp add: same_sizes_def)
  qed
  show "transfers (ex_environment F)" by (simp add: transfers_def ex_environment_def granted_def)
  show "idle_again (ex_environment F)"
    by (auto simp: idle_again_def ex_environment_def idle_hardware_def bit_simps)
qed

lemma ex_environment_grants: "k < 5 \<Longrightarrow> grants (ex_environment F) (3 * k)"
proof -
  assume "k < 5"
  then consider "k = 0" | "k = 1" | "k = 2" | "k = 3" | "k = 4" by linarith
  then show ?thesis
    by cases (simp_all add: grants_def all3 ex_environment_def granted_def grants_fields_def)
qed

lemma ex_distinct_numbers: "distinct_numbers iow_linux"
  by (simp add: distinct_numbers_def files_def port_numbers iow_linux_def)

section \<open>Two headers\<close>

text \<open>
  With every device file bound to the driver of its own name, all fifteen set-up calls are answered
  with 0 and ignored, and the first transfer follows the null pointer of an empty argument list.
\<close>

lemma headers_disagree:
  assumes "hardware_ok E" and "distinct_numbers iow" and "\<forall>f. served_by E f = named_driver iow f"
    and "\<forall>n. \<not> malloc_fails E n" and "\<forall>f. port_shows (driver_state s f) []"
  shows "(\<exists>s'. setup_ports E iow files s = ok s' \<and> (\<forall>f. port_shows (driver_state s' f) [])) \<and>
    pocl_zynq_basic_run E iow s = throw NullDeref"
proof -
  from unknown_setups[OF assms(1-5)] obtain s1 where s1: "setup_ports E iow files s = ok s1"
    "\<forall>f. port_shows (driver_state s1 f) []" by blast
  obtain ps where ps: "driver_inv (driver_now E ACP s1) ps" "slots (driver_now E ACP s1) ps = []"
    using empty_hardware[OF assms(1)] s1(2) unfolding port_shows_def by blast
  then have "length ps = 0" by (metis length_slots list.size(3))
  then have w: "enpower_opencl_mohammad_write a \<lparr>rw_value = 0, rw_argument_index = 0, rw_read_write = 1\<rparr> 7708
      (driver_now E ACP s1) = throw NullDeref" for a
    using index_out_of_range(2)[OF ps(1), of "\<lparr>rw_value = 0, rw_argument_index = 0, rw_read_write = 1\<rparr>" 7708 a] by simp
  have f: "fop_write (served_by E ACP) = enpower_opencl_mohammad_write"
    using named_driver_unknown(2)[OF assms(2), of _ ACP] assms(3) by (auto simp: command_numbers_def)
  have "start_line E iow 0 (ACP, 0) s1 = throw NullDeref"
    by (simp add: start_line_def sys_write_def f w Let_def)
  then have "run_row E iow 0 s1 = throw NullDeref"
    by (simp add: run_row_def blocks_def files_def upt_rec)
  then have "pocl_zynq_basic_run E iow s = throw NullDeref"
    using assms(4) by (simp add: pocl_zynq_basic_run_def s1 with_malloc_def upt_rec[of 0])
  with s1 show ?thesis by blast
qed

text \<open>
  C37: The run of a kernel on the five accelerators, with the drivers and the two copies of the header
  as they are, for both ways to bind the device files to the drivers. The twenty \<open>ioctl\<close> numbers are
  distinct; the memory of the process and of the fifteen set-up calls is granted; the transfers
  succeed; the hardware changes nothing but registers and buffer contents and is idle again and again;
  the ports are freshly opened. When each file leads to the driver whose address and numbers the
  runtime's header gives it, the run returns, leaves every port with its input line, its output line
  and the flag, and changes no byte of the process outside the output lines 7 to 223 of the five
  blocks. When each file leads to the driver of its own name, the run ends in a null pointer.
\<close>

theorem run_returns:
  assumes "hardware_ok E" and "distinct_numbers iow" and "transfers E" and "idle_again E"
    and "\<forall>k < 5. grants E (calls s + 3 * k)" and "\<forall>n. \<not> malloc_fails E n"
    and "\<forall>f. port_shows (driver_state s f) []"
  shows "((\<forall>f. served_by E f = numbered_driver iow f) \<longrightarrow>
      (\<exists>s'. pocl_zynq_basic_run E iow s = ok s' \<and> (\<forall>f. ready_driver (driver_state s' f)) \<and>
        device_memory s' = device_memory s \<and>
        (\<forall>a. a \<notin> output_bytes [7..<224] [0..<5] s \<longrightarrow> user s' a = user s a))) \<and>
    ((\<forall>f. served_by E f = named_driver iow f) \<longrightarrow> pocl_zynq_basic_run E iow s = throw NullDeref)"
proof (intro conjI impI)
  assume b: "\<forall>f. served_by E f = numbered_driver iow f"
  show "\<exists>s'. pocl_zynq_basic_run E iow s = ok s' \<and> (\<forall>f. ready_driver (driver_state s' f)) \<and>
    device_memory s' = device_memory s \<and> (\<forall>a. a \<notin> output_bytes [7..<224] [0..<5] s \<longrightarrow> user s' a = user s a)"
    by (rule run_served[OF assms(1) _ assms(3-5) _ assms(7)])
      (use b numbered_driver_serves[OF assms(2)] assms(6) in blast)+
next
  assume "\<forall>f. served_by E f = named_driver iow f"
  then show "pocl_zynq_basic_run E iow s = throw NullDeref"
    using headers_disagree[OF assms(1,2) _ assms(6,7)] by blast
qed

theorem run_returns_witness:
  "(\<exists>s'. pocl_zynq_basic_run (ex_environment (numbered_driver iow_linux)) iow_linux ex_zynq = ok s' \<and>
      (\<forall>f. ready_driver (driver_state s' f)) \<and> device_memory s' = device_memory ex_zynq \<and>
      (\<forall>a. a \<notin> output_bytes [7..<224] [0..<5] ex_zynq \<longrightarrow> user s' a = user ex_zynq a)) \<and>
    pocl_zynq_basic_run (ex_environment (named_driver iow_linux)) iow_linux ex_zynq = throw NullDeref"
proof -
  have g: "\<forall>k < 5. grants (ex_environment F) (calls ex_zynq + 3 * k)" for F
    using ex_environment_grants by (simp add: ex_zynq_def)
  have m: "\<forall>n. \<not> malloc_fails (ex_environment F) n" and b: "served_by (ex_environment F) f = F f" for F f
    by (simp_all add: ex_environment_def)
  have p: "\<forall>f. port_shows (driver_state ex_zynq f) []" by (simp add: ex_zynq_def fresh_port_shows)
  note run = run_returns[OF ex_environment_ok(1) ex_distinct_numbers ex_environment_ok(2,3) g m p]
  show ?thesis
    using run[of "numbered_driver iow_linux", THEN conjunct1] run[of "named_driver iow_linux", THEN conjunct2]
    unfolding b by blast
qed

end
