(* ===== verification/Bufalloc.thy ===== *)
theory Bufalloc
  imports Utlist
begin

text \<open>
  The buffer allocator \<^verbatim>\<open>lib/CL/devices/bufalloc.c\<close>. A region is an array of 64 chunk
  records, threaded on two doubly linked lists: \<open>chunks\<close>, the chunks in address order, and
  \<open>free_chunks\<close>, the records not in use; \<open>last_chunk\<close> is the sentinel at the end of \<open>chunks\<close>
  that holds the memory not handed out yet. A pointer to a chunk is its index in the array;
  \<open>parent_region\<close> is the region an operation is given. The region's lock is taken and released
  inside each operation, which is one step here.
\<close>

section \<open>Data\<close>

record chunk_info =
  start_address :: u32
  is_allocated :: bool
  chunk_size :: size_t

datatype allocation_strategy = BALLOCS_WASTEFUL | BALLOCS_TIGHT

record memory_region =
  all_chunks :: "nat \<Rightarrow> chunk_info"
  lks :: "nat links"
  chunks :: "nat option"
  free_chunks :: "nat option"
  last_chunk :: nat
  strategy :: allocation_strategy
  alignment :: size_t              \<comment>\<open>a \<open>short\<close> in the code, only used converted to \<open>size_t\<close>\<close>

abbreviation MAX_CHUNKS_IN_REGION :: nat where "MAX_CHUNKS_IN_REGION \<equiv> 64"

definition upd_chunk :: "nat \<Rightarrow> (chunk_info \<Rightarrow> chunk_info) \<Rightarrow> memory_region \<Rightarrow> memory_region" where
  "upd_chunk i f r = r\<lparr>all_chunks := (all_chunks r)(i := f (all_chunks r i))\<rparr>"

section \<open>Allocation\<close>

definition align_up :: "size_t \<Rightarrow> size_t \<Rightarrow> size_t" where
  "align_up al a = (a + al - 1) AND NOT (al - 1)"

text \<open>Whether a request fits with room to spare, and the size left after it.\<close>

definition chunk_slack :: "memory_region \<Rightarrow> nat \<Rightarrow> size_t \<Rightarrow> bool \<times> size_t" where
  "chunk_slack r chunk sz =
     (let aligned_start_addr = align_up (alignment r) (start_address (all_chunks r chunk));
          end_chunk = start_address (all_chunks r chunk) + chunk_size (all_chunks r chunk);
          end_addr = aligned_start_addr + sz
      in (end_chunk > end_addr, end_chunk - end_addr))"

definition append_new_chunk :: "memory_region \<Rightarrow> size_t \<Rightarrow> (nat option \<times> memory_region) prog" where
  "append_new_chunk r sz =
     (let l = last_chunk r
      in if is_allocated (all_chunks r l) then throw AssertFail
         else if \<not> fst (chunk_slack r l sz) then ok (None, r)
         else case free_chunks r of
                None \<Rightarrow> ok (None, r)
              | Some new_chunk \<Rightarrow>
                  andthen (DL_DELETE (lks r) (free_chunks r) new_chunk) (\<lambda>(lk1, free).
                  let r1 = upd_chunk new_chunk
                             (\<lambda>c. c\<lparr>start_address := align_up (alignment r) (start_address (all_chunks r l)),
                                    chunk_size := sz, is_allocated := True\<rparr>)
                             (r\<lparr>lks := lk1, free_chunks := free\<rparr>);
                      r2 = upd_chunk l (\<lambda>c. c\<lparr>chunk_size := snd (chunk_slack r1 l sz)\<rparr>) r1;
                      r3 = upd_chunk l (\<lambda>c. c\<lparr>start_address :=
                             start_address (all_chunks r2 new_chunk) + chunk_size (all_chunks r2 new_chunk)\<rparr>) r2
                  in andthen (DL_DELETE (lks r3) (chunks r3) l) (\<lambda>(lk2, c2).
                     andthen (DL_APPEND lk2 c2 new_chunk) (\<lambda>(lk3, c3).
                     andthen (DL_APPEND lk3 c3 l) (\<lambda>(lk4, c4).
                     ok (Some new_chunk, r3\<lparr>lks := lk4, chunks := c4\<rparr>))))))"

text \<open>The search for a free chunk to use again skips the sentinel.\<close>

definition reusable :: "memory_region \<Rightarrow> size_t \<Rightarrow> nat \<Rightarrow> bool" where
  "reusable r sz cursor \<longleftrightarrow>
     \<not> (cursor = last_chunk r \<or> is_allocated (all_chunks r cursor) \<or> \<not> fst (chunk_slack r cursor sz))"

definition reuse_chunk :: "memory_region \<Rightarrow> size_t \<Rightarrow> (nat option \<times> memory_region) prog" where
  "reuse_chunk r sz =
     (case foreach_find (nxt (lks r)) (reusable r sz) (chunks r) of
        None \<Rightarrow> None
      | Some None \<Rightarrow> ok (None, r)
      | Some (Some chunk) \<Rightarrow> ok (Some chunk, upd_chunk chunk (\<lambda>c. c\<lparr>is_allocated := True\<rparr>) r))"

definition alloc_buffer_from_region :: "memory_region \<Rightarrow> size_t \<Rightarrow> (nat option \<times> memory_region) prog" where
  "alloc_buffer_from_region r sz =
     andthen (if strategy r = BALLOCS_WASTEFUL then append_new_chunk r sz else ok (None, r)) (\<lambda>(c1, r1).
     if c1 \<noteq> None then ok (c1, r1)
     else andthen (reuse_chunk r1 sz) (\<lambda>(c2, r2).
          if c2 = None \<and> strategy r2 \<noteq> BALLOCS_WASTEFUL then append_new_chunk r2 sz
          else ok (c2, r2)))"

text \<open>The first region of the list that has room; the result names the region by its position.\<close>

fun alloc_buffer :: "memory_region list \<Rightarrow> size_t \<Rightarrow> ((nat \<times> nat) option \<times> memory_region list) prog" where
  "alloc_buffer [] sz = ok (None, [])"
| "alloc_buffer (r # rs) sz =
     andthen (alloc_buffer_from_region r sz) (\<lambda>(c, r').
     case c of
       Some chunk \<Rightarrow> ok (Some (0, chunk), r' # rs)
     | None \<Rightarrow> andthen (alloc_buffer rs sz) (\<lambda>(res, rs').
              ok (map_option (\<lambda>(i, chunk). (Suc i, chunk)) res, r' # rs')))"

section \<open>Freeing\<close>

definition coalesce_chunks ::
  "memory_region \<Rightarrow> nat option \<Rightarrow> nat option \<Rightarrow> (nat option \<times> memory_region) prog" where
  "coalesce_chunks r first second =
     (case first of
        None \<Rightarrow> ok (second, r)
      | Some f \<Rightarrow> (case second of
          None \<Rightarrow> ok (first, r)
        | Some s \<Rightarrow>
            if is_allocated (all_chunks r f) \<or> is_allocated (all_chunks r s) then ok (second, r)
            else if start_address (all_chunks r f) > start_address (all_chunks r s) then ok (second, r)
            else
              let r1 = upd_chunk f (\<lambda>c. c\<lparr>chunk_size := start_address (all_chunks r s)
                          + chunk_size (all_chunks r s) - start_address (all_chunks r f)\<rparr>) r
              in andthen (DL_DELETE (lks r1) (chunks r1) s) (\<lambda>(lk1, c1).
                 andthen (DL_APPEND lk1 (free_chunks r1) s) (\<lambda>(lk2, f2).
                 let r2 = r1\<lparr>lks := lk2, chunks := c1, free_chunks := f2\<rparr>
                 in ok (first, if last_chunk r2 = s then r2\<lparr>last_chunk := f\<rparr> else r2)))))"

text \<open>
  \<open>coalesce_chunks (coalesce_chunks (chunk->prev, chunk), chunk->next)\<close>: C leaves open whether
  the second argument \<open>chunk->next\<close> is read before or after the inner call runs.
\<close>

datatype arg_order = Next_first | Call_first

definition free_and_coalesce :: "arg_order \<Rightarrow> memory_region \<Rightarrow> nat \<Rightarrow> memory_region prog" where
  "free_and_coalesce order r chunk =
     (let r1 = upd_chunk chunk (\<lambda>c. c\<lparr>is_allocated := False\<rparr>) r;
          next_before = nxt (lks r1) chunk
      in andthen (coalesce_chunks r1 (prv (lks r1) chunk) (Some chunk)) (\<lambda>(c, r2).
         let next = (case order of Next_first \<Rightarrow> next_before | Call_first \<Rightarrow> nxt (lks r2) chunk)
         in andthen (coalesce_chunks r2 c next) (\<lambda>(c', r3). ok r3)))"

definition free_chunk :: "arg_order \<Rightarrow> memory_region \<Rightarrow> nat \<Rightarrow> memory_region prog" where
  "free_chunk order r chunk = free_and_coalesce order r chunk"

text \<open>\<open>free_buffer\<close> answers the position of the region that held the address, if any.\<close>

fun free_buffer :: "arg_order \<Rightarrow> memory_region list \<Rightarrow> u32 \<Rightarrow> (nat option \<times> memory_region list) prog" where
  "free_buffer order [] a = ok (None, [])"
| "free_buffer order (r # rs) a =
     (case foreach_find (nxt (lks r)) (\<lambda>c. start_address (all_chunks r c) = a) (chunks r) of
        None \<Rightarrow> None
      | Some (Some chunk) \<Rightarrow> andthen (free_and_coalesce order r chunk) (\<lambda>r'. ok (Some 0, r' # rs))
      | Some None \<Rightarrow> andthen (free_buffer order rs a) (\<lambda>(res, rs'). ok (map_option Suc res, r # rs')))"

section \<open>Initialisation\<close>

text \<open>\<open>for (i = 1; i < MAX_CHUNKS_IN_REGION; ++i) DL_APPEND (region->free_chunks, ...)\<close>, from \<open>i\<close>.\<close>

fun append_free :: "nat list \<Rightarrow> nat links \<Rightarrow> nat option \<Rightarrow> (nat links \<times> nat option) prog" where
  "append_free [] lk head = ok (lk, head)"
| "append_free (i # is) lk head =
     andthen (DL_APPEND lk head i) (\<lambda>(lk', head'). append_free is lk' head')"

definition init_mem_region :: "memory_region \<Rightarrow> u32 \<Rightarrow> size_t \<Rightarrow> memory_region prog" where
  "init_mem_region r start sz =
     (let r1 = r\<lparr>strategy := BALLOCS_WASTEFUL, chunks := None, free_chunks := None, alignment := 64,
                 last_chunk := 0\<rparr>;
          r2 = upd_chunk 0 (\<lambda>c. c\<lparr>start_address := start, chunk_size := sz, is_allocated := False\<rparr>) r1
      in andthen (DL_APPEND (lks r2) (chunks r2) (last_chunk r2)) (\<lambda>(lk, c).
         andthen (append_free [1..<MAX_CHUNKS_IN_REGION] lk (free_chunks r2)) (\<lambda>(lk', f).
         ok (r2\<lparr>lks := lk', chunks := c, free_chunks := f\<rparr>))))"

text \<open>A reference to a part of a chunk: its start, its size and its parent.\<close>

record sub_chunk =
  sub_start :: u32
  sub_size :: size_t
  sub_parent :: nat

record sub_chunks =
  sub_info :: "nat \<Rightarrow> sub_chunk"
  sub_links :: "nat links"
  children :: "nat \<Rightarrow> nat option"     \<comment>\<open>per chunk, the list of its sub-chunks\<close>

definition create_sub_chunk ::
  "memory_region \<Rightarrow> sub_chunks \<Rightarrow> nat option \<Rightarrow> nat \<Rightarrow> size_t \<Rightarrow> size_t \<Rightarrow> (nat \<times> sub_chunks) prog" where
  "create_sub_chunk r ss malloc_result parent offset sz =
     (case malloc_result of
        None \<Rightarrow> throw NullDeref
      | Some subchunk \<Rightarrow>
          let ss1 = ss\<lparr>sub_info := (sub_info ss)(subchunk :=
                \<lparr>sub_start = start_address (all_chunks r parent) + offset, sub_size = sz,
                 sub_parent = parent\<rparr>)\<rparr>
          in andthen (DL_APPEND (sub_links ss1) (children ss1 parent) subchunk) (\<lambda>(lk, head).
             ok (subchunk, ss1\<lparr>sub_links := lk, children := (children ss1)(parent := head)\<rparr>)))"

end
