(* ===== verification/Bufalloc_Inv.thy ===== *)
theory Bufalloc_Inv
  imports Bufalloc
begin

text \<open>
  The invariant of a region: the two lists partition the 64 chunk records, the chunks lie in
  address order without overlap inside the region, every chunk but the sentinel starts at an
  aligned address, and the sentinel is free and ends where the region ends. Every operation
  keeps it.
\<close>

section \<open>Alignment\<close>

lemma and_not_mask_unat: "unat (x AND NOT (mask n) :: 'a::len word) = unat x div 2 ^ n * 2 ^ n"
proof -
  have "x AND NOT (mask n) = push_bit n (drop_bit n x)"
    by (rule bit_word_eqI) (auto simp: bit_and_iff bit_not_iff bit_mask_iff bit_push_bit_iff bit_drop_bit_eq)
  moreover have "unat (push_bit n (drop_bit n x)) = unat x div 2 ^ n * 2 ^ n"
  proof -
    have d: "unat (drop_bit n x) = unat x div 2 ^ n"
      by (simp add: unsigned_drop_bit_eq drop_bit_eq_div[where 'a = nat]
          take_bit_nat_eq_self[OF unsigned_less])
    have "unat x div 2 ^ n * 2 ^ n < 2 ^ LENGTH('a)"
      by (rule le_less_trans[OF div_times_less_eq_dividend unsigned_less])
    then show ?thesis
      by (simp add: unsigned_push_bit_eq take_bit_eq_mod push_bit_eq_mult[where 'a = nat] d)
  qed
  ultimately show ?thesis by simp
qed

lemma align_up_unat:
  assumes "al = 2 ^ n" and "n < 16" and "unat a + 2 ^ n \<le> 2 ^ 32"
  shows "unat (align_up al a) = (unat a + 2 ^ n - 1) div 2 ^ n * 2 ^ n"
proof -
  have m: "al - 1 = mask n" using assms(1) by (simp add: mask_eq_exp_minus_1)
  have p: "(2 ^ n :: nat) < 2 ^ 32" using assms(2) by (intro power_strict_increasing) auto
  then have al: "unat (2 ^ n :: size_t) = 2 ^ n"
    using unat_of_nat[of "2 ^ n", where ?'a = 32] by simp
  have "unat (al - 1) = 2 ^ n - 1"
    unfolding assms(1) by (subst unat_sub_no_wrap) (simp_all add: al)
  then have "unat (a + (al - 1)) = unat a + (2 ^ n - 1)"
    using assms(3) by (subst unat_add_no_wrap) (simp_all, (use p in linarith)?)
  then show ?thesis
    by (simp add: align_up_def m and_not_mask_unat add_diff_eq[symmetric])
qed

lemma align_up_props:
  assumes "al = 2 ^ n" and "n < 16" and "unat a + 2 ^ n \<le> 2 ^ 32"
  shows "unat a \<le> unat (align_up al a)" and "unat (align_up al a) < unat a + 2 ^ n"
    and "2 ^ n dvd unat (align_up al a)"
    and "2 ^ n dvd unat a \<Longrightarrow> align_up al a = a"
proof -
  let ?p = "(2::nat) ^ n"
  have e: "unat (align_up al a) = (unat a + ?p - 1) div ?p * ?p" by (rule align_up_unat[OF assms])
  have p0: "0 < ?p" by simp
  have "(unat a + ?p - 1) div ?p * ?p + (unat a + ?p - 1) mod ?p = unat a + ?p - 1"
    by (rule div_mult_mod_eq)
  moreover have "(unat a + ?p - 1) mod ?p < ?p" using p0 by (rule mod_less_divisor)
  ultimately show "unat a \<le> unat (align_up al a)" "unat (align_up al a) < unat a + ?p"
    using e p0 by linarith+
  show "?p dvd unat (align_up al a)" by (simp add: e)
  assume "?p dvd unat a"
  then obtain k where k: "unat a = ?p * k" ..
  have "(?p * k + ?p - 1) div ?p = k"
    by (rule div_nat_eqI) (use p0 in \<open>simp_all add: algebra_simps le_diff_conv2 Suc_le_eq\<close>, linarith?)
  then have "unat (align_up al a) = unat a" by (simp add: e k mult.commute)
  then show "align_up al a = a" by (simp add: word_unat_eq_iff)
qed

text \<open>The least multiple of \<open>2 ^ n\<close> from \<open>x\<close> on.\<close>

definition ceil_to :: "nat \<Rightarrow> nat \<Rightarrow> nat" where
  "ceil_to n x = (x + 2 ^ n - 1) div 2 ^ n * 2 ^ n"

lemma ceil_to_least: "x \<le> k * 2 ^ n \<Longrightarrow> ceil_to n x \<le> k * 2 ^ n"
proof -
  assume "x \<le> k * 2 ^ n"
  then have "x + 2 ^ n - 1 < (k + 1) * 2 ^ n" by (simp add: less_diff_conv2 Suc_le_eq)
  then have "(x + 2 ^ n - 1) div 2 ^ n < k + 1" by (rule less_mult_imp_div_less)
  then show ?thesis by (simp add: ceil_to_def)
qed

lemma ceil_to_twice: "x \<le> ceil_to n y \<Longrightarrow> ceil_to n x \<le> ceil_to n y"
  by (simp add: ceil_to_def[of n y] ceil_to_least)

section \<open>The invariant\<close>

abbreviation S :: "memory_region \<Rightarrow> nat \<Rightarrow> nat" where
  "S r i \<equiv> unat (start_address (all_chunks r i))"

abbreviation Z :: "memory_region \<Rightarrow> nat \<Rightarrow> nat" where
  "Z r i \<equiv> unat (chunk_size (all_chunks r i))"

text \<open>Chunks from address \<open>lo\<close> on, ending exactly at \<open>hi\<close>.\<close>

fun laid :: "(nat \<Rightarrow> chunk_info) \<Rightarrow> nat \<Rightarrow> nat list \<Rightarrow> nat \<Rightarrow> bool" where
  "laid ch lo [] hi \<longleftrightarrow> lo = hi"
| "laid ch lo (x # xs) hi \<longleftrightarrow>
     lo \<le> unat (start_address (ch x)) \<and> 0 < unat (chunk_size (ch x)) \<and>
     (xs = [] \<longrightarrow> unat (start_address (ch x)) + unat (chunk_size (ch x)) = hi) \<and>
     laid ch (unat (start_address (ch x)) + unat (chunk_size (ch x))) xs hi"

definition region_lists :: "memory_region \<Rightarrow> nat list \<Rightarrow> nat list \<Rightarrow> bool" where
  "region_lists r xs fs \<longleftrightarrow>
     dll (lks r) (chunks r) xs \<and> dll (lks r) (free_chunks r) fs \<and>
     set xs \<inter> set fs = {} \<and> set xs \<union> set fs = {0..<MAX_CHUNKS_IN_REGION}"

definition region_inv :: "nat \<Rightarrow> nat \<Rightarrow> nat \<Rightarrow> memory_region \<Rightarrow> nat list \<Rightarrow> nat list \<Rightarrow> bool" where
  "region_inv n lo hi r xs fs \<longleftrightarrow>
     region_lists r xs fs \<and> xs \<noteq> [] \<and> last_chunk r = last xs \<and>
     \<not> is_allocated (all_chunks r (last_chunk r)) \<and>
     alignment r = 2 ^ n \<and> n < 16 \<and> hi + 2 ^ n \<le> 2 ^ 32 \<and>
     laid (all_chunks r) lo xs hi \<and> S r (hd xs) \<le> ceil_to n lo \<and>
     (\<forall>x \<in> set (butlast xs). 2 ^ n dvd S r x)"

text \<open>The blocks that are handed out, as address ranges.\<close>

definition blocks :: "memory_region \<Rightarrow> nat list \<Rightarrow> (nat \<times> nat) set" where
  "blocks r xs = {(S r x, Z r x) | x. x \<in> set xs \<and> is_allocated (all_chunks r x)}"

lemma laid_append:
  "laid ch lo (xs @ ys) hi \<longleftrightarrow>
     (if ys = [] then laid ch lo xs hi
      else if xs = [] then laid ch lo ys hi
      else laid ch lo xs (unat (start_address (ch (last xs))) + unat (chunk_size (ch (last xs)))) \<and>
           laid ch (unat (start_address (ch (last xs))) + unat (chunk_size (ch (last xs)))) ys hi)"
  by (induction xs arbitrary: lo) auto

lemma laid_cong: "(\<And>x. x \<in> set xs \<Longrightarrow> start_address (ch' x) = start_address (ch x)
    \<and> chunk_size (ch' x) = chunk_size (ch x)) \<Longrightarrow> laid ch' lo xs hi = laid ch lo xs hi"
  by (induction xs arbitrary: lo) auto

lemma laid_mem:
  "laid ch lo xs hi \<Longrightarrow> x \<in> set xs \<Longrightarrow> lo \<le> unat (start_address (ch x)) \<and> 0 < unat (chunk_size (ch x))
     \<and> unat (start_address (ch x)) + unat (chunk_size (ch x)) \<le> hi"
proof (induction xs arbitrary: lo)
  case (Cons y ys)
  have "laid ch m zs hi \<Longrightarrow> m \<le> hi" for m zs
    by (induction zs arbitrary: m) (auto dest!: meta_spec split: if_splits, (force simp: le_trans)?)
  with Cons show ?case by fastforce
qed simp

lemma laid_mono: "laid ch lo xs hi \<Longrightarrow> xs \<noteq> [] \<Longrightarrow> m \<le> lo \<Longrightarrow> laid ch m xs hi"
  by (cases xs) auto

text \<open>Two different chunks do not overlap.\<close>

definition apart :: "nat \<times> nat \<Rightarrow> nat \<times> nat \<Rightarrow> bool" where
  "apart p q \<longleftrightarrow> fst p + snd p \<le> fst q \<or> fst q + snd q \<le> fst p"

lemma laid_apart:
  "laid ch lo xs hi \<Longrightarrow> distinct xs \<Longrightarrow> x \<in> set xs \<Longrightarrow> y \<in> set xs \<Longrightarrow> x \<noteq> y \<Longrightarrow>
     apart (unat (start_address (ch x)), unat (chunk_size (ch x)))
           (unat (start_address (ch y)), unat (chunk_size (ch y)))"
proof (induction xs arbitrary: lo)
  case (Cons z zs)
  then show ?case
    using laid_mem[of ch _ zs hi x] laid_mem[of ch _ zs hi y]
    by (auto simp: apart_def)
qed simp

end
