(* ===== verification/Bufalloc_Ops.thy ===== *)
theory Bufalloc_Ops
  imports Bufalloc_Inv
begin

text \<open>
  Allocation and release in one region keep the invariant, and change the set of handed-out
  blocks by exactly the block that is allocated or freed.
\<close>

section \<open>Room in a chunk\<close>

lemma region_inv_laid: "region_inv n lo hi r xs fs \<Longrightarrow> laid (all_chunks r) lo xs hi"
  by (simp add: region_inv_def)

lemma region_inv_dlls:
  assumes "region_inv n lo hi r xs fs"
  shows "dll (lks r) (chunks r) xs" and "dll (lks r) (free_chunks r) fs"
    and "set xs \<inter> set fs = {}" and "distinct xs" and "distinct fs"
  using assms dll_distinct by (auto simp: region_inv_def region_lists_def)

lemma region_inv_mem:
  assumes "region_inv n lo hi r xs fs" and "x \<in> set xs"
  shows "lo \<le> S r x" and "0 < Z r x" and "S r x + Z r x \<le> hi" and "hi + 2 ^ n \<le> 2 ^ 32"
  using laid_mem[OF region_inv_laid[OF assms(1)] assms(2)] assms(1) by (auto simp: region_inv_def)

lemma region_inv_align:
  assumes "region_inv n lo hi r xs fs" and "x \<in> set xs"
  shows "unat (align_up (alignment r) (start_address (all_chunks r x))) = ceil_to n (S r x)"
    and "S r x \<le> ceil_to n (S r x)" and "ceil_to n (S r x) < S r x + 2 ^ n"
    and "2 ^ n dvd S r x \<Longrightarrow> ceil_to n (S r x) = S r x"
proof -
  have h: "alignment r = 2 ^ n" "n < 16" "S r x + 2 ^ n \<le> 2 ^ 32"
    using assms(1) region_inv_mem[OF assms] by (auto simp: region_inv_def)
  show e: "unat (align_up (alignment r) (start_address (all_chunks r x))) = ceil_to n (S r x)"
    using align_up_unat[OF h] by (simp add: ceil_to_def)
  show "S r x \<le> ceil_to n (S r x)" "ceil_to n (S r x) < S r x + 2 ^ n"
    "2 ^ n dvd S r x \<Longrightarrow> ceil_to n (S r x) = S r x"
    using align_up_props[OF h] e by auto
qed

lemma chunk_slack_room:
  assumes "region_inv n lo hi r xs fs" and "x \<in> set xs" and "hi + 2 ^ n + unat sz \<le> 2 ^ 32"
  shows "fst (chunk_slack r x sz) \<longleftrightarrow> ceil_to n (S r x) + unat sz < S r x + Z r x"
    and "fst (chunk_slack r x sz) \<Longrightarrow>
      unat (snd (chunk_slack r x sz)) = S r x + Z r x - (ceil_to n (S r x) + unat sz)"
proof -
  note m = region_inv_mem[OF assms(1,2)] and a = region_inv_align[OF assms(1,2)]
  have e: "unat (start_address (all_chunks r x) + chunk_size (all_chunks r x)) = S r x + Z r x"
    by (rule unat_add_no_wrap)
      (use m one_le_power[of "2::nat" n] in \<open>simp, linarith\<close>)
  have f: "unat (align_up (alignment r) (start_address (all_chunks r x)) + sz) = ceil_to n (S r x) + unat sz"
    by (subst unat_add_no_wrap) (use a m assms(3) in auto)
  show "fst (chunk_slack r x sz) \<longleftrightarrow> ceil_to n (S r x) + unat sz < S r x + Z r x"
    by (simp add: chunk_slack_def Let_def u32_less_unat e f)
  then show "fst (chunk_slack r x sz) \<Longrightarrow>
      unat (snd (chunk_slack r x sz)) = S r x + Z r x - (ceil_to n (S r x) + unat sz)"
    by (simp add: chunk_slack_def Let_def u32_less_unat e f unat_sub_no_wrap)
qed

section \<open>Appending a chunk\<close>

lemma append_new_chunk_room:
  assumes inv: "region_inv n lo hi r xs fs" and sz: "0 < sz" "hi + 2 ^ n + unat sz \<le> 2 ^ 32"
    and room: "fst (chunk_slack r (last xs) sz)" and fs: "fs = c # gs"
  obtains r' where "append_new_chunk r sz = ok (Some c, r')"
    and "region_inv n lo hi r' (butlast xs @ [c, last xs]) gs"
    and "blocks r' (butlast xs @ [c, last xs]) = insert (S r' c, Z r' c) (blocks r xs)"
    and "is_allocated (all_chunks r' c)" and "Z r' c = unat sz" and "2 ^ n dvd S r' c"
    and "strategy r' = strategy r" and "\<forall>x. x \<notin> {c, last xs} \<longrightarrow> all_chunks r' x = all_chunks r x"
proof -
  define l where "l = last xs"
  define ys where "ys = butlast xs"
  have xs: "xs = ys @ [l]" and l: "last_chunk r = l" "\<not> is_allocated (all_chunks r l)"
    using inv by (auto simp: region_inv_def l_def ys_def)
  note d = region_inv_dlls[OF inv]
  have c: "c \<notin> set xs" "c \<notin> set ys" "c \<noteq> l" "l \<notin> set ys" using d fs xs by auto
  from dl.insert_before_last[OF d(1)[unfolded xs] d(2)[unfolded fs] d(3)[unfolded xs fs]]
  obtain lk1 b1 lk2 a2 lk3 a3 lk4 a4 where lk:
    "DL_DELETE (lks r) (free_chunks r) c = ok (lk1, b1)" "DL_DELETE lk1 (chunks r) l = ok (lk2, a2)"
    "DL_APPEND lk2 a2 c = ok (lk3, a3)" "DL_APPEND lk3 a3 l = ok (lk4, a4)"
    "dll lk4 a4 (ys @ [c, l])" "dll lk4 b1 gs" by blast
  have lin: "l \<in> set xs" by (simp add: xs)
  note m = region_inv_mem[OF inv lin] and al = region_inv_align[OF inv lin]
    and sl = chunk_slack_room[OF inv lin sz(2)]
  have end': "S r l + Z r l = hi" using region_inv_laid[OF inv] by (simp add: xs laid_append split: if_splits)
  have room': "ceil_to n (S r l) + unat sz < hi" using room sl(1) end' by (simp add: l_def)
  define A where "A = align_up (alignment r) (start_address (all_chunks r l))"
  define ch where "ch = (all_chunks r)
     (c := (all_chunks r c)\<lparr>start_address := A, chunk_size := sz, is_allocated := True\<rparr>,
      l := (all_chunks r l)\<lparr>chunk_size := snd (chunk_slack r l sz), start_address := A + sz\<rparr>)"
  define r' where "r' = r\<lparr>free_chunks := b1, all_chunks := ch, lks := lk4, chunks := a4\<rparr>"
  have free: "free_chunks r = Some c" using d(2) fs by (simp add: dll_def)
  have eq: "append_new_chunk r sz = ok (Some c, r')"
    using room c lk by (simp add: append_new_chunk_def free l l_def[symmetric] Let_def upd_chunk_def
        chunk_slack_def A_def[symmetric] r'_def ch_def fun_upd_twist)
  have uA: "unat A = ceil_to n (S r l)" by (simp add: A_def al)
  have uAs: "unat (A + sz) = unat A + unat sz"
    using sz(2) room' uA by (intro unat_add_no_wrap) simp
  have uZ: "unat (snd (chunk_slack r l sz)) = hi - (unat A + unat sz)"
    using sl(2) room end' uA by (simp add: l_def)
  have old: "laid (all_chunks r) lo ys (S r (last ys) + Z r (last ys)) \<and> S r (last ys) + Z r (last ys) \<le> S r l"
    if "ys \<noteq> []" using region_inv_laid[OF inv] that by (simp add: xs laid_append)
  have chy: "ch x = all_chunks r x" if "x \<noteq> c" "x \<noteq> l" for x using that by (simp add: ch_def)
  have laidy: "laid ch lo ys m = laid (all_chunks r) lo ys m" for m
    by (rule laid_cong) (use c chy in metis)
  have lasty: "ch (last ys) = all_chunks r (last ys)" if "ys \<noteq> []"
    by (rule chy) (use that c last_in_set in metis)+
  have lo: "lo \<le> unat A" using m(1) al(2) uA by simp
  have laid': "laid ch lo (ys @ [c, l]) hi"
    using old room' uA uAs uZ sz(1) c lo al(2) laidy lasty
    by (auto simp: laid_append ch_def word_gt_0 unat_gt_0)
  have hd': "unat (start_address (ch (hd (ys @ [c, l])))) \<le> ceil_to n lo"
  proof (cases ys)
    case Nil
    with inv have "S r l \<le> ceil_to n lo" by (simp add: region_inv_def xs)
    with Nil uA c show ?thesis by (simp add: ch_def ceil_to_twice)
  next
    case (Cons y zs)
    with inv c show ?thesis by (auto simp: region_inv_def xs ch_def)
  qed
  have dvdA: "2 ^ n dvd unat A" using uA by (simp add: ceil_to_def)
  have inv': "region_inv n lo hi r' (ys @ [c, l]) gs"
    using inv lk(5,6) laid' hd' c d dvdA
    by (auto simp: region_inv_def region_lists_def r'_def xs fs ch_def butlast_append)
  have blk: "blocks r' (ys @ [c, l]) = insert (S r' c, Z r' c) (blocks r xs)"
    using c l by (auto simp: blocks_def r'_def ch_def xs)
  show thesis
    by (rule that[OF eq]) (use inv' blk c dvdA chy in \<open>auto simp: ys_def[symmetric] l_def[symmetric] r'_def ch_def\<close>)
qed

lemma append_new_chunk_full:
  assumes "region_inv n lo hi r xs fs" and "\<not> fst (chunk_slack r (last xs) sz) \<or> fs = []"
  shows "append_new_chunk r sz = ok (None, r)"
  using assms region_inv_dlls(2)[OF assms(1)]
  by (auto simp: append_new_chunk_def region_inv_def Let_def dll_def)

section \<open>Using a chunk again\<close>

lemma blocks_apart:
  assumes "region_inv n lo hi r xs fs" and "x \<in> set xs" and "y \<in> set xs" and "x \<noteq> y"
  shows "apart (S r x, Z r x) (S r y, Z r y)" and "S r x \<noteq> S r y"
proof -
  show a: "apart (S r x, Z r x) (S r y, Z r y)"
    using laid_apart[OF region_inv_laid[OF assms(1)] region_inv_dlls(4)[OF assms(1)] assms(2-4)] .
  show "S r x \<noteq> S r y"
    using a region_inv_mem(2)[OF assms(1,2)] region_inv_mem(2)[OF assms(1,3)] by (auto simp: apart_def)
qed

text \<open>No two neighbours on the chunk list are both free.\<close>

definition merged :: "memory_region \<Rightarrow> nat list \<Rightarrow> bool" where
  "merged r xs \<longleftrightarrow> successively (\<lambda>x y. is_allocated (all_chunks r x) \<or> is_allocated (all_chunks r y)) xs"

lemma merged_cong:
  "(\<And>x. x \<in> set xs \<Longrightarrow> is_allocated (all_chunks r' x) = is_allocated (all_chunks r x)) \<Longrightarrow>
     merged r' xs = merged r xs"
  unfolding merged_def by (rule successively_cong) auto

lemma merged_more:
  assumes "\<And>x. x \<in> set xs \<Longrightarrow> is_allocated (all_chunks r x) \<Longrightarrow> is_allocated (all_chunks r' x)"
    and "merged r xs"
  shows "merged r' xs"
  using assms unfolding merged_def by (auto intro: successively_mono)

lemma upd_allocated_inv:
  assumes inv: "region_inv n lo hi r xs fs" and i: "i \<in> set xs" "i \<noteq> last xs"
  shows "region_inv n lo hi (upd_chunk i (\<lambda>c. c\<lparr>is_allocated := b\<rparr>) r) xs fs"
    and "blocks (upd_chunk i (\<lambda>c. c\<lparr>is_allocated := b\<rparr>) r) xs =
      (if b then insert (S r i, Z r i) (blocks r xs) else blocks r xs - {(S r i, Z r i)})"
proof -
  let ?r = "upd_chunk i (\<lambda>c. c\<lparr>is_allocated := b\<rparr>) r"
  have same: "start_address (all_chunks ?r x) = start_address (all_chunks r x)"
    "chunk_size (all_chunks ?r x) = chunk_size (all_chunks r x)"
    "is_allocated (all_chunks ?r x) = (if x = i then b else is_allocated (all_chunks r x))" for x
    by (auto simp: upd_chunk_def)
  have sel: "lks ?r = lks r" "chunks ?r = chunks r" "free_chunks ?r = free_chunks r"
    "last_chunk ?r = last_chunk r" "alignment ?r = alignment r"
    by (simp_all add: upd_chunk_def)
  have "laid (all_chunks ?r) lo xs hi = laid (all_chunks r) lo xs hi"
    by (rule laid_cong) (simp add: same)
  then show "region_inv n lo hi ?r xs fs"
    using inv i by (auto simp: region_inv_def region_lists_def same sel)
  show "blocks ?r xs = (if b then insert (S r i, Z r i) (blocks r xs) else blocks r xs - {(S r i, Z r i)})"
  proof -
    have A: "blocks ?r xs = (\<lambda>x. (S r x, Z r x)) `
        ({x \<in> set xs. is_allocated (all_chunks r x) \<and> x \<noteq> i} \<union> (if b then {i} else {}))"
      using i(1) by (auto simp: blocks_def same)
    have B: "blocks r xs = (\<lambda>x. (S r x, Z r x)) ` {x \<in> set xs. is_allocated (all_chunks r x)}"
      by (auto simp: blocks_def)
    have inj: "x = i" if "x \<in> set xs" "S r x = S r i" for x
      using blocks_apart(2)[OF inv that(1) i(1)] that(2) by blast
    show ?thesis unfolding A B by (auto dest: inj)
  qed
qed

lemma reuse_chunk_inv:
  assumes inv: "region_inv n lo hi r xs fs" and sz: "hi + 2 ^ n + unat sz \<le> 2 ^ 32"
  obtains (none) "reuse_chunk r sz = ok (None, r)"
      "\<And>x. x \<in> set xs \<Longrightarrow> x \<noteq> last xs \<Longrightarrow> is_allocated (all_chunks r x) \<or> \<not> fst (chunk_slack r x sz)"
  | (some) i r' where "reuse_chunk r sz = ok (Some i, r')" and "i \<in> set xs" and "i \<noteq> last xs"
      and "region_inv n lo hi r' xs fs" and "\<not> is_allocated (all_chunks r i)"
      and "is_allocated (all_chunks r' i)" and "S r' i = S r i" and "Z r' i = Z r i"
      and "blocks r' xs = insert (S r i, Z r i) (blocks r xs)" and "unat sz \<le> Z r i"
      and "merged r xs \<Longrightarrow> merged r' xs" and "fst (chunk_slack r i sz)"
proof (cases "find (reusable r sz) xs")
  case None
  have "reuse_chunk r sz = ok (None, r)"
    using foreach_find_dll[OF region_inv_dlls(1)[OF inv]] None by (simp add: reuse_chunk_def)
  moreover have "last_chunk r = last xs" using inv by (simp add: region_inv_def)
  ultimately show thesis using None by (intro none) (auto simp: find_None_iff reusable_def)
next
  case (Some i)
  let ?r = "upd_chunk i (\<lambda>c. c\<lparr>is_allocated := True\<rparr>) r"
  from Some have i: "i \<in> set xs" "reusable r sz i" by (auto simp: find_Some_iff)
  then have i': "i \<noteq> last xs" "\<not> is_allocated (all_chunks r i)" "fst (chunk_slack r i sz)"
    using inv by (auto simp: reusable_def region_inv_def)
  have eq: "reuse_chunk r sz = ok (Some i, ?r)"
    using foreach_find_dll[OF region_inv_dlls(1)[OF inv]] Some by (simp add: reuse_chunk_def)
  have "unat sz \<le> Z r i"
    using chunk_slack_room(1)[OF inv i(1) sz] region_inv_align(2)[OF inv i(1)] i'(3) by simp
  moreover have "merged r xs \<Longrightarrow> merged ?r xs" by (rule merged_more) (auto simp: upd_chunk_def)
  ultimately show thesis
    using upd_allocated_inv[OF inv i(1) i'(1), of True] i i'
    by (intro some[OF eq]) (auto simp: upd_chunk_def)
qed

section \<open>Allocation\<close>

lemma alloc_buffer_from_region_inv:
  assumes inv: "region_inv n lo hi r xs fs" and sz: "0 < sz" "hi + 2 ^ n + unat sz \<le> 2 ^ 32"
  obtains (none) "alloc_buffer_from_region r sz = ok (None, r)"
      "\<And>x. x \<in> set xs \<Longrightarrow> is_allocated (all_chunks r x) \<or> \<not> fst (chunk_slack r x sz) \<or> (x = last xs \<and> fs = [])"
  | (some) i r' xs' fs' where "alloc_buffer_from_region r sz = ok (Some i, r')"
      and "region_inv n lo hi r' xs' fs'" and "i \<in> set xs'" and "is_allocated (all_chunks r' i)"
      and "blocks r' xs' = insert (S r' i, Z r' i) (blocks r xs)" and "unat sz \<le> Z r' i"
      and "(S r' i, Z r' i) \<notin> blocks r xs" and "merged r xs \<Longrightarrow> merged r' xs'"
      and "strategy r' = strategy r"
      and "\<exists>x\<in>set xs. \<not> is_allocated (all_chunks r x) \<and> fst (chunk_slack r x sz) \<and> \<not> (x = last xs \<and> fs = [])"
proof -
  have xs: "xs \<noteq> []" "last xs \<in> set xs" and nl: "\<not> is_allocated (all_chunks r (last xs))"
    using inv by (auto simp: region_inv_def)
  have ap: thesis if full: "\<not> (\<not> fst (chunk_slack r (last xs) sz) \<or> fs = [])"
    and eq: "\<And>c r'. append_new_chunk r sz = ok (Some c, r') \<Longrightarrow>
      alloc_buffer_from_region r sz = ok (Some c, r')"
  proof -
    from full obtain c gs where fs: "fs = c # gs" by (cases fs) auto
    have rm: "fst (chunk_slack r (last xs) sz)" using full by simp
    obtain r'
      where 1: "append_new_chunk r sz = ok (Some c, r')"
      and 2: "region_inv n lo hi r' (butlast xs @ [c, last xs]) gs"
      and 3: "blocks r' (butlast xs @ [c, last xs]) = insert (S r' c, Z r' c) (blocks r xs)"
      and 4: "is_allocated (all_chunks r' c)" "Z r' c = unat sz" "2 ^ n dvd S r' c" "strategy r' = strategy r"
      and 5: "\<forall>x. x \<notin> {c, last xs} \<longrightarrow> all_chunks r' x = all_chunks r x"
      by (rule append_new_chunk_room[OF inv sz rm fs])
    have c: "c \<notin> set (butlast xs)" "c \<notin> set xs"
      using region_inv_dlls[OF inv] fs by (auto dest: in_set_butlastD)
    have dist: "distinct (butlast xs @ [c, last xs])" by (rule region_inv_dlls[OF 2])
    have "(S r' c, Z r' c) \<notin> blocks r xs"
    proof
      assume "(S r' c, Z r' c) \<in> blocks r xs"
      then obtain x where x: "x \<in> set xs" "S r' c = S r x" "is_allocated (all_chunks r x)"
        by (auto simp: blocks_def)
      then have "x \<noteq> last xs" "x \<noteq> c" using nl c by auto
      have "x \<in> set (butlast xs @ [last xs])" using x(1) xs(1) by simp
      then have "x \<in> set (butlast xs @ [c, last xs])" by auto
      moreover have "S r' x = S r' c" using x(2) 5 \<open>x \<noteq> last xs\<close> \<open>x \<noteq> c\<close> by simp
      ultimately have "S r' x = S r' c" "x \<in> set (butlast xs @ [c, last xs])" by blast+
      with blocks_apart(2)[OF 2, of x c] \<open>x \<noteq> c\<close> show False by simp
    qed
    moreover have "merged r' (butlast xs @ [c, last xs])" if m: "merged r xs"
    proof -
      have "merged r (butlast xs)"
        using m xs(1) unfolding merged_def by (metis append_butlast_last_id successively_append_iff)
      then have "merged r' (butlast xs)"
        by (rule merged_more[rotated]) (use 5 dist in force)
      then show ?thesis using 4 by (auto simp: merged_def successively_append_iff)
    qed
    ultimately show thesis
      using full nl xs(2) by (intro some[OF eq[OF 1] 2 _ 4(1) 3]) (auto simp: 4)
  qed
  show thesis
  proof (cases "strategy r = BALLOCS_WASTEFUL \<and> fst (chunk_slack r (last xs) sz) \<and> fs \<noteq> []")
    case True
    then show ?thesis by (intro ap) (auto simp: alloc_buffer_from_region_def)
  next
    case not_first: False
    have first: "(if strategy r = BALLOCS_WASTEFUL then append_new_chunk r sz else ok (None, r)) = ok (None, r)"
      using not_first append_new_chunk_full[OF inv] by auto
    from inv sz(2) show ?thesis
    proof (cases rule: reuse_chunk_inv)
      case (some i r')
      have "strategy r' = strategy r"
        using some(1) foreach_find_dll[OF region_inv_dlls(1)[OF inv]]
        by (auto simp: reuse_chunk_def upd_chunk_def split: option.splits)
      moreover have "(S r i, Z r i) \<notin> blocks r xs"
        using blocks_apart(2)[OF inv some(2)] some(5) by (auto simp: blocks_def)
      ultimately show ?thesis
        using some first
        by (intro that(2)[of i r' xs fs]) (auto simp: alloc_buffer_from_region_def)
    next
      case n: none
      show ?thesis
      proof (cases "\<not> fst (chunk_slack r (last xs) sz) \<or> fs = []")
        case True
        with append_new_chunk_full[OF inv] have "append_new_chunk r sz = ok (None, r)" by blast
        with first n(1) have "alloc_buffer_from_region r sz = ok (None, r)"
          by (simp add: alloc_buffer_from_region_def)
        then show ?thesis using True n(2) by (intro none) auto
      next
        case False
        with not_first have "strategy r \<noteq> BALLOCS_WASTEFUL" by auto
        with n(1) show ?thesis by (intro ap[OF False]) (simp add: alloc_buffer_from_region_def)
      qed
    qed
  qed
qed

end
