(* ===== verification/Bufalloc_Free.thy ===== *)
theory Bufalloc_Free
  imports Bufalloc_Ops
begin

text \<open>
  Freeing a chunk: merging it with its free neighbours keeps the invariant and hands back
  exactly the freed block. Whether both neighbours are merged depends on the order in which the
  compiler evaluates the arguments of the nested \<open>coalesce_chunks\<close> calls.
\<close>

section \<open>Merging two neighbours\<close>

lemma coalesce_keeps:
  "coalesce_chunks r None second = ok (second, r)"
  "coalesce_chunks r (Some f) None = ok (Some f, r)"
  "is_allocated (all_chunks r f) \<or> is_allocated (all_chunks r s) \<Longrightarrow>
     coalesce_chunks r (Some f) (Some s) = ok (Some s, r)"
  "S r s < S r f \<Longrightarrow> coalesce_chunks r (Some f) (Some s) = ok (Some s, r)"
  by (auto simp: coalesce_chunks_def u32_less_unat)

lemma laid_neighbours:
  "laid ch lo (as @ f # s # bs) hi \<Longrightarrow>
     unat (start_address (ch f)) + unat (chunk_size (ch f)) \<le> unat (start_address (ch s))"
  by (induction as arbitrary: lo) auto

text \<open>The end of a chunk list can be laid out anew.\<close>

lemma laid_replace:
  assumes "laid ch lo (as @ ys) hi" and "\<And>m. laid ch m ys hi \<Longrightarrow> laid ch' m zs hi"
    and "\<And>x. x \<in> set as \<Longrightarrow> start_address (ch' x) = start_address (ch x) \<and> chunk_size (ch' x) = chunk_size (ch x)"
    and "ys \<noteq> []" and "zs \<noteq> []"
  shows "laid ch' lo (as @ zs) hi"
  using assms by (induction as arbitrary: lo) auto

lemma coalesce_neighbours:
  assumes inv: "region_inv n lo hi r (as @ f # s # bs) fs"
    and free: "\<not> is_allocated (all_chunks r f)" "\<not> is_allocated (all_chunks r s)"
  obtains r' where "coalesce_chunks r (Some f) (Some s) = ok (Some f, r')"
    and "region_inv n lo hi r' (as @ f # bs) (fs @ [s])"
    and "blocks r' (as @ f # bs) = blocks r (as @ f # s # bs)"
    and "\<forall>x. is_allocated (all_chunks r' x) = is_allocated (all_chunks r x)"
proof -
  let ?xs = "as @ f # s # bs"
  note d = region_inv_dlls[OF inv]
  have mem: "f \<in> set ?xs" "s \<in> set ?xs" by auto
  have ne: "f \<noteq> s" "f \<notin> set as" "f \<notin> set bs" "s \<notin> set as" "s \<notin> set bs" using d(4) by auto
  note ms = region_inv_mem[OF inv mem(2)] and mf = region_inv_mem[OF inv mem(1)]
  have fs': "S r f + Z r f \<le> S r s" by (rule laid_neighbours[OF region_inv_laid[OF inv]])
  obtain lk1 c1 lk2 f2 where lk: "DL_DELETE (lks r) (chunks r) s = ok (lk1, c1)"
    "DL_APPEND lk1 (free_chunks r) s = ok (lk2, f2)" "dll lk2 c1 (remove1 s ?xs)" "dll lk2 f2 (fs @ [s])"
    using dl.move_law[OF d(1,2,3) mem(2)] by blast
  define w where "w = start_address (all_chunks r s) + chunk_size (all_chunks r s) - start_address (all_chunks r f)"
  have e1: "unat (start_address (all_chunks r s) + chunk_size (all_chunks r s)) = S r s + Z r s"
    by (rule unat_add_no_wrap) (use ms one_le_power[of "2::nat" n] in \<open>simp, linarith\<close>)
  have w: "unat w = S r s + Z r s - S r f"
    unfolding w_def by (subst unat_sub_no_wrap) (use e1 fs' in auto)
  define ch where "ch = (all_chunks r)(f := (all_chunks r f)\<lparr>chunk_size := w\<rparr>)"
  define r' where "r' = (let r2 = r\<lparr>all_chunks := ch, lks := lk2, chunks := c1, free_chunks := f2\<rparr>
    in if last_chunk r = s then r2\<lparr>last_chunk := f\<rparr> else r2)"
  have eq: "coalesce_chunks r (Some f) (Some s) = ok (Some f, r')"
    using free fs' mf lk by (simp add: coalesce_chunks_def u32_less_unat upd_chunk_def w_def[symmetric]
        ch_def[symmetric] r'_def Let_def)
  have sel: "lks r' = lk2" "chunks r' = c1" "free_chunks r' = f2" "all_chunks r' = ch"
    "alignment r' = alignment r" "last_chunk r' = (if last_chunk r = s then f else last_chunk r)"
    by (auto simp: r'_def Let_def)
  have rm: "remove1 s ?xs = as @ f # bs" using ne by (simp add: remove1_append)
  have sa: "start_address (ch x) = start_address (all_chunks r x)"
    "is_allocated (ch x) = is_allocated (all_chunks r x)" for x by (auto simp: ch_def)
  have cs: "x \<noteq> f \<Longrightarrow> chunk_size (ch x) = chunk_size (all_chunks r x)" "chunk_size (ch f) = w" for x
    by (auto simp: ch_def)
  have "laid ch lo (as @ f # bs) hi"
  proof (rule laid_replace[OF region_inv_laid[OF inv]])
    fix m assume l: "laid (all_chunks r) m (f # s # bs) hi"
    have "laid ch k bs hi = laid (all_chunks r) k bs hi" for k
      by (rule laid_cong) (use ne sa cs in metis)
    with l w fs' ms(2) show "laid ch m (f # bs) hi" by (auto simp: sa cs)
  next
    fix x assume "x \<in> set as"
    with ne have "x \<noteq> f" by blast
    then show "start_address (ch x) = start_address (all_chunks r x)
        \<and> chunk_size (ch x) = chunk_size (all_chunks r x)"
      by (simp add: sa cs)
  qed auto
  moreover have "last_chunk r' = last (as @ f # bs)"
    by (cases "bs = []") (use inv ne last_in_set[of bs] in \<open>auto simp: region_inv_def sel\<close>)
  moreover have "region_lists r' (as @ f # bs) (fs @ [s])"
    using inv lk ne by (auto simp: region_inv_def region_lists_def sel rm)
  moreover have "hd (as @ f # bs) = hd ?xs" by (cases as) auto
  moreover have "set (butlast (as @ f # bs)) \<subseteq> set (butlast ?xs)" by (auto simp: butlast_append)
  moreover have "\<not> is_allocated (all_chunks r' (last_chunk r'))"
    using inv free by (auto simp: region_inv_def sel sa)
  ultimately have inv': "region_inv n lo hi r' (as @ f # bs) (fs @ [s])"
    using inv by (auto simp: region_inv_def sel sa subset_iff)
  have "blocks r' (as @ f # bs) = blocks r ?xs"
    using free by (auto simp: blocks_def sel sa) (metis cs(1))+
  then show thesis by (intro that[OF eq inv']) (auto simp: sel sa)
qed

section \<open>Freeing\<close>

text \<open>The second call: a free chunk absorbs the chunk after it, if that is free.\<close>

lemma absorb_next:
  assumes inv: "region_inv n lo hi r (as @ f # b # bs) fs" and free: "\<not> is_allocated (all_chunks r f)"
  obtains c r' xs' fs' where "coalesce_chunks r (Some f) (Some b) = ok (c, r')"
    and "region_inv n lo hi r' xs' fs'" and "blocks r' xs' = blocks r (as @ f # b # bs)"
    and "merged r (as @ [f]) \<Longrightarrow> merged r (b # bs) \<Longrightarrow> merged r' xs'"
proof (cases "is_allocated (all_chunks r b)")
  case True
  then show thesis
    by (intro that[OF coalesce_keeps(3) inv]) (auto simp: merged_def successively_append_iff)
next
  case False
  from coalesce_neighbours[OF inv free False] obtain r'
    where 1: "coalesce_chunks r (Some f) (Some b) = ok (Some f, r')"
      "region_inv n lo hi r' (as @ f # bs) (fs @ [b])" "blocks r' (as @ f # bs) = blocks r (as @ f # b # bs)"
      "\<forall>x. is_allocated (all_chunks r' x) = is_allocated (all_chunks r x)" by blast
  have "merged r' (as @ f # bs)" if "merged r (as @ [f])" "merged r (b # bs)"
    using that 1(4) False by (cases bs) (auto simp: merged_def successively_append_iff)
  with 1 that show thesis by blast
qed

text \<open>
  What freeing does to the represented blocks, for both evaluation orders; with the \<open>next\<close>
  argument read first, freeing also keeps the list fully merged.
\<close>

lemma free_and_coalesce_inv:
  assumes inv: "region_inv n lo hi r xs fs" and k: "k \<in> set xs" "is_allocated (all_chunks r k)"
  obtains r' xs' fs' where "free_and_coalesce order r k = ok r'" and "region_inv n lo hi r' xs' fs'"
    and "blocks r' xs' = blocks r xs - {(S r k, Z r k)}"
    and "order = Next_first \<Longrightarrow> merged r xs \<Longrightarrow> merged r' xs'"
proof -
  have kl: "k \<noteq> last xs" using inv k by (auto simp: region_inv_def)
  then obtain as b bs where xs: "xs = as @ k # b # bs"
    by (metis k(1) split_list last_snoc neq_Nil_conv append.assoc append_Cons append_Nil)
  define r1 where "r1 = upd_chunk k (\<lambda>c. c\<lparr>is_allocated := False\<rparr>) r"
  have inv1: "region_inv n lo hi r1 xs fs" and blk1: "blocks r1 xs = blocks r xs - {(S r k, Z r k)}"
    using upd_allocated_inv[OF inv k(1) kl, of False] by (auto simp: r1_def)
  have al1: "is_allocated (all_chunks r1 x) = (x \<noteq> k \<and> is_allocated (all_chunks r x))" for x
    by (simp add: r1_def upd_chunk_def)
  have dist: "distinct xs" by (rule region_inv_dlls[OF inv1])
  have dl1: "dll (lks r1) (chunks r1) xs" by (rule region_inv_dlls[OF inv1])
  have nk: "nxt (lks r1) k = Some b" and pk: "prv (lks r1) k = or_else (last_ref as) (Some (last xs))"
    using dl1 by (auto simp: dll_def xs last_ref_def)
  have mb: "merged r1 (b # bs)" "merged r as" if "merged r xs"
    using that dist al1 merged_cong[of "b # bs" r1 r]
    by (auto simp: merged_def successively_append_iff xs)
  let ?done = "\<exists>r' xs' fs'. free_and_coalesce order r k = ok r' \<and> region_inv n lo hi r' xs' fs'
    \<and> blocks r' xs' = blocks r xs - {(S r k, Z r k)}
    \<and> (order = Next_first \<longrightarrow> merged r xs \<longrightarrow> merged r' xs')"
  have alone: ?done if skip: "coalesce_chunks r1 (prv (lks r1) k) (Some k) = ok (Some k, r1)"
    and m: "merged r xs \<longrightarrow> merged r1 (as @ [k])"
  proof -
    have "\<not> is_allocated (all_chunks r1 k)" by (simp add: al1)
    from absorb_next[OF inv1[unfolded xs] this] obtain c r' xs' fs'
      where 2: "coalesce_chunks r1 (Some k) (Some b) = ok (c, r')" "region_inv n lo hi r' xs' fs'"
        "blocks r' xs' = blocks r1 xs" "merged r1 (as @ [k]) \<Longrightarrow> merged r1 (b # bs) \<Longrightarrow> merged r' xs'"
      unfolding xs by blast
    have "free_and_coalesce order r k = ok r'"
      using skip 2(1) nk by (cases order) (simp_all add: free_and_coalesce_def r1_def[symmetric] Let_def)
    with 2 blk1 mb m show ?done by metis
  qed
  have ?done
  proof (cases as rule: rev_cases)
    case Nil
    have "laid (all_chunks r1) (S r1 k + Z r1 k) (b # bs) hi"
      using region_inv_laid[OF inv1] by (simp add: Nil xs)
    moreover have "last xs \<in> set (b # bs)" unfolding xs Nil by (simp add: last_in_set)
    ultimately have "S r1 k + Z r1 k \<le> S r1 (last xs)" using laid_mem by blast
    with region_inv_mem(2)[OF inv1 k(1)] have "S r1 k < S r1 (last xs)" by simp
    then show ?done using Nil pk by (intro alone) (auto simp: coalesce_keeps merged_def)
  next
    case (snoc as' p)
    have pk': "prv (lks r1) k = Some p" and pne: "p \<noteq> k" using pk dist by (auto simp: snoc xs)
    show ?done
    proof (cases "is_allocated (all_chunks r1 p)")
      case True
      have "merged r1 (as @ [k])" if "merged r xs"
      proof -
        have "merged r1 as"
          using mb(2)[OF that] by (rule merged_more[rotated]) (use al1 dist in \<open>auto simp: xs\<close>)
        then show ?thesis using al1 True pne by (auto simp: merged_def successively_append_iff snoc)
      qed
      with True show ?done using pk' by (intro alone) (auto simp: coalesce_keeps)
    next
      case False
      have xs': "xs = as' @ p # k # b # bs" by (simp add: xs snoc)
      have nf: "\<not> is_allocated (all_chunks r1 k)" by (simp add: al1)
      from coalesce_neighbours[OF inv1[unfolded xs'] False nf] obtain r2
        where 1: "coalesce_chunks r1 (Some p) (Some k) = ok (Some p, r2)"
          "region_inv n lo hi r2 (as' @ p # b # bs) (fs @ [k])"
          "blocks r2 (as' @ p # b # bs) = blocks r1 xs"
          "\<forall>x. is_allocated (all_chunks r2 x) = is_allocated (all_chunks r1 x)"
        unfolding xs' by blast
      have "\<not> is_allocated (all_chunks r2 p)" using 1(4) False by simp
      from absorb_next[OF 1(2) this] obtain c r' zs gs
        where 2: "coalesce_chunks r2 (Some p) (Some b) = ok (c, r')" "region_inv n lo hi r' zs gs"
          "blocks r' zs = blocks r1 xs" "merged r2 (as' @ [p]) \<Longrightarrow> merged r2 (b # bs) \<Longrightarrow> merged r' zs"
        using 1(3) by (metis (no_types))
      have m2: "merged r2 (as' @ [p])" "merged r2 (b # bs)" if "merged r xs"
        using mb[OF that] 1(4) al1 dist merged_cong[of "as' @ [p]" r2 r] merged_cong[of "b # bs" r2 r1]
        by (auto simp: snoc xs)
      have k2: "nxt (lks r2) k = None" using region_inv_dlls(2)[OF 1(2)] by (simp add: dll_def)
      show ?done
      proof (cases order)
        case Next_first
        then have "free_and_coalesce order r k = ok r'"
          using 1(1) 2(1) nk pk' by (simp add: free_and_coalesce_def r1_def[symmetric] Let_def)
        with 2 blk1 m2 show ?done by metis
      next
        case Call_first
        then have "free_and_coalesce order r k = ok r2"
          using 1(1) k2 pk' by (simp add: free_and_coalesce_def r1_def[symmetric] Let_def coalesce_keeps)
        with 1 blk1 Call_first show ?done by (metis arg_order.distinct(1))
      qed
    qed
  qed
  then show thesis using that by blast
qed

end
