(* ===== verification/Bufalloc_Regions.thy ===== *)
theory Bufalloc_Regions
  imports Bufalloc_Free
begin

text \<open>
  A list of regions as one allocator: the contract \<open>allocator\<close> is what the clients of
  \<^verbatim>\<open>bufalloc.h\<close> rely on, with the set of live blocks as its abstract state. The list of
  regions meets it, and any sequence of requests against it can be served.
\<close>

section \<open>Initialisation\<close>

lemma append_free_dll:
  "dll lk head xs \<Longrightarrow> distinct is \<Longrightarrow> set xs \<inter> set is = {} \<Longrightarrow>
     \<exists>lk' head'. append_free is lk head = ok (lk', head') \<and> dll lk' head' (xs @ is)
       \<and> agree_links (- set (xs @ is)) lk lk'"
proof (induction "is" arbitrary: lk head xs)
  case Nil
  then show ?case by (auto simp: agree_links_def agree_nexts_def)
next
  case (Cons i js)
  from dl.append_law[OF Cons.prems(1), of i] Cons.prems(3) obtain lk1 h1
    where 1: "DL_APPEND lk head i = ok (lk1, h1)" "dll lk1 h1 (xs @ [i])"
      "agree_links (- insert i (set xs)) lk lk1" by auto
  with Cons.IH[of lk1 h1 "xs @ [i]"] Cons.prems obtain lk' head'
    where 2: "append_free js lk1 h1 = ok (lk', head')" "dll lk' head' (xs @ i # js)"
      "agree_links (- set (xs @ i # js)) lk1 lk'" by auto
  have "agree_links (- set (xs @ i # js)) lk lk'"
    by (rule dl.agree_trans[OF dl.agree_mono[OF 1(3)] 2(3)]) auto
  with 1 2 show ?case by auto
qed

lemma init_mem_region_inv:
  assumes "0 < sz" and "unat start + unat sz + 64 \<le> 2 ^ 32"
  obtains r' where "init_mem_region r start sz = ok r'"
    and "region_inv 6 (unat start) (unat start + unat sz) r' [0] [1..<64]"
    and "blocks r' [0] = {}" and "merged r' [0]" and "strategy r' = BALLOCS_WASTEFUL"
proof -
  define lk1 where "lk1 = set_nxt 0 None (set_prv 0 (Some 0) (lks r))"
  have 1: "DL_APPEND (lks r) None 0 = ok (lk1, Some 0)" "dll lk1 (Some 0) [0]"
    by (simp_all add: DL_APPEND_def lk1_def dll_def)
  have "dll lk1 None []" by (simp add: dll_def)
  from append_free_dll[OF this, of "[1..<64]"] obtain lk2 h2
    where 2: "append_free [1..<64] lk1 None = ok (lk2, h2)" "dll lk2 h2 [1..<64]"
      "agree_links (- set [1..<64]) lk1 lk2" by auto
  have 3: "dll lk2 (Some 0) [0]" by (rule dll_frame[OF 2(3) _ 1(2)]) simp
  define r' where "r' = r\<lparr>strategy := BALLOCS_WASTEFUL, chunks := Some 0, free_chunks := h2, alignment := 64,
     last_chunk := 0, all_chunks := (all_chunks r)(0 := (all_chunks r 0)
       \<lparr>start_address := start, chunk_size := sz, is_allocated := False\<rparr>), lks := lk2\<rparr>"
  have eq: "init_mem_region r start sz = ok r'"
    using 1(1) 2(1) by (simp add: init_mem_region_def upd_chunk_def r'_def)
  have "unat start \<le> ceil_to 6 (unat start)" by (simp add: ceil_to_def)
  then have "region_inv 6 (unat start) (unat start + unat sz) r' [0] [1..<64]"
    using assms 2 3 by (auto simp: region_inv_def region_lists_def r'_def unat_gt_0)
  then show thesis
    by (rule that[OF eq]) (auto simp: blocks_def r'_def merged_def)
qed

section \<open>The contract of an allocator\<close>

datatype request = Request size_t | Release u32

text \<open>
  A client's run: it only frees addresses of blocks it holds. The second component is the set
  of blocks it holds.
\<close>

fun serve ::
  "('h \<Rightarrow> size_t \<Rightarrow> ((nat \<times> nat) option \<times> 'h) prog) \<Rightarrow> ('h \<Rightarrow> u32 \<Rightarrow> (bool \<times> 'h) prog) \<Rightarrow>
   'h \<Rightarrow> (nat \<times> nat) set \<Rightarrow> request list \<Rightarrow> ('h \<times> (nat \<times> nat) set) prog" where
  "serve al fr h B [] = ok (h, B)"
| "serve al fr h B (Request sz # qs) =
     andthen (al h sz) (\<lambda>(res, h'). serve al fr h' (case res of None \<Rightarrow> B | Some p \<Rightarrow> insert p B) qs)"
| "serve al fr h B (Release a # qs) =
     (if unat a \<in> fst ` B
      then andthen (fr h a) (\<lambda>(found, h'). serve al fr h' {p \<in> B. fst p \<noteq> unat a} qs)
      else serve al fr h B qs)"

locale allocator =
  fixes rep :: "'h \<Rightarrow> (nat \<times> nat) set \<Rightarrow> bool"
    and al :: "'h \<Rightarrow> size_t \<Rightarrow> ((nat \<times> nat) option \<times> 'h) prog"
    and fr :: "'h \<Rightarrow> u32 \<Rightarrow> (bool \<times> 'h) prog"
    and fits :: "size_t \<Rightarrow> bool"
    and good :: "nat \<times> nat \<Rightarrow> bool"
  assumes rep_apart: "rep h B \<Longrightarrow> p \<in> B \<Longrightarrow> q \<in> B \<Longrightarrow> p \<noteq> q \<Longrightarrow> apart p q"
    and rep_good: "rep h B \<Longrightarrow> p \<in> B \<Longrightarrow> good p"
    and good_size: "good p \<Longrightarrow> 0 < snd p"
    and alloc_law: "rep h B \<Longrightarrow> fits sz \<Longrightarrow> \<exists>res h'. al h sz = ok (res, h') \<and>
      (case res of None \<Rightarrow> rep h' B | Some p \<Rightarrow> rep h' (insert p B) \<and> p \<notin> B \<and> unat sz \<le> snd p)"
    and free_law: "rep h B \<Longrightarrow> (unat a, z) \<in> B \<Longrightarrow>
      \<exists>h'. fr h a = ok (True, h') \<and> rep h' (B - {(unat a, z)})"
begin

lemma block_at: "rep h B \<Longrightarrow> (a, z) \<in> B \<Longrightarrow> {p \<in> B. fst p \<noteq> a} = B - {(a, z)}"
proof (intro equalityI subsetI)
  fix p assume r: "rep h B" "(a, z) \<in> B" and p: "p \<in> B - {(a, z)}"
  then have "apart p (a, z)" using rep_apart by blast
  moreover have "0 < snd p" "0 < z" using rep_good[OF r(1)] good_size r(2) p by fastforce+
  ultimately show "p \<in> {p \<in> B. fst p \<noteq> a}" using p by (auto simp: apart_def)
qed auto

lemma serve_ok:
  "rep h B \<Longrightarrow> (\<forall>sz. Request sz \<in> set qs \<longrightarrow> fits sz) \<Longrightarrow>
     \<exists>h' B'. serve al fr h B qs = ok (h', B') \<and> rep h' B'"
proof (induction qs arbitrary: h B)
  case (Cons q qs)
  show ?case
  proof (cases q)
    case (Request sz)
    then have "fits sz" using Cons.prems(2) by simp
    from alloc_law[OF Cons.prems(1) this] obtain res h' where 1: "al h sz = ok (res, h')"
      "case res of None \<Rightarrow> rep h' B | Some p \<Rightarrow> rep h' (insert p B) \<and> p \<notin> B \<and> unat sz \<le> snd p"
      by blast
    then have "rep h' (case res of None \<Rightarrow> B | Some p \<Rightarrow> insert p B)" by (cases res) auto
    from Cons.IH[OF this] Cons.prems(2) 1(1) show ?thesis by (auto simp: Request)
  next
    case (Release a)
    show ?thesis
    proof (cases "unat a \<in> fst ` B")
      case True
      then obtain z where z: "(unat a, z) \<in> B" by auto
      from free_law[OF Cons.prems(1) z] obtain h'
        where "fr h a = ok (True, h')" "rep h' (B - {(unat a, z)})" by blast
      with True Cons block_at[OF Cons.prems(1) z] show ?thesis by (auto simp: Release)
    qed (use Cons in \<open>auto simp: Release\<close>)
  qed
qed auto

end

section \<open>A list of regions\<close>

text \<open>The window of a region: the exponent of its alignment, its first address and its end.\<close>

type_synonym window = "nat \<times> nat \<times> nat"

fun windows_apart :: "window list \<Rightarrow> bool" where
  "windows_apart [] \<longleftrightarrow> True"
| "windows_apart ((n, lo, hi) # ws) \<longleftrightarrow> (\<forall>(m, l, h) \<in> set ws. hi \<le> l \<or> h \<le> lo) \<and> windows_apart ws"

fun regions_inv :: "window list \<Rightarrow> memory_region list \<Rightarrow> (nat \<times> nat) set \<Rightarrow> bool" where
  "regions_inv [] [] B \<longleftrightarrow> B = {}"
| "regions_inv ((n, lo, hi) # ws) (r # rs) B \<longleftrightarrow>
     (\<exists>xs fs B'. region_inv n lo hi r xs fs \<and> regions_inv ws rs B' \<and> B = blocks r xs \<union> B')"
| "regions_inv ws rs B \<longleftrightarrow> False"

definition regions_rep :: "window list \<Rightarrow> memory_region list \<Rightarrow> (nat \<times> nat) set \<Rightarrow> bool" where
  "regions_rep ws rs B \<longleftrightarrow> windows_apart ws \<and> regions_inv ws rs B"

definition fits :: "window list \<Rightarrow> size_t \<Rightarrow> bool" where
  "fits ws sz \<longleftrightarrow> 0 < sz \<and> (\<forall>(n, lo, hi) \<in> set ws. hi + 2 ^ n + unat sz \<le> 2 ^ 32)"

definition good_block :: "window list \<Rightarrow> nat \<times> nat \<Rightarrow> bool" where
  "good_block ws p \<longleftrightarrow> 0 < snd p \<and>
     (\<exists>(n, lo, hi) \<in> set ws. 2 ^ n dvd fst p \<and> lo \<le> fst p \<and> fst p + snd p \<le> hi)"

definition alloc_range :: "memory_region list \<Rightarrow> size_t \<Rightarrow> ((nat \<times> nat) option \<times> memory_region list) prog" where
  "alloc_range rs sz = andthen (alloc_buffer rs sz) (\<lambda>(res, rs').
     ok (map_option (\<lambda>(i, c). (S (rs' ! i) c, Z (rs' ! i) c)) res, rs'))"

definition free_range :: "arg_order \<Rightarrow> memory_region list \<Rightarrow> u32 \<Rightarrow> (bool \<times> memory_region list) prog" where
  "free_range order rs a = andthen (free_buffer order rs a) (\<lambda>(res, rs'). ok (res \<noteq> None, rs'))"

lemma blocks_good:
  assumes "region_inv n lo hi r xs fs" and "p \<in> blocks r xs"
  shows "0 < snd p" and "2 ^ n dvd fst p" and "lo \<le> fst p" and "fst p + snd p \<le> hi"
proof -
  from assms obtain x where x: "x \<in> set xs" "is_allocated (all_chunks r x)" "p = (S r x, Z r x)"
    by (auto simp: blocks_def)
  moreover have "x \<in> set (butlast xs)"
  proof -
    have "x \<noteq> last xs" "xs \<noteq> []" using assms(1) x by (auto simp: region_inv_def)
    then show ?thesis using x(1) by (metis append_butlast_last_id in_set_conv_decomp set_ConsD
          rotate1.simps(2) set_rotate1)
  qed
  ultimately show "0 < snd p" "2 ^ n dvd fst p" "lo \<le> fst p" "fst p + snd p \<le> hi"
    using assms(1) region_inv_mem[OF assms(1) x(1)] by (auto simp: region_inv_def)
qed

lemma regions_good: "regions_inv ws rs B \<Longrightarrow> p \<in> B \<Longrightarrow> good_block ws p"
proof (induction ws rs B arbitrary: rule: regions_inv.induct)
  case (2 n lo hi ws r rs B)
  then obtain xs fs B' where *: "region_inv n lo hi r xs fs" "regions_inv ws rs B'"
    "B = blocks r xs \<union> B'" by auto
  show ?case
  proof (cases "p \<in> B'")
    case True
    with 2(1)[OF *(2)] show ?thesis by (auto simp: good_block_def)
  next
    case False
    with 2(3) * blocks_good[OF *(1)] show ?thesis by (auto simp: good_block_def)
  qed
qed auto

lemma blocks_pairwise_apart:
  assumes "region_inv n lo hi r xs fs" and "p \<in> blocks r xs" and "q \<in> blocks r xs" and "p \<noteq> q"
  shows "apart p q"
  using assms(2-4) blocks_apart(1)[OF assms(1)] by (fastforce simp: blocks_def)

lemma windows_apart_blocks:
  assumes "windows_apart ((n, lo, hi) # ws)" and "lo \<le> fst p" and "fst p + snd p \<le> hi"
    and "good_block ws q"
  shows "apart p q" and "0 < snd p \<Longrightarrow> fst p \<noteq> fst q"
  using assms by (fastforce simp: good_block_def apart_def)+

lemma regions_apart:
  "regions_rep ws rs B \<Longrightarrow> p \<in> B \<Longrightarrow> q \<in> B \<Longrightarrow> p \<noteq> q \<Longrightarrow> apart p q"
  unfolding regions_rep_def
proof (induction ws rs B arbitrary: rule: regions_inv.induct)
  case (2 n lo hi ws r rs B)
  then obtain xs fs B' where *: "region_inv n lo hi r xs fs" "regions_inv ws rs B'"
    "B = blocks r xs \<union> B'" by auto
  have sym: "apart a b \<Longrightarrow> apart b a" for a b by (auto simp: apart_def)
  have mixed: "apart a b" if "a \<in> blocks r xs" "b \<in> B'" for a b
    using windows_apart_blocks(1)[of n lo hi ws a b] 2(2) blocks_good[OF *(1) that(1)]
      regions_good[OF *(2) that(2)] by simp
  have "windows_apart ws" using 2(2) by simp
  with 2 * have "p \<in> B' \<Longrightarrow> q \<in> B' \<Longrightarrow> apart p q" by blast
  with 2(3-5) * mixed sym blocks_pairwise_apart[OF *(1)] show ?case by (metis Un_iff)
qed auto

text \<open>Allocation from the first region that has room.\<close>

lemma alloc_range_law:
  "regions_rep ws rs B \<Longrightarrow> fits ws sz \<Longrightarrow> \<exists>res rs'. alloc_range rs sz = ok (res, rs') \<and>
     (case res of None \<Rightarrow> regions_rep ws rs' B
      | Some p \<Rightarrow> regions_rep ws rs' (insert p B) \<and> p \<notin> B \<and> unat sz \<le> snd p)"
  unfolding regions_rep_def
proof (induction ws rs B rule: regions_inv.induct)
  case (1 B)
  then show ?case by (simp add: alloc_range_def)
next
  case (2 n lo hi ws r rs B)
  then obtain xs fs B' where *: "region_inv n lo hi r xs fs" "regions_inv ws rs B'"
    "B = blocks r xs \<union> B'" by auto
  note pre = 2(2)
  have sz: "0 < sz" "hi + 2 ^ n + unat sz \<le> 2 ^ 32" "fits ws sz" using 2(3) by (auto simp: fits_def)
  show ?case
  proof (rule alloc_buffer_from_region_inv[OF *(1) sz(1,2)], goal_cases)
    case 1
    have "windows_apart ws \<and> regions_inv ws rs B'" using pre * by simp
    from 2(1)[OF this sz(3)] obtain res rs' where IH: "alloc_range rs sz = ok (res, rs')"
      "case res of None \<Rightarrow> windows_apart ws \<and> regions_inv ws rs' B'
       | Some p \<Rightarrow> (windows_apart ws \<and> regions_inv ws rs' (insert p B')) \<and> p \<notin> B' \<and> unat sz \<le> snd p"
      by blast
    from IH(1) obtain ic where ic: "alloc_buffer rs sz = ok (ic, rs')"
      "res = map_option (\<lambda>(i, c). (S (rs' ! i) c, Z (rs' ! i) c)) ic"
      by (auto simp: alloc_range_def andthen_eq_ok)
    have eq: "alloc_range (r # rs) sz = ok (res, r # rs')"
      using 1 ic by (cases ic) (auto simp: alloc_range_def)
    show ?case
    proof (cases res)
      case None
      with IH(2) * pre eq show ?thesis by auto
    next
      case (Some p)
      have "p \<notin> blocks r xs"
      proof
        assume "p \<in> blocks r xs"
        note g = blocks_good[OF *(1) this]
        have "good_block ws p" using IH(2) Some regions_good[of ws rs' "insert p B'" p] by simp
        from windows_apart_blocks(2)[OF _ g(3,4) this g(1)] pre show False by blast
      qed
      moreover have "regions_inv ((n, lo, hi) # ws) (r # rs') (insert p B)"
        using IH(2) Some * by auto
      ultimately show ?thesis using eq Some IH(2) * pre by auto
    qed
  next
    case (2 i r' xs' fs')
    let ?p = "(S r' i, Z r' i)"
    have eq: "alloc_range (r # rs) sz = ok (Some ?p, r' # rs)"
      using 2 by (simp add: alloc_range_def)
    have "?p \<in> blocks r' xs'" using 2 by (auto simp: blocks_def)
    note g = blocks_good[OF 2(2) this]
    have "?p \<notin> B'"
      using windows_apart_blocks(2)[of n lo hi ws ?p ?p] g regions_good[OF *(2), of ?p] pre
      by blast
    moreover have "regions_inv ((n, lo, hi) # ws) (r' # rs) (insert ?p B)"
      using 2(2,5) * by auto
    ultimately show ?case using eq 2 * pre by auto
  qed
qed auto

lemma find_unique:
  assumes "x \<in> set xs" and "P x" and u: "\<And>y. y \<in> set xs \<Longrightarrow> P y \<Longrightarrow> y = x"
  shows "find P xs = Some x"
proof (cases "find P xs")
  case None
  then show ?thesis using assms(1,2) by (simp add: find_None_iff)
next
  case (Some y)
  then have "y \<in> set xs" "P y" by (auto simp: find_Some_iff)
  with Some show ?thesis using u by blast
qed

lemma free_range_law:
  "regions_rep ws rs B \<Longrightarrow> (unat a, z) \<in> B \<Longrightarrow>
     \<exists>rs'. free_range order rs a = ok (True, rs') \<and> regions_rep ws rs' (B - {(unat a, z)})"
  unfolding regions_rep_def
proof (induction ws rs B rule: regions_inv.induct)
  case (2 n lo hi ws r rs B)
  then obtain xs fs B' where *: "region_inv n lo hi r xs fs" "regions_inv ws rs B'"
    "B = blocks r xs \<union> B'" by auto
  note fnd = foreach_find_dll[OF region_inv_dlls(1)[OF *(1)], of "\<lambda>c. start_address (all_chunks r c) = a"]
  show ?case
  proof (cases "(unat a, z) \<in> blocks r xs")
    case True
    then obtain x where x: "x \<in> set xs" "is_allocated (all_chunks r x)" "S r x = unat a" "Z r x = z"
      by (auto simp: blocks_def)
    note g = blocks_good[OF *(1) True, unfolded fst_conv snd_conv]
    have "find (\<lambda>c. start_address (all_chunks r c) = a) xs = Some x"
      using x blocks_apart(2)[OF *(1) _ x(1)] by (intro find_unique) (auto simp: word_unat_eq_iff)
    moreover obtain r' xs' fs' where r': "free_and_coalesce order r x = ok r'"
      "region_inv n lo hi r' xs' fs'" "blocks r' xs' = blocks r xs - {(S r x, Z r x)}"
      by (rule free_and_coalesce_inv[OF *(1) x(1,2), of order])
    ultimately have eq: "free_range order (r # rs) a = ok (True, r' # rs)"
      using fnd by (simp add: free_range_def)
    have "(unat a, z) \<notin> B'"
      using windows_apart_blocks(2)[of n lo hi ws "(unat a, z)" "(unat a, z)"] g
        regions_good[OF *(2)] 2(2) by auto
    then have "B - {(unat a, z)} = blocks r' xs' \<union> B'" using r'(3) x * by auto
    with eq r'(2) * 2(2) show ?thesis by auto
  next
    case False
    with 2(3) * have B': "(unat a, z) \<in> B'" by simp
    have none: "find (\<lambda>c. start_address (all_chunks r c) = a) xs = None"
    proof (rule ccontr)
      assume "find (\<lambda>c. start_address (all_chunks r c) = a) xs \<noteq> None"
      then obtain x where x: "x \<in> set xs" "S r x = unat a" by (auto simp: find_None_iff)
      note mx = region_inv_mem[OF *(1) x(1)]
      show False
        using windows_apart_blocks(2)[of n lo hi ws "(S r x, Z r x)" "(unat a, z)"] 2(2) mx x(2)
          regions_good[OF *(2) B'] by simp
    qed
    have "windows_apart ws \<and> regions_inv ws rs B'" using 2(2) * by simp
    from 2(1)[OF this B'] obtain rs' where IH: "free_range order rs a = ok (True, rs')"
      "regions_inv ws rs' (B' - {(unat a, z)})" by blast
    from IH(1) obtain i where "free_buffer order rs a = ok (i, rs')" "i \<noteq> None"
      by (auto simp: free_range_def andthen_eq_ok)
    then have "free_range order (r # rs) a = ok (True, r # rs')"
      using fnd none by (simp add: free_range_def)
    moreover have "B - {(unat a, z)} = blocks r xs \<union> (B' - {(unat a, z)})" using False * by auto
    ultimately show ?thesis using IH(2) *(1) 2(2) by auto
  qed
qed auto

text \<open>The list of regions meets the contract, whichever order the compiler chooses.\<close>

interpretation regions: allocator "regions_rep ws" alloc_range "free_range order" "fits ws" "good_block ws"
  for ws order
  by unfold_locales
    (use regions_apart regions_good alloc_range_law free_range_law in
      \<open>auto simp: good_block_def regions_rep_def\<close>)

end
