(* ===== verification/Bufalloc_Props.thy ===== *)
theory Bufalloc_Props
  imports Bufalloc_Regions
begin

text \<open>
  The properties of the buffer allocator, with concrete runs: what clients may rely on, and
  what goes wrong for requests the code does not check.
\<close>

section \<open>Concrete runs\<close>

definition blank_region :: memory_region where
  "blank_region = \<lparr>all_chunks = (\<lambda>_. \<lparr>start_address = 0, is_allocated = False, chunk_size = 0\<rparr>),
     lks = \<lparr>nxt = (\<lambda>_. None), prv = (\<lambda>_. None)\<rparr>, chunks = None, free_chunks = None, last_chunk = 0,
     strategy = BALLOCS_WASTEFUL, alignment = 0\<rparr>"

datatype region_call = Alloc size_t | Free u32

text \<open>A run of calls on one region: the addresses handed out, and the region at the end.\<close>

fun region_run :: "arg_order \<Rightarrow> region_call list \<Rightarrow> memory_region list \<Rightarrow> (u32 option list \<times> memory_region list) prog" where
  "region_run order [] rs = ok ([], rs)"
| "region_run order (Alloc sz # cs) rs =
     andthen (alloc_buffer rs sz) (\<lambda>(res, rs').
     andthen (region_run order cs rs') (\<lambda>(out, rs'').
     ok (map_option (\<lambda>(i, c). start_address (all_chunks (rs' ! i) c)) res # out, rs'')))"
| "region_run order (Free a # cs) rs =
     andthen (free_buffer order rs a) (\<lambda>(res, rs'). region_run order cs rs')"

definition run_from :: "arg_order \<Rightarrow> u32 \<Rightarrow> size_t \<Rightarrow> region_call list \<Rightarrow> u32 option list prog" where
  "run_from order start sz cs =
     andthen (init_mem_region blank_region start sz) (\<lambda>r.
     andthen (region_run order cs [r]) (\<lambda>(out, rs). ok out))"

lemma run_from_region:
  assumes "0 < sz" and "unat start + unat sz + 64 \<le> 2 ^ 32"
  shows "\<exists>r. init_mem_region blank_region start sz = ok r \<and>
    regions_rep [(6, unat start, unat start + unat sz)] [r] {}"
  by (rule init_mem_region_inv[OF assms, of blank_region]) (auto simp: regions_rep_def)

section \<open>What the clients of the allocator rely on\<close>

text \<open>C9: Any sequence of allocations and frees of held blocks on a list of regions, each request
  positive and small enough that the end of every region, one alignment and the request add up to at most
  \<open>2 ^ 32\<close>, is served
  without a fault, for both orders in which the compiler may evaluate the arguments of the
  coalescing call; the blocks held at the end do not overlap, are not empty, start at an aligned
  address and lie inside one region.\<close>

theorem regions_serve_clients:
  assumes "regions_rep ws rs B" and "\<forall>sz. Request sz \<in> set qs \<longrightarrow> fits ws sz"
  shows "\<exists>rs' B'. serve alloc_range (free_range order) rs B qs = ok (rs', B') \<and> regions_rep ws rs' B'
    \<and> (\<forall>p \<in> B'. \<forall>q \<in> B'. p \<noteq> q \<longrightarrow> apart p q) \<and> (\<forall>p \<in> B'. good_block ws p)"
  using regions.serve_ok[OF assms, of order] regions.rep_apart regions.rep_good by blast

lemma regions_serve_clients_witness:
  "\<exists>r rs' B'. init_mem_region blank_region 4096 8192 = ok r
     \<and> serve alloc_range (free_range Call_first) [r] {} [Request 100, Request 200, Release 4096] = ok (rs', B')
     \<and> regions_rep [(6, 4096, 12288)] rs' B' \<and> (\<forall>p \<in> B'. \<forall>q \<in> B'. p \<noteq> q \<longrightarrow> apart p q)"
proof -
  obtain r where r: "init_mem_region blank_region 4096 8192 = ok r" "regions_rep [(6, 4096, 12288)] [r] {}"
    using run_from_region[of 8192 4096] by auto
  have "\<forall>sz. Request sz \<in> set [Request 100, Request 200, Release 4096] \<longrightarrow> fits [(6, 4096, 12288)] sz"
    by (auto simp: fits_def)
  from regions_serve_clients[OF r(2) this, of Call_first] r(1) show ?thesis by blast
qed

text \<open>C10: One allocation of a positive size in a region returns, if the end of the region, one alignment
  and the size add up to at most \<open>2 ^ 32\<close>. It answers a chunk exactly when some free
  chunk has strictly more room than the request after its start is aligned, where the last chunk of the
  region, which is split, counts only if a spare chunk record is left; the chunk is then new, big enough, aligned and inside
  the region, and the region otherwise keeps its blocks and its invariant.\<close>

theorem alloc_buffer_from_region_block:
  assumes "region_inv n lo hi r xs fs" and "0 < sz" and "hi + 2 ^ n + unat sz \<le> 2 ^ 32"
  shows "\<exists>res r'. alloc_buffer_from_region r sz = ok (res, r') \<and>
    (case res of
       None \<Rightarrow> r' = r \<and> (\<forall>x \<in> set xs. is_allocated (all_chunks r x)
                 \<or> S r x + Z r x \<le> ceil_to n (S r x) + unat sz \<or> (x = last xs \<and> fs = []))
     | Some c \<Rightarrow>
         (\<exists>x \<in> set xs. \<not> is_allocated (all_chunks r x) \<and> ceil_to n (S r x) + unat sz < S r x + Z r x \<and>
            \<not> (x = last xs \<and> fs = []))
         \<and> (\<exists>xs' fs'. region_inv n lo hi r' xs' fs' \<and> blocks r' xs' = insert (S r' c, Z r' c) (blocks r xs))
         \<and> (S r' c, Z r' c) \<notin> blocks r xs \<and> unat sz \<le> Z r' c \<and> 2 ^ n dvd S r' c
         \<and> lo \<le> S r' c \<and> S r' c + Z r' c \<le> hi)"
proof (rule alloc_buffer_from_region_inv[OF assms], goal_cases)
  case 1
  then show ?case using chunk_slack_room(1)[OF assms(1) _ assms(3)] by (force simp: not_less)
next
  case (2 c r' xs' fs')
  have "(S r' c, Z r' c) \<in> blocks r' xs'" using 2 by (auto simp: blocks_def)
  note g = blocks_good[OF 2(2) this, unfolded fst_conv snd_conv]
  show ?case using 2 g chunk_slack_room(1)[OF assms(1) _ assms(3)] by auto
qed

lemma alloc_buffer_from_region_block_witness:
  "\<exists>r res r'. init_mem_region blank_region 4096 8192 = ok r \<and> alloc_buffer_from_region r 100 = ok (res, r')"
proof -
  obtain r where r: "init_mem_region blank_region 4096 8192 = ok r" "region_inv 6 4096 12288 r [0] [1..<64]"
    by (rule init_mem_region_inv[of 8192 4096 blank_region]) auto
  from alloc_buffer_from_region_block[OF r(2), of 100] r(1) show ?thesis by auto
qed

text \<open>C11: Freeing an allocated chunk returns without a fault and takes exactly its block out of
  the set of blocks handed out; if the compiler reads \<open>chunk->next\<close> before it evaluates the inner
  call, no two neighbouring chunks are free afterwards when none were before.\<close>

theorem free_chunk_block:
  assumes "region_inv n lo hi r xs fs" and "k \<in> set xs" and "is_allocated (all_chunks r k)"
  shows "\<exists>r' xs' fs'. free_chunk order r k = ok r' \<and> region_inv n lo hi r' xs' fs'
    \<and> blocks r' xs' = blocks r xs - {(S r k, Z r k)}
    \<and> (order = Next_first \<and> merged r xs \<longrightarrow> merged r' xs')"
  unfolding free_chunk_def
  by (rule free_and_coalesce_inv[OF assms, of order]) blast

lemma free_chunk_block_witness:
  "\<exists>r k r1 r2. init_mem_region blank_region 4096 8192 = ok r \<and> alloc_buffer_from_region r 100 = ok (Some k, r1)
     \<and> free_chunk Next_first r1 k = ok r2"
proof -
  obtain r where r: "init_mem_region blank_region 4096 8192 = ok r" "region_inv 6 4096 12288 r [0] [1..<64]"
    by (rule init_mem_region_inv[of 8192 4096 blank_region]) auto
  show ?thesis
  proof (rule alloc_buffer_from_region_inv[OF r(2), of 100], goal_cases)
    case 3
    moreover have "S r 0 + Z r 0 = 12288" "S r 0 \<le> 4096" "\<not> is_allocated (all_chunks r 0)"
      using r(2) by (auto simp: region_inv_def ceil_to_def)
    ultimately show ?case
      using chunk_slack_room(1)[OF r(2), of 0 100] by (auto simp: ceil_to_def)
  next
    case (4 k r1 xs' fs')
    from free_chunk_block[OF 4(2,3,4), of Next_first] r(1) 4(1) show ?case by blast
  qed auto
qed

lemma all_free_single:
  assumes "merged r xs" and "blocks r xs = {}" and "xs \<noteq> []"
  shows "xs = [last xs]"
proof (cases xs)
  case (Cons x ys)
  with assms(1,2) show ?thesis by (cases ys) (auto simp: merged_def blocks_def)
qed (use assms in simp)

text \<open>C12: When the last block is freed by a compiler that reads \<open>chunk->next\<close> before it evaluates the inner
  call, in a region in which no two neighbouring chunks are free, the whole region is one
  free chunk again: every positive request that is smaller than the aligned region, and for which the
  end of the region, one alignment and the size add up to at most \<open>2 ^ 32\<close>, is granted. In the other
  order of evaluation fragments are left.\<close>

theorem freed_region_is_whole:
  assumes "region_inv n lo hi r xs fs" and "merged r xs" and "k \<in> set xs"
    and "is_allocated (all_chunks r k)" and "blocks r xs = {(S r k, Z r k)}"
    and "0 < sz" and "ceil_to n lo + unat sz < hi" and "hi + 2 ^ n + unat sz \<le> 2 ^ 32"
  shows "\<exists>r' c r''. free_chunk Next_first r k = ok r' \<and> alloc_buffer_from_region r' sz = ok (Some c, r'')"
proof -
  obtain r' xs' fs' where 1: "free_chunk Next_first r k = ok r'" "region_inv n lo hi r' xs' fs'"
    "blocks r' xs' = {}" "merged r' xs'"
    using assms(2,5) by (rule_tac free_and_coalesce_inv[OF assms(1,3,4), of Next_first])
      (auto simp: free_chunk_def)
  define l where "l = last xs'"
  have xs': "xs' = [l]" using all_free_single[OF 1(4,3)] 1(2) by (auto simp: region_inv_def l_def)
  have l: "\<not> is_allocated (all_chunks r' l)" "S r' l + Z r' l = hi" "S r' l \<le> ceil_to n lo"
    using 1(2) by (auto simp: region_inv_def xs')
  have "fs' \<noteq> []"
  proof
    assume "fs' = []"
    with 1(2) have "{l} = {0..<64::nat}" by (simp add: region_inv_def region_lists_def xs')
    then have "card {l} = card {0..<64::nat}" by simp
    then show False by simp
  qed
  moreover have "fst (chunk_slack r' l sz)"
    using chunk_slack_room(1)[OF 1(2) _ assms(8), of l] ceil_to_twice[OF l(3)] l(2) assms(7) by (simp add: xs')
  ultimately show ?thesis
    using l(1) 1(1)
    by (rule_tac alloc_buffer_from_region_inv[OF 1(2) assms(6,8)]) (auto simp: xs')
qed

lemma freed_region_is_whole_witness:
  "\<exists>r k r1 r2 c r3. init_mem_region blank_region 4096 8192 = ok r \<and> alloc_buffer_from_region r 100 = ok (Some k, r1)
     \<and> free_chunk Next_first r1 k = ok r2 \<and> alloc_buffer_from_region r2 8191 = ok (Some c, r3)"
proof -
  obtain r where r: "init_mem_region blank_region 4096 8192 = ok r" "region_inv 6 4096 12288 r [0] [1..<64]"
    "blocks r [0] = {}" "merged r [0]"
    by (rule init_mem_region_inv[of 8192 4096 blank_region]) auto
  show ?thesis
  proof (rule alloc_buffer_from_region_inv[OF r(2), of 100], goal_cases)
    case 3
    moreover have "S r 0 + Z r 0 = 12288" "S r 0 \<le> 4096" "\<not> is_allocated (all_chunks r 0)"
      using r(2) by (auto simp: region_inv_def ceil_to_def)
    ultimately show ?case
      using chunk_slack_room(1)[OF r(2), of 0 100] by (auto simp: ceil_to_def)
  next
    case (4 k r1 xs' fs')
    from freed_region_is_whole[OF 4(2) 4(8)[OF r(4)] 4(3,4), of 8191] 4(5) r(1,3) 4(1)
    show ?case by (auto simp: ceil_to_def)
  qed auto
qed

text \<open>C13: A region initialised over a window of the address space holds no block, is one free
  chunk, and grants a first request exactly when it is strictly smaller than the aligned window:
  a request for the whole window is always refused.\<close>

theorem init_mem_region_empty:
  assumes "0 < rsz" and "0 < sz" and "unat start + unat rsz + 64 + unat sz \<le> 2 ^ 32" and "64 dvd unat start"
  shows "\<exists>r res r'. init_mem_region r0 start rsz = ok r
    \<and> region_inv 6 (unat start) (unat start + unat rsz) r [0] [1..<64] \<and> blocks r [0] = {}
    \<and> alloc_buffer_from_region r sz = ok (res, r') \<and> (res \<noteq> None \<longleftrightarrow> sz < rsz)"
proof -
  have le: "unat start + unat rsz + 64 \<le> 2 ^ 32" using assms(3) by simp
  obtain r where r: "init_mem_region r0 start rsz = ok r"
    "region_inv 6 (unat start) (unat start + unat rsz) r [0] [1..<64]" "blocks r [0] = {}"
    by (rule init_mem_region_inv[OF assms(1) le, of r0])
  have "ceil_to 6 (unat start) = unat start" using assms(4) by (auto simp: ceil_to_def elim!: dvdE)
  then have s: "S r 0 = unat start" "\<not> is_allocated (all_chunks r 0)" "S r 0 + Z r 0 = unat start + unat rsz"
    using r(2) by (auto simp: region_inv_def)
  have sz: "unat start + unat rsz + 2 ^ 6 + unat sz \<le> 2 ^ 32" using assms(3) by simp
  have "fst (chunk_slack r 0 sz) \<longleftrightarrow> unat sz < unat rsz"
    using chunk_slack_room(1)[OF r(2) _ sz, of 0] s \<open>ceil_to 6 (unat start) = unat start\<close> by simp
  then have "\<exists>res r'. alloc_buffer_from_region r sz = ok (res, r') \<and> (res \<noteq> None \<longleftrightarrow> sz < rsz)"
    using s(2) by (rule_tac alloc_buffer_from_region_inv[OF r(2) assms(2) sz]) (auto simp: u32_less_unat)
  with r show ?thesis by blast
qed

lemma init_mem_region_empty_witness:
  "\<exists>r res r'. init_mem_region blank_region 4096 8192 = ok r \<and> alloc_buffer_from_region r 8192 = ok (res, r') \<and> res = None"
  using init_mem_region_empty[of 8192 8192 4096 blank_region] by auto

section \<open>Sub-chunks\<close>

text \<open>A sub-chunk is appended to the list of its parent and refers to a range of the parent.\<close>

lemma create_sub_chunk_appends:
  assumes "dll (sub_links ss) (children ss parent) xs" and "sub \<notin> set xs"
  shows "\<exists>ss'. create_sub_chunk r ss (Some sub) parent off sz = ok (sub, ss')
    \<and> dll (sub_links ss') (children ss' parent) (xs @ [sub])
    \<and> sub_start (sub_info ss' sub) = start_address (all_chunks r parent) + off
    \<and> sub_size (sub_info ss' sub) = sz"
  using dl.append_law[OF assms] by (auto simp: create_sub_chunk_def Let_def)

section \<open>Requests the code does not check\<close>

text \<open>C14: The two evaluation orders of the coalescing call differ: after the same calls, with all
  blocks freed, the whole region is available again in one order, and in the other it stays
  split, and a request for most of it is refused.\<close>

theorem argument_order_matters:
  "run_from Next_first 4096 4096
     [Alloc 100, Alloc 200, Alloc 300, Free 4096, Free 4480, Free 4224, Alloc 4000]
     = ok [Some 4096, Some 4224, Some 4480, Some 4096]
   \<and> run_from Call_first 4096 4096
     [Alloc 100, Alloc 200, Alloc 300, Free 4096, Free 4480, Free 4224, Alloc 4000]
     = ok [Some 4096, Some 4224, Some 4480, None]"
  by code_simp

text \<open>C15: Requests the allocator does not guard against. A size that makes the end address wrap is
  granted in a region of 4096 bytes, and the next block lies below the region; a block of size 0
  swallows the rest of the region when it is freed; a second free of the only block makes the
  next allocation read a null pointer.\<close>

theorem unchecked_requests:
  "run_from order 4096 4096 [Alloc 0xFFFFF800, Alloc 100] = ok [Some 4096, Some 2048]
   \<and> run_from order 4096 4096 [Alloc 0, Free 4096, Alloc 1] = ok [Some 4096, None]
   \<and> run_from order 4096 4096 [Alloc 64, Free 4096, Free 4096, Alloc 1] = throw NullDeref"
  by (cases order; hypsubst; code_simp)

end
