(* ===== verification/Cl_Util.thy ===== *)
theory Cl_Util
  imports Cl_Defs
begin

text \<open>
  The helper functions of \<^verbatim>\<open>lib/CL/pocl_util.c\<close> that check and compute: byte order, rounding to
  a power of two, aligned allocation, and the range checks of buffer transfers. The size of
  \<open>size_t\<close> is that of the target, 32 bits.
\<close>

section \<open>Byte order\<close>

definition byte_of :: "u32 \<Rightarrow> nat \<Rightarrow> byte" where
  "byte_of w i = ucast (drop_bit (8 * i) w)"

definition word_of_bytes :: "byte \<Rightarrow> byte \<Rightarrow> byte \<Rightarrow> byte \<Rightarrow> u32" where
  "word_of_bytes b0 b1 b2 b3 =
     ucast b0 OR push_bit 8 (ucast b1) OR push_bit 16 (ucast b2) OR push_bit 24 (ucast b3)"

definition byteswap_uint32_t :: "u32 \<Rightarrow> bool \<Rightarrow> u32" where
  "byteswap_uint32_t word should_swap =
     (if \<not> should_swap then word
      else word_of_bytes (byte_of word 3) (byte_of word 2) (byte_of word 1) (byte_of word 0))"

section \<open>Rounding up to a power of two\<close>

definition smear :: "nat \<Rightarrow> size_t \<Rightarrow> size_t" where
  "smear k x = x OR drop_bit k x"

definition pocl_size_ceil2 :: "size_t \<Rightarrow> size_t" where
  "pocl_size_ceil2 x = smear 16 (smear 8 (smear 4 (smear 2 (smear 1 (x - 1))))) + 1"

section \<open>Aligned allocation\<close>

text \<open>\<open>memalign\<close> is \<^verbatim>\<open>pocl_memalign_alloc\<close>, which passes the request on to \<open>posix_memalign\<close>.\<close>

definition pocl_aligned_malloc ::
  "(size_t \<Rightarrow> size_t \<Rightarrow> addr) \<Rightarrow> size_t \<Rightarrow> size_t \<Rightarrow> addr" where
  "pocl_aligned_malloc memalign alignment sz =
     (if sz AND (alignment - 1) \<noteq> 0 then NULL
      else let alignment' = (if alignment < 4 then 4 else alignment)
           in memalign alignment' sz)"

section \<open>Range checks of buffer transfers\<close>

definition pocl_buffer_boundcheck :: "cl_mem \<Rightarrow> size_t \<Rightarrow> size_t \<Rightarrow> int" where
  "pocl_buffer_boundcheck buffer offset sz =
     (if offset > mem_size buffer then CL_INVALID_VALUE
      else if sz > mem_size buffer then CL_INVALID_VALUE
      else if offset + sz > mem_size buffer then CL_INVALID_VALUE
      else CL_SUCCESS)"

definition pocl_buffers_boundcheck :: "cl_mem \<Rightarrow> cl_mem \<Rightarrow> size_t \<Rightarrow> size_t \<Rightarrow> size_t \<Rightarrow> int" where
  "pocl_buffers_boundcheck src_buffer dst_buffer src_offset dst_offset sz =
     (if src_offset > mem_size src_buffer then CL_INVALID_VALUE
      else if sz > mem_size src_buffer then CL_INVALID_VALUE
      else if src_offset + sz > mem_size src_buffer then CL_INVALID_VALUE
      else if dst_offset > mem_size dst_buffer then CL_INVALID_VALUE
      else if sz > mem_size dst_buffer then CL_INVALID_VALUE
      else if dst_offset + sz > mem_size dst_buffer then CL_INVALID_VALUE
      else CL_SUCCESS)"

text \<open>
  The result carries the row and slice pitch, which the function writes back once both have
  passed their checks. \<open>sp % rp\<close> divides by zero when the row pitch is 0.
\<close>

definition pocl_buffer_boundcheck_3d ::
  "size_t \<Rightarrow> vec3 \<Rightarrow> vec3 \<Rightarrow> size_t \<Rightarrow> size_t \<Rightarrow> (int \<times> size_t \<times> size_t) prog" where
  "pocl_buffer_boundcheck_3d buffer_size origin region row_pitch slice_pitch =
     (let (o0, o1, o2) = origin; (r0, r1, r2) = region; rp = row_pitch; sp = slice_pitch
      in if rp \<noteq> 0 \<and> rp < r0 then ok (CL_INVALID_VALUE, row_pitch, slice_pitch)
         else let rp = (if rp = 0 then r0 else rp)
           in if sp \<noteq> 0 \<and> sp < r1 * rp then ok (CL_INVALID_VALUE, row_pitch, slice_pitch)
              else if sp \<noteq> 0 \<and> rp = 0 then throw DivByZero
              else if sp \<noteq> 0 \<and> sp mod rp \<noteq> 0 then ok (CL_INVALID_VALUE, row_pitch, slice_pitch)
              else let sp = (if sp = 0 then r1 * rp else sp);
                       byte_offset_begin = o2 * sp + o1 * rp + o0;
                       byte_offset_end = o0 + r0 - 1 + rp * (o1 + r1 - 1) + sp * (o2 + r2 - 1)
                in if byte_offset_begin > buffer_size then ok (CL_INVALID_VALUE, rp, sp)
                   else if byte_offset_end > buffer_size then ok (CL_INVALID_VALUE, rp, sp)
                   else ok (CL_SUCCESS, rp, sp))"

definition offsets_overlap :: "size_t \<Rightarrow> size_t \<Rightarrow> size_t \<Rightarrow> bool" where
  "offsets_overlap src_offset dst_offset sz \<longleftrightarrow>
     src_offset \<le> dst_offset \<and> dst_offset \<le> src_offset + sz - 1 \<or>
     dst_offset \<le> src_offset \<and> src_offset \<le> dst_offset + sz - 1"

text \<open>\<open>mems\<close> holds the buffer objects; a \<open>cl_mem\<close> pointer is the number of its object.\<close>

definition pocl_buffers_overlap ::
  "(nat \<Rightarrow> cl_mem) \<Rightarrow> nat \<Rightarrow> nat \<Rightarrow> size_t \<Rightarrow> size_t \<Rightarrow> size_t \<Rightarrow> int" where
  "pocl_buffers_overlap mems src_buffer dst_buffer src_offset dst_offset sz =
     (if src_buffer = dst_buffer \<and> offsets_overlap src_offset dst_offset sz then CL_MEM_COPY_OVERLAP
      else case (parent (mems src_buffer), parent (mems dst_buffer)) of
        (Some p, Some q) \<Rightarrow>
          if p = q \<and> offsets_overlap
               (mem_host_ptr (mems src_buffer) - mem_host_ptr (mems p) + src_offset)
               (mem_host_ptr (mems dst_buffer) - mem_host_ptr (mems q) + dst_offset) sz
          then CL_MEM_COPY_OVERLAP else CL_SUCCESS
      | _ \<Rightarrow> CL_SUCCESS)"

text \<open>How far a range of rows of one pitch runs over its end.\<close>

definition overrun :: "size_t \<Rightarrow> size_t \<Rightarrow> size_t \<Rightarrow> size_t" where
  "overrun offset region pitch = (if offset + region > pitch then offset + region - pitch else 0)"

definition check_copy_overlap :: "vec3 \<Rightarrow> vec3 \<Rightarrow> vec3 \<Rightarrow> size_t \<Rightarrow> size_t \<Rightarrow> bool prog" where
  "check_copy_overlap src_offset dst_offset region row_pitch slice_pitch =
     (let (s0, s1, s2) = src_offset; (d0, d1, d2) = dst_offset; (r0, r1, r2) = region;
          overlap = (s0 < d0 + r0 \<and> s0 + r0 > d0) \<and> (s1 < d1 + r1 \<and> s1 + r1 > d1)
            \<and> (s2 < d2 + r2 \<and> s2 + r2 > d2);
          dst_start = d2 * slice_pitch + d1 * row_pitch + d0;
          dst_end = dst_start + (r2 * slice_pitch + r1 * row_pitch + r0);
          src_start = s2 * slice_pitch + s1 * row_pitch + s0;
          src_end = src_start + (r2 * slice_pitch + r1 * row_pitch + r0);
          linear = (src_start \<le> dst_start \<and> dst_start < src_end \<or>
                    dst_start \<le> src_start \<and> src_start < dst_end)
      in if overlap then ok True
         else let delta_src_x = overrun s0 r0 row_pitch;
                  delta_dst_x = overrun d0 r0 row_pitch;
                  overlap1 = ((delta_src_x > 0 \<and> delta_src_x > d0 \<or> delta_dst_x > 0 \<and> delta_dst_x > s0)
                    \<and> linear)
           in if r2 > 1
              then if row_pitch = 0 then throw DivByZero
                   else let src_height = slice_pitch div row_pitch;
                            dst_height = slice_pitch div row_pitch;
                            delta_src_y = overrun s1 r1 src_height;
                            delta_dst_y = overrun d1 r1 dst_height
                        in ok (overlap1 \<or> (delta_src_y > 0 \<and> delta_src_y > d1
                                  \<or> delta_dst_y > 0 \<and> delta_dst_y > s1) \<and> linear)
              else ok overlap1)"

section \<open>Byte order: what it computes\<close>

lemma byte_of_bit: "bit (byte_of w i) n \<longleftrightarrow> n < 8 \<and> bit w (8 * i + n)"
  by (simp add: byte_of_def bit_ucast_iff bit_drop_bit_eq)

lemma byte_of_word_of_bytes:
  "byte_of (word_of_bytes b0 b1 b2 b3) 0 = b0" "byte_of (word_of_bytes b0 b1 b2 b3) 1 = b1"
  "byte_of (word_of_bytes b0 b1 b2 b3) 2 = b2" "byte_of (word_of_bytes b0 b1 b2 b3) 3 = b3"
  by (rule bit_word_eqI; auto simp: byte_of_bit word_of_bytes_def bit_or_iff bit_push_bit_iff bit_ucast_iff
      dest: bit_imp_le_length)+

lemma word_of_bytes_of: "word_of_bytes (byte_of w 0) (byte_of w 1) (byte_of w 2) (byte_of w 3) = w"
proof (rule bit_word_eqI)
  fix n assume "n < LENGTH(32)"
  then consider "n < 8" | "8 \<le> n" "n < 16" | "16 \<le> n" "n < 24" | "24 \<le> n" "n < 32"
    by fastforce
  then show "bit (word_of_bytes (byte_of w 0) (byte_of w 1) (byte_of w 2) (byte_of w 3)) n = bit w n"
    by cases (auto simp: word_of_bytes_def bit_or_iff bit_push_bit_iff bit_ucast_iff byte_of_bit)
qed

section \<open>Rounding: what it computes\<close>

lemma bit_smear:
  assumes "\<And>i. bit y i \<longleftrightarrow> (\<exists>j. i \<le> j \<and> j < i + k \<and> bit x j)"
  shows "bit (smear k y) i \<longleftrightarrow> (\<exists>j. i \<le> j \<and> j < i + (k + k) \<and> bit x j)"
proof -
  have "bit (smear k y) i \<longleftrightarrow> (\<exists>j. i \<le> j \<and> j < i + k \<and> bit x j) \<or> (\<exists>j. i + k \<le> j \<and> j < i + k + k \<and> bit x j)"
    by (simp add: smear_def bit_or_iff bit_drop_bit_eq assms add.commute)
  moreover have "i \<le> j \<and> j < i + (k + k) \<longleftrightarrow> (i \<le> j \<and> j < i + k) \<or> (i + k \<le> j \<and> j < i + k + k)" for j
    by arith
  ultimately show ?thesis by (simp only: conj_assoc[symmetric] conj_disj_distribR ex_disj_distrib)
qed

lemma smear_all:
  "bit (smear 16 (smear 8 (smear 4 (smear 2 (smear 1 x))))) i \<longleftrightarrow> (\<exists>j\<ge>i. bit (x :: size_t) j)"
proof -
  have 0: "bit x i \<longleftrightarrow> (\<exists>j. i \<le> j \<and> j < i + 1 \<and> bit x j)" for i
    by (metis less_add_one less_Suc_eq_le Suc_eq_plus1 antisym order_refl)
  note 1 = bit_smear[of x 1 x, OF 0]
  note 2 = bit_smear[of _ "1 + 1" x, OF 1]
  note 4 = bit_smear[of _ "1 + 1 + (1 + 1)" x, OF 2]
  note 8 = bit_smear[OF 4]
  note 16 = bit_smear[OF 8]
  have "j < i + 32" if "bit x j" for j using bit_imp_le_length[OF that] by simp
  with 16[of i] show ?thesis by (auto simp: numeral_eq_Suc)
qed

text \<open>The bits below the highest set bit of \<open>x\<close>, as a mask.\<close>

lemma smear_mask:
  fixes x :: size_t
  assumes "unat x < 2 ^ n" and "0 < n \<Longrightarrow> 2 ^ (n - 1) \<le> unat x" and "n \<le> 32"
  shows "smear 16 (smear 8 (smear 4 (smear 2 (smear 1 x)))) = mask n"
proof (rule bit_word_eqI)
  fix i assume i: "i < LENGTH(32)"
  have hi: "\<not> bit x j" if "n \<le> j" for j
  proof
    assume "bit x j"
    then have "bit (unat x) j" by (simp add: bit_unsigned_iff)
    then have "2 ^ j \<le> unat x" by (metis bit_nat_def div_less even_zero not_le)
    moreover have "(2::nat) ^ n \<le> 2 ^ j" using that by simp
    ultimately show False using assms(1) by linarith
  qed
  have lo: "bit x (n - 1)" if "0 < n"
  proof -
    have "unat x div 2 ^ (n - 1) = 1"
      by (rule div_nat_eqI) (use assms(1,2) that in \<open>cases n; simp\<close>)+
    then have "bit (unat x) (n - 1)" by (simp add: bit_nat_def)
    then show ?thesis by (simp add: bit_unsigned_iff)
  qed
  have "(\<exists>j\<ge>i. bit x j) \<longleftrightarrow> i < n"
  proof
    assume "\<exists>j\<ge>i. bit x j"
    then show "i < n" using hi by (meson not_le le_trans)
  next
    assume "i < n"
    then have "i \<le> n - 1" "0 < n" by auto
    with lo show "\<exists>j\<ge>i. bit x j" by blast
  qed
  then show "bit (smear 16 (smear 8 (smear 4 (smear 2 (smear 1 x))))) i = bit (mask n :: size_t) i"
    unfolding smear_all using i by (simp add: bit_mask_iff)
qed

end
