(* ===== verification/Cl_Util_Props.thy ===== *)
theory Cl_Util_Props
  imports Cl_Util
begin

text \<open>
  What the helpers of \<^verbatim>\<open>lib/CL/pocl_util.c\<close> compute, stated on the values of the words, and
  the inputs for which the checks of buffer transfers miss an access outside the buffer or an
  overlap.
\<close>

text \<open>A buffer of a given size, for the examples.\<close>

definition sample_buffer :: "size_t \<Rightarrow> addr \<Rightarrow> nat option \<Rightarrow> cl_mem" where
  "sample_buffer sz host p = \<lparr>mem_refcount = 1, mem_type = CL_MEM_OBJECT_BUFFER, mem_flags = 1, mem_size = sz,
     mem_host_ptr = host, map_count = 0, mem_context = 0, device_ptrs = (\<lambda>_. 0), mappings = None, parent = p\<rparr>"

section \<open>Byte order and rounding\<close>

text \<open>C21: With \<open>should_swap\<close> the four bytes of a word are reversed, without it the word is
  unchanged, and in both cases a second call restores the word.\<close>

theorem byteswap_reverses:
  "byteswap_uint32_t (byteswap_uint32_t w s) s = w \<and> byteswap_uint32_t w False = w
   \<and> map (byte_of (byteswap_uint32_t w True)) [0, 1, 2, 3] = rev (map (byte_of w) [0, 1, 2, 3])"
  using word_of_bytes_of[of w]
  by (cases s) (simp_all add: byteswap_uint32_t_def byte_of_word_of_bytes[simplified])

lemma bit_length:
  "\<exists>n. x < 2 ^ n \<and> (0 < n \<longrightarrow> 2 ^ (n - 1) \<le> (x :: nat))"
proof -
  define n where "n = (LEAST n. x < 2 ^ n)"
  have "x < 2 ^ x" by (rule less_exp)
  then have "x < 2 ^ n" unfolding n_def by (rule LeastI)
  moreover have "2 ^ (n - 1) \<le> x" if "0 < n"
  proof -
    from that have "n - 1 < n" by simp
    then show ?thesis unfolding n_def by (metis not_less not_less_Least)
  qed
  ultimately show ?thesis by blast
qed

text \<open>Rounding up gives the power that bounds the predecessor of the argument.\<close>

lemma ceil2_power:
  obtains n where "unat (x - 1) < 2 ^ n" and "0 < n \<longrightarrow> 2 ^ (n - 1) \<le> unat (x - 1)" and "n \<le> 32"
    and "pocl_size_ceil2 x = of_nat (2 ^ n)"
proof -
  obtain n where n: "unat (x - 1) < 2 ^ n" "0 < n \<Longrightarrow> 2 ^ (n - 1) \<le> unat (x - 1)"
    using bit_length by blast
  have n32: "n \<le> 32"
  proof (rule ccontr)
    assume "\<not> n \<le> 32"
    then have "(2::nat) ^ 32 \<le> 2 ^ (n - 1)" by (intro power_increasing) auto
    moreover have "2 ^ (n - 1) \<le> unat (x - 1)" using n(2) \<open>\<not> n \<le> 32\<close> by simp
    ultimately have "2 ^ 32 \<le> unat (x - 1)" by (rule le_trans)
    then have "(4294967296::nat) \<le> unat (x - 1)" by simp
    then show False using unat_lt32[of "x - 1"] by linarith
  qed
  have "pocl_size_ceil2 x = mask n + 1"
    unfolding pocl_size_ceil2_def by (subst smear_mask[OF n n32]) simp_all
  then have "pocl_size_ceil2 x = of_nat (2 ^ n)" by (simp add: mask_eq_exp_minus_1)
  with n n32 show thesis by (intro that) auto
qed

text \<open>C20: \<open>pocl_size_ceil2\<close> answers the least power of two that is at least its argument, for all
  arguments up to \<open>2 ^ 31\<close>; for 0 and for larger arguments the answer wraps to 0.\<close>

theorem pocl_size_ceil2_least:
  "unat (pocl_size_ceil2 x) =
     (if x = 0 \<or> 2 ^ 31 < unat x then 0 else (LEAST p. unat x \<le> p \<and> (\<exists>n. p = 2 ^ n)))"
proof -
  obtain n where n: "unat (x - 1) < 2 ^ n" "0 < n \<longrightarrow> 2 ^ (n - 1) \<le> unat (x - 1)" and n32: "n \<le> 32"
    and c: "pocl_size_ceil2 x = of_nat (2 ^ n)" by (rule ceil2_power[of x])
  show ?thesis
  proof (cases "x = 0 \<or> 2 ^ 31 < unat x")
    case True
    have "2 ^ 31 \<le> unat (x - 1)"
    proof (cases "x = 0")
      case True
      have "(- 1 :: u32) = 0xFFFFFFFF" by simp
      then have "unat (- 1 :: u32) = 0xFFFFFFFF" by (simp only: unat_numeral) simp
      with True show ?thesis by simp
    next
      case False
      then have "unat (x - 1) = unat x - 1" by (subst unat_sub_no_wrap) (simp_all add: Suc_le_eq unat_gt_0)
      with True False show ?thesis by simp
    qed
    with n(1) have "(2::nat) ^ 31 < 2 ^ n" by linarith
    then have "31 < n" by (subst (asm) power_strict_increasing_iff) auto
    with n32 have "n = 32" by simp
    with True show ?thesis unfolding c by simp
  next
    case False
    then have y: "unat (x - 1) = unat x - 1" "0 < unat x"
      by (subst unat_sub_no_wrap, simp_all add: Suc_le_eq unat_gt_0)
    have "n \<le> 31"
    proof (rule ccontr)
      assume "\<not> n \<le> 31"
      with n32 have "n = 32" by simp
      with n(2) y have "2147483648 \<le> unat x - 1" by simp
      moreover have "unat x \<le> 2147483648" using False by simp
      ultimately show False using y(2) by linarith
    qed
    then have "(2::nat) ^ n \<le> 2 ^ 31" by (intro power_increasing) auto
    then have u: "unat (pocl_size_ceil2 x) = 2 ^ n" unfolding c by (intro unat_eqI) auto
    have "(LEAST p. unat x \<le> p \<and> (\<exists>n. p = 2 ^ n)) = 2 ^ n"
    proof (rule Least_equality)
      show "unat x \<le> 2 ^ n \<and> (\<exists>k. 2 ^ n = 2 ^ k)" using n(1) y by auto
    next
      fix p assume "unat x \<le> p \<and> (\<exists>n. p = 2 ^ n)"
      then obtain k where k: "unat x \<le> 2 ^ k" "p = 2 ^ k" by blast
      show "2 ^ n \<le> p"
      proof (cases "n = 0")
        case False
        with n(2) y(1) have "2 ^ (n - 1) \<le> unat x - 1" by simp
        with y(2) k(1) have "(2::nat) ^ (n - 1) < 2 ^ k" by linarith
        then have "n - 1 < k" by (subst (asm) power_strict_increasing_iff) auto
        then show ?thesis unfolding k(2) by (intro power_increasing) auto
      qed (simp add: k(2))
    qed
    with False u show ?thesis by simp
  qed
qed

section \<open>Aligned allocation\<close>

text \<open>C22: For a power of two as alignment, a request is passed on exactly when its size is a
  multiple of the alignment, with an alignment of at least the size of a pointer; any other
  request answers null without an allocation.\<close>

theorem pocl_aligned_malloc_multiple:
  assumes "alignment = 2 ^ n" and "n < 32"
  shows "pocl_aligned_malloc memalign alignment sz =
    (if 2 ^ n dvd unat sz then memalign (if n < 2 then 4 else alignment) sz else NULL)"
proof -
  have p: "(2 ^ n :: nat) < 2 ^ 32" using assms(2) by (intro power_strict_increasing) auto
  have m: "alignment - 1 = mask n" using assms(1) by (simp add: mask_eq_exp_minus_1)
  have u: "unat alignment = 2 ^ n"
    using unat_of_nat[of "2 ^ n", where ?'a = 32] p by (simp add: assms(1))
  have "sz AND mask n = 0 \<longleftrightarrow> 2 ^ n dvd unat sz"
    using and_mask_unat[of sz n] by (simp add: unat_eq_0[symmetric] dvd_eq_mod_eq_0)
  moreover have "alignment < 4 \<longleftrightarrow> n < 2"
  proof -
    have "alignment < 4 \<longleftrightarrow> (2::nat) ^ n < 2 ^ 2" by (simp add: u32_less_unat u)
    also have "\<dots> \<longleftrightarrow> n < 2" by (subst power_strict_increasing_iff) auto
    finally show ?thesis .
  qed
  ultimately show ?thesis by (simp add: pocl_aligned_malloc_def m)
qed

lemma pocl_aligned_malloc_multiple_witness:
  "pocl_aligned_malloc (\<lambda>al sz. al + sz) 128 256 = 384 \<and> pocl_aligned_malloc (\<lambda>al sz. al + sz) 128 200 = NULL"
  using pocl_aligned_malloc_multiple[of 128 7 "\<lambda>al sz. al + sz" 256]
    pocl_aligned_malloc_multiple[of 128 7 "\<lambda>al sz. al + sz" 200] by simp

section \<open>Range checks of buffer transfers\<close>

text \<open>C16: For buffers smaller than 2 GiB the check of one range, and the check of a pair of
  ranges, succeed exactly when the ranges lie inside their buffers.\<close>

theorem boundcheck_inside:
  assumes "unat (mem_size src) < 2 ^ 31" and "unat (mem_size dst) < 2 ^ 31"
  shows "(pocl_buffer_boundcheck dst offset sz = CL_SUCCESS \<longleftrightarrow> unat offset + unat sz \<le> unat (mem_size dst))
    \<and> (pocl_buffers_boundcheck src dst src_offset dst_offset sz = CL_SUCCESS \<longleftrightarrow>
         unat src_offset + unat sz \<le> unat (mem_size src) \<and> unat dst_offset + unat sz \<le> unat (mem_size dst))"
proof -
  have one: "a \<le> mem_size b \<and> sz \<le> mem_size b \<and> a + sz \<le> mem_size b \<longleftrightarrow> unat a + unat sz \<le> unat (mem_size b)"
    if "unat (mem_size b) < 2 ^ 31" for a and b :: cl_mem
  proof (cases "a \<le> mem_size b \<and> sz \<le> mem_size b")
    case True
    then have "unat (a + sz) = unat a + unat sz"
      using that by (intro unat_add_no_wrap) (simp add: u32_le_unat)
    with True show ?thesis by (simp add: u32_le_unat)
  next
    case False
    then show ?thesis by (auto simp: u32_le_unat)
  qed
  have "pocl_buffer_boundcheck dst offset sz = CL_SUCCESS \<longleftrightarrow>
      offset \<le> mem_size dst \<and> sz \<le> mem_size dst \<and> offset + sz \<le> mem_size dst"
    by (auto simp: pocl_buffer_boundcheck_def)
  moreover have "pocl_buffers_boundcheck src dst src_offset dst_offset sz = CL_SUCCESS \<longleftrightarrow>
      (src_offset \<le> mem_size src \<and> sz \<le> mem_size src \<and> src_offset + sz \<le> mem_size src) \<and>
      (dst_offset \<le> mem_size dst \<and> sz \<le> mem_size dst \<and> dst_offset + sz \<le> mem_size dst)"
    by (auto simp: pocl_buffers_boundcheck_def)
  ultimately show ?thesis
    by (simp only: one[OF assms(1)] one[OF assms(2)])
qed

lemma boundcheck_inside_witness:
  "pocl_buffer_boundcheck (sample_buffer 64 0 None) 32 32 = CL_SUCCESS
   \<and> pocl_buffer_boundcheck (sample_buffer 64 0 None) 33 32 \<noteq> CL_SUCCESS"
  using boundcheck_inside[of "sample_buffer 64 0 None"
      "sample_buffer 64 0 None" 32 32 0 0]
    boundcheck_inside[of "sample_buffer 64 0 None"
      "sample_buffer 64 0 None" 33 32 0 0]
  by (simp add: sample_buffer_def)

text \<open>The last byte that a box of \<open>region\<close> at \<open>origin\<close> touches.\<close>

fun last_byte :: "vec3 \<Rightarrow> vec3 \<Rightarrow> nat \<Rightarrow> nat \<Rightarrow> nat" where
  "last_byte (o0, o1, o2) (r0, r1, r2) rp sp =
     unat o0 + unat r0 - 1 + rp * (unat o1 + unat r1 - 1) + sp * (unat o2 + unat r2 - 1)"

text \<open>The check, with the pitches it assumes and the values of its words.\<close>

lemma boundcheck_3d_eq:
  assumes "0 < r0" and "0 < r1" and "0 < r2"
    and rp: "rp = (if row_pitch = 0 then r0 else row_pitch)"
    and sp: "sp = (if slice_pitch = 0 then r1 * rp else slice_pitch)"
    and "unat r1 * unat rp < 2 ^ 32"
    and lb: "last_byte (o0, o1, o2) (r0, r1, r2) (unat rp) (unat sp) < 2 ^ 32"
  shows "pocl_buffer_boundcheck_3d bsize (o0, o1, o2) (r0, r1, r2) row_pitch slice_pitch =
    (if \<not> r0 \<le> rp then ok (CL_INVALID_VALUE, row_pitch, slice_pitch)
     else if \<not> unat r1 * unat rp \<le> unat sp then ok (CL_INVALID_VALUE, row_pitch, slice_pitch)
     else if slice_pitch \<noteq> 0 \<and> \<not> unat rp dvd unat sp then ok (CL_INVALID_VALUE, row_pitch, slice_pitch)
     else if unat bsize < last_byte (o0, o1, o2) (r0, r1, r2) (unat rp) (unat sp) then ok (CL_INVALID_VALUE, rp, sp)
     else ok (CL_SUCCESS, rp, sp))"
proof -
  let ?L = "last_byte (o0, o1, o2) (r0, r1, r2) (unat rp) (unat sp)"
  have pos: "1 \<le> unat r0" "1 \<le> unat r1" "1 \<le> unat r2"
    using assms(1-3) by (auto simp: Suc_le_eq unat_gt_0)
  have rp0: "rp \<noteq> 0" using rp assms(1) by auto
  have mul: "unat (r1 * rp) = unat r1 * unat rp"
    using assms(6) by (intro unat_eqI) simp_all
  define e where "e = o0 + r0 - 1 + rp * (o1 + r1 - 1) + sp * (o2 + r2 - 1)"
  define b where "b = o2 * sp + o1 * rp + o0"
  have "e = of_nat ?L" using pos by (simp add: e_def of_nat_diff)
  then have e: "unat e = ?L" using lb by (rule unat_eqI)
  let ?B = "unat o2 * unat sp + unat o1 * unat rp + unat o0"
  have BL: "?B \<le> ?L"
  proof -
    have "unat o2 \<le> unat o2 + unat r2 - 1" "unat o1 \<le> unat o1 + unat r1 - 1"
      using pos by linarith+
    then have "unat sp * unat o2 \<le> unat sp * (unat o2 + unat r2 - 1)"
      "unat rp * unat o1 \<le> unat rp * (unat o1 + unat r1 - 1)"
      by (intro mult_left_mono, simp_all)+
    then have "unat o2 * unat sp \<le> unat sp * (unat o2 + unat r2 - 1)"
      "unat o1 * unat rp \<le> unat rp * (unat o1 + unat r1 - 1)"
      by (simp_all only: mult.commute)
    moreover have "unat o0 \<le> unat o0 + unat r0 - 1" using pos(1) by linarith
    ultimately show ?thesis unfolding last_byte.simps by linarith
  qed
  have "b = of_nat ?B" by (simp add: b_def)
  then have b: "unat b = ?B" using BL lb by (intro unat_eqI) auto
  have dvd: "sp mod rp = 0 \<longleftrightarrow> unat rp dvd unat sp"
    by (simp add: unat_eq_0[symmetric] unat_mod_distrib dvd_eq_mod_eq_0 del: unsigned_eq_0_iff)
  have rp': "row_pitch \<noteq> 0 \<and> row_pitch < r0 \<longleftrightarrow> \<not> r0 \<le> rp" using rp by auto
  have sp': "slice_pitch \<noteq> 0 \<and> slice_pitch < r1 * rp \<longleftrightarrow> \<not> unat r1 * unat rp \<le> unat sp"
    using sp mul by (auto simp: u32_less_unat not_less)
  have nb: "\<not> bsize < b" if "\<not> bsize < e" using that b e BL by (auto simp: u32_less_unat)
  have "pocl_buffer_boundcheck_3d bsize (o0, o1, o2) (r0, r1, r2) row_pitch slice_pitch =
      (if row_pitch \<noteq> 0 \<and> row_pitch < r0 then ok (CL_INVALID_VALUE, row_pitch, slice_pitch)
       else if slice_pitch \<noteq> 0 \<and> slice_pitch < r1 * rp then ok (CL_INVALID_VALUE, row_pitch, slice_pitch)
       else if slice_pitch \<noteq> 0 \<and> sp mod rp \<noteq> 0 then ok (CL_INVALID_VALUE, row_pitch, slice_pitch)
       else if bsize < e then ok (CL_INVALID_VALUE, rp, sp) else ok (CL_SUCCESS, rp, sp))"
    unfolding pocl_buffer_boundcheck_3d_def Let_def prod.case rp[symmetric] sp[symmetric]
      e_def[symmetric] b_def[symmetric]
    using rp0 nb by (simp add: sp)
  then show ?thesis
    unfolding rp' sp' dvd e[symmetric] by (simp add: u32_less_unat)
qed

text \<open>C17: For a region without empty dimensions whose rows, slices and last byte do not wrap (the number
  of rows times the row pitch and the offset of the last byte are below \<open>2 ^ 32\<close>), the check of a
  rectangular transfer does not fault and succeeds exactly when the pitches are valid and the last
  byte touched is at most the size of the buffer: one more than the buffer holds. Without these
  hypotheses it does neither: see \<open>boundcheck_3d_wraps\<close>.\<close>

theorem boundcheck_3d_last_byte:
  assumes "0 < r0" and "0 < r1" and "0 < r2"
    and rp: "rp = (if row_pitch = 0 then r0 else row_pitch)"
    and sp: "sp = (if slice_pitch = 0 then r1 * rp else slice_pitch)"
    and "unat r1 * unat rp < 2 ^ 32"
    and lb: "last_byte (o0, o1, o2) (r0, r1, r2) (unat rp) (unat sp) < 2 ^ 32"
  shows "\<exists>e rp' sp'. pocl_buffer_boundcheck_3d bsize (o0, o1, o2) (r0, r1, r2) row_pitch slice_pitch
      = ok (e, rp', sp')
    \<and> (e = CL_SUCCESS \<longleftrightarrow> r0 \<le> rp \<and> unat r1 * unat rp \<le> unat sp
         \<and> (slice_pitch = 0 \<or> unat rp dvd unat sp)
         \<and> last_byte (o0, o1, o2) (r0, r1, r2) (unat rp) (unat sp) \<le> unat bsize)"
  using boundcheck_3d_eq[OF assms, of bsize] by auto

lemma boundcheck_3d_last_byte_witness:
  "\<exists>e rp' sp'. pocl_buffer_boundcheck_3d 64 (0, 0, 0) (4, 2, 2) 8 0 = ok (e, rp', sp') \<and> e = CL_SUCCESS"
  using boundcheck_3d_last_byte[of 4 2 2 8 8 16 0 0 0 0 64] by simp

text \<open>
  Note: Three rows of one byte with a row pitch of 2 GiB pass the check of a buffer of 16 bytes, because
  the slice and the last byte wrap; and an empty row with a slice pitch divides by zero.
\<close>

theorem boundcheck_3d_wraps:
  "pocl_buffer_boundcheck_3d 16 (0, 0, 0) (1, 3, 1) 0x80000000 0 = ok (CL_SUCCESS, 0x80000000, 0x80000000)
   \<and> pocl_buffer_boundcheck_3d 16 (0, 0, 0) (0, 1, 1) 0 4 = throw DivByZero"
  by code_simp

text \<open>C23: The rectangular check lets a transfer of 4 bytes through to a buffer of 3, and the linear
  checks let a range of 2 GiB at offset 2 GiB through to a buffer of 3 GiB, because the sum wraps.\<close>

theorem boundcheck_misses:
  "pocl_buffer_boundcheck_3d 3 (0, 0, 0) (4, 1, 1) 0 0 = ok (CL_SUCCESS, 4, 4)
   \<and> pocl_buffer_boundcheck (sample_buffer 0xC0000000 0 None) 0x80000000 0x80000000
       = CL_SUCCESS"
  by code_simp

section \<open>Overlapping copies\<close>

text \<open>Where an offset of a buffer lies in the memory of its root buffer.\<close>

definition root_offset :: "(nat \<Rightarrow> cl_mem) \<Rightarrow> nat \<Rightarrow> size_t \<Rightarrow> nat" where
  "root_offset mems i offset =
     (case parent (mems i) of
        None \<Rightarrow> unat offset
      | Some p \<Rightarrow> unat (mem_host_ptr (mems i) - mem_host_ptr (mems p)) + unat offset)"

lemma ranges_meet:
  "{a..<a + r} \<inter> {b..<b + r} \<noteq> {} \<longleftrightarrow> 0 < r \<and> a < b + r \<and> b < a + (r :: nat)"
  by (auto simp: disjoint_iff intro: exI[of _ "max a b"])

lemma offsets_overlap_ranges:
  assumes "0 < sz" and "unat a + unat sz \<le> 2 ^ 32" and "unat b + unat sz \<le> 2 ^ 32"
  shows "offsets_overlap a b sz \<longleftrightarrow> {unat a..<unat a + unat sz} \<inter> {unat b..<unat b + unat sz} \<noteq> {}"
proof -
  have p: "0 < unat sz" using assms(1) by (simp add: unat_gt_0)
  have e: "unat (x + sz - 1) = unat x + unat sz - 1" if "unat x + unat sz \<le> 2 ^ 32" for x
  proof (rule unat_eqI)
    show "x + sz - 1 = of_nat (unat x + unat sz - 1)" using p by (simp add: of_nat_diff Suc_le_eq)
    show "unat x + unat sz - 1 < 2 ^ 32" using p that by linarith
  qed
  show ?thesis
    unfolding ranges_meet using p by (auto simp: offsets_overlap_def u32_le_unat e[OF assms(2)] e[OF assms(3)])
qed

text \<open>C19: A copy within one buffer, or between two sub-buffers of one parent, is refused exactly
  when the two ranges meet in the memory of the root buffer.\<close>

theorem pocl_buffers_overlap_ranges:
  assumes "src = dst \<or> parent (mems src) \<noteq> None \<and> parent (mems src) = parent (mems dst)"
    and "0 < sz" and "root_offset mems src soff + unat sz \<le> 2 ^ 32"
    and "root_offset mems dst doff + unat sz \<le> 2 ^ 32"
  shows "pocl_buffers_overlap mems src dst soff doff sz =
    (if {root_offset mems src soff..<root_offset mems src soff + unat sz}
          \<inter> {root_offset mems dst doff..<root_offset mems dst doff + unat sz} \<noteq> {}
     then CL_MEM_COPY_OVERLAP else CL_SUCCESS)"
proof -
  have root: "unat (mem_host_ptr (mems i) - mem_host_ptr (mems p) + off) = root_offset mems i off"
    if "parent (mems i) = Some p" "root_offset mems i off + unat sz \<le> 2 ^ 32" for i p off
  proof -
    have "0 < unat sz" using assms(2) by (simp add: unat_gt_0)
    with that show ?thesis by (subst unat_add_no_wrap) (auto simp: root_offset_def)
  qed
  have shift: "{a + x..<a + x + s} \<inter> {a + y..<a + y + s} \<noteq> {} \<longleftrightarrow> {x..<x + s} \<inter> {y..<y + s} \<noteq> {}"
    for a x y s :: nat
    unfolding ranges_meet by auto
  show ?thesis
  proof (cases "parent (mems src)")
    case None
    with assms(1) have "src = dst" by auto
    with None assms offsets_overlap_ranges[of sz soff doff] show ?thesis
      by (simp add: pocl_buffers_overlap_def root_offset_def)
  next
    case (Some p)
    let ?u = "\<lambda>i off. mem_host_ptr (mems i) - mem_host_ptr (mems p) + off"
    from Some assms(1) have d: "parent (mems dst) = Some p" by auto
    note rs = root[OF Some assms(3)] and rd = root[OF d assms(4)]
    have sib: "offsets_overlap (?u src soff) (?u dst doff) sz \<longleftrightarrow>
        {root_offset mems src soff..<root_offset mems src soff + unat sz}
          \<inter> {root_offset mems dst doff..<root_offset mems dst doff + unat sz} \<noteq> {}"
      using offsets_overlap_ranges[of sz "?u src soff" "?u dst doff"] assms(2-4) rs rd by simp
    have "offsets_overlap soff doff sz \<longleftrightarrow> offsets_overlap (?u src soff) (?u dst doff) sz" if "src = dst"
    proof -
      have "unat soff + unat sz \<le> 2 ^ 32" "unat doff + unat sz \<le> 2 ^ 32"
        using assms(3,4) Some d by (auto simp: root_offset_def)
      from offsets_overlap_ranges[OF assms(2) this] show ?thesis
        unfolding sib using that d by (simp add: root_offset_def shift)
    qed
    with sib Some d show ?thesis by (auto simp: pocl_buffers_overlap_def)
  qed
qed

definition sample_buffers :: "nat \<Rightarrow> cl_mem" where
  "sample_buffers i =
     (if i = 0 then sample_buffer 64 4096 None
      else if i = 1 then sample_buffer 32 4096 (Some 0)
      else sample_buffer 32 4112 (Some 0))"

lemma pocl_buffers_overlap_ranges_witness:
  "pocl_buffers_overlap sample_buffers 1 2 0 0 16 = CL_SUCCESS
   \<and> pocl_buffers_overlap sample_buffers 1 2 0 0 17 = CL_MEM_COPY_OVERLAP"
  using pocl_buffers_overlap_ranges[of 1 2 sample_buffers 16 0 0]
    pocl_buffers_overlap_ranges[of 1 2 sample_buffers 17 0 0]
  by (simp add: root_offset_def sample_buffers_def sample_buffer_def)

text \<open>C25: A copy between a buffer and its own sub-buffer is never refused, even onto itself.\<close>

theorem parent_copy_unchecked:
  "(parent (mems src) = None \<or> parent (mems dst) = None) \<and> src \<noteq> dst
     \<Longrightarrow> pocl_buffers_overlap mems src dst soff doff sz = CL_SUCCESS"
  by (auto simp: pocl_buffers_overlap_def split: option.splits)

lemma parent_copy_unchecked_witness:
  "pocl_buffers_overlap sample_buffers 0 1 0 0 32 = CL_SUCCESS
   \<and> {root_offset sample_buffers 0 0..<root_offset sample_buffers 0 0 + 32}
     = {root_offset sample_buffers 1 0..<root_offset sample_buffers 1 0 + 32}"
  using parent_copy_unchecked[of sample_buffers 0 1 0 0 32]
  by (simp add: root_offset_def sample_buffers_def sample_buffer_def)

section \<open>Overlapping rectangular copies\<close>

text \<open>The bytes of a box in a memory of the given pitches.\<close>

fun box_bytes :: "vec3 \<Rightarrow> vec3 \<Rightarrow> nat \<Rightarrow> nat \<Rightarrow> nat set" where
  "box_bytes (o0, o1, o2) (r0, r1, r2) rp sp =
     {z * sp + y * rp + x | x y z. x \<in> {unat o0..<unat o0 + unat r0} \<and> y \<in> {unat o1..<unat o1 + unat r1}
        \<and> z \<in> {unat o2..<unat o2 + unat r2}}"

lemma mixed_radix:
  fixes a b c d k :: nat
  assumes "a * k + c = b * k + d" and "c < k" and "d < k"
  shows "a = b \<and> c = d"
proof -
  have "a = (a * k + c) div k" "b = (b * k + d) div k" using assms(2,3) by simp_all
  with assms(1) show ?thesis by simp
qed

lemma mixed_radix3:
  fixes x y z x' y' z' rp sp h :: nat
  assumes "z * sp + y * rp + x = z' * sp + y' * rp + x'" and "h * rp \<le> sp"
    and "x < rp" "x' < rp" "y < h" "y' < h"
  shows "x = x' \<and> y = y' \<and> z = z'"
proof -
  have row: "v * rp + u < sp" if "u < rp" "v < h" for u v
  proof -
    have "v * rp + u < v * rp + rp" using that by simp
    also have "\<dots> = Suc v * rp" by simp
    also have "\<dots> \<le> h * rp" using that by (intro mult_right_mono) simp_all
    finally show ?thesis using assms(2) by simp
  qed
  have "z = z' \<and> y * rp + x = y' * rp + x'"
    using assms(1) row[OF assms(3,5)] row[OF assms(4,6)]
    by (intro mixed_radix[of z sp "y * rp + x" z' "y' * rp + x'"]) (simp_all add: add.assoc)
  moreover then have "y = y' \<and> x = x'"
    using assms(3,4) by (intro mixed_radix[of y rp x y' x']) simp_all
  ultimately show ?thesis by simp
qed

text \<open>C18: When neither box runs over the end of a row or a slice, and the addresses do not wrap,
  the rectangular overlap check answers whether the two boxes have a byte in common.\<close>

theorem check_copy_overlap_bytes:
  fixes s0 s1 s2 d0 d1 d2 r0 r1 r2 rp sp :: size_t
  assumes "0 < r0" "0 < r1" "0 < r2"
    and "unat s0 + unat r0 \<le> unat rp" "unat d0 + unat r0 \<le> unat rp"
    and "unat s1 + unat r1 \<le> unat sp div unat rp" "unat d1 + unat r1 \<le> unat sp div unat rp"
    and "unat s2 + unat r2 < 2 ^ 32" "unat d2 + unat r2 < 2 ^ 32"
  shows "check_copy_overlap (s0, s1, s2) (d0, d1, d2) (r0, r1, r2) rp sp =
    ok (box_bytes (s0, s1, s2) (r0, r1, r2) (unat rp) (unat sp)
        \<inter> box_bytes (d0, d1, d2) (r0, r1, r2) (unat rp) (unat sp) \<noteq> {})"
proof -
  let ?h = "unat sp div unat rp"
  have pos: "0 < unat r0" "0 < unat r1" "0 < unat r2" using assms(1-3) by (simp_all add: unat_gt_0)
  have h: "?h * unat rp \<le> unat sp" by (rule div_times_less_eq_dividend)
  have hsp: "?h \<le> unat sp" by simp
  have sum: "unat (a + b) = unat a + unat b" if "unat a + unat b \<le> unat c" for a b c :: size_t
    using le_less_trans[OF that unsigned_less] by (rule unat_add_no_wrap)
  have sums: "unat (s0 + r0) = unat s0 + unat r0" "unat (d0 + r0) = unat d0 + unat r0"
    "unat (s1 + r1) = unat s1 + unat r1" "unat (d1 + r1) = unat d1 + unat r1"
    "unat (s2 + r2) = unat s2 + unat r2" "unat (d2 + r2) = unat d2 + unat r2"
    using sum[OF assms(4)] sum[OF assms(5)] sum[OF order_trans[OF assms(6) hsp]]
      sum[OF order_trans[OF assms(7) hsp]] unat_add_no_wrap[of s2 r2] unat_add_no_wrap[of d2 r2] assms(8,9)
    by simp_all
  define meet where "meet a b r \<longleftrightarrow> unat a < unat b + unat r \<and> unat b < unat a + unat r" for a b r :: size_t
  have inter: "box_bytes (s0, s1, s2) (r0, r1, r2) (unat rp) (unat sp)
      \<inter> box_bytes (d0, d1, d2) (r0, r1, r2) (unat rp) (unat sp) \<noteq> {} \<longleftrightarrow>
      meet s0 d0 r0 \<and> meet s1 d1 r1 \<and> meet s2 d2 r2"
  proof -
    have "box_bytes (s0, s1, s2) (r0, r1, r2) (unat rp) (unat sp)
        \<inter> box_bytes (d0, d1, d2) (r0, r1, r2) (unat rp) (unat sp) \<noteq> {} \<longleftrightarrow>
      {unat s0..<unat s0 + unat r0} \<inter> {unat d0..<unat d0 + unat r0} \<noteq> {} \<and>
      {unat s1..<unat s1 + unat r1} \<inter> {unat d1..<unat d1 + unat r1} \<noteq> {} \<and>
      {unat s2..<unat s2 + unat r2} \<inter> {unat d2..<unat d2 + unat r2} \<noteq> {}" (is "?L \<longleftrightarrow> ?R")
    proof
      assume ?L
      then obtain b where b1: "b \<in> box_bytes (s0, s1, s2) (r0, r1, r2) (unat rp) (unat sp)"
        and b2: "b \<in> box_bytes (d0, d1, d2) (r0, r1, r2) (unat rp) (unat sp)" by blast
      from b1 obtain x y z where 1: "b = z * unat sp + y * unat rp + x"
        and in1: "x \<in> {unat s0..<unat s0 + unat r0}" "y \<in> {unat s1..<unat s1 + unat r1}"
          "z \<in> {unat s2..<unat s2 + unat r2}" unfolding box_bytes.simps by blast
      from b2 obtain x' y' z' where 2: "b = z' * unat sp + y' * unat rp + x'"
        and in2: "x' \<in> {unat d0..<unat d0 + unat r0}" "y' \<in> {unat d1..<unat d1 + unat r1}"
          "z' \<in> {unat d2..<unat d2 + unat r2}" unfolding box_bytes.simps by blast
      have eq: "z * unat sp + y * unat rp + x = z' * unat sp + y' * unat rp + x'" using 1 2 by simp
      have "x = x' \<and> y = y' \<and> z = z'"
        by (rule mixed_radix3[OF eq h]) (use in1 in2 assms(4-7) in auto)
      with in1 in2 show ?R by blast
    next
      assume ?R
      then obtain x y z where x: "x \<in> {unat s0..<unat s0 + unat r0}" "x \<in> {unat d0..<unat d0 + unat r0}"
        and y: "y \<in> {unat s1..<unat s1 + unat r1}" "y \<in> {unat d1..<unat d1 + unat r1}"
        and z: "z \<in> {unat s2..<unat s2 + unat r2}" "z \<in> {unat d2..<unat d2 + unat r2}" by blast
      have "z * unat sp + y * unat rp + x \<in> box_bytes (s0, s1, s2) (r0, r1, r2) (unat rp) (unat sp)"
        unfolding box_bytes.simps using x(1) y(1) z(1) by blast
      moreover have "z * unat sp + y * unat rp + x \<in> box_bytes (d0, d1, d2) (r0, r1, r2) (unat rp) (unat sp)"
        unfolding box_bytes.simps using x(2) y(2) z(2) by blast
      ultimately show ?L by blast
    qed
    then show ?thesis unfolding ranges_meet meet_def using pos by blast
  qed
  have over: "overrun s0 r0 rp = 0" "overrun d0 r0 rp = 0" "overrun s1 r1 (sp div rp) = 0"
    "overrun d1 r1 (sp div rp) = 0"
    using assms(4-7) by (auto simp: overrun_def u32_less_unat sums unat_div_distrib)
  have rp0: "rp \<noteq> 0" using assms(4) pos(1) by auto
  show ?thesis unfolding inter
    using rp0 by (auto simp: check_copy_overlap_def Let_def over u32_less_unat sums meet_def)
qed

lemma check_copy_overlap_bytes_witness:
  "check_copy_overlap (0, 0, 0) (2, 1, 0) (3, 2, 1) 8 32 = ok True
   \<and> 10 \<in> box_bytes (0, 0, 0) (3, 2, 1) 8 32 \<inter> box_bytes (2, 1, 0) (3, 2, 1) 8 32"
proof -
  let ?A = "box_bytes (0, 0, 0) (3, 2, 1) 8 32" and ?B = "box_bytes (2, 1, 0) (3, 2, 1) 8 32"
  have "10 \<in> ?A" unfolding box_bytes.simps
    by (rule CollectI, rule exI[of _ 2], rule exI[of _ 1], rule exI[of _ 0]) simp
  moreover have "10 \<in> ?B" unfolding box_bytes.simps
    by (rule CollectI, rule exI[of _ 2], rule exI[of _ 1], rule exI[of _ 0]) simp
  ultimately have m: "10 \<in> ?A \<inter> ?B" by (rule IntI)
  then have ne: "?A \<inter> ?B \<noteq> {}" by blast
  have "check_copy_overlap (0, 0, 0) (2, 1, 0) (3, 2, 1) 8 32 = ok (?A \<inter> ?B \<noteq> {})"
    using check_copy_overlap_bytes[of 3 2 1 0 8 2 0 32 1 0 0] by (simp del: box_bytes.simps)
  then show ?thesis unfolding eqTrueI[OF ne] by (rule conjI) (rule m)
qed

text \<open>C24: A copy of one slice whose rows run over the end of the slice is not recognised as
  overlapping, although source and destination have bytes in common.\<close>

theorem check_copy_overlap_misses:
  "check_copy_overlap (0, 3, 0) (0, 0, 1) (4, 2, 1) 4 16 = ok False
   \<and> (\<exists>b. b \<in> box_bytes (0, 3, 0) (4, 2, 1) 4 16 \<and> b \<in> box_bytes (0, 0, 1) (4, 2, 1) 4 16)"
proof
  show "check_copy_overlap (0, 3, 0) (0, 0, 1) (4, 2, 1) 4 16 = ok False" by code_simp
  have "16 \<in> box_bytes (0, 3, 0) (4, 2, 1) 4 16" unfolding box_bytes.simps
    by (rule CollectI, rule exI[of _ 0], rule exI[of _ 4], rule exI[of _ 0]) simp
  moreover have "16 \<in> box_bytes (0, 0, 1) (4, 2, 1) 4 16" unfolding box_bytes.simps
    by (rule CollectI, rule exI[of _ 0], rule exI[of _ 0], rule exI[of _ 1]) simp
  ultimately show "\<exists>b. b \<in> box_bytes (0, 3, 0) (4, 2, 1) 4 16 \<and> b \<in> box_bytes (0, 0, 1) (4, 2, 1) 4 16"
    by blast
qed

end
