(* ===== verification/Cl_Objects.thy ===== *)
theory Cl_Objects
  imports Cl_Defs
begin

text \<open>
  The objects of the runtime and their reference counts: the state all host functions work on,
  and the \<open>clRetain\<close>/\<open>clRelease\<close> functions of contexts, devices, memory objects, kernels and
  programs (\<^verbatim>\<open>lib/CL/clRetain*.c\<close>, \<^verbatim>\<open>lib/CL/clRelease*.c\<close>, macros in \<^verbatim>\<open>lib/CL/pocl_cl.h\<close>). Each
  kind of object is a table of the live objects; touching an object that is not in its table is
  a use after free. Locks are not modelled: a host function is one step.
\<close>

section \<open>State\<close>

record cl_context =
  ctx_refcount :: int
  ctx_devices :: "nat list"
  ctx_valid :: bool

record cl_device =
  dev_refcount :: int
  max_work_item_dimensions :: u32
  max_work_group_size :: size_t
  max_work_item_sizes :: "nat \<Rightarrow> size_t"
  preferred_wg_multiple :: size_t
  compiles_submitted :: bool            \<comment>\<open>\<open>ops->compile_submitted_kernels\<close> is set\<close>
  unmaps :: bool                        \<comment>\<open>\<open>ops->unmap_mem\<close> is set\<close>

record cl_command_queue =
  q_refcount :: int
  q_context :: nat
  q_device :: nat
  q_out_of_order :: bool                \<comment>\<open>\<open>CL_QUEUE_OUT_OF_ORDER_EXEC_MODE_ENABLE\<close>\<close>
  q_profiling :: bool                   \<comment>\<open>\<open>CL_QUEUE_PROFILING_ENABLE\<close>\<close>
  root :: "nat option"

datatype arg_value = Plain "byte list" | Mem_handle "nat option"

text \<open>A set argument: its size, and its allocated value (\<open>None\<close> for a null pointer).\<close>

record pocl_argument =
  arg_size :: size_t
  arg_val :: "arg_value option"

datatype pocl_argument_type =
  POCL_ARG_TYPE_NONE | POCL_ARG_TYPE_POINTER | POCL_ARG_TYPE_IMAGE | POCL_ARG_TYPE_SAMPLER

record pocl_argument_info =
  arg_type :: pocl_argument_type
  is_local :: bool
  is_set :: bool

record cl_kernel =
  k_refcount :: int
  k_context :: nat
  k_program :: "nat option"
  num_args :: nat
  num_locals :: nat
  arg_info :: "pocl_argument_info list"
  dyn_arguments :: "pocl_argument list"

record cl_program =
  p_refcount :: int
  p_context :: nat
  p_kernels :: "nat option"

record cl_event =
  e_refcount :: int
  e_queue :: "nat option"
  e_type :: int
  callbacks :: "(nat \<times> int) list"       \<comment>\<open>a registered function and its trigger status\<close>
  status :: int
  time_queue :: "64 word"
  time_submit :: "64 word"
  time_start :: "64 word"
  time_end :: "64 word"
  implicit_event :: bool

record mem_mapping =
  map_host_ptr :: addr
  map_offset :: size_t
  map_size :: size_t



record pocl_context =
  work_dim :: u32
  num_groups :: vec3
  global_offset :: vec3

text \<open>The payload of a command, by its type.\<close>

datatype cl_command =
    Read_buffer addr addr size_t size_t nat                 \<comment>\<open>host, device, offset, size, buffer\<close>
  | Write_buffer addr addr size_t size_t nat
  | Copy_buffer addr size_t addr size_t size_t nat nat      \<comment>\<open>source, destination, size, buffers\<close>
  | Map_buffer nat nat                                      \<comment>\<open>buffer, mapping\<close>
  | Map_image nat nat
  | Read_image addr addr vec3 vec3 size_t size_t            \<comment>\<open>host, device, origin, region, pitches\<close>
  | Write_image addr addr vec3 vec3 size_t size_t
  | Unmap_mem_object nat nat                                \<comment>\<open>memory object, mapping\<close>
  | Ndrange_kernel nat pocl_context vec3 "nat option list" "pocl_argument list"
  | Native_kernel "nat option list"
  | Fill_image addr vec3 vec3 size_t size_t "byte list" size_t  \<comment>\<open>device, origin, region, pitches, pixel and its size\<close>
  | Marker
  | Unknown_command int

record command_node =
  command :: cl_command
  n_event :: nat
  event_wait_list :: "nat list option"
  n_device :: nat

text \<open>What the device drivers and the callbacks are asked to do, in order.\<close>

datatype action =
    Dev_free nat cl_bitfield addr
  | Dev_compile nat nat
  | Dev_read nat addr addr size_t size_t
  | Dev_write nat addr addr size_t size_t
  | Dev_copy nat addr size_t addr size_t size_t
  | Dev_map nat addr size_t size_t addr
  | Dev_unmap nat addr addr size_t
  | Dev_read_rect nat addr addr vec3 vec3 size_t size_t
  | Dev_write_rect nat addr addr vec3 vec3 size_t size_t
  | Dev_run nat nat
  | Dev_run_native nat nat
  | Dev_fill_rect nat addr vec3 vec3 size_t size_t "byte list" size_t
  | Dev_read_box nat addr addr vec3 vec3 vec3 size_t size_t size_t size_t     \<comment>\<open>host, device, origins, region, pitches\<close>
  | Dev_write_box nat addr addr vec3 vec3 vec3 size_t size_t size_t size_t
  | Dev_copy_box nat addr addr vec3 vec3 vec3 size_t size_t size_t size_t
  | Callback nat nat int

record cl_state =
  contexts :: "nat \<Rightarrow> cl_context option"
  devices :: "nat \<Rightarrow> cl_device option"
  queues :: "nat \<Rightarrow> cl_command_queue option"
  mems :: "nat \<Rightarrow> cl_mem option"
  kernels :: "nat \<Rightarrow> cl_kernel option"
  kernel_next :: "nat nexts"
  programs :: "nat \<Rightarrow> cl_program option"
  events :: "nat \<Rightarrow> cl_event option"
  event_next :: "nat nexts"
  nodes :: "nat \<Rightarrow> command_node option"
  node_next :: "nat nexts"
  maps :: "nat \<Rightarrow> mem_mapping option"
  map_links :: "nat links"
  event_list :: "nat option"            \<comment>\<open>recycled events of the memory manager\<close>
  cmd_list :: "nat option"              \<comment>\<open>recycled command nodes\<close>
  timer :: "nat \<Rightarrow> 64 word"              \<comment>\<open>the readings the device timer will give\<close>
  ticks :: nat                          \<comment>\<open>readings taken so far\<close>
  actions :: "action list"

definition act :: "action \<Rightarrow> cl_state \<Rightarrow> cl_state" where
  "act a s = s\<lparr>actions := actions s @ [a]\<rparr>"

text \<open>Reading a live object, and writing it back.\<close>

definition fetch :: "('k \<Rightarrow> 'a option) \<Rightarrow> 'k \<Rightarrow> 'a prog" where
  "fetch t i = (case t i of None \<Rightarrow> throw UseAfterFree | Some x \<Rightarrow> ok x)"

abbreviation put_mem :: "nat \<Rightarrow> cl_mem \<Rightarrow> cl_state \<Rightarrow> cl_state" where
  "put_mem i x s \<equiv> s\<lparr>mems := (mems s)(i \<mapsto> x)\<rparr>"

abbreviation put_context :: "nat \<Rightarrow> cl_context \<Rightarrow> cl_state \<Rightarrow> cl_state" where
  "put_context i x s \<equiv> s\<lparr>contexts := (contexts s)(i \<mapsto> x)\<rparr>"

abbreviation put_device :: "nat \<Rightarrow> cl_device \<Rightarrow> cl_state \<Rightarrow> cl_state" where
  "put_device i x s \<equiv> s\<lparr>devices := (devices s)(i \<mapsto> x)\<rparr>"

abbreviation put_queue :: "nat \<Rightarrow> cl_command_queue \<Rightarrow> cl_state \<Rightarrow> cl_state" where
  "put_queue i x s \<equiv> s\<lparr>queues := (queues s)(i \<mapsto> x)\<rparr>"

abbreviation put_kernel :: "nat \<Rightarrow> cl_kernel \<Rightarrow> cl_state \<Rightarrow> cl_state" where
  "put_kernel i x s \<equiv> s\<lparr>kernels := (kernels s)(i \<mapsto> x)\<rparr>"

abbreviation put_program :: "nat \<Rightarrow> cl_program \<Rightarrow> cl_state \<Rightarrow> cl_state" where
  "put_program i x s \<equiv> s\<lparr>programs := (programs s)(i \<mapsto> x)\<rparr>"

abbreviation put_event :: "nat \<Rightarrow> cl_event \<Rightarrow> cl_state \<Rightarrow> cl_state" where
  "put_event i x s \<equiv> s\<lparr>events := (events s)(i \<mapsto> x)\<rparr>"

section \<open>Retaining and releasing one reference\<close>

text \<open>\<open>POCL_RETAIN_OBJECT\<close> and \<open>POCL_RELEASE_OBJECT\<close> for each kind of object.\<close>

definition retain_mem :: "nat \<Rightarrow> cl_state \<Rightarrow> cl_state prog" where
  "retain_mem i s = andthen (fetch (mems s) i) (\<lambda>x. ok (put_mem i (x\<lparr>mem_refcount := mem_refcount x + 1\<rparr>) s))"

definition release_mem :: "nat \<Rightarrow> cl_state \<Rightarrow> (int \<times> cl_state) prog" where
  "release_mem i s = andthen (fetch (mems s) i) (\<lambda>x.
     let n = mem_refcount x - 1 in ok (n, put_mem i (x\<lparr>mem_refcount := n\<rparr>) s))"

definition retain_context :: "nat \<Rightarrow> cl_state \<Rightarrow> cl_state prog" where
  "retain_context i s = andthen (fetch (contexts s) i) (\<lambda>x. ok (put_context i (x\<lparr>ctx_refcount := ctx_refcount x + 1\<rparr>) s))"

definition release_context :: "nat \<Rightarrow> cl_state \<Rightarrow> (int \<times> cl_state) prog" where
  "release_context i s = andthen (fetch (contexts s) i) (\<lambda>x.
     let n = ctx_refcount x - 1 in ok (n, put_context i (x\<lparr>ctx_refcount := n\<rparr>) s))"

definition retain_device :: "nat \<Rightarrow> cl_state \<Rightarrow> cl_state prog" where
  "retain_device i s = andthen (fetch (devices s) i) (\<lambda>x. ok (put_device i (x\<lparr>dev_refcount := dev_refcount x + 1\<rparr>) s))"

definition release_device :: "nat \<Rightarrow> cl_state \<Rightarrow> (int \<times> cl_state) prog" where
  "release_device i s = andthen (fetch (devices s) i) (\<lambda>x.
     let n = dev_refcount x - 1 in ok (n, put_device i (x\<lparr>dev_refcount := n\<rparr>) s))"

definition retain_queue :: "nat \<Rightarrow> cl_state \<Rightarrow> cl_state prog" where
  "retain_queue i s = andthen (fetch (queues s) i) (\<lambda>x. ok (put_queue i (x\<lparr>q_refcount := q_refcount x + 1\<rparr>) s))"

definition release_queue :: "nat \<Rightarrow> cl_state \<Rightarrow> (int \<times> cl_state) prog" where
  "release_queue i s = andthen (fetch (queues s) i) (\<lambda>x.
     let n = q_refcount x - 1 in ok (n, put_queue i (x\<lparr>q_refcount := n\<rparr>) s))"

definition retain_kernel :: "nat \<Rightarrow> cl_state \<Rightarrow> cl_state prog" where
  "retain_kernel i s = andthen (fetch (kernels s) i) (\<lambda>x. ok (put_kernel i (x\<lparr>k_refcount := k_refcount x + 1\<rparr>) s))"

definition release_kernel :: "nat \<Rightarrow> cl_state \<Rightarrow> (int \<times> cl_state) prog" where
  "release_kernel i s = andthen (fetch (kernels s) i) (\<lambda>x.
     let n = k_refcount x - 1 in ok (n, put_kernel i (x\<lparr>k_refcount := n\<rparr>) s))"

definition retain_program :: "nat \<Rightarrow> cl_state \<Rightarrow> cl_state prog" where
  "retain_program i s = andthen (fetch (programs s) i) (\<lambda>x. ok (put_program i (x\<lparr>p_refcount := p_refcount x + 1\<rparr>) s))"

definition release_program :: "nat \<Rightarrow> cl_state \<Rightarrow> (int \<times> cl_state) prog" where
  "release_program i s = andthen (fetch (programs s) i) (\<lambda>x.
     let n = p_refcount x - 1 in ok (n, put_program i (x\<lparr>p_refcount := n\<rparr>) s))"

definition retain_event :: "nat \<Rightarrow> cl_state \<Rightarrow> cl_state prog" where
  "retain_event i s = andthen (fetch (events s) i) (\<lambda>x. ok (put_event i (x\<lparr>e_refcount := e_refcount x + 1\<rparr>) s))"

definition release_event :: "nat \<Rightarrow> cl_state \<Rightarrow> (int \<times> cl_state) prog" where
  "release_event i s = andthen (fetch (events s) i) (\<lambda>x.
     let n = e_refcount x - 1 in ok (n, put_event i (x\<lparr>e_refcount := n\<rparr>) s))"

section \<open>The retain functions\<close>

definition clRetainMemObject :: "nat option \<Rightarrow> cl_state \<Rightarrow> (int \<times> cl_state) prog" where
  "clRetainMemObject memobj s = (case memobj of None \<Rightarrow> ok (CL_INVALID_MEM_OBJECT, s)
     | Some i \<Rightarrow> andthen (retain_mem i s) (\<lambda>s'. ok (CL_SUCCESS, s')))"

definition clRetainContext :: "nat option \<Rightarrow> cl_state \<Rightarrow> (int \<times> cl_state) prog" where
  "clRetainContext context s = (case context of None \<Rightarrow> ok (CL_INVALID_CONTEXT, s)
     | Some i \<Rightarrow> andthen (retain_context i s) (\<lambda>s'. ok (CL_SUCCESS, s')))"

definition clRetainDevice :: "nat option \<Rightarrow> cl_state \<Rightarrow> (int \<times> cl_state) prog" where
  "clRetainDevice device s = (case device of None \<Rightarrow> throw NullDeref
     | Some i \<Rightarrow> andthen (retain_device i s) (\<lambda>s'. ok (CL_SUCCESS, s')))"

definition clRetainCommandQueue :: "nat option \<Rightarrow> cl_state \<Rightarrow> (int \<times> cl_state) prog" where
  "clRetainCommandQueue command_queue s = (case command_queue of None \<Rightarrow> ok (CL_INVALID_COMMAND_QUEUE, s)
     | Some i \<Rightarrow> andthen (retain_queue i s) (\<lambda>s'. ok (CL_SUCCESS, s')))"

definition clRetainKernel :: "nat option \<Rightarrow> cl_state \<Rightarrow> (int \<times> cl_state) prog" where
  "clRetainKernel krn s = (case krn of None \<Rightarrow> ok (CL_INVALID_KERNEL, s)
     | Some i \<Rightarrow> andthen (retain_kernel i s) (\<lambda>s'. ok (CL_SUCCESS, s')))"

definition clRetainProgram :: "nat option \<Rightarrow> cl_state \<Rightarrow> (int \<times> cl_state) prog" where
  "clRetainProgram program s = (case program of None \<Rightarrow> ok (CL_INVALID_PROGRAM, s)
     | Some i \<Rightarrow> andthen (retain_program i s) (\<lambda>s'. ok (CL_SUCCESS, s')))"

definition clRetainEvent :: "nat option \<Rightarrow> cl_state \<Rightarrow> (int \<times> cl_state) prog" where
  "clRetainEvent event s = (case event of None \<Rightarrow> ok (CL_INVALID_EVENT, s)
     | Some i \<Rightarrow> andthen (fetch (events s) i) (\<lambda>e.
         if e_queue e = None then ok (CL_INVALID_EVENT, s)
         else andthen (retain_event i s) (\<lambda>s'. ok (CL_SUCCESS, s'))))"

section \<open>The release functions\<close>

text \<open>The devices of the context free the buffer, each by its own pointer.\<close>

fun free_on_devices :: "nat list \<Rightarrow> nat \<Rightarrow> cl_state \<Rightarrow> cl_state prog" where
  "free_on_devices [] i s = ok s"
| "free_on_devices (d # ds) i s =
     andthen (fetch (mems s) i) (\<lambda>m.
     free_on_devices ds i
       (put_mem i (m\<lparr>device_ptrs := (device_ptrs m)(d := NULL)\<rparr>)
          (act (Dev_free d (mem_flags m) (device_ptrs m d)) s)))"

text \<open>\<open>DL_FOREACH_SAFE (memobj->mappings, mapping, temp) POCL_MEM_FREE (mapping)\<close>\<close>

partial_function (option) free_mappings :: "nat option \<Rightarrow> cl_state \<Rightarrow> cl_state prog" where
  "free_mappings mapping s =
     (case mapping of
        None \<Rightarrow> ok s
      | Some i \<Rightarrow> if maps s i = None then throw UseAfterFree
                 else free_mappings (nxt (map_links s) i) (s\<lparr>maps := (maps s)(i := None)\<rparr>))"

definition clReleaseMemObject :: "nat option \<Rightarrow> cl_state \<Rightarrow> (int \<times> cl_state) prog" where
  "clReleaseMemObject memobj s = (case memobj of None \<Rightarrow> ok (CL_INVALID_MEM_OBJECT, s)
     | Some i \<Rightarrow>
         andthen (release_mem i s) (\<lambda>(new_refcount, s1).
         if new_refcount \<noteq> 0 then ok (CL_SUCCESS, s1)
         else
           andthen (fetch (mems s1) i) (\<lambda>m.
           andthen (case parent m of
               None \<Rightarrow> andthen (fetch (contexts s1) (mem_context m)) (\<lambda>c. free_on_devices (ctx_devices c) i s1)
             | Some p \<Rightarrow> andthen (release_mem p s1) (\<lambda>(n, s2). ok s2)) (\<lambda>s2.
           andthen (release_context (mem_context m) s2) (\<lambda>(n, s3).
           andthen (free_mappings (mappings m) s3) (\<lambda>s4.
           ok (CL_SUCCESS, s4\<lparr>mems := (mems s4)(i := None)\<rparr>)))))))"

definition clReleaseDevice :: "nat \<Rightarrow> cl_state \<Rightarrow> (int \<times> cl_state) prog" where
  "clReleaseDevice device s = andthen (release_device device s) (\<lambda>(n, s'). ok (CL_SUCCESS, s'))"

fun release_devices :: "nat list \<Rightarrow> cl_state \<Rightarrow> cl_state prog" where
  "release_devices [] s = ok s"
| "release_devices (d # ds) s = andthen (clReleaseDevice d s) (\<lambda>(e, s'). release_devices ds s')"

definition clReleaseContext :: "nat option \<Rightarrow> cl_state \<Rightarrow> (int \<times> cl_state) prog" where
  "clReleaseContext context s = (case context of None \<Rightarrow> throw NullDeref
     | Some i \<Rightarrow>
         andthen (fetch (contexts s) i) (\<lambda>c.
         if \<not> ctx_valid c then ok (CL_INVALID_CONTEXT, s)
         else
           andthen (release_context i s) (\<lambda>(new_refcount, s1).
           if new_refcount \<noteq> 0 then ok (CL_SUCCESS, s1)
           else andthen (release_devices (ctx_devices c) s1) (\<lambda>s2.
                ok (CL_SUCCESS, s2\<lparr>contexts := (contexts s2)(i := None)\<rparr>)))))"

text \<open>Every kernel on the list of the program loses its program.\<close>

partial_function (option) orphan_kernels :: "nat option \<Rightarrow> cl_state \<Rightarrow> cl_state prog" where
  "orphan_kernels k s =
     (case k of
        None \<Rightarrow> ok s
      | Some i \<Rightarrow> (case kernels s i of
          None \<Rightarrow> throw UseAfterFree
        | Some x \<Rightarrow> orphan_kernels (kernel_next s i) (put_kernel i (x\<lparr>k_program := None\<rparr>) s)))"

definition clReleaseProgram :: "nat option \<Rightarrow> cl_state \<Rightarrow> (int \<times> cl_state) prog" where
  "clReleaseProgram program s = (case program of None \<Rightarrow> ok (CL_INVALID_PROGRAM, s)
     | Some i \<Rightarrow>
         andthen (release_program i s) (\<lambda>(new_refcount, s1).
         if new_refcount \<noteq> 0 then ok (CL_SUCCESS, s1)
         else
           andthen (fetch (programs s1) i) (\<lambda>p.
           andthen (orphan_kernels (p_kernels p) s1) (\<lambda>s2.
           andthen (release_context (p_context p) s2) (\<lambda>(n, s3).
           ok (CL_SUCCESS, s3\<lparr>programs := (programs s3)(i := None)\<rparr>))))))"

text \<open>
  The kernel is searched for from \<open>program->kernels\<close> on, and taken out of the list. \<open>pk\<close> is the
  address of the pointer that leads to it: that of the program, or of the kernel before it.
\<close>

definition unlink_kernel :: "nat \<Rightarrow> nat \<Rightarrow> cl_state \<Rightarrow> (bool \<times> cl_state) prog" where
  "unlink_kernel program krn s =
     andthen (fetch (programs s) program) (\<lambda>p.
     case foreach_find (kernel_next s) (\<lambda>k. k = krn) (p_kernels p) of
       None \<Rightarrow> None
     | Some None \<Rightarrow> ok (False, s)
     | Some (Some k) \<Rightarrow>
         (if p_kernels p = Some krn
          then ok (True, put_program program (p\<lparr>p_kernels := kernel_next s krn\<rparr>) s)
          else case p_kernels p of
                 None \<Rightarrow> throw NullDeref
               | Some h \<Rightarrow> (case ll_before (kernel_next s) krn h of
                   None \<Rightarrow> None
                 | Some before \<Rightarrow>
                     ok (True, s\<lparr>kernel_next := (kernel_next s)(before := kernel_next s krn)\<rparr>))))"

definition clReleaseKernel :: "nat option \<Rightarrow> cl_state \<Rightarrow> (int \<times> cl_state) prog" where
  "clReleaseKernel krn s = (case krn of None \<Rightarrow> ok (CL_INVALID_KERNEL, s)
     | Some i \<Rightarrow>
         andthen (release_kernel i s) (\<lambda>(new_refcount, s1).
         if new_refcount \<noteq> 0 then ok (CL_SUCCESS, s1)
         else
           andthen (fetch (kernels s1) i) (\<lambda>k.
           case k_program k of
             None \<Rightarrow> ok (CL_SUCCESS, s1\<lparr>kernels := (kernels s1)(i := None)\<rparr>)
           | Some p \<Rightarrow>
               andthen (unlink_kernel p i s1) (\<lambda>(found, s2).
               if \<not> found then ok (CL_INVALID_VALUE, s2)
               else andthen (clReleaseProgram (Some p) s2) (\<lambda>(e, s3).
                    ok (CL_SUCCESS, s3\<lparr>kernels := (kernels s3)(i := None)\<rparr>))))))"

declare free_mappings.simps [code] orphan_kernels.simps [code]

text \<open>The state before the first call: no object exists.\<close>

definition no_objects :: cl_state where
  "no_objects = \<lparr>contexts = \<lambda>_. None, devices = \<lambda>_. None, queues = \<lambda>_. None, mems = \<lambda>_. None,
     kernels = \<lambda>_. None, kernel_next = \<lambda>_. None, programs = \<lambda>_. None, events = \<lambda>_. None,
     event_next = \<lambda>_. None, nodes = \<lambda>_. None, node_next = \<lambda>_. None, maps = \<lambda>_. None,
     map_links = \<lparr>nxt = \<lambda>_. None, prv = \<lambda>_. None\<rparr>, event_list = None, cmd_list = None,
     timer = \<lambda>_. 0, ticks = 0, actions = []\<rparr>"

lemmas no_objects_simps [simp] = no_objects_def

end
