(* ===== verification/Cl_Queue.thy ===== *)
theory Cl_Queue
  imports Cl_Objects
begin

text \<open>
  Command queues and events: the recycling of events and command nodes
  (\<^verbatim>\<open>lib/CL/pocl_mem_management.c\<close>), the creation and queueing of commands
  (\<^verbatim>\<open>lib/CL/pocl_util.c\<close>), the event state machine (macros in \<^verbatim>\<open>lib/CL/pocl_cl.h\<close>), and
  \<open>clFinish\<close>, which collects the ready commands of all queues involved and executes them
  (\<^verbatim>\<open>lib/CL/clFinish.c\<close>). Device operations and callbacks are recorded as actions.
\<close>

section \<open>Recycling of events and command nodes\<close>

text \<open>Memory from \<open>calloc\<close> is all zero; \<open>ca\<close> is the address it answers, \<open>None\<close> on failure.\<close>

definition zero_event :: cl_event where
  "zero_event = \<lparr>e_refcount = 0, e_queue = None, e_type = 0, callbacks = [], status = 0, time_queue = 0,
     time_submit = 0, time_start = 0, time_end = 0, implicit_event = False\<rparr>"

definition zero_node :: command_node where
  "zero_node = \<lparr>command = Unknown_command 0, n_event = 0, event_wait_list = None, n_device = 0\<rparr>"

definition pocl_mem_manager_new_event :: "nat option \<Rightarrow> cl_state \<Rightarrow> (nat \<times> cl_state) prog" where
  "pocl_mem_manager_new_event ca s =
     (case event_list s of
        Some ev \<Rightarrow>
          andthen (fetch (events s) ev) (\<lambda>e.
          ok (ev, put_event ev (e\<lparr>e_refcount := 1\<rparr>) (s\<lparr>event_list := event_next s ev\<rparr>)))
      | None \<Rightarrow> (case ca of
          None \<Rightarrow> throw NullDeref
        | Some ev \<Rightarrow> ok (ev, (put_event ev (zero_event\<lparr>e_refcount := 1\<rparr>) s)
                              \<lparr>event_next := (event_next s)(ev := None)\<rparr>)))"

definition pocl_mem_manager_free_event :: "nat \<Rightarrow> cl_state \<Rightarrow> cl_state" where
  "pocl_mem_manager_free_event event s =
     (let (n, h) = LL_PREPEND (event_next s) (event_list s) event in s\<lparr>event_next := n, event_list := h\<rparr>)"

definition pocl_mem_manager_new_command :: "nat option \<Rightarrow> cl_state \<Rightarrow> nat option \<times> cl_state" where
  "pocl_mem_manager_new_command ca s =
     (case cmd_list s of
        Some cmd \<Rightarrow> (Some cmd, s\<lparr>cmd_list := node_next s cmd\<rparr>)
      | None \<Rightarrow> (case ca of
          None \<Rightarrow> (None, s)
        | Some cmd \<Rightarrow> (Some cmd, s\<lparr>nodes := (nodes s)(cmd \<mapsto> zero_node),
                                  node_next := (node_next s)(cmd := None)\<rparr>)))"

definition pocl_mem_manager_free_command :: "nat \<Rightarrow> cl_state \<Rightarrow> cl_state" where
  "pocl_mem_manager_free_command cmd s =
     (let (n, h) = LL_PREPEND (node_next s) (cmd_list s) cmd in s\<lparr>node_next := n, cmd_list := h\<rparr>)"

section \<open>The event state machine\<close>

abbreviation CL_COMPLETE :: int where "CL_COMPLETE \<equiv> 0"
abbreviation CL_RUNNING :: int where "CL_RUNNING \<equiv> 1"
abbreviation CL_SUBMITTED :: int where "CL_SUBMITTED \<equiv> 2"
abbreviation CL_QUEUED :: int where "CL_QUEUED \<equiv> 3"

text \<open>The timer is read only for queues with profiling.\<close>

definition stamp :: "nat \<Rightarrow> (64 word \<Rightarrow> cl_event \<Rightarrow> cl_event) \<Rightarrow> cl_event \<Rightarrow> cl_state \<Rightarrow> (cl_event \<times> cl_state) prog" where
  "stamp cq upd e s =
     andthen (fetch (queues s) cq) (\<lambda>q.
     if q_profiling q then ok (upd (timer s (ticks s)) e, s\<lparr>ticks := ticks s + 1\<rparr>) else ok (e, s))"

definition update_event ::
  "int option \<Rightarrow> int \<Rightarrow> (64 word \<Rightarrow> cl_event \<Rightarrow> cl_event) \<Rightarrow> nat \<Rightarrow> nat \<Rightarrow> cl_state \<Rightarrow> cl_state prog" where
  "update_event expected new upd event cq s =
     andthen (fetch (events s) event) (\<lambda>e.
     if expected \<noteq> None \<and> expected \<noteq> Some (status e) then throw AssertFail
     else andthen (stamp cq upd (e\<lparr>status := new\<rparr>) s) (\<lambda>(e', s'). ok (put_event event e' s')))"

definition POCL_UPDATE_EVENT_QUEUED :: "nat \<Rightarrow> nat \<Rightarrow> cl_state \<Rightarrow> cl_state prog" where
  "POCL_UPDATE_EVENT_QUEUED = update_event None CL_QUEUED (\<lambda>t e. e\<lparr>time_queue := t\<rparr>)"

definition POCL_UPDATE_EVENT_SUBMITTED :: "nat \<Rightarrow> nat \<Rightarrow> cl_state \<Rightarrow> cl_state prog" where
  "POCL_UPDATE_EVENT_SUBMITTED = update_event (Some CL_QUEUED) CL_SUBMITTED (\<lambda>t e. e\<lparr>time_submit := t\<rparr>)"

definition POCL_UPDATE_EVENT_RUNNING :: "nat \<Rightarrow> nat \<Rightarrow> cl_state \<Rightarrow> cl_state prog" where
  "POCL_UPDATE_EVENT_RUNNING = update_event (Some CL_SUBMITTED) CL_RUNNING (\<lambda>t e. e\<lparr>time_start := t\<rparr>)"

definition POCL_UPDATE_EVENT_COMPLETE :: "nat \<Rightarrow> nat \<Rightarrow> cl_state \<Rightarrow> cl_state prog" where
  "POCL_UPDATE_EVENT_COMPLETE = update_event (Some CL_RUNNING) CL_COMPLETE (\<lambda>t e. e\<lparr>time_end := t\<rparr>)"

section \<open>Creating and queueing commands\<close>

definition pocl_create_event :: "nat option \<Rightarrow> nat option \<Rightarrow> int \<Rightarrow> cl_state \<Rightarrow> (nat \<times> cl_state) prog" where
  "pocl_create_event ca command_queue command_type s =
     andthen (pocl_mem_manager_new_event ca s) (\<lambda>(ev, s1).
     andthen (fetch (events s1) ev) (\<lambda>e.
     andthen (clRetainCommandQueue command_queue
                (put_event ev (e\<lparr>e_queue := command_queue\<rparr>) s1)) (\<lambda>(err, s2).
     andthen (fetch (events s2) ev) (\<lambda>e2.
     ok (ev, (put_event ev (e2\<lparr>e_type := command_type, callbacks := [], implicit_event := False\<rparr>) s2)
              \<lparr>event_next := (event_next s2)(ev := None)\<rparr>)))))"

fun command_type :: "cl_command \<Rightarrow> int" where
  "command_type (Ndrange_kernel _ _ _ _ _) = 0x11F0"
| "command_type (Native_kernel _) = 0x11F2"
| "command_type (Read_buffer _ _ _ _ _) = 0x11F3"
| "command_type (Write_buffer _ _ _ _ _) = 0x11F4"
| "command_type (Copy_buffer _ _ _ _ _ _ _) = 0x11F5"
| "command_type (Read_image _ _ _ _ _ _) = 0x11F6"
| "command_type (Write_image _ _ _ _ _ _) = 0x11F7"
| "command_type (Map_buffer _ _) = 0x11FB"
| "command_type (Map_image _ _) = 0x11FC"
| "command_type (Unmap_mem_object _ _) = 0x11FD"
| "command_type Marker = 0x11FE"
| "command_type (Fill_image _ _ _ _ _ _ _) = 0x1208"
| "command_type (Unknown_command t) = t"

text \<open>
  \<open>wants_event\<close> is \<open>event_p \<noteq> NULL\<close>; the result carries the status, the new node and its event.
  The payload \<open>c\<close> is what the caller fills in after the call. In an in-order queue that is not
  empty the new command waits for the last one.
\<close>

definition pocl_create_command ::
  "nat option \<Rightarrow> nat option \<Rightarrow> nat \<Rightarrow> cl_command \<Rightarrow> bool \<Rightarrow> nat \<Rightarrow> nat option list option \<Rightarrow> cl_state \<Rightarrow>
   (int \<times> (nat \<times> nat) option \<times> cl_state) prog" where
  "pocl_create_command cmd_ca event_ca command_queue c wants_event num_events wait_list s =
     (if (wait_list = None \<and> num_events \<noteq> 0) \<or> (wait_list \<noteq> None \<and> num_events = 0)
      then ok (CL_INVALID_EVENT_WAIT_LIST, None, s)
      else
        let wl = (case wait_list of None \<Rightarrow> [] | Some ws \<Rightarrow> take num_events ws)
        in if None \<in> set wl then ok (CL_INVALID_EVENT_WAIT_LIST, None, s)
           else (case pocl_mem_manager_new_command cmd_ca s of
               (None, s1) \<Rightarrow> ok (CL_OUT_OF_HOST_MEMORY, None, s1)
             | (Some cmd, s1) \<Rightarrow>
                 andthen (pocl_create_event event_ca (Some command_queue) (command_type c) s1) (\<lambda>(ev, s2).
                 andthen (fetch (events s2) ev) (\<lambda>e.
                 let s3 = (if wants_event then s2 else put_event ev (e\<lparr>implicit_event := True\<rparr>) s2)
                 in andthen (fetch (queues s3) command_queue) (\<lambda>q.
                    andthen (if \<not> q_out_of_order q \<and> root q \<noteq> None
                             then (case ll_last (node_next s3) (the (root q)) of
                                 None \<Rightarrow> None
                               | Some prev \<Rightarrow> andthen (fetch (nodes s3) prev) (\<lambda>pn.
                                   ok (Some (map the wl @ [n_event pn]))))
                             else ok (map_option (\<lambda>_. map the wl) wait_list)) (\<lambda>waits.
                    ok (CL_SUCCESS, Some (cmd, ev),
                        s3\<lparr>nodes := (nodes s3)(cmd \<mapsto>
                             \<lparr>command = c, n_event = ev, event_wait_list = waits, n_device = q_device q\<rparr>),
                           node_next := (node_next s3)(cmd := None)\<rparr>)))))))"

definition pocl_command_enqueue :: "nat \<Rightarrow> nat \<Rightarrow> cl_state \<Rightarrow> cl_state prog" where
  "pocl_command_enqueue command_queue node s =
     andthen (fetch (queues s) command_queue) (\<lambda>q.
     andthen (LL_APPEND (node_next s) (root q) node) (\<lambda>(n, h).
     let s1 = (put_queue command_queue (q\<lparr>root := h\<rparr>) s)\<lparr>node_next := n\<rparr>
     in andthen (fetch (nodes s1) node) (\<lambda>x.
        POCL_UPDATE_EVENT_QUEUED (n_event x) command_queue s1)))"

section \<open>Collecting the ready commands\<close>

text \<open>
  The state of the loop of \<open>clFinish\<close>: the queue at hand, the head of the ready list, and the
  runtime state. The scan over the wait list of a node moves to the queue of each event that is
  neither submitted nor complete; the last one wins.
\<close>

fun scan_waits :: "nat list \<Rightarrow> nat option \<Rightarrow> bool \<Rightarrow> cl_state \<Rightarrow> (nat option \<times> bool) prog" where
  "scan_waits [] at ready s = ok (at, ready)"
| "scan_waits (w # ws) at ready s =
     andthen (fetch (events s) w) (\<lambda>e.
     if status e \<noteq> CL_COMPLETE \<and> status e \<noteq> CL_SUBMITTED then scan_waits ws (e_queue e) False s
     else scan_waits ws at ready s)"

definition submit_node :: "nat \<Rightarrow> nat \<Rightarrow> nat \<Rightarrow> nat option \<Rightarrow> cl_state \<Rightarrow> (nat option \<times> cl_state) prog" where
  "submit_node command_queue at node ready s =
     andthen (fetch (nodes s) node) (\<lambda>x.
     andthen (POCL_UPDATE_EVENT_SUBMITTED (n_event x) command_queue s) (\<lambda>s1.
     andthen (fetch (queues s1) at) (\<lambda>q.
     andthen (LL_DELETE (node_next s1) (root q) node) (\<lambda>(n1, h1).
     andthen (LL_APPEND n1 ready node) (\<lambda>(n2, h2).
     ok (h2, (put_queue at (q\<lparr>root := h1\<rparr>) s1)\<lparr>node_next := n2\<rparr>))))))"

definition finish_step ::
  "nat \<Rightarrow> nat option \<times> nat option \<times> cl_state \<Rightarrow> (nat option \<times> nat option \<times> cl_state) option prog" where
  "finish_step command_queue c =
     (let (at, ready, s) = c
      in andthen (fetch (queues s) command_queue) (\<lambda>q.
         if root q = None then ok None
         else (case at of
             None \<Rightarrow> throw NullDeref
           | Some a \<Rightarrow>
               andthen (fetch (queues s) a) (\<lambda>qa.
               case root qa of
                 None \<Rightarrow> ok (Some (Some command_queue, ready, s))
               | Some node \<Rightarrow>
                   andthen (fetch (nodes s) node) (\<lambda>x.
                   andthen (case event_wait_list x of
                              None \<Rightarrow> ok (at, True)
                            | Some ws \<Rightarrow> scan_waits ws at True s) (\<lambda>(at', command_ready).
                   if command_ready
                   then andthen (submit_node command_queue a node ready s) (\<lambda>(ready', s').
                        ok (Some (at', ready', s')))
                   else ok (Some (at', ready, s))))))))"

partial_function (option) finish_loop ::
  "nat \<Rightarrow> nat option \<times> nat option \<times> cl_state \<Rightarrow> (nat option \<times> cl_state) prog" where
  "finish_loop command_queue c =
     (case finish_step command_queue c of
        None \<Rightarrow> None
      | Some (Inl e) \<Rightarrow> Some (Inl e)
      | Some (Inr None) \<Rightarrow> Some (Inr (snd c))
      | Some (Inr (Some c')) \<Rightarrow> finish_loop command_queue c')"

declare finish_loop.simps [code]

section \<open>Executing the ready commands\<close>

text \<open>
  Releasing a command queue flushes it first, which is \<open>clFinish\<close> again: \<open>fin\<close> stands for that
  inner call.
\<close>

definition clReleaseCommandQueue ::
  "(nat \<Rightarrow> cl_state \<Rightarrow> (int \<times> cl_state) prog) \<Rightarrow> nat option \<Rightarrow> cl_state \<Rightarrow> (int \<times> cl_state) prog" where
  "clReleaseCommandQueue fin command_queue s = (case command_queue of None \<Rightarrow> ok (CL_INVALID_COMMAND_QUEUE, s)
     | Some q \<Rightarrow>
         andthen (fin q s) (\<lambda>(e, s1).
         andthen (release_queue q s1) (\<lambda>(new_refcount, s2).
         ok (CL_SUCCESS, if new_refcount = 0 then s2\<lparr>queues := (queues s2)(q := None)\<rparr> else s2))))"

definition clReleaseEvent ::
  "(nat \<Rightarrow> cl_state \<Rightarrow> (int \<times> cl_state) prog) \<Rightarrow> nat option \<Rightarrow> cl_state \<Rightarrow> (int \<times> cl_state) prog" where
  "clReleaseEvent fin event s = (case event of None \<Rightarrow> ok (CL_INVALID_EVENT, s)
     | Some ev \<Rightarrow>
         andthen (fetch (events s) ev) (\<lambda>e.
         if e_queue e = None then ok (CL_INVALID_EVENT, s)
         else
           andthen (release_event ev s) (\<lambda>(new_refcount, s1).
           if new_refcount = 0
           then andthen (clReleaseCommandQueue fin (e_queue e) s1) (\<lambda>(err, s2).
                ok (CL_SUCCESS, pocl_mem_manager_free_event ev s2))
           else ok (CL_SUCCESS, s1))))"

text \<open>Releasing a list of buffers, of which some may be null.\<close>

fun release_buffers :: "nat option list \<Rightarrow> cl_state \<Rightarrow> cl_state prog" where
  "release_buffers [] s = ok s"
| "release_buffers (b # bs) s =
     (case b of
        None \<Rightarrow> release_buffers bs s
      | Some i \<Rightarrow> andthen (clReleaseMemObject (Some i) s) (\<lambda>(e, s'). release_buffers bs s'))"

definition pocl_map_mem_cmd :: "nat \<Rightarrow> nat \<Rightarrow> nat \<Rightarrow> cl_state \<Rightarrow> cl_state prog" where
  "pocl_map_mem_cmd device buffer mapping s =
     andthen (fetch (mems s) buffer) (\<lambda>m.
     andthen (fetch (maps s) mapping) (\<lambda>p.
     ok (put_mem buffer (m\<lparr>map_count := map_count m + 1\<rparr>)
          (act (Dev_map device (device_ptrs m device) (map_offset p) (map_size p) (map_host_ptr p)) s))))"

text \<open>\<open>CL_MEM_USE_HOST_PTR | CL_MEM_ALLOC_HOST_PTR\<close>\<close>

abbreviation HOST_PTR_FLAGS :: cl_bitfield where "HOST_PTR_FLAGS \<equiv> 24"

definition unmap_mem_cmd :: "nat \<Rightarrow> nat \<Rightarrow> nat \<Rightarrow> cl_state \<Rightarrow> cl_state prog" where
  "unmap_mem_cmd device memobj mapping s =
     andthen (fetch (mems s) memobj) (\<lambda>m.
     andthen (fetch (devices s) device) (\<lambda>d.
     andthen (if mem_flags m AND HOST_PTR_FLAGS \<noteq> 0 \<or> \<not> unmaps d then ok s
              else andthen (fetch (maps s) mapping) (\<lambda>p.
                   ok (act (Dev_unmap device (map_host_ptr p) (device_ptrs m device) (map_size p)) s))) (\<lambda>s1.
     andthen (DL_DELETE (map_links s1) (mappings m) mapping) (\<lambda>(lk, h).
     ok ((put_mem memobj (m\<lparr>mappings := h, map_count := map_count m - 1\<rparr>) s1)\<lparr>map_links := lk\<rparr>)))))"

text \<open>
  What a command does between \<open>RUNNING\<close> and \<open>COMPLETE\<close>, and what it releases afterwards. The
  commands that read and write images retain no buffer.
\<close>

definition run_command :: "nat \<Rightarrow> command_node \<Rightarrow> cl_state \<Rightarrow> cl_state prog" where
  "run_command node x s =
     (let d = n_device x in case command x of
        Read_buffer hp dp off cb b \<Rightarrow> ok (act (Dev_read d hp dp off cb) s)
      | Write_buffer hp dp off cb b \<Rightarrow> ok (act (Dev_write d hp dp off cb) s)
      | Copy_buffer sp so dp do cb b1 b2 \<Rightarrow> ok (act (Dev_copy d sp so dp do cb) s)
      | Map_buffer b p \<Rightarrow> pocl_map_mem_cmd d b p s
      | Map_image b p \<Rightarrow> pocl_map_mem_cmd d b p s
      | Read_image hp dp org reg rp sp \<Rightarrow> ok (act (Dev_read_rect d hp dp org reg rp sp) s)
      | Write_image hp dp org reg rp sp \<Rightarrow> ok (act (Dev_write_rect d hp dp org reg rp sp) s)
      | Unmap_mem_object b p \<Rightarrow> unmap_mem_cmd d b p s
      | Ndrange_kernel k pc l bs args \<Rightarrow> ok (act (Dev_run d node) s)
      | Native_kernel bs \<Rightarrow> ok (act (Dev_run_native d node) s)
      | Fill_image dp org reg rp sp px n \<Rightarrow> ok (act (Dev_fill_rect d dp org reg rp sp px n) s)
      | Marker \<Rightarrow> ok s
      | Unknown_command t \<Rightarrow> throw (Exit 2))"

definition release_command :: "command_node \<Rightarrow> cl_state \<Rightarrow> cl_state prog" where
  "release_command x s =
     (case command x of
        Read_buffer hp dp off cb b \<Rightarrow> release_buffers [Some b] s
      | Write_buffer hp dp off cb b \<Rightarrow> release_buffers [Some b] s
      | Copy_buffer sp so dp do cb b1 b2 \<Rightarrow> release_buffers [Some b1, Some b2] s
      | Ndrange_kernel k pc l bs args \<Rightarrow>
          andthen (release_buffers bs s) (\<lambda>s1.
          andthen (clReleaseKernel (Some k) s1) (\<lambda>(e, s2). ok s2))
      | Native_kernel bs \<Rightarrow> release_buffers bs s
      | _ \<Rightarrow> ok s)"

text \<open>An unknown type ends the process before any event is updated.\<close>

definition exec_command :: "nat \<Rightarrow> command_node \<Rightarrow> nat \<Rightarrow> cl_state \<Rightarrow> cl_state prog" where
  "exec_command node x command_queue s =
     (case command x of
        Unknown_command t \<Rightarrow> throw (Exit 2)
      | _ \<Rightarrow>
        andthen (POCL_UPDATE_EVENT_RUNNING (n_event x) command_queue s) (\<lambda>s1.
        andthen (run_command node x s1) (\<lambda>s2.
        andthen (POCL_UPDATE_EVENT_COMPLETE (n_event x) command_queue s2) (\<lambda>s3.
        release_command x s3))))"

definition run_callbacks :: "nat \<Rightarrow> cl_state \<Rightarrow> cl_state prog" where
  "run_callbacks event s =
     andthen (fetch (events s) event) (\<lambda>e.
     ok (s\<lparr>actions := actions s @ map (\<lambda>(f, t). Callback f event t) (callbacks e)\<rparr>))"

definition exec_node ::
  "(nat \<Rightarrow> cl_state \<Rightarrow> (int \<times> cl_state) prog) \<Rightarrow> nat \<Rightarrow> cl_state \<Rightarrow> cl_state prog" where
  "exec_node fin node s =
     andthen (fetch (nodes s) node) (\<lambda>x.
     andthen (fetch (events s) (n_event x)) (\<lambda>e.
     andthen (fetch (devices s) (n_device x)) (\<lambda>d.
     case e_queue e of
       None \<Rightarrow> throw NullDeref
     | Some cq \<Rightarrow>
         let s1 = (if compiles_submitted d then act (Dev_compile (n_device x) node) s else s)
         in andthen (exec_command node x cq s1) (\<lambda>s2.
            andthen (run_callbacks (n_event x) s2) (\<lambda>s3.
            andthen (fetch (events s3) (n_event x)) (\<lambda>e3.
            if implicit_event e3
            then andthen (clReleaseEvent fin (Some (n_event x)) s3) (\<lambda>(err, s4). ok s4)
            else ok s3))))))"

partial_function (option) exec_list ::
  "(nat \<Rightarrow> cl_state \<Rightarrow> (int \<times> cl_state) prog) \<Rightarrow> nat option \<Rightarrow> cl_state \<Rightarrow> cl_state prog" where
  "exec_list fin el s =
     (case el of
        None \<Rightarrow> Some (Inr s)
      | Some node \<Rightarrow> (case exec_node fin node s of
          None \<Rightarrow> None
        | Some (Inl e) \<Rightarrow> Some (Inl e)
        | Some (Inr s') \<Rightarrow> exec_list fin (node_next s' node) s'))"

partial_function (option) free_commands :: "nat option \<Rightarrow> cl_state \<Rightarrow> cl_state prog" where
  "free_commands el s =
     (case el of
        None \<Rightarrow> Some (Inr s)
      | Some node \<Rightarrow> free_commands (node_next s node) (pocl_mem_manager_free_command node s))"

declare exec_list.simps [code] free_commands.simps [code]

definition exec_commands ::
  "(nat \<Rightarrow> cl_state \<Rightarrow> (int \<times> cl_state) prog) \<Rightarrow> nat option \<Rightarrow> cl_state \<Rightarrow> cl_state prog" where
  "exec_commands fin node_list s =
     andthen (exec_list fin node_list s) (\<lambda>s1. free_commands node_list s1)"

section \<open>Finishing a queue\<close>

text \<open>
  \<open>depth\<close> bounds the nesting of \<open>clFinish\<close> calls through released events; two levels are always
  enough when the inner call finds its queue empty.
\<close>

fun clFinish :: "nat \<Rightarrow> nat \<Rightarrow> cl_state \<Rightarrow> (int \<times> cl_state) prog" where
  "clFinish 0 command_queue s = None"
| "clFinish (Suc depth) command_queue s =
     andthen (fetch (queues s) command_queue) (\<lambda>q.
     if q_out_of_order q then throw (Exit 2)
     else andthen (finish_loop command_queue (Some command_queue, None, s)) (\<lambda>(ready, s1).
          andthen (exec_commands (clFinish depth) ready s1) (\<lambda>s2. ok (CL_SUCCESS, s2))))"

definition clFlush :: "nat \<Rightarrow> nat \<Rightarrow> cl_state \<Rightarrow> (int \<times> cl_state) prog" where
  "clFlush depth command_queue s = clFinish depth command_queue s"

fun clWaitForEvents :: "nat \<Rightarrow> nat list \<Rightarrow> cl_state \<Rightarrow> (int \<times> cl_state) prog" where
  "clWaitForEvents depth [] s = ok (CL_SUCCESS, s)"
| "clWaitForEvents depth (ev # evs) s =
     andthen (fetch (events s) ev) (\<lambda>e.
     case e_queue e of
       None \<Rightarrow> throw NullDeref
     | Some q \<Rightarrow> andthen (clFinish depth q s) (\<lambda>(err, s'). clWaitForEvents depth evs s'))"

section \<open>Markers and user events\<close>

definition clEnqueueMarker ::
  "nat option \<Rightarrow> nat option \<Rightarrow> nat option \<Rightarrow> bool \<Rightarrow> cl_state \<Rightarrow> (int \<times> nat option \<times> cl_state) prog" where
  "clEnqueueMarker cmd_ca event_ca command_queue wants_event s =
     (case command_queue of
        None \<Rightarrow> ok (CL_INVALID_COMMAND_QUEUE, None, s)
      | Some q \<Rightarrow>
          if \<not> wants_event then ok (CL_INVALID_VALUE, None, s)
          else andthen (pocl_create_command cmd_ca event_ca q Marker True 0 None s) (\<lambda>(errcode, r, s1).
               case r of
                 None \<Rightarrow> ok (errcode, None, s1)
               | Some (cmd, ev) \<Rightarrow>
                   andthen (pocl_command_enqueue q cmd s1) (\<lambda>s2. ok (CL_SUCCESS, Some ev, s2))))"

text \<open>A user event belongs to no queue; 4612 is \<open>CL_COMMAND_USER\<close>.\<close>

definition clCreateUserEvent :: "nat option \<Rightarrow> cl_state \<Rightarrow> (nat \<times> cl_state) prog" where
  "clCreateUserEvent ca s =
     andthen (pocl_create_event ca None 4612 s) (\<lambda>(ev, s1).
     andthen (fetch (events s1) ev) (\<lambda>e. ok (ev, put_event ev (e\<lparr>status := CL_QUEUED\<rparr>) s1)))"

end
