(* ===== verification/Cl_Finish.thy ===== *)
theory Cl_Finish
  imports Cl_Queue
begin

text \<open>
  The loop of \<open>clFinish\<close> terminates and orders the commands: whatever queues the wait lists
  reach, the loop empties the queue it is called for, every command it puts on the ready list
  comes after the commands it waits for, and the commands of one queue keep their order.
\<close>

section \<open>One event update\<close>

definition same_event :: "cl_event \<Rightarrow> cl_event \<Rightarrow> bool" where
  "same_event e e' \<longleftrightarrow> e_queue e' = e_queue e \<and> implicit_event e' = implicit_event e
     \<and> callbacks e' = callbacks e \<and> e_refcount e' = e_refcount e \<and> e_type e' = e_type e"

lemma update_event_ok:
  assumes "events s ev = Some e" and "queues s cq = Some q"
    and "expected = None \<or> expected = Some (status e)"
    and keeps: "\<And>t e. status (upd t e) = status e \<and> same_event e (upd t e)"
  obtains e' k where "update_event expected new upd ev cq s = ok (s\<lparr>ticks := k, events := (events s)(ev \<mapsto> e')\<rparr>)"
    and "status e' = new" and "same_event e e'"
proof (cases "q_profiling q")
  case True
  then show thesis using assms keeps[of "timer s (ticks s)" "e\<lparr>status := new\<rparr>"]
    by (intro that[where k = "ticks s + 1" and e' = "upd (timer s (ticks s)) (e\<lparr>status := new\<rparr>)"])
      (auto simp: update_event_def fetch_def stamp_def same_event_def)
next
  case False
  then show thesis using assms
    by (intro that[where k = "ticks s" and e' = "e\<lparr>status := new\<rparr>"])
      (auto simp: update_event_def fetch_def stamp_def same_event_def)
qed

lemma POCL_UPDATE_EVENT_SUBMITTED_ok:
  assumes "events s ev = Some e" and "queues s cq = Some q" and "status e = CL_QUEUED"
  obtains e' k where "POCL_UPDATE_EVENT_SUBMITTED ev cq s = ok (s\<lparr>ticks := k, events := (events s)(ev \<mapsto> e')\<rparr>)"
    and "status e' = CL_SUBMITTED" and "same_event e e'"
  unfolding POCL_UPDATE_EVENT_SUBMITTED_def
  by (rule update_event_ok[OF assms(1,2), where expected = "Some CL_QUEUED" and new = CL_SUBMITTED
        and upd = "\<lambda>t e. e\<lparr>time_submit := t\<rparr>"]) (use assms(3) in \<open>auto simp: same_event_def\<close>)

lemma POCL_UPDATE_EVENT_RUNNING_ok:
  assumes "events s ev = Some e" and "queues s cq = Some q" and "status e = CL_SUBMITTED"
  obtains e' k where "POCL_UPDATE_EVENT_RUNNING ev cq s = ok (s\<lparr>ticks := k, events := (events s)(ev \<mapsto> e')\<rparr>)"
    and "status e' = CL_RUNNING" and "same_event e e'"
  unfolding POCL_UPDATE_EVENT_RUNNING_def
  by (rule update_event_ok[OF assms(1,2), where expected = "Some CL_SUBMITTED" and new = CL_RUNNING
        and upd = "\<lambda>t e. e\<lparr>time_start := t\<rparr>"]) (use assms(3) in \<open>auto simp: same_event_def\<close>)

lemma POCL_UPDATE_EVENT_COMPLETE_ok:
  assumes "events s ev = Some e" and "queues s cq = Some q" and "status e = CL_RUNNING"
  obtains e' k where "POCL_UPDATE_EVENT_COMPLETE ev cq s = ok (s\<lparr>ticks := k, events := (events s)(ev \<mapsto> e')\<rparr>)"
    and "status e' = CL_COMPLETE" and "same_event e e'"
  unfolding POCL_UPDATE_EVENT_COMPLETE_def
  by (rule update_event_ok[OF assms(1,2), where expected = "Some CL_RUNNING" and new = CL_COMPLETE
        and upd = "\<lambda>t e. e\<lparr>time_end := t\<rparr>"]) (use assms(3) in \<open>auto simp: same_event_def\<close>)

section \<open>The scan of a wait list\<close>

definition event_done :: "cl_state \<Rightarrow> nat \<Rightarrow> bool" where
  "event_done s w \<longleftrightarrow> (\<exists>e. events s w = Some e \<and> (status e = CL_COMPLETE \<or> status e = CL_SUBMITTED))"

lemma scan_waits_ok:
  "\<forall>w \<in> set ws. events s w \<noteq> None \<Longrightarrow>
     (\<forall>w \<in> set ws. event_done s w) \<and> scan_waits ws at r s = ok (at, r) \<or>
     (\<exists>w e. w \<in> set ws \<and> events s w = Some e \<and> \<not> event_done s w \<and> scan_waits ws at r s = ok (e_queue e, False))"
proof (induction ws arbitrary: at r)
  case (Cons w ws)
  then obtain e where e: "events s w = Some e" by auto
  have ws: "\<forall>v \<in> set ws. events s v \<noteq> None" using Cons.prems by simp
  show ?case
  proof (cases "event_done s w")
    case True
    then have "scan_waits (w # ws) at r s = scan_waits ws at r s"
      using e by (auto simp: fetch_def event_done_def)
    with Cons.IH[OF ws, of at r] True show ?thesis by fastforce
  next
    case False
    then have "scan_waits (w # ws) at r s = scan_waits ws (e_queue e) False s"
      using e by (auto simp: fetch_def event_done_def)
    with Cons.IH[OF ws, of "e_queue e" False] False e show ?thesis by (metis list.set_intros)
  qed
qed simp

section \<open>The invariant of the loop\<close>

text \<open>The wait list and the event of a node.\<close>

definition waits :: "cl_state \<Rightarrow> nat \<Rightarrow> nat list" where
  "waits s n = (case nodes s n of None \<Rightarrow> [] | Some x \<Rightarrow> (case event_wait_list x of None \<Rightarrow> [] | Some ws \<Rightarrow> ws))"

definition node_event :: "cl_state \<Rightarrow> nat \<Rightarrow> nat" where
  "node_event s n = (case nodes s n of None \<Rightarrow> 0 | Some x \<Rightarrow> n_event x)"

text \<open>
  \<open>Q q\<close> are the nodes in queue \<open>q\<close>, \<open>R\<close> those on the ready list. \<open>rank\<close> is any numbering of the
  nodes that grows along each queue and from each event waited for to the waiting command: that
  there is one means that the dependencies are not circular.
\<close>

definition pending_ok :: "(nat \<Rightarrow> nat) \<Rightarrow> (nat \<Rightarrow> nat list) \<Rightarrow> cl_state \<Rightarrow> nat \<Rightarrow> nat \<Rightarrow> bool" where
  "pending_ok rank Q s q n \<longleftrightarrow>
     nodes s n \<noteq> None \<and>
     (\<exists>e. events s (node_event s n) = Some e \<and> status e = CL_QUEUED \<and> e_queue e = Some q) \<and>
     (\<forall>w \<in> set (waits s n). \<exists>e. events s w = Some e \<and>
        (event_done s w \<or> (\<exists>q' m. e_queue e = Some q' \<and> m \<in> set (Q q') \<and> node_event s m = w \<and> rank m < rank n)))"

definition loop_inv ::
  "(nat \<Rightarrow> nat) \<Rightarrow> (nat \<Rightarrow> nat list) \<Rightarrow> nat list \<Rightarrow> nat option \<Rightarrow> cl_state \<Rightarrow> bool" where
  "loop_inv rank Q R ready s \<longleftrightarrow>
     (\<forall>q. case queues s q of None \<Rightarrow> Q q = [] | Some x \<Rightarrow> ll (node_next s) (root x) (Q q)) \<and>
     ll (node_next s) ready R \<and>
     finite (\<Union>q. set (Q q)) \<and>
     (\<forall>q q'. q \<noteq> q' \<longrightarrow> set (Q q) \<inter> set (Q q') = {}) \<and> (\<forall>q. set (Q q) \<inter> set R = {}) \<and>
     (\<forall>q. \<forall>n \<in> set (Q q). pending_ok rank Q s q n) \<and>
     (\<forall>q. sorted_wrt (<) (map rank (Q q))) \<and>
     inj_on (node_event s) (\<Union>q. set (Q q))"

lemma loop_inv_queue:
  assumes "loop_inv rank Q R ready s" and "n \<in> set (Q q)"
  obtains x where "queues s q = Some x" and "ll (node_next s) (root x) (Q q)"
proof (cases "queues s q")
  case None
  with assms show thesis by (auto simp: loop_inv_def dest!: spec[of _ q])
next
  case (Some x)
  with assms that show thesis by (auto simp: loop_inv_def dest!: spec[of _ q])
qed

text \<open>
  What submitting the nodes \<open>R\<close> changes: their events, the roots of queues and the list links.
\<close>

definition same_queue :: "cl_command_queue \<Rightarrow> cl_command_queue \<Rightarrow> bool" where
  "same_queue x x' \<longleftrightarrow> x' = x\<lparr>root := root x'\<rparr>"

definition submitted :: "nat list \<Rightarrow> cl_state \<Rightarrow> cl_state \<Rightarrow> bool" where
  "submitted R s s' \<longleftrightarrow>
     s' = s\<lparr>ticks := ticks s', events := events s', queues := queues s', node_next := node_next s'\<rparr> \<and>
     (\<forall>q. rel_option same_queue (queues s q) (queues s' q)) \<and>
     (\<forall>w. w \<notin> node_event s ` set R \<longrightarrow> events s' w = events s w) \<and>
     (\<forall>n \<in> set R. \<exists>e e'. events s (node_event s n) = Some e \<and> events s' (node_event s n) = Some e' \<and>
        status e' = CL_SUBMITTED \<and> same_event e e')"

lemma node_event_cong: "nodes s' = nodes s \<Longrightarrow> node_event s' = node_event s"
  by (simp add: node_event_def[abs_def])

lemma waits_cong: "nodes s' = nodes s \<Longrightarrow> waits s' = waits s"
  by (simp add: waits_def[abs_def])

lemma same_event_trans: "same_event a b \<Longrightarrow> same_event b c \<Longrightarrow> same_event a c"
  by (simp add: same_event_def)

lemma same_queue_trans: "same_queue a b \<Longrightarrow> same_queue b c \<Longrightarrow> same_queue a c"
  by (cases a; cases b; cases c) (simp add: same_queue_def)

lemma submitted_nodes: "submitted R s s' \<Longrightarrow> nodes s' = nodes s"
  unfolding submitted_def by (cases s; cases s') simp

lemma submitted_refl: "submitted [] s s"
proof -
  have "s = s\<lparr>ticks := ticks s, events := events s, queues := queues s, node_next := node_next s\<rparr>"
    by (cases s) simp
  moreover have "rel_option same_queue (queues s q) (queues s q)" for q
    by (cases "queues s q") (simp_all add: same_queue_def)
  ultimately show ?thesis unfolding submitted_def by auto
qed

lemma submitted_trans:
  assumes "submitted R s s1" and "submitted R' s1 s2"
  shows "submitted (R @ R') s s2"
proof -
  note a = assms(1)[unfolded submitted_def] and b = assms(2)[unfolded submitted_def]
  have ev: "node_event s1 = node_event s" by (rule node_event_cong[OF submitted_nodes[OF assms(1)]])
  have "s2 = s\<lparr>ticks := ticks s2, events := events s2, queues := queues s2, node_next := node_next s2\<rparr>"
    using a[THEN conjunct1] b[THEN conjunct1] by (cases s; cases s1; cases s2) simp
  moreover have "rel_option same_queue (queues s q) (queues s2 q)" for q
  proof -
    have "rel_option same_queue (queues s q) (queues s1 q)" "rel_option same_queue (queues s1 q) (queues s2 q)"
      using a b by auto
    then show ?thesis
      by (cases "queues s q"; cases "queues s1 q"; cases "queues s2 q") (auto intro: same_queue_trans)
  qed
  moreover have "events s2 w = events s w" if "w \<notin> node_event s ` set (R @ R')" for w
  proof -
    have "\<forall>w. w \<notin> node_event s ` set R \<longrightarrow> events s1 w = events s w" using a by blast
    moreover have "\<forall>w. w \<notin> node_event s ` set R' \<longrightarrow> events s2 w = events s1 w" using b unfolding ev by blast
    ultimately show ?thesis using that by (simp add: image_Un)
  qed
  moreover have "\<exists>e e'. events s (node_event s n) = Some e \<and> events s2 (node_event s n) = Some e' \<and>
      status e' = CL_SUBMITTED \<and> same_event e e'" if "n \<in> set (R @ R')" for n
  proof (cases "n \<in> set R")
    case True
    then obtain e e1 where 1: "events s (node_event s n) = Some e" "events s1 (node_event s n) = Some e1"
      "status e1 = CL_SUBMITTED" "same_event e e1" using a by blast
    show ?thesis
    proof (cases "node_event s n \<in> node_event s ` set R'")
      case True
      then obtain m where "m \<in> set R'" "node_event s n = node_event s m" by blast
      with b ev 1 show ?thesis by (metis option.inject same_event_trans)
    next
      case False
      with b ev 1 show ?thesis by metis
    qed
  next
    case False
    with that have m: "n \<in> set R'" by simp
    show ?thesis
    proof (cases "node_event s n \<in> node_event s ` set R")
      case True
      then obtain l where "l \<in> set R" "node_event s n = node_event s l" by blast
      with a b ev m show ?thesis by (metis option.inject same_event_trans)
    next
      case False
      with a b ev m show ?thesis by metis
    qed
  qed
  ultimately show ?thesis unfolding submitted_def by blast
qed

lemma submit_node_ok:
  assumes inv: "loop_inv rank Q R ready s" and Q: "Q a = n # ns" and cq: "queues s cq = Some qc"
    and d: "\<forall>w \<in> set (waits s n). event_done s w"
  obtains ready' s' where "submit_node cq a n ready s = ok (ready', s')"
    and "loop_inv rank (Q(a := ns)) (R @ [n]) ready' s'"
    and "nodes s' = nodes s" and "\<And>w. event_done s' w = (event_done s w \<or> w = node_event s n)"
    and "submitted [n] s s'"
proof -
  note I = inv[unfolded loop_inv_def]
  have n: "n \<in> set (Q a)" by (simp add: Q)
  from loop_inv_queue[OF inv n] obtain x where x: "queues s a = Some x" "ll (node_next s) (root x) (Q a)" .
  have pn: "pending_ok rank Q s a n" using I n by blast
  then obtain y e where y: "nodes s n = Some y" and e: "events s (node_event s n) = Some e" "status e = CL_QUEUED"
    by (auto simp: pending_ok_def)
  then have yn: "node_event s n = n_event y" by (simp add: node_event_def)
  obtain e' k where u: "POCL_UPDATE_EVENT_SUBMITTED (n_event y) cq s
      = ok (s\<lparr>ticks := k, events := (events s)(n_event y \<mapsto> e')\<rparr>)" "status e' = CL_SUBMITTED" "same_event e e'"
    using POCL_UPDATE_EVENT_SUBMITTED_ok[OF e(1) cq e(2)] yn by metis
  have "ll (node_next s) ready R" "set (Q a) \<inter> set R = {}" using I by auto
  from sl.move_law[OF x(2) this n] obtain n1 h1 n2 h2 where mv:
    "LL_DELETE (node_next s) (root x) n = ok (n1, h1)" "LL_APPEND n1 ready n = ok (n2, h2)"
    "ll n2 h1 ns" "ll n2 h2 (R @ [n])" "agree_nexts (- (set (Q a) \<union> set R)) (node_next s) n2"
    by (auto simp: Q)
  define s' where "s' = (put_queue a (x\<lparr>root := h1\<rparr>) (s\<lparr>ticks := k, events := (events s)(n_event y \<mapsto> e')\<rparr>))
      \<lparr>node_next := n2\<rparr>"
  let ?Q = "Q(a := ns)"
  have eq: "submit_node cq a n ready s = ok (h2, s')"
    using y u x mv by (simp add: submit_node_def fetch_def s'_def)
  have sel: "nodes s' = nodes s" "events s' = (events s)(node_event s n \<mapsto> e')" "node_next s' = n2"
    "queues s' = (queues s)(a \<mapsto> x\<lparr>root := h1\<rparr>)" by (simp_all add: s'_def yn)
  have ev: "node_event s' = node_event s" "waits s' = waits s"
    by (simp_all add: node_event_def[abs_def] waits_def[abs_def] sel)
  have dn: "event_done s' w = (event_done s w \<or> w = node_event s n)" for w
    using u(2) by (auto simp: event_done_def sel)
  have sub: "set (?Q q) \<subseteq> set (Q q)" for q using Q by auto
  have distQ: "distinct (Q a)" using x(2) by (simp add: ll_def)
  have nq: "n \<notin> set (?Q q)" for q
  proof (cases "q = a")
    case False
    then have "set (Q a) \<inter> set (Q q) = {}" using I by metis
    with n False show ?thesis by auto
  qed (use distQ Q in simp)
  have inj: "m \<in> set (?Q q) \<Longrightarrow> node_event s m \<noteq> node_event s n" for m q
  proof
    assume m: "m \<in> set (?Q q)" and eq: "node_event s m = node_event s n"
    have "m \<in> (\<Union>q. set (Q q))" "n \<in> (\<Union>q. set (Q q))" using m n sub by blast+
    moreover have "inj_on (node_event s) (\<Union>q. set (Q q))" using I by blast
    ultimately have "m = n" using inj_onD eq by metis
    with m nq show False by blast
  qed
  have left: "m \<in> set (Q q) \<Longrightarrow> m \<noteq> n \<Longrightarrow> m \<in> set (?Q q)" for m q using Q by (cases "q = a") auto
  have "case queues s' q of None \<Rightarrow> ?Q q = [] | Some x \<Rightarrow> ll (node_next s') (root x) (?Q q)" for q
  proof (cases "q = a")
    case False
    have "case queues s q of None \<Rightarrow> Q q = [] | Some x \<Rightarrow> ll (node_next s) (root x) (Q q)" using I by blast
    moreover have "set (Q q) \<subseteq> - (set (Q a) \<union> set R)" using I False by blast
    ultimately show ?thesis
      using False ll_frame[OF mv(5)] by (auto simp: sel split: option.splits)
  qed (simp add: sel mv)
  moreover have "pending_ok rank ?Q s' q m" if m: "m \<in> set (?Q q)" for q m
  proof -
    have p: "pending_ok rank Q s q m" using I sub m by blast
    have "\<exists>e. events s' w = Some e \<and> (event_done s' w \<or>
        (\<exists>q' l. e_queue e = Some q' \<and> l \<in> set (?Q q') \<and> node_event s' l = w \<and> rank l < rank m))"
      if "w \<in> set (waits s m)" for w
    proof (cases "w = node_event s n")
      case True
      then show ?thesis using dn by (simp add: sel)
    next
      case False
      from p that obtain f where f: "events s w = Some f" and or: "event_done s w \<or>
          (\<exists>q' l. e_queue f = Some q' \<and> l \<in> set (Q q') \<and> node_event s l = w \<and> rank l < rank m)"
        unfolding pending_ok_def by blast
      have f': "events s' w = Some f" using f False by (simp add: sel)
      from or show ?thesis
      proof
        assume "event_done s w"
        then show ?thesis using f' dn by blast
      next
        assume "\<exists>q' l. e_queue f = Some q' \<and> l \<in> set (Q q') \<and> node_event s l = w \<and> rank l < rank m"
        then obtain q' l where l: "e_queue f = Some q'" "l \<in> set (Q q')" "node_event s l = w" "rank l < rank m"
          by blast
        then have "l \<in> set (?Q q')" using left False by blast
        with f' l show ?thesis unfolding ev by blast
      qed
    qed
    with p inj[OF m] show ?thesis by (auto simp: pending_ok_def sel ev)
  qed
  moreover have "finite (\<Union>q. set (?Q q))" using I by (rule_tac finite_subset[of _ "\<Union>q. set (Q q)"]) (use sub in blast)+
  moreover have "inj_on (node_event s') (\<Union>q. set (?Q q))"
    unfolding ev using I by (rule_tac inj_on_subset[of _ "\<Union>q. set (Q q)"]) (use sub in blast)+
  moreover have "sorted_wrt (<) (map rank (?Q q))" for q
  proof (cases "q = a")
    case True
    have "sorted_wrt (<) (map rank (Q a))" using I by blast
    with True Q show ?thesis by simp
  qed (use I in simp)
  moreover have "set (?Q q) \<inter> set (?Q q') = {}" if "q \<noteq> q'" for q q' using I that sub by blast
  moreover have "set (?Q q) \<inter> set (R @ [n]) = {}" for q
  proof -
    have "set (Q q) \<inter> set R = {}" using I by blast
    then show ?thesis using sub[of q] nq[of q] by auto
  qed
  ultimately have "loop_inv rank ?Q (R @ [n]) h2 s'"
    using mv(4) unfolding loop_inv_def sel(3) by blast
  moreover have "submitted [n] s s'"
  proof -
    have "s' = s\<lparr>ticks := ticks s', events := events s', queues := queues s', node_next := node_next s'\<rparr>"
      unfolding s'_def by (cases s) simp
    moreover have "rel_option same_queue (queues s q) (queues s' q)" for q
      using x(1) by (cases "queues s q") (auto simp: sel same_queue_def)
    ultimately show ?thesis
      using e(1) u(2,3) by (auto simp: submitted_def sel)
  qed
  ultimately show thesis
    by (intro that[OF eq]) (use sel dn in auto)
qed

section \<open>The loop\<close>

text \<open>Every node comes after the nodes whose events it waits for; \<open>D\<close> are the events so far.\<close>

fun ordered :: "cl_state \<Rightarrow> nat set \<Rightarrow> nat list \<Rightarrow> bool" where
  "ordered s D [] \<longleftrightarrow> True"
| "ordered s D (n # ns) \<longleftrightarrow>
     (\<forall>w \<in> set (waits s n). event_done s w \<or> w \<in> D) \<and> ordered s (insert (node_event s n) D) ns"

lemma ordered_shift:
  assumes "nodes s' = nodes s" and "\<forall>w. event_done s' w = (event_done s w \<or> w \<in> E)"
  shows "ordered s' D ns = ordered s (D \<union> E) ns"
  using assms(2) waits_cong[OF assms(1)] node_event_cong[OF assms(1)]
  by (induction ns arbitrary: D) auto

definition queued :: "(nat \<Rightarrow> nat list) \<Rightarrow> nat set" where
  "queued Q = (\<Union>q. set (Q q))"

definition loop_rel :: "(nat \<Rightarrow> nat) \<Rightarrow> ((nat \<Rightarrow> nat list) \<times> nat) rel" where
  "loop_rel rank = measures [\<lambda>(Q, a). card (queued Q), \<lambda>(Q, a). if Q a = [] then 1 else 0,
     \<lambda>(Q, a). rank (hd (Q a))]"

lemma wf_loop_rel: "wf (loop_rel rank)"
  unfolding loop_rel_def by (rule wf_measures)

lemma finish_loop_ok:
  assumes "loop_inv rank Q R ready s" and "queues s cq \<noteq> None" and "queues s a \<noteq> None"
  shows "\<exists>ready' s' Q' R'. finish_loop cq (Some a, ready, s) = ok (ready', s')
    \<and> loop_inv rank Q' (R @ R') ready' s' \<and> Q' cq = [] \<and> submitted R' s s' \<and> ordered s {} R'
    \<and> (\<forall>q. Q q = filter (\<lambda>n. n \<in> set (Q q)) R' @ Q' q) \<and> set R' \<subseteq> queued Q"
  using assms
proof (induction "(Q, a)" arbitrary: Q a R ready s rule: wf_induct_rule[OF wf_loop_rel[of rank]])
  case (1 Q a R ready s)
  note inv = 1(2)
  note I = inv[unfolded loop_inv_def]
  from 1(3,4) obtain qc qa where q: "queues s cq = Some qc" "queues s a = Some qa" by blast
  have rc: "root qc = first_ref (Q cq)" and ra: "ll (node_next s) (root qa) (Q a)"
    using I[THEN conjunct1, rule_format, of cq] I[THEN conjunct1, rule_format, of a] q by (simp_all add: ll_def)
  note unf = finish_loop.simps[of cq "(Some a, ready, s)"]
  show ?case
  proof (cases "Q cq = []")
    case True
    then have "finish_loop cq (Some a, ready, s) = ok (ready, s)"
      unfolding unf using q rc by (simp add: finish_step_def fetch_def ok_def)
    with True inv submitted_refl show ?thesis by (intro exI[of _ "[]"] exI) auto
  next
    case False
    then obtain y where rc': "root qc = Some y" using rc by (cases "Q cq") auto
    show ?thesis
    proof (cases "Q a")
      case Nil
      then have "root qa = None" using ra by (simp add: ll_def)
      then have "finish_step cq (Some a, ready, s) = ok (Some (Some cq, ready, s))"
        using q rc' by (simp add: finish_step_def fetch_def)
      then have eq: "finish_loop cq (Some a, ready, s) = finish_loop cq (Some cq, ready, s)"
        unfolding unf by (simp add: ok_def)
      have "((Q, cq), (Q, a)) \<in> loop_rel rank" using Nil False by (simp add: loop_rel_def)
      from 1(1)[OF this inv 1(3,3)] show ?thesis unfolding eq .
    next
      case (Cons n ns)
      then have rn: "root qa = Some n" using ra by (simp add: ll_def)
      have n: "n \<in> set (Q a)" by (simp add: Cons)
      have p: "pending_ok rank Q s a n" using I n by blast
      then obtain x where x: "nodes s n = Some x" by (auto simp: pending_ok_def)
      have w: "(case event_wait_list x of None \<Rightarrow> ok (Some a, True) | Some ws \<Rightarrow> scan_waits ws (Some a) True s)
          = scan_waits (waits s n) (Some a) True s"
        using x by (simp add: waits_def split: option.splits)
      have live: "\<forall>w \<in> set (waits s n). events s w \<noteq> None" using p by (auto simp: pending_ok_def)
      have step: "finish_step cq (Some a, ready, s) =
          andthen (scan_waits (waits s n) (Some a) True s) (\<lambda>(at', command_ready).
             if command_ready then andthen (submit_node cq a n ready s) (\<lambda>(ready', s'). ok (Some (at', ready', s')))
             else ok (Some (at', ready, s)))"
        using q rc' rn x w by (simp add: finish_step_def fetch_def)
      from scan_waits_ok[OF live, where r = True and at = "Some a"] show ?thesis
      proof (elim disjE exE conjE)
        fix w e assume w: "w \<in> set (waits s n)" "events s w = Some e" "\<not> event_done s w"
          and sc: "scan_waits (waits s n) (Some a) True s = ok (e_queue e, False)"
        with p obtain q' m where m: "e_queue e = Some q'" "m \<in> set (Q q')" "rank m < rank n"
          unfolding pending_ok_def by force
        from loop_inv_queue[OF inv m(2)] have q': "queues s q' \<noteq> None" by auto
        have eq: "finish_loop cq (Some a, ready, s) = finish_loop cq (Some q', ready, s)"
          unfolding unf step sc m(1) by (simp add: ok_def)
        have "rank (hd (Q q')) \<le> rank m"
        proof -
          have "sorted_wrt (<) (map rank (Q q'))" using I by blast
          with m(2) show ?thesis by (cases "Q q'") auto
        qed
        with m Cons have "((Q, q'), (Q, a)) \<in> loop_rel rank"
          by (cases "Q q'") (auto simp: loop_rel_def)
        from 1(1)[OF this inv 1(3) q'] show ?thesis unfolding eq .
      next
        assume d: "\<forall>w \<in> set (waits s n). event_done s w"
          and sc: "scan_waits (waits s n) (Some a) True s = ok (Some a, True)"
        from submit_node_ok[OF inv Cons q(1) d] obtain ready1 s1 where 2:
          "submit_node cq a n ready s = ok (ready1, s1)" "loop_inv rank (Q(a := ns)) (R @ [n]) ready1 s1"
          "nodes s1 = nodes s" "\<And>w. event_done s1 w = (event_done s w \<or> w = node_event s n)"
          "submitted [n] s s1" by blast
        have eq: "finish_loop cq (Some a, ready, s) = finish_loop cq (Some a, ready1, s1)"
          unfolding unf step sc using 2(1) by (simp add: ok_def)
        have nQ: "n \<notin> queued (Q(a := ns))"
        proof
          assume "n \<in> queued (Q(a := ns))"
          then obtain q where "n \<in> set ((Q(a := ns)) q)" unfolding queued_def by blast
          moreover have "set ((Q(a := ns)) q) \<inter> set (R @ [n]) = {}"
            using 2(2) unfolding loop_inv_def by blast
          ultimately show False by auto
        qed
        have sub: "queued (Q(a := ns)) \<subseteq> queued Q"
          using Cons by (auto simp: queued_def split: if_splits)
        have "n \<in> queued Q" using n unfolding queued_def by blast
        with sub nQ have "queued (Q(a := ns)) \<subset> queued Q" by blast
        moreover have "finite (queued Q)" using I unfolding queued_def by blast
        ultimately have "card (queued (Q(a := ns))) < card (queued Q)" by (rule psubset_card_mono[rotated])
        then have rel: "((Q(a := ns), a), (Q, a)) \<in> loop_rel rank" by (simp add: loop_rel_def)
        have lq: "queues s1 cq \<noteq> None" "queues s1 a \<noteq> None"
        proof -
          have r: "rel_option same_queue (queues s q) (queues s1 q)" for q
            using 2(5) unfolding submitted_def by blast
          show "queues s1 cq \<noteq> None" "queues s1 a \<noteq> None" using r[of cq] r[of a] q by (auto simp: option_rel_Some1)
        qed
        from 1(1)[OF rel 2(2) lq] obtain ready' s' Q' R' where IH:
          "finish_loop cq (Some a, ready1, s1) = ok (ready', s')" "loop_inv rank Q' ((R @ [n]) @ R') ready' s'"
          "Q' cq = []" "submitted R' s1 s'" "ordered s1 {} R'"
          "\<forall>q. (Q(a := ns)) q = filter (\<lambda>m. m \<in> set ((Q(a := ns)) q)) R' @ Q' q"
          "set R' \<subseteq> queued (Q(a := ns))" by blast
        have nR: "n \<notin> set R'" using IH(7) nQ by blast
        have "ordered s1 {} R' = ordered s ({} \<union> {node_event s n}) R'"
          by (rule ordered_shift[OF 2(3)]) (simp add: 2(4))
        with IH(5) d have "ordered s {} (n # R')" by simp
        moreover have "Q q = filter (\<lambda>m. m \<in> set (Q q)) (n # R') @ Q' q" for q
        proof (cases "q = a")
          case True
          have "filter (\<lambda>m. m \<in> set (n # ns)) R' = filter (\<lambda>m. m \<in> set ns) R'"
            by (rule filter_cong) (use nR in auto)
          with IH(6)[rule_format, of a] True Cons show ?thesis by simp
        next
          case False
          have "set (Q a) \<inter> set (Q q) = {}" using I False by metis
          with n have "n \<notin> set (Q q)" by blast
          with IH(6)[rule_format, of q] False show ?thesis by simp
        qed
        moreover have "submitted (n # R') s s'" using submitted_trans[OF 2(5) IH(4)] by simp
        moreover have "set (n # R') \<subseteq> queued Q" using IH(7) sub \<open>n \<in> queued Q\<close> by auto
        moreover have "loop_inv rank Q' (R @ n # R') ready' s'" using IH(2) by simp
        ultimately show ?thesis using IH(1,3) unfolding eq by blast
      qed
    qed
  qed
qed

end
