(* ===== verification/Cl_Exec.thy ===== *)
theory Cl_Exec
  imports Cl_Finish
begin

text \<open>
  Executing the ready list: if the application still holds a reference to every object the
  commands use, each command runs, completes its event, and gives back its references; the
  device sees the commands in list order.
\<close>

section \<open>What a command does and holds\<close>

fun plain :: "cl_command \<Rightarrow> bool" where
  "plain (Map_buffer _ _) \<longleftrightarrow> False"
| "plain (Map_image _ _) \<longleftrightarrow> False"
| "plain (Unmap_mem_object _ _) \<longleftrightarrow> False"
| "plain (Unknown_command _) \<longleftrightarrow> False"
| "plain _ \<longleftrightarrow> True"

fun command_actions :: "nat \<Rightarrow> nat \<Rightarrow> cl_command \<Rightarrow> action list" where
  "command_actions d n (Read_buffer hp dp off cb b) = [Dev_read d hp dp off cb]"
| "command_actions d n (Write_buffer hp dp off cb b) = [Dev_write d hp dp off cb]"
| "command_actions d n (Copy_buffer sp so dp do cb b1 b2) = [Dev_copy d sp so dp do cb]"
| "command_actions d n (Read_image hp dp org reg rp sp) = [Dev_read_rect d hp dp org reg rp sp]"
| "command_actions d n (Write_image hp dp org reg rp sp) = [Dev_write_rect d hp dp org reg rp sp]"
| "command_actions d n (Ndrange_kernel k pc l bs args) = [Dev_run d n]"
| "command_actions d n (Native_kernel bs) = [Dev_run_native d n]"
| "command_actions d n (Fill_image dp org reg rp sp px k) = [Dev_fill_rect d dp org reg rp sp px k]"
| "command_actions d n _ = []"

fun buffer_refs :: "cl_command \<Rightarrow> nat option list" where
  "buffer_refs (Read_buffer hp dp off cb b) = [Some b]"
| "buffer_refs (Write_buffer hp dp off cb b) = [Some b]"
| "buffer_refs (Copy_buffer sp so dp do cb b1 b2) = [Some b1, Some b2]"
| "buffer_refs (Ndrange_kernel k pc l bs args) = bs"
| "buffer_refs (Native_kernel bs) = bs"
| "buffer_refs _ = []"

fun kernel_refs :: "cl_command \<Rightarrow> nat list" where
  "kernel_refs (Ndrange_kernel k pc l bs args) = [k]"
| "kernel_refs _ = []"

lemma run_command_plain:
  "plain (command x) \<Longrightarrow>
     run_command n x s = ok (s\<lparr>actions := actions s @ command_actions (n_device x) n (command x)\<rparr>)"
  by (cases "command x") (simp_all add: run_command_def act_def)

section \<open>Giving references back\<close>

definition less_refs :: "nat option list \<Rightarrow> (nat \<Rightarrow> cl_mem option) \<Rightarrow> nat \<Rightarrow> cl_mem option" where
  "less_refs bs t b = map_option (\<lambda>m. m\<lparr>mem_refcount := mem_refcount m - int (count_list bs (Some b))\<rparr>) (t b)"

definition less_krefs :: "nat list \<Rightarrow> (nat \<Rightarrow> cl_kernel option) \<Rightarrow> nat \<Rightarrow> cl_kernel option" where
  "less_krefs ks t k = map_option (\<lambda>x. x\<lparr>k_refcount := k_refcount x - int (count_list ks k)\<rparr>) (t k)"

definition buffers_held :: "nat option list \<Rightarrow> cl_state \<Rightarrow> bool" where
  "buffers_held bs s \<longleftrightarrow>
     (\<forall>b. Some b \<in> set bs \<longrightarrow> (\<exists>m. mems s b = Some m \<and> int (count_list bs (Some b)) < mem_refcount m))"

definition kernels_held :: "nat list \<Rightarrow> cl_state \<Rightarrow> bool" where
  "kernels_held ks s \<longleftrightarrow> (\<forall>k \<in> set ks. \<exists>x. kernels s k = Some x \<and> int (count_list ks k) < k_refcount x)"

lemma less_refs_Nil [simp]: "less_refs [] t = t"
  by (rule ext) (simp add: less_refs_def option.map_ident_strong)

lemma less_krefs_Nil [simp]: "less_krefs [] t = t"
  by (rule ext) (simp add: less_krefs_def option.map_ident_strong)

lemma less_refs_append: "less_refs bs (less_refs as t) = less_refs (as @ bs) t"
  by (rule ext) (simp add: less_refs_def option.map_comp comp_def algebra_simps)

lemma less_krefs_append: "less_krefs bs (less_krefs as t) = less_krefs (as @ bs) t"
  by (rule ext) (simp add: less_krefs_def option.map_comp comp_def algebra_simps)

lemma clReleaseMemObject_held:
  assumes "mems s b = Some m" and "1 < mem_refcount m"
  shows "clReleaseMemObject (Some b) s = ok (CL_SUCCESS, s\<lparr>mems := less_refs [Some b] (mems s)\<rparr>)"
proof -
  have "less_refs [Some b] (mems s) = (mems s)(b \<mapsto> m\<lparr>mem_refcount := mem_refcount m - 1\<rparr>)"
    using assms(1) by (auto simp: less_refs_def fun_eq_iff option.map_ident_strong)
  with assms show ?thesis by (simp add: clReleaseMemObject_def release_mem_def fetch_def Let_def)
qed

lemma release_buffers_held:
  "buffers_held bs s \<Longrightarrow> release_buffers bs s = ok (s\<lparr>mems := less_refs bs (mems s)\<rparr>)"
proof (induction bs arbitrary: s)
  case (Cons b bs)
  show ?case
  proof (cases b)
    case None
    have "less_refs (None # bs) = less_refs bs" by (rule ext)+ (simp add: less_refs_def)
    moreover have "buffers_held bs s" using Cons.prems None by (auto simp: buffers_held_def)
    ultimately show ?thesis using Cons.IH[of s] None by simp
  next
    case (Some i)
    from Cons.prems Some obtain m where m: "mems s i = Some m" "int (count_list bs (Some i)) + 1 < mem_refcount m"
      by (auto simp: buffers_held_def)
    let ?s = "s\<lparr>mems := less_refs [Some i] (mems s)\<rparr>"
    have "buffers_held bs ?s"
      unfolding buffers_held_def
    proof (intro allI impI)
      fix j assume "Some j \<in> set bs"
      with Cons.prems Some obtain l where "mems s j = Some l" "int (count_list (b # bs) (Some j)) < mem_refcount l"
        by (auto simp: buffers_held_def)
      then show "\<exists>m. mems ?s j = Some m \<and> int (count_list bs (Some j)) < mem_refcount m"
        using Some by (auto simp: less_refs_def split: if_splits)
    qed
    from Cons.IH[OF this] show ?thesis
      using clReleaseMemObject_held[OF m(1)] m(2) Some less_refs_append[of bs "[Some i]"] by simp
  qed
qed simp

lemma release_command_held:
  assumes "plain (command x)" and "buffers_held (buffer_refs (command x)) s"
    and "kernels_held (kernel_refs (command x)) s"
  shows "release_command x s = ok (s\<lparr>mems := less_refs (buffer_refs (command x)) (mems s),
    kernels := less_krefs (kernel_refs (command x)) (kernels s)\<rparr>)"
proof (cases "command x")
  case (Ndrange_kernel k pc l bs args)
  with assms obtain y where y: "kernels s k = Some y" "1 < k_refcount y" by (auto simp: kernels_held_def)
  have "less_krefs [k] (kernels s) = (kernels s)(k \<mapsto> y\<lparr>k_refcount := k_refcount y - 1\<rparr>)"
    using y(1) by (auto simp: less_krefs_def fun_eq_iff option.map_ident_strong)
  with Ndrange_kernel y assms(2) show ?thesis
    by (simp add: release_command_def release_buffers_held clReleaseKernel_def release_kernel_def fetch_def Let_def)
qed (use assms in \<open>simp_all add: release_command_def release_buffers_held del: release_buffers.simps\<close>)

section \<open>One node\<close>

definition less_qrefs :: "nat list \<Rightarrow> (nat \<Rightarrow> cl_command_queue option) \<Rightarrow> nat \<Rightarrow> cl_command_queue option" where
  "less_qrefs qs t q = map_option (\<lambda>x. x\<lparr>q_refcount := q_refcount x - int (count_list qs q)\<rparr>) (t q)"

definition queues_held :: "nat list \<Rightarrow> cl_state \<Rightarrow> bool" where
  "queues_held qs s \<longleftrightarrow> (\<forall>q \<in> set qs. \<exists>x. queues s q = Some x \<and> int (count_list qs q) < q_refcount x)"

lemma less_qrefs_Nil [simp]: "less_qrefs [] t = t"
  by (rule ext) (simp add: less_qrefs_def option.map_ident_strong)

lemma less_qrefs_append: "less_qrefs bs (less_qrefs as t) = less_qrefs (as @ bs) t"
  by (rule ext) (simp add: less_qrefs_def option.map_comp comp_def algebra_simps)

definition node_command :: "cl_state \<Rightarrow> nat \<Rightarrow> cl_command" where
  "node_command s n = (case nodes s n of None \<Rightarrow> Marker | Some x \<Rightarrow> command x)"

text \<open>The event of a command that the application did not ask for holds a reference to its queue.\<close>

definition queue_refs :: "cl_state \<Rightarrow> nat \<Rightarrow> nat list" where
  "queue_refs s n = (case events s (node_event s n) of None \<Rightarrow> []
     | Some e \<Rightarrow> if implicit_event e then (case e_queue e of None \<Rightarrow> [] | Some q \<Rightarrow> [q]) else [])"

definition node_actions :: "cl_state \<Rightarrow> nat \<Rightarrow> action list" where
  "node_actions s n = (case nodes s n of None \<Rightarrow> [] | Some x \<Rightarrow>
     (case (devices s (n_device x), events s (n_event x)) of
        (Some d, Some e) \<Rightarrow>
          (if compiles_submitted d then [Dev_compile (n_device x) n] else [])
          @ command_actions (n_device x) n (command x) @ map (\<lambda>(f, t). Callback f (n_event x) t) (callbacks e)
      | _ \<Rightarrow> []))"

definition runnable :: "cl_state \<Rightarrow> nat \<Rightarrow> bool" where
  "runnable s n \<longleftrightarrow>
     (\<exists>x e q Q. nodes s n = Some x \<and> plain (command x) \<and> devices s (n_device x) \<noteq> None \<and>
        events s (n_event x) = Some e \<and> status e = CL_SUBMITTED \<and> e_queue e = Some q \<and> queues s q = Some Q \<and>
        (implicit_event e \<longrightarrow> e_refcount e = 1 \<and> root Q = None \<and> \<not> q_out_of_order Q))"

text \<open>The inner \<open>clFinish\<close> of an empty queue changes nothing.\<close>

definition fin_ok :: "(nat \<Rightarrow> cl_state \<Rightarrow> (int \<times> cl_state) prog) \<Rightarrow> bool" where
  "fin_ok fin \<longleftrightarrow> (\<forall>q s Q. queues s q = Some Q \<longrightarrow> root Q = None \<longrightarrow> \<not> q_out_of_order Q \<longrightarrow> fin q s = ok (CL_SUCCESS, s))"

definition executed_one :: "nat \<Rightarrow> cl_state \<Rightarrow> cl_state \<Rightarrow> bool" where
  "executed_one n s s' \<longleftrightarrow>
     s' = s\<lparr>ticks := ticks s', events := events s', event_next := event_next s', event_list := event_list s',
            queues := less_qrefs (queue_refs s n) (queues s),
            mems := less_refs (buffer_refs (node_command s n)) (mems s),
            kernels := less_krefs (kernel_refs (node_command s n)) (kernels s),
            actions := actions s @ node_actions s n\<rparr> \<and>
     (\<forall>w. w \<noteq> node_event s n \<longrightarrow> events s' w = events s w) \<and>
     (\<exists>e'. events s' (node_event s n) = Some e' \<and> status e' = CL_COMPLETE)"

lemma clReleaseEvent_implicit:
  assumes "events s ev = Some e" and "e_queue e = Some q" and "e_refcount e = 1" and "queues s q = Some Q"
    and "root Q = None" and "\<not> q_out_of_order Q" and "1 < q_refcount Q" and "fin_ok fin"
  obtains s' where "clReleaseEvent fin (Some ev) s = ok (CL_SUCCESS, s')"
    and "s' = s\<lparr>events := (events s)(ev \<mapsto> e\<lparr>e_refcount := 0\<rparr>), event_next := event_next s',
           event_list := event_list s', queues := less_qrefs [q] (queues s)\<rparr>"
proof -
  let ?s1 = "put_event ev (e\<lparr>e_refcount := 0\<rparr>) s"
  have f: "fin q ?s1 = ok (CL_SUCCESS, ?s1)" using assms by (simp add: fin_ok_def)
  have l: "less_qrefs [q] (queues s) = (queues s)(q \<mapsto> Q\<lparr>q_refcount := q_refcount Q - 1\<rparr>)"
    using assms(4) by (auto simp: less_qrefs_def fun_eq_iff option.map_ident_strong)
  define s' where "s' = pocl_mem_manager_free_event ev (put_queue q (Q\<lparr>q_refcount := q_refcount Q - 1\<rparr>) ?s1)"
  have "clReleaseEvent fin (Some ev) s = ok (CL_SUCCESS, s')"
    using assms f by (simp add: clReleaseEvent_def release_event_def fetch_def Let_def
        clReleaseCommandQueue_def release_queue_def s'_def)
  moreover have "s' = s\<lparr>events := (events s)(ev \<mapsto> e\<lparr>e_refcount := 0\<rparr>), event_next := event_next s',
           event_list := event_list s', queues := less_qrefs [q] (queues s)\<rparr>"
    unfolding s'_def l by (cases s) (simp add: pocl_mem_manager_free_event_def LL_PREPEND_def)
  ultimately show thesis by (rule that)
qed

lemma exec_node_ok:
  assumes run: "runnable s n" and fin: "fin_ok fin"
    and held: "buffers_held (buffer_refs (node_command s n)) s" "kernels_held (kernel_refs (node_command s n)) s"
      "queues_held (queue_refs s n) s"
  obtains s' where "exec_node fin n s = ok s'" and "executed_one n s s'"
proof -
  from run obtain x e q Q where x: "nodes s n = Some x" "plain (command x)" "devices s (n_device x) \<noteq> None"
    and e: "events s (n_event x) = Some e" "status e = CL_SUBMITTED" "e_queue e = Some q"
    and Q: "queues s q = Some Q" "implicit_event e \<longrightarrow> e_refcount e = 1 \<and> root Q = None \<and> \<not> q_out_of_order Q"
    unfolding runnable_def by blast
  from x(3) obtain d where d: "devices s (n_device x) = Some d" by blast
  have nc: "node_command s n = command x" "node_event s n = n_event x"
    by (simp_all add: node_command_def node_event_def x)
  define pre where "pre = (if compiles_submitted d then [Dev_compile (n_device x) n] else [])"
  define s1 where "s1 = s\<lparr>actions := actions s @ pre\<rparr>"
  have s1: "(if compiles_submitted d then act (Dev_compile (n_device x) n) s else s) = s1"
    by (cases s) (simp add: s1_def pre_def act_def)
  have "events s1 (n_event x) = Some e" "queues s1 q = Some Q" using e Q by (simp_all add: s1_def)
  from POCL_UPDATE_EVENT_RUNNING_ok[OF this e(2)] obtain e1 k1 where u1:
    "POCL_UPDATE_EVENT_RUNNING (n_event x) q s1 = ok (s1\<lparr>ticks := k1, events := (events s1)(n_event x \<mapsto> e1)\<rparr>)"
    "status e1 = CL_RUNNING" "same_event e e1" by metis
  define s2 where "s2 = s1\<lparr>ticks := k1, events := (events s1)(n_event x \<mapsto> e1)\<rparr>"
  define s3 where "s3 = s2\<lparr>actions := actions s2 @ command_actions (n_device x) n (command x)\<rparr>"
  have r: "run_command n x s2 = ok s3" unfolding s3_def by (rule run_command_plain[OF x(2)])
  have "events s3 (n_event x) = Some e1" "queues s3 q = Some Q" using Q by (simp_all add: s3_def s2_def s1_def)
  from POCL_UPDATE_EVENT_COMPLETE_ok[OF this u1(2)] obtain e2 k2 where u2:
    "POCL_UPDATE_EVENT_COMPLETE (n_event x) q s3 = ok (s3\<lparr>ticks := k2, events := (events s3)(n_event x \<mapsto> e2)\<rparr>)"
    "status e2 = CL_COMPLETE" "same_event e1 e2" by metis
  define s4 where "s4 = s3\<lparr>ticks := k2, events := (events s3)(n_event x \<mapsto> e2)\<rparr>"
  have "buffers_held (buffer_refs (command x)) s4" "kernels_held (kernel_refs (command x)) s4"
    using held(1,2) by (simp_all add: nc buffers_held_def kernels_held_def s4_def s3_def s2_def s1_def)
  note rel = release_command_held[OF x(2) this]
  define s5 where "s5 = s4\<lparr>mems := less_refs (buffer_refs (command x)) (mems s4),
    kernels := less_krefs (kernel_refs (command x)) (kernels s4)\<rparr>"
  have ex: "exec_command n x q s1 = ok s5"
    using u1(1) r u2(1) rel x(2) unfolding s2_def[symmetric] s4_def[symmetric] s5_def[symmetric]
    by (cases "command x") (simp_all add: exec_command_def)
  have e5: "events s5 (n_event x) = Some e2" by (simp add: s5_def s4_def)
  define s6 where "s6 = s5\<lparr>actions := actions s5 @ map (\<lambda>(f, t). Callback f (n_event x) t) (callbacks e2)\<rparr>"
  have cb: "run_callbacks (n_event x) s5 = ok s6" by (simp add: run_callbacks_def fetch_def e5 s6_def)
  have same: "same_event e e2" using u1(3) u2(3) by (rule same_event_trans)
  have e6: "events s6 (n_event x) = Some e2" "queues s6 q = Some Q" using e5 Q
    by (simp_all add: s6_def s5_def s4_def s3_def s2_def s1_def)
  have ev6: "events s6 = (events s)(n_event x \<mapsto> e2)"
    by (simp add: s6_def s5_def s4_def s3_def s2_def s1_def)
  have acts: "node_actions s n = pre @ command_actions (n_device x) n (command x)
      @ map (\<lambda>(f, t). Callback f (n_event x) t) (callbacks e2)"
    using same by (simp add: node_actions_def x d e pre_def same_event_def)
  have s6: "s6 = s\<lparr>ticks := ticks s6, events := events s6, event_next := event_next s, event_list := event_list s,
      mems := less_refs (buffer_refs (command x)) (mems s), kernels := less_krefs (kernel_refs (command x)) (kernels s),
      actions := actions s @ node_actions s n\<rparr>"
    unfolding acts by (cases s) (simp add: s6_def s5_def s4_def s3_def s2_def s1_def)
  have run6: "exec_node fin n s = (if implicit_event e2
      then andthen (clReleaseEvent fin (Some (n_event x)) s6) (\<lambda>(err, s4). ok s4) else ok s6)"
    using x e d ex cb e6 by (simp add: exec_node_def fetch_def s1)
  show thesis
  proof (cases "implicit_event e")
    case False
    then have qr: "queue_refs s n = []" by (simp add: queue_refs_def nc e)
    have "exec_node fin n s = ok s6" using run6 same False by (simp add: same_event_def)
    moreover have "executed_one n s s6"
      unfolding executed_one_def qr nc using s6 ev6 u2(2) by (cases s; cases s6) auto
    ultimately show thesis by (rule that)
  next
    case True
    have qr: "queue_refs s n = [q]" using True by (simp add: queue_refs_def nc e)
    then have q1: "1 < q_refcount Q" using held(3) Q(1) by (simp add: queues_held_def)
    have "e_queue e2 = Some q" "e_refcount e2 = 1" using same True Q e by (auto simp: same_event_def)
    from clReleaseEvent_implicit[OF e6(1) this e6(2) _ _ q1 fin] True Q(2) obtain s' where s':
      "clReleaseEvent fin (Some (n_event x)) s6 = ok (CL_SUCCESS, s')"
      "s' = s6\<lparr>events := (events s6)(n_event x \<mapsto> e2\<lparr>e_refcount := 0\<rparr>), event_next := event_next s',
           event_list := event_list s', queues := less_qrefs [q] (queues s6)\<rparr>" by blast
    have "exec_node fin n s = ok s'" using run6 same True s'(1) by (simp add: same_event_def)
    moreover have "executed_one n s s'"
    proof -
      have "queues s6 = queues s" by (simp add: s6_def s5_def s4_def s3_def s2_def s1_def)
      then have "s' = s\<lparr>ticks := ticks s', events := events s', event_next := event_next s',
          event_list := event_list s', queues := less_qrefs [q] (queues s),
          mems := less_refs (buffer_refs (command x)) (mems s),
          kernels := less_krefs (kernel_refs (command x)) (kernels s), actions := actions s @ node_actions s n\<rparr>"
        using s'(2) s6 by (cases s; cases s6; cases s') auto
      moreover have "events s' = (events s)(n_event x \<mapsto> e2\<lparr>e_refcount := 0\<rparr>)"
        by (subst s'(2)) (simp add: ev6)
      ultimately show ?thesis unfolding executed_one_def qr nc using u2(2) by simp
    qed
    ultimately show thesis by (rule that)
  qed
qed

section \<open>The ready list\<close>

abbreviation all_buffer_refs :: "cl_state \<Rightarrow> nat list \<Rightarrow> nat option list" where
  "all_buffer_refs s R \<equiv> concat (map (\<lambda>n. buffer_refs (node_command s n)) R)"

abbreviation all_kernel_refs :: "cl_state \<Rightarrow> nat list \<Rightarrow> nat list" where
  "all_kernel_refs s R \<equiv> concat (map (\<lambda>n. kernel_refs (node_command s n)) R)"

abbreviation all_queue_refs :: "cl_state \<Rightarrow> nat list \<Rightarrow> nat list" where
  "all_queue_refs s R \<equiv> concat (map (queue_refs s) R)"

definition ready_ok :: "cl_state \<Rightarrow> nat list \<Rightarrow> bool" where
  "ready_ok s R \<longleftrightarrow> distinct (map (node_event s) R) \<and> (\<forall>n \<in> set R. runnable s n) \<and>
     buffers_held (all_buffer_refs s R) s \<and> kernels_held (all_kernel_refs s R) s \<and>
     queues_held (all_queue_refs s R) s"

definition executed :: "nat list \<Rightarrow> cl_state \<Rightarrow> cl_state \<Rightarrow> bool" where
  "executed R s s' \<longleftrightarrow>
     s' = s\<lparr>ticks := ticks s', events := events s', event_next := event_next s', event_list := event_list s',
            queues := less_qrefs (all_queue_refs s R) (queues s),
            mems := less_refs (all_buffer_refs s R) (mems s),
            kernels := less_krefs (all_kernel_refs s R) (kernels s),
            actions := actions s @ concat (map (node_actions s) R)\<rparr> \<and>
     (\<forall>w. w \<notin> node_event s ` set R \<longrightarrow> events s' w = events s w) \<and>
     (\<forall>n \<in> set R. \<exists>e'. events s' (node_event s n) = Some e' \<and> status e' = CL_COMPLETE)"

lemma held_append:
  "buffers_held (as @ bs) s \<Longrightarrow> buffers_held as s"
  "buffers_held (as @ bs) s \<Longrightarrow> mems s' = less_refs as (mems s) \<Longrightarrow> buffers_held bs s'"
  "kernels_held (ks @ ls) s \<Longrightarrow> kernels_held ks s"
  "kernels_held (ks @ ls) s \<Longrightarrow> kernels s' = less_krefs ks (kernels s) \<Longrightarrow> kernels_held ls s'"
  "queues_held (qs @ ps) s \<Longrightarrow> queues_held qs s"
  "queues_held (qs @ ps) s \<Longrightarrow> queues s' = less_qrefs qs (queues s) \<Longrightarrow> queues_held ps s'"
  by (force simp: buffers_held_def kernels_held_def queues_held_def less_refs_def less_krefs_def less_qrefs_def)+

text \<open>After one node the others are as runnable as before, and mean the same.\<close>

lemma executed_one_others:
  assumes "executed_one n s s'" and "node_event s m \<noteq> node_event s n"
  shows "runnable s m \<Longrightarrow> runnable s' m" and "node_command s' m = node_command s m"
    and "queue_refs s' m = queue_refs s m" and "node_actions s' m = node_actions s m"
    and "node_event s' m = node_event s m"
proof -
  note x = assms(1)[unfolded executed_one_def]
  have sel: "nodes s' = nodes s" "devices s' = devices s" "queues s' = less_qrefs (queue_refs s n) (queues s)"
    using x[THEN conjunct1] by (cases s; cases s'; simp)+
  have ev: "events s' (node_event s m) = events s (node_event s m)" using x assms(2) by blast
  show ne: "node_event s' m = node_event s m" by (simp add: node_event_def sel)
  show "node_command s' m = node_command s m" by (simp add: node_command_def sel)
  show "queue_refs s' m = queue_refs s m" by (simp add: queue_refs_def ne ev)
  show "node_actions s' m = node_actions s m"
    using ev by (auto simp: node_actions_def sel node_event_def split: option.splits)
  assume "runnable s m"
  then show "runnable s' m"
    using ev by (force simp: runnable_def sel less_qrefs_def node_event_def)
qed

lemma exec_list_ok:
  "nseg (node_next s) R None \<Longrightarrow> ready_ok s R \<Longrightarrow> fin_ok fin \<Longrightarrow>
     \<exists>s'. exec_list fin (first_ref R) s = ok s' \<and> executed R s s'"
proof (induction R arbitrary: s)
  case Nil
  have "exec_list fin None s = ok s" by (simp add: exec_list.simps[of fin None s] ok_def)
  moreover have "executed [] s s" unfolding executed_def by (cases s) simp
  ultimately show ?case by auto
next
  case (Cons n R)
  have r0: "runnable s n" "\<forall>m \<in> set R. runnable s m" "distinct (map (node_event s) R)"
    "node_event s n \<notin> node_event s ` set R"
    using Cons.prems(2) by (auto simp: ready_ok_def)
  then have "\<forall>m \<in> set R. node_event s m \<noteq> node_event s n" by (metis imageI)
  note r = r0(1,2) this r0(3)
  have h: "buffers_held (buffer_refs (node_command s n) @ all_buffer_refs s R) s"
    "kernels_held (kernel_refs (node_command s n) @ all_kernel_refs s R) s"
    "queues_held (queue_refs s n @ all_queue_refs s R) s"
    using Cons.prems(2) by (simp_all add: ready_ok_def)
  obtain s1 where s1: "exec_node fin n s = ok s1" "executed_one n s s1"
    by (rule exec_node_ok[OF r(1) Cons.prems(3) held_append(1)[OF h(1)] held_append(3)[OF h(2)] held_append(5)[OF h(3)]])
  note o = executed_one_others[OF s1(2)]
  note x = s1(2)[unfolded executed_one_def]
  have sel: "node_next s1 = node_next s" "mems s1 = less_refs (buffer_refs (node_command s n)) (mems s)"
    "kernels s1 = less_krefs (kernel_refs (node_command s n)) (kernels s)"
    "queues s1 = less_qrefs (queue_refs s n) (queues s)" "nodes s1 = nodes s"
    using x[THEN conjunct1] by (cases s; cases s1; simp)+
  have R: "map (node_event s1) R = map (node_event s) R" "all_buffer_refs s1 R = all_buffer_refs s R"
    "all_kernel_refs s1 R = all_kernel_refs s R" "all_queue_refs s1 R = all_queue_refs s R"
    "concat (map (node_actions s1) R) = concat (map (node_actions s) R)"
    using r(3) o by (auto intro!: arg_cong[of _ _ concat] cong: map_cong)
  have "ready_ok s1 R"
    unfolding ready_ok_def R using r o(1) held_append(2)[OF h(1) sel(2)] held_append(4)[OF h(2) sel(3)]
      held_append(6)[OF h(3) sel(4)] by auto
  from Cons.IH[OF _ this Cons.prems(3)] Cons.prems(1) sel(1) obtain s' where s':
    "exec_list fin (first_ref R) s1 = ok s'" "executed R s1 s'" by auto
  have "exec_list fin (Some n) s = exec_list fin (first_ref R) s1"
    using s1(1) Cons.prems(1) sel(1) by (simp add: exec_list.simps[of fin "Some n" s] ok_def)
  moreover have "executed (n # R) s s'"
  proof -
    note y = s'(2)[unfolded executed_def]
    have ne: "node_event s1 = node_event s" by (rule node_event_cong) (simp add: sel)
    have "s' = s\<lparr>ticks := ticks s', events := events s', event_next := event_next s', event_list := event_list s',
            queues := less_qrefs (all_queue_refs s (n # R)) (queues s),
            mems := less_refs (all_buffer_refs s (n # R)) (mems s),
            kernels := less_krefs (all_kernel_refs s (n # R)) (kernels s),
            actions := actions s @ concat (map (node_actions s) (n # R))\<rparr>"
      using x[THEN conjunct1] y[THEN conjunct1] unfolding R
      by (cases s; cases s1; cases s') (simp add: less_refs_append less_krefs_append less_qrefs_append)
    moreover have "events s' w = events s w" if "w \<notin> node_event s ` set (n # R)" for w
      using x y that unfolding ne by auto
    moreover have "\<exists>e'. events s' (node_event s m) = Some e' \<and> status e' = CL_COMPLETE" if "m \<in> set (n # R)" for m
    proof (cases "m \<in> set R")
      case True
      then show ?thesis using y unfolding ne by blast
    next
      case False
      with that have "m = n" by simp
      moreover have "node_event s n \<notin> node_event s ` set R" using r(3) by fastforce
      ultimately show ?thesis using x y unfolding ne by metis
    qed
    ultimately show ?thesis unfolding executed_def by blast
  qed
  ultimately show ?case using s'(1) by simp
qed

lemma free_commands_ok:
  "nseg (node_next s) R None \<Longrightarrow> distinct R \<Longrightarrow>
     \<exists>N h. free_commands (first_ref R) s = ok (s\<lparr>node_next := N, cmd_list := h\<rparr>) \<and>
       agree_nexts (- set R) (node_next s) N"
proof (induction R arbitrary: s)
  case Nil
  then show ?case
    by (intro exI[of _ "node_next s"] exI[of _ "cmd_list s"])
      (auto simp: free_commands.simps[of None s] ok_def agree_nexts_def)
next
  case (Cons n R)
  let ?s = "s\<lparr>node_next := (node_next s)(n := cmd_list s), cmd_list := Some n\<rparr>"
  have "nseg (node_next ?s) R None" "distinct R" using Cons.prems by (simp_all add: fun_upd_def[symmetric])
  from Cons.IH[OF this] obtain N h where
    "free_commands (first_ref R) ?s = ok (?s\<lparr>node_next := N, cmd_list := h\<rparr>)"
    "agree_nexts (- set R) (node_next ?s) N" by blast
  with Cons.prems show ?case
    by (intro exI[of _ N] exI[of _ h])
      (auto simp: free_commands.simps[of "Some n" s] pocl_mem_manager_free_command_def LL_PREPEND_def agree_nexts_def)
qed

end
