(* ===== verification/Cl_Enqueue.thy ===== *)
theory Cl_Enqueue
  imports Cl_Finish
begin

text \<open>
  Creating and queueing a command keeps the queues in a state that \<open>clFinish\<close> can finish: the
  new command goes to the end of its queue and, in an in-order queue, waits for the command
  before it.
\<close>

section \<open>New events and nodes\<close>

text \<open>Where the new node and the new event come from: a recycled object or fresh memory.\<close>

definition node_source :: "nat option \<Rightarrow> nat \<Rightarrow> cl_state \<Rightarrow> bool" where
  "node_source ca cmd s \<longleftrightarrow> cmd_list s = Some cmd \<or> cmd_list s = None \<and> ca = Some cmd"

definition event_source :: "nat option \<Rightarrow> nat \<Rightarrow> cl_state \<Rightarrow> bool" where
  "event_source ca ev s \<longleftrightarrow>
     (event_list s = Some ev \<and> events s ev \<noteq> None) \<or> event_list s = None \<and> ca = Some ev"

lemma pocl_create_event_ok:
  assumes "event_source ca ev s" and "queues s q = Some Q0"
  obtains e s' where "pocl_create_event ca (Some q) t s = ok (ev, s')"
    and "s' = s\<lparr>events := (events s)(ev \<mapsto> e), queues := (queues s)(q \<mapsto> Q0\<lparr>q_refcount := q_refcount Q0 + 1\<rparr>),
           event_next := event_next s', event_list := event_list s'\<rparr>"
    and "e_queue e = Some q" and "e_refcount e = 1" and "callbacks e = []" and "\<not> implicit_event e"
    and "event_list s = None \<longrightarrow> event_list s' = None"
proof (cases "event_list s")
  case (Some ev')
  with assms obtain e0 where e0: "ev' = ev" "events s ev = Some e0" by (auto simp: event_source_def)
  define e where "e = e0\<lparr>e_refcount := 1, e_queue := Some q, e_type := t, callbacks := [], implicit_event := False\<rparr>"
  define s' where "s' = s\<lparr>events := (events s)(ev \<mapsto> e), queues := (queues s)(q \<mapsto> Q0\<lparr>q_refcount := q_refcount Q0 + 1\<rparr>),
    event_next := (event_next s)(ev := None), event_list := event_next s ev\<rparr>"
  have "pocl_create_event ca (Some q) t s = ok (ev, s')"
    using Some e0 assms(2) by (cases s)
      (simp add: pocl_create_event_def pocl_mem_manager_new_event_def fetch_def clRetainCommandQueue_def
        retain_queue_def s'_def e_def)
  then show thesis by (rule that[where e = e]) (simp_all add: s'_def e_def Some)
next
  case None
  with assms have ca: "ca = Some ev" by (simp add: event_source_def)
  define e where "e = zero_event\<lparr>e_refcount := 1, e_queue := Some q, e_type := t\<rparr>"
  define s' where "s' = s\<lparr>events := (events s)(ev \<mapsto> e), queues := (queues s)(q \<mapsto> Q0\<lparr>q_refcount := q_refcount Q0 + 1\<rparr>),
    event_next := (event_next s)(ev := None)\<rparr>"
  have "pocl_create_event ca (Some q) t s = ok (ev, s')"
    using None ca assms(2) by (cases s)
      (simp add: pocl_create_event_def pocl_mem_manager_new_event_def fetch_def clRetainCommandQueue_def
        retain_queue_def s'_def e_def zero_event_def)
  then show thesis by (rule that[where e = e]) (simp_all add: s'_def e_def zero_event_def None)
qed

text \<open>The event the new command waits for besides those it is given.\<close>

definition previous :: "cl_command_queue \<Rightarrow> cl_state \<Rightarrow> nat list \<Rightarrow> nat list" where
  "previous Q0 s xs = (if q_out_of_order Q0 \<or> xs = [] then [] else [node_event s (last xs)])"

lemma ll_last_list:
  assumes "ll n (Some h) xs"
  shows "ll_last n h = Some (last xs)"
proof -
  obtain ys where "xs = h # ys" using assms by (cases xs) (auto simp: ll_def)
  with assms show ?thesis using ll_last_seg[of n h ys] by (simp add: ll_def)
qed

lemma pocl_create_command_ok:
  assumes cmd: "node_source cmd_ca cmd s" and ev: "event_source event_ca ev s"
    and q: "queues s q = Some Q0" "ll (node_next s) (root Q0) xs" "\<forall>n \<in> set xs. nodes s n \<noteq> None"
    and new: "cmd \<notin> set xs" and wl: "wl \<noteq> Some []"
  obtains e s' where "pocl_create_command cmd_ca event_ca q c wants
      (length (case wl of None \<Rightarrow> [] | Some ws \<Rightarrow> ws)) (map_option (map Some) wl) s
      = ok (CL_SUCCESS, Some (cmd, ev), s')"
    and "s' = s\<lparr>events := (events s)(ev \<mapsto> e), queues := (queues s)(q \<mapsto> Q0\<lparr>q_refcount := q_refcount Q0 + 1\<rparr>),
           event_next := event_next s', event_list := event_list s', cmd_list := cmd_list s',
           nodes := nodes s', node_next := (node_next s)(cmd := None)\<rparr>"
    and "\<exists>x. nodes s' = (nodes s)(cmd \<mapsto> x) \<and> command x = c \<and> n_event x = ev \<and> n_device x = q_device Q0 \<and>
           (case event_wait_list x of None \<Rightarrow> [] | Some ws \<Rightarrow> ws) =
             (case wl of None \<Rightarrow> [] | Some ws \<Rightarrow> ws) @ previous Q0 s xs"
    and "e_queue e = Some q" and "e_refcount e = 1" and "callbacks e = []" and "implicit_event e = (\<not> wants)"
    and "event_list s = None \<longrightarrow> event_list s' = None" and "cmd_list s = None \<longrightarrow> cmd_list s' = None"
proof -
  obtain s1 where s1: "pocl_mem_manager_new_command cmd_ca s = (Some cmd, s1)"
    "s1 = s\<lparr>cmd_list := cmd_list s1, nodes := nodes s1, node_next := node_next s1\<rparr>"
    "\<forall>n. n \<noteq> cmd \<longrightarrow> nodes s1 n = nodes s n" "(node_next s1)(cmd := None) = (node_next s)(cmd := None)"
    "cmd_list s = None \<longrightarrow> cmd_list s1 = None"
  proof (cases "cmd_list s")
    case (Some c')
    with cmd have "c' = cmd" by (simp add: node_source_def)
    with Some show thesis
      by (intro that[of "s\<lparr>cmd_list := node_next s cmd\<rparr>"]) (cases s; simp add: pocl_mem_manager_new_command_def)+
  next
    case None
    with cmd have "cmd_ca = Some cmd" by (simp add: node_source_def)
    with None show thesis
      by (intro that[of "s\<lparr>nodes := (nodes s)(cmd \<mapsto> zero_node), node_next := (node_next s)(cmd := None)\<rparr>"])
        (cases s; simp add: pocl_mem_manager_new_command_def)+
  qed
  have sel1: "queues s1 = queues s" "events s1 = events s" "event_list s1 = event_list s"
    using s1(2) by (cases s; cases s1; simp)+
  have "event_source event_ca ev s1" using ev by (simp add: event_source_def sel1)
  moreover have "queues s1 q = Some Q0" using q by (simp add: sel1)
  ultimately obtain e0 s2 where s2: "pocl_create_event event_ca (Some q) (command_type c) s1 = ok (ev, s2)"
    "s2 = s1\<lparr>events := (events s1)(ev \<mapsto> e0), queues := (queues s1)(q \<mapsto> Q0\<lparr>q_refcount := q_refcount Q0 + 1\<rparr>),
           event_next := event_next s2, event_list := event_list s2\<rparr>"
    "e_queue e0 = Some q" "e_refcount e0 = 1" "callbacks e0 = []" "\<not> implicit_event e0"
    "event_list s1 = None \<longrightarrow> event_list s2 = None"
    by (rule pocl_create_event_ok)
  define e where "e = (if wants then e0 else e0\<lparr>implicit_event := True\<rparr>)"
  define s3 where "s3 = (if wants then s2 else put_event ev (e0\<lparr>implicit_event := True\<rparr>) s2)"
  have sel2: "events s2 = (events s)(ev \<mapsto> e0)" "queues s2 = (queues s)(q \<mapsto> Q0\<lparr>q_refcount := q_refcount Q0 + 1\<rparr>)"
    "nodes s2 = nodes s1" "node_next s2 = node_next s1" "cmd_list s2 = cmd_list s1"
    using s2(2) sel1 by (cases s1; cases s2; simp)+
  have sel3: "events s3 = (events s)(ev \<mapsto> e)" "queues s3 = queues s2" "nodes s3 = nodes s1"
    "node_next s3 = node_next s1" "cmd_list s3 = cmd_list s1" "event_next s3 = event_next s2" "event_list s3 = event_list s2"
    by (simp_all add: s3_def e_def sel2)
  define wn where "wn = (case wl of None \<Rightarrow> [] | Some ws \<Rightarrow> ws)"
  have nn: "node_next s1 n = node_next s n" if "n \<noteq> cmd" for n using fun_cong[OF s1(4), of n] that by simp
  have "nseg (node_next s1) xs None"
    using q(2) nseg_cong[of xs "node_next s1" "node_next s"] nn new unfolding ll_def by metis
  then have l1: "ll (node_next s1) (root Q0) xs" using q(2) by (simp add: ll_def)
  obtain waits where w: "(if \<not> q_out_of_order (Q0\<lparr>q_refcount := q_refcount Q0 + 1\<rparr>)
        \<and> root (Q0\<lparr>q_refcount := q_refcount Q0 + 1\<rparr>) \<noteq> None
      then (case ll_last (node_next s3) (the (root (Q0\<lparr>q_refcount := q_refcount Q0 + 1\<rparr>))) of
          None \<Rightarrow> None
        | Some prev \<Rightarrow> andthen (fetch (nodes s3) prev) (\<lambda>pn.
            ok (Some (map the (map Some wn) @ [n_event pn]))))
      else ok (map_option (\<lambda>_. map the (map Some wn)) (map_option (map Some) wl))) = ok waits"
    "(case waits of None \<Rightarrow> [] | Some ws \<Rightarrow> ws) = wn @ previous Q0 s xs"
  proof (cases "\<not> q_out_of_order Q0 \<and> root Q0 \<noteq> None")
    case True
    then obtain h where h: "root Q0 = Some h" by blast
    then have ne: "xs \<noteq> []" using q(2) by (auto simp: ll_def)
    then have lx: "last xs \<in> set xs" by simp
    with q(3) obtain x where x: "nodes s (last xs) = Some x" by blast
    have "last xs \<noteq> cmd" using lx new by blast
    then have "nodes s1 (last xs) = Some x" using s1(3) x by simp
    moreover have "ll_last (node_next s1) h = Some (last xs)" using l1 h by (simp add: ll_last_list)
    ultimately show thesis using True h ne x
      by (intro that[of "Some (wn @ [n_event x])"])
        (simp_all add: sel3 fetch_def previous_def node_event_def comp_def)
  next
    case False
    then have "q_out_of_order Q0 \<or> xs = []" using q(2) by (auto simp: ll_def)
    with False show thesis
      by (intro that[of wl]) (cases wl; auto simp: previous_def wn_def comp_def)+
  qed
  define x where "x = \<lparr>command = c, n_event = ev, event_wait_list = waits, n_device = q_device Q0\<rparr>"
  define s' where "s' = s3\<lparr>nodes := (nodes s3)(cmd \<mapsto> x), node_next := (node_next s3)(cmd := None)\<rparr>"
  have tk: "(case map_option (map Some) wl of None \<Rightarrow> [] | Some ws \<Rightarrow> take (length wn) ws) = map Some wn"
    by (cases wl) (simp_all add: wn_def)
  have guard: "\<not> (map_option (map Some) wl = None \<and> length wn \<noteq> 0 \<or> map_option (map Some) wl \<noteq> None \<and> length wn = 0)"
    using wl by (cases wl) (simp_all add: wn_def)
  have nn': "None \<notin> set (map Some wn)" by simp
  have q3: "queues s3 q = Some (Q0\<lparr>q_refcount := q_refcount Q0 + 1\<rparr>)" by (simp add: sel3 sel2)
  have e2: "events s2 ev = Some e0" by (simp add: sel2)
  have "pocl_create_command cmd_ca event_ca q c wants (length wn) (map_option (map Some) wl) s
      = ok (CL_SUCCESS, Some (cmd, ev), s')"
    unfolding pocl_create_command_def tk Let_def if_not_P[OF guard] if_not_P[OF nn'] s1(1) prod.case option.case
      s2(1) andthen_ok fetch_def e2 s3_def[symmetric] q3
    using w(1)[unfolded fetch_def] by (simp add: s'_def x_def)
  moreover have "s' = s\<lparr>events := (events s)(ev \<mapsto> e), queues := (queues s)(q \<mapsto> Q0\<lparr>q_refcount := q_refcount Q0 + 1\<rparr>),
           event_next := event_next s', event_list := event_list s', cmd_list := cmd_list s',
           nodes := nodes s', node_next := (node_next s)(cmd := None)\<rparr>"
    using s1(2,4) s2(2) unfolding s'_def s3_def e_def
    by (cases wants; cases s; cases s1; cases s2) auto
  moreover have "nodes s' = (nodes s)(cmd \<mapsto> x)" using s1(3) by (auto simp: s'_def sel3 fun_eq_iff)
  moreover have "event_list s' = event_list s2" "cmd_list s' = cmd_list s1" by (simp_all add: s'_def sel3)
  ultimately show thesis
    using w(2) s2(3-7) s1(5) by (intro that[of s' e]) (auto simp: wn_def x_def e_def sel1)
qed

section \<open>The queues stay finishable\<close>

text \<open>
  An event may be waited for if it is done or belongs to a command in a queue; the new node and
  event are not in use.
\<close>

definition waitable :: "(nat \<Rightarrow> nat list) \<Rightarrow> cl_state \<Rightarrow> nat \<Rightarrow> bool" where
  "waitable Q s w \<longleftrightarrow> (\<exists>e. events s w = Some e \<and>
     (event_done s w \<or> (\<exists>q' m. e_queue e = Some q' \<and> m \<in> set (Q q') \<and> node_event s m = w)))"

definition unused :: "(nat \<Rightarrow> nat list) \<Rightarrow> cl_state \<Rightarrow> nat \<Rightarrow> nat \<Rightarrow> bool" where
  "unused Q s cmd ev \<longleftrightarrow> cmd \<notin> queued Q \<and>
     (\<forall>m \<in> queued Q. node_event s m \<noteq> ev \<and> ev \<notin> set (waits s m))"

lemma loop_inv_append:
  assumes inv: "loop_inv rank Q [] None s" and q: "queues s q = Some Q0" and un: "unused Q s cmd ev"
    and nodes: "nodes s' = (nodes s)(cmd \<mapsto> x)" "n_event x = ev"
    and waits: "(case event_wait_list x of None \<Rightarrow> [] | Some ws \<Rightarrow> ws) = wl @ previous Q0 s (Q q)"
    and events: "events s' = (events s)(ev \<mapsto> e)" "status e = CL_QUEUED" "e_queue e = Some q"
    and queue: "queues s' = (queues s)(q \<mapsto> Q1)" "ll (node_next s') (root Q1) (Q q @ [cmd])"
    and agree: "agree_nexts (- insert cmd (set (Q q))) (node_next s) (node_next s')"
    and wl: "\<forall>w \<in> set wl. waitable Q s w \<and> w \<noteq> ev"
  shows "\<exists>rank'. loop_inv rank' (Q(q := Q q @ [cmd])) [] None s'"
proof -
  note I = inv[unfolded loop_inv_def]
  let ?Q = "Q(q := Q q @ [cmd])"
  define top where "top = Suc (Max (insert 0 (rank ` queued Q)))"
  let ?rank = "rank(cmd := top)"
  have fin: "finite (queued Q)" using I by (simp add: queued_def)
  have top: "rank m < top" if "m \<in> queued Q" for m
    using fin that by (simp add: top_def less_Suc_eq_le)
  have un': "cmd \<notin> queued Q" "\<And>m. m \<in> queued Q \<Longrightarrow> node_event s m \<noteq> ev"
    "\<And>m. m \<in> queued Q \<Longrightarrow> ev \<notin> set (waits s m)"
    using un by (auto simp: unused_def)
  have memQ: "m \<in> set (Q q') \<Longrightarrow> m \<in> queued Q" for m q' by (auto simp: queued_def)
  have ne: "node_event s' m = node_event s m" "waits s' m = waits s m" if "m \<in> queued Q" for m
    using that un'(1) by (auto simp: node_event_def waits_def nodes)
  have nc: "node_event s' cmd = ev" "waits s' cmd = wl @ previous Q0 s (Q q)"
    using waits by (simp_all add: node_event_def waits_def nodes)
  have done': "event_done s' w = event_done s w" if "w \<noteq> ev" for w
    using that by (simp add: event_done_def events)
  have qQ: "queued ?Q = insert cmd (queued Q)" by (auto simp: queued_def split: if_splits)
  have old: "pending_ok ?rank ?Q s' q' m" if m: "m \<in> set (Q q')" for q' m
  proof -
    have p: "pending_ok rank Q s q' m" using I m by blast
    note mq = memQ[OF m]
    have "\<exists>f. events s' w = Some f \<and> (event_done s' w \<or> (\<exists>p l. e_queue f = Some p \<and> l \<in> set (?Q p)
        \<and> node_event s' l = w \<and> ?rank l < ?rank m))" if w: "w \<in> set (waits s m)" for w
    proof -
      have wev: "w \<noteq> ev" using un'(3)[OF mq] w by blast
      from p w obtain f where f: "events s w = Some f" and or: "event_done s w \<or>
          (\<exists>p l. e_queue f = Some p \<and> l \<in> set (Q p) \<and> node_event s l = w \<and> rank l < rank m)"
        unfolding pending_ok_def by blast
      from or show ?thesis
      proof (elim disjE exE conjE)
        assume "event_done s w"
        then show ?thesis using f wev by (simp add: events done')
      next
        fix p l assume l: "e_queue f = Some p" "l \<in> set (Q p)" "node_event s l = w" "rank l < rank m"
        have lq: "l \<in> queued Q" by (rule memQ[OF l(2)])
        have "l \<noteq> cmd" "m \<noteq> cmd" using lq mq un'(1) by blast+
        then have "?rank l < ?rank m" using l(4) by simp
        moreover have "l \<in> set (?Q p)" using l(2) by auto
        moreover have "node_event s' l = w" using ne(1)[OF lq] l(3) by simp
        moreover have "events s' w = Some f" using f wev by (simp add: events)
        ultimately show ?thesis using l(1) by blast
      qed
    qed
    moreover have "nodes s' m \<noteq> None" using p by (simp add: pending_ok_def nodes)
    moreover have "\<exists>f. events s' (node_event s' m) = Some f \<and> status f = CL_QUEUED \<and> e_queue f = Some q'"
      using p un'(2)[OF mq] by (simp add: pending_ok_def events ne(1)[OF mq])
    ultimately show ?thesis unfolding pending_ok_def ne(2)[OF mq] by blast
  qed
  have new: "pending_ok ?rank ?Q s' q cmd"
  proof -
    have prev: "\<exists>f. events s' w = Some f \<and> (event_done s' w \<or> (\<exists>p l. e_queue f = Some p \<and> l \<in> set (?Q p)
        \<and> node_event s' l = w \<and> ?rank l < ?rank cmd))" if w: "w \<in> set (wl @ previous Q0 s (Q q))" for w
    proof -
      have "waitable Q s w \<and> w \<noteq> ev"
      proof (cases "w \<in> set wl")
        case False
        with w have wp: "Q q \<noteq> []" "w = node_event s (last (Q q))" by (auto simp: previous_def split: if_splits)
        then have l: "last (Q q) \<in> set (Q q)" by simp
        then have "pending_ok rank Q s q (last (Q q))" using I by blast
        with l wp(2) have "waitable Q s w" by (auto simp: pending_ok_def waitable_def)
        with un'(2)[OF memQ[OF l]] wp(2) show ?thesis by simp
      qed (use wl in blast)
      then obtain f where f: "events s w = Some f" "w \<noteq> ev" and or: "event_done s w \<or>
          (\<exists>p l. e_queue f = Some p \<and> l \<in> set (Q p) \<and> node_event s l = w)" by (auto simp: waitable_def)
      from or show ?thesis
      proof (elim disjE exE conjE)
        assume "event_done s w"
        then show ?thesis using f by (simp add: events done')
      next
        fix p l assume l: "e_queue f = Some p" "l \<in> set (Q p)" "node_event s l = w"
        have lq: "l \<in> queued Q" by (rule memQ[OF l(2)])
        then have "l \<noteq> cmd" using un'(1) by blast
        then have "?rank l < ?rank cmd" using top[OF lq] by simp
        moreover have "l \<in> set (?Q p)" using l(2) by auto
        moreover have "node_event s' l = w" using ne(1)[OF lq] l(3) by simp
        moreover have "events s' w = Some f" using f by (simp add: events)
        ultimately show ?thesis using l(1) by blast
      qed
    qed
    show ?thesis unfolding pending_ok_def nc using prev events nodes by simp
  qed
  have "case queues s' q' of None \<Rightarrow> ?Q q' = [] | Some x \<Rightarrow> ll (node_next s') (root x) (?Q q')" for q'
  proof (cases "q' = q")
    case False
    have "set (Q q') \<subseteq> - insert cmd (set (Q q))" using I False un'(1) memQ by blast
    from ll_frame[OF agree this] I[THEN conjunct1, rule_format, of q'] False show ?thesis
      by (auto simp: queue split: option.splits)
  qed (simp add: queue)
  moreover have "finite (\<Union>q'. set (?Q q'))" using fin qQ by (simp add: queued_def)
  moreover have "set (?Q a) \<inter> set (?Q b) = {}" if "a \<noteq> b" for a b
  proof -
    have "set (Q a) \<inter> set (Q b) = {}" using I that by blast
    then show ?thesis using that un'(1) memQ by auto
  qed
  moreover have "pending_ok ?rank ?Q s' q' m" if "m \<in> set (?Q q')" for q' m
    using that old new by (auto split: if_splits)
  moreover have "sorted_wrt (<) (map ?rank (?Q q'))" for q'
  proof -
    have s: "sorted_wrt (<) (map rank (Q q'))" using I by blast
    have m: "map ?rank (Q q') = map rank (Q q')" using un'(1) memQ by auto
    show ?thesis
    proof (cases "q' = q")
      case True
      have "map ?rank (?Q q') = map rank (Q q') @ [top]" using m True by simp
      moreover have "\<forall>r \<in> set (map rank (Q q')). r < top" using top memQ by auto
      ultimately show ?thesis using s by (simp only: sorted_wrt_append) simp
    next
      case False
      then have "map ?rank (?Q q') = map rank (Q q')" using m by simp
      with s show ?thesis by (simp only:)
    qed
  qed
  moreover have "inj_on (node_event s') (\<Union>q'. set (?Q q'))"
  proof -
    have "inj_on (node_event s) (queued Q)" using I by (simp add: queued_def)
    then have "inj_on (node_event s') (queued Q)" using ne(1) by (simp add: inj_on_def)
    moreover have "node_event s' cmd \<notin> node_event s' ` (queued Q - {cmd})"
    proof
      assume "node_event s' cmd \<in> node_event s' ` (queued Q - {cmd})"
      then obtain m where "m \<in> queued Q" "node_event s' cmd = node_event s' m" by blast
      with un'(2) ne(1) nc(1) show False by metis
    qed
    ultimately have "inj_on (node_event s') (insert cmd (queued Q))" by (simp add: inj_on_insert)
    then show ?thesis unfolding qQ[symmetric] by (simp add: queued_def)
  qed
  ultimately have "loop_inv ?rank ?Q [] None s'" unfolding loop_inv_def by (simp add: ll_def)
  then show ?thesis by blast
qed

text \<open>
  Queueing a created command: \<open>s1\<close> is the state after the creation, in which other parts of the state
  may have changed.
\<close>

lemma enqueue_created_inv:
  assumes inv: "loop_inv rank Q [] None s" and q: "queues s q = Some Q0" and un: "unused Q s cmd ev"
    and wl: "\<forall>w \<in> set wl. waitable Q s w \<and> w \<noteq> ev"
    and x: "nodes s1 = (nodes s)(cmd \<mapsto> x)" "n_event x = ev"
      "(case event_wait_list x of None \<Rightarrow> [] | Some ws \<Rightarrow> ws) = wl @ previous Q0 s (Q q)"
    and sel: "events s1 = (events s)(ev \<mapsto> e)" "queues s1 = (queues s)(q \<mapsto> Q0\<lparr>q_refcount := q_refcount Q0 + 1\<rparr>)"
      "node_next s1 = (node_next s)(cmd := None)" "e_queue e = Some q"
  obtains s' e' h rank' where "pocl_command_enqueue q cmd s1 = ok s'"
    and "s' = s1\<lparr>ticks := ticks s', events := (events s)(ev \<mapsto> e'),
           queues := (queues s)(q \<mapsto> Q0\<lparr>q_refcount := q_refcount Q0 + 1, root := h\<rparr>), node_next := node_next s'\<rparr>"
    and "status e' = CL_QUEUED" and "same_event e e'"
    and "loop_inv rank' (Q(q := Q q @ [cmd])) [] None s'"
proof -
  note I = inv[unfolded loop_inv_def]
  have l: "ll (node_next s) (root Q0) (Q q)" using I[THEN conjunct1, rule_format, of q] q by simp
  have new: "cmd \<notin> set (Q q)" using un by (auto simp: unused_def queued_def)
  have "ll (node_next s1) (root Q0) (Q q)" using l new by (simp add: sel ll_def)
  from sl.append_law[OF this new] obtain n h where a: "LL_APPEND (node_next s1) (root Q0) cmd = ok (n, h)"
    "ll n h (Q q @ [cmd])" "agree_nexts (- insert cmd (set (Q q))) (node_next s1) n" by blast
  define Q1 where "Q1 = Q0\<lparr>q_refcount := q_refcount Q0 + 1\<rparr>"
  have Q1: "queues s1 q = Some Q1" "root Q1 = root Q0" by (simp_all add: sel Q1_def)
  define s2 where "s2 = (put_queue q (Q1\<lparr>root := h\<rparr>) s1)\<lparr>node_next := n\<rparr>"
  have e2: "events s2 ev = Some e" "queues s2 q = Some (Q1\<lparr>root := h\<rparr>)" and n2: "nodes s2 cmd = Some x"
    by (simp_all add: s2_def sel x)
  obtain e' k where u: "POCL_UPDATE_EVENT_QUEUED ev q s2 = ok (s2\<lparr>ticks := k, events := (events s2)(ev \<mapsto> e')\<rparr>)"
    "status e' = CL_QUEUED" "same_event e e'"
    unfolding POCL_UPDATE_EVENT_QUEUED_def
    by (rule update_event_ok[OF e2, where expected = None and new = CL_QUEUED
          and upd = "\<lambda>t e. e\<lparr>time_queue := t\<rparr>"]) (auto simp: same_event_def)
  define s' where "s' = s2\<lparr>ticks := k, events := (events s2)(ev \<mapsto> e')\<rparr>"
  have eq: "pocl_command_enqueue q cmd s1 = ok s'"
    unfolding pocl_command_enqueue_def fetch_def Q1 option.case andthen_ok a(1) prod.case Let_def
      s2_def[symmetric] n2 x(2) u(1) s'_def ..
  have sel': "nodes s' = (nodes s)(cmd \<mapsto> x)" "events s' = (events s)(ev \<mapsto> e')" "node_next s' = n"
    "queues s' = (queues s)(q \<mapsto> Q1\<lparr>root := h\<rparr>)"
    by (simp_all add: s'_def s2_def sel x)
  have "agree_nexts (- insert cmd (set (Q q))) (node_next s) (node_next s')"
    using a(3) by (auto simp: agree_nexts_def sel sel')
  moreover have "ll (node_next s') (root (Q1\<lparr>root := h\<rparr>)) (Q q @ [cmd])"
    using a(2) by (simp add: sel')
  moreover have "e_queue e' = Some q" using u(3) sel(4) by (simp add: same_event_def)
  ultimately have "\<exists>rank'. loop_inv rank' (Q(q := Q q @ [cmd])) [] None s'"
    by (intro loop_inv_append[OF inv q un sel'(1) x(2,3) sel'(2) u(2) _ sel'(4) _ _ wl])
  moreover have "s' = s1\<lparr>ticks := ticks s', events := (events s)(ev \<mapsto> e'),
      queues := (queues s)(q \<mapsto> Q0\<lparr>q_refcount := q_refcount Q0 + 1, root := h\<rparr>), node_next := node_next s'\<rparr>"
    unfolding s'_def s2_def Q1_def by (simp add: sel)
  ultimately show thesis using that[OF eq _ u(2,3)] by blast
qed


text \<open>Creating a command and queueing it, as the enqueue functions do.\<close>

definition create_and_enqueue ::
  "nat option \<Rightarrow> nat option \<Rightarrow> nat \<Rightarrow> cl_command \<Rightarrow> bool \<Rightarrow> nat list option \<Rightarrow> cl_state \<Rightarrow> (nat \<times> nat \<times> cl_state) prog" where
  "create_and_enqueue cmd_ca event_ca q c wants wl s =
     andthen (pocl_create_command cmd_ca event_ca q c wants
        (length (case wl of None \<Rightarrow> [] | Some ws \<Rightarrow> ws)) (map_option (map Some) wl) s) (\<lambda>(err, r, s1).
     case r of
       None \<Rightarrow> throw AssertFail
     | Some (cmd, ev) \<Rightarrow> andthen (pocl_command_enqueue q cmd s1) (\<lambda>s2. ok (cmd, ev, s2)))"

lemma create_and_enqueue_inv:
  assumes inv: "loop_inv rank Q [] None s" and q: "queues s q = Some Q0"
    and src: "node_source cmd_ca cmd s" "event_source event_ca ev s" and un: "unused Q s cmd ev"
    and wl: "wl \<noteq> Some []" "\<forall>w \<in> set (case wl of None \<Rightarrow> [] | Some ws \<Rightarrow> ws). waitable Q s w \<and> w \<noteq> ev"
  shows "\<exists>s' rank'. create_and_enqueue cmd_ca event_ca q c wants wl s = ok (cmd, ev, s') \<and>
    loop_inv rank' (Q(q := Q q @ [cmd])) [] None s' \<and> node_event s' cmd = ev \<and>
    waits s' cmd = (case wl of None \<Rightarrow> [] | Some ws \<Rightarrow> ws) @ previous Q0 s (Q q) \<and>
    (\<exists>e. events s' ev = Some e \<and> status e = CL_QUEUED \<and> implicit_event e = (\<not> wants)) \<and>
    actions s' = actions s"
proof -
  note I = inv[unfolded loop_inv_def]
  have l: "ll (node_next s) (root Q0) (Q q)" using I[THEN conjunct1, rule_format, of q] q by simp
  have live: "\<forall>n \<in> set (Q q). nodes s n \<noteq> None" using I by (auto simp: pending_ok_def)
  have new: "cmd \<notin> set (Q q)" using un by (auto simp: unused_def queued_def)
  obtain e s1 where s1: "pocl_create_command cmd_ca event_ca q c wants
      (length (case wl of None \<Rightarrow> [] | Some ws \<Rightarrow> ws)) (map_option (map Some) wl) s
      = ok (CL_SUCCESS, Some (cmd, ev), s1)"
    "s1 = s\<lparr>events := (events s)(ev \<mapsto> e), queues := (queues s)(q \<mapsto> Q0\<lparr>q_refcount := q_refcount Q0 + 1\<rparr>),
           event_next := event_next s1, event_list := event_list s1, cmd_list := cmd_list s1,
           nodes := nodes s1, node_next := (node_next s)(cmd := None)\<rparr>"
    "\<exists>x. nodes s1 = (nodes s)(cmd \<mapsto> x) \<and> command x = c \<and> n_event x = ev \<and> n_device x = q_device Q0 \<and>
           (case event_wait_list x of None \<Rightarrow> [] | Some ws \<Rightarrow> ws) =
             (case wl of None \<Rightarrow> [] | Some ws \<Rightarrow> ws) @ previous Q0 s (Q q)"
    "e_queue e = Some q" "implicit_event e = (\<not> wants)"
    by (rule pocl_create_command_ok[OF src q l live new wl(1)])
  from s1(3) obtain x where x: "nodes s1 = (nodes s)(cmd \<mapsto> x)" "command x = c" "n_event x = ev"
    "(case event_wait_list x of None \<Rightarrow> [] | Some ws \<Rightarrow> ws) = (case wl of None \<Rightarrow> [] | Some ws \<Rightarrow> ws) @ previous Q0 s (Q q)"
    by blast
  have sel: "events s1 = (events s)(ev \<mapsto> e)" "queues s1 = (queues s)(q \<mapsto> Q0\<lparr>q_refcount := q_refcount Q0 + 1\<rparr>)"
    "node_next s1 = (node_next s)(cmd := None)" "actions s1 = actions s"
    using s1(2) by (cases s; cases s1; simp)+
  obtain s' e' h rank' where s': "pocl_command_enqueue q cmd s1 = ok s'"
    "s' = s1\<lparr>ticks := ticks s', events := (events s)(ev \<mapsto> e'),
       queues := (queues s)(q \<mapsto> Q0\<lparr>q_refcount := q_refcount Q0 + 1, root := h\<rparr>), node_next := node_next s'\<rparr>"
    "status e' = CL_QUEUED" "same_event e e'" "loop_inv rank' (Q(q := Q q @ [cmd])) [] None s'"
    by (rule enqueue_created_inv[OF inv q un wl(2) x(1,3,4) sel(1-3) s1(4)])
  have eq: "create_and_enqueue cmd_ca event_ca q c wants wl s = ok (cmd, ev, s')"
    by (simp add: create_and_enqueue_def s1(1) s'(1))
  have sel': "nodes s' = (nodes s)(cmd \<mapsto> x)" "events s' = (events s)(ev \<mapsto> e')" "actions s' = actions s"
    by (subst s'(2), simp add: sel x)+
  have "node_event s' cmd = ev" "waits s' cmd = (case wl of None \<Rightarrow> [] | Some ws \<Rightarrow> ws) @ previous Q0 s (Q q)"
    using x by (simp_all add: node_event_def waits_def sel')
  moreover have "implicit_event e' = (\<not> wants)" using s'(4) s1(5) by (simp add: same_event_def)
  ultimately show ?thesis using eq sel' s'(3,5) by (metis fun_upd_same)
qed

end
