(* ===== verification/Cl_Queue_Props.thy ===== *)
theory Cl_Queue_Props
  imports Cl_Exec Cl_Enqueue
begin

text \<open>
  The properties of command queues: \<open>clFinish\<close> terminates, executes every command of its queue
  once, after the commands it waits for and in queue order, and completes its events; and the
  situations in which commands run in the wrong order or the loop never ends.
\<close>

section \<open>Finishing a queue\<close>

lemma count_concat: "count_list (concat (map f xs)) b = (\<Sum>x\<leftarrow>xs. count_list (f x) b)"
  by (induction xs) simp_all

lemma count_concat_le:
  assumes "distinct R" and "distinct P" and "set R \<subseteq> set P"
  shows "count_list (concat (map f R)) b \<le> count_list (concat (map f P)) b"
  unfolding count_concat
  by (simp add: sum_list_distinct_conv_sum_set assms(1,2) sum_mono2 assms(3))

lemma held_subset:
  assumes "distinct R" and "distinct P" and "set R \<subseteq> set P"
  shows "buffers_held (concat (map f P)) s \<Longrightarrow> buffers_held (concat (map f R)) s"
    and "kernels_held (concat (map g P)) s \<Longrightarrow> kernels_held (concat (map g R)) s"
    and "queues_held (concat (map h P)) s \<Longrightarrow> queues_held (concat (map h R)) s"
proof -
  show "buffers_held (concat (map f R)) s" if h: "buffers_held (concat (map f P)) s"
    unfolding buffers_held_def
  proof (intro allI impI)
    fix b assume "Some b \<in> set (concat (map f R))"
    then have "Some b \<in> set (concat (map f P))" using assms(3) by auto
    with h obtain m where "mems s b = Some m" "int (count_list (concat (map f P)) (Some b)) < mem_refcount m"
      unfolding buffers_held_def by blast
    with count_concat_le[OF assms, of f "Some b"]
    show "\<exists>m. mems s b = Some m \<and> int (count_list (concat (map f R)) (Some b)) < mem_refcount m" by auto
  qed
  show "kernels_held (concat (map g R)) s" if h: "kernels_held (concat (map g P)) s"
    unfolding kernels_held_def
  proof
    fix b assume "b \<in> set (concat (map g R))"
    then have "b \<in> set (concat (map g P))" using assms(3) by auto
    with h obtain m where "kernels s b = Some m" "int (count_list (concat (map g P)) b) < k_refcount m"
      unfolding kernels_held_def by blast
    with count_concat_le[OF assms, of g b]
    show "\<exists>x. kernels s b = Some x \<and> int (count_list (concat (map g R)) b) < k_refcount x" by auto
  qed
  show "queues_held (concat (map h R)) s" if h: "queues_held (concat (map h P)) s"
    unfolding queues_held_def
  proof
    fix b assume "b \<in> set (concat (map h R))"
    then have "b \<in> set (concat (map h P))" using assms(3) by auto
    with h obtain m where "queues s b = Some m" "int (count_list (concat (map h P)) b) < q_refcount m"
      unfolding queues_held_def by blast
    with count_concat_le[OF assms, of h b]
    show "\<exists>x. queues s b = Some x \<and> int (count_list (concat (map h R)) b) < q_refcount x" by auto
  qed
qed

text \<open>
  The commands of the queues, listed in \<open>P\<close>, can be executed: they are of a type that only
  involves the device, and the application holds a reference to all objects they use.
\<close>

definition executable :: "cl_state \<Rightarrow> nat list \<Rightarrow> bool" where
  "executable s P \<longleftrightarrow>
     (\<forall>n \<in> set P. \<exists>x e. nodes s n = Some x \<and> plain (command x) \<and> devices s (n_device x) \<noteq> None \<and>
        events s (n_event x) = Some e \<and> (implicit_event e \<longrightarrow> e_refcount e = 1)) \<and>
     buffers_held (all_buffer_refs s P) s \<and> kernels_held (all_kernel_refs s P) s \<and>
     queues_held (all_queue_refs s P) s"

lemma fin_ok_clFinish: "fin_ok (clFinish (Suc d))"
proof -
  have "clFinish (Suc d) q s = ok (CL_SUCCESS, s)"
    if "queues s q = Some Q" "root Q = None" "\<not> q_out_of_order Q" for q s Q
  proof -
    have "finish_loop q (Some q, None, s) = ok (None, s)"
      using that by (simp add: finish_loop.simps[of q "(Some q, None, s)"] finish_step_def fetch_def ok_def)
    then show ?thesis using that
      by (simp add: fetch_def exec_commands_def exec_list.simps[of _ None s] free_commands.simps[of None s] ok_def)
  qed
  then show ?thesis by (simp add: fin_ok_def)
qed

lemma ready_ok_after_loop:
  assumes inv: "loop_inv rank Q [] None s" and qc: "queues s cq = Some qc" "\<not> q_out_of_order qc"
    and P: "distinct P" "set P = queued Q" "executable s P"
    and other: "\<forall>q. q \<noteq> cq \<longrightarrow> (\<forall>n \<in> set (Q q). queue_refs s n = [])"
    and inv1: "loop_inv rank Q' R ready s1" and sub: "submitted R s s1" and "Q' cq = []" and R: "set R \<subseteq> queued Q"
  shows "ready_ok s1 R" and "\<forall>n \<in> set R. node_actions s1 n = node_actions s n"
proof -
  note I = inv[unfolded loop_inv_def] and I1 = inv1[unfolded loop_inv_def] and S = sub[unfolded submitted_def]
  have sel: "mems s1 = mems s" "kernels s1 = kernels s" "devices s1 = devices s" "nodes s1 = nodes s"
    using S[THEN conjunct1] by (cases s; cases s1; simp)+
  have ev: "node_event s1 = node_event s" by (rule node_event_cong[OF sel(4)])
  have nc: "node_command s1 = node_command s" by (simp add: node_command_def[abs_def] sel)
  have dR: "distinct R" using I1 by (auto simp: ll_def)
  have RP: "set R \<subseteq> set P" using R P by simp
  have evs: "\<exists>e e'. events s (node_event s n) = Some e \<and> events s1 (node_event s n) = Some e'
      \<and> status e' = CL_SUBMITTED \<and> same_event e e'" if "n \<in> set R" for n
    using S that by blast
  have qr: "queue_refs s1 n = queue_refs s n" if "n \<in> set R" for n
    using evs[OF that] by (auto simp: queue_refs_def ev same_event_def)
  have "inj_on (node_event s) (set R)" using I R unfolding queued_def by (metis inj_on_subset)
  then have d: "distinct (map (node_event s1) R)" using dR by (simp add: distinct_map ev)
  have run: "runnable s1 n" if n: "n \<in> set R" for n
  proof -
    from n RP P(3) obtain x e where x: "nodes s n = Some x" "plain (command x)" "devices s (n_device x) \<noteq> None"
      and e: "events s (n_event x) = Some e" "implicit_event e \<longrightarrow> e_refcount e = 1"
      unfolding executable_def by blast
    have ne: "node_event s n = n_event x" by (simp add: node_event_def x)
    from evs[OF n] e ne obtain e' where e': "events s1 (n_event x) = Some e'" "status e' = CL_SUBMITTED"
      "same_event e e'" by auto
    from n R obtain q where q: "n \<in> set (Q q)" unfolding queued_def by blast
    have "pending_ok rank Q s q n" using I q by blast
    with e(1) ne have eq: "e_queue e = Some q" by (auto simp: pending_ok_def)
    from loop_inv_queue[OF inv q] obtain y where y: "queues s q = Some y" by blast
    have rel: "rel_option same_queue (queues s q) (queues s1 q)" using S by blast
    with y obtain y' where y': "queues s1 q = Some y'" "same_queue y y'" by (auto simp: option_rel_Some1)
    have "root y' = None \<and> \<not> q_out_of_order y'" if "implicit_event e"
    proof -
      have "q = cq"
      proof (rule ccontr)
        assume "q \<noteq> cq"
        with other q have "queue_refs s n = []" by blast
        with that e eq ne show False by (simp add: queue_refs_def)
      qed
      then have "ll (node_next s1) (root y') []"
        using I1[THEN conjunct1, rule_format, of q] y' assms(10) by simp
      moreover have "q_out_of_order y' = q_out_of_order y" using y'(2) by (cases y; cases y') (simp add: same_queue_def)
      ultimately show ?thesis using qc y \<open>q = cq\<close> by (simp add: ll_def)
    qed
    with x e e' eq y' show ?thesis unfolding runnable_def
      by (intro exI[of _ x] exI[of _ e'] exI[of _ q] exI[of _ y']) (auto simp: sel same_event_def)
  qed
  have "all_queue_refs s1 R = all_queue_refs s R" using qr by (auto intro!: arg_cong[of _ _ concat] cong: map_cong)
  moreover have "queues_held (all_queue_refs s R) s1"
  proof -
    have h: "queues_held (all_queue_refs s R) s"
      by (rule held_subset(3)[OF dR P(1) RP]) (use P(3) in \<open>simp add: executable_def\<close>)
    show ?thesis unfolding queues_held_def
    proof
      fix q assume "q \<in> set (all_queue_refs s R)"
      with h obtain y where y: "queues s q = Some y" "int (count_list (all_queue_refs s R) q) < q_refcount y"
        unfolding queues_held_def by blast
      have "rel_option same_queue (queues s q) (queues s1 q)" using S by blast
      with y obtain y' where "queues s1 q = Some y'" "q_refcount y' = q_refcount y"
        by (auto simp: option_rel_Some1) (metis cl_command_queue.select_convs(1) cl_command_queue.surjective
            cl_command_queue.update_convs(6) same_queue_def)
      with y show "\<exists>x. queues s1 q = Some x \<and> int (count_list (all_queue_refs s R) q) < q_refcount x" by simp
    qed
  qed
  moreover have "buffers_held (all_buffer_refs s R) s1" "kernels_held (all_kernel_refs s R) s1"
    using held_subset(1,2)[OF dR P(1) RP] P(3) by (simp_all add: executable_def buffers_held_def kernels_held_def sel)
  ultimately show "ready_ok s1 R"
    using d run unfolding ready_ok_def nc by simp
  show "\<forall>n \<in> set R. node_actions s1 n = node_actions s n"
  proof
    fix n assume n: "n \<in> set R"
    from n RP P(3) obtain x where x: "nodes s n = Some x" unfolding executable_def by blast
    with evs[OF n] show "node_actions s1 n = node_actions s n"
      by (auto simp: node_actions_def sel node_event_def same_event_def split: option.splits)
  qed
qed

lemma loop_inv_after_exec:
  assumes inv: "loop_inv rank Q' R ready s1" and ex: "executed R s1 s2"
    and inj: "inj_on (node_event s1) (queued Q' \<union> set R)" and N: "agree_nexts (- set R) (node_next s2) N"
  shows "loop_inv rank Q' [] None (s2\<lparr>node_next := N, cmd_list := h\<rparr>)"
proof -
  let ?s = "s2\<lparr>node_next := N, cmd_list := h\<rparr>"
  note I = inv[unfolded loop_inv_def] and E = ex[unfolded executed_def]
  have sel: "node_next s2 = node_next s1" "nodes s2 = nodes s1"
    "queues s2 = less_qrefs (all_queue_refs s1 R) (queues s1)"
    using E[THEN conjunct1] by (cases s1; cases s2; simp)+
  have ev: "node_event ?s = node_event s1" "waits ?s = waits s1"
    by (simp_all add: node_event_def[abs_def] waits_def[abs_def] sel)
  have out: "events ?s w = events s1 w" if "w \<notin> node_event s1 ` set R" for w using E that by simp
  have dn: "event_done ?s w" if "event_done s1 w" for w
  proof (cases "w \<in> node_event s1 ` set R")
    case True
    then obtain n where "n \<in> set R" "w = node_event s1 n" by blast
    with E show ?thesis unfolding event_done_def by (auto dest!: bspec)
  qed (use that out in \<open>simp add: event_done_def\<close>)
  have live: "events ?s w \<noteq> None" if "events s1 w \<noteq> None" for w
    using E out[of w] that by (cases "w \<in> node_event s1 ` set R") (auto dest!: bspec)
  have "case queues ?s q of None \<Rightarrow> Q' q = [] | Some x \<Rightarrow> ll (node_next ?s) (root x) (Q' q)" for q
  proof -
    have "set (Q' q) \<subseteq> - set R" using I by blast
    from ll_frame[OF N this] I[THEN conjunct1, rule_format, of q] show ?thesis
      by (auto simp: sel less_qrefs_def split: option.splits)
  qed
  moreover have "pending_ok rank Q' ?s q n" if n: "n \<in> set (Q' q)" for q n
  proof -
    have p: "pending_ok rank Q' s1 q n" using I n by blast
    have nR: "n \<notin> set R" using I n by blast
    have "node_event s1 n \<notin> node_event s1 ` set R"
    proof
      assume "node_event s1 n \<in> node_event s1 ` set R"
      then obtain m where m: "m \<in> set R" "node_event s1 n = node_event s1 m" by blast
      moreover have "n \<in> queued Q' \<union> set R" "m \<in> queued Q' \<union> set R" using n m by (auto simp: queued_def)
      ultimately have "n = m" using inj_onD[OF inj] by blast
      with m nR show False by simp
    qed
    note same = out[OF this]
    have "\<exists>e. events ?s w = Some e \<and> (event_done ?s w \<or>
        (\<exists>q' m. e_queue e = Some q' \<and> m \<in> set (Q' q') \<and> node_event ?s m = w \<and> rank m < rank n))"
      if w: "w \<in> set (waits s1 n)" for w
    proof -
      from p w obtain e where e: "events s1 w = Some e" and or: "event_done s1 w \<or>
          (\<exists>q' m. e_queue e = Some q' \<and> m \<in> set (Q' q') \<and> node_event s1 m = w \<and> rank m < rank n)"
        unfolding pending_ok_def by blast
      show ?thesis
      proof (cases "event_done s1 w")
        case True
        with dn live[of w] e show ?thesis by auto
      next
        case False
        with or obtain q' m where m: "e_queue e = Some q'" "m \<in> set (Q' q')" "node_event s1 m = w" "rank m < rank n"
          by blast
        have "w \<notin> node_event s1 ` set R"
        proof
          assume "w \<in> node_event s1 ` set R"
          then obtain l where l: "l \<in> set R" "node_event s1 m = node_event s1 l" using m by auto
          moreover have "m \<in> queued Q' \<union> set R" "l \<in> queued Q' \<union> set R" using m l by (auto simp: queued_def)
          ultimately have "m = l" using inj_onD[OF inj] by blast
          moreover have "set (Q' q') \<inter> set R = {}" using I by blast
          ultimately show False using m(2) l(1) by blast
        qed
        with out[OF this] e m show ?thesis unfolding ev by metis
      qed
    qed
    with p same show ?thesis unfolding pending_ok_def ev by (simp add: sel)
  qed
  ultimately show ?thesis
    using I unfolding loop_inv_def ev by (auto simp: ll_def)
qed

lemma same_queue_less:
  "same_queue x y \<Longrightarrow> same_queue (x\<lparr>q_refcount := q_refcount x - k\<rparr>) (y\<lparr>q_refcount := q_refcount y - k\<rparr>)"
  by (cases x; cases y) (simp add: same_queue_def)

text \<open>One call of \<open>clFinish\<close>, with the references it gives back.\<close>

lemma clFinish_run:
  assumes "loop_inv rank Q [] None s" and "queues s cq = Some qc" and "\<not> q_out_of_order qc"
    and "distinct P" and "set P = queued Q" and "executable s P"
    and "\<forall>q. q \<noteq> cq \<longrightarrow> (\<forall>n \<in> set (Q q). queue_refs s n = [])"
  obtains s' R Q' where "clFinish (Suc (Suc d)) cq s = ok (CL_SUCCESS, s')"
    and "Q' cq = []" and "\<forall>q. Q q = filter (\<lambda>n. n \<in> set (Q q)) R @ Q' q" and "ordered s {} R"
    and "actions s' = actions s @ concat (map (node_actions s) R)"
    and "\<forall>n \<in> set R. \<exists>e. events s' (node_event s n) = Some e \<and> status e = CL_COMPLETE"
    and "\<forall>w. w \<notin> node_event s ` set R \<longrightarrow> events s' w = events s w"
    and "loop_inv rank Q' [] None s'"
    and "distinct R" and "set R \<subseteq> queued Q" and "mems s' = less_refs (all_buffer_refs s R) (mems s)"
    and "contexts s' = contexts s" and "devices s' = devices s"
    and "\<forall>p. rel_option same_queue (less_qrefs (all_queue_refs s R) (queues s) p) (queues s' p)"
proof -
  have "queues s cq \<noteq> None" using assms(2) by simp
  from finish_loop_ok[OF assms(1) this this] obtain ready s1 Q' R where L:
    "finish_loop cq (Some cq, None, s) = ok (ready, s1)" "loop_inv rank Q' R ready s1" "Q' cq = []"
    "submitted R s s1" "ordered s {} R" "\<forall>q. Q q = filter (\<lambda>n. n \<in> set (Q q)) R @ Q' q" "set R \<subseteq> queued Q"
    by auto
  note rdy = ready_ok_after_loop[OF assms L(2,4,3,7)]
  note S = L(4)[unfolded submitted_def]
  have sel: "actions s1 = actions s" "nodes s1 = nodes s" using S[THEN conjunct1] by (cases s; cases s1; simp)+
  have ev: "node_event s1 = node_event s" by (rule node_event_cong[OF sel(2)])
  have l: "ready = first_ref R" "nseg (node_next s1) R None" "distinct R"
    using L(2) by (auto simp: loop_inv_def ll_def)
  from exec_list_ok[OF l(2) rdy(1) fin_ok_clFinish[of d]] obtain s2 where
    E: "exec_list (clFinish (Suc d)) (first_ref R) s1 = ok s2" "executed R s1 s2" by blast
  note X = E(2)[unfolded executed_def]
  have n2: "node_next s2 = node_next s1" using X[THEN conjunct1] by (cases s1; cases s2; simp)
  have "nseg (node_next s2) R None" using l(2) n2 by simp
  from free_commands_ok[OF this l(3)] obtain N h where
    F: "free_commands (first_ref R) s2 = ok (s2\<lparr>node_next := N, cmd_list := h\<rparr>)"
    "agree_nexts (- set R) (node_next s2) N" by blast
  let ?s = "s2\<lparr>node_next := N, cmd_list := h\<rparr>"
  have "clFinish (Suc (Suc d)) cq s = ok (CL_SUCCESS, ?s)"
    using assms(2,3) L(1) E(1) F(1) l(1) by (simp add: fetch_def exec_commands_def)
  moreover have "actions ?s = actions s @ concat (map (node_actions s) R)"
  proof -
    have "actions s2 = actions s1 @ concat (map (node_actions s1) R)"
      using X[THEN conjunct1] by (cases s1; cases s2; simp)
    moreover have "map (node_actions s1) R = map (node_actions s) R" using rdy(2) by simp
    ultimately show ?thesis by (simp add: sel)
  qed
  moreover have "\<forall>n \<in> set R. \<exists>e. events ?s (node_event s n) = Some e \<and> status e = CL_COMPLETE"
    using X ev by simp
  moreover have "events ?s w = events s w" if "w \<notin> node_event s ` set R" for w
    using X S that ev by simp
  moreover have "loop_inv rank Q' [] None ?s"
  proof (rule loop_inv_after_exec[OF L(2) E(2) _ F(2)])
    have "queued Q' \<subseteq> queued Q" 
    proof
      fix n assume "n \<in> queued Q'"
      then obtain q where "n \<in> set (Q' q)" unfolding queued_def by blast
      then have "n \<in> set (Q q)" using L(6)[rule_format, of q] by (metis Un_iff set_append)
      then show "n \<in> queued Q" unfolding queued_def by blast
    qed
    moreover have "inj_on (node_event s) (queued Q)" using assms(1) unfolding loop_inv_def queued_def by blast
    ultimately show "inj_on (node_event s1) (queued Q' \<union> set R)"
      unfolding ev using L(7) by (metis Un_subset_iff inj_on_subset)
  qed
  moreover have "mems ?s = less_refs (all_buffer_refs s R) (mems s)" "contexts ?s = contexts s" "devices ?s = devices s"
    using X[THEN conjunct1] S[THEN conjunct1] by (cases s; cases s1; cases s2; simp add: node_command_def)+
  moreover have "rel_option same_queue (less_qrefs (all_queue_refs s R) (queues s) p) (queues ?s p)" for p
  proof -
    have "queue_refs s1 n = queue_refs s n" if "n \<in> set R" for n
      using S that by (force simp: queue_refs_def ev same_event_def)
    then have refs: "all_queue_refs s1 R = all_queue_refs s R" by (auto intro!: arg_cong[of _ _ concat])
    have "rel_option same_queue (queues s p) (queues s1 p)" using S by blast
    moreover have "queues ?s = less_qrefs (all_queue_refs s R) (queues s1)"
      using X[THEN conjunct1] refs by (cases s1; cases s2; simp)
    ultimately show ?thesis
      by (cases "queues s p"; cases "queues s1 p")
        (auto simp: less_qrefs_def intro: same_queue_less)
  qed
  ultimately show thesis using that[of ?s Q' R] L(3,5,6,7) l(3) by blast
qed

text \<open>C26: \<open>clFinish\<close> of an in-order queue terminates when the queues can be finished: each is a list of
  queued commands, and the commands have a numbering that grows along every queue and from every
  event waited for, which is complete or belongs to a queued command, to the waiting command. Let the
  commands be no mappings, their buffers, kernels and queues be held by the application beyond the
  references of the commands, and let the application have asked for the event of every command of
  the other queues. Then the call answers \<open>CL_SUCCESS\<close> with the queue empty, having executed a list
  \<open>R\<close> of commands that contains every command of the queue, takes from the front of each queue in its
  order, and puts every command behind the ones it waits for; the device sees exactly the actions of
  \<open>R\<close> in this order, the events of \<open>R\<close> are complete, all other events are untouched, and the queues
  can be finished again. Without the condition on the other queues the order can be wrong, as
  \<open>released_event_runs_ahead\<close> shows.\<close>

theorem clFinish_executes:
  assumes "loop_inv rank Q [] None s" and "queues s cq = Some qc" and "\<not> q_out_of_order qc"
    and "distinct P" and "set P = queued Q" and "executable s P"
    and "\<forall>q. q \<noteq> cq \<longrightarrow> (\<forall>n \<in> set (Q q). queue_refs s n = [])"
  shows "\<exists>s' R Q'. clFinish (Suc (Suc d)) cq s = ok (CL_SUCCESS, s') \<and>
    Q' cq = [] \<and> (\<forall>q. Q q = filter (\<lambda>n. n \<in> set (Q q)) R @ Q' q) \<and> ordered s {} R \<and>
    actions s' = actions s @ concat (map (node_actions s) R) \<and>
    (\<forall>n \<in> set R. \<exists>e. events s' (node_event s n) = Some e \<and> status e = CL_COMPLETE) \<and>
    (\<forall>w. w \<notin> node_event s ` set R \<longrightarrow> events s' w = events s w) \<and>
    loop_inv rank Q' [] None s'"
  by (rule clFinish_run[OF assms, of d]) blast

text \<open>Sample objects: a device, queues without profiling, events and nodes.\<close>

definition sample_device :: cl_device where
  "sample_device = \<lparr>dev_refcount = 1, max_work_item_dimensions = 3, max_work_group_size = 1024,
     max_work_item_sizes = (\<lambda>_. 1024), preferred_wg_multiple = 8, compiles_submitted = False, unmaps = True\<rparr>"

definition sample_queue :: "nat option \<Rightarrow> cl_command_queue" where
  "sample_queue h = \<lparr>q_refcount = 10, q_context = 0, q_device = 0, q_out_of_order = False,
     q_profiling = False, root = h\<rparr>"

definition sample_event :: "nat \<Rightarrow> bool \<Rightarrow> cl_event" where
  "sample_event q i = zero_event\<lparr>e_refcount := 1, e_queue := Some q, status := CL_QUEUED, implicit_event := i\<rparr>"

definition sample_node :: "cl_command \<Rightarrow> nat \<Rightarrow> nat list option \<Rightarrow> command_node" where
  "sample_node c ev ws = \<lparr>command = c, n_event = ev, event_wait_list = ws, n_device = 0\<rparr>"

lemmas sample_defs = sample_device_def sample_queue_def sample_event_def sample_node_def zero_event_def

text \<open>Queue 0 holds one marker, node 0, whose event 0 the application has not asked for.\<close>

definition one_marker :: cl_state where
  "one_marker = no_objects\<lparr>devices := [0 \<mapsto> sample_device], queues := [0 \<mapsto> sample_queue (Some 0)],
     events := [0 \<mapsto> sample_event 0 True], nodes := [0 \<mapsto> sample_node Marker 0 None]\<rparr>"

abbreviation one_queued :: "nat \<Rightarrow> nat list" where
  "one_queued q \<equiv> if q = 0 then [0] else []"

lemma one_marker_inv: "loop_inv id one_queued [] None one_marker"
proof -
  have "(\<Union>q. set (one_queued q)) = {0}" by auto
  then show ?thesis
    by (auto simp: loop_inv_def pending_ok_def one_marker_def sample_defs ll_def node_event_def waits_def
        split: if_splits)
qed

text \<open>
  Queue 0 holds the command 0, which waits for command 2 of queue 1, and whose event nobody asked
  for. Queue 1 holds the commands 1 and 2.
\<close>

definition two_queues :: cl_state where
  "two_queues = no_objects\<lparr>devices := [0 \<mapsto> sample_device],
     queues := [0 \<mapsto> sample_queue (Some 0), 1 \<mapsto> sample_queue (Some 1)],
     events := [0 \<mapsto> sample_event 0 True, 1 \<mapsto> sample_event 1 False, 2 \<mapsto> sample_event 1 False],
     nodes := [0 \<mapsto> sample_node (Native_kernel []) 0 (Some [2]), 1 \<mapsto> sample_node (Native_kernel []) 1 None,
               2 \<mapsto> sample_node (Native_kernel []) 2 (Some [1])],
     node_next := (\<lambda>_. None)(1 := Some 2)\<rparr>"

abbreviation two_queued :: "nat \<Rightarrow> nat list" where
  "two_queued q \<equiv> if q = 0 then [0] else if q = 1 then [1, 2] else []"

lemma two_queues_inv: "loop_inv (\<lambda>n. (n + 2) mod 3) two_queued [] None two_queues"
proof -
  have "(\<Union>q. set (two_queued q)) = {0, 1, 2}" by (auto split: if_splits)
  then show ?thesis
    by (auto simp: loop_inv_def pending_ok_def two_queues_def sample_defs ll_def node_event_def waits_def event_done_def
        split: if_splits)
qed

lemma clFinish_executes_witness:
  "\<exists>s' R Q'. clFinish (Suc (Suc 0)) 0 two_queues = ok (CL_SUCCESS, s') \<and>
    Q' 0 = [] \<and> (\<forall>q. two_queued q = filter (\<lambda>n. n \<in> set (two_queued q)) R @ Q' q) \<and> ordered two_queues {} R \<and>
    actions s' = actions two_queues @ concat (map (node_actions two_queues) R) \<and>
    (\<forall>n \<in> set R. \<exists>e. events s' (node_event two_queues n) = Some e \<and> status e = CL_COMPLETE) \<and>
    (\<forall>w. w \<notin> node_event two_queues ` set R \<longrightarrow> events s' w = events two_queues w) \<and>
    loop_inv (\<lambda>n. (n + 2) mod 3) Q' [] None s'"
proof (rule clFinish_executes[OF two_queues_inv])
  show "queues two_queues 0 = Some (sample_queue (Some 0))" by (simp add: two_queues_def)
  show "\<not> q_out_of_order (sample_queue (Some 0))" by (simp add: sample_queue_def)
  show "distinct [0 :: nat, 1, 2]" by simp
  show "set [0, 1, 2] = queued two_queued" by (auto simp: queued_def split: if_splits)
  show "executable two_queues [0, 1, 2]"
    by (simp add: executable_def two_queues_def sample_defs buffers_held_def kernels_held_def queues_held_def
        node_command_def queue_refs_def node_event_def)
  show "\<forall>q. q \<noteq> 0 \<longrightarrow> (\<forall>n \<in> set (two_queued q). queue_refs two_queues n = [])"
    by (simp add: queue_refs_def two_queues_def sample_defs node_event_def)
qed

section \<open>Adding to a queue\<close>

text \<open>C27: Creating a command and appending it to its queue keeps the queues finishable, so that
  \<open>clFinish_executes\<close> applies after any number of enqueued commands: given a fresh or recycled
  node and event, and a wait list of events that are complete or belong to queued commands, the
  command is appended with a queued event of its own, which is implicit exactly when the caller
  wants no event, and waits for the list and, in an in-order queue, for the command before it.\<close>

theorem enqueue_keeps_finishable:
  assumes "loop_inv rank Q [] None s" and "queues s q = Some Q0"
    and "node_source cmd_ca cmd s" and "event_source event_ca ev s" and "unused Q s cmd ev"
    and "wl \<noteq> Some []" and "\<forall>w \<in> set (case wl of None \<Rightarrow> [] | Some ws \<Rightarrow> ws). waitable Q s w \<and> w \<noteq> ev"
  shows "\<exists>s' rank'. create_and_enqueue cmd_ca event_ca q c wants wl s = ok (cmd, ev, s') \<and>
    loop_inv rank' (Q(q := Q q @ [cmd])) [] None s' \<and> node_event s' cmd = ev \<and>
    waits s' cmd = (case wl of None \<Rightarrow> [] | Some ws \<Rightarrow> ws) @ previous Q0 s (Q q) \<and>
    (\<exists>e. events s' ev = Some e \<and> status e = CL_QUEUED \<and> implicit_event e = (\<not> wants)) \<and>
    actions s' = actions s"
  using assms by (rule create_and_enqueue_inv)

lemma enqueue_keeps_finishable_witness:
  "\<exists>s' rank'. create_and_enqueue (Some 1) (Some 1) 0 Marker True (Some [0]) one_marker = ok (1, 1, s') \<and>
    loop_inv rank' (one_queued(0 := one_queued 0 @ [1])) [] None s' \<and> node_event s' 1 = 1 \<and>
    waits s' 1 = (case Some [0] of None \<Rightarrow> [] | Some ws \<Rightarrow> ws) @
      previous (sample_queue (Some 0)) one_marker (one_queued 0) \<and>
    (\<exists>e. events s' 1 = Some e \<and> status e = CL_QUEUED \<and> implicit_event e = (\<not> True)) \<and>
    actions s' = actions one_marker"
  by (rule enqueue_keeps_finishable[OF one_marker_inv])
    (auto simp: one_marker_def node_source_def event_source_def unused_def queued_def waitable_def
      sample_defs node_event_def waits_def split: if_splits)

section \<open>Waiting for a user event\<close>

lemma scan_waits_last:
  assumes "\<forall>w \<in> set ws. events s w \<noteq> None" and "events s u = Some e" and "status e = CL_QUEUED"
  shows "scan_waits (ws @ [u]) at r s = ok (e_queue e, False)"
  using assms(1) by (induction ws arbitrary: at r) (auto simp: fetch_def assms(2,3))

text \<open>C34: A user event belongs to no queue, so the loop that collects the ready commands has no
  queue to go to: whenever the first command of the queue waits, last in its list, for a user
  event that is not complete, \<open>clFinish\<close> follows a null pointer.\<close>

theorem waiting_for_user_event_crashes:
  assumes "queues s cq = Some qc" and "\<not> q_out_of_order qc" and "root qc = Some n" and "nodes s n = Some x"
    and "event_wait_list x = Some (ws @ [u])" and "\<forall>w \<in> set ws. events s w \<noteq> None"
    and "events s u = Some e" and "e_queue e = None" and "status e = CL_QUEUED"
  shows "clFinish (Suc d) cq s = throw NullDeref"
proof -
  have step: "finish_step cq (Some cq, None, s) = ok (Some (None, None, s))"
    using assms(1-5,8) scan_waits_last[OF assms(6,7,9)] by (simp add: finish_step_def fetch_def)
  have "finish_step cq (None, None, s) = throw NullDeref"
    using assms(1,3) by (simp add: finish_step_def fetch_def)
  then have "finish_loop cq (None, None, s) = throw NullDeref"
    by (simp add: finish_loop.simps[of cq "(None, None, s)"] throw_def)
  then have "finish_loop cq (Some cq, None, s) = throw NullDeref"
    using step by (simp add: finish_loop.simps[of cq "(Some cq, None, s)"] ok_def)
  then show ?thesis using assms(1,2) by (simp add: fetch_def)
qed

text \<open>The state after \<open>clCreateUserEvent\<close> and a marker that waits for its event.\<close>

definition user_wait :: cl_state where
  "user_wait = no_objects\<lparr>devices := [0 \<mapsto> sample_device], queues := [0 \<mapsto> sample_queue (Some 0)],
     events := [0 \<mapsto> sample_event 0 False, 1 \<mapsto> (sample_event 0 False)\<lparr>e_queue := None\<rparr>],
     nodes := [0 \<mapsto> sample_node Marker 0 (Some [1])]\<rparr>"

lemma waiting_for_user_event_crashes_witness:
  "clFinish (Suc 1) 0 user_wait = throw NullDeref"
  by (rule waiting_for_user_event_crashes[where ws = "[]" and u = 1 and n = 0 and qc = "sample_queue (Some 0)"
        and x = "sample_node Marker 0 (Some [1])" and e = "(sample_event 0 False)\<lparr>e_queue := None\<rparr>"])
    (simp_all add: user_wait_def sample_queue_def sample_node_def sample_event_def zero_event_def)

section \<open>The nested clFinish\<close>

text \<open>
  Queue 0 holds the command 0, which waits for command 2 of queue 1. Queue 1 holds the commands
  1, 2 and 3, each waiting for the one before it, and 3 also for command 0 of the other queue.
  The application asked for no event of command 1.
\<close>

definition crossed :: cl_state where
  "crossed = no_objects\<lparr>devices := [0 \<mapsto> sample_device],
     queues := [0 \<mapsto> sample_queue (Some 0), 1 \<mapsto> sample_queue (Some 1)],
     events := [0 \<mapsto> sample_event 0 False, 1 \<mapsto> sample_event 1 True, 2 \<mapsto> sample_event 1 False,
                3 \<mapsto> sample_event 1 False],
     nodes := [0 \<mapsto> sample_node (Native_kernel []) 0 (Some [2]), 1 \<mapsto> sample_node (Native_kernel []) 1 None,
               2 \<mapsto> sample_node (Native_kernel []) 2 (Some [1]), 3 \<mapsto> sample_node (Native_kernel []) 3 (Some [0, 2])],
     node_next := (\<lambda>_. None)(1 := Some 2, 2 := Some 3)\<rparr>"

text \<open>When a command whose event the application did not ask for has run, its event is released,
  which flushes the command's queue. Finishing queue 0 of \<open>crossed\<close> thereby runs command 3 in
  the middle of the ready list: before command 2, its predecessor in an in-order queue, and
  before command 0, for which it waits explicitly. \<open>SUBMITTED\<close> counts as done.\<close>

lemma released_event_runs_ahead:
  "map_option (map_sum id (\<lambda>(e, s). actions s)) (clFinish 3 0 crossed)
     = Some (Inr (map (Dev_run_native 0) [1, 3, 2, 0]))"
  by code_simp

end
