(* ===== verification/Cl_Objects_Props.thy ===== *)
theory Cl_Objects_Props
  imports Cl_Queue_Props
begin

text \<open>
  Reference counting: one contract for the retain and release functions of all kinds of objects,
  and its instances.
\<close>

section \<open>The contract of a counted object\<close>

text \<open>
  \<open>get\<close> finds the objects of one kind that a release above the last one leaves alone, \<open>put\<close> writes
  one back.
\<close>

locale refcounted =
  fixes get :: "cl_state \<Rightarrow> nat \<Rightarrow> 'o option"
    and put :: "nat \<Rightarrow> 'o \<Rightarrow> cl_state \<Rightarrow> cl_state"
    and count :: "'o \<Rightarrow> int"
    and set_count :: "int \<Rightarrow> 'o \<Rightarrow> 'o"
    and retain :: "nat \<Rightarrow> cl_state \<Rightarrow> (int \<times> cl_state) prog"
    and release :: "nat \<Rightarrow> cl_state \<Rightarrow> (int \<times> cl_state) prog"
  assumes get_put: "get s i = Some x \<Longrightarrow> get (put i (set_count n x) s) i = Some (set_count n x)"
    and put_put: "put i y (put i x s) = put i y s"
    and put_get: "get s i = Some x \<Longrightarrow> put i (set_count (count x) x) s = s"
    and count_set: "count (set_count n x) = n"
    and set_set: "set_count n (set_count k x) = set_count n x"
    and retain_law: "get s i = Some x \<Longrightarrow> retain i s = ok (CL_SUCCESS, put i (set_count (count x + 1) x) s)"
    and release_law: "get s i = Some x \<Longrightarrow> 1 < count x \<Longrightarrow>
           release i s = ok (CL_SUCCESS, put i (set_count (count x - 1) x) s)"

text \<open>A sequence of calls, \<open>True\<close> for a retain, and the status codes they answer.\<close>

fun calls :: "(nat \<Rightarrow> cl_state \<Rightarrow> (int \<times> cl_state) prog) \<Rightarrow> (nat \<Rightarrow> cl_state \<Rightarrow> (int \<times> cl_state) prog) \<Rightarrow>
  nat \<Rightarrow> bool list \<Rightarrow> cl_state \<Rightarrow> (int list \<times> cl_state) prog" where
  "calls ret rel i [] s = ok ([], s)"
| "calls ret rel i (b # bs) s =
     andthen ((if b then ret else rel) i s) (\<lambda>(e, s1).
     andthen (calls ret rel i bs s1) (\<lambda>(es, s2). ok (e # es, s2)))"

fun net :: "bool list \<Rightarrow> int" where
  "net [] = 0"
| "net (b # bs) = (if b then 1 else -1) + net bs"

text \<open>No release of the sequence is the last one of an object with \<open>n\<close> references.\<close>

fun alive :: "int \<Rightarrow> bool list \<Rightarrow> bool" where
  "alive n [] \<longleftrightarrow> True"
| "alive n (b # bs) \<longleftrightarrow> (if b then alive (n + 1) bs else 1 < n \<and> alive (n - 1) bs)"

context refcounted
begin

lemma calls_ok:
  "get s i = Some x \<Longrightarrow> alive (count x) bs \<Longrightarrow>
     calls retain release i bs s = ok (replicate (length bs) CL_SUCCESS, put i (set_count (count x + net bs) x) s)"
proof (induction bs arbitrary: s x)
  case Nil
  then show ?case by (simp add: put_get)
next
  case (Cons b bs)
  let ?n = "if b then count x + 1 else count x - 1"
  have st: "(if b then retain else release) i s = ok (CL_SUCCESS, put i (set_count ?n x) s)"
    using Cons.prems retain_law release_law by simp
  have "calls retain release i bs (put i (set_count ?n x) s)
      = ok (replicate (length bs) CL_SUCCESS,
            put i (set_count (count (set_count ?n x) + net bs) (set_count ?n x)) (put i (set_count ?n x) s))"
    by (rule Cons.IH[OF get_put[OF Cons.prems(1)]]) (use Cons.prems(2) in \<open>simp add: count_set\<close>)
  with st show ?case by (simp add: put_put set_set count_set algebra_simps)
qed

end

lemma fun_upd_Some_triv: "f i = Some x \<Longrightarrow> f(i \<mapsto> x) = f"
  by (simp add: fun_upd_idem)

interpretation mem: refcounted mems "\<lambda>i x. put_mem i x" mem_refcount "\<lambda>n x. x\<lparr>mem_refcount := n\<rparr>"
    "\<lambda>i. clRetainMemObject (Some i)" "\<lambda>i. clReleaseMemObject (Some i)"
  by unfold_locales (auto simp: clRetainMemObject_def retain_mem_def clReleaseMemObject_def release_mem_def
      fetch_def Let_def fun_upd_Some_triv)

interpretation krn: refcounted kernels "\<lambda>i x. put_kernel i x" k_refcount "\<lambda>n x. x\<lparr>k_refcount := n\<rparr>"
    "\<lambda>i. clRetainKernel (Some i)" "\<lambda>i. clReleaseKernel (Some i)"
  by unfold_locales (auto simp: clRetainKernel_def retain_kernel_def clReleaseKernel_def release_kernel_def
      fetch_def Let_def fun_upd_Some_triv)

interpretation prg: refcounted programs "\<lambda>i x. put_program i x" p_refcount "\<lambda>n x. x\<lparr>p_refcount := n\<rparr>"
    "\<lambda>i. clRetainProgram (Some i)" "\<lambda>i. clReleaseProgram (Some i)"
  by unfold_locales (auto simp: clRetainProgram_def retain_program_def clReleaseProgram_def release_program_def
      fetch_def Let_def fun_upd_Some_triv)

text \<open>Contexts that were created successfully, events of a queue, and queues with nothing to do.\<close>

definition valid_contexts :: "cl_state \<Rightarrow> nat \<Rightarrow> cl_context option" where
  "valid_contexts s i = (case contexts s i of None \<Rightarrow> None | Some c \<Rightarrow> if ctx_valid c then Some c else None)"

definition queue_events :: "cl_state \<Rightarrow> nat \<Rightarrow> cl_event option" where
  "queue_events s i = (case events s i of None \<Rightarrow> None | Some e \<Rightarrow> if e_queue e = None then None else Some e)"

definition idle_queues :: "cl_state \<Rightarrow> nat \<Rightarrow> cl_command_queue option" where
  "idle_queues s i = (case queues s i of None \<Rightarrow> None
     | Some q \<Rightarrow> if root q = None \<and> \<not> q_out_of_order q then Some q else None)"

interpretation ctx: refcounted valid_contexts "\<lambda>i x. put_context i x" ctx_refcount "\<lambda>n x. x\<lparr>ctx_refcount := n\<rparr>"
    "\<lambda>i. clRetainContext (Some i)" "\<lambda>i. clReleaseContext (Some i)"
  by unfold_locales (auto simp: valid_contexts_def clRetainContext_def retain_context_def clReleaseContext_def
      release_context_def fetch_def Let_def fun_upd_Some_triv split: option.splits if_splits)

interpretation evt: refcounted queue_events "\<lambda>i x. put_event i x" e_refcount "\<lambda>n x. x\<lparr>e_refcount := n\<rparr>"
    "\<lambda>i. clRetainEvent (Some i)" "\<lambda>i. clReleaseEvent (clFinish 1) (Some i)"
  by unfold_locales (auto simp: queue_events_def clRetainEvent_def retain_event_def clReleaseEvent_def
      release_event_def fetch_def Let_def fun_upd_Some_triv split: option.splits if_splits)

lemma clFinish_idle:
  "idle_queues s q = Some Q \<Longrightarrow> clFinish 1 q s = ok (CL_SUCCESS, s)"
  using fin_ok_clFinish[of 0] by (auto simp: fin_ok_def idle_queues_def split: option.splits if_splits)

interpretation que: refcounted idle_queues "\<lambda>i x. put_queue i x" q_refcount "\<lambda>n x. x\<lparr>q_refcount := n\<rparr>"
    "\<lambda>i. clRetainCommandQueue (Some i)" "\<lambda>i. clReleaseCommandQueue (clFinish 1) (Some i)"
proof
  fix s i Q assume q: "idle_queues s i = Some Q" and "1 < q_refcount Q"
  then show "clReleaseCommandQueue (clFinish 1) (Some i) s = ok (CL_SUCCESS, put_queue i (Q\<lparr>q_refcount := q_refcount Q - 1\<rparr>) s)"
    using clFinish_idle[OF q] by (auto simp: clReleaseCommandQueue_def release_queue_def fetch_def Let_def
        idle_queues_def split: option.splits if_splits)
qed (auto simp: idle_queues_def clRetainCommandQueue_def retain_queue_def fetch_def fun_upd_Some_triv
      split: option.splits if_splits)

text \<open>C30: Retaining and releasing are balanced for every kind of object: in any sequence of retain
  and release calls in which no release is the last one, every call answers \<open>CL_SUCCESS\<close>, the
  count changes by the number of retains less the number of releases, and nothing else changes.
  For memory objects, kernels, programs, contexts that were created successfully, events that belong to
  a queue, and in-order queues with no commands. An event without a queue, a user event, cannot be retained:
  the call answers \<open>CL_INVALID_EVENT\<close>.\<close>

theorem retain_release_balanced:
  "(mems s i = Some m \<and> alive (mem_refcount m) bs \<longrightarrow>
      calls (\<lambda>i. clRetainMemObject (Some i)) (\<lambda>i. clReleaseMemObject (Some i)) i bs s =
        ok (replicate (length bs) CL_SUCCESS, put_mem i (m\<lparr>mem_refcount := mem_refcount m + net bs\<rparr>) s)) \<and>
   (kernels s i = Some k \<and> alive (k_refcount k) bs \<longrightarrow>
      calls (\<lambda>i. clRetainKernel (Some i)) (\<lambda>i. clReleaseKernel (Some i)) i bs s =
        ok (replicate (length bs) CL_SUCCESS, put_kernel i (k\<lparr>k_refcount := k_refcount k + net bs\<rparr>) s)) \<and>
   (programs s i = Some p \<and> alive (p_refcount p) bs \<longrightarrow>
      calls (\<lambda>i. clRetainProgram (Some i)) (\<lambda>i. clReleaseProgram (Some i)) i bs s =
        ok (replicate (length bs) CL_SUCCESS, put_program i (p\<lparr>p_refcount := p_refcount p + net bs\<rparr>) s)) \<and>
   (valid_contexts s i = Some c \<and> alive (ctx_refcount c) bs \<longrightarrow>
      calls (\<lambda>i. clRetainContext (Some i)) (\<lambda>i. clReleaseContext (Some i)) i bs s =
        ok (replicate (length bs) CL_SUCCESS, put_context i (c\<lparr>ctx_refcount := ctx_refcount c + net bs\<rparr>) s)) \<and>
   (queue_events s i = Some e \<and> alive (e_refcount e) bs \<longrightarrow>
      calls (\<lambda>i. clRetainEvent (Some i)) (\<lambda>i. clReleaseEvent (clFinish 1) (Some i)) i bs s =
        ok (replicate (length bs) CL_SUCCESS, put_event i (e\<lparr>e_refcount := e_refcount e + net bs\<rparr>) s)) \<and>
   (idle_queues s i = Some q \<and> alive (q_refcount q) bs \<longrightarrow>
      calls (\<lambda>i. clRetainCommandQueue (Some i)) (\<lambda>i. clReleaseCommandQueue (clFinish 1) (Some i)) i bs s =
        ok (replicate (length bs) CL_SUCCESS, put_queue i (q\<lparr>q_refcount := q_refcount q + net bs\<rparr>) s)) \<and>
   (events s i = Some e \<and> e_queue e = None \<longrightarrow> clRetainEvent (Some i) s = ok (CL_INVALID_EVENT, s))"
proof (intro conjI impI; elim conjE)
  show "clRetainEvent (Some i) s = ok (CL_INVALID_EVENT, s)" if "events s i = Some e" "e_queue e = None"
    using that by (simp add: clRetainEvent_def fetch_def)
qed (rule mem.calls_ok krn.calls_ok prg.calls_ok ctx.calls_ok evt.calls_ok que.calls_ok; assumption)+

lemma retain_release_balanced_witness:
  "calls (\<lambda>i. clRetainCommandQueue (Some i)) (\<lambda>i. clReleaseCommandQueue (clFinish 1) (Some i)) 0
      [True, True, False] (no_objects\<lparr>queues := [0 \<mapsto> sample_queue None]\<rparr>) =
     ok ([0, 0, 0], no_objects\<lparr>queues := [0 \<mapsto> (sample_queue None)\<lparr>q_refcount := 11\<rparr>]\<rparr>)"
  using retain_release_balanced[THEN conjunct2, THEN conjunct2, THEN conjunct2, THEN conjunct2, THEN conjunct2, THEN conjunct1,
      of "no_objects\<lparr>queues := [0 \<mapsto> sample_queue None]\<rparr>" 0 "sample_queue None" "[True, True, False]"]
  by (simp add: idle_queues_def sample_queue_def numeral_3_eq_3)

end
