(* ===== verification/Cl_Events.thy ===== *)
theory Cl_Events
  imports Cl_Finish
begin

text \<open>
  The life of an event: its status goes from \<open>CL_QUEUED\<close> over \<open>CL_SUBMITTED\<close> and \<open>CL_RUNNING\<close> to
  \<open>CL_COMPLETE\<close>, and with profiling its four time stamps are readings of the device timer at moments in
  this order, if they are all taken from queues with profiling. The timers of the devices count
  nanoseconds in 32 bits and start again every 4.3 seconds.
\<close>

section \<open>Steps of the event state machine\<close>

inductive event_step :: "cl_state \<Rightarrow> cl_state \<Rightarrow> bool" where
  queue: "POCL_UPDATE_EVENT_QUEUED ev q s = ok s' \<Longrightarrow> event_step s s'"
| submit: "POCL_UPDATE_EVENT_SUBMITTED ev q s = ok s' \<Longrightarrow> event_step s s'"
| run: "POCL_UPDATE_EVENT_RUNNING ev q s = ok s' \<Longrightarrow> event_step s s'"
| complete: "POCL_UPDATE_EVENT_COMPLETE ev q s = ok s' \<Longrightarrow> event_step s s'"

lemmas update_defs = POCL_UPDATE_EVENT_QUEUED_def POCL_UPDATE_EVENT_SUBMITTED_def
  POCL_UPDATE_EVENT_RUNNING_def POCL_UPDATE_EVENT_COMPLETE_def

text \<open>What an update that succeeds has done.\<close>

lemma update_event_cases:
  assumes "update_event expected new upd ev cq s = ok s'"
  obtains e q where "events s ev = Some e" and "queues s cq = Some q"
    and "expected = None \<or> expected = Some (status e)"
    and "s' = (if q_profiling q
          then s\<lparr>ticks := ticks s + 1, events := (events s)(ev \<mapsto> upd (timer s (ticks s)) (e\<lparr>status := new\<rparr>))\<rparr>
          else s\<lparr>events := (events s)(ev \<mapsto> e\<lparr>status := new\<rparr>)\<rparr>)"
proof -
  from assms obtain e where e: "events s ev = Some e"
    by (cases "events s ev") (auto simp: update_event_def fetch_def)
  with assms have x: "expected = None \<or> expected = Some (status e)"
    by (auto simp: update_event_def fetch_def split: if_splits)
  from assms e x obtain q where q: "queues s cq = Some q"
    by (cases "queues s cq") (auto simp: update_event_def fetch_def stamp_def)
  from assms e x q show thesis
    by (intro that[of e q]) (auto simp: update_event_def fetch_def stamp_def)
qed

text \<open>One step changes one event, and only forwards.\<close>

lemma event_step_cases:
  assumes "event_step s s'"
  obtains ev e q new upd where "events s ev = Some e" and "queues s q \<noteq> None"
    and "s' = (if q_profiling (the (queues s q))
          then s\<lparr>ticks := ticks s + 1, events := (events s)(ev \<mapsto> upd (timer s (ticks s)) (e\<lparr>status := new\<rparr>))\<rparr>
          else s\<lparr>events := (events s)(ev \<mapsto> e\<lparr>status := new\<rparr>)\<rparr>)"
    and "(new, upd) \<in> {(CL_QUEUED, \<lambda>t e. e\<lparr>time_queue := t\<rparr>), (CL_SUBMITTED, \<lambda>t e. e\<lparr>time_submit := t\<rparr>),
           (CL_RUNNING, \<lambda>t e. e\<lparr>time_start := t\<rparr>), (CL_COMPLETE, \<lambda>t e. e\<lparr>time_end := t\<rparr>)}"
    and "new = CL_QUEUED \<or> status e = new + 1"
  using assms
proof cases
  case (queue ev q)
  then show thesis unfolding update_defs by (elim update_event_cases) (auto intro!: that)
next
  case (submit ev q)
  then show thesis unfolding update_defs by (elim update_event_cases) (auto intro!: that)
next
  case (run ev q)
  then show thesis unfolding update_defs by (elim update_event_cases) (auto intro!: that)
next
  case (complete ev q)
  then show thesis unfolding update_defs by (elim update_event_cases) (auto intro!: that)
qed

section \<open>The time stamps\<close>

text \<open>The stamps an event has are readings taken one after the other.\<close>

definition stamps :: "cl_event \<Rightarrow> 64 word list" where
  "stamps e = (if status e = CL_QUEUED then [time_queue e]
     else if status e = CL_SUBMITTED then [time_queue e, time_submit e]
     else if status e = CL_RUNNING then [time_queue e, time_submit e, time_start e]
     else if status e = CL_COMPLETE then [time_queue e, time_submit e, time_start e, time_end e]
     else [])"

text \<open>From reading number \<open>t0\<close> on.\<close>

definition read_in_order :: "nat \<Rightarrow> cl_state \<Rightarrow> 64 word list \<Rightarrow> bool" where
  "read_in_order t0 s xs \<longleftrightarrow>
     (\<exists>ts. sorted_wrt (<) ts \<and> (\<forall>t \<in> set ts. t0 \<le> t \<and> t < ticks s) \<and> xs = map (timer s) ts)"

definition stamped :: "nat \<Rightarrow> nat \<Rightarrow> cl_state \<Rightarrow> bool" where
  "stamped t0 ev s \<longleftrightarrow> t0 \<le> ticks s \<and> (\<forall>e. events s ev = Some e \<longrightarrow> read_in_order t0 s (stamps e))"

lemma read_next:
  assumes "read_in_order t0 s xs" and "t0 \<le> ticks s" and "ticks s' = ticks s + 1" and "timer s' = timer s"
  shows "read_in_order t0 s' xs" and "read_in_order t0 s' (xs @ [timer s (ticks s)])"
proof -
  obtain ts where ts: "sorted_wrt (<) ts" "\<forall>t \<in> set ts. t0 \<le> t \<and> t < ticks s" "xs = map (timer s) ts"
    using assms(1) unfolding read_in_order_def by blast
  show "read_in_order t0 s' xs"
    unfolding read_in_order_def assms(3,4) using ts by (intro exI[of _ ts]) auto
  show "read_in_order t0 s' (xs @ [timer s (ticks s)])"
    unfolding read_in_order_def assms(3,4) using ts assms(2)
    by (intro exI[of _ "ts @ [ticks s]"]) (auto simp: sorted_wrt_append)
qed

lemma read_one:
  assumes "t0 \<le> ticks s" and "ticks s' = ticks s + 1" and "timer s' = timer s"
  shows "read_in_order t0 s' [timer s (ticks s)]"
  using assms unfolding read_in_order_def by (intro exI[of _ "[ticks s]"]) simp

definition profiles :: "cl_state \<Rightarrow> bool" where
  "profiles s \<longleftrightarrow> (\<forall>q x. queues s q = Some x \<longrightarrow> q_profiling x)"

lemma event_step_stamped:
  assumes "event_step s s'" and "stamped t0 w s" and "profiles s"
  shows "stamped t0 w s' \<and> profiles s' \<and> timer s' = timer s"
  using assms(1)
proof (cases rule: event_step_cases)
  case (1 ev e q new upd)
  let ?e = "upd (timer s (ticks s)) (e\<lparr>status := new\<rparr>)"
  obtain x where "queues s q = Some x" using 1(2) by blast
  with assms(3) have "q_profiling (the (queues s q))" by (simp add: profiles_def)
  with 1(3) have s': "s' = s\<lparr>ticks := ticks s + 1, events := (events s)(ev \<mapsto> ?e)\<rparr>" by simp
  then have t: "ticks s' = ticks s + 1" "timer s' = timer s" by simp_all
  have t0: "t0 \<le> ticks s" using assms(2) by (simp add: stamped_def)
  have "read_in_order t0 s' (stamps f)" if f: "events s' w = Some f" for f
  proof (cases "w = ev")
    case False
    with f have "events s w = Some f" by (simp add: s')
    then show ?thesis using assms(2) read_next(1)[OF _ t0 t] by (simp add: stamped_def)
  next
    case True
    then have "read_in_order t0 s (stamps e)" "f = ?e" using assms(2) 1(1) f by (simp_all add: stamped_def s')
    note now = read_next(2)[OF this(1) t0 t] read_one[OF t0 t]
    consider "new = CL_QUEUED" "upd = (\<lambda>t e. e\<lparr>time_queue := t\<rparr>)"
      | "new = CL_SUBMITTED" "upd = (\<lambda>t e. e\<lparr>time_submit := t\<rparr>)" "status e = CL_QUEUED"
      | "new = CL_RUNNING" "upd = (\<lambda>t e. e\<lparr>time_start := t\<rparr>)" "status e = CL_SUBMITTED"
      | "new = CL_COMPLETE" "upd = (\<lambda>t e. e\<lparr>time_end := t\<rparr>)" "status e = CL_RUNNING"
      using 1(4,5) by fastforce
    then show ?thesis using now unfolding \<open>f = ?e\<close> by cases (simp_all add: stamps_def)
  qed
  then have "stamped t0 w s'" using t0 t(1) by (simp add: stamped_def)
  then show ?thesis using assms(3) by (simp add: s' profiles_def)
qed

lemma queued_stamped:
  assumes "POCL_UPDATE_EVENT_QUEUED ev q s = ok s'" and "profiles s"
  shows "stamped (ticks s) ev s' \<and> profiles s' \<and> timer s' = timer s"
  using assms(1) unfolding update_defs
proof (rule update_event_cases)
  fix e Q
  assume "queues s q = Some Q" and s: "s' = (if q_profiling Q
          then s\<lparr>ticks := ticks s + 1, events := (events s)(ev \<mapsto> e\<lparr>status := CL_QUEUED\<rparr>\<lparr>time_queue := timer s (ticks s)\<rparr>)\<rparr>
          else s\<lparr>events := (events s)(ev \<mapsto> e\<lparr>status := CL_QUEUED\<rparr>)\<rparr>)"
  then have s': "s' = s\<lparr>ticks := ticks s + 1, events := (events s)(ev \<mapsto> e\<lparr>status := CL_QUEUED\<rparr>\<lparr>time_queue := timer s (ticks s)\<rparr>)\<rparr>"
    using assms(2) by (simp add: profiles_def)
  have "read_in_order (ticks s) s' [timer s (ticks s)]" by (rule read_one) (simp_all add: s')
  then show ?thesis using assms(2) by (simp add: stamped_def stamps_def profiles_def s')
qed

text \<open>C28: The four profiling times of an event are readings of the device timer at four different
  moments, the one of queueing first, then those of submission, start and end: when the event is
  queued and after any sequence of status updates, of this and of other events, it is complete. If the timer
  does not run backwards they are ordered. Hypothesis: every queue is created with profiling. The timers of
  the devices do run backwards, see \<open>timer_runs_backwards\<close>.\<close>

theorem profiling_times_ordered:
  assumes "POCL_UPDATE_EVENT_QUEUED ev q s = ok s0" and "profiles s" and "event_step\<^sup>*\<^sup>* s0 s'"
    and "events s' ev = Some e" and "status e = CL_COMPLETE"
  shows "\<exists>a b c d. ticks s \<le> a \<and> a < b \<and> b < c \<and> c < d \<and> d < ticks s' \<and>
    time_queue e = timer s a \<and> time_submit e = timer s b \<and> time_start e = timer s c \<and> time_end e = timer s d \<and>
    (mono (timer s) \<longrightarrow> time_queue e \<le> time_submit e \<and> time_submit e \<le> time_start e \<and> time_start e \<le> time_end e)"
proof -
  have s': "stamped (ticks s) ev s' \<and> profiles s' \<and> timer s' = timer s" using assms(3)
    by (induction rule: rtranclp_induct) (use queued_stamped[OF assms(1,2)] event_step_stamped in metis)+
  then have "read_in_order (ticks s) s' (stamps e)" using assms(4) unfolding stamped_def by blast
  moreover have "stamps e = [time_queue e, time_submit e, time_start e, time_end e]" by (simp add: stamps_def assms(5))
  ultimately obtain ts where ts: "sorted_wrt (<) ts" "\<forall>t \<in> set ts. ticks s \<le> t \<and> t < ticks s'"
    "[time_queue e, time_submit e, time_start e, time_end e] = map (timer s) ts"
    unfolding read_in_order_def using s' by (metis (no_types))
  from ts(3) obtain a b c d where "ts = [a, b, c, d]"
    "time_queue e = timer s a" "time_submit e = timer s b" "time_start e = timer s c" "time_end e = timer s d"
    by (auto simp: Cons_eq_map_conv)
  with ts(1,2) show ?thesis
    by (intro exI[of _ a] exI[of _ b] exI[of _ c] exI[of _ d]) (auto simp: mono_def)
qed

section \<open>The timers of the devices\<close>

text \<open>
  \<open>(current.tv_sec * 1000000 + current.tv_usec) * 1000\<close> of \<open>gettimeofday\<close>, in the 32 bits of a \<open>long\<close>, whose
  sign the conversion to \<open>cl_ulong\<close> extends. The pthread device uses the timer of the basic one.
\<close>

definition pocl_basic_get_timer_value :: "32 word \<Rightarrow> 32 word \<Rightarrow> 64 word" where
  "pocl_basic_get_timer_value tv_sec tv_usec = scast ((tv_sec * 1000000 + tv_usec) * 1000)"

definition pocl_zynq_basic_get_timer_value :: "32 word \<Rightarrow> 32 word \<Rightarrow> 64 word" where
  "pocl_zynq_basic_get_timer_value tv_sec tv_usec = scast ((tv_sec * 1000000 + tv_usec) * 1000)"

text \<open>The lower half is the time in nanoseconds, without its multiples of \<open>2 ^ 32\<close>.\<close>

lemma low_half: "ucast (scast (w :: 32 word) :: 64 word) = (w :: 32 word)"
  by (rule bit_word_eqI) (simp add: bit_simps)

lemma timer_low_bits: "ucast (pocl_zynq_basic_get_timer_value t u) = (t * 1000000 + u) * (1000 :: 32 word)"
  unfolding pocl_zynq_basic_get_timer_value_def by (rule low_half)

text \<open>
  Note: The timer runs backwards. From the first to the third second of the clock it jumps up, and from the
  third to the fifth down again, so that a command that starts at the third second and ends at the
  fifth ends before it starts; and the difference of two readings is the time between them only up to
  multiples of 4.3 seconds.
\<close>

theorem timer_runs_backwards:
  "pocl_zynq_basic_get_timer_value 5 0 < pocl_zynq_basic_get_timer_value 1 0 \<and>
   pocl_zynq_basic_get_timer_value 1 0 < pocl_zynq_basic_get_timer_value 3 0"
  by code_simp

text \<open>C29: The status of an event only moves forwards: a step that changes an event either queues
  it or takes it from one status to the next, and leaves every other event as it is; an update
  that would skip a status stops at an assertion.\<close>

theorem event_status_forwards:
  assumes "event_step s s'"
  shows "\<exists>ev e e'. events s ev = Some e \<and> events s' = (events s)(ev \<mapsto> e') \<and>
     (status e' = CL_QUEUED \<or> status e = status e' + 1 \<and> status e' \<in> {CL_SUBMITTED, CL_RUNNING, CL_COMPLETE})"
  using assms
proof (cases rule: event_step_cases)
  case (1 ev e q new upd)
  have st: "status (upd t (e\<lparr>status := new\<rparr>)) = new" for t using 1(4) by auto
  have new: "new \<in> {CL_QUEUED, CL_SUBMITTED, CL_RUNNING, CL_COMPLETE}" using 1(4) by auto
  obtain e' where "events s' = (events s)(ev \<mapsto> e')" "status e' = new"
    using 1(3) st by (cases "q_profiling (the (queues s q))") auto
  moreover from this new 1(5) have "status e' = CL_QUEUED \<or>
      status e = status e' + 1 \<and> status e' \<in> {CL_SUBMITTED, CL_RUNNING, CL_COMPLETE}" by auto
  ultimately show ?thesis using 1(1) by (intro exI conjI)
qed

text \<open>An event of a queue with profiling, just made; the clock is read every second second.\<close>

definition profiled :: "nat \<Rightarrow> cl_event \<Rightarrow> cl_state" where
  "profiled n e = no_objects\<lparr>
     queues := [0 \<mapsto> \<lparr>q_refcount = 2, q_context = 0, q_device = 0, q_out_of_order = False,
                     q_profiling = True, root = None\<rparr>],
     events := [0 \<mapsto> e\<lparr>e_refcount := 1, e_queue := Some 0\<rparr>],
     timer := (\<lambda>n. pocl_zynq_basic_get_timer_value (of_nat (2 * n + 1)) 0), ticks := n\<rparr>"

definition queued_event :: cl_event where
  "queued_event = zero_event\<lparr>status := CL_QUEUED, time_queue := pocl_zynq_basic_get_timer_value 1 0\<rparr>"

definition sent_event :: cl_event where
  "sent_event = queued_event\<lparr>status := CL_SUBMITTED, time_submit := pocl_zynq_basic_get_timer_value 3 0\<rparr>"

definition running_event :: cl_event where
  "running_event = sent_event\<lparr>status := CL_RUNNING, time_start := pocl_zynq_basic_get_timer_value 5 0\<rparr>"

definition ended_event :: cl_event where
  "ended_event = running_event\<lparr>status := CL_COMPLETE, time_end := pocl_zynq_basic_get_timer_value 7 0\<rparr>"

abbreviation submitted_event :: cl_state where
  "submitted_event \<equiv> profiled 2 sent_event"

lemmas life = queued_event_def sent_event_def running_event_def ended_event_def zero_event_def
  profiled_def update_defs update_event_def fetch_def stamp_def

lemma profiled_life:
  "POCL_UPDATE_EVENT_QUEUED 0 0 (profiled 0 zero_event) = ok (profiled 1 queued_event)"
  "POCL_UPDATE_EVENT_SUBMITTED 0 0 (profiled 1 queued_event) = ok submitted_event"
  "POCL_UPDATE_EVENT_RUNNING 0 0 submitted_event = ok (profiled 3 running_event)"
  "POCL_UPDATE_EVENT_COMPLETE 0 0 (profiled 3 running_event) = ok (profiled 4 ended_event)"
  by (simp_all add: life)

lemma event_completes: "event_step\<^sup>*\<^sup>* (profiled 1 queued_event) (profiled 4 ended_event)"
  by (rule converse_rtranclp_into_rtranclp[where r = event_step, OF event_step.submit[OF profiled_life(2)]
        converse_rtranclp_into_rtranclp[where r = event_step, OF event_step.run[OF profiled_life(3)]
          r_into_rtranclp[where r = event_step, OF event_step.complete[OF profiled_life(4)]]]])

text \<open>Here the event starts before it is submitted, although all moments are in their order.\<close>

lemma profiling_times_ordered_witness:
  "\<exists>a b c d. a < b \<and> b < c \<and> c < d \<and> d < (4 :: nat) \<and>
    time_queue ended_event = timer (profiled 0 zero_event) a \<and> time_submit ended_event = timer (profiled 0 zero_event) b \<and>
    time_start ended_event = timer (profiled 0 zero_event) c \<and> time_end ended_event = timer (profiled 0 zero_event) d \<and>
    time_start ended_event < time_submit ended_event"
proof -
  let ?e = "ended_event\<lparr>e_refcount := 1, e_queue := Some 0\<rparr>"
  have e: "events (profiled 4 ended_event) 0 = Some ?e" "status ?e = CL_COMPLETE" by (simp_all add: profiled_def ended_event_def)
  have "profiles (profiled 0 zero_event)" by (simp add: profiles_def profiled_def)
  from profiling_times_ordered[OF profiled_life(1) this event_completes e] obtain a b c d where
    "a < b" "b < c" "c < d" "d < ticks (profiled 4 ended_event)" "time_queue ?e = timer (profiled 0 zero_event) a"
    "time_submit ?e = timer (profiled 0 zero_event) b" "time_start ?e = timer (profiled 0 zero_event) c"
    "time_end ?e = timer (profiled 0 zero_event) d"
    by blast
  moreover have "ticks (profiled 4 ended_event) = 4" by (simp add: profiled_def)
  moreover have "time_start ended_event < time_submit ended_event" by code_simp
  ultimately show ?thesis
    by (intro exI[of _ a] exI[of _ b] exI[of _ c] exI[of _ d]) simp
qed

lemma event_status_forwards_witness:
  "\<exists>s'. POCL_UPDATE_EVENT_RUNNING 0 0 submitted_event = ok s' \<and>
     (\<exists>ev e e'. events submitted_event ev = Some e \<and> events s' = (events submitted_event)(ev \<mapsto> e') \<and>
     (status e' = CL_QUEUED \<or> status e = status e' + 1 \<and> status e' \<in> {CL_SUBMITTED, CL_RUNNING, CL_COMPLETE}))"
proof -
  note s' = profiled_life(3)
  with event_status_forwards[OF event_step.run[OF s']] show ?thesis by blast
qed

text \<open>Queue 0 waits for queue 1, which alone has profiling.\<close>

definition two_profiles :: cl_state where
  "two_profiles = no_objects\<lparr>
     devices := [0 \<mapsto> \<lparr>dev_refcount = 1, max_work_item_dimensions = 3, max_work_group_size = 1024,
       max_work_item_sizes = (\<lambda>_. 1024), preferred_wg_multiple = 8, compiles_submitted = False, unmaps = True\<rparr>],
     queues := [0 \<mapsto> \<lparr>q_refcount = 5, q_context = 0, q_device = 0, q_out_of_order = False,
                     q_profiling = False, root = Some 0\<rparr>,
                1 \<mapsto> \<lparr>q_refcount = 5, q_context = 0, q_device = 0, q_out_of_order = False,
                     q_profiling = True, root = Some 1\<rparr>],
     events := [0 \<mapsto> zero_event\<lparr>e_refcount := 1, e_queue := Some 0, status := CL_QUEUED\<rparr>,
                1 \<mapsto> zero_event\<lparr>e_refcount := 1, e_queue := Some 1, status := CL_QUEUED, time_queue := 5\<rparr>],
     nodes := [0 \<mapsto> \<lparr>command = Marker, n_event = 0, event_wait_list = Some [1], n_device = 0\<rparr>,
               1 \<mapsto> \<lparr>command = Marker, n_event = 1, event_wait_list = None, n_device = 0\<rparr>],
     timer := (\<lambda>n. of_nat n + 10)\<rparr>"

text \<open>C36: The time of submission is taken from the wrong queue: \<open>clFinish\<close> stamps the event with the
  profiling flag of the queue it was called for, not with that of the event's queue. Finishing
  queue 0, which does not profile, submits the command of queue 1, which does: the event ends up
  complete with a time of submission of 0, before it was queued.\<close>

theorem submit_time_of_wrong_queue:
  "map_option (map_sum id (\<lambda>(e, s). map_option (\<lambda>x. (status x, time_queue x, time_submit x, time_start x)) (events s 1)))
     (clFinish 2 0 two_profiles)
   = Some (Inr (Some (CL_COMPLETE, 5, 0, 10)))"
  by code_simp

end
