(* ===== verification/Cl_Release_Props.thy ===== *)
theory Cl_Release_Props
  imports Cl_Objects
begin

text \<open>
  What the last release of an object does: a buffer is freed on every device of its context, a
  kernel leaves the list of its program; and the objects that are never freed.
\<close>

section \<open>The last release of a buffer\<close>

lemma free_on_devices_ok:
  assumes "distinct ds" and "mems s i = Some m"
  shows "free_on_devices ds i s = ok (s\<lparr>mems := (mems s)(i \<mapsto> m\<lparr>device_ptrs := (\<lambda>d. if d \<in> set ds then NULL else device_ptrs m d)\<rparr>),
     actions := actions s @ map (\<lambda>d. Dev_free d (mem_flags m) (device_ptrs m d)) ds\<rparr>)"
  using assms
proof (induction ds arbitrary: s m)
  case Nil
  then show ?case by (cases s) (simp add: fun_upd_idem)
next
  case (Cons d ds)
  let ?m = "m\<lparr>device_ptrs := (device_ptrs m)(d := NULL)\<rparr>"
  let ?s = "put_mem i ?m (act (Dev_free d (mem_flags m) (device_ptrs m d)) s)"
  have d: "d \<notin> set ds" using Cons.prems(1) by simp
  have f: "(\<lambda>e. if e \<in> set ds then NULL else ((device_ptrs m)(d := NULL)) e)
      = (\<lambda>e. if e \<in> set (d # ds) then NULL else device_ptrs m e)" by auto
  have a: "map (\<lambda>e. Dev_free e (mem_flags m) (((device_ptrs m)(d := NULL)) e)) ds
      = map (\<lambda>e. Dev_free e (mem_flags m) (device_ptrs m e)) ds" using d by (auto intro!: map_cong)
  have "free_on_devices (d # ds) i s = free_on_devices ds i ?s"
    using Cons.prems(2) by (simp add: fetch_def)
  also have "\<dots> = ok (?s\<lparr>mems := (mems ?s)(i \<mapsto> ?m\<lparr>device_ptrs := (\<lambda>e. if e \<in> set ds then NULL else device_ptrs ?m e)\<rparr>),
     actions := actions ?s @ map (\<lambda>e. Dev_free e (mem_flags ?m) (device_ptrs ?m e)) ds\<rparr>)"
    by (rule Cons.IH) (use Cons.prems(1) in auto)
  finally show ?case using f a by (cases s; cases m) (auto simp: act_def fun_eq_iff)
qed

lemma free_mappings_ok:
  "nseg (nxt (map_links s)) ps None \<Longrightarrow> distinct ps \<Longrightarrow> \<forall>p \<in> set ps. maps s p \<noteq> None \<Longrightarrow>
     free_mappings (first_ref ps) s = ok (s\<lparr>maps := (\<lambda>p. if p \<in> set ps then None else maps s p)\<rparr>)"
proof (induction ps arbitrary: s)
  case Nil
  then show ?case by (simp add: free_mappings.simps[of None s])
next
  case (Cons p ps)
  let ?s = "s\<lparr>maps := (maps s)(p := None)\<rparr>"
  have "free_mappings (first_ref (p # ps)) s = free_mappings (first_ref ps) ?s"
    using Cons.prems by (simp add: free_mappings.simps[of "Some p" s] or_else_def split: option.splits)
  also have "\<dots> = ok (?s\<lparr>maps := (\<lambda>q. if q \<in> set ps then None else maps ?s q)\<rparr>)"
    by (rule Cons.IH) (use Cons.prems in auto)
  finally show ?case by (cases s) (auto simp: fun_eq_iff)
qed

text \<open>C31: The last release of a buffer that is no sub-buffer frees its memory on every device of its
  context, each once, in order and with the device's own pointer, gives back one reference to the
  context, frees the list of its mapped regions, and the buffer object is gone; nothing else
  changes.\<close>

theorem last_release_frees_buffer:
  assumes "mems s i = Some m" and "mem_refcount m = 1" and "parent m = None"
    and "contexts s (mem_context m) = Some c" and "distinct (ctx_devices c)"
    and "dll (map_links s) (mappings m) ps" and "\<forall>p \<in> set ps. maps s p \<noteq> None"
  shows "clReleaseMemObject (Some i) s = ok (CL_SUCCESS, s\<lparr>mems := (mems s)(i := None),
     contexts := (contexts s)(mem_context m \<mapsto> c\<lparr>ctx_refcount := ctx_refcount c - 1\<rparr>),
     maps := (\<lambda>p. if p \<in> set ps then None else maps s p),
     actions := actions s @ map (\<lambda>d. Dev_free d (mem_flags m) (device_ptrs m d)) (ctx_devices c)\<rparr>)"
proof -
  let ?m = "m\<lparr>mem_refcount := 0\<rparr>" and ?s = "put_mem i (m\<lparr>mem_refcount := 0\<rparr>) s"
  let ?ds = "ctx_devices c" and ?cs = "(contexts s)(mem_context m \<mapsto> c\<lparr>ctx_refcount := ctx_refcount c - 1\<rparr>)"
  define m3 where "m3 = ?m\<lparr>device_ptrs := (\<lambda>d. if d \<in> set ?ds then NULL else device_ptrs ?m d)\<rparr>"
  define acts where "acts = actions s @ map (\<lambda>d. Dev_free d (mem_flags m) (device_ptrs m d)) ?ds"
  define s3 where "s3 = s\<lparr>mems := (mems s)(i \<mapsto> m3), actions := acts, contexts := ?cs\<rparr>"
  have f: "free_on_devices ?ds i ?s = ok (s\<lparr>mems := (mems s)(i \<mapsto> m3), actions := acts\<rparr>)"
    using free_on_devices_ok[OF assms(5), of ?s i ?m] by (simp add: m3_def acts_def)
  have sel: "map_links s3 = map_links s" "maps s3 = maps s" by (simp_all add: s3_def)
  have "free_mappings (mappings m) s3 = ok (s3\<lparr>maps := (\<lambda>p. if p \<in> set ps then None else maps s p)\<rparr>)"
    using free_mappings_ok[of s3 ps, unfolded sel] assms(6,7) by (simp add: dll_def)
  moreover have "clReleaseMemObject (Some i) s = andthen (free_mappings (mappings m) s3)
      (\<lambda>s4. ok (CL_SUCCESS, s4\<lparr>mems := (mems s4)(i := None)\<rparr>))"
    using assms(1-4) f by (simp add: clReleaseMemObject_def release_mem_def release_context_def fetch_def Let_def s3_def)
  ultimately show ?thesis by (simp add: s3_def acts_def)
qed

text \<open>A buffer with two devices and one mapped region.\<close>

definition mapped_buffer :: cl_state where
  "mapped_buffer = no_objects\<lparr>
     contexts := [0 \<mapsto> \<lparr>ctx_refcount = 2, ctx_devices = [0, 1], ctx_valid = True\<rparr>],
     mems := [5 \<mapsto> \<lparr>mem_refcount = 1, mem_type = CL_MEM_OBJECT_BUFFER, mem_flags = 1, mem_size = 64,
       mem_host_ptr = NULL, map_count = 1, mem_context = 0,
       device_ptrs = (\<lambda>d. if d = 0 then 4096 else 8192), mappings = Some 7, parent = None\<rparr>],
     maps := [7 \<mapsto> \<lparr>map_host_ptr = 4096, map_offset = 0, map_size = 64\<rparr>],
     map_links := \<lparr>nxt = \<lambda>_. None, prv = (\<lambda>_. None)(7 := Some 7)\<rparr>\<rparr>"

lemma last_release_frees_buffer_witness:
  "\<exists>s'. clReleaseMemObject (Some 5) mapped_buffer = ok (CL_SUCCESS, s') \<and> mems s' 5 = None \<and> maps s' 7 = None \<and>
     actions s' = [Dev_free 0 1 4096, Dev_free 1 1 8192]"
  by (subst last_release_frees_buffer[of mapped_buffer 5 "the (mems mapped_buffer 5)"
        "the (contexts mapped_buffer 0)" "[7]"]) (simp_all add: mapped_buffer_def dll_def)

section \<open>Objects that are never freed\<close>

text \<open>Nothing that is in the table \<open>t\<close> is missing from \<open>t'\<close>.\<close>

definition kept :: "('k \<Rightarrow> 'a option) \<Rightarrow> ('k \<Rightarrow> 'a option) \<Rightarrow> bool" where
  "kept t t' \<longleftrightarrow> (\<forall>x. t x \<noteq> None \<longrightarrow> t' x \<noteq> None)"

lemma kept_refl [simp]: "kept t t"
  by (simp add: kept_def)

lemma kept_trans: "kept t t' \<Longrightarrow> kept t' t'' \<Longrightarrow> kept t t''"
  by (simp add: kept_def)

lemma kept_upd [simp]: "kept t (t(i \<mapsto> x))"
  by (simp add: kept_def)

lemma release_context_kept:
  "release_context c s = ok (n, s') \<Longrightarrow> mems s' = mems s \<and> kept (contexts s) (contexts s')"
  by (cases "contexts s c") (auto simp: release_context_def fetch_def Let_def)

lemma release_mem_kept:
  "release_mem p s = ok (n, s') \<Longrightarrow> contexts s' = contexts s \<and> kept (mems s) (mems s')"
  by (cases "mems s p") (auto simp: release_mem_def fetch_def Let_def)

lemma free_on_devices_kept:
  "free_on_devices ds i s = ok s' \<Longrightarrow> contexts s' = contexts s \<and> kept (mems s) (mems s')"
proof (induction ds arbitrary: s)
  case (Cons d ds)
  then obtain m where m: "mems s i = Some m" by (cases "mems s i") (auto simp: fetch_def)
  let ?s = "put_mem i (m\<lparr>device_ptrs := (device_ptrs m)(d := NULL)\<rparr>)
      (act (Dev_free d (mem_flags m) (device_ptrs m d)) s)"
  have "free_on_devices ds i ?s = ok s'" using Cons.prems m by (simp add: fetch_def)
  note IH = Cons.IH[OF this]
  have "contexts s' = contexts s" using IH by (simp add: act_def)
  moreover have "mems s' x \<noteq> None" if "mems s x \<noteq> None" for x
    using IH that by (cases "x = i") (auto simp: kept_def act_def)
  ultimately show ?case by (simp add: kept_def)
qed simp

lemma free_mappings_frame:
  assumes "free_mappings p s = Some r"
  shows "\<forall>s'. r = Inr s' \<longrightarrow> contexts s' = contexts s \<and> mems s' = mems s"
  using assms
proof (rule free_mappings.raw_induct[rotated])
  fix f :: "nat option \<Rightarrow> cl_state \<Rightarrow> cl_state prog" and p s r
  assume IH: "\<And>p s r. f p s = Some r \<Longrightarrow> \<forall>s'. r = Inr s' \<longrightarrow> contexts s' = contexts s \<and> mems s' = mems s"
    and r: "(case p of None \<Rightarrow> ok s
      | Some i \<Rightarrow> if maps s i = None then throw UseAfterFree
                 else f (nxt (map_links s) i) (s\<lparr>maps := (maps s)(i := None)\<rparr>)) = Some r"
  show "\<forall>s'. r = Inr s' \<longrightarrow> contexts s' = contexts s \<and> mems s' = mems s"
  proof (cases p)
    case None
    with r show ?thesis by (auto simp: ok_def)
  next
    case (Some i)
    show ?thesis
    proof (cases "maps s i")
      case None
      with Some r show ?thesis by (auto simp: throw_def)
    next
      case (Some x)
      with \<open>p = Some i\<close> r have "f (nxt (map_links s) i) (s\<lparr>maps := (maps s)(i := None)\<rparr>) = Some r" by simp
      note IH' = IH[OF this]
      have sel: "contexts (s\<lparr>maps := (maps s)(i := None)\<rparr>) = contexts s" "mems (s\<lparr>maps := (maps s)(i := None)\<rparr>) = mems s"
        by simp_all
      show ?thesis using IH' unfolding sel .
    qed
  qed
qed

lemma clReleaseMemObject_kept:
  assumes "clReleaseMemObject (Some i) s = ok (e, s')"
  shows "kept (contexts s) (contexts s') \<and> (\<forall>j. j \<noteq> i \<longrightarrow> mems s j \<noteq> None \<longrightarrow> mems s' j \<noteq> None)"
proof -
  from assms obtain n s1 where 1: "release_mem i s = ok (n, s1)" and
    2: "(if n \<noteq> 0 then ok (CL_SUCCESS, s1) else
       andthen (fetch (mems s1) i) (\<lambda>m.
           andthen (case parent m of
               None \<Rightarrow> andthen (fetch (contexts s1) (mem_context m)) (\<lambda>c. free_on_devices (ctx_devices c) i s1)
             | Some p \<Rightarrow> andthen (release_mem p s1) (\<lambda>(n, s2). ok s2)) (\<lambda>s2.
           andthen (release_context (mem_context m) s2) (\<lambda>(n, s3).
           andthen (free_mappings (mappings m) s3) (\<lambda>s4.
           ok (CL_SUCCESS, s4\<lparr>mems := (mems s4)(i := None)\<rparr>)))))) = ok (e, s')"
    by (auto simp: clReleaseMemObject_def andthen_eq_ok)
  note r = release_mem_kept[OF 1]
  show ?thesis
  proof (cases "n = 0")
    case False
    with 2 r show ?thesis by (auto simp: kept_def)
  next
    case True
    obtain m where "fetch (mems s1) i = ok m"
      using 2 True by (cases "fetch (mems s1) i" rule: prog_cases) auto
    with 2 True have m: "andthen (case parent m of
               None \<Rightarrow> andthen (fetch (contexts s1) (mem_context m)) (\<lambda>c. free_on_devices (ctx_devices c) i s1)
             | Some p \<Rightarrow> andthen (release_mem p s1) (\<lambda>(n, s2). ok s2)) (\<lambda>s2.
           andthen (release_context (mem_context m) s2) (\<lambda>(n, s3).
           andthen (free_mappings (mappings m) s3) (\<lambda>s4.
           ok (CL_SUCCESS, s4\<lparr>mems := (mems s4)(i := None)\<rparr>)))) = ok (e, s')"
      by simp
    then obtain s2 k s3 s4 where
      3: "(case parent m of
               None \<Rightarrow> andthen (fetch (contexts s1) (mem_context m)) (\<lambda>c. free_on_devices (ctx_devices c) i s1)
             | Some p \<Rightarrow> andthen (release_mem p s1) (\<lambda>(n, s2). ok s2)) = ok s2" and
      4: "release_context (mem_context m) s2 = ok (k, s3)" and
      5: "free_mappings (mappings m) s3 = ok s4" and s': "s' = s4\<lparr>mems := (mems s4)(i := None)\<rparr>"
      by (fastforce simp: andthen_eq_ok)
    have a: "contexts s2 = contexts s1 \<and> kept (mems s1) (mems s2)"
    proof (cases "parent m")
      case None
      show ?thesis
      proof (cases "contexts s1 (mem_context m)")
        case (Some c)
        with None 3 have "free_on_devices (ctx_devices c) i s1 = ok s2" by (simp add: fetch_def)
        then show ?thesis by (rule free_on_devices_kept)
      qed (use None 3 in \<open>simp add: fetch_def\<close>)
    next
      case (Some p)
      with 3 obtain n' where "release_mem p s1 = ok (n', s2)" by (auto simp: andthen_eq_ok)
      from release_mem_kept[OF this] show ?thesis by simp
    qed
    have b: "contexts s4 = contexts s3" "mems s4 = mems s3"
      using free_mappings_frame[OF 5[unfolded ok_def]] by auto
    from release_context_kept[OF 4] a b r s' show ?thesis by (auto simp: kept_def)
  qed
qed

text \<open>The buffer 5 and its sub-buffer 6; one reference to the buffer is left, that of the sub-buffer.\<close>

definition lent_buffer :: cl_state where
  "lent_buffer = no_objects\<lparr>
     contexts := [0 \<mapsto> \<lparr>ctx_refcount = 1, ctx_devices = [0], ctx_valid = True\<rparr>],
     mems := [5 \<mapsto> \<lparr>mem_refcount = 1, mem_type = CL_MEM_OBJECT_BUFFER, mem_flags = 1, mem_size = 64,
          mem_host_ptr = NULL, map_count = 0, mem_context = 0, device_ptrs = (\<lambda>d. 4096), mappings = None, parent = None\<rparr>,
        6 \<mapsto> \<lparr>mem_refcount = 1, mem_type = CL_MEM_OBJECT_BUFFER, mem_flags = 1, mem_size = 32,
          mem_host_ptr = NULL, map_count = 0, mem_context = 0, device_ptrs = (\<lambda>d. 4096), mappings = None, parent = Some 5\<rparr>]\<rparr>"

lemma sub_buffer_released:
  assumes "mems s i = Some m" and "mem_refcount m = 1" and "parent m = Some p" and "p \<noteq> i" and "mems s p = Some P"
    and "contexts s (mem_context m) = Some c"
    and "dll (map_links s) (mappings m) ps" and "\<forall>r \<in> set ps. maps s r \<noteq> None"
  shows "clReleaseMemObject (Some i) s = ok (CL_SUCCESS,
     s\<lparr>mems := (mems s)(p \<mapsto> P\<lparr>mem_refcount := mem_refcount P - 1\<rparr>, i := None),
       contexts := (contexts s)(mem_context m \<mapsto> c\<lparr>ctx_refcount := ctx_refcount c - 1\<rparr>),
       maps := (\<lambda>r. if r \<in> set ps then None else maps s r)\<rparr>)"
proof -
  let ?cs = "(contexts s)(mem_context m \<mapsto> c\<lparr>ctx_refcount := ctx_refcount c - 1\<rparr>)"
  define s3 where "s3 = s\<lparr>mems := (mems s)(i \<mapsto> m\<lparr>mem_refcount := 0\<rparr>, p \<mapsto> P\<lparr>mem_refcount := mem_refcount P - 1\<rparr>), contexts := ?cs\<rparr>"
  have sel: "map_links s3 = map_links s" "maps s3 = maps s" by (simp_all add: s3_def)
  have "free_mappings (mappings m) s3 = ok (s3\<lparr>maps := (\<lambda>r. if r \<in> set ps then None else maps s r)\<rparr>)"
    using free_mappings_ok[of s3 ps, unfolded sel] assms(7,8) by (simp add: dll_def)
  moreover have "clReleaseMemObject (Some i) s = andthen (free_mappings (mappings m) s3)
      (\<lambda>s4. ok (CL_SUCCESS, s4\<lparr>mems := (mems s4)(i := None)\<rparr>))"
    using assms(1-6) by (simp add: clReleaseMemObject_def release_mem_def release_context_def fetch_def Let_def s3_def)
  ultimately show ?thesis using assms(4) by (simp add: s3_def fun_upd_twist)
qed

text \<open>C35: Releasing a memory object never frees a context or another memory object, however their counts
  drop. So they can be lost: the last release of a sub-buffer takes one from the count of its parent and
  one from that of its context, frees its mapped regions and itself, and does nothing else; when the
  application has released the parent and the context before, and only the sub-buffer referred to
  them, both stay behind with a count of zero and no device is told to free the memory. The second part is for a sub-buffer
  whose parent and context exist and whose list of mapped regions is well-formed.\<close>

theorem shared_objects_never_freed:
  "(\<forall>s i e s'. clReleaseMemObject (Some i) s = ok (e, s') \<longrightarrow>
       kept (contexts s) (contexts s') \<and> (\<forall>j. j \<noteq> i \<longrightarrow> mems s j \<noteq> None \<longrightarrow> mems s' j \<noteq> None)) \<and>
   (\<forall>s i m p P c ps. mems s i = Some m \<and> mem_refcount m = 1 \<and> parent m = Some p \<and> p \<noteq> i \<and> mems s p = Some P \<and>
       contexts s (mem_context m) = Some c \<and> dll (map_links s) (mappings m) ps \<and> (\<forall>r \<in> set ps. maps s r \<noteq> None) \<longrightarrow>
     clReleaseMemObject (Some i) s = ok (CL_SUCCESS,
       s\<lparr>mems := (mems s)(p \<mapsto> P\<lparr>mem_refcount := mem_refcount P - 1\<rparr>, i := None),
         contexts := (contexts s)(mem_context m \<mapsto> c\<lparr>ctx_refcount := ctx_refcount c - 1\<rparr>),
         maps := (\<lambda>r. if r \<in> set ps then None else maps s r)\<rparr>))"
proof (intro conjI allI impI)
  fix s i e s' assume r: "clReleaseMemObject (Some i) s = ok (e, s')"
  from clReleaseMemObject_kept[OF r] show "kept (contexts s) (contexts s')" by simp
  fix j assume "j \<noteq> i" "mems s j \<noteq> None"
  with clReleaseMemObject_kept[OF r] show "mems s' j \<noteq> None" by simp
qed (elim conjE, rule sub_buffer_released)

lemma shared_objects_never_freed_witness:
  "\<exists>s'. clReleaseMemObject (Some 6) lent_buffer = ok (CL_SUCCESS, s') \<and> actions s' = [] \<and>
     mems s' 6 = None \<and> map_option mem_refcount (mems s' 5) = Some 0 \<and> map_option ctx_refcount (contexts s' 0) = Some 0"
proof -
  obtain m P c where a: "mems lent_buffer 6 = Some m" "mem_refcount m = 1" "parent m = Some 5" "mappings m = None" "mem_context m = 0"
    "mems lent_buffer 5 = Some P" "mem_refcount P = 1" "contexts lent_buffer 0 = Some c" "ctx_refcount c = 1"
    by (simp add: lent_buffer_def)
  from a have "mems lent_buffer 6 = Some m \<and> mem_refcount m = 1 \<and> parent m = Some 5 \<and> 5 \<noteq> (6 :: nat) \<and> mems lent_buffer 5 = Some P \<and>
       contexts lent_buffer (mem_context m) = Some c \<and> dll (map_links lent_buffer) (mappings m) [] \<and>
       (\<forall>r \<in> set []. maps lent_buffer r \<noteq> None)" by (simp add: dll_def)
  note r = shared_objects_never_freed[THEN conjunct2, rule_format, OF this]
  have "actions lent_buffer = []" by (simp add: lent_buffer_def)
  then show ?thesis unfolding r using a by simp
qed

section \<open>The last release of a kernel\<close>

text \<open>Taking a kernel out of the list of its program is \<open>LL_DELETE\<close>.\<close>

lemma unlink_kernel_LL_DELETE:
  assumes "programs s p = Some P" and "ll (kernel_next s) (p_kernels P) ks" and "i \<in> set ks"
  shows "\<exists>n h. LL_DELETE (kernel_next s) (p_kernels P) i = ok (n, h) \<and>
    unlink_kernel p i s = ok (True, s\<lparr>kernel_next := n, programs := (programs s)(p \<mapsto> P\<lparr>p_kernels := h\<rparr>)\<rparr>)"
proof -
  have "find (\<lambda>k. k = i) ks = Some i" using assms(3) by (induction ks) auto
  then have f: "foreach_find (kernel_next s) (\<lambda>k. k = i) (p_kernels P) = Some (Some i)"
    using foreach_find_ll[OF assms(2), of "\<lambda>k. k = i"] by simp
  obtain n h where d: "LL_DELETE (kernel_next s) (p_kernels P) i = ok (n, h)"
    using LL_DELETE_ll[OF assms(2,3)] by metis
  show ?thesis
  proof (cases "p_kernels P = Some i")
    case True
    then have "LL_DELETE (kernel_next s) (p_kernels P) i = ok (kernel_next s, kernel_next s i)"
      by (simp add: LL_DELETE_def)
    with True f assms(1) show ?thesis by (simp add: unlink_kernel_def fetch_def)
  next
    case False
    from assms(3) obtain as bs where ks: "ks = as @ i # bs" "i \<notin> set as" by (metis split_list_first)
    with False assms(2) obtain a cs where a: "p_kernels P = Some a" "as = a # cs" by (cases as) (auto simp: ll_def)
    have seg: "nseg (kernel_next s) (a # cs) (Some i)" using assms(2) ks a by (auto simp: ll_def)
    obtain ys l where yl: "a # cs = ys @ [l]" by (metis list.distinct(1) rev_exhaust)
    have b: "ll_before (kernel_next s) i a = Some l"
      using ll_before_seg[OF seg] ks a yl by (metis last_snoc)
    have "kernel_next s l = Some i" using seg unfolding yl by simp
    with a b False have
      "LL_DELETE (kernel_next s) (p_kernels P) i = ok ((kernel_next s)(l := kernel_next s i), p_kernels P)"
      by (simp add: LL_DELETE_def)
    with a b False f assms(1) show ?thesis by (cases s) (simp add: unlink_kernel_def fetch_def fun_upd_idem)
  qed
qed

text \<open>C32: The last release of a kernel takes it out of the linked list of its program, keeping the
  order of the others, gives back the reference to the program, and frees the kernel; nothing else
  changes. (The program is held by others here; when it is not, it is released too.)\<close>

theorem last_release_unlinks_kernel:
  assumes "kernels s i = Some k" and "k_refcount k = 1" and "k_program k = Some p" and "programs s p = Some P"
    and "ll (kernel_next s) (p_kernels P) ks" and "i \<in> set ks" and "1 < p_refcount P"
  shows "\<exists>n h. clReleaseKernel (Some i) s = ok (CL_SUCCESS, s\<lparr>kernels := (kernels s)(i := None), kernel_next := n,
       programs := (programs s)(p \<mapsto> P\<lparr>p_kernels := h, p_refcount := p_refcount P - 1\<rparr>)\<rparr>) \<and>
     ll n h (remove1 i ks) \<and> agree_nexts (- set ks) (kernel_next s) n"
proof -
  let ?s = "put_kernel i (k\<lparr>k_refcount := 0\<rparr>) s"
  have P: "programs ?s p = Some P" "ll (kernel_next ?s) (p_kernels P) ks" using assms by simp_all
  obtain n h where u: "LL_DELETE (kernel_next ?s) (p_kernels P) i = ok (n, h)"
    "unlink_kernel p i ?s = ok (True, ?s\<lparr>kernel_next := n, programs := (programs ?s)(p \<mapsto> P\<lparr>p_kernels := h\<rparr>)\<rparr>)"
    using unlink_kernel_LL_DELETE[OF P assms(6)] by blast
  obtain n' h' where d: "LL_DELETE (kernel_next s) (p_kernels P) i = ok (n', h')" "ll n' h' (remove1 i ks)"
    "agree_nexts (- set ks) (kernel_next s) n'" using LL_DELETE_ll[OF assms(5,6)] by metis
  with u(1) have "n' = n" "h' = h" by simp_all
  moreover have "clReleaseKernel (Some i) s = ok (CL_SUCCESS, s\<lparr>kernels := (kernels s)(i := None), kernel_next := n,
       programs := (programs s)(p \<mapsto> P\<lparr>p_kernels := h, p_refcount := p_refcount P - 1\<rparr>)\<rparr>)"
    using assms(1-3,7) u(2) by (simp add: clReleaseKernel_def release_kernel_def clReleaseProgram_def
        release_program_def fetch_def Let_def)
  ultimately show ?thesis using d by blast
qed

text \<open>A program with two kernels, 4 before 3.\<close>

definition two_kernels :: cl_state where
  "two_kernels = no_objects\<lparr>
     programs := [1 \<mapsto> \<lparr>p_refcount = 3, p_context = 0, p_kernels = Some 4\<rparr>],
     kernels := (\<lambda>_. None)(
       3 \<mapsto> \<lparr>k_refcount = 1, k_context = 0, k_program = Some 1, num_args = 0, num_locals = 0, arg_info = [], dyn_arguments = []\<rparr>,
       4 \<mapsto> \<lparr>k_refcount = 1, k_context = 0, k_program = Some 1, num_args = 0, num_locals = 0, arg_info = [], dyn_arguments = []\<rparr>),
     kernel_next := (\<lambda>_. None)(4 := Some 3)\<rparr>"

lemma last_release_unlinks_kernel_witness:
  "\<exists>s' P'. clReleaseKernel (Some 3) two_kernels = ok (CL_SUCCESS, s') \<and> kernels s' 3 = None \<and>
     programs s' 1 = Some P' \<and> p_refcount P' = 2 \<and> ll (kernel_next s') (p_kernels P') [4]"
proof -
  have "\<exists>n h. clReleaseKernel (Some 3) two_kernels = ok (CL_SUCCESS, two_kernels\<lparr>
       kernels := (kernels two_kernels)(3 := None), kernel_next := n,
       programs := (programs two_kernels)(1 \<mapsto> (the (programs two_kernels 1))
         \<lparr>p_kernels := h, p_refcount := p_refcount (the (programs two_kernels 1)) - 1\<rparr>)\<rparr>) \<and>
     ll n h (remove1 3 [4, 3]) \<and> agree_nexts (- set [4, 3]) (kernel_next two_kernels) n"
    by (rule last_release_unlinks_kernel[where k = "the (kernels two_kernels 3)"])
      (simp_all add: two_kernels_def ll_def or_else_def)
  then show ?thesis by (auto simp: two_kernels_def)
qed

end
