(* ===== verification/Cl_NDRange.thy ===== *)
theory Cl_NDRange
  imports Cl_Enqueue Cl_Util
begin

text \<open>
  Setting kernel arguments and launching a kernel (\<^verbatim>\<open>lib/CL/clSetKernelArg.c\<close>,
  \<^verbatim>\<open>lib/CL/clEnqueueNDRangeKernel.c\<close>): the choice of a work-group size, the checks of the
  launch, the snapshot of the arguments and the queueing of the command.
\<close>

abbreviation CL_INVALID_KERNEL_ARGS :: int where "CL_INVALID_KERNEL_ARGS \<equiv> -52"
abbreviation CL_INVALID_ARG_INDEX :: int where "CL_INVALID_ARG_INDEX \<equiv> -49"
abbreviation CL_INVALID_ARG_SIZE :: int where "CL_INVALID_ARG_SIZE \<equiv> -51"

text \<open>\<^verbatim>\<open>config.h\<close> gives 128; \<open>sizeof (cl_mem)\<close> is the size of a pointer.\<close>

abbreviation MAX_EXTENDED_ALIGNMENT :: size_t where "MAX_EXTENDED_ALIGNMENT \<equiv> 128"
abbreviation sizeof_cl_mem :: size_t where "sizeof_cl_mem \<equiv> 4"

section \<open>Copies of arguments\<close>

text \<open>
  \<open>memalign\<close> answers \<open>posix_memalign\<close>. A value of \<open>n\<close> bytes is allocated with the alignment of the
  next power of two, at most \<open>MAX_EXTENDED_ALIGNMENT\<close>.
\<close>

definition arg_alloc :: "(size_t \<Rightarrow> size_t \<Rightarrow> addr) \<Rightarrow> size_t \<Rightarrow> addr" where
  "arg_alloc memalign n =
     (let c = pocl_size_ceil2 n;
          arg_alignment = (if c \<ge> MAX_EXTENDED_ALIGNMENT then MAX_EXTENDED_ALIGNMENT else c);
          arg_alloc_size = (if n < arg_alignment then arg_alignment else n)
      in pocl_aligned_malloc memalign arg_alignment arg_alloc_size)"

text \<open>
  Copying \<open>n\<close> bytes from a value. The bytes of a handle to a memory object are not represented; a
  handle is only copied as a whole.
\<close>

fun copy_value :: "size_t \<Rightarrow> arg_value \<Rightarrow> arg_value prog" where
  "copy_value n (Plain bs) = (if unat n \<le> length bs then ok (Plain (take (unat n) bs)) else throw OutOfBounds)"
| "copy_value n (Mem_handle h) = (if n = sizeof_cl_mem then ok (Mem_handle h) else throw OutOfBounds)"

section \<open>clSetKernelArg\<close>

text \<open>\<open>*(const int * )arg_value == 0\<close>.\<close>

fun reads_zero :: "arg_value \<Rightarrow> bool prog" where
  "reads_zero (Mem_handle h) = ok (h = None)"
| "reads_zero (Plain bs) = (if length bs < 4 then throw OutOfBounds else ok (\<forall>b \<in> set (take 4 bs). b = 0))"

text \<open>The new argument, with the flag \<open>is_set\<close>; it is left unset when there is no memory.\<close>

definition stores :: "pocl_argument_info \<Rightarrow> arg_value option \<Rightarrow> bool prog" where
  "stores pi arg_value = (case arg_value of
       None \<Rightarrow> ok False
     | Some v \<Rightarrow> if arg_type pi = POCL_ARG_TYPE_POINTER then andthen (reads_zero v) (\<lambda>z. ok (\<not> z)) else ok True)"

definition set_arg ::
  "(size_t \<Rightarrow> size_t \<Rightarrow> addr) \<Rightarrow> pocl_argument_info \<Rightarrow> pocl_argument \<Rightarrow> size_t \<Rightarrow> arg_value option \<Rightarrow>
   (int \<times> pocl_argument \<times> bool) prog" where
  "set_arg ma pi p sz arg_value =
     andthen (stores pi arg_value) (\<lambda>stored.
     if \<not> stored then ok (CL_SUCCESS, \<lparr>arg_size = sz, arg_val = None\<rparr>, True)
     else if arg_alloc ma sz = NULL then ok (CL_OUT_OF_HOST_MEMORY, p\<lparr>arg_val := None\<rparr>, False)
     else andthen (copy_value sz (the arg_value)) (\<lambda>v.
          ok (CL_SUCCESS, \<lparr>arg_size = sz, arg_val = Some v\<rparr>, True)))"

text \<open>An empty list of arguments stands for a null pointer.\<close>

definition arg_error :: "cl_kernel \<Rightarrow> nat \<Rightarrow> size_t \<Rightarrow> int" where
  "arg_error K i sz =
     (if num_args K \<le> i then CL_INVALID_ARG_INDEX
      else if dyn_arguments K = [] then CL_INVALID_KERNEL
      else let pi = arg_info K ! i in
        if sz = 0 \<and> is_local pi then CL_INVALID_ARG_SIZE
        else if (arg_type pi = POCL_ARG_TYPE_POINTER \<or> arg_type pi = POCL_ARG_TYPE_IMAGE)
             \<and> \<not> is_local pi \<and> sz \<noteq> sizeof_cl_mem then CL_INVALID_ARG_SIZE
        else CL_SUCCESS)"

definition clSetKernelArg ::
  "(size_t \<Rightarrow> size_t \<Rightarrow> addr) \<Rightarrow> nat option \<Rightarrow> u32 \<Rightarrow> size_t \<Rightarrow> arg_value option \<Rightarrow> cl_state \<Rightarrow> (int \<times> cl_state) prog" where
  "clSetKernelArg ma krn arg_index sz arg_value s =
     (case krn of
        None \<Rightarrow> ok (CL_INVALID_KERNEL, s)
      | Some k \<Rightarrow>
          andthen (fetch (kernels s) k) (\<lambda>K.
          let i = unat arg_index; pi = arg_info K ! i; p = dyn_arguments K ! i
          in if arg_error K i sz \<noteq> CL_SUCCESS then ok (arg_error K i sz, s)
             else andthen (set_arg ma pi p sz arg_value) (\<lambda>(err, p', set).
                  ok (err, put_kernel k (K\<lparr>arg_info := (arg_info K)[i := pi\<lparr>is_set := set\<rparr>],
                                           dyn_arguments := (dyn_arguments K)[i := p']\<rparr>) s))))"

section \<open>Choosing a work-group size\<close>

definition is_multiple :: "size_t \<Rightarrow> size_t \<Rightarrow> bool prog" where
  "is_multiple l m = (if m = 0 then throw DivByZero else ok (l mod m = 0))"

text \<open>A dimension that can be halved and stays a multiple; one that is no multiple anyway.\<close>

definition halves :: "size_t \<Rightarrow> size_t \<Rightarrow> bool prog" where
  "halves m l = (if l > 1 \<and> l mod 2 = 0 then is_multiple (l div 2) m else ok False)"

definition uneven :: "size_t \<Rightarrow> size_t \<Rightarrow> bool prog" where
  "uneven m l = (if l > 1 then andthen (is_multiple l m) (\<lambda>b. ok (\<not> b)) else ok False)"

definition prog_if :: "bool prog \<Rightarrow> 'a \<Rightarrow> 'a prog \<Rightarrow> 'a prog" where
  "prog_if c x y = andthen c (\<lambda>b. if b then ok x else y)"

text \<open>The body of the loop; every \<open>continue\<close> goes on to its condition.\<close>

definition split_local :: "size_t \<Rightarrow> vec3 \<Rightarrow> vec3 prog" where
  "split_local m l =
     (let (x, y, z) = l in
      prog_if (halves m x) (x div 2, y, z) (
      prog_if (halves m y) (x, y div 2, z) (
      prog_if (halves m z) (x, y, z div 2) (
      prog_if (uneven m z) (x, y, 1) (
      prog_if (uneven m y) (x, 1, z) (
      prog_if (uneven m z) (x, y, 1) (
      if z > 1 then ok (x, y, 1)
      else if y > 1 then ok (x, 1, z)
      else if x > 1 then ok (1, y, z)
      else ok l)))))))"

fun volume :: "vec3 \<Rightarrow> size_t" where
  "volume (x, y, z) = x * y * z"

partial_function (option) choose_local :: "size_t \<Rightarrow> size_t \<Rightarrow> vec3 \<Rightarrow> vec3 prog" where
  "choose_local m limit l =
     (case split_local m l of
        None \<Rightarrow> None
      | Some (Inl e) \<Rightarrow> Some (Inl e)
      | Some (Inr l') \<Rightarrow> if volume l' > limit then choose_local m limit l' else Some (Inr l'))"

declare choose_local.simps [code]

section \<open>The launch\<close>

text \<open>
  What is not in the program: the allocator, the indeterminate value that the preferred multiple
  keeps when the query of it fails, and the preparation of the cache directory and the compiled
  work-group function, whose error code it gives.
\<close>

record launch_environment =
  memalign :: "size_t \<Rightarrow> size_t \<Rightarrow> addr"
  indeterminate :: size_t
  prepare :: "nat \<Rightarrow> vec3 \<Rightarrow> int"

definition elem :: "size_t list option \<Rightarrow> nat \<Rightarrow> size_t prog" where
  "elem p i = (case p of None \<Rightarrow> throw NullDeref
     | Some xs \<Rightarrow> if i < length xs then ok (xs ! i) else throw OutOfBounds)"

definition sizes3 :: "u32 \<Rightarrow> size_t \<Rightarrow> size_t list option \<Rightarrow> vec3 prog" where
  "sizes3 dim d p =
     andthen (elem p 0) (\<lambda>x.
     andthen (if dim > 1 then elem p 1 else ok d) (\<lambda>y.
     andthen (if dim > 2 then elem p 2 else ok d) (\<lambda>z. ok (x, y, z))))"

definition check_launch :: "cl_device \<Rightarrow> u32 \<Rightarrow> vec3 \<Rightarrow> vec3 \<Rightarrow> int prog" where
  "check_launch d dim g l =
     (let (gx, gy, gz) = g; (lx, ly, lz) = l in
      if volume l > max_work_group_size d then ok CL_INVALID_WORK_GROUP_SIZE
      else if lx > max_work_item_sizes d 0 then ok CL_INVALID_WORK_ITEM_SIZE
      else if dim > 1 \<and> ly > max_work_item_sizes d 1 then ok CL_INVALID_WORK_ITEM_SIZE
      else if dim > 2 \<and> lz > max_work_item_sizes d 2 then ok CL_INVALID_WORK_ITEM_SIZE
      else andthen (is_multiple gx lx) (\<lambda>b. if \<not> b then ok CL_INVALID_WORK_GROUP_SIZE else
           andthen (is_multiple gy ly) (\<lambda>b. if \<not> b then ok CL_INVALID_WORK_GROUP_SIZE else
           andthen (is_multiple gz lz) (\<lambda>b. if \<not> b then ok CL_INVALID_WORK_GROUP_SIZE else
           ok CL_SUCCESS))))"

fun copy_arguments :: "(size_t \<Rightarrow> size_t \<Rightarrow> addr) \<Rightarrow> pocl_argument list \<Rightarrow> pocl_argument list prog" where
  "copy_arguments ma [] = ok []"
| "copy_arguments ma (a # as) =
     andthen (case arg_val a of
        None \<Rightarrow> ok \<lparr>arg_size = arg_size a, arg_val = None\<rparr>
      | Some v \<Rightarrow> if arg_alloc ma (arg_size a) = NULL then throw NullDeref
                 else andthen (copy_value (arg_size a) v) (\<lambda>v'. ok \<lparr>arg_size = arg_size a, arg_val = Some v'\<rparr>)) (\<lambda>a'.
     andthen (copy_arguments ma as) (\<lambda>as'. ok (a' # as')))"

text \<open>The buffers among the arguments, in order; a null handle is kept.\<close>

definition is_buffer_arg :: "pocl_argument_info \<times> pocl_argument \<Rightarrow> bool" where
  "is_buffer_arg ia = (\<not> is_local (fst ia) \<and> arg_type (fst ia) = POCL_ARG_TYPE_POINTER \<and> arg_val (snd ia) \<noteq> None)"

fun retain_arg_buffers :: "pocl_argument list \<Rightarrow> cl_state \<Rightarrow> (nat option list \<times> cl_state) prog" where
  "retain_arg_buffers [] s = ok ([], s)"
| "retain_arg_buffers (a # as) s =
     (case arg_val a of
        Some (Mem_handle buf) \<Rightarrow>
          andthen (case buf of None \<Rightarrow> ok s | Some b \<Rightarrow> andthen (clRetainMemObject (Some b) s) (\<lambda>(e, s1). ok s1)) (\<lambda>s1.
          andthen (retain_arg_buffers as s1) (\<lambda>(bufs, s2). ok (buf # bufs, s2)))
      | _ \<Rightarrow> throw UseAfterFree)"

definition buffer_args :: "cl_kernel \<Rightarrow> pocl_argument list" where
  "buffer_args K = map snd (filter is_buffer_arg (take (num_args K) (zip (arg_info K) (dyn_arguments K))))"

definition groups3 :: "vec3 \<Rightarrow> vec3 \<Rightarrow> vec3" where
  "groups3 g l = (let (gx, gy, gz) = g; (lx, ly, lz) = l in (gx div lx, gy div ly, gz div lz))"

text \<open>The command is created, filled in, its kernel and buffers are retained, and it is queued.\<close>

definition queue_launch ::
  "launch_environment \<Rightarrow> nat option \<Rightarrow> nat option \<Rightarrow> nat \<Rightarrow> nat \<Rightarrow> cl_kernel \<Rightarrow> pocl_context \<Rightarrow> vec3 \<Rightarrow> nat \<Rightarrow>
   nat option list option \<Rightarrow> bool \<Rightarrow> cl_state \<Rightarrow> (int \<times> nat option \<times> cl_state) prog" where
  "queue_launch E cmd_ca event_ca q k K pc l num_events wait_list wants s =
     andthen (pocl_create_command cmd_ca event_ca q (Ndrange_kernel k pc l [] []) wants num_events wait_list s)
       (\<lambda>(errcode, r, s1).
     case r of
       None \<Rightarrow> ok (errcode, None, s1)
     | Some (cmd, ev) \<Rightarrow>
         andthen (copy_arguments (memalign E) (take (num_args K + num_locals K) (dyn_arguments K))) (\<lambda>args.
         andthen (clRetainKernel (Some k) s1) (\<lambda>(e, s2).
         andthen (retain_arg_buffers (buffer_args K) s2) (\<lambda>(bufs, s3).
         andthen (fetch (nodes s3) cmd) (\<lambda>x.
         andthen (pocl_command_enqueue q cmd
            (s3\<lparr>nodes := (nodes s3)(cmd \<mapsto> x\<lparr>command := Ndrange_kernel k pc l bufs args\<rparr>)\<rparr>)) (\<lambda>s4.
         ok (CL_SUCCESS, Some ev, s4)))))))"

definition preferred_multiple :: "launch_environment \<Rightarrow> cl_context \<Rightarrow> nat \<Rightarrow> cl_device \<Rightarrow> size_t" where
  "preferred_multiple E c dev d = (if dev \<in> set (ctx_devices c) then preferred_wg_multiple d else indeterminate E)"

definition clEnqueueNDRangeKernel ::
  "launch_environment \<Rightarrow> nat option \<Rightarrow> nat option \<Rightarrow> nat option \<Rightarrow> nat option \<Rightarrow> u32 \<Rightarrow> size_t list option \<Rightarrow>
   size_t list option \<Rightarrow> size_t list option \<Rightarrow> nat \<Rightarrow> nat option list option \<Rightarrow> bool \<Rightarrow> cl_state \<Rightarrow>
   (int \<times> nat option \<times> cl_state) prog" where
  "clEnqueueNDRangeKernel E cmd_ca event_ca command_queue krn dim global_work_offset global_work_size
      local_work_size num_events wait_list wants s =
     (case command_queue of None \<Rightarrow> ok (CL_INVALID_COMMAND_QUEUE, None, s) | Some q \<Rightarrow>
     (case krn of None \<Rightarrow> ok (CL_INVALID_KERNEL, None, s) | Some k \<Rightarrow>
     andthen (fetch (queues s) q) (\<lambda>Q.
     andthen (fetch (kernels s) k) (\<lambda>K.
     if q_context Q \<noteq> k_context K then ok (CL_INVALID_CONTEXT, None, s)
     else if dim < 1 then ok (CL_INVALID_WORK_DIMENSION, None, s)
     else andthen (fetch (devices s) (q_device Q)) (\<lambda>d.
     if dim > max_work_item_dimensions d then ok (CL_INVALID_WORK_DIMENSION, None, s)
     else if max_work_item_dimensions d > 3 then throw AssertFail
     else andthen (if global_work_offset = None then ok (0, 0, 0) else sizes3 dim 0 global_work_offset) (\<lambda>off.
     andthen (sizes3 dim 1 global_work_size) (\<lambda>g.
     if fst g = 0 \<or> fst (snd g) = 0 \<or> snd (snd g) = 0 then ok (CL_INVALID_GLOBAL_WORK_SIZE, None, s)
     else if \<exists>i < num_args K. \<not> is_set (arg_info K ! i) then ok (CL_INVALID_KERNEL_ARGS, None, s)
     else andthen (fetch (contexts s) (k_context K)) (\<lambda>c.
     andthen (if local_work_size \<noteq> None then sizes3 dim 1 local_work_size
              else choose_local (preferred_multiple E c (q_device Q) d) (max_work_group_size d) g) (\<lambda>l.
     andthen (check_launch d dim g l) (\<lambda>err.
     if err \<noteq> CL_SUCCESS then ok (err, None, s)
     else if wait_list = None \<and> num_events > 0 \<or> wait_list \<noteq> None \<and> num_events = 0
     then ok (CL_INVALID_EVENT_WAIT_LIST, None, s)
     else if prepare E k l \<noteq> 0 then ok (prepare E k l, None, s)
     else queue_launch E cmd_ca event_ca q k K
            \<lparr>work_dim = dim, num_groups = groups3 g l, global_offset = off\<rparr> l num_events wait_list wants s))))))))))"

end
