(* ===== verification/Cl_NDRange_Props.thy ===== *)
theory Cl_NDRange_Props
  imports Cl_NDRange Cl_Util_Props Cl_Enqueue
begin

text \<open>
  Setting arguments and launching kernels: the work-group size that the runtime chooses, what an
  accepted launch describes, and the arguments and references it holds.
\<close>

section \<open>The choice of a work-group size\<close>

lemma half_word:
  fixes l :: size_t
  assumes "l > 1" and "l mod 2 = 0"
  shows "0 < unat (l div 2)" and "unat (l div 2) < unat l" and "unat (l div 2) dvd unat l"
proof -
  have "unat (l mod 2) = 0" using assms(2) by simp
  then have "unat l mod 2 = 0" by (simp only: unat_mod) simp
  moreover have "1 < unat l" using assms(1) by (simp add: word_less_nat_alt)
  ultimately have "unat l mod 2 = 0" "1 < unat l" .
  then show "0 < unat (l div 2)" "unat (l div 2) < unat l" "unat (l div 2) dvd unat l"
    by (auto simp: unat_div elim!: evenE)
qed

text \<open>One turn of the loop: every size stays positive and a divisor, and one of them shrinks.\<close>

fun sizes_ok :: "vec3 \<Rightarrow> vec3 \<Rightarrow> bool" where
  "sizes_ok (x, y, z) (x', y', z') \<longleftrightarrow> x' \<noteq> 0 \<and> y' \<noteq> 0 \<and> z' \<noteq> 0 \<and>
     unat x' dvd unat x \<and> unat y' dvd unat y \<and> unat z' dvd unat z"

fun size_sum :: "vec3 \<Rightarrow> nat" where
  "size_sum (x, y, z) = unat x + unat y + unat z"

lemma sizes_ok_trans: "sizes_ok a b \<Longrightarrow> sizes_ok b c \<Longrightarrow> sizes_ok a c"
  by (cases a rule: prod_cases3; cases b rule: prod_cases3; cases c rule: prod_cases3) (auto intro: dvd_trans)

lemma split_local_step:
  assumes "m \<noteq> 0" and "sizes_ok g l"
  obtains l' where "split_local m l = ok l'" and "sizes_ok g l'" and "l = (1, 1, 1) \<and> l' = l \<or> size_sum l' < size_sum l"
proof -
  obtain x y z where l: "l = (x, y, z)" by (cases l rule: prod_cases3)
  have g1: "\<not> (1 :: size_t) < v \<Longrightarrow> v \<noteq> 0 \<Longrightarrow> v = 1" for v
    by unat_arith
  have big: "1 < v \<Longrightarrow> 1 < unat v" for v :: size_t by (simp add: word_less_nat_alt)
  have "\<exists>l'. split_local m l = ok l' \<and> sizes_ok l l' \<and> (l = (1, 1, 1) \<and> l' = l \<or> size_sum l' < size_sum l)"
    using assms half_word[of x] half_word[of y] half_word[of z] g1[of x] g1[of y] g1[of z] big[of x] big[of y] big[of z]
    unfolding l split_local_def prog_if_def halves_def uneven_def is_multiple_def
    by (cases g rule: prod_cases3) (auto simp: unat_gt_0)
  then show thesis using that sizes_ok_trans[OF assms(2)] by blast
qed

lemma choose_local_ok:
  assumes "m \<noteq> 0" and "limit \<noteq> 0"
  shows "sizes_ok g l \<Longrightarrow> \<exists>l'. choose_local m limit l = ok l' \<and> sizes_ok g l' \<and> volume l' \<le> limit"
proof (induction "size_sum l" arbitrary: l rule: less_induct)
  case less
  obtain l' where l': "split_local m l = ok l'" "sizes_ok g l'" "l = (1, 1, 1) \<and> l' = l \<or> size_sum l' < size_sum l"
    by (rule split_local_step[OF assms(1) less.prems])
  have e: "choose_local m limit l = (if volume l' > limit then choose_local m limit l' else ok l')"
    using l'(1) by (simp add: choose_local.simps[of m limit l] ok_def)
  show ?case
  proof (cases "volume l' > limit")
    case True
    then have "l' \<noteq> (1, 1, 1)" using assms(2) by (auto simp: word_less_1)
    with l'(3) have "size_sum l' < size_sum l" by auto
    from less.hyps[OF this l'(2)] True e show ?thesis by simp
  qed (use e l' in auto)
qed

lemma volume_no_wrap:
  assumes "sizes_ok (gx, gy, gz) (lx, ly, lz)" and "unat gx * unat gy * unat gz < 2 ^ 32"
    and "gx \<noteq> 0" and "gy \<noteq> 0" and "gz \<noteq> 0"
  shows "unat (volume (lx, ly, lz)) = unat lx * unat ly * unat lz"
proof -
  have "unat lx * unat ly * unat lz dvd unat gx * unat gy * unat gz"
    using assms(1) by (auto intro: mult_dvd_mono)
  moreover have "0 < unat gx * unat gy * unat gz" using assms(3-5) by (simp add: unat_gt_0)
  ultimately have "unat lx * unat ly * unat lz < 2 ^ 32" using assms(2) by (meson dvd_imp_le le_less_trans)
  moreover have "0 < unat lz" using assms(1) by (simp add: unat_gt_0)
  then have "unat lx * unat ly \<le> unat lx * unat ly * unat lz" by simp
  ultimately have "unat lx * unat ly < 2 ^ 32" "unat lx * unat ly * unat lz < 2 ^ 32" by linarith+
  then show ?thesis by (simp add: unat_word_ariths)
qed

text \<open>
  C39: The search for a work-group size ends for every launch, if the preferred multiple and the
  limit of the device are not 0. The sizes it finds are positive and divide the global sizes, so a
  launch without a local size is never rejected as uneven, and the group fits the limit of the
  device if the number of work items fits 32 bits.
\<close>

theorem choose_local_fits:
  assumes "m \<noteq> 0" and "limit \<noteq> 0" and "gx \<noteq> 0" and "gy \<noteq> 0" and "gz \<noteq> 0"
  shows "\<exists>lx ly lz. choose_local m limit (gx, gy, gz) = ok (lx, ly, lz) \<and>
    lx \<noteq> 0 \<and> ly \<noteq> 0 \<and> lz \<noteq> 0 \<and> unat lx dvd unat gx \<and> unat ly dvd unat gy \<and> unat lz dvd unat gz \<and>
    (unat gx * unat gy * unat gz < 2 ^ 32 \<longrightarrow> unat lx * unat ly * unat lz \<le> unat limit)"
proof -
  from choose_local_ok[OF assms(1,2), of "(gx, gy, gz)" "(gx, gy, gz)"] assms(3-5) obtain l' where l':
    "choose_local m limit (gx, gy, gz) = ok l'" "sizes_ok (gx, gy, gz) l'" "volume l' \<le> limit" by auto
  obtain lx ly lz where l: "l' = (lx, ly, lz)" by (cases l' rule: prod_cases3)
  have "unat lx * unat ly * unat lz \<le> unat limit" if "unat gx * unat gy * unat gz < 2 ^ 32"
    using volume_no_wrap[OF l'(2)[unfolded l] that assms(3-5)] l'(3) by (simp add: l word_le_nat_alt)
  with l' l show ?thesis by auto
qed

text \<open>An image of 1920 times 1080 on a device that prefers multiples of 8 and allows 1024.\<close>

theorem choose_local_fits_witness:
  "\<exists>lx ly lz. choose_local 8 1024 (1920, 1080, 1) = ok (lx, ly, lz) \<and>
    lx \<noteq> 0 \<and> ly \<noteq> 0 \<and> lz \<noteq> 0 \<and> unat lx dvd unat (1920 :: u32) \<and> unat ly dvd unat (1080 :: u32) \<and> unat lz dvd unat (1 :: u32) \<and>
    (unat (1920 :: u32) * unat (1080 :: u32) * unat (1 :: u32) < 2 ^ 32 \<longrightarrow> unat lx * unat ly * unat lz \<le> unat (1024 :: u32))"
  by (rule choose_local_fits) simp_all

section \<open>Setting an argument\<close>

text \<open>Every set argument has the size it was given.\<close>

definition arg_ok :: "pocl_argument \<Rightarrow> bool" where
  "arg_ok a \<longleftrightarrow> (case arg_val a of
     None \<Rightarrow> True | Some (Plain bs) \<Rightarrow> length bs = unat (arg_size a) | Some (Mem_handle h) \<Rightarrow> arg_size a = sizeof_cl_mem)"

text \<open>
  A kernel whose tables of arguments have the lengths its counters promise, and whose arguments have
  the sizes they were set with.
\<close>

definition kernel_ok :: "cl_kernel \<Rightarrow> bool" where
  "kernel_ok K \<longleftrightarrow> length (arg_info K) = num_args K \<and> length (dyn_arguments K) = num_args K + num_locals K \<and>
     (\<forall>a \<in> set (dyn_arguments K). arg_ok a)"

lemma arg_ok_None: "arg_ok (a\<lparr>arg_val := None\<rparr>)" "arg_ok \<lparr>arg_size = n, arg_val = None\<rparr>"
  by (simp_all add: arg_ok_def)

lemma copy_value_ok: "copy_value n v = ok v' \<Longrightarrow> arg_ok \<lparr>arg_size = n, arg_val = Some v'\<rparr>"
  by (cases v) (auto simp: arg_ok_def split: if_splits)

lemma set_arg_ok: "set_arg ma pi p n v = ok (err, a, b) \<Longrightarrow> arg_ok a"
  using copy_value_ok by (fastforce simp: set_arg_def andthen_eq_ok arg_ok_None split: if_splits)

lemma kernel_okD: "kernel_ok K \<Longrightarrow> i < num_args K \<Longrightarrow> arg_ok (dyn_arguments K ! i)"
  by (auto simp: kernel_ok_def)

lemma kernel_ok_update:
  assumes "kernel_ok K" and "arg_ok a"
  shows "kernel_ok (K\<lparr>arg_info := (arg_info K)[i := pi], dyn_arguments := (dyn_arguments K)[i := a]\<rparr>)"
  using assms set_update_subset_insert[of "dyn_arguments K" i a] by (auto simp: kernel_ok_def)

text \<open>
  C41: Setting an argument keeps the kernel well formed, whatever the call is given and whatever it
  answers: the tables keep their lengths, every argument has as many bytes as its size says, and
  no other argument and no other object changes. After a success the argument is set and has the
  given size; when there is no memory for it, it is left unset.
\<close>

theorem set_arg_well_formed:
  assumes "clSetKernelArg ma (Some k) i n v s = ok (err, s')" and "kernels s k = Some K" and "kernel_ok K"
  shows "\<exists>K'. s' = s\<lparr>kernels := (kernels s)(k \<mapsto> K')\<rparr> \<and> kernel_ok K' \<and>
    num_args K' = num_args K \<and> num_locals K' = num_locals K \<and>
    (\<forall>j. j \<noteq> unat i \<longrightarrow> dyn_arguments K' ! j = dyn_arguments K ! j \<and> arg_info K' ! j = arg_info K ! j) \<and>
    (err = CL_SUCCESS \<longrightarrow> unat i < num_args K \<and> is_set (arg_info K' ! unat i) \<and> arg_size (dyn_arguments K' ! unat i) = n) \<and>
    (err = CL_OUT_OF_HOST_MEMORY \<longrightarrow> \<not> is_set (arg_info K' ! unat i))"
proof (cases "arg_error K (unat i) n = CL_SUCCESS")
  case False
  then have "s' = s" "err = arg_error K (unat i) n" using assms(1,2) by (simp_all add: clSetKernelArg_def fetch_def Let_def)
  moreover have "s = s\<lparr>kernels := (kernels s)(k \<mapsto> K)\<rparr>" using assms(2) by (cases s) (simp add: fun_upd_idem)
  moreover have "arg_error K (unat i) n \<noteq> CL_OUT_OF_HOST_MEMORY" by (simp add: arg_error_def Let_def)
  ultimately show ?thesis using False assms(3) by (intro exI[of _ K]) simp
next
  case True
  let ?i = "unat i"
  from True have i: "?i < num_args K" by (auto simp: arg_error_def split: if_splits)
  with assms(3) have l: "?i < length (arg_info K)" "?i < length (dyn_arguments K)" by (simp_all add: kernel_ok_def)
  from True assms(1,2) obtain a b where a: "set_arg ma (arg_info K ! ?i) (dyn_arguments K ! ?i) n v = ok (err, a, b)"
    and e: "s' = put_kernel k (K\<lparr>arg_info := (arg_info K)[?i := (arg_info K ! ?i)\<lparr>is_set := b\<rparr>],
              dyn_arguments := (dyn_arguments K)[?i := a]\<rparr>) s"
    by (auto simp: clSetKernelArg_def fetch_def Let_def andthen_eq_ok)
  from a have "err = CL_SUCCESS \<and> b \<and> arg_size a = n \<or> err = CL_OUT_OF_HOST_MEMORY \<and> \<not> b"
    by (auto simp: set_arg_def andthen_eq_ok split: if_splits)
  with kernel_ok_update[OF assms(3) set_arg_ok[OF a]] i l show ?thesis
    unfolding e by (intro exI conjI[OF refl]) auto
qed

text \<open>A kernel with a value argument, a buffer argument and a local one.\<close>

definition sample_kernel :: cl_kernel where
  "sample_kernel = \<lparr>k_refcount = 1, k_context = 0, k_program = None, num_args = 3, num_locals = 0,
     arg_info = [\<lparr>arg_type = POCL_ARG_TYPE_NONE, is_local = False, is_set = True\<rparr>,
       \<lparr>arg_type = POCL_ARG_TYPE_POINTER, is_local = False, is_set = True\<rparr>,
       \<lparr>arg_type = POCL_ARG_TYPE_POINTER, is_local = True, is_set = False\<rparr>],
     dyn_arguments = [\<lparr>arg_size = 4, arg_val = Some (Plain [1, 2, 3, 4])\<rparr>,
       \<lparr>arg_size = 4, arg_val = Some (Mem_handle (Some 7))\<rparr>, \<lparr>arg_size = 0, arg_val = None\<rparr>]\<rparr>"

lemma sample_kernel_ok: "kernel_ok sample_kernel"
  by (simp add: kernel_ok_def sample_kernel_def arg_ok_def)

lemma sample_kernel_set:
  "clSetKernelArg (\<lambda>al n. 0x1000) (Some 5) 2 64 None (no_objects\<lparr>kernels := [5 \<mapsto> sample_kernel]\<rparr>)
     = ok (CL_SUCCESS, no_objects\<lparr>kernels := [5 \<mapsto> sample_kernel
         \<lparr>arg_info := (arg_info sample_kernel)[2 := \<lparr>arg_type = POCL_ARG_TYPE_POINTER, is_local = True, is_set = True\<rparr>],
          dyn_arguments := (dyn_arguments sample_kernel)[2 := \<lparr>arg_size = 64, arg_val = None\<rparr>]\<rparr>]\<rparr>)"
  by (simp add: clSetKernelArg_def fetch_def arg_error_def set_arg_def stores_def sample_kernel_def)

theorem set_arg_well_formed_witness:
  "\<exists>K'. kernel_ok K' \<and> is_set (arg_info K' ! 2) \<and> arg_size (dyn_arguments K' ! 2) = 64 \<and>
     dyn_arguments K' ! 1 = dyn_arguments sample_kernel ! 1"
proof -
  have "kernels (no_objects\<lparr>kernels := [5 \<mapsto> sample_kernel]\<rparr>) 5 = Some sample_kernel" by simp
  from set_arg_well_formed[OF sample_kernel_set this sample_kernel_ok] show ?thesis by auto
qed

text \<open>Memory for an argument of more than 128 bytes is only requested for multiples of 128.\<close>

lemma arg_alloc_large:
  assumes "128 < unat n" and "unat n \<le> 2 ^ 31"
  shows "arg_alloc ma n = (if 128 dvd unat n then ma 128 n else NULL)"
proof -
  obtain k where k: "unat (n - 1) < 2 ^ k" "0 < k \<longrightarrow> 2 ^ (k - 1) \<le> unat (n - 1)" "k \<le> 32"
    "pocl_size_ceil2 n = of_nat (2 ^ k)" by (rule ceil2_power[of n])
  have u: "unat (n - 1) = unat n - 1" using assms(1) by (subst unat_sub_no_wrap) simp_all
  have "k \<le> 31"
  proof (rule ccontr)
    assume "\<not> k \<le> 31"
    with k(3) have "k = 32" by simp
    with k(2) u assms show False by simp
  qed
  have "7 < k"
  proof (rule ccontr)
    assume "\<not> 7 < k"
    then have "(2::nat) ^ k \<le> 2 ^ 7" by (intro power_increasing) simp_all
    with k(1) u assms(1) show False by simp
  qed
  then have "(2::nat) ^ 8 \<le> 2 ^ k" "(2::nat) ^ k \<le> 2 ^ 31" using \<open>k \<le> 31\<close> by (intro power_increasing; simp)+
  moreover from this have "unat (pocl_size_ceil2 n) = 2 ^ k" unfolding k(4) by (intro unat_eqI) auto
  ultimately have "128 \<le> pocl_size_ceil2 n" by (simp add: word_le_nat_alt)
  moreover have "\<not> n < 128" using assms(1) by (simp add: word_less_nat_alt)
  moreover have "n AND 127 = 0 \<longleftrightarrow> 128 dvd unat n"
    using and_mask_unat[of n 7] by (simp add: mask_eq_exp_minus_1 unat_eq_0[symmetric] dvd_eq_mod_eq_0)
  ultimately show ?thesis by (simp add: arg_alloc_def pocl_aligned_malloc_def)
qed

text \<open>
  C42: A value argument of more than 128 bytes whose size is not a multiple of 128 cannot be set,
  however much memory there is: the call answers \<open>CL_OUT_OF_HOST_MEMORY\<close>, and the value the
  argument had before is gone.
\<close>

theorem large_arguments_rejected:
  assumes "kernels s k = Some K" and "unat i < num_args K" and "length (dyn_arguments K) = num_args K + num_locals K"
    and "arg_type (arg_info K ! unat i) = POCL_ARG_TYPE_NONE"
    and "128 < unat n" and "unat n \<le> 2 ^ 31" and "\<not> 128 dvd unat n"
  shows "clSetKernelArg ma (Some k) i n (Some v) s = ok (CL_OUT_OF_HOST_MEMORY,
    put_kernel k (K\<lparr>arg_info := (arg_info K)[unat i := (arg_info K ! unat i)\<lparr>is_set := False\<rparr>],
      dyn_arguments := (dyn_arguments K)[unat i := (dyn_arguments K ! unat i)\<lparr>arg_val := None\<rparr>]\<rparr>) s)"
proof -
  have "dyn_arguments K \<noteq> []" "n \<noteq> 0" using assms(2,3,5) by auto
  then have "arg_error K (unat i) n = CL_SUCCESS" using assms(2,4) by (simp add: arg_error_def)
  then show ?thesis
    using assms(1,4) arg_alloc_large[OF assms(5,6), of ma] assms(7)
    by (simp add: clSetKernelArg_def fetch_def Let_def set_arg_def stores_def)
qed

theorem large_arguments_rejected_witness:
  "map_option (map_sum id fst) (clSetKernelArg (\<lambda>al n. 0x1000) (Some 5) 0 200 (Some (Plain (replicate 200 1)))
     (no_objects\<lparr>kernels := [5 \<mapsto> sample_kernel]\<rparr>)) = Some (Inr CL_OUT_OF_HOST_MEMORY)"
  by (subst large_arguments_rejected[where K = sample_kernel]) (simp_all add: sample_kernel_def ok_def)

section \<open>An accepted launch\<close>

text \<open>The copies equal the arguments.\<close>

lemma copy_value_same: "arg_ok \<lparr>arg_size = n, arg_val = Some v\<rparr> \<Longrightarrow> copy_value n v = ok v"
  by (cases v) (auto simp: arg_ok_def)

lemma copy_arguments_same:
  "\<forall>a \<in> set as. arg_ok a \<Longrightarrow> copy_arguments ma as = ok cs \<Longrightarrow> cs = as"
proof (induction as arbitrary: cs)
  case (Cons a as)
  obtain n v where a: "a = \<lparr>arg_size = n, arg_val = v\<rparr>" by (cases a)
  show ?case
    using Cons copy_value_same[of n] by (cases v) (auto simp: a andthen_eq_ok split: if_splits)
qed simp

text \<open>Retaining the buffers counts every occurrence.\<close>

definition add_ref :: "int \<Rightarrow> cl_mem \<Rightarrow> cl_mem" where
  "add_ref n m = m\<lparr>mem_refcount := mem_refcount m + n\<rparr>"

lemma add_ref_simps [simp]: "add_ref 0 m = m" "add_ref a (add_ref b m) = add_ref (a + b) m"
  by (simp_all add: add_ref_def add.commute)

lemma map_add_ref_0 [simp]: "map_option (add_ref 0) x = x"
  by (cases x) simp_all

lemma retain_arg_buffers_mems:
  "retain_arg_buffers as s = ok (bufs, s') \<Longrightarrow>
     s' = s\<lparr>mems := mems s'\<rparr> \<and> (\<forall>b. mems s' b = map_option (add_ref (int (count_list bufs (Some b)))) (mems s b)) \<and>
     map arg_val as = map (\<lambda>b. Some (Mem_handle b)) bufs"
proof (induction as arbitrary: s bufs)
  case (Cons a as)
  from Cons.prems obtain buf s1 bs where b: "arg_val a = Some (Mem_handle buf)" "bufs = buf # bs"
    "(case buf of None \<Rightarrow> ok s | Some b \<Rightarrow> andthen (clRetainMemObject (Some b) s) (\<lambda>(e, s1). ok s1)) = ok s1"
    "retain_arg_buffers as s1 = ok (bs, s')"
    by (auto simp: andthen_eq_ok split: option.splits arg_value.splits)
  note IH = Cons.IH[OF b(4)]
  show ?case
  proof (cases buf)
    case None
    with b have "s1 = s" by simp
    with IH b None show ?thesis by auto
  next
    case (Some i)
    with b(3) obtain m where m: "mems s i = Some m" "s1 = put_mem i (m\<lparr>mem_refcount := mem_refcount m + 1\<rparr>) s"
      by (auto simp: clRetainMemObject_def retain_mem_def fetch_def andthen_eq_ok split: option.splits)
    have "mems s1 b = map_option (add_ref (if b = i then 1 else 0)) (mems s b)" for b
      using m by (cases "mems s b") (auto simp: add_ref_def)
    then have "mems s' b = map_option (add_ref (int (count_list bufs (Some b)))) (mems s b)" for b
      using IH unfolding b(2) Some by (auto simp: option.map_comp comp_def add.commute)
    moreover have "s' = s\<lparr>mems := mems s'\<rparr>" using IH m(2) by (cases s; cases s'; cases s1) simp
    ultimately show ?thesis using IH b(1,2) by auto
  qed
qed simp

text \<open>Creating and queueing a command touches neither memory objects nor kernels.\<close>

definition same_objects :: "cl_state \<Rightarrow> cl_state \<Rightarrow> bool" where
  "same_objects s s' \<longleftrightarrow> mems s' = mems s \<and> kernels s' = kernels s"

lemma same_objects_trans: "same_objects s s1 \<Longrightarrow> same_objects s1 s2 \<Longrightarrow> same_objects s s2"
  by (simp add: same_objects_def)

lemma new_event_objects: "pocl_mem_manager_new_event ca s = ok (ev, s1) \<Longrightarrow> same_objects s s1 \<and> nodes s1 = nodes s"
  by (auto simp: pocl_mem_manager_new_event_def same_objects_def andthen_eq_ok split: option.splits)

lemma new_command_objects: "pocl_mem_manager_new_command ca s = (r, s1) \<Longrightarrow> same_objects s s1"
  by (auto simp: pocl_mem_manager_new_command_def same_objects_def split: option.splits)

lemma create_event_objects:
  assumes "pocl_create_event ca q t s = ok (ev, s')"
  shows "same_objects s s' \<and> nodes s' = nodes s"
proof -
  from assms obtain s1 e s2 err e2 where 1: "pocl_mem_manager_new_event ca s = ok (ev, s1)"
    "clRetainCommandQueue q (put_event ev (e\<lparr>e_queue := q\<rparr>) s1) = ok (err, s2)"
    "s' = (put_event ev (e2\<lparr>e_type := t, callbacks := [], implicit_event := False\<rparr>) s2)\<lparr>event_next := (event_next s2)(ev := None)\<rparr>"
    by (auto simp: pocl_create_event_def andthen_eq_ok)
  from 1(2) have "same_objects s1 s2 \<and> nodes s2 = nodes s1"
    by (auto simp: clRetainCommandQueue_def retain_queue_def andthen_eq_ok same_objects_def split: option.splits)
  with 1(3) new_event_objects[OF 1(1)] show ?thesis by (simp add: same_objects_def)
qed

text \<open>Nor do they touch the lists of the queues, up to the link of the new node.\<close>

definition same_lists :: "nat set \<Rightarrow> cl_state \<Rightarrow> cl_state \<Rightarrow> bool" where
  "same_lists A s s' \<longleftrightarrow> (\<forall>n. n \<notin> A \<longrightarrow> node_next s' n = node_next s n) \<and>
     (\<forall>q. map_option root (queues s' q) = map_option root (queues s q))"

lemma same_lists_trans: "same_lists A s s1 \<Longrightarrow> same_lists B s1 s2 \<Longrightarrow> A \<union> B \<subseteq> C \<Longrightarrow> same_lists C s s2"
  unfolding same_lists_def subset_iff Un_iff by metis

lemma new_event_lists: "pocl_mem_manager_new_event ca s = ok (ev, s1) \<Longrightarrow> same_lists {} s s1"
  by (auto simp: pocl_mem_manager_new_event_def same_lists_def andthen_eq_ok split: option.splits)

lemma new_command_lists: "pocl_mem_manager_new_command ca s = (Some cmd, s1) \<Longrightarrow> node_source ca cmd s \<and> same_lists {cmd} s s1"
  by (auto simp: pocl_mem_manager_new_command_def same_lists_def node_source_def split: option.splits)

lemma create_event_lists:
  assumes "pocl_create_event ca q t s = ok (ev, s')"
  shows "same_lists {} s s'"
proof -
  from assms obtain s1 e s2 err e2 where 1: "pocl_mem_manager_new_event ca s = ok (ev, s1)"
    "clRetainCommandQueue q (put_event ev (e\<lparr>e_queue := q\<rparr>) s1) = ok (err, s2)"
    "s' = (put_event ev (e2\<lparr>e_type := t, callbacks := [], implicit_event := False\<rparr>) s2)\<lparr>event_next := (event_next s2)(ev := None)\<rparr>"
    by (auto simp: pocl_create_event_def andthen_eq_ok)
  from 1(2) have "same_lists {} s1 s2"
    by (auto simp: clRetainCommandQueue_def retain_queue_def fetch_def andthen_eq_ok same_lists_def split: option.splits)
  then have "same_lists {} s1 s'" unfolding 1(3) by (simp add: same_lists_def)
  with new_event_lists[OF 1(1)] show ?thesis by (rule same_lists_trans) simp
qed

lemma create_command_objects:
  assumes "pocl_create_command ca ea q c w n wl s = ok (e, r, s')"
  shows "same_objects s s' \<and> (case r of None \<Rightarrow> e \<noteq> CL_SUCCESS
    | Some (cmd, ev) \<Rightarrow> (\<exists>x. nodes s' cmd = Some x \<and> command x = c \<and> n_event x = ev) \<and>
        node_source ca cmd s \<and> same_lists {cmd} s s')"
proof -
  define ws where "ws = (case wl of None \<Rightarrow> [] | Some ws \<Rightarrow> take n ws)"
  define bad where "bad \<longleftrightarrow> (wl = None \<and> n \<noteq> 0) \<or> (wl \<noteq> None \<and> n = 0)"
  obtain r0 s1 where m: "pocl_mem_manager_new_command ca s = (r0, s1)" by fastforce
  note A = assms[unfolded pocl_create_command_def ws_def[symmetric] bad_def[symmetric] Let_def m prod.case]
  show ?thesis
  proof (cases "bad \<or> None \<in> set ws \<or> r0 = None")
    case True
    with A have "e \<noteq> CL_SUCCESS \<and> r = None \<and> (s' = s \<or> s' = s1)"
      by (cases bad; cases "None \<in> set ws") auto
    with new_command_objects[OF m] show ?thesis by (auto simp: same_objects_def)
  next
    case False
    then obtain cmd where cmd: "r0 = Some cmd" by auto
    note A = A[unfolded cmd option.case]
    from False have f: "bad = False" "(None \<in> set ws) = False" by simp_all
    from A[unfolded f if_False andthen_eq_ok] obtain p where
      p: "pocl_create_event ea (Some q) (command_type c) s1 = ok p"
      and A1: "(case p of (ev, s2) \<Rightarrow> andthen (fetch (events s2) ev) (\<lambda>e0.
          let s3 = (if w then s2 else put_event ev (e0\<lparr>implicit_event := True\<rparr>) s2) in
          andthen (fetch (queues s3) q) (\<lambda>Q.
          andthen (if \<not> q_out_of_order Q \<and> root Q \<noteq> None
             then (case ll_last (node_next s3) (the (root Q)) of None \<Rightarrow> None
               | Some prev \<Rightarrow> andthen (fetch (nodes s3) prev) (\<lambda>pn. ok (Some (map the ws @ [n_event pn]))))
             else ok (map_option (\<lambda>_. map the ws) wl)) (\<lambda>waits.
          ok (CL_SUCCESS, Some (cmd, ev), s3\<lparr>nodes := (nodes s3)(cmd \<mapsto>
               \<lparr>command = c, n_event = ev, event_wait_list = waits, n_device = q_device Q\<rparr>),
             node_next := (node_next s3)(cmd := None)\<rparr>))))) = ok (e, r, s')"
      unfolding Let_def by blast
    obtain ev s2 where ev: "p = (ev, s2)" by (cases p)
    from A1 obtain e0 where "(let s3 = (if w then s2 else put_event ev (e0\<lparr>implicit_event := True\<rparr>) s2) in
          andthen (fetch (queues s3) q) (\<lambda>Q.
          andthen (if \<not> q_out_of_order Q \<and> root Q \<noteq> None
             then (case ll_last (node_next s3) (the (root Q)) of None \<Rightarrow> None
               | Some prev \<Rightarrow> andthen (fetch (nodes s3) prev) (\<lambda>pn. ok (Some (map the ws @ [n_event pn]))))
             else ok (map_option (\<lambda>_. map the ws) wl)) (\<lambda>waits.
          ok (CL_SUCCESS, Some (cmd, ev), s3\<lparr>nodes := (nodes s3)(cmd \<mapsto>
               \<lparr>command = c, n_event = ev, event_wait_list = waits, n_device = q_device Q\<rparr>),
             node_next := (node_next s3)(cmd := None)\<rparr>)))) = ok (e, r, s')"
      unfolding ev prod.case andthen_eq_ok by blast
    note A2 = this
    define s3 where "s3 = (if w then s2 else put_event ev (e0\<lparr>implicit_event := True\<rparr>) s2)"
    have o: "same_objects s2 s3" by (simp add: s3_def same_objects_def)
    from A2 obtain waits and Q :: cl_command_queue where 2: "r = Some (cmd, ev)"
      "s' = s3\<lparr>nodes := (nodes s3)(cmd \<mapsto> \<lparr>command = c, n_event = ev, event_wait_list = waits, n_device = q_device Q\<rparr>),
         node_next := (node_next s3)(cmd := None)\<rparr>"
      unfolding Let_def s3_def[symmetric] andthen_eq_ok ok_inject prod.inject by blast
    have objects: "same_objects s2 s'" using o by (simp add: 2(2) same_objects_def)
    note m' = new_command_lists[OF m[unfolded cmd]]
    have "same_lists {cmd} s2 s'" by (simp add: 2(2) s3_def same_lists_def)
    with create_event_lists[OF p[unfolded ev]] have "same_lists {cmd} s1 s'" by (rule same_lists_trans) simp
    with m' have "same_lists {cmd} s s'" by (blast intro: same_lists_trans[of "{cmd}" _ _ "{cmd}"])
    moreover have "same_objects s s'"
      using same_objects_trans[OF new_command_objects[OF m]] same_objects_trans[OF _ objects]
        create_event_objects[OF p[unfolded ev]] by blast
    ultimately show ?thesis using m' by (simp add: 2)
  qed
qed

lemma update_event_objects: "update_event ex new upd ev cq s = ok s' \<Longrightarrow> same_objects s s' \<and> nodes s' = nodes s"
proof -
  assume "update_event ex new upd ev cq s = ok s'"
  then obtain e e' s1 where "stamp cq upd (e\<lparr>status := new\<rparr>) s = ok (e', s1)" "s' = put_event ev e' s1"
    unfolding update_event_def andthen_eq_ok by (auto simp: andthen_eq_ok split: if_split_asm)
  then show "same_objects s s' \<and> nodes s' = nodes s"
    unfolding stamp_def andthen_eq_ok by (auto simp: same_objects_def split: if_split_asm)
qed

lemma command_enqueue_objects:
  assumes "pocl_command_enqueue q cmd s = ok s'"
  shows "same_objects s s' \<and> nodes s' = nodes s"
proof -
  from assms have "\<exists>S ev. POCL_UPDATE_EVENT_QUEUED ev q S = ok s' \<and> same_objects s S \<and> nodes S = nodes s"
    unfolding pocl_command_enqueue_def Let_def same_objects_def by (fastforce simp: andthen_eq_ok)
  then show ?thesis
    unfolding POCL_UPDATE_EVENT_QUEUED_def using update_event_objects same_objects_trans by metis
qed

lemma update_event_lists: "update_event ex new upd ev cq s = ok s' \<Longrightarrow> same_lists {} s s'"
proof -
  assume "update_event ex new upd ev cq s = ok s'"
  then obtain e e' s1 where "stamp cq upd (e\<lparr>status := new\<rparr>) s = ok (e', s1)" "s' = put_event ev e' s1"
    unfolding update_event_def andthen_eq_ok by (auto simp: andthen_eq_ok split: if_split_asm)
  then show "same_lists {} s s'"
    unfolding stamp_def andthen_eq_ok by (auto simp: same_lists_def split: if_split_asm)
qed

lemma root_of: "map_option root (queues s q) = Some h \<Longrightarrow> \<exists>Q. queues s q = Some Q \<and> root Q = h"
  by auto

lemma command_enqueue_appends:
  assumes "pocl_command_enqueue q cmd s = ok s'" and "queues s q = Some Q" and "ll (node_next s) (root Q) ns" and "cmd \<notin> set ns"
  shows "\<exists>Q'. queues s' q = Some Q' \<and> ll (node_next s') (root Q') (ns @ [cmd])"
proof -
  obtain n h where a: "LL_APPEND (node_next s) (root Q) cmd = ok (n, h)" "ll n h (ns @ [cmd])"
    using sl.append_law[OF assms(3,4)] by blast
  from assms(1) obtain ev where "POCL_UPDATE_EVENT_QUEUED ev q ((put_queue q (Q\<lparr>root := h\<rparr>) s)\<lparr>node_next := n\<rparr>) = ok s'"
    unfolding pocl_command_enqueue_def assms(2) fetch_def option.case andthen_ok a(1) prod.case Let_def andthen_eq_ok by blast
  then have l: "same_lists {} ((put_queue q (Q\<lparr>root := h\<rparr>) s)\<lparr>node_next := n\<rparr>) s'"
    unfolding POCL_UPDATE_EVENT_QUEUED_def by (rule update_event_lists)
  then have "node_next s' = n" "map_option root (queues s' q) = Some h"
    by (auto simp: same_lists_def fun_eq_iff)
  then show ?thesis using a(2) root_of by metis
qed

text \<open>What an accepted launch of kernel \<open>K\<close> with local size \<open>l\<close> leaves behind.\<close>

lemma queue_launch_ok:
  assumes "queue_launch E ca ea q k K pc l n wl w s = ok (CL_SUCCESS, r, s')" and "kernels s k = Some K" and "kernel_ok K"
    and "queues s q = Some Q" and "ll (node_next s) (root Q) ns" and "\<forall>n. node_source ca n s \<longrightarrow> n \<notin> set ns"
  obtains cmd ev x bufs where "r = Some ev" and "nodes s' cmd = Some x" and "n_event x = ev"
    and "command x = Ndrange_kernel k pc l bufs (dyn_arguments K)"
    and "map arg_val (buffer_args K) = map (\<lambda>b. Some (Mem_handle b)) bufs"
    and "\<forall>b. mems s' b = map_option (add_ref (int (count_list bufs (Some b)))) (mems s b)"
    and "kernels s' = (kernels s)(k \<mapsto> K\<lparr>k_refcount := k_refcount K + 1\<rparr>)"
    and "node_source ca cmd s" and "\<exists>Q'. queues s' q = Some Q' \<and> ll (node_next s') (root Q') (ns @ [cmd])"
proof -
  from assms(1) obtain e0 r0 s1 where c: "pocl_create_command ca ea q (Ndrange_kernel k pc l [] []) w n wl s = ok (e0, r0, s1)"
    and rest: "(case r0 of None \<Rightarrow> ok (e0, None, s1) | Some (cmd, ev) \<Rightarrow>
         andthen (copy_arguments (memalign E) (take (num_args K + num_locals K) (dyn_arguments K))) (\<lambda>args.
         andthen (clRetainKernel (Some k) s1) (\<lambda>(e, s2).
         andthen (retain_arg_buffers (buffer_args K) s2) (\<lambda>(bufs, s3).
         andthen (fetch (nodes s3) cmd) (\<lambda>x.
         andthen (pocl_command_enqueue q cmd
            (s3\<lparr>nodes := (nodes s3)(cmd \<mapsto> x\<lparr>command := Ndrange_kernel k pc l bufs args\<rparr>)\<rparr>)) (\<lambda>s4.
         ok (CL_SUCCESS, Some ev, s4))))))) = ok (CL_SUCCESS, r, s')"
    by (auto simp: queue_launch_def andthen_eq_ok)
  note C = create_command_objects[OF c]
  obtain cmd ev where r0: "r0 = Some (cmd, ev)"
  proof (cases r0)
    case None
    with rest C show thesis by simp
  next
    case (Some ce)
    then show thesis using that by (cases ce) simp
  qed
  from rest[unfolded r0] obtain args e s2 bufs s3 x where d:
    "copy_arguments (memalign E) (take (num_args K + num_locals K) (dyn_arguments K)) = ok args"
    "clRetainKernel (Some k) s1 = ok (e, s2)" "retain_arg_buffers (buffer_args K) s2 = ok (bufs, s3)"
    "nodes s3 cmd = Some x" "r = Some ev"
    "pocl_command_enqueue q cmd (s3\<lparr>nodes := (nodes s3)(cmd \<mapsto> x\<lparr>command := Ndrange_kernel k pc l bufs args\<rparr>)\<rparr>) = ok s'"
    by (auto simp: andthen_eq_ok fetch_def split: option.splits)
  have l: "take (num_args K + num_locals K) (dyn_arguments K) = dyn_arguments K" "\<forall>a \<in> set (dyn_arguments K). arg_ok a"
    using assms(3) by (simp_all add: kernel_ok_def)
  have args: "args = dyn_arguments K" using copy_arguments_same[OF l(2)] d(1) unfolding l(1) by blast
  have k1: "kernels s1 k = Some K" using C assms(2) by (simp add: same_objects_def)
  then have s2: "s2 = put_kernel k (K\<lparr>k_refcount := k_refcount K + 1\<rparr>) s1"
    using d(2) by (auto simp: clRetainKernel_def retain_kernel_def fetch_def)
  note B = retain_arg_buffers_mems[OF d(3)]
  have s3: "nodes s3 = nodes s1" "kernels s3 = (kernels s)(k \<mapsto> K\<lparr>k_refcount := k_refcount K + 1\<rparr>)"
    "\<forall>b. mems s3 b = map_option (add_ref (int (count_list bufs (Some b)))) (mems s b)"
    using B C s2 by (cases s3; simp add: same_objects_def)+
  obtain x1 where "nodes s1 cmd = Some x1" "n_event x1 = ev" using C r0 by auto
  then have x: "n_event x = ev" using d(4) s3(1) by simp
  note Q = command_enqueue_objects[OF d(6)]
  have src: "node_source ca cmd s" and l1: "same_lists {cmd} s s1" using C r0 by auto
  then have new: "cmd \<notin> set ns" using assms(6) by blast
  have "queues s3 = queues s1" "node_next s3 = node_next s1" using B s2 by (cases s3; simp)+
  then have l3: "same_lists {cmd} s s3" using l1 by (simp add: same_lists_def)
  then have "map_option root (queues s3 q) = Some (root Q)" using assms(4) by (simp add: same_lists_def)
  then obtain Q3 where Q3: "queues s3 q = Some Q3" "root Q3 = root Q" using root_of by metis
  have "\<forall>n \<in> set ns. node_next s3 n = node_next s n" using l3 new by (auto simp: same_lists_def)
  then have "ll (node_next s3) (root Q3) ns" using assms(5) unfolding Q3(2) ll_def by (simp cong: nseg_cong)
  then have app: "\<exists>Q'. queues s' q = Some Q' \<and> ll (node_next s') (root Q') (ns @ [cmd])"
    using command_enqueue_appends[OF d(6), of Q3 ns] Q3(1) new by simp
  show thesis
    by (rule that[of ev cmd "x\<lparr>command := Ndrange_kernel k pc l bufs args\<rparr>" bufs])
      (use d(5) x args B Q s3 src app in \<open>simp_all add: same_objects_def\<close>)
qed

text \<open>The grid of a launch: in every dimension the groups times their size give the global size.\<close>

fun grid_ok :: "vec3 \<Rightarrow> vec3 \<Rightarrow> vec3 \<Rightarrow> bool" where
  "grid_ok (gx, gy, gz) (lx, ly, lz) (nx, ny, nz) \<longleftrightarrow>
     unat gx = unat nx * unat lx \<and> unat gy = unat ny * unat ly \<and> unat gz = unat nz * unat lz \<and>
     nx \<noteq> 0 \<and> ny \<noteq> 0 \<and> nz \<noteq> 0 \<and> lx \<noteq> 0 \<and> ly \<noteq> 0 \<and> lz \<noteq> 0"

lemma exact_groups:
  fixes g l :: size_t
  assumes "is_multiple g l = ok True" and "g \<noteq> 0"
  shows "unat g = unat (g div l) * unat l" and "g div l \<noteq> 0" and "l \<noteq> 0"
proof -
  from assms(1) have l: "l \<noteq> 0" "g mod l = 0" by (auto simp: is_multiple_def split: if_splits)
  then have "unat g mod unat l = 0" by (simp flip: unat_mod)
  then show e: "unat g = unat (g div l) * unat l" unfolding unat_div using div_mult_mod_eq[of "unat g" "unat l"] by linarith
  show "g div l \<noteq> 0"
  proof
    assume "g div l = 0"
    with e have "unat g = 0" by simp
    with assms(2) show False by (simp add: unat_eq_0)
  qed
  show "l \<noteq> 0" by (rule l(1))
qed

lemma check_launch_ok:
  assumes "check_launch d dim g l = ok CL_SUCCESS" and "fst g \<noteq> 0" and "fst (snd g) \<noteq> 0" and "snd (snd g) \<noteq> 0"
  shows "grid_ok g l (groups3 g l)" and "volume l \<le> max_work_group_size d"
proof -
  obtain gx gy gz where g: "g = (gx, gy, gz)" by (cases g rule: prod_cases3)
  obtain lx ly lz where l: "l = (lx, ly, lz)" by (cases l rule: prod_cases3)
  from assms(1) have "is_multiple gx lx = ok True" "is_multiple gy ly = ok True" "is_multiple gz lz = ok True"
    and v: "volume l \<le> max_work_group_size d"
    by (auto simp: check_launch_def g l andthen_eq_ok split: if_splits)
  then show "grid_ok g l (groups3 g l)"
    using assms(2-4) exact_groups[of gx lx] exact_groups[of gy ly] exact_groups[of gz lz]
    by (simp add: g l groups3_def)
  show "volume l \<le> max_work_group_size d" by (rule v)
qed

lemma clEnqueueNDRangeKernel_accepts:
  assumes "clEnqueueNDRangeKernel E ca ea (Some q) (Some k) dim offs gws lws n wl w s = ok (CL_SUCCESS, r, s')"
    and "queues s q = Some Q" and "kernels s k = Some K" and "devices s (q_device Q) = Some d"
  obtains off g l where "sizes3 dim 1 gws = ok g"
    and "if lws \<noteq> None then sizes3 dim 1 lws = ok l
         else \<exists>c. contexts s (k_context K) = Some c \<and>
           choose_local (preferred_multiple E c (q_device Q) d) (max_work_group_size d) g = ok l"
    and "grid_ok g l (groups3 g l)" and "volume l \<le> max_work_group_size d"
    and "\<forall>i < num_args K. is_set (arg_info K ! i)"
    and "queue_launch E ca ea q k K \<lparr>work_dim = dim, num_groups = groups3 g l, global_offset = off\<rparr> l n wl w s = ok (CL_SUCCESS, r, s')"
proof -
  note A = assms(1)[unfolded clEnqueueNDRangeKernel_def fetch_def assms(2,3) option.case andthen_ok]
  have g1: "\<not> q_context Q \<noteq> k_context K" "\<not> dim < 1" using A by (auto split: if_splits)
  note A = A[unfolded if_not_P[OF g1(1)] if_not_P[OF g1(2)] assms(4) option.case andthen_ok]
  have g2: "\<not> dim > max_work_item_dimensions d" "\<not> max_work_item_dimensions d > 3" using A by (auto split: if_splits)
  note A = A[unfolded if_not_P[OF g2(1)] if_not_P[OF g2(2)]]
  from A obtain off g where g: "sizes3 dim 1 gws = ok g" and A1:
    "(if fst g = 0 \<or> fst (snd g) = 0 \<or> snd (snd g) = 0 then ok (CL_INVALID_GLOBAL_WORK_SIZE, None, s)
     else if \<exists>i < num_args K. \<not> is_set (arg_info K ! i) then ok (CL_INVALID_KERNEL_ARGS, None, s)
     else andthen (case contexts s (k_context K) of None \<Rightarrow> throw UseAfterFree | Some c \<Rightarrow> ok c) (\<lambda>c.
     andthen (if lws \<noteq> None then sizes3 dim 1 lws
              else choose_local (preferred_multiple E c (q_device Q) d) (max_work_group_size d) g) (\<lambda>l.
     andthen (check_launch d dim g l) (\<lambda>err.
     if err \<noteq> CL_SUCCESS then ok (err, None, s)
     else if wl = None \<and> n > 0 \<or> wl \<noteq> None \<and> n = 0 then ok (CL_INVALID_EVENT_WAIT_LIST, None, s)
     else if prepare E k l \<noteq> 0 then ok (prepare E k l, None, s)
     else queue_launch E ca ea q k K
            \<lparr>work_dim = dim, num_groups = groups3 g l, global_offset = off\<rparr> l n wl w s)))) = ok (CL_SUCCESS, r, s')"
    unfolding andthen_eq_ok by blast
  have g3: "\<not> (fst g = 0 \<or> fst (snd g) = 0 \<or> snd (snd g) = 0)" "\<not> (\<exists>i < num_args K. \<not> is_set (arg_info K ! i))"
    using A1 by (auto split: if_splits)
  note A2 = A1[unfolded if_not_P[OF g3(1)] if_not_P[OF g3(2)]]
  from A2 obtain c l err where c: "contexts s (k_context K) = Some c"
    and l: "(if lws \<noteq> None then sizes3 dim 1 lws
         else choose_local (preferred_multiple E c (q_device Q) d) (max_work_group_size d) g) = ok l"
    and err: "check_launch d dim g l = ok err"
    and A3: "(if err \<noteq> CL_SUCCESS then ok (err, None, s)
     else if wl = None \<and> n > 0 \<or> wl \<noteq> None \<and> n = 0 then ok (CL_INVALID_EVENT_WAIT_LIST, None, s)
     else if prepare E k l \<noteq> 0 then ok (prepare E k l, None, s)
     else queue_launch E ca ea q k K
            \<lparr>work_dim = dim, num_groups = groups3 g l, global_offset = off\<rparr> l n wl w s) = ok (CL_SUCCESS, r, s')"
    unfolding andthen_eq_ok by (auto split: option.splits)
  have g4: "err = CL_SUCCESS" "\<not> (wl = None \<and> n > 0 \<or> wl \<noteq> None \<and> n = 0)" "prepare E k l = 0"
    using A3 by (auto split: if_splits)
  show thesis
  proof (rule that[OF g])
    show "if lws \<noteq> None then sizes3 dim 1 lws = ok l
         else \<exists>c. contexts s (k_context K) = Some c \<and>
           choose_local (preferred_multiple E c (q_device Q) d) (max_work_group_size d) g = ok l"
      using c l by auto
    show "grid_ok g l (groups3 g l)" "volume l \<le> max_work_group_size d"
      using check_launch_ok[OF err[unfolded g4(1)]] g3(1) by simp_all
    show "\<forall>i < num_args K. is_set (arg_info K ! i)" using g3(2) by blast
    show "queue_launch E ca ea q k K \<lparr>work_dim = dim, num_groups = groups3 g l, global_offset = off\<rparr> l n wl w s = ok (CL_SUCCESS, r, s')"
      using A3[unfolded if_not_P[OF g4(2)]] g4(1,3) by simp
  qed
qed

text \<open>
  C40: What an accepted launch queues. When \<open>clEnqueueNDRangeKernel\<close> succeeds, the command node that
  the memory manager provided stands at the end of the list of the queue, behind the commands that were
  there, in their order; every argument was set, and the command in the node describes the launch
  exactly: in each dimension the number of groups times the local size is the global size, with no
  work item left over and no empty dimension, and the command holds a copy of the arguments as they
  are at the time of the call. The kernel has gained one reference, and every buffer one for each
  argument it is passed in. Hypotheses: the queue has a well-formed list of commands, the node the manager
  would provide is not one of them, and the kernel has its tables.
\<close>

theorem accepted_launch:
  assumes "clEnqueueNDRangeKernel E ca ea (Some q) (Some k) dim offs gws lws n wl w s = ok (CL_SUCCESS, r, s')"
    and "queues s q = Some Q" and "kernels s k = Some K" and "devices s (q_device Q) = Some d" and "kernel_ok K"
    and "ll (node_next s) (root Q) ns" and "\<forall>n. node_source ca n s \<longrightarrow> n \<notin> set ns"
  shows "\<exists>ev cmd x pc g l bufs Q'. r = Some ev \<and> node_source ca cmd s \<and>
    queues s' q = Some Q' \<and> ll (node_next s') (root Q') (ns @ [cmd]) \<and> nodes s' cmd = Some x \<and> n_event x = ev \<and>
    command x = Ndrange_kernel k pc l bufs (dyn_arguments K) \<and> work_dim pc = dim \<and>
    sizes3 dim 1 gws = ok g \<and> grid_ok g l (num_groups pc) \<and> volume l \<le> max_work_group_size d \<and>
    (\<forall>i < num_args K. is_set (arg_info K ! i)) \<and>
    kernels s' = (kernels s)(k \<mapsto> K\<lparr>k_refcount := k_refcount K + 1\<rparr>) \<and>
    map arg_val (buffer_args K) = map (\<lambda>b. Some (Mem_handle b)) bufs \<and>
    (\<forall>b. mems s' b = map_option (add_ref (int (count_list bufs (Some b)))) (mems s b))"
proof -
  obtain off g l where a: "sizes3 dim 1 gws = ok g"
    "grid_ok g l (groups3 g l)" "volume l \<le> max_work_group_size d" "\<forall>i < num_args K. is_set (arg_info K ! i)"
    "queue_launch E ca ea q k K \<lparr>work_dim = dim, num_groups = groups3 g l, global_offset = off\<rparr> l n wl w s = ok (CL_SUCCESS, r, s')"
    by (rule clEnqueueNDRangeKernel_accepts[OF assms(1-4)])
  obtain cmd ev x bufs Q' where "r = Some ev" "nodes s' cmd = Some x" "n_event x = ev"
    "command x = Ndrange_kernel k \<lparr>work_dim = dim, num_groups = groups3 g l, global_offset = off\<rparr> l bufs (dyn_arguments K)"
    "map arg_val (buffer_args K) = map (\<lambda>b. Some (Mem_handle b)) bufs"
    "\<forall>b. mems s' b = map_option (add_ref (int (count_list bufs (Some b)))) (mems s b)"
    "kernels s' = (kernels s)(k \<mapsto> K\<lparr>k_refcount := k_refcount K + 1\<rparr>)"
    "node_source ca cmd s" "queues s' q = Some Q'" "ll (node_next s') (root Q') (ns @ [cmd])"
    using queue_launch_ok[OF a(5) assms(3,5,2,6,7)] by metis
  with a show ?thesis
    by (intro exI[of _ ev] exI[of _ cmd] exI[of _ x] exI[of _ "\<lparr>work_dim = dim, num_groups = groups3 g l, global_offset = off\<rparr>"]
        exI[of _ g] exI[of _ l] exI[of _ bufs] exI[of _ Q']) simp
qed

text \<open>One device and one queue; kernel 5 has a value, a buffer and a local argument.\<close>

definition launch_environment :: launch_environment where
  "launch_environment = \<lparr>memalign = (\<lambda>al n. 0x1000), indeterminate = 0, prepare = (\<lambda>k l. 0)\<rparr>"

definition set_kernel :: cl_kernel where
  "set_kernel = sample_kernel\<lparr>arg_info := (arg_info sample_kernel)[2 := \<lparr>arg_type = POCL_ARG_TYPE_POINTER, is_local = True, is_set = True\<rparr>],
     dyn_arguments := (dyn_arguments sample_kernel)[2 := \<lparr>arg_size = 64, arg_val = None\<rparr>]\<rparr>"

definition launch_device :: cl_device where
  "launch_device = \<lparr>dev_refcount = 1, max_work_item_dimensions = 3, max_work_group_size = 1024,
     max_work_item_sizes = (\<lambda>_. 1024), preferred_wg_multiple = 8, compiles_submitted = False, unmaps = False\<rparr>"

definition launch_queue :: cl_command_queue where
  "launch_queue = \<lparr>q_refcount = 1, q_context = 0, q_device = 0, q_out_of_order = False, q_profiling = False, root = Some 20\<rparr>"

definition launch_state :: cl_state where
  "launch_state = no_objects\<lparr>contexts := [0 \<mapsto> \<lparr>ctx_refcount = 4, ctx_devices = [0], ctx_valid = True\<rparr>],
     devices := [0 \<mapsto> launch_device], queues := [0 \<mapsto> launch_queue], mems := [7 \<mapsto> sample_buffer 64 0 None],
     kernels := [5 \<mapsto> set_kernel], events := [21 \<mapsto> zero_event\<lparr>e_refcount := 2, e_queue := Some 0, status := CL_QUEUED\<rparr>],
     nodes := [20 \<mapsto> \<lparr>command = Marker, n_event = 21, event_wait_list = None, n_device = 0\<rparr>]\<rparr>"

definition launch :: "size_t list option \<Rightarrow> size_t list option \<Rightarrow> (int \<times> nat option \<times> cl_state) prog" where
  "launch gws lws = clEnqueueNDRangeKernel launch_environment (Some 10) (Some 11) (Some 0) (Some 5) 2 None gws lws 0 None True launch_state"

lemma launch_succeeds: "map_option (map_sum id fst) (launch (Some [1920, 1080]) None) = Some (Inr CL_SUCCESS)"
  by code_simp

lemma set_kernel_ok: "kernel_ok set_kernel"
  by (simp add: kernel_ok_def set_kernel_def sample_kernel_def arg_ok_def)

theorem accepted_launch_witness:
  "\<exists>x pc l Q' s' r. launch (Some [1920, 1080]) None = ok (CL_SUCCESS, r, s') \<and>
     queues s' 0 = Some Q' \<and> ll (node_next s') (root Q') [20, 10] \<and> nodes s' 10 = Some x \<and>
     command x = Ndrange_kernel 5 pc l [Some 7] (dyn_arguments set_kernel) \<and> grid_ok (1920, 1080, 1) l (num_groups pc)"
proof -
  obtain r s' where e: "launch (Some [1920, 1080]) None = ok (CL_SUCCESS, r, s')"
    using launch_succeeds by (cases "launch (Some [1920, 1080]) None" rule: prog_cases) (auto simp: ok_def throw_def)
  have "queues launch_state 0 = Some launch_queue" "kernels launch_state 5 = Some set_kernel"
    "devices launch_state (q_device launch_queue) = Some launch_device"
    by (simp_all add: launch_state_def launch_queue_def)
  moreover have "ll (node_next launch_state) (root launch_queue) [20]"
    by (simp add: launch_state_def launch_queue_def no_objects_def ll_def)
  moreover have src: "node_source (Some 10) n launch_state \<longleftrightarrow> n = 10" for n
    by (auto simp: node_source_def launch_state_def no_objects_def)
  ultimately obtain cmd x pc g l bufs Q' where x: "node_source (Some 10) cmd launch_state" "queues s' 0 = Some Q'" "ll (node_next s') (root Q') ([20] @ [cmd])"
    "nodes s' cmd = Some x" "command x = Ndrange_kernel 5 pc l bufs (dyn_arguments set_kernel)"
    "sizes3 2 1 (Some [1920, 1080]) = ok g" "grid_ok g l (num_groups pc)"
    "map arg_val (buffer_args set_kernel) = map (\<lambda>b. Some (Mem_handle b)) bufs"
    using accepted_launch[OF e[unfolded launch_def] _ _ _ set_kernel_ok, of launch_queue launch_device "[20]"]
    unfolding src by auto
  from x(1) have "cmd = 10" unfolding src .
  moreover from x(6) have "g = (1920, 1080, 1)" by (simp add: sizes3_def elem_def)
  moreover from x(8) have "bufs = [Some 7]"
    by (auto simp: buffer_args_def is_buffer_arg_def set_kernel_def sample_kernel_def numeral_3_eq_3)
  ultimately show ?thesis using e x
    by (intro exI[of _ x] exI[of _ pc] exI[of _ l] exI[of _ Q'] exI[of _ s'] exI[of _ r]) simp
qed

text \<open>
  C43: Two checks of a launch can be passed with sizes they should reject. The work items of a group
  are counted in 32 bits: a group of 65536 times 65536 work items counts as empty and passes the
  limit of any device. And a local size of 0 is not checked: the test whether it divides the global
  size divides by it and crashes.
\<close>

theorem launch_checks_wrap:
  assumes "65536 \<le> max_work_item_sizes d 0" and "65536 \<le> max_work_item_sizes d 1"
  shows "check_launch d 2 (65536, 65536, 1) (65536, 65536, 1) = ok CL_SUCCESS \<and>
    check_launch d 2 (gx, gy, 1) (0, ly, 1) = (if max_work_item_sizes d 1 < ly then ok CL_INVALID_WORK_ITEM_SIZE else throw DivByZero)"
proof -
  have z: "(4294967296 :: u32) = 0" by code_simp
  show ?thesis using assms by (auto simp: check_launch_def is_multiple_def z)
qed

theorem launch_checks_wrap_witness:
  "check_launch (launch_device\<lparr>max_work_item_sizes := (\<lambda>_. 0x7FFFFFFF)\<rparr>) 2 (65536, 65536, 1) (65536, 65536, 1) = ok CL_SUCCESS"
  using launch_checks_wrap[of "launch_device\<lparr>max_work_item_sizes := (\<lambda>_. 0x7FFFFFFF)\<rparr>"] by simp

end
