(* ===== verification/Dev_Memory.thy ===== *)
theory Dev_Memory
  imports Cl_Util_Props
begin

text \<open>
  The transfers of the device drivers: linear and rectangular reads, writes, copies and fills
  (\<^verbatim>\<open>lib/CL/devices/basic/basic.c\<close>, \<^verbatim>\<open>lib/CL/devices/pthread/pthread.c\<close>,
  \<^verbatim>\<open>lib/CL/devices/zynq_basic/zynq_basic.c\<close>). The devices share the address space of the
  host, so a memory is a function from addresses to bytes.
\<close>

type_synonym memory = "addr \<Rightarrow> byte"

section \<open>Linear transfers\<close>

text \<open>Address arithmetic wraps, as in the code; source and destination of \<open>memcpy\<close> do not overlap.\<close>

definition memcpy :: "addr \<Rightarrow> addr \<Rightarrow> size_t \<Rightarrow> memory \<Rightarrow> memory" where
  "memcpy dst src n m = (\<lambda>a. if a - dst < n then m (src + (a - dst)) else m a)"

definition pocl_basic_read :: "addr \<Rightarrow> addr \<Rightarrow> size_t \<Rightarrow> size_t \<Rightarrow> memory \<Rightarrow> memory" where
  "pocl_basic_read host_ptr device_ptr offset cb m =
     (if host_ptr = device_ptr then m else memcpy host_ptr (device_ptr + offset) cb m)"

definition pocl_basic_write :: "addr \<Rightarrow> addr \<Rightarrow> size_t \<Rightarrow> size_t \<Rightarrow> memory \<Rightarrow> memory" where
  "pocl_basic_write host_ptr device_ptr offset cb m =
     (if host_ptr = device_ptr then m else memcpy (device_ptr + offset) host_ptr cb m)"

definition pocl_basic_copy :: "addr \<Rightarrow> size_t \<Rightarrow> addr \<Rightarrow> size_t \<Rightarrow> size_t \<Rightarrow> memory \<Rightarrow> memory" where
  "pocl_basic_copy src_ptr src_offset dst_ptr dst_offset cb m =
     (if src_ptr = dst_ptr then m else memcpy (dst_ptr + dst_offset) (src_ptr + src_offset) cb m)"

definition pocl_pthread_read :: "addr \<Rightarrow> addr \<Rightarrow> size_t \<Rightarrow> size_t \<Rightarrow> memory \<Rightarrow> memory" where
  "pocl_pthread_read host_ptr device_ptr offset cb m =
     (if host_ptr = device_ptr then m else memcpy host_ptr (device_ptr + offset) cb m)"

definition pocl_pthread_write :: "addr \<Rightarrow> addr \<Rightarrow> size_t \<Rightarrow> size_t \<Rightarrow> memory \<Rightarrow> memory" where
  "pocl_pthread_write host_ptr device_ptr offset cb m =
     (if host_ptr = device_ptr then m else memcpy (device_ptr + offset) host_ptr cb m)"

definition pocl_pthread_copy :: "addr \<Rightarrow> size_t \<Rightarrow> addr \<Rightarrow> size_t \<Rightarrow> size_t \<Rightarrow> memory \<Rightarrow> memory" where
  "pocl_pthread_copy src_ptr src_offset dst_ptr dst_offset cb m =
     (if src_ptr = dst_ptr then m else memcpy (dst_ptr + dst_offset) (src_ptr + src_offset) cb m)"

text \<open>The FPGA device ignores both offsets.\<close>

definition pocl_zynq_basic_copy :: "addr \<Rightarrow> size_t \<Rightarrow> addr \<Rightarrow> size_t \<Rightarrow> size_t \<Rightarrow> memory \<Rightarrow> memory" where
  "pocl_zynq_basic_copy src_ptr src_offset dst_ptr dst_offset cb m =
     (if src_ptr = dst_ptr then m else memcpy dst_ptr src_ptr cb m)"

definition pocl_basic_map_mem :: "addr \<Rightarrow> size_t \<Rightarrow> size_t \<Rightarrow> addr \<Rightarrow> addr" where
  "pocl_basic_map_mem buf_ptr offset sz host_ptr = (if host_ptr \<noteq> NULL then host_ptr else buf_ptr + offset)"

definition pocl_pthread_map_mem :: "addr \<Rightarrow> size_t \<Rightarrow> size_t \<Rightarrow> addr \<Rightarrow> addr" where
  "pocl_pthread_map_mem buf_ptr offset sz host_ptr = buf_ptr + offset"

definition pocl_zynq_basic_map_mem :: "addr \<Rightarrow> size_t \<Rightarrow> size_t \<Rightarrow> addr \<Rightarrow> addr" where
  "pocl_zynq_basic_map_mem buf_ptr offset sz host_ptr = (if host_ptr \<noteq> NULL then host_ptr else buf_ptr + offset)"

section \<open>Rectangular transfers\<close>

text \<open>The counters \<open>k\<close> (slices, the outer loop) and \<open>j\<close> (rows) of the loops.\<close>

definition upto :: "size_t \<Rightarrow> size_t list" where
  "upto n = map of_nat [0..<unat n]"

definition box_rows :: "vec3 \<Rightarrow> (size_t \<times> size_t) list" where
  "box_rows region = (let (r0, r1, r2) = region in List.product (upto r2) (upto r1))"

definition box_copy :: "addr \<Rightarrow> size_t \<Rightarrow> size_t \<Rightarrow> addr \<Rightarrow> size_t \<Rightarrow> size_t \<Rightarrow> vec3 \<Rightarrow> memory \<Rightarrow> memory" where
  "box_copy dst dst_rp dst_sp src src_rp src_sp region m =
     fold (\<lambda>(k, j). memcpy (dst + dst_rp * j + dst_sp * k) (src + src_rp * j + src_sp * k) (fst region))
       (box_rows region) m"

text \<open>The first byte of a box at an origin.\<close>

definition adjusted :: "addr \<Rightarrow> vec3 \<Rightarrow> size_t \<Rightarrow> size_t \<Rightarrow> addr" where
  "adjusted p org rp sp = (let (o0, o1, o2) = org in p + o0 + rp * o1 + sp * o2)"

definition pocl_basic_copy_rect ::
  "addr \<Rightarrow> addr \<Rightarrow> vec3 \<Rightarrow> vec3 \<Rightarrow> vec3 \<Rightarrow> size_t \<Rightarrow> size_t \<Rightarrow> size_t \<Rightarrow> size_t \<Rightarrow> memory \<Rightarrow> memory" where
  "pocl_basic_copy_rect src_ptr dst_ptr src_origin dst_origin region src_rp src_sp dst_rp dst_sp m =
     box_copy (adjusted dst_ptr dst_origin dst_rp dst_sp) dst_rp dst_sp
       (adjusted src_ptr src_origin src_rp src_sp) src_rp src_sp region m"

definition pocl_basic_write_rect ::
  "addr \<Rightarrow> addr \<Rightarrow> vec3 \<Rightarrow> vec3 \<Rightarrow> vec3 \<Rightarrow> size_t \<Rightarrow> size_t \<Rightarrow> size_t \<Rightarrow> size_t \<Rightarrow> memory \<Rightarrow> memory" where
  "pocl_basic_write_rect host_ptr device_ptr buffer_origin host_origin region buffer_rp buffer_sp host_rp host_sp m =
     box_copy (adjusted device_ptr buffer_origin buffer_rp buffer_sp) buffer_rp buffer_sp
       (adjusted host_ptr host_origin host_rp host_sp) host_rp host_sp region m"

definition pocl_basic_read_rect ::
  "addr \<Rightarrow> addr \<Rightarrow> vec3 \<Rightarrow> vec3 \<Rightarrow> vec3 \<Rightarrow> size_t \<Rightarrow> size_t \<Rightarrow> size_t \<Rightarrow> size_t \<Rightarrow> memory \<Rightarrow> memory" where
  "pocl_basic_read_rect host_ptr device_ptr buffer_origin host_origin region buffer_rp buffer_sp host_rp host_sp m =
     (let (b0, b1, b2) = buffer_origin; (h0, h1, h2) = host_origin in
      box_copy (host_ptr + h2 * host_sp + h1 * host_rp + h0) host_rp host_sp
        (device_ptr + b2 * buffer_sp + b1 * buffer_rp + b0) buffer_rp buffer_sp region m)"

text \<open>The FPGA device: the closing parenthesis of the row term comes after the slice term.\<close>

definition pocl_zynq_basic_copy_rect ::
  "addr \<Rightarrow> addr \<Rightarrow> vec3 \<Rightarrow> vec3 \<Rightarrow> vec3 \<Rightarrow> size_t \<Rightarrow> size_t \<Rightarrow> size_t \<Rightarrow> size_t \<Rightarrow> memory \<Rightarrow> memory" where
  "pocl_zynq_basic_copy_rect src_ptr dst_ptr src_origin dst_origin region src_rp src_sp dst_rp dst_sp m =
     box_copy (adjusted dst_ptr dst_origin dst_rp dst_sp) dst_rp dst_sp
       (adjusted src_ptr src_origin src_rp src_sp) src_rp src_sp region m"

definition pocl_zynq_basic_write_rect ::
  "addr \<Rightarrow> addr \<Rightarrow> vec3 \<Rightarrow> vec3 \<Rightarrow> vec3 \<Rightarrow> size_t \<Rightarrow> size_t \<Rightarrow> size_t \<Rightarrow> size_t \<Rightarrow> memory \<Rightarrow> memory" where
  "pocl_zynq_basic_write_rect host_ptr device_ptr buffer_origin host_origin region buffer_rp buffer_sp host_rp host_sp m =
     box_copy (adjusted device_ptr buffer_origin buffer_rp buffer_sp) buffer_rp buffer_sp
       (adjusted host_ptr host_origin host_rp host_sp) host_rp host_sp region m"

definition pocl_zynq_basic_read_rect ::
  "addr \<Rightarrow> addr \<Rightarrow> vec3 \<Rightarrow> vec3 \<Rightarrow> vec3 \<Rightarrow> size_t \<Rightarrow> size_t \<Rightarrow> size_t \<Rightarrow> size_t \<Rightarrow> memory \<Rightarrow> memory" where
  "pocl_zynq_basic_read_rect host_ptr device_ptr buffer_origin host_origin region buffer_rp buffer_sp host_rp host_sp m =
     (let (b0, b1, b2) = buffer_origin; (h0, h1, h2) = host_origin in
      box_copy (host_ptr + h0 + host_rp * (h1 + host_sp * h2)) host_rp host_sp
        (device_ptr + b0 + buffer_rp * (b1 + buffer_sp * b2)) buffer_rp buffer_sp region m)"

section \<open>Fills\<close>

text \<open>The counters \<open>k\<close>, \<open>j\<close>, \<open>i\<close>: one pixel after the other.\<close>

definition fill_box :: "addr \<Rightarrow> vec3 \<Rightarrow> size_t \<Rightarrow> size_t \<Rightarrow> addr \<Rightarrow> size_t \<Rightarrow> memory \<Rightarrow> memory" where
  "fill_box dst region rp sp fill_pixel pixel_size m =
     fold (\<lambda>((k, j), i). memcpy (dst + pixel_size * i + rp * j + sp * k) fill_pixel pixel_size)
       (List.product (box_rows region) (upto (fst region))) m"

definition pocl_basic_fill_rect :: "addr \<Rightarrow> vec3 \<Rightarrow> vec3 \<Rightarrow> size_t \<Rightarrow> size_t \<Rightarrow> addr \<Rightarrow> size_t \<Rightarrow> memory \<Rightarrow> memory" where
  "pocl_basic_fill_rect device_ptr buffer_origin region rp sp fill_pixel pixel_size m =
     (let (b0, b1, b2) = buffer_origin
      in fill_box (device_ptr + b0 * pixel_size + rp * b1 + sp * b2) region rp sp fill_pixel pixel_size m)"

definition pocl_zynq_basic_fill_rect :: "addr \<Rightarrow> vec3 \<Rightarrow> vec3 \<Rightarrow> size_t \<Rightarrow> size_t \<Rightarrow> addr \<Rightarrow> size_t \<Rightarrow> memory \<Rightarrow> memory" where
  "pocl_zynq_basic_fill_rect device_ptr buffer_origin region rp sp fill_pixel pixel_size m =
     (let (b0, b1, b2) = buffer_origin
      in fill_box (device_ptr + b0 * pixel_size + rp * b1 + sp * b2) region rp sp fill_pixel pixel_size m)"

section \<open>Copying rows\<close>

text \<open>A row of \<open>n\<close> bytes: the bytes at distance below \<open>n\<close> from its start.\<close>

definition row_bytes :: "addr \<Rightarrow> size_t \<Rightarrow> addr set" where
  "row_bytes p n = {a. a - p < n}"

lemma memcpy_inside: "x < n \<Longrightarrow> memcpy dst src n m (dst + x) = m (src + x)"
  by (simp add: memcpy_def)

lemma memcpy_outside: "a \<notin> row_bytes dst n \<Longrightarrow> memcpy dst src n m a = m a"
  by (simp add: memcpy_def row_bytes_def)

text \<open>
  Copying a list of rows whose destinations are apart from each other and from the sources moves
  every byte and touches nothing else.
\<close>

definition rows_apart :: "size_t \<Rightarrow> (addr \<times> addr) list \<Rightarrow> bool" where
  "rows_apart n L \<longleftrightarrow> sorted_wrt (\<lambda>p q. row_bytes (fst p) n \<inter> row_bytes (fst q) n = {}) L \<and>
     (\<forall>p \<in> set L. \<forall>q \<in> set L. row_bytes (fst p) n \<inter> row_bytes (snd q) n = {})"

abbreviation copy_rows :: "size_t \<Rightarrow> (addr \<times> addr) list \<Rightarrow> memory \<Rightarrow> memory" where
  "copy_rows n L \<equiv> fold (\<lambda>(d, s). memcpy d s n) L"

lemma copy_rows_bytes:
  "rows_apart n L \<Longrightarrow>
     (\<forall>(d, s) \<in> set L. \<forall>x < n. copy_rows n L m (d + x) = m (s + x)) \<and>
     (\<forall>a. a \<notin> (\<Union>(d, s) \<in> set L. row_bytes d n) \<longrightarrow> copy_rows n L m a = m a)"
proof (induction L arbitrary: m)
  case (Cons p L)
  obtain d s where p: "p = (d, s)" by (cases p)
  let ?m = "memcpy d s n m"
  have ap: "rows_apart n L" using Cons.prems by (simp add: rows_apart_def)
  have first: "row_bytes d n \<inter> (\<Union>(d', s') \<in> set L. row_bytes d' n) = {}"
    using Cons.prems by (fastforce simp: rows_apart_def p)
  have src: "row_bytes d n \<inter> row_bytes s' n = {}" if "(d', s') \<in> set L" for d' s'
    using Cons.prems that by (fastforce simp: rows_apart_def p)
  note IH = Cons.IH[OF ap, of ?m]
  have "copy_rows n L ?m (d + x) = m (s + x)" if "x < n" for x
  proof -
    have "d + x \<in> row_bytes d n" using that by (simp add: row_bytes_def)
    with first have "d + x \<notin> (\<Union>(d', s') \<in> set L. row_bytes d' n)" by blast
    with IH that show ?thesis by (simp add: memcpy_inside)
  qed
  moreover have "copy_rows n L ?m (d' + x) = m (s' + x)" if "(d', s') \<in> set L" "x < n" for d' s' x
  proof -
    have "s' + x \<in> row_bytes s' n" using that by (simp add: row_bytes_def)
    with src[OF that(1)] have "s' + x \<notin> row_bytes d n" by blast
    with IH that show ?thesis by (auto simp: memcpy_outside)
  qed
  moreover have "copy_rows n L ?m a = m a" if "a \<notin> (\<Union>(d', s') \<in> set (p # L). row_bytes d' n)" for a
    using IH that by (auto simp: p memcpy_outside)
  ultimately show ?case by (auto simp: p)
qed simp

end
