(* ===== verification/Dev_Memory_Props.thy ===== *)
theory Dev_Memory_Props
  imports Dev_Memory
begin

text \<open>
  What rectangular transfers do to the memory: every byte of the box arrives at its place and
  nothing else changes, for boxes whose pitches are valid.
\<close>

section \<open>The bytes of a box\<close>

definition byte_at :: "addr \<Rightarrow> size_t \<Rightarrow> size_t \<Rightarrow> size_t \<Rightarrow> size_t \<Rightarrow> size_t \<Rightarrow> addr" where
  "byte_at base rp sp x y z = base + rp * y + sp * z + x"

fun box :: "addr \<Rightarrow> size_t \<Rightarrow> size_t \<Rightarrow> vec3 \<Rightarrow> addr set" where
  "box base rp sp (r0, r1, r2) = {byte_at base rp sp x y z | x y z. x < r0 \<and> y < r1 \<and> z < r2}"

text \<open>
  The rows do not overlap, nor the slices if there are several, and the box does not run over the end
  of the address space.
\<close>

fun spread :: "addr \<Rightarrow> size_t \<Rightarrow> size_t \<Rightarrow> vec3 \<Rightarrow> bool" where
  "spread base rp sp (r0, r1, r2) \<longleftrightarrow> r0 \<le> rp \<and> (r2 \<le> 1 \<or> unat r1 * unat rp \<le> unat sp) \<and>
     unat base + (unat r0 - 1) + unat rp * (unat r1 - 1) + unat sp * (unat r2 - 1) < 2 ^ 32"

lemma byte_value:
  assumes "spread base rp sp (r0, r1, r2)" and "x < r0" and "y < r1" and "z < r2"
  shows "unat (byte_at base rp sp x y z) = unat base + unat x + unat rp * unat y + unat sp * unat z"
    and "unat base + unat x + unat rp * unat y + unat sp * unat z
      \<le> unat base + (unat r0 - 1) + unat rp * (unat r1 - 1) + unat sp * (unat r2 - 1)"
proof -
  have l: "unat x \<le> unat r0 - 1" "unat y \<le> unat r1 - 1" "unat z \<le> unat r2 - 1"
    using assms(2-4) by (simp_all add: word_less_nat_alt)
  then have "unat rp * unat y \<le> unat rp * (unat r1 - 1)" "unat sp * unat z \<le> unat sp * (unat r2 - 1)"
    by (intro mult_left_mono, simp_all)+
  with l(1) show le: "unat base + unat x + unat rp * unat y + unat sp * unat z
      \<le> unat base + (unat r0 - 1) + unat rp * (unat r1 - 1) + unat sp * (unat r2 - 1)" by linarith
  have "byte_at base rp sp x y z = of_nat (unat base + unat x + unat rp * unat y + unat sp * unat z)"
    by (simp add: byte_at_def)
  moreover have "unat base + unat x + unat rp * unat y + unat sp * unat z < 2 ^ 32" using le assms(1) by simp
  ultimately show "unat (byte_at base rp sp x y z) = unat base + unat x + unat rp * unat y + unat sp * unat z"
    by (rule unat_eqI)
qed

lemma byte_inj:
  assumes s: "spread base rp sp (r0, r1, r2)" and "x < r0" "y < r1" "z < r2" and "x' < r0" "y' < r1" "z' < r2"
    and "byte_at base rp sp x y z = byte_at base rp sp x' y' z'"
  shows "x = x' \<and> y = y' \<and> z = z'"
proof -
  define S where "S = (if r2 \<le> 1 then unat r1 * unat rp else unat sp)"
  have one: "unat z = 0 \<and> unat z' = 0" if "r2 \<le> 1"
    using that assms(4,7) by (auto simp: word_less_nat_alt word_le_nat_alt)
  have "unat z * unat sp + unat y * unat rp + unat x = unat z' * unat sp + unat y' * unat rp + unat x'"
    using byte_value(1)[OF s assms(2-4)] byte_value(1)[OF s assms(5-7)] assms(8) by (simp add: algebra_simps)
  then have "unat z * S + unat y * unat rp + unat x = unat z' * S + unat y' * unat rp + unat x'"
    using one by (auto simp: S_def)
  moreover have "unat x < unat rp" "unat x' < unat rp"
    using s assms(2,5) by (auto simp: word_less_nat_alt word_le_nat_alt)
  ultimately have "unat x = unat x' \<and> unat y = unat y' \<and> unat z = unat z'"
    using s assms(3,6) by (intro mixed_radix3[where h = "unat r1" and rp = "unat rp" and sp = S])
      (auto simp: word_less_nat_alt S_def)
  then show ?thesis by (simp add: word_unat_eq_iff)
qed

section \<open>Copying a box\<close>

lemma row_bytes_at: "row_bytes (base + rp * y + sp * z) n = {byte_at base rp sp x y z | x. x < n}"
  unfolding row_bytes_def byte_at_def
proof (intro set_eqI iffI)
  fix a assume "a \<in> {a. a - (base + rp * y + sp * z) < n}"
  then show "a \<in> {base + rp * y + sp * z + x | x. x < n}"
    by (intro CollectI exI[of _ "a - (base + rp * y + sp * z)"]) simp
qed auto

lemma unat_upto: "i < unat (n :: u32) \<Longrightarrow> unat (of_nat i :: u32) = i"
proof (rule unat_eqI[OF refl])
  assume "i < unat n"
  then have "i < 4294967296" using unat_lt32[of n] by (rule less_trans)
  then show "i < 2 ^ 32" by simp
qed

lemma set_upto: "set (upto n) = {k. k < n}"
proof (intro set_eqI iffI)
  fix k assume "k \<in> set (upto n)"
  then obtain i where "i < unat n" "k = of_nat i" by (auto simp: upto_def)
  then show "k \<in> {k. k < n}" using unat_upto[of i n] by (simp add: word_less_nat_alt)
next
  fix k assume "k \<in> {k. k < n}"
  then have "unat k < unat n" by (simp add: word_less_nat_alt)
  then show "k \<in> set (upto n)" unfolding upto_def by (auto intro!: image_eqI[of _ _ "unat k"])
qed

lemma distinct_upto: "distinct (upto n)"
proof -
  have "inj_on (of_nat :: nat \<Rightarrow> u32) {0..<unat n}"
  proof (rule inj_onI)
    fix i j assume "i \<in> {0..<unat n}" "j \<in> {0..<unat n}" "(of_nat i :: u32) = of_nat j"
    then have "unat (of_nat i :: u32) = unat (of_nat j :: u32)" "i < unat n" "j < unat n" by simp_all
    then show "i = j" by (simp only: unat_upto[of i n] unat_upto[of j n])
  qed
  then show ?thesis unfolding upto_def distinct_map by simp
qed

lemma set_box_rows: "(k, j) \<in> set (box_rows (r0, r1, r2)) \<longleftrightarrow> k < r2 \<and> j < r1"
  by (simp add: box_rows_def set_upto)

lemma distinct_box_rows: "distinct (box_rows r)"
  by (cases r rule: prod_cases3) (simp add: box_rows_def distinct_product distinct_upto)

lemma sorted_wrt_distinct:
  "distinct xs \<Longrightarrow> (\<forall>a \<in> set xs. \<forall>b \<in> set xs. a \<noteq> b \<longrightarrow> P (f a) (f b)) \<Longrightarrow> sorted_wrt P (map f xs)"
  by (induction xs) auto

definition row_pairs :: "addr \<Rightarrow> size_t \<Rightarrow> size_t \<Rightarrow> addr \<Rightarrow> size_t \<Rightarrow> size_t \<Rightarrow> vec3 \<Rightarrow> (addr \<times> addr) list" where
  "row_pairs d drp dsp s srp ssp r = map (\<lambda>(k, j). (d + drp * j + dsp * k, s + srp * j + ssp * k)) (box_rows r)"

lemma box_copy_rows: "box_copy d drp dsp s srp ssp r m = copy_rows (fst r) (row_pairs d drp dsp s srp ssp r) m"
  unfolding box_copy_def row_pairs_def fold_map comp_def by (simp add: case_prod_beta')

lemma row_pairs_apart:
  assumes "spread d drp dsp (r0, r1, r2)" and "box d drp dsp (r0, r1, r2) \<inter> box s srp ssp (r0, r1, r2) = {}"
  shows "rows_apart r0 (row_pairs d drp dsp s srp ssp (r0, r1, r2))"
  unfolding rows_apart_def
proof
  have apart: "row_bytes (d + drp * j + dsp * k) r0 \<inter> row_bytes (d + drp * j' + dsp * k') r0 = {}"
    if "k < r2" "j < r1" "k' < r2" "j' < r1" "(k, j) \<noteq> (k', j')" for k j k' j'
    using byte_inj[OF assms(1)] that by (fastforce simp: row_bytes_at)
  let ?f = "\<lambda>(k, j). (d + drp * j + dsp * k, s + srp * j + ssp * k)"
  have "row_bytes (fst (?f a)) r0 \<inter> row_bytes (fst (?f b)) r0 = {}"
    if "a \<in> set (box_rows (r0, r1, r2))" "b \<in> set (box_rows (r0, r1, r2))" "a \<noteq> b" for a b
  proof -
    obtain k j k' j' where "a = (k, j)" "b = (k', j')" by (cases a; cases b)
    with that apart[of k j k' j'] show ?thesis by (simp add: set_box_rows)
  qed
  then show "sorted_wrt (\<lambda>p q. row_bytes (fst p) r0 \<inter> row_bytes (fst q) r0 = {}) (row_pairs d drp dsp s srp ssp (r0, r1, r2))"
    unfolding row_pairs_def by (intro sorted_wrt_distinct distinct_box_rows) blast
  show "\<forall>p \<in> set (row_pairs d drp dsp s srp ssp (r0, r1, r2)). \<forall>q \<in> set (row_pairs d drp dsp s srp ssp (r0, r1, r2)).
      row_bytes (fst p) r0 \<inter> row_bytes (snd q) r0 = {}"
    using assms(2) by (auto simp: row_pairs_def set_box_rows row_bytes_at) blast
qed

lemma box_copy_bytes:
  assumes "spread d drp dsp (r0, r1, r2)" and "box d drp dsp (r0, r1, r2) \<inter> box s srp ssp (r0, r1, r2) = {}"
  shows "x < r0 \<Longrightarrow> y < r1 \<Longrightarrow> z < r2 \<Longrightarrow>
      box_copy d drp dsp s srp ssp (r0, r1, r2) m (byte_at d drp dsp x y z) = m (byte_at s srp ssp x y z)"
    and "a \<notin> box d drp dsp (r0, r1, r2) \<Longrightarrow> box_copy d drp dsp s srp ssp (r0, r1, r2) m a = m a"
proof -
  note C = copy_rows_bytes[OF row_pairs_apart[OF assms], of m]
  show "box_copy d drp dsp s srp ssp (r0, r1, r2) m (byte_at d drp dsp x y z) = m (byte_at s srp ssp x y z)"
    if "x < r0" "y < r1" "z < r2"
  proof -
    have "(d + drp * y + dsp * z, s + srp * y + ssp * z) \<in> set (row_pairs d drp dsp s srp ssp (r0, r1, r2))"
      using that by (force simp: row_pairs_def set_box_rows)
    with C that(1) show ?thesis by (fastforce simp: box_copy_rows byte_at_def)
  qed
  show "box_copy d drp dsp s srp ssp (r0, r1, r2) m a = m a" if "a \<notin> box d drp dsp (r0, r1, r2)"
  proof -
    have "a \<notin> (\<Union>(d', s') \<in> set (row_pairs d drp dsp s srp ssp (r0, r1, r2)). row_bytes d' r0)"
      using that by (auto simp: row_pairs_def set_box_rows row_bytes_at)
    with C show ?thesis by (simp add: box_copy_rows)
  qed
qed

section \<open>Transfers between host and device\<close>

text \<open>The first byte of a box, and the box, at an origin of a pointer.\<close>

definition box_of :: "addr \<Rightarrow> vec3 \<Rightarrow> size_t \<Rightarrow> size_t \<Rightarrow> vec3 \<Rightarrow> addr set" where
  "box_of p org rp sp region = box (adjusted p org rp sp) rp sp region"

definition spread_at :: "addr \<Rightarrow> vec3 \<Rightarrow> size_t \<Rightarrow> size_t \<Rightarrow> vec3 \<Rightarrow> bool" where
  "spread_at p org rp sp region \<longleftrightarrow> spread (adjusted p org rp sp) rp sp region"

definition box_byte :: "addr \<Rightarrow> vec3 \<Rightarrow> size_t \<Rightarrow> size_t \<Rightarrow> size_t \<Rightarrow> size_t \<Rightarrow> size_t \<Rightarrow> addr" where
  "box_byte p org rp sp x y z = byte_at (adjusted p org rp sp) rp sp x y z"

lemma read_rect_box:
  "pocl_basic_read_rect host dev borg horg region brp bsp hrp hsp m =
     box_copy (adjusted host horg hrp hsp) hrp hsp (adjusted dev borg brp bsp) brp bsp region m"
  by (cases borg rule: prod_cases3; cases horg rule: prod_cases3)
    (simp add: pocl_basic_read_rect_def adjusted_def algebra_simps)

lemma box_roundtrip:
  assumes "spread_at dev borg brp bsp (r0, r1, r2)" and "spread_at host' horg' hrp' hsp' (r0, r1, r2)"
    and "box_of dev borg brp bsp (r0, r1, r2) \<inter> box_of host horg hrp hsp (r0, r1, r2) = {}"
    and "box_of host' horg' hrp' hsp' (r0, r1, r2) \<inter> box_of dev borg brp bsp (r0, r1, r2) = {}"
  defines "m'' \<equiv> \<lambda>m. pocl_basic_read_rect host' dev borg horg' (r0, r1, r2) brp bsp hrp' hsp'
    (pocl_basic_write_rect host dev borg horg (r0, r1, r2) brp bsp hrp hsp m)"
  shows "x < r0 \<Longrightarrow> y < r1 \<Longrightarrow> z < r2 \<Longrightarrow> m'' m (box_byte host' horg' hrp' hsp' x y z) = m (box_byte host horg hrp hsp x y z)"
    and "a \<notin> box_of dev borg brp bsp (r0, r1, r2) \<union> box_of host' horg' hrp' hsp' (r0, r1, r2) \<Longrightarrow> m'' m a = m a"
proof -
  note W = box_copy_bytes[OF assms(1)[unfolded spread_at_def] assms(3)[unfolded box_of_def], where m = m,
      folded pocl_basic_write_rect_def]
  note R = box_copy_bytes[OF assms(2)[unfolded spread_at_def] assms(4)[unfolded box_of_def],
      where m = "pocl_basic_write_rect host dev borg horg (r0, r1, r2) brp bsp hrp hsp m", folded read_rect_box]
  show "x < r0 \<Longrightarrow> y < r1 \<Longrightarrow> z < r2 \<Longrightarrow> m'' m (box_byte host' horg' hrp' hsp' x y z) = m (box_byte host horg hrp hsp x y z)"
    using W(1) R(1) by (simp add: m''_def box_byte_def)
  show "a \<notin> box_of dev borg brp bsp (r0, r1, r2) \<union> box_of host' horg' hrp' hsp' (r0, r1, r2) \<Longrightarrow> m'' m a = m a"
    using W(2) R(2) by (simp add: m''_def box_of_def)
qed

text \<open>
  C44: A rectangular write followed by a rectangular read of the same box brings every byte of the
  box from its place in the first host array to its place in the second one, whatever the pitches
  and origins of the three arrays, if the rows of the two boxes written do not overlap and the
  device box is apart from both host boxes. Nothing outside these two boxes changes.
\<close>

theorem rect_roundtrip:
  assumes "spread_at dev borg brp bsp (r0, r1, r2)" and "spread_at host' horg' hrp' hsp' (r0, r1, r2)"
    and "box_of dev borg brp bsp (r0, r1, r2) \<inter> box_of host horg hrp hsp (r0, r1, r2) = {}"
    and "box_of host' horg' hrp' hsp' (r0, r1, r2) \<inter> box_of dev borg brp bsp (r0, r1, r2) = {}"
    and m': "m' = pocl_basic_write_rect host dev borg horg (r0, r1, r2) brp bsp hrp hsp m"
    and m'': "m'' = pocl_basic_read_rect host' dev borg horg' (r0, r1, r2) brp bsp hrp' hsp' m'"
  shows "(\<forall>x y z. x < r0 \<longrightarrow> y < r1 \<longrightarrow> z < r2 \<longrightarrow>
      m'' (box_byte host' horg' hrp' hsp' x y z) = m (box_byte host horg hrp hsp x y z)) \<and>
    (\<forall>a. a \<notin> box_of dev borg brp bsp (r0, r1, r2) \<union> box_of host' horg' hrp' hsp' (r0, r1, r2) \<longrightarrow> m'' a = m a)"
  using box_roundtrip[OF assms(1-4), where m = m] m' m'' by auto

text \<open>A box of two rows of two bytes in a buffer of four-byte rows.\<close>

theorem rect_roundtrip_witness:
  "pocl_basic_read_rect 0x300 0x200 (1, 0, 0) (0, 0, 0) (2, 2, 1) 4 8 8 16
     (pocl_basic_write_rect 0x100 0x200 (1, 0, 0) (0, 0, 0) (2, 2, 1) 4 8 2 4 (\<lambda>a. if a = 0x103 then 7 else 0)) 0x309 = 7"
proof -
  define m :: memory where "m = (\<lambda>a. if a = 0x103 then 7 else 0)"
  define m' where "m' = pocl_basic_write_rect 0x100 0x200 (1, 0, 0) (0, 0, 0) (2, 2, 1) 4 8 2 4 m"
  have w2: "(x :: u32) < 2 \<longleftrightarrow> x = 0 \<or> x = 1" for x by unat_arith
  have w1: "(x :: u32) < 1 \<longleftrightarrow> x = 0" for x by unat_arith
  have "spread_at 0x200 (1, 0, 0) 4 8 (2, 2, 1)" "spread_at 0x300 (0, 0, 0) 8 16 (2, 2, 1)"
    "box_of 0x200 (1, 0, 0) 4 8 (2, 2, 1) \<inter> box_of 0x100 (0, 0, 0) 2 4 (2, 2, 1) = {}"
    "box_of 0x300 (0, 0, 0) 8 16 (2, 2, 1) \<inter> box_of 0x200 (1, 0, 0) 4 8 (2, 2, 1) = {}"
    by (auto simp: spread_at_def adjusted_def box_of_def byte_at_def w1 w2)
  from rect_roundtrip[OF this m'_def refl, THEN conjunct1, rule_format, of 1 1 0]
  have "pocl_basic_read_rect 0x300 0x200 (1, 0, 0) (0, 0, 0) (2, 2, 1) 4 8 8 16 m'
      (box_byte 0x300 (0, 0, 0) 8 16 1 1 0) = m (box_byte 0x100 (0, 0, 0) 2 4 1 1 0)" by simp
  then show ?thesis by (simp add: box_byte_def byte_at_def adjusted_def m_def m'_def)
qed

section \<open>Checked transfers\<close>

lemma adjusted_value:
  assumes "unat p + last_byte (o0, o1, o2) (r0, r1, r2) (unat rp) (unat sp) < 2 ^ 32" and "0 < r0" "0 < r1" "0 < r2"
  shows "unat (adjusted p (o0, o1, o2) rp sp) = unat p + unat o0 + unat rp * unat o1 + unat sp * unat o2"
    and "unat (adjusted p (o0, o1, o2) rp sp) + (unat r0 - 1) + unat rp * (unat r1 - 1) + unat sp * (unat r2 - 1)
      = unat p + last_byte (o0, o1, o2) (r0, r1, r2) (unat rp) (unat sp)"
proof -
  have pos: "1 \<le> unat r0" "1 \<le> unat r1" "1 \<le> unat r2" using assms(2-4) by (auto simp: Suc_le_eq unat_gt_0)
  then have d: "unat o0 + unat r0 - 1 = unat o0 + (unat r0 - 1)" "unat o1 + unat r1 - 1 = unat o1 + (unat r1 - 1)"
    "unat o2 + unat r2 - 1 = unat o2 + (unat r2 - 1)" by linarith+
  have l: "last_byte (o0, o1, o2) (r0, r1, r2) (unat rp) (unat sp) =
      unat o0 + (unat r0 - 1) + (unat rp * unat o1 + unat rp * (unat r1 - 1)) + (unat sp * unat o2 + unat sp * (unat r2 - 1))"
    by (simp only: last_byte.simps d distrib_left)
  have "adjusted p (o0, o1, o2) rp sp = of_nat (unat p + unat o0 + unat rp * unat o1 + unat sp * unat o2)"
    by (simp add: adjusted_def)
  moreover have "unat p + unat o0 + unat rp * unat o1 + unat sp * unat o2 < 2 ^ 32" using assms(1) unfolding l by linarith
  ultimately show u: "unat (adjusted p (o0, o1, o2) rp sp) = unat p + unat o0 + unat rp * unat o1 + unat sp * unat o2"
    by (rule unat_eqI)
  show "unat (adjusted p (o0, o1, o2) rp sp) + (unat r0 - 1) + unat rp * (unat r1 - 1) + unat sp * (unat r2 - 1)
      = unat p + last_byte (o0, o1, o2) (r0, r1, r2) (unat rp) (unat sp)"
    unfolding u l by linarith
qed

text \<open>
  C45: The check of a rectangular transfer makes the transfer safe up to one byte. After
  \<open>pocl_buffer_boundcheck_3d\<close> accepts a box for a buffer of \<open>bsize\<close> bytes at \<open>dev\<close>, the write with
  the pitches it answers delivers every byte of the box and changes no byte outside the buffer,
  except that it may reach the one byte just behind its end, which the check lets through. Hypotheses: no
  dimension of the box is empty, the number of rows times the row pitch and the address of the last byte
  are below \<open>2 ^ 32\<close> (the check accepts boxes that wrap, and they reach anywhere), and the box in host
  memory is apart from the box in the buffer.
\<close>

theorem checked_write_rect_stays_inside:
  assumes chk: "pocl_buffer_boundcheck_3d bsize (o0, o1, o2) (r0, r1, r2) row_pitch slice_pitch = ok (CL_SUCCESS, rp, sp)"
    and pos: "0 < r0" "0 < r1" "0 < r2"
    and rp: "rp = (if row_pitch = 0 then r0 else row_pitch)"
    and sp: "sp = (if slice_pitch = 0 then r1 * rp else slice_pitch)"
    and wrap: "unat r1 * unat rp < 2 ^ 32" "unat dev + last_byte (o0, o1, o2) (r0, r1, r2) (unat rp) (unat sp) < 2 ^ 32"
    and host: "box_of dev (o0, o1, o2) rp sp (r0, r1, r2) \<inter> box_of host horg hrp hsp (r0, r1, r2) = {}"
    and m': "m' = pocl_basic_write_rect host dev (o0, o1, o2) horg (r0, r1, r2) rp sp hrp hsp m"
  shows "(\<forall>x y z. x < r0 \<longrightarrow> y < r1 \<longrightarrow> z < r2 \<longrightarrow>
      m' (box_byte dev (o0, o1, o2) rp sp x y z) = m (box_byte host horg hrp hsp x y z)) \<and>
    (\<forall>a. m' a \<noteq> m a \<longrightarrow> unat dev \<le> unat a \<and> unat a \<le> unat dev + unat bsize)"
proof -
  let ?L = "last_byte (o0, o1, o2) (r0, r1, r2) (unat rp) (unat sp)" and ?b = "adjusted dev (o0, o1, o2) rp sp"
  have L: "?L < 2 ^ 32" using wrap(2) by linarith
  from chk boundcheck_3d_eq[OF pos rp sp wrap(1) L, of bsize]
  have c: "r0 \<le> rp" "unat r1 * unat rp \<le> unat sp" "?L \<le> unat bsize" by (auto split: if_splits)
  note A = adjusted_value[OF wrap(2) pos]
  have s: "spread ?b rp sp (r0, r1, r2)" using c A(2) wrap(2) by simp
  note W = box_copy_bytes[OF s host[unfolded box_of_def], where m = m, folded pocl_basic_write_rect_def m']
  have "unat dev \<le> unat a \<and> unat a \<le> unat dev + unat bsize" if "m' a \<noteq> m a" for a
  proof -
    from that W(2) have "a \<in> box ?b rp sp (r0, r1, r2)" by blast
    then obtain x y z where a: "a = byte_at ?b rp sp x y z" "x < r0" "y < r1" "z < r2" by auto
    note v = byte_value[OF s a(2-4), folded a(1)]
    have "unat a \<le> unat dev + ?L" using v A(2) by linarith
    moreover have "unat dev \<le> unat a" using v(1) A(1) by linarith
    ultimately show ?thesis using c(3) by linarith
  qed
  with W(1) show ?thesis by (auto simp: box_byte_def)
qed

text \<open>The byte behind the end is reached: four bytes written to a buffer of three.\<close>

theorem checked_write_rect_stays_inside_witness:
  "pocl_basic_write_rect 0x100 0x200 (0, 0, 0) (0, 0, 0) (4, 1, 1) 4 4 4 4 (\<lambda>a. if a = 0x103 then 7 else 0) 0x203 = 7"
proof -
  define m :: memory where "m = (\<lambda>a. if a = 0x103 then 7 else 0)"
  have chk: "pocl_buffer_boundcheck_3d 3 (0, 0, 0) (4, 1, 1) 0 0 = ok (CL_SUCCESS, 4, 4)"
    by (simp add: pocl_buffer_boundcheck_3d_def)
  have w1: "(x :: u32) < 1 \<longleftrightarrow> x = 0" for x by unat_arith
  have w4: "(x :: u32) < 4 \<longleftrightarrow> x = 0 \<or> x = 1 \<or> x = 2 \<or> x = 3" for x by unat_arith
  have "box_of 0x200 (0, 0, 0) 4 4 (4, 1, 1) \<inter> box_of 0x100 (0, 0, 0) 4 4 (4, 1, 1) = {}"
    by (auto simp: adjusted_def box_of_def byte_at_def w1 w4)
  from checked_write_rect_stays_inside[OF chk _ _ _ _ _ _ _ this refl, of m]
  have "pocl_basic_write_rect 0x100 0x200 (0, 0, 0) (0, 0, 0) (4, 1, 1) 4 4 4 4 m
      (box_byte 0x200 (0, 0, 0) 4 4 3 0 0) = m (box_byte 0x100 (0, 0, 0) 4 4 3 0 0)" by simp
  then show ?thesis by (simp add: box_byte_def byte_at_def adjusted_def m_def)
qed

text \<open>
  C46: The rectangular read of the FPGA device misplaces slices. It agrees with the one of the basic
  device for boxes in the first slice; but it multiplies the offset of a later slice by the row
  pitch, so it reads the byte at distance \<open>rp * sp\<close> where the box in the second slice begins at
  distance \<open>sp\<close>.
\<close>

theorem zynq_read_rect_misplaces_slices:
  "pocl_zynq_basic_read_rect host dev (b0, b1, 0) (h0, h1, 0) region brp bsp hrp hsp =
     pocl_basic_read_rect host dev (b0, b1, 0) (h0, h1, 0) region brp bsp hrp hsp \<and>
   pocl_zynq_basic_read_rect host dev (0, 0, 1) (0, 0, 0) (1, 1, 1) brp bsp hrp hsp m host = m (dev + brp * bsp) \<and>
   pocl_basic_read_rect host dev (0, 0, 1) (0, 0, 0) (1, 1, 1) brp bsp hrp hsp m host = m (dev + bsp)"
proof (intro conjI)
  show "pocl_zynq_basic_read_rect host dev (b0, b1, 0) (h0, h1, 0) region brp bsp hrp hsp =
     pocl_basic_read_rect host dev (b0, b1, 0) (h0, h1, 0) region brp bsp hrp hsp"
    by (rule ext) (simp add: pocl_zynq_basic_read_rect_def pocl_basic_read_rect_def algebra_simps)
  have "box_rows (1, 1, 1) = [(0, 0)]" by (simp add: box_rows_def upto_def)
  then show "pocl_zynq_basic_read_rect host dev (0, 0, 1) (0, 0, 0) (1, 1, 1) brp bsp hrp hsp m host = m (dev + brp * bsp)"
    "pocl_basic_read_rect host dev (0, 0, 1) (0, 0, 0) (1, 1, 1) brp bsp hrp hsp m host = m (dev + bsp)"
    by (simp_all add: pocl_zynq_basic_read_rect_def pocl_basic_read_rect_def box_copy_def memcpy_def)
qed

end
