(* ===== verification/Pthread_Alloc.thy ===== *)
theory Pthread_Alloc
  imports Bufalloc_Props Dev_Memory Cl_Objects
begin

text \<open>
  The buffers of the pthread device (\<^verbatim>\<open>lib/CL/devices/pthread/pthread.c\<close>): a list of regions
  of the buffer allocator that grows by a region whenever no region has room.
\<close>

abbreviation MB :: size_t where "MB \<equiv> 0x100000"
abbreviation ADDITIONAL_ALLOCATION_MAX_MB :: size_t where "ADDITIONAL_ALLOCATION_MAX_MB \<equiv> 100"
abbreviation ALLOCATION_MULTIPLE :: size_t where "ALLOCATION_MULTIPLE \<equiv> 32"
abbreviation NEW_REGION_MIN_MB :: size_t where "NEW_REGION_MIN_MB \<equiv> 10"
abbreviation CL_MEM_USE_HOST_PTR :: cl_bitfield where "CL_MEM_USE_HOST_PTR \<equiv> 8"
abbreviation CL_MEM_COPY_HOST_PTR :: cl_bitfield where "CL_MEM_COPY_HOST_PTR \<equiv> 32"

section \<open>Allocation\<close>

definition region_size :: "size_t \<Rightarrow> size_t" where
  "region_size sz =
     max (max (min (sz + ADDITIONAL_ALLOCATION_MAX_MB * MB) (sz * ALLOCATION_MULTIPLE)) sz) (NEW_REGION_MIN_MB * MB)"

text \<open>
  What the host answers to one request: whether the region record is allocated, its content, and
  the addresses \<open>posix_memalign\<close> gives for the region and, when that fails, for the bare size.
\<close>

record host_answers =
  region_malloc :: bool
  region_content :: memory_region
  large_space :: addr
  small_space :: addr

definition allocate_chunk ::
  "host_answers \<Rightarrow> size_t \<Rightarrow> size_t \<Rightarrow> memory_region list \<Rightarrow> ((nat \<times> nat) option \<times> memory_region list) prog" where
  "allocate_chunk a al sz rs =
     andthen (alloc_buffer rs sz) (\<lambda>(res, rs1).
     if res \<noteq> None then ok (res, rs1)
     else if \<not> region_malloc a then ok (None, rs1)
     else if region_size sz < sz then throw AssertFail
     else let (space, n) = (if large_space a \<noteq> NULL then (large_space a, region_size sz) else (small_space a, sz))
       in if space = NULL then ok (None, rs1)
          else andthen (init_mem_region (region_content a) space n) (\<lambda>r.
               andthen (alloc_buffer_from_region (r\<lparr>alignment := al\<rparr>) sz) (\<lambda>(c, r').
               case c of None \<Rightarrow> throw AssertFail | Some chunk \<Rightarrow> ok (Some (length rs1, chunk), rs1 @ [r']))))"

text \<open>The address of the chunk, or nothing for \<open>ENOMEM\<close>.\<close>

definition allocate_aligned_buffer ::
  "host_answers \<Rightarrow> size_t \<Rightarrow> size_t \<Rightarrow> memory_region list \<Rightarrow> (addr option \<times> memory_region list) prog" where
  "allocate_aligned_buffer a al sz rs =
     andthen (allocate_chunk a al sz rs) (\<lambda>(res, rs').
     ok (map_option (\<lambda>(i, c). start_address (all_chunks (rs' ! i) c)) res, rs'))"

definition pocl_pthread_malloc ::
  "host_answers \<Rightarrow> cl_bitfield \<Rightarrow> size_t \<Rightarrow> addr \<Rightarrow> memory_region list \<times> memory \<Rightarrow>
   (addr \<times> memory_region list \<times> memory) prog" where
  "pocl_pthread_malloc a flags sz host_ptr d =
     (let (rs, m) = d in
      if flags AND CL_MEM_COPY_HOST_PTR \<noteq> 0
      then andthen (allocate_aligned_buffer a 128 sz rs) (\<lambda>(b, rs').
           case b of Some p \<Rightarrow> ok (p, rs', memcpy p host_ptr sz m) | None \<Rightarrow> ok (NULL, rs', m))
      else if flags AND CL_MEM_USE_HOST_PTR \<noteq> 0 \<and> host_ptr \<noteq> NULL then ok (host_ptr, rs, m)
      else andthen (allocate_aligned_buffer a 128 sz rs) (\<lambda>(b, rs').
           case b of Some p \<Rightarrow> ok (p, rs', m) | None \<Rightarrow> ok (NULL, rs', m)))"

text \<open>\<open>g\<close> is the global memory of the device and \<open>dev\<close> its number.\<close>

definition pocl_pthread_alloc_mem_obj ::
  "host_answers \<Rightarrow> nat \<Rightarrow> nat \<Rightarrow> cl_mem \<Rightarrow> memory_region list \<times> memory \<Rightarrow>
   (int \<times> cl_mem \<times> memory_region list \<times> memory) prog" where
  "pocl_pthread_alloc_mem_obj a g dev mem_obj d =
     (let (rs, m) = d; share = (\<lambda>ob. ob\<lparr>device_ptrs := (device_ptrs ob)(dev := device_ptrs ob g)\<rparr>)
      in if device_ptrs mem_obj g \<noteq> NULL then ok (CL_SUCCESS, share mem_obj, rs, m)
         else andthen (if mem_flags mem_obj AND CL_MEM_USE_HOST_PTR \<noteq> 0 \<and> mem_host_ptr mem_obj \<noteq> NULL
                       then ok (Some (mem_host_ptr mem_obj), rs)
                       else allocate_aligned_buffer a 128 (mem_size mem_obj) rs) (\<lambda>(b, rs').
              case b of
                None \<Rightarrow> ok (CL_MEM_OBJECT_ALLOCATION_FAILURE, mem_obj, rs', m)
              | Some p \<Rightarrow>
                  let m' = (if mem_flags mem_obj AND CL_MEM_COPY_HOST_PTR \<noteq> 0
                            then memcpy p (mem_host_ptr mem_obj) (mem_size mem_obj) m else m)
                  in ok (CL_SUCCESS, share (mem_obj\<lparr>device_ptrs := (device_ptrs mem_obj)(g := p)\<rparr>), rs', m')))"

definition pocl_pthread_free ::
  "arg_order \<Rightarrow> cl_bitfield \<Rightarrow> addr \<Rightarrow> memory_region list \<Rightarrow> memory_region list prog" where
  "pocl_pthread_free order flags ptr rs =
     (if flags AND CL_MEM_USE_HOST_PTR \<noteq> 0 then ok rs
      else andthen (free_buffer order rs ptr) (\<lambda>(region, rs').
           if region = None then throw AssertFail else ok rs'))"

section \<open>The basic device\<close>

text \<open>It takes each buffer from the host; \<open>b\<close> is the address \<open>posix_memalign\<close> gives.\<close>

definition pocl_basic_malloc :: "addr \<Rightarrow> cl_bitfield \<Rightarrow> size_t \<Rightarrow> addr \<Rightarrow> memory \<Rightarrow> addr \<times> memory" where
  "pocl_basic_malloc b flags sz host_ptr m =
     (if flags AND CL_MEM_COPY_HOST_PTR \<noteq> 0
      then if b \<noteq> NULL then (b, memcpy b host_ptr sz m) else (NULL, m)
      else if flags AND CL_MEM_USE_HOST_PTR \<noteq> 0 \<and> host_ptr \<noteq> NULL then (host_ptr, m)
      else (b, m))"

definition pocl_basic_alloc_mem_obj :: "addr \<Rightarrow> nat \<Rightarrow> nat \<Rightarrow> cl_mem \<Rightarrow> memory \<Rightarrow> int \<times> cl_mem \<times> memory" where
  "pocl_basic_alloc_mem_obj b g dev mem_obj m =
     (let share = (\<lambda>ob. ob\<lparr>device_ptrs := (device_ptrs ob)(dev := device_ptrs ob g)\<rparr>)
      in if device_ptrs mem_obj g \<noteq> NULL then (CL_SUCCESS, share mem_obj, m)
         else let host = (mem_flags mem_obj AND CL_MEM_USE_HOST_PTR \<noteq> 0 \<and> mem_host_ptr mem_obj \<noteq> NULL);
                  p = (if host then mem_host_ptr mem_obj else b)
              in if \<not> host \<and> b = NULL then (CL_MEM_OBJECT_ALLOCATION_FAILURE, mem_obj, m)
                 else (CL_SUCCESS, share (mem_obj\<lparr>device_ptrs := (device_ptrs mem_obj)(g := p)\<rparr>),
                       if mem_flags mem_obj AND CL_MEM_COPY_HOST_PTR \<noteq> 0
                       then memcpy p (mem_host_ptr mem_obj) (mem_size mem_obj) m else m))"

section \<open>The size of a new region\<close>

lemma region_size_ge: "sz \<le> region_size sz"
  unfolding region_size_def by (rule max.coboundedI1, rule max.cobounded2)

lemma region_size_room:
  assumes "0 < sz" and "unat sz < 2 ^ 27"
  shows "sz < region_size sz"
proof -
  have "unat (sz * 32) = unat sz * 32"
    using assms(2) by (intro unat_eqI) simp_all
  moreover have "unat (sz + 0x6400000) = unat sz + 0x6400000"
    using assms(2) by (intro unat_eqI) simp_all
  ultimately have "sz < sz * 32" "sz < sz + 0x6400000" using assms(1) by (simp_all add: word_less_nat_alt)
  then have "sz < min (sz + 0x6400000) (sz * 32)" by simp
  then show ?thesis by (simp add: region_size_def less_max_iff_disj)
qed

section \<open>A new region\<close>

lemma fresh_region:
  assumes "0 < n" and "128 dvd unat p" and "unat p + unat n + 128 \<le> 2 ^ 32"
  obtains r where "init_mem_region c p n = ok r"
    and "region_inv 7 (unat p) (unat p + unat n) (r\<lparr>alignment := 128\<rparr>) [0] [1..<64]"
    and "blocks (r\<lparr>alignment := 128\<rparr>) [0] = {}"
proof -
  have "unat p + unat n + 64 \<le> 2 ^ 32" using assms(3) by simp
  from init_mem_region_inv[OF assms(1) this, of c] obtain r where r: "init_mem_region c p n = ok r"
    "region_inv 6 (unat p) (unat p + unat n) r [0] [1..<64]" "blocks r [0] = {}" by blast
  have c6: "ceil_to 6 (unat p) \<le> ceil_to 7 (unat p)"
    using assms(2) ceil_to_least[of "unat p" "unat p div 64" 6] by (auto simp: ceil_to_def elim!: dvdE)
  have "region_inv 7 (unat p) (unat p + unat n) (r\<lparr>alignment := 128\<rparr>) [0] [1..<64]"
    using r(2) assms(3) c6 by (auto simp: region_inv_def region_lists_def)
  with r show thesis by (intro that) (auto simp: blocks_def)
qed

lemma fresh_region_chunk:
  assumes "region_inv 7 lo hi r [0] [1..<64]" and "128 dvd lo"
  shows "S r 0 = lo" and "S r 0 + Z r 0 = hi" and "\<not> is_allocated (all_chunks r 0)"
proof -
  have c: "ceil_to 7 lo = lo" using assms(2) by (auto simp: ceil_to_def elim!: dvdE)
  with assms(1) show "S r 0 = lo" "S r 0 + Z r 0 = hi" "\<not> is_allocated (all_chunks r 0)"
    by (auto simp: region_inv_def)
qed

text \<open>A new region serves the request it was made for exactly when it is larger than the request.\<close>

lemma fresh_region_alloc:
  assumes inv: "region_inv 7 lo hi r [0] [1..<64]" and b: "blocks r [0] = {}" and al: "128 dvd lo"
    and sz: "0 < sz" "hi + 128 + unat sz \<le> 2 ^ 32"
  shows "lo + unat sz < hi \<Longrightarrow> \<exists>i r' xs fs. alloc_buffer_from_region r sz = ok (Some i, r') \<and> region_inv 7 lo hi r' xs fs \<and>
      blocks r' xs = {(S r' i, Z r' i)} \<and> unat sz \<le> Z r' i"
    and "\<not> lo + unat sz < hi \<Longrightarrow> alloc_buffer_from_region r sz = ok (None, r)"
proof -
  have sz': "hi + 2 ^ 7 + unat sz \<le> 2 ^ 32" using sz(2) by simp
  note F = fresh_region_chunk[OF inv al]
  have c: "ceil_to 7 lo = lo" using al by (auto simp: ceil_to_def elim!: dvdE)
  have slack: "fst (chunk_slack r 0 sz) \<longleftrightarrow> lo + unat sz < hi"
  proof -
    have "hi = lo + Z r 0" using F by simp
    then show ?thesis using chunk_slack_room(1)[OF inv _ sz', of 0] by (simp add: F(1) c)
  qed
  show "\<exists>i r' xs fs. alloc_buffer_from_region r sz = ok (Some i, r') \<and> region_inv 7 lo hi r' xs fs \<and>
      blocks r' xs = {(S r' i, Z r' i)} \<and> unat sz \<le> Z r' i" if "lo + unat sz < hi"
  proof (rule alloc_buffer_from_region_inv[OF inv sz(1) sz'], goal_cases)
    case 1
    have "\<not> [1..<64] = ([] :: nat list)" by simp
    with 1(2)[of 0] F(3) slack that show ?case by simp
  next
    case (2 i r' xs fs)
    then show ?case using b by auto
  qed
  show "alloc_buffer_from_region r sz = ok (None, r)" if "\<not> lo + unat sz < hi"
  proof (rule alloc_buffer_from_region_inv[OF inv sz(1) sz'], goal_cases)
    case 1
    then show ?case by simp
  next
    case (2 i r' xs fs)
    from 2(10) slack that show ?case by simp
  qed
qed

section \<open>The growing list of regions as an allocator\<close>

text \<open>
  The windows of the regions are carried along as a ghost. \<open>host\<close> answers a request for a new
  region, knowing the memory that is taken.
\<close>

type_synonym pthread_heap = "window list \<times> memory_region list"

definition pthread_alloc ::
  "(window list \<Rightarrow> size_t \<Rightarrow> host_answers) \<Rightarrow> pthread_heap \<Rightarrow> size_t \<Rightarrow> ((nat \<times> nat) option \<times> pthread_heap) prog" where
  "pthread_alloc host h sz =
     (let (ws, rs) = h; a = host ws sz; lo = unat (large_space a) in
      andthen (allocate_chunk a 128 sz rs) (\<lambda>(res, rs').
      ok (map_option (\<lambda>(i, c). (S (rs' ! i) c, Z (rs' ! i) c)) res,
          (if length rs < length rs' then ws @ [(7, lo, lo + unat (region_size sz))] else ws, rs'))))"

definition pthread_release :: "arg_order \<Rightarrow> pthread_heap \<Rightarrow> u32 \<Rightarrow> (bool \<times> pthread_heap) prog" where
  "pthread_release order h a =
     (let (ws, rs) = h in andthen (pocl_pthread_free order 0 a rs) (\<lambda>rs'. ok (True, (ws, rs'))))"

definition pthread_windows :: "nat \<Rightarrow> window list \<Rightarrow> bool" where
  "pthread_windows M ws \<longleftrightarrow> (\<forall>(n, lo, hi) \<in> set ws. n = 7 \<and> 0 < lo \<and> 128 dvd lo \<and> hi + 128 + M \<le> 2 ^ 32)"

definition pthread_rep :: "nat \<Rightarrow> pthread_heap \<Rightarrow> (nat \<times> nat) set \<Rightarrow> bool" where
  "pthread_rep M h B \<longleftrightarrow> regions_rep (fst h) (snd h) B \<and> pthread_windows M (fst h)"

definition pthread_fits :: "nat \<Rightarrow> size_t \<Rightarrow> bool" where
  "pthread_fits M sz \<longleftrightarrow> 0 < sz \<and> unat sz \<le> M"

definition aligned_block :: "nat \<times> nat \<Rightarrow> bool" where
  "aligned_block p \<longleftrightarrow> 128 dvd fst p \<and> 0 < fst p \<and> fst p < 2 ^ 32 \<and> 0 < snd p"

text \<open>
  What \<open>posix_memalign\<close> promises for each of the two requests, on a kernel that ends the memory of a
  process at 3 GB: the address is null, or the memory is aligned and apart from the memory handed out
  before.
\<close>

definition given :: "window list \<Rightarrow> addr \<Rightarrow> size_t \<Rightarrow> bool" where
  "given ws p n \<longleftrightarrow> p = NULL \<or> (128 dvd unat p \<and> unat p + unat n \<le> 0xC0000000 \<and>
     (\<forall>(k, l, h) \<in> set ws. unat p + unat n \<le> l \<or> h \<le> unat p))"

definition host_ok :: "nat \<Rightarrow> (window list \<Rightarrow> size_t \<Rightarrow> host_answers) \<Rightarrow> bool" where
  "host_ok M host \<longleftrightarrow> (\<forall>ws sz. pthread_fits M sz \<longrightarrow>
     given ws (large_space (host ws sz)) (region_size sz) \<and> given ws (small_space (host ws sz)) sz)"

text \<open>The host has no room for the large region, but for the bare size.\<close>

definition falls_back :: "host_answers \<Rightarrow> bool" where
  "falls_back a \<longleftrightarrow> region_malloc a \<and> large_space a = NULL \<and> small_space a \<noteq> NULL"

definition never_falls_back :: "(window list \<Rightarrow> size_t \<Rightarrow> host_answers) \<Rightarrow> bool" where
  "never_falls_back host \<longleftrightarrow> (\<forall>ws sz. \<not> falls_back (host ws sz))"

lemma windows_apart_append:
  "windows_apart ws \<Longrightarrow> (\<forall>(n, l, h) \<in> set ws. hi \<le> l \<or> h \<le> lo) \<Longrightarrow> windows_apart (ws @ [(n, lo, hi)])"
  by (induction ws rule: windows_apart.induct) auto

lemma regions_inv_append:
  "regions_inv ws rs B \<Longrightarrow> region_inv n lo hi r xs fs \<Longrightarrow> regions_inv (ws @ [(n, lo, hi)]) (rs @ [r]) (B \<union> blocks r xs)"
proof (induction ws rs B rule: regions_inv.induct)
  case (2 m l h ws r' rs B)
  then obtain ys gs B' where "region_inv m l h r' ys gs" "regions_inv ws rs B'" "B = blocks r' ys \<union> B'"
    by auto
  with 2 show ?case by (auto simp: Un_assoc)
qed auto

lemma regions_inv_length: "regions_inv ws rs B \<Longrightarrow> length ws = length rs"
  by (induction ws rs B rule: regions_inv.induct) auto

lemma pthread_windows_fits: "pthread_windows M ws \<Longrightarrow> pthread_fits M sz \<Longrightarrow> fits ws sz"
  by (fastforce simp: pthread_windows_def pthread_fits_def fits_def)

lemma alloc_range_eq_ok:
  "alloc_range rs sz = ok (res, rs') \<Longrightarrow>
     \<exists>ic. alloc_buffer rs sz = ok (ic, rs') \<and> res = map_option (\<lambda>(i, c). (S (rs' ! i) c, Z (rs' ! i) c)) ic"
  by (auto simp: alloc_range_def andthen_eq_ok)

text \<open>A request no region has room for is served from a new region that is larger than it.\<close>

lemma pthread_new_region:
  assumes old: "alloc_buffer rs sz = ok (None, rs1)" and n: "length rs1 = length rs"
    and rep: "regions_rep ws rs1 B" "pthread_windows M ws" and sz: "pthread_fits M sz" and M: "M < 2 ^ 27"
    and host: "host_ok M host" and p: "large_space (host ws sz) \<noteq> NULL" and rm: "region_malloc (host ws sz)"
  shows "\<exists>b ws' rs'. pthread_alloc host (ws, rs) sz = ok (Some b, (ws', rs')) \<and>
    pthread_rep M (ws', rs') (insert b B) \<and> b \<notin> B \<and> unat sz \<le> snd b"
proof -
  define a where "a = host ws sz"
  define lo where "lo = unat (large_space a)"
  define hi where "hi = lo + unat (region_size sz)"
  have sz': "0 < sz" "unat sz \<le> M" using sz by (simp_all add: pthread_fits_def)
  have "given ws (large_space a) (region_size sz)" using host sz by (simp add: host_ok_def a_def)
  then have h: "128 dvd lo" "hi \<le> 0xC0000000" "\<forall>(n, l, h) \<in> set ws. hi \<le> l \<or> h \<le> lo"
    using p unfolding given_def a_def lo_def hi_def by blast+
  have hM: "hi + 128 + M \<le> 2 ^ 32" using h(2) M by simp
  have room: "lo + unat sz < hi"
    using region_size_room[of sz] sz' M by (simp add: hi_def word_less_nat_alt)
  have "0 < region_size sz" "unat (large_space a) + unat (region_size sz) + 128 \<le> 2 ^ 32"
    using hM region_size_ge[of sz] sz'(1) by (simp_all add: hi_def lo_def)
  from fresh_region[OF this(1) _ this(2), of "region_content a"] h(1) obtain r0
    where r0: "init_mem_region (region_content a) (large_space a) (region_size sz) = ok r0"
      "region_inv 7 lo hi (r0\<lparr>alignment := 128\<rparr>) [0] [1..<64]" "blocks (r0\<lparr>alignment := 128\<rparr>) [0] = {}"
    by (auto simp: lo_def hi_def)
  have end_ok: "hi + 128 + unat sz \<le> 2 ^ 32" using hM sz'(2) by simp
  from fresh_region_alloc(1)[OF r0(2,3) h(1) sz'(1) end_ok room] obtain i r' xs fs
    where r': "alloc_buffer_from_region (r0\<lparr>alignment := 128\<rparr>) sz = ok (Some i, r')"
      "region_inv 7 lo hi r' xs fs" "blocks r' xs = {(S r' i, Z r' i)}" "unat sz \<le> Z r' i" by blast
  let ?b = "(S r' i, Z r' i)" and ?w = "(7, lo, hi) :: window"
  have eq: "pthread_alloc host (ws, rs) sz = ok (Some ?b, (ws @ [?w], rs1 @ [r']))"
    using old rm p r0(1) r'(1) n region_size_ge[of sz]
    by (simp add: pthread_alloc_def allocate_chunk_def a_def[symmetric] lo_def hi_def not_less nth_append Let_def)
  have wa: "windows_apart (ws @ [?w])"
    using rep(1) h(3) by (intro windows_apart_append) (auto simp: regions_rep_def)
  moreover have "regions_inv (ws @ [?w]) (rs1 @ [r']) (insert ?b B)"
    using regions_inv_append[OF _ r'(2), of ws rs1 B] rep(1) r'(3) by (simp add: regions_rep_def)
  moreover have "0 < lo" using p by (simp add: lo_def a_def unat_gt_0)
  then have "pthread_windows M (ws @ [?w])"
    using rep(2) h(1) hM by (auto simp: pthread_windows_def)
  moreover have "?b \<notin> B"
  proof
    assume "?b \<in> B"
    then have g: "good_block ws ?b" using rep(1) regions_good by (auto simp: regions_rep_def)
    note bg = blocks_good[OF r'(2), of ?b, unfolded r'(3), OF singletonI]
    have "windows_apart (?w # ws)" using wa h(3) rep(1) by (auto simp: regions_rep_def)
    from windows_apart_blocks(2)[OF this bg(3,4) g bg(1)] show False by simp
  qed
  ultimately show ?thesis using eq r'(4) by (auto simp: pthread_rep_def regions_rep_def)
qed

lemma pthread_alloc_law:
  assumes host: "host_ok M host" "M < 2 ^ 27" and rep: "pthread_rep M h B" and sz: "pthread_fits M sz"
    and room: "\<not> falls_back (host (fst h) sz)"
  shows "\<exists>res h'. pthread_alloc host h sz = ok (res, h') \<and>
    (case res of None \<Rightarrow> pthread_rep M h' B
     | Some p \<Rightarrow> pthread_rep M h' (insert p B) \<and> p \<notin> B \<and> unat sz \<le> snd p)"
proof -
  obtain ws rs where h: "h = (ws, rs)" by force
  have r: "regions_rep ws rs B" "pthread_windows M ws" using rep by (simp_all add: pthread_rep_def h)
  from alloc_range_law[OF r(1) pthread_windows_fits[OF r(2) sz]] obtain res rs1
    where a1: "alloc_range rs sz = ok (res, rs1)"
      "case res of None \<Rightarrow> regions_rep ws rs1 B
       | Some p \<Rightarrow> regions_rep ws rs1 (insert p B) \<and> p \<notin> B \<and> unat sz \<le> snd p" by blast
  from alloc_range_eq_ok[OF a1(1)] obtain ic where ic: "alloc_buffer rs sz = ok (ic, rs1)"
    "res = map_option (\<lambda>(i, c). (S (rs1 ! i) c, Z (rs1 ! i) c)) ic" by blast
  have len: "length rs1 = length rs"
    using r(1) a1(2) by (cases res) (auto simp: regions_rep_def dest!: regions_inv_length)
  show ?thesis
  proof (cases ic)
    case (Some c)
    then have "pthread_alloc host h sz = ok (res, (ws, rs1))"
      using ic len by (simp add: pthread_alloc_def allocate_chunk_def h Let_def)
    with a1(2) r(2) show ?thesis by (cases res) (auto simp: pthread_rep_def)
  next
    case None
    with ic a1(2) have r1: "res = None" "regions_rep ws rs1 B" by simp_all
    have nul: "small_space (host ws sz) = NULL" if "region_malloc (host ws sz)" "large_space (host ws sz) = NULL"
      using room that by (simp add: falls_back_def h)
    show ?thesis
    proof (cases "region_malloc (host ws sz) \<and> large_space (host ws sz) \<noteq> NULL")
      case True
      with pthread_new_region[of rs sz rs1 ws B M host] ic(1) None len r1(2) r(2) sz host show ?thesis
        by (fastforce simp: h)
    next
      case False
      have "\<not> region_size sz < sz" using region_size_ge[of sz] by (simp add: not_less)
      with False nul None ic(1) len have "pthread_alloc host h sz = ok (None, (ws, rs1))"
        by (auto simp: pthread_alloc_def allocate_chunk_def h Let_def)
      with r1(2) r(2) show ?thesis by (auto simp: pthread_rep_def)
    qed
  qed
qed

lemma pthread_free_law:
  assumes "pthread_rep M h B" and "(unat a, z) \<in> B"
  shows "\<exists>h'. pthread_release order h a = ok (True, h') \<and> pthread_rep M h' (B - {(unat a, z)})"
proof -
  obtain ws rs where h: "h = (ws, rs)" by force
  from assms free_range_law[of ws rs B a z order] obtain rs'
    where f: "free_range order rs a = ok (True, rs')" "regions_rep ws rs' (B - {(unat a, z)})"
    by (auto simp: pthread_rep_def h)
  from f(1) obtain i where "free_buffer order rs a = ok (Some i, rs')"
    by (auto simp: free_range_def andthen_eq_ok)
  then have "pthread_release order h a = ok (True, (ws, rs'))"
    by (simp add: pthread_release_def pocl_pthread_free_def h)
  with f(2) assms(1) show ?thesis by (auto simp: pthread_rep_def h)
qed

interpretation pthread: allocator "pthread_rep M" "pthread_alloc host" "pthread_release order"
    "\<lambda>sz. pthread_fits M sz \<and> host_ok M host \<and> never_falls_back host \<and> M < 2 ^ 27" aligned_block for M host order
proof unfold_locales
  fix h B p q
  assume rep: "pthread_rep M h B" and p: "p \<in> B"
  then have r: "regions_rep (fst h) (snd h) B" and w: "pthread_windows M (fst h)"
    by (simp_all add: pthread_rep_def)
  show "q \<in> B \<Longrightarrow> p \<noteq> q \<Longrightarrow> apart p q" by (rule regions_apart[OF r p])
  have "good_block (fst h) p" by (rule regions_good[OF conjunct2[OF r[unfolded regions_rep_def]] p])
  with w show "aligned_block p" by (fastforce simp: good_block_def aligned_block_def pthread_windows_def)
qed (use pthread_alloc_law pthread_free_law in \<open>auto simp: aligned_block_def never_falls_back_def\<close>)

end
