(* ===== verification/Pthread_Alloc_Props.thy ===== *)
theory Pthread_Alloc_Props
  imports Pthread_Alloc
begin

text \<open>What the buffers of the pthread device promise, and where the assertions of the code fail.\<close>

text \<open>
  When the host has no room for the large region and the code falls back to a region of exactly
  the requested size, the allocation ends in the failed assertion that the new region must have
  room: a region never gives out its last byte. The same holds for a request so large that the
  large region is no larger than the request.
\<close>

theorem exact_region_fails:
  assumes "alloc_buffer rs sz = ok (None, rs1)" and "region_malloc a"
    and "if large_space a = NULL then p = small_space a else p = large_space a \<and> region_size sz = sz"
    and "p \<noteq> NULL" and "128 dvd unat p" and "0 < sz" and "unat p + 2 * unat sz + 128 \<le> 2 ^ 32"
  shows "allocate_chunk a 128 sz rs = throw AssertFail"
proof -
  have "unat p + unat sz + 128 \<le> 2 ^ 32" using assms(7) by simp
  from fresh_region[OF assms(6,5) this, of "region_content a"] obtain r0
    where r0: "init_mem_region (region_content a) p sz = ok r0"
      "region_inv 7 (unat p) (unat p + unat sz) (r0\<lparr>alignment := 128\<rparr>) [0] [1..<64]"
      "blocks (r0\<lparr>alignment := 128\<rparr>) [0] = {}" by blast
  have "unat p + unat sz + 128 + unat sz \<le> 2 ^ 32" using assms(7) by simp
  from fresh_region_alloc(2)[OF r0(2,3) assms(5,6) this] 
  have "alloc_buffer_from_region (r0\<lparr>alignment := 128\<rparr>) sz = ok (None, r0\<lparr>alignment := 128\<rparr>)" by simp
  moreover have "\<not> region_size sz < sz" using region_size_ge[of sz] by (simp add: not_less)
  ultimately show ?thesis
    using assms(1-4) r0(1) by (cases "large_space a = NULL") (simp_all add: allocate_chunk_def Let_def)
qed

text \<open>One request: served as the contract says, or the assertion fails because the host fell back.\<close>

lemma pthread_alloc_cases:
  assumes "host_ok M host" and "M < 2 ^ 27" and rep: "pthread_rep M h B" and sz: "pthread_fits M sz"
  obtains (served) res h' where "pthread_alloc host h sz = ok (res, h')"
      and "pthread_rep M h' (case res of None \<Rightarrow> B | Some p \<Rightarrow> insert p B)"
    | (failed) "pthread_alloc host h sz = throw AssertFail" and "falls_back (host (fst h) sz)"
proof (cases "falls_back (host (fst h) sz)")
  case False
  from pthread_alloc_law[OF assms False] obtain res h' where "pthread_alloc host h sz = ok (res, h')"
    "case res of None \<Rightarrow> pthread_rep M h' B | Some p \<Rightarrow> pthread_rep M h' (insert p B) \<and> p \<notin> B \<and> unat sz \<le> snd p" by blast
  then show thesis by (intro served) (auto split: option.splits)
next
  case True
  obtain ws rs where h: "h = (ws, rs)" by force
  have r: "regions_rep ws rs B" "pthread_windows M ws" using rep by (simp_all add: pthread_rep_def h)
  from alloc_range_law[OF r(1) pthread_windows_fits[OF r(2) sz]] obtain res rs1
    where a: "alloc_range rs sz = ok (res, rs1)" "case res of None \<Rightarrow> regions_rep ws rs1 B
       | Some p \<Rightarrow> regions_rep ws rs1 (insert p B) \<and> p \<notin> B \<and> unat sz \<le> snd p" by blast
  from alloc_range_eq_ok[OF a(1)] obtain ic where ic: "alloc_buffer rs sz = ok (ic, rs1)"
    "res = map_option (\<lambda>(i, c). (S (rs1 ! i) c, Z (rs1 ! i) c)) ic" by blast
  show thesis
  proof (cases ic)
    case (Some c)
    have "length rs1 = length rs"
      using r(1) a(2) by (cases res) (auto simp: regions_rep_def dest!: regions_inv_length)
    then have "pthread_alloc host h sz = ok (res, (ws, rs1))"
      using Some ic by (simp add: pthread_alloc_def allocate_chunk_def h Let_def)
    moreover have "pthread_rep M (ws, rs1) (case res of None \<Rightarrow> B | Some p \<Rightarrow> insert p B)"
      using a(2) r(2) by (auto simp: pthread_rep_def split: option.splits)
    ultimately show thesis by (rule served)
  next
    case None
    let ?a = "host ws sz"
    have f: "region_malloc ?a" "large_space ?a = NULL" "small_space ?a \<noteq> NULL"
      using True by (simp_all add: falls_back_def h)
    have "given ws (small_space ?a) sz" using assms(1) sz by (simp add: host_ok_def)
    then have g: "128 dvd unat (small_space ?a)" "unat (small_space ?a) + unat sz \<le> 0xC0000000"
      using f(3) by (simp_all add: given_def)
    have s: "0 < sz" "unat sz \<le> M" using sz by (simp_all add: pthread_fits_def)
    have "allocate_chunk ?a 128 sz rs = throw AssertFail"
      by (rule exact_region_fails[OF ic(1)[unfolded None], where p = "small_space ?a"])
        (use f g s assms(2) in simp_all)
    then have "pthread_alloc host h sz = throw AssertFail" by (simp add: pthread_alloc_def h Let_def)
    then show thesis using True by (rule failed)
  qed
qed

lemma pthread_serve_cases:
  assumes "host_ok M host" and "M < 2 ^ 27"
  shows "pthread_rep M h B \<Longrightarrow> \<forall>sz. Request sz \<in> set qs \<longrightarrow> pthread_fits M sz \<Longrightarrow>
    (\<exists>h' B'. serve (pthread_alloc host) (pthread_release order) h B qs = ok (h', B') \<and> pthread_rep M h' B') \<or>
    (serve (pthread_alloc host) (pthread_release order) h B qs = throw AssertFail \<and>
      (\<exists>ws sz. Request sz \<in> set qs \<and> falls_back (host ws sz)))"
proof (induction qs arbitrary: h B)
  case (Cons q qs)
  show ?case
  proof (cases q)
    case (Request sz)
    then have "pthread_fits M sz" using Cons.prems(2) by simp
    from assms Cons.prems(1) this show ?thesis
    proof (cases rule: pthread_alloc_cases)
      case (served res h')
      from Cons.IH[OF served(2)] Cons.prems(2) served(1) show ?thesis by (auto simp: Request)
    next
      case failed
      then show ?thesis by (auto simp: Request)
    qed
  next
    case (Release a)
    show ?thesis
    proof (cases "unat a \<in> fst ` B")
      case True
      then obtain z where z: "(unat a, z) \<in> B" by force
      from pthread_free_law[OF Cons.prems(1) z, of order] obtain h'
        where f: "pthread_release order h a = ok (True, h')" "pthread_rep M h' (B - {(unat a, z)})" by blast
      have "{p \<in> B. fst p \<noteq> unat a} = B - {(unat a, z)}"
        using pthread.block_at[OF Cons.prems(1) z] by simp
      with Cons.IH[OF f(2)] Cons.prems(2) f(1) True show ?thesis by (simp add: Release)
    next
      case False
      with Cons.IH[OF Cons.prems(1)] Cons.prems(2) show ?thesis by (simp add: Release)
    qed
  qed
qed auto

text \<open>
  C47: Any sequence of requests and releases of live buffers on a fresh pthread device, each request
  positive and at most \<open>M\<close> bytes for some \<open>M\<close> below 128 MB, on a host whose \<open>posix_memalign\<close> gives
  null or aligned memory below 3 GB apart from the regions it gave before. It is served, each buffer
  aligned to 128 bytes and no two live buffers overlapping; or it ends in a failed assertion, and
  then for some request the host had no room for the large region and gave the bare size instead.
\<close>

theorem pthread_serves_clients:
  assumes "host_ok M host" and "M < 2 ^ 27" and "\<forall>sz. Request sz \<in> set qs \<longrightarrow> pthread_fits M sz"
  shows "(\<exists>h B. serve (pthread_alloc host) (pthread_release order) ([], []) {} qs = ok (h, B) \<and>
      (\<forall>p\<in>B. 128 dvd fst p \<and> 0 < snd p) \<and> (\<forall>p\<in>B. \<forall>q\<in>B. p \<noteq> q \<longrightarrow> apart p q)) \<or>
    (serve (pthread_alloc host) (pthread_release order) ([], []) {} qs = throw AssertFail \<and>
      (\<exists>ws sz. Request sz \<in> set qs \<and> falls_back (host ws sz)))"
proof -
  have rep: "pthread_rep M ([], []) {}" by (simp add: pthread_rep_def regions_rep_def pthread_windows_def)
  have "(\<forall>p\<in>B. 128 dvd fst p \<and> 0 < snd p) \<and> (\<forall>p\<in>B. \<forall>q\<in>B. p \<noteq> q \<longrightarrow> apart p q)" if "pthread_rep M h B" for h B
    using pthread.rep_good[OF that] pthread.rep_apart[OF that] by (fastforce simp: aligned_block_def)
  then show ?thesis using pthread_serve_cases[OF assms(1,2) rep assms(3), of order] by blast
qed

text \<open>A host with room for one region at 256 MB.\<close>

definition one_region_host :: "window list \<Rightarrow> size_t \<Rightarrow> host_answers" where
  "one_region_host ws sz = \<lparr>region_malloc = True, region_content = blank_region,
     large_space = (if ws = [] then 0x10000000 else NULL), small_space = NULL\<rparr>"

lemma one_region_host_ok: "host_ok 1048576 one_region_host"
proof -
  have "unat (region_size sz) \<le> 0x10000000" if "pthread_fits 1048576 sz" for sz
  proof -
    have le: "unat sz \<le> 1048576" using that by (simp add: pthread_fits_def)
    then have "unat (sz + 0x6400000) = unat sz + 0x6400000" by (intro unat_eqI) simp_all
    with le have "sz + 0x6400000 \<le> 0x10000000" "sz \<le> 0x10000000" by (simp_all add: word_le_nat_alt)
    then have "region_size sz \<le> 0x10000000" by (simp add: region_size_def min.coboundedI1)
    then show ?thesis by (simp add: word_le_nat_alt)
  qed
  then show ?thesis by (fastforce simp: host_ok_def given_def one_region_host_def)
qed

lemma one_region_host_never: "never_falls_back one_region_host"
  by (simp add: never_falls_back_def falls_back_def one_region_host_def)

lemma pthread_serves_clients_witness:
  "\<exists>h B. serve (pthread_alloc one_region_host) (pthread_release Next_first) ([], []) {}
      [Request 4096, Request 100, Release 0x10000000, Request 64] = ok (h, B) \<and>
    (\<forall>p\<in>B. 128 dvd fst p \<and> 0 < snd p) \<and> (\<forall>p\<in>B. \<forall>q\<in>B. p \<noteq> q \<longrightarrow> apart p q)"
proof -
  have "\<forall>sz. Request sz \<in> set [Request 4096, Request 100, Release 0x10000000, Request 64] \<longrightarrow> pthread_fits 1048576 sz"
    by (auto simp: pthread_fits_def)
  from pthread_serves_clients[OF one_region_host_ok _ this, of Next_first] show ?thesis
    using one_region_host_never by (simp add: never_falls_back_def)
qed

lemma region_size_128MB: "region_size 0x8000000 = 0x8000000"
  by code_simp

lemma exact_region_fails_witness:
  "allocate_chunk \<lparr>region_malloc = True, region_content = blank_region,
     large_space = 0x10000000, small_space = NULL\<rparr> 128 0x8000000 [] = throw AssertFail"
  by (rule exact_region_fails[where p = "0x10000000"]) (simp_all add: region_size_128MB)

end
