(* ===== verification/Pthread_Run.thy ===== *)
theory Pthread_Run
  imports Pthread_Alloc "HOL-Library.Multiset" "HOL-Library.Signed_Division"
begin

text \<open>
  Running a kernel on the host's cores (\<^verbatim>\<open>lib/CL/devices/basic/basic.c\<close> and
  \<^verbatim>\<open>lib/CL/devices/pthread/pthread.c\<close>): the work-groups of the launch, how the pthread device
  hands them to its threads, and how a thread sets up and cleans up the arguments of the kernel.
  Every test of the host for memory for a pointer (\<^verbatim>\<open>malloc (sizeof (void *))\<close>) succeeds here.
\<close>

section \<open>The work-groups of a launch\<close>

type_synonym group = "u32 \<times> u32 \<times> u32"

definition ids :: "nat \<Rightarrow> nat \<Rightarrow> u32 list" where
  "ids a b = map of_nat [a..<b]"

definition groups_over :: "u32 list \<Rightarrow> u32 \<Rightarrow> u32 \<Rightarrow> group list" where
  "groups_over xs ny nz =
     concat (map (\<lambda>z. concat (map (\<lambda>y. map (\<lambda>x. (x, y, z)) xs) (ids 0 (unat ny)))) (ids 0 (unat nz)))"

text \<open>The work-groups \<open>pocl_basic_run\<close> runs, in its order.\<close>

definition basic_groups :: "u32 \<Rightarrow> u32 \<Rightarrow> u32 \<Rightarrow> group list" where
  "basic_groups nx ny nz = groups_over (ids 0 (unat nx)) ny nz"

text \<open>The work-groups of the thread for the groups from \<open>first_gid_x\<close> to \<open>last_gid_x\<close>.\<close>

definition thread_groups :: "int \<times> int \<Rightarrow> u32 \<Rightarrow> u32 \<Rightarrow> group list" where
  "thread_groups span ny nz = (case span of (first_gid_x, last_gid_x) \<Rightarrow>
     groups_over (ids (nat first_gid_x) (nat last_gid_x + 1)) ny nz)"

section \<open>The threads of \<open>pocl_pthread_run\<close>\<close>

text \<open>\<open>env\<close> is the number in the environment variable for the thread count, if there is one.\<close>

definition get_max_thread_count :: "int option \<Rightarrow> u32 \<Rightarrow> int" where
  "get_max_thread_count env max_compute_units =
     (case env of Some n \<Rightarrow> n
      | None \<Rightarrow> if max_compute_units = 0 then 8 else sint max_compute_units)"

text \<open>The loop that creates the threads, with \<open>k\<close> threads to go.\<close>

fun create_threads :: "nat \<Rightarrow> int \<Rightarrow> int \<Rightarrow> int \<Rightarrow> int \<Rightarrow> (int \<times> int) list" where
  "create_threads 0 wgs leftover first_gid_x last_gid_x = []"
| "create_threads (Suc k) wgs leftover first_gid_x last_gid_x =
     (let l = (if k = 0 then last_gid_x + leftover else last_gid_x)
      in (first_gid_x, l) # create_threads k wgs leftover (first_gid_x + wgs) (l + wgs))"

text \<open>
  The spans of the threads, and the static \<open>max_threads\<close>, which is zero until the first launch. A
  negative number of threads makes the array of thread handles impossible to allocate.
\<close>

definition pocl_pthread_run :: "int option \<Rightarrow> u32 \<Rightarrow> u32 \<Rightarrow> int \<Rightarrow> ((int \<times> int) list \<times> int) prog" where
  "pocl_pthread_run env max_compute_units num_groups0 max_threads =
     (let num_groups_x = sint num_groups0;
          max_threads' = (if max_threads = 0 then get_max_thread_count env max_compute_units else max_threads);
          num_threads = min max_threads' num_groups_x
      in if num_threads = 0 then throw DivByZero
         else let wgs_per_thread = num_groups_x sdiv num_threads;
                  leftover_wgs = num_groups_x - num_threads * wgs_per_thread
              in if num_threads < 0 then throw NullDeref
                 else ok (create_threads (nat num_threads) wgs_per_thread leftover_wgs 0 (wgs_per_thread - 1),
                          max_threads'))"

section \<open>Interleavings\<close>

text \<open>What the threads do together: at each step one of them does its next action.\<close>

inductive interleaved :: "'a list list \<Rightarrow> 'a list \<Rightarrow> bool" where
  none: "\<forall>xs\<in>set xss. xs = [] \<Longrightarrow> interleaved xss []"
| step: "i < length xss \<Longrightarrow> xss ! i = x # xs \<Longrightarrow> interleaved (xss[i := xs]) ys \<Longrightarrow> interleaved xss (x # ys)"

inductive_simps interleaved_Nil: "interleaved xss []"
inductive_cases interleaved_ConsE: "interleaved xss (y # ys)"

lemma interleaved_mset: "interleaved xss ys \<Longrightarrow> mset ys = mset (concat xss)"
proof (induction rule: interleaved.induct)
  case (none xss)
  then have "concat xss = []" by simp
  then show ?case by simp
next
  case (step i xss x xs ys)
  have "mset (concat xss) = add_mset x (mset (concat (xss[i := xs])))"
    using step(1,2)
    by (subst (1) id_take_nth_drop[OF step(1)], subst upd_conv_take_nth_drop[OF step(1)]) simp
  then show ?case using step(4) by simp
qed

lemma interleaved_sequence: "interleaved xss (concat xss)"
proof (induction "concat xss" arbitrary: xss)
  case Nil
  then show ?case by (metis concat_eq_Nil_conv interleaved.none)
next
  case (Cons x ys)
  have "\<exists>i xs. i < length xss \<and> xss ! i = x # xs \<and> concat (xss[i := xs]) = ys"
    using Cons(2)
  proof (induction xss)
    case (Cons zs zss)
    show ?case
    proof (cases zs)
      case Nil
      with Cons obtain i xs where "i < length zss" "zss ! i = x # xs" "concat (zss[i := xs]) = ys" by auto
      with Nil show ?thesis by (intro exI[of _ "Suc i"] exI[of _ xs]) simp
    next
      case (Cons z zs')
      with Cons.prems show ?thesis by (intro exI[of _ 0] exI[of _ zs']) simp
    qed
  qed simp
  then obtain i xs where i: "i < length xss" "xss ! i = x # xs" "concat (xss[i := xs]) = ys" by blast
  from Cons(1)[OF i(3)[symmetric]] i have "interleaved xss (x # ys)" by (intro interleaved.step) simp_all
  with Cons(2) show ?case by simp
qed

section \<open>The spans of the threads cover the groups\<close>

lemma mset_concat_map: "mset (concat (map f zs)) = (\<Sum>z\<in>#mset zs. mset (f z))"
  by (induction zs) auto

lemma groups_over_mset:
  "mset (groups_over (xs @ ys) ny nz) = mset (groups_over xs ny nz) + mset (groups_over ys ny nz)"
  by (simp add: groups_over_def mset_concat_map sum_mset.distrib)

lemma groups_over_concat:
  "mset (concat (map (\<lambda>xs. groups_over xs ny nz) xss)) = mset (groups_over (concat xss) ny nz)"
  by (induction xss) (simp_all add: groups_over_mset, simp add: groups_over_def)

lemma create_threads_cover:
  assumes "0 < wgs" and "0 \<le> leftover" and "0 \<le> first"
  shows "concat (map (\<lambda>(f, l). ids (nat f) (nat l + 1)) (create_threads (Suc k) wgs leftover first (first + wgs - 1))) =
    ids (nat first) (nat (first + int (Suc k) * wgs + leftover))"
  using assms(3)
proof (induction k arbitrary: first)
  case 0
  have "nat (first + wgs - 1 + leftover) + 1 = nat (first + wgs + leftover)" using assms 0 by simp
  then show ?case by simp
next
  case (Suc k)
  have mid: "ids (nat a) (nat b) @ ids (nat b) (nat c) = ids (nat a) (nat c)" if "a \<le> b" "b \<le> c" for a b c
    unfolding ids_def map_append[symmetric] using that nat_mono
    by (metis le_add_diff_inverse upt_add_eq_append)
  let ?m = "first + wgs" and ?e = "first + int (Suc (Suc k)) * wgs + leftover"
  have cut: "nat (first + wgs - 1) + 1 = nat ?m" using assms(1) Suc.prems by simp
  have split: "create_threads (Suc (Suc k)) wgs leftover first (first + wgs - 1) =
      (first, first + wgs - 1) # create_threads (Suc k) wgs leftover ?m (?m + wgs - 1)"
    using create_threads.simps(2)[of "Suc k" wgs leftover first "first + wgs - 1"]
    by (simp del: create_threads.simps add: algebra_simps Let_def)
  have e: "?m + int (Suc k) * wgs + leftover = ?e" by (simp add: algebra_simps)
  have IH:
    "concat (map (\<lambda>(f, l). ids (nat f) (nat l + 1)) (create_threads (Suc k) wgs leftover ?m (?m + wgs - 1))) =
     ids (nat ?m) (nat ?e)"
    by (rule Suc.IH[of ?m, unfolded e]) (use assms(1) Suc.prems in simp)
  have "?m \<le> ?e" using assms(1,2) by (simp add: algebra_simps)
  with assms(1) have "ids (nat first) (nat ?m) @ ids (nat ?m) (nat ?e) = ids (nat first) (nat ?e)"
    by (intro mid) simp_all
  then show ?case unfolding split by (simp only: list.map concat.simps prod.case cut IH)
qed

section \<open>The arguments of the kernel\<close>

text \<open>
  What \<open>arguments[i]\<close> is: a cell from \<open>malloc\<close> that holds a pointer, the cell of the buffer object
  that holds the device pointer, or the stored value itself. An argument of the kernel is local
  memory of some size, a buffer (with its device pointer, or the null value), an image, a sampler
  or a plain value.
\<close>

datatype arg_slot = Cell addr | Device_cell addr | Stored
datatype kernel_arg = Local_arg size_t | Pointer_arg "addr option" | Image_arg | Sampler_arg | Plain_arg

text \<open>The sizes of \<open>dev_image_t\<close> and \<open>dev_sampler_t\<close> on the target.\<close>

abbreviation sizeof_dev_image_t :: size_t where "sizeof_dev_image_t \<equiv> 52"
abbreviation sizeof_dev_sampler_t :: size_t where "sizeof_dev_sampler_t \<equiv> 4"

text \<open>\<open>mal\<close> allocates device memory, null when there is none.\<close>

definition setup_argument :: "('h \<Rightarrow> size_t \<Rightarrow> (addr \<times> 'h) prog) \<Rightarrow> kernel_arg \<Rightarrow> 'h \<Rightarrow> (arg_slot \<times> 'h) prog" where
  "setup_argument mal al h =
     (case al of
        Local_arg sz \<Rightarrow> andthen (mal h sz) (\<lambda>(p, h'). ok (Cell p, h'))
      | Pointer_arg None \<Rightarrow> ok (Cell NULL, h)
      | Pointer_arg (Some p) \<Rightarrow> ok (Device_cell p, h)
      | Image_arg \<Rightarrow> andthen (mal h sizeof_dev_image_t) (\<lambda>(p, h').
          if p = NULL then throw NullDeref else ok (Cell p, h'))
      | Sampler_arg \<Rightarrow> andthen (mal h sizeof_dev_sampler_t) (\<lambda>(p, h').
          if p = NULL then throw NullDeref else ok (Cell p, h'))
      | Plain_arg \<Rightarrow> ok (Stored, h))"

fun setup_arguments :: "('h \<Rightarrow> size_t \<Rightarrow> (addr \<times> 'h) prog) \<Rightarrow> kernel_arg list \<Rightarrow> 'h \<Rightarrow> (arg_slot list \<times> 'h) prog" where
  "setup_arguments mal [] h = ok ([], h)"
| "setup_arguments mal (al # als) h =
     andthen (setup_argument mal al h) (\<lambda>(x, h1).
     andthen (setup_arguments mal als h1) (\<lambda>(xs, h2). ok (x # xs, h2)))"

text \<open>A free of the cell inside a buffer object is a free of memory \<open>malloc\<close> did not return.\<close>

fun free_cell :: "arg_slot \<Rightarrow> 'h \<Rightarrow> 'h prog" where
  "free_cell (Cell p) h = ok h"
| "free_cell _ h = throw BadFree"

fun cell_content :: "arg_slot \<Rightarrow> addr" where
  "cell_content (Cell p) = p"
| "cell_content (Device_cell p) = p"
| "cell_content Stored = NULL"

definition cleanup_argument :: "('h \<Rightarrow> addr \<Rightarrow> 'h prog) \<Rightarrow> kernel_arg \<times> arg_slot \<Rightarrow> 'h \<Rightarrow> 'h prog" where
  "cleanup_argument fre a h =
     (case a of (al, x) \<Rightarrow> (case al of
        Local_arg sz \<Rightarrow> andthen (fre h (cell_content x)) (free_cell x)
      | Image_arg \<Rightarrow> andthen (fre h (cell_content x)) (free_cell x)
      | Sampler_arg \<Rightarrow> free_cell x h
      | Pointer_arg v \<Rightarrow> if cell_content x = NULL then free_cell x h else ok h
      | Plain_arg \<Rightarrow> ok h))"

fun cleanup_arguments :: "('h \<Rightarrow> addr \<Rightarrow> 'h prog) \<Rightarrow> (kernel_arg \<times> arg_slot) list \<Rightarrow> 'h \<Rightarrow> 'h prog" where
  "cleanup_arguments fre [] h = ok h"
| "cleanup_arguments fre (a # as) h = andthen (cleanup_argument fre a h) (cleanup_arguments fre as)"

text \<open>
  A thread's run: the arguments with the automatic local buffers behind them, the work-groups of
  its span, and the clean-up. The result is the groups it ran, with the slots they were given.
\<close>

definition workgroup_thread ::
  "('h \<Rightarrow> size_t \<Rightarrow> (addr \<times> 'h) prog) \<Rightarrow> ('h \<Rightarrow> addr \<Rightarrow> 'h prog) \<Rightarrow> kernel_arg list \<Rightarrow> size_t list \<Rightarrow>
   int \<times> int \<Rightarrow> u32 \<Rightarrow> u32 \<Rightarrow> 'h \<Rightarrow> (arg_slot list \<times> group list \<times> 'h) prog" where
  "workgroup_thread mal fre args locals span ny nz h =
     (let als = args @ map Local_arg locals in
      andthen (setup_arguments mal als h) (\<lambda>(xs, h1).
      andthen (cleanup_arguments fre (zip als xs) h1) (\<lambda>h2. ok (xs, thread_groups span ny nz, h2))))"

text \<open>\<open>pocl_basic_run\<close> is the same with one span, for its own allocator.\<close>

definition pocl_basic_run ::
  "('h \<Rightarrow> size_t \<Rightarrow> (addr \<times> 'h) prog) \<Rightarrow> ('h \<Rightarrow> addr \<Rightarrow> 'h prog) \<Rightarrow> kernel_arg list \<Rightarrow> size_t list \<Rightarrow>
   u32 \<Rightarrow> u32 \<Rightarrow> u32 \<Rightarrow> 'h \<Rightarrow> (arg_slot list \<times> group list \<times> 'h) prog" where
  "pocl_basic_run mal fre args locals nx ny nz h =
     (let als = args @ map Local_arg locals in
      andthen (setup_arguments mal als h) (\<lambda>(xs, h1).
      andthen (cleanup_arguments fre (zip als xs) h1) (\<lambda>h2. ok (xs, basic_groups nx ny nz, h2))))"

section \<open>Clients of an allocator\<close>

text \<open>Device memory as addresses: the pointer to a block is its first address.\<close>

definition block_pointer :: "('h \<Rightarrow> size_t \<Rightarrow> ((nat \<times> nat) option \<times> 'h) prog) \<Rightarrow> 'h \<Rightarrow> size_t \<Rightarrow> (addr \<times> 'h) prog" where
  "block_pointer al h sz = andthen (al h sz) (\<lambda>(res, h'). ok (case res of None \<Rightarrow> NULL | Some (a, z) \<Rightarrow> of_nat a, h'))"

definition release_pointer :: "('h \<Rightarrow> u32 \<Rightarrow> (bool \<times> 'h) prog) \<Rightarrow> 'h \<Rightarrow> addr \<Rightarrow> 'h prog" where
  "release_pointer fr h p = andthen (fr h p) (\<lambda>(found, h'). if found then ok h' else throw AssertFail)"

text \<open>The blocks behind the slots: those the clean-up releases and those of the samplers.\<close>

fun slots_rep :: "kernel_arg list \<Rightarrow> arg_slot list \<Rightarrow> (nat \<times> nat) list \<Rightarrow> (nat \<times> nat) list \<Rightarrow> bool" where
  "slots_rep [] [] T L \<longleftrightarrow> T = [] \<and> L = []"
| "slots_rep (al # als) (x # xs) T L \<longleftrightarrow>
     (case al of
        Local_arg sz \<Rightarrow> \<exists>p b T'. x = Cell p \<and> T = b # T' \<and> fst b = unat p \<and> slots_rep als xs T' L
      | Image_arg \<Rightarrow> \<exists>p b T'. x = Cell p \<and> T = b # T' \<and> fst b = unat p \<and> slots_rep als xs T' L
      | Sampler_arg \<Rightarrow> \<exists>p b L'. x = Cell p \<and> L = b # L' \<and> fst b = unat p \<and> slots_rep als xs T L'
      | Pointer_arg v \<Rightarrow> x = (case v of None \<Rightarrow> Cell NULL | Some p \<Rightarrow> Device_cell p) \<and> slots_rep als xs T L
      | Plain_arg \<Rightarrow> x = Stored \<and> slots_rep als xs T L)"
| "slots_rep _ _ T L \<longleftrightarrow> False"

definition granted :: "kernel_arg list \<Rightarrow> arg_slot list \<Rightarrow> bool" where
  "granted als xs \<longleftrightarrow> (\<forall>(al, x) \<in> set (zip als xs). (\<exists>sz. al = Local_arg sz) \<longrightarrow> cell_content x \<noteq> NULL)"

lemma granted_simps [simp]:
  "granted [] []"
  "granted (al # als) (x # xs) \<longleftrightarrow> ((\<exists>sz. al = Local_arg sz) \<longrightarrow> cell_content x \<noteq> NULL) \<and> granted als xs"
  by (auto simp: granted_def)

fun needs :: "kernel_arg \<Rightarrow> size_t option" where
  "needs (Local_arg sz) = Some sz"
| "needs Image_arg = Some sizeof_dev_image_t"
| "needs Sampler_arg = Some sizeof_dev_sampler_t"
| "needs _ = None"

lemma slots_samplers: "slots_rep als xs T L \<Longrightarrow> length L = length (filter (\<lambda>al. al = Sampler_arg) als)"
  by (induction als xs T L rule: slots_rep.induct) (auto split: kernel_arg.splits)

text \<open>What setting up the arguments leaves, on the blocks \<open>B\<close> that were live before.\<close>

definition setup_spec ::
  "('h \<Rightarrow> (nat \<times> nat) set \<Rightarrow> bool) \<Rightarrow> (nat \<times> nat) set \<Rightarrow> kernel_arg list \<Rightarrow> (arg_slot list \<times> 'h) prog \<Rightarrow> bool" where
  "setup_spec rep B als r \<longleftrightarrow> r = throw NullDeref \<or>
     (\<exists>xs h'. r = ok (xs, h') \<and> length xs = length als \<and>
        (granted als xs \<longrightarrow> (\<exists>T L. slots_rep als xs T L \<and> rep h' (B \<union> set T \<union> set L) \<and> distinct (T @ L) \<and>
           set (T @ L) \<inter> B = {})))"

lemma setup_spec_block:
  assumes head: "setup_argument m a h = ok (Cell p, h1)" and kind: "needs a \<noteq> None"
    and b: "fst b = unat p" "b \<notin> B" and tail: "setup_spec rep (insert b B) als (setup_arguments m als h1)"
  shows "setup_spec rep B (a # als) (setup_arguments m (a # als) h)"
proof -
  have key: "setup_spec rep B (a # als) (ok (Cell p # xs, h'))"
    if "length xs = length als" and g: "granted als xs \<longrightarrow> (\<exists>T L. slots_rep als xs T L \<and>
      rep h' (insert b B \<union> set T \<union> set L) \<and> distinct (T @ L) \<and> set (T @ L) \<inter> insert b B = {})" for xs h'
  proof (cases "granted als xs")
    case True
    with g obtain T L where 1: "slots_rep als xs T L" "rep h' (insert b B \<union> set T \<union> set L)"
      "distinct (T @ L)" "set (T @ L) \<inter> insert b B = {}" by blast
    have eq: "B \<union> set (b # T) \<union> set L = insert b B \<union> set T \<union> set L"
      "B \<union> set T \<union> set (b # L) = insert b B \<union> set T \<union> set L" by auto
    have "slots_rep (a # als) (Cell p # xs) (b # T) L \<or> slots_rep (a # als) (Cell p # xs) T (b # L)"
      using 1(1) b(1) kind by (cases a) auto
    then show ?thesis
    proof
      assume "slots_rep (a # als) (Cell p # xs) (b # T) L"
      moreover have "rep h' (B \<union> set (b # T) \<union> set L)" unfolding eq by (rule 1(2))
      ultimately show ?thesis unfolding setup_spec_def using 1(3,4) b(2) that(1)
        by (intro disjI2 exI[of _ "Cell p # xs"] exI[of _ h'] conjI impI exI[of _ "b # T"] exI[of _ L]) auto
    next
      assume "slots_rep (a # als) (Cell p # xs) T (b # L)"
      moreover have "rep h' (B \<union> set T \<union> set (b # L))" unfolding eq by (rule 1(2))
      ultimately show ?thesis unfolding setup_spec_def using 1(3,4) b(2) that(1)
        by (intro disjI2 exI[of _ "Cell p # xs"] exI[of _ h'] conjI impI exI[of _ T] exI[of _ "b # L"]) auto
    qed
  qed (use that(1) in \<open>auto simp: setup_spec_def\<close>)
  from tail consider "setup_arguments m als h1 = throw NullDeref"
    | xs h' where "setup_arguments m als h1 = ok (xs, h')" "length xs = length als"
        "granted als xs \<longrightarrow> (\<exists>T L. slots_rep als xs T L \<and>
          rep h' (insert b B \<union> set T \<union> set L) \<and> distinct (T @ L) \<and> set (T @ L) \<inter> insert b B = {})"
    unfolding setup_spec_def by blast
  then show ?thesis
  proof cases
    case 1
    then show ?thesis using head by (simp add: setup_spec_def)
  next
    case (2 xs h')
    then have "setup_arguments m (a # als) h = ok (Cell p # xs, h')" using head by simp
    then show ?thesis using key[OF 2(2,3)] by simp
  qed
qed

lemma setup_spec_plain:
  assumes head: "setup_argument m a h = ok (x, h)" and kind: "\<forall>T L xs. slots_rep als xs T L \<longrightarrow> slots_rep (a # als) (x # xs) T L"
    and tail: "setup_spec rep B als (setup_arguments m als h)"
  shows "setup_spec rep B (a # als) (setup_arguments m (a # als) h)"
proof -
  from tail consider "setup_arguments m als h = throw NullDeref"
    | xs h' where "setup_arguments m als h = ok (xs, h')" "length xs = length als"
        "granted als xs \<longrightarrow> (\<exists>T L. slots_rep als xs T L \<and>
          rep h' (B \<union> set T \<union> set L) \<and> distinct (T @ L) \<and> set (T @ L) \<inter> B = {})"
    unfolding setup_spec_def by blast
  then show ?thesis
  proof cases
    case 1
    then show ?thesis using head by (simp add: setup_spec_def)
  next
    case (2 xs h')
    then have "granted (a # als) (x # xs) \<longrightarrow> (\<exists>T L. slots_rep (a # als) (x # xs) T L \<and>
        rep h' (B \<union> set T \<union> set L) \<and> distinct (T @ L) \<and> set (T @ L) \<inter> B = {})"
      using kind unfolding granted_simps by blast
    moreover have "setup_arguments m (a # als) h = ok (x # xs, h')" using head 2(1) by simp
    ultimately show ?thesis using 2(2) by (auto simp: setup_spec_def)
  qed
qed

lemma setup_spec_refused:
  assumes head: "setup_argument m a h = ok (x, h1)" and kind: "\<forall>xs. \<not> granted (a # als) (x # xs)"
    and tail: "setup_spec rep B' als (setup_arguments m als h1)"
  shows "setup_spec rep B (a # als) (setup_arguments m (a # als) h)"
  using assms unfolding setup_spec_def by auto

locale addressed_allocator = allocator rep al fr fits good
  for rep :: "'h \<Rightarrow> (nat \<times> nat) set \<Rightarrow> bool" and al fr fits good +
  assumes good_address: "good p \<Longrightarrow> 0 < fst p \<and> fst p < 2 ^ 32"
begin

lemma block_pointer_law:
  assumes "rep h B" and "fits sz"
  obtains (none) h' where "block_pointer al h sz = ok (NULL, h')" and "rep h' B"
  | (block) p b h' where "block_pointer al h sz = ok (p, h')" and "rep h' (insert b B)" and "b \<notin> B"
      and "fst b = unat p" and "p \<noteq> NULL"
proof -
  from alloc_law[OF assms] obtain res h' where 1: "al h sz = ok (res, h')"
    "case res of None \<Rightarrow> rep h' B | Some p \<Rightarrow> rep h' (insert p B) \<and> p \<notin> B \<and> unat sz \<le> snd p" by blast
  show thesis
  proof (cases res)
    case None
    with 1 show thesis by (intro none[of h']) (simp_all add: block_pointer_def)
  next
    case (Some b)
    with 1 have r: "rep h' (insert b B)" "b \<notin> B" by simp_all
    have a: "0 < fst b" "fst b < 2 ^ 32" using good_address[OF rep_good[OF r(1), of b]] by simp_all
    then have u: "unat (of_nat (fst b) :: addr) = fst b" by (simp add: unat_of_nat)
    with a(1) have "(of_nat (fst b) :: addr) \<noteq> NULL" by (metis unat_0 less_numeral_extra(3))
    with 1 Some r u show thesis
      by (intro block[of "of_nat (fst b)" h' b]) (simp_all add: block_pointer_def split: prod.splits)
  qed
qed

lemma release_pointer_law:
  assumes "rep h B" and "b \<in> B" and "fst b = unat p"
  obtains h' where "release_pointer fr h p = ok h'" and "rep h' (B - {b})"
proof -
  have b: "b = (unat p, snd b)" using assms(3) by (simp add: prod_eq_iff)
  with assms(2) have "(unat p, snd b) \<in> B" by metis
  from free_law[OF assms(1) this] b show thesis by (auto simp: release_pointer_def intro: that)
qed

lemma setup_arguments_law:
  "rep h B \<Longrightarrow> \<forall>a\<in>set als. case needs a of None \<Rightarrow> True | Some sz \<Rightarrow> fits sz \<Longrightarrow>
     setup_spec rep B als (setup_arguments (block_pointer al) als h)"
proof (induction als arbitrary: h B)
  case Nil
  then show ?case by (simp add: setup_spec_def)
next
  case (Cons a als)
  have IH: "rep h1 B1 \<Longrightarrow> setup_spec rep B1 als (setup_arguments (block_pointer al) als h1)" for h1 B1
    using Cons by simp
  show ?case
  proof (cases "needs a")
    case None
    define x where "x = (case a of Pointer_arg (Some p) \<Rightarrow> Device_cell p | Pointer_arg None \<Rightarrow> Cell NULL | _ \<Rightarrow> Stored)"
    have x: "setup_argument (block_pointer al) a h = ok (x, h)"
        "\<forall>T L xs. slots_rep als xs T L \<longrightarrow> slots_rep (a # als) (x # xs) T L"
      using None by (cases a; auto simp: x_def setup_argument_def split: option.splits)+
    show ?thesis by (rule setup_spec_plain[OF x IH[OF Cons.prems(1)]])
  next
    case (Some sz)
    then have "fits sz" using Cons.prems(2) by simp
    from Cons.prems(1) this show ?thesis
    proof (cases rule: block_pointer_law)
      case (none h1)
      show ?thesis
      proof (cases "\<exists>z. a = Local_arg z")
        case True
        with none Some have "setup_argument (block_pointer al) a h = ok (Cell NULL, h1)"
          by (auto simp: setup_argument_def)
        then show ?thesis by (rule setup_spec_refused[OF _ _ IH[OF none(2)]]) (use True in auto)
      next
        case False
        with none Some have "setup_argument (block_pointer al) a h = throw NullDeref"
          by (cases a) (auto simp: setup_argument_def)
        then show ?thesis by (simp add: setup_spec_def)
      qed
    next
      case (block p b h1)
      then have "setup_argument (block_pointer al) a h = ok (Cell p, h1)"
        using Some by (cases a) (auto simp: setup_argument_def)
      then show ?thesis by (rule setup_spec_block[OF _ _ block(4,3) IH[OF block(2)]]) (simp add: Some)
    qed
  qed
qed

lemma cleanup_arguments_law:
  "slots_rep als xs T L \<Longrightarrow> rep h (C \<union> set T) \<Longrightarrow> distinct T \<Longrightarrow> set T \<inter> C = {} \<Longrightarrow>
   Pointer_arg (Some NULL) \<notin> set als \<Longrightarrow>
   \<exists>h'. cleanup_arguments (release_pointer fr) (zip als xs) h = ok h' \<and> rep h' C"
proof (induction als arbitrary: xs T L h)
  case Nil
  then show ?case by (cases xs) auto
next
  case (Cons a als)
  then obtain x xs' where xs: "xs = x # xs'" by (cases xs) auto
  show ?case
  proof (cases "(\<exists>z. a = Local_arg z) \<or> a = Image_arg")
    case True
    then obtain p b T' where t: "x = Cell p" "T = b # T'" "fst b = unat p" "slots_rep als xs' T' L"
      using Cons.prems(1) by (auto simp: xs)
    obtain h1 where h1: "release_pointer fr h p = ok h1" "rep h1 (C \<union> set T - {b})"
      by (rule release_pointer_law[OF Cons.prems(2) _ t(3)]) (simp add: t(2))
    have "C \<union> set T - {b} = C \<union> set T'" using Cons.prems(3,4) t(2) by auto
    with h1(2) have "rep h1 (C \<union> set T')" by simp
    from Cons.IH[OF t(4) this] Cons.prems(3-5) t(2) obtain h'
      where "cleanup_arguments (release_pointer fr) (zip als xs') h1 = ok h'" "rep h' C" by auto
    with True h1(1) t(1) show ?thesis by (auto simp: cleanup_argument_def xs)
  next
    case False
    then have "cleanup_argument (release_pointer fr) (a, x) h = ok h" and "\<exists>L'. slots_rep als xs' T L'"
      using Cons.prems(1,5) by (cases a; force simp: xs cleanup_argument_def split: option.splits)+
    with Cons.IH Cons.prems show ?thesis by (auto simp: xs)
  qed
qed

text \<open>A whole thread: everything it allocates is released, the blocks of the samplers excepted.\<close>

lemma workgroup_thread_law:
  assumes rep: "rep h B" and als: "als = args @ map Local_arg locals"
    and fit: "\<forall>a\<in>set als. case needs a of None \<Rightarrow> True | Some sz \<Rightarrow> fits sz"
    and ptrs: "Pointer_arg (Some NULL) \<notin> set args"
    and ran: "setup_arguments (block_pointer al) als h = ok (xs, h1)" and g: "granted als xs"
  obtains h' L where "workgroup_thread (block_pointer al) (release_pointer fr) args locals span ny nz h =
      ok (xs, thread_groups span ny nz, h')" and "rep h' (B \<union> set L)" and "distinct L" and "set L \<inter> B = {}"
    and "length L = length (filter (\<lambda>a. a = Sampler_arg) args)"
proof -
  from setup_arguments_law[OF rep fit] ran g obtain T L where 1: "slots_rep als xs T L"
    "rep h1 (B \<union> set T \<union> set L)" "distinct (T @ L)" "set (T @ L) \<inter> B = {}"
    by (auto simp: setup_spec_def)
  have "rep h1 ((B \<union> set L) \<union> set T)" using 1(2) by (simp add: Un_ac)
  moreover have "Pointer_arg (Some NULL) \<notin> set als" using ptrs by (auto simp: als)
  ultimately obtain h' where "cleanup_arguments (release_pointer fr) (zip als xs) h1 = ok h'"
    "rep h' (B \<union> set L)"
    using cleanup_arguments_law[OF 1(1), of h1 "B \<union> set L"] 1(3,4) by auto
  moreover have "length L = length (filter (\<lambda>a. a = Sampler_arg) args)"
    using slots_samplers[OF 1(1)] by (simp add: als filter_map o_def)
  ultimately show thesis
    using that[of h' L] ran 1(3,4) by (auto simp: workgroup_thread_def als)
qed

end

interpretation pthread_addressed: addressed_allocator "pthread_rep M" "pthread_alloc host" "pthread_release order"
    "\<lambda>sz. pthread_fits M sz \<and> host_ok M host \<and> never_falls_back host \<and> M < 2 ^ 27" aligned_block for M host order
  by unfold_locales (simp add: aligned_block_def)

end
