(* ===== verification/Pthread_Run_Props.thy ===== *)
theory Pthread_Run_Props
  imports Pthread_Run Pthread_Alloc_Props
begin

text \<open>What the host devices promise when they run a kernel.\<close>

text \<open>The spans of a launch that does not fail.\<close>

lemma pocl_pthread_run_spans:
  assumes "pocl_pthread_run env units nx m = ok (spans, m')"
  shows "concat (map (\<lambda>(f, l). ids (nat f) (nat l + 1)) spans) = ids 0 (unat nx)"
    and "spans \<noteq> []"
proof -
  define n where "n = sint nx"
  define t where "t = min (if m = 0 then get_max_thread_count env units else m) n"
  define w where "w = n sdiv t"
  have t: "0 < t" and spans: "spans = create_threads (nat t) w (n - t * w) 0 (w - 1)"
    using assms by (auto simp: pocl_pthread_run_def Let_def n_def t_def w_def split: if_splits)
  have n: "0 < n" "t \<le> n" using t by (auto simp: t_def)
  then have w: "w = n div t" using t by (simp add: w_def signed_divide_int_def)
  have "0 < w" using n t by (simp add: w pos_imp_zdiv_pos_iff)
  moreover have "0 \<le> n - t * w" using t by (simp add: w minus_mult_div_eq_mod)
  moreover obtain k where k: "nat t = Suc k" using t by (metis gr0_conv_Suc zero_less_nat_eq)
  then have "int (Suc k) = t" using t by linarith
  moreover have "nat n = unat nx" using n(1) using sint_lt[of nx] uint_sint[of nx]
    by (simp add: n_def take_bit_int_eq_self flip: nat_uint_eq)
  ultimately show "concat (map (\<lambda>(f, l). ids (nat f) (nat l + 1)) spans) = ids 0 (unat nx)"
    using create_threads_cover[of w "n - t * w" 0 k] by (simp add: spans k)
  show "spans \<noteq> []" by (simp add: spans k Let_def)
qed

text \<open>
  C48: When the run of the pthread device returns, however its threads interleave, together they run exactly the work-groups
  that the basic device runs in sequence, each of them once.
\<close>

theorem pthread_runs_all_groups:
  assumes "pocl_pthread_run env units nx m = ok (spans, m')"
    and "interleaved (map (\<lambda>span. thread_groups span ny nz) spans) gs"
  shows "mset gs = mset (basic_groups nx ny nz)"
proof -
  have eq: "map (\<lambda>span. thread_groups span ny nz) spans =
      map (\<lambda>xs. groups_over xs ny nz) (map (\<lambda>(f, l). ids (nat f) (nat l + 1)) spans)"
    by (auto simp: thread_groups_def)
  show ?thesis
    unfolding interleaved_mset[OF assms(2)] eq groups_over_concat pocl_pthread_run_spans(1)[OF assms(1)]
    by (simp add: basic_groups_def)
qed

lemma pthread_runs_all_groups_witness:
  "\<exists>gs. interleaved (map (\<lambda>span. thread_groups span 2 1) [(0, 1), (2, 3), (4, 6)]) gs \<and>
     mset gs = mset (basic_groups 7 2 1)"
proof -
  have "pocl_pthread_run None 3 7 0 = ok ([(0, 1), (2, 3), (4, 6)], 3)" by code_simp
  from pthread_runs_all_groups[OF this interleaved_sequence] interleaved_sequence show ?thesis by blast
qed

text \<open>
  C49: a thread that gets its memory runs the work-groups of its span and gives back all it allocated
  for the kernel's arguments, except one block for each sampler argument, which stays live.
\<close>

theorem thread_leaks_samplers:
  assumes "pthread_rep M h B" and "host_ok M host \<and> never_falls_back host" and "M < 2 ^ 27" and "als = args @ map Local_arg locals"
    and "\<forall>a\<in>set als. case needs a of None \<Rightarrow> True | Some sz \<Rightarrow> pthread_fits M sz"
    and "Pointer_arg (Some NULL) \<notin> set args"
    and "\<exists>h1. setup_arguments (block_pointer (pthread_alloc host)) als h = ok (xs, h1)" and "granted als xs"
  shows "\<exists>h' L. workgroup_thread (block_pointer (pthread_alloc host)) (release_pointer (pthread_release order))
      args locals span ny nz h = ok (xs, thread_groups span ny nz, h') \<and>
    pthread_rep M h' (B \<union> set L) \<and> distinct L \<and> set L \<inter> B = {} \<and>
    length L = length (filter (\<lambda>a. a = Sampler_arg) args)"
proof -
  from assms(7) obtain h1 where s: "setup_arguments (block_pointer (pthread_alloc host)) als h = ok (xs, h1)"
    by blast
  have f: "\<forall>a\<in>set als. case needs a of None \<Rightarrow> True | Some sz \<Rightarrow> pthread_fits M sz \<and> host_ok M host \<and> never_falls_back host \<and> M < 2 ^ 27"
    using assms(2,3,5) by (auto split: option.splits)
  show ?thesis
    by (rule pthread_addressed.workgroup_thread_law[OF assms(1,4) f assms(6) s assms(8)]) blast
qed

lemma thread_leaks_samplers_witness:
  "\<exists>xs h' L. workgroup_thread (block_pointer (pthread_alloc one_region_host)) (release_pointer (pthread_release Next_first))
      [Sampler_arg, Pointer_arg None, Plain_arg] [] (0, 3) 1 1 ([], []) = ok (xs, thread_groups (0, 3) 1 1, h') \<and>
    pthread_rep 1048576 h' (set L) \<and> length L = 1"
proof -
  let ?args = "[Sampler_arg, Pointer_arg None, Plain_arg]"
  have rep: "pthread_rep 1048576 ([], []) {}" by (simp add: pthread_rep_def regions_rep_def pthread_windows_def)
  have fits: "pthread_fits 1048576 4" by (simp add: pthread_fits_def)
  obtain b ws rs where b: "pthread_alloc one_region_host ([], []) 4 = ok (Some b, (ws, rs))"
    "pthread_rep 1048576 (ws, rs) {b}"
    using pthread_new_region[OF _ _ _ _ fits _ one_region_host_ok, of "[]" "[]" "[]" "{}"] rep
    by (auto simp: one_region_host_def pthread_rep_def)
  have "aligned_block b" using pthread.rep_good[OF b(2)] by simp
  then have a: "0 < fst b" "fst b < 2 ^ 32" by (simp_all add: aligned_block_def)
  then have "unat (of_nat (fst b) :: addr) = fst b" by (simp add: unat_of_nat)
  with a(1) have "(of_nat (fst b) :: addr) \<noteq> NULL" by (metis unat_0 less_numeral_extra(3))
  with b(1) have s: "\<exists>h1. setup_arguments (block_pointer (pthread_alloc one_region_host))
      (?args @ map Local_arg []) ([], []) = ok ([Cell (of_nat (fst b)), Cell NULL, Stored], h1)"
    by (cases b) (simp add: setup_argument_def block_pointer_def)
  have fit: "\<forall>a\<in>set (?args @ map Local_arg []). case needs a of None \<Rightarrow> True | Some sz \<Rightarrow> pthread_fits 1048576 sz"
    by (simp add: fits)
  from thread_leaks_samplers[OF rep conjI[OF one_region_host_ok one_region_host_never] _ refl fit _ s, of Next_first "(0, 3)" 1 1]
  show ?thesis by (fastforce simp: granted_def)
qed

end
