(* ===== verification/Cl_Buffers.thy ===== *)
theory Cl_Buffers
  imports Cl_Objects_Props Cl_Util
begin

text \<open>
  Creating contexts, buffers, sub-buffers and command queues (\<^verbatim>\<open>lib/CL/clCreateContext.c\<close>,
  \<^verbatim>\<open>lib/CL/clCreateBuffer.c\<close>, \<^verbatim>\<open>lib/CL/clCreateSubBuffer.c\<close>,
  \<^verbatim>\<open>lib/CL/clCreateCommandQueue.c\<close>).
\<close>

abbreviation CL_INVALID_DEVICE :: int where "CL_INVALID_DEVICE \<equiv> -33"
abbreviation CL_INVALID_QUEUE_PROPERTIES :: int where "CL_INVALID_QUEUE_PROPERTIES \<equiv> -35"
abbreviation CL_INVALID_HOST_PTR :: int where "CL_INVALID_HOST_PTR \<equiv> -37"
abbreviation CL_INVALID_BUFFER_SIZE :: int where "CL_INVALID_BUFFER_SIZE \<equiv> -61"

text \<open>The flags of a memory object, by the position of their bit.\<close>

abbreviation MEM_READ_WRITE :: nat where "MEM_READ_WRITE \<equiv> 0"
abbreviation MEM_WRITE_ONLY :: nat where "MEM_WRITE_ONLY \<equiv> 1"
abbreviation MEM_READ_ONLY :: nat where "MEM_READ_ONLY \<equiv> 2"
abbreviation MEM_USE_HOST_PTR :: nat where "MEM_USE_HOST_PTR \<equiv> 3"
abbreviation MEM_ALLOC_HOST_PTR :: nat where "MEM_ALLOC_HOST_PTR \<equiv> 4"
abbreviation MEM_COPY_HOST_PTR :: nat where "MEM_COPY_HOST_PTR \<equiv> 5"
abbreviation MEM_HOST_WRITE_ONLY :: nat where "MEM_HOST_WRITE_ONLY \<equiv> 7"
abbreviation MEM_HOST_READ_ONLY :: nat where "MEM_HOST_READ_ONLY \<equiv> 8"
abbreviation MEM_HOST_NO_ACCESS :: nat where "MEM_HOST_NO_ACCESS \<equiv> 9"

section \<open>Buffers\<close>

definition buffer_flags_error :: "cl_bitfield \<Rightarrow> addr \<Rightarrow> int" where
  "buffer_flags_error flags host_ptr =
     (if flags > 1023 then CL_INVALID_VALUE
      else if bit flags MEM_READ_WRITE \<and> (bit flags MEM_WRITE_ONLY \<or> bit flags MEM_READ_ONLY) then CL_INVALID_VALUE
      else if bit flags MEM_READ_ONLY \<and> bit flags MEM_WRITE_ONLY then CL_INVALID_VALUE
      else if bit flags MEM_USE_HOST_PTR \<and> (bit flags MEM_ALLOC_HOST_PTR \<or> bit flags MEM_COPY_HOST_PTR)
      then CL_INVALID_VALUE
      else if bit flags MEM_HOST_WRITE_ONLY \<and> bit flags MEM_HOST_READ_ONLY then CL_INVALID_VALUE
      else if bit flags MEM_HOST_NO_ACCESS \<and> (bit flags MEM_HOST_READ_ONLY \<or> bit flags MEM_HOST_WRITE_ONLY)
      then CL_INVALID_VALUE
      else if host_ptr = NULL
      then if bit flags MEM_USE_HOST_PTR \<or> bit flags MEM_COPY_HOST_PTR then CL_INVALID_HOST_PTR else CL_SUCCESS
      else if \<not> bit flags MEM_USE_HOST_PTR \<and> \<not> bit flags MEM_COPY_HOST_PTR then CL_INVALID_HOST_PTR
      else CL_SUCCESS)"

text \<open>
  What is not in these functions: the largest allocation of each device, the number of devices in the
  system, whether the table of device pointers can be allocated, and \<open>ops->alloc_mem_obj\<close> of each
  device, which answers a status and the changed object.
\<close>

record buffer_environment =
  max_mem_alloc_size :: "nat \<Rightarrow> 64 word"
  pocl_num_devices :: nat
  table_malloc :: bool
  alloc_mem_obj :: "nat \<Rightarrow> cl_mem \<Rightarrow> int \<times> cl_mem"

text \<open>
  The loop over the devices: every device but the first takes a reference of its own. The result
  holds the devices that were served when one fails.
\<close>

fun alloc_on_devices :: "buffer_environment \<Rightarrow> nat list \<Rightarrow> nat list \<Rightarrow> cl_mem \<Rightarrow> nat list option \<times> cl_mem" where
  "alloc_on_devices E served [] m = (None, m)"
| "alloc_on_devices E served (d # ds) m =
     (let m1 = (if served \<noteq> [] then m\<lparr>mem_refcount := mem_refcount m + 1\<rparr> else m);
          (err, m2) = alloc_mem_obj E d m1
      in if err \<noteq> CL_SUCCESS then (Some served, m2) else alloc_on_devices E (served @ [d]) ds m2)"

text \<open>\<open>ca\<close> is the object \<open>malloc\<close> gives.\<close>

definition clCreateBuffer ::
  "buffer_environment \<Rightarrow> nat option \<Rightarrow> nat option \<Rightarrow> cl_bitfield \<Rightarrow> size_t \<Rightarrow> addr \<Rightarrow> cl_state \<Rightarrow>
   (nat option \<times> int \<times> cl_state) prog" where
  "clCreateBuffer E ca context flags sz host_ptr s =
     (if sz = 0 then ok (None, CL_INVALID_BUFFER_SIZE, s)
      else case context of None \<Rightarrow> ok (None, CL_INVALID_CONTEXT, s) | Some c \<Rightarrow>
      (case ca of None \<Rightarrow> ok (None, CL_OUT_OF_HOST_MEMORY, s) | Some i \<Rightarrow>
       let flags = (if flags = 0 then 1 else flags); err = buffer_flags_error flags host_ptr
       in if err \<noteq> CL_SUCCESS then ok (None, err, s)
          else andthen (fetch (contexts s) c) (\<lambda>C.
            if \<exists>d \<in> set (ctx_devices C). ucast sz > max_mem_alloc_size E d
            then ok (None, CL_INVALID_BUFFER_SIZE, s)
            else if \<not> table_malloc E then ok (None, CL_OUT_OF_HOST_MEMORY, s)
            else
              let m = \<lparr>mem_refcount = 1, mem_type = CL_MEM_OBJECT_BUFFER, mem_flags = flags, mem_size = sz,
                       mem_host_ptr = host_ptr, map_count = 0, mem_context = c, device_ptrs = (\<lambda>d. NULL),
                       mappings = None, parent = None\<rparr>
              in case alloc_on_devices E [] (ctx_devices C) m of
                   (Some served, m') \<Rightarrow>
                     ok (None, CL_MEM_OBJECT_ALLOCATION_FAILURE,
                         s\<lparr>actions := actions s @ map (\<lambda>d. Dev_free d flags (device_ptrs m' d)) served\<rparr>)
                 | (None, m') \<Rightarrow>
                     andthen (retain_context c (put_mem i m' s)) (\<lambda>s'. ok (Some i, CL_SUCCESS, s')))))"

section \<open>Sub-buffers\<close>

text \<open>
  An entry of the table of device pointers has 8 bytes, its pointer in the last four; the table is
  allocated with the size of a pointer for each entry.
\<close>

definition clear_device_ptrs :: "nat \<Rightarrow> nat \<Rightarrow> unit prog" where
  "clear_device_ptrs n bytes = (if \<exists>i < n. bytes < 8 * i + 8 then throw OutOfBounds else ok ())"

definition sub_buffer_flags_error :: "cl_bitfield \<Rightarrow> cl_bitfield \<Rightarrow> int" where
  "sub_buffer_flags_error pf flags =
     (if bit pf MEM_WRITE_ONLY \<and> (bit flags MEM_READ_WRITE \<or> bit flags MEM_READ_ONLY) then CL_INVALID_VALUE
      else if bit pf MEM_READ_ONLY \<and> (bit flags MEM_READ_WRITE \<or> bit flags MEM_WRITE_ONLY) then CL_INVALID_VALUE
      else if bit flags MEM_USE_HOST_PTR \<or> bit flags MEM_ALLOC_HOST_PTR \<or> bit flags MEM_COPY_HOST_PTR
      then CL_INVALID_VALUE
      else if bit pf MEM_HOST_WRITE_ONLY \<and> bit flags MEM_HOST_READ_ONLY then CL_INVALID_VALUE
      else if bit pf MEM_HOST_READ_ONLY \<and> bit flags MEM_HOST_WRITE_ONLY then CL_INVALID_VALUE
      else if bit pf MEM_HOST_NO_ACCESS \<and> (bit flags MEM_HOST_READ_ONLY \<or> bit flags MEM_HOST_WRITE_ONLY)
      then CL_INVALID_VALUE
      else CL_SUCCESS)"

text \<open>\<open>CL_MEM_READ_WRITE | CL_MEM_WRITE_ONLY | CL_MEM_READ_ONLY\<close> and the three host pointer flags.\<close>

definition sub_buffer_flags :: "cl_bitfield \<Rightarrow> cl_bitfield \<Rightarrow> cl_bitfield" where
  "sub_buffer_flags pf flags = (if flags AND 7 \<noteq> 0 then flags AND 7 else pf AND 7) OR (pf AND 56)"

text \<open>
  \<open>junk\<close> is the content of the fresh object: \<open>map_count\<close> is never set, and \<open>mem_host_ptr\<close> only for
  buffers in host memory. \<open>info\<close> is the origin and size of the region; no device of this target has
  \<open>ops->create_sub_buffer\<close>.
\<close>

definition clCreateSubBuffer ::
  "buffer_environment \<Rightarrow> nat option \<Rightarrow> cl_mem \<Rightarrow> nat option \<Rightarrow> cl_bitfield \<Rightarrow> bool \<Rightarrow> (size_t \<times> size_t) option \<Rightarrow> cl_state \<Rightarrow>
   (nat option \<times> int \<times> cl_state) prog" where
  "clCreateSubBuffer E ca junk buffer flags type_region info s =
     (case buffer of None \<Rightarrow> ok (None, CL_INVALID_MEM_OBJECT, s) | Some b \<Rightarrow>
      andthen (fetch (mems s) b) (\<lambda>B.
      if parent B \<noteq> None then ok (None, CL_INVALID_MEM_OBJECT, s)
      else case info of None \<Rightarrow> ok (None, CL_INVALID_VALUE, s) | Some (origin, sz) \<Rightarrow>
      if \<not> type_region then ok (None, CL_INVALID_VALUE, s)
      else if sz = 0 then ok (None, CL_INVALID_BUFFER_SIZE, s)
      else if sz + origin > mem_size B then ok (None, CL_INVALID_VALUE, s)
      else case ca of None \<Rightarrow> ok (None, CL_OUT_OF_HOST_MEMORY, s) | Some i \<Rightarrow>
        let err = sub_buffer_flags_error (mem_flags B) flags; f = sub_buffer_flags (mem_flags B) flags
        in if err \<noteq> CL_SUCCESS then ok (None, err, s)
           else if \<not> table_malloc E then ok (None, CL_OUT_OF_HOST_MEMORY, s)
           else andthen (clear_device_ptrs (pocl_num_devices E) (4 * pocl_num_devices E)) (\<lambda>u.
                andthen (fetch (contexts s) (mem_context B)) (\<lambda>C.
                let m = junk\<lparr>mem_refcount := 1, mem_type := CL_MEM_OBJECT_BUFFER, mem_flags := f, mem_size := sz,
                          mem_host_ptr := (if bit f MEM_USE_HOST_PTR then mem_host_ptr B + origin else mem_host_ptr junk),
                          mem_context := mem_context B, mappings := None, parent := Some b,
                          device_ptrs := (\<lambda>d. if d \<in> set (ctx_devices C) then device_ptrs B d + origin else NULL)\<rparr>
                in andthen (retain_mem b (put_mem i m s)) (\<lambda>s1.
                   andthen (retain_context (mem_context B) s1) (\<lambda>s2. ok (Some i, CL_SUCCESS, s2)))))))"

section \<open>Command queues\<close>

text \<open>Bit 0 of the properties asks for out-of-order execution, bit 1 for profiling.\<close>

definition clCreateCommandQueue ::
  "nat option \<Rightarrow> nat option \<Rightarrow> nat \<Rightarrow> 64 word \<Rightarrow> cl_state \<Rightarrow> (nat option \<times> int \<times> cl_state) prog" where
  "clCreateCommandQueue ca context device properties s =
     (if properties > 3 then ok (None, CL_INVALID_VALUE, s)
      else if bit properties 0 then ok (None, CL_INVALID_QUEUE_PROPERTIES, s)
      else case context of None \<Rightarrow> throw NullDeref | Some c \<Rightarrow>
      andthen (fetch (contexts s) c) (\<lambda>C.
      if device \<notin> set (ctx_devices C) then ok (None, CL_INVALID_DEVICE, s)
      else case ca of None \<Rightarrow> ok (None, CL_OUT_OF_HOST_MEMORY, s)
         | Some q \<Rightarrow> ok (Some q, CL_SUCCESS,
             put_queue q \<lparr>q_refcount = 1, q_context = c, q_device = device, q_out_of_order = bit properties 0,
                          q_profiling = bit properties 1, root = None\<rparr> s)))"

section \<open>Contexts\<close>

abbreviation CL_INVALID_PROPERTY :: int where "CL_INVALID_PROPERTY \<equiv> -64"
abbreviation CL_INVALID_PLATFORM :: int where "CL_INVALID_PLATFORM \<equiv> -32"
abbreviation CL_CONTEXT_PLATFORM :: nat where "CL_CONTEXT_PLATFORM \<equiv> 0x1084"

text \<open>
  The list of properties and values that ends with property 0, of which \<open>seen\<close> is the part already
  read; there is one platform.
\<close>

fun check_properties :: "nat \<Rightarrow> nat list \<Rightarrow> (nat \<times> nat) list \<Rightarrow> int" where
  "check_properties platform seen [] = CL_SUCCESS"
| "check_properties platform seen ((k, v) # ps) =
     (if k \<in> set seen then CL_INVALID_PROPERTY
      else if k = CL_CONTEXT_PLATFORM
      then if v \<noteq> platform then CL_INVALID_PLATFORM else check_properties platform (seen @ [k]) ps
      else CL_INVALID_PROPERTY)"

definition context_set_properties :: "nat \<Rightarrow> bool \<Rightarrow> (nat \<times> nat) list option \<Rightarrow> int" where
  "context_set_properties platform properties_malloc properties =
     (case properties of None \<Rightarrow> CL_SUCCESS
      | Some ps \<Rightarrow> let err = check_properties platform [] ps in
                  if err \<noteq> CL_SUCCESS then err
                  else if \<not> properties_malloc then CL_OUT_OF_HOST_MEMORY else CL_SUCCESS)"

text \<open>
  The loop over the given devices: all are retained, the available ones are kept. It stops at a null
  device.
\<close>

fun retain_devices :: "(nat \<Rightarrow> bool) \<Rightarrow> nat option list \<Rightarrow> nat list \<Rightarrow> cl_state \<Rightarrow> (nat list option \<times> cl_state) prog" where
  "retain_devices available [] kept s = ok (Some kept, s)"
| "retain_devices available (None # ds) kept s = ok (None, s)"
| "retain_devices available (Some d # ds) kept s =
     andthen (clRetainDevice (Some d) s) (\<lambda>(e, s1).
       retain_devices available ds (if available d then kept @ [d] else kept) s1)"

text \<open>
  What is not in these functions: the platform, which devices are available, whether the two tables
  can be allocated, and the content of the fresh device table, as long as the list of devices.
\<close>

record context_environment =
  platform_id :: nat
  dev_available :: "nat \<Rightarrow> bool"
  properties_malloc :: bool
  devices_malloc :: bool
  fresh_devices :: "nat list"

text \<open>The number of devices stays the number given, also when some were not kept.\<close>

definition clCreateContext ::
  "context_environment \<Rightarrow> nat option \<Rightarrow> (nat \<times> nat) list option \<Rightarrow> nat option list option \<Rightarrow> bool \<Rightarrow> bool \<Rightarrow> cl_state \<Rightarrow>
   (nat option \<times> int \<times> cl_state) prog" where
  "clCreateContext E ca properties devs has_notify has_user_data s =
     (if devs = None \<or> devs = Some [] then ok (None, CL_INVALID_VALUE, s)
      else if \<not> has_notify \<and> has_user_data then ok (None, CL_INVALID_VALUE, s)
      else case ca of None \<Rightarrow> ok (None, CL_OUT_OF_HOST_MEMORY, s) | Some c \<Rightarrow>
        let err = context_set_properties (platform_id E) (properties_malloc E) properties
        in if err \<noteq> CL_SUCCESS then ok (None, err, s)
           else if \<not> devices_malloc E then ok (None, CL_OUT_OF_HOST_MEMORY, s)
           else andthen (retain_devices (dev_available E) (the devs) [] s) (\<lambda>(r, s1).
                case r of
                  None \<Rightarrow> ok (None, CL_INVALID_DEVICE, s1)
                | Some kept \<Rightarrow> ok (Some c, CL_SUCCESS,
                    put_context c \<lparr>ctx_refcount = 1,
                      ctx_devices = kept @ drop (length kept) (fresh_devices E), ctx_valid = True\<rparr> s1)))"

end
