(* ===== verification/Cl_Buffers_Props.thy ===== *)
theory Cl_Buffers_Props
  imports Cl_Buffers Cl_Queue_Props
begin

text \<open>
  Creating and releasing objects: a context, and a buffer of a context with one device, are undone
  by one release; a buffer of a context with several devices is not; and no sub-buffer can be
  created without writing past its table of device pointers.
\<close>

section \<open>Contexts\<close>

definition count_devices :: "int \<Rightarrow> nat list \<Rightarrow> (nat \<Rightarrow> cl_device option) \<Rightarrow> nat \<Rightarrow> cl_device option" where
  "count_devices k ds t d = map_option (\<lambda>x. x\<lparr>dev_refcount := dev_refcount x + k * int (count_list ds d)\<rparr>) (t d)"

lemma count_devices_Nil [simp]: "count_devices k [] t = t"
  by (rule ext) (simp add: count_devices_def option.map_ident_strong)

lemma count_devices_Cons: "count_devices k ds (count_devices k [d] t) = count_devices k (d # ds) t"
  by (rule ext) (simp add: count_devices_def option.map_comp comp_def algebra_simps)

lemma count_devices_one: "t d = Some x \<Longrightarrow> t(d \<mapsto> x\<lparr>dev_refcount := dev_refcount x + k\<rparr>) = count_devices k [d] t"
  by (auto simp: count_devices_def fun_eq_iff option.map_ident_strong)

lemma count_devices_undo: "count_devices (- 1) ds (count_devices 1 ds t) = t"
  by (rule ext) (simp add: count_devices_def option.map_comp comp_def option.map_ident_strong)

lemma count_devices_live: "count_devices k ds t d = None \<longleftrightarrow> t d = None"
  by (simp add: count_devices_def)

lemma retain_devices_ok:
  "\<forall>d \<in> set ds. devices s d \<noteq> None \<Longrightarrow>
     retain_devices av (map Some ds) taken s =
       ok (Some (taken @ filter av ds), s\<lparr>devices := count_devices 1 ds (devices s)\<rparr>)"
proof (induction ds arbitrary: taken s)
  case (Cons d ds)
  then obtain x where x: "devices s d = Some x" by auto
  have "clRetainDevice (Some d) s = ok (CL_SUCCESS, s\<lparr>devices := count_devices 1 [d] (devices s)\<rparr>)"
    by (simp add: clRetainDevice_def retain_device_def fetch_def x count_devices_one[of "devices s" d, OF x])
  moreover have "\<forall>e \<in> set ds. devices (s\<lparr>devices := count_devices (1) [d] (devices s)\<rparr>) e \<noteq> None"
    using Cons.prems by (simp add: count_devices_def)
  ultimately show ?case using Cons.IH by (simp add: count_devices_Cons)
qed simp

lemma release_devices_ok:
  "\<forall>d \<in> set ds. devices s d \<noteq> None \<Longrightarrow>
     release_devices ds s = ok (s\<lparr>devices := count_devices (- 1) ds (devices s)\<rparr>)"
proof (induction ds arbitrary: s)
  case (Cons d ds)
  then obtain x where x: "devices s d = Some x" by auto
  have "clReleaseDevice d s = ok (CL_SUCCESS, s\<lparr>devices := count_devices (- 1) [d] (devices s)\<rparr>)"
    using count_devices_one[of "devices s" d x "- 1", OF x]
    by (simp add: clReleaseDevice_def release_device_def fetch_def x Let_def)
  moreover have "\<forall>e \<in> set ds. devices (s\<lparr>devices := count_devices (- 1) [d] (devices s)\<rparr>) e \<noteq> None"
    using Cons.prems by (simp add: count_devices_def)
  ultimately show ?case using Cons.IH by (simp add: count_devices_Cons)
qed simp

lemma release_fresh_context:
  assumes "\<forall>d \<in> set ds. devices s d \<noteq> None" and "contexts s c = None"
  shows "clReleaseContext (Some c) (put_context c \<lparr>ctx_refcount = 1, ctx_devices = ds, ctx_valid = True\<rparr>
      (s\<lparr>devices := count_devices 1 ds (devices s)\<rparr>)) = ok (CL_SUCCESS, s)"
proof -
  let ?s1 = "put_context c \<lparr>ctx_refcount = 0, ctx_devices = ds, ctx_valid = True\<rparr> (s\<lparr>devices := count_devices 1 ds (devices s)\<rparr>)"
  have "\<forall>d \<in> set ds. devices ?s1 d \<noteq> None" using assms(1) by (simp add: count_devices_def)
  note r = release_devices_ok[OF this]
  have "(contexts s)(c := None) = contexts s" using assms(2) by (simp add: fun_upd_idem)
  with r show ?thesis
    by (simp add: clReleaseContext_def release_context_def fetch_def Let_def count_devices_undo)
qed

text \<open>C54: A context is undone by its release. For devices that are all available, \<open>clCreateContext\<close>
  answers \<open>CL_SUCCESS\<close> with a context of exactly these devices, each of which is retained once for
  each time it is listed, and releasing the context at once answers \<open>CL_SUCCESS\<close> and leaves the
  state as it was before the call.\<close>

theorem create_release_context:
  assumes "ds \<noteq> []" and "\<forall>d \<in> set ds. devices s d \<noteq> None \<and> dev_available E d" and "contexts s c = None"
    and "context_set_properties (platform_id E) (properties_malloc E) properties = CL_SUCCESS"
    and "devices_malloc E" and "length (fresh_devices E) = length ds" and "notify \<or> \<not> user_data"
  shows "\<exists>s'. clCreateContext E (Some c) properties (Some (map Some ds)) notify user_data s = ok (Some c, CL_SUCCESS, s') \<and>
    contexts s' c = Some \<lparr>ctx_refcount = 1, ctx_devices = ds, ctx_valid = True\<rparr> \<and>
    devices s' = count_devices 1 ds (devices s) \<and> clReleaseContext (Some c) s' = ok (CL_SUCCESS, s)"
proof -
  let ?C = "\<lparr>ctx_refcount = 1, ctx_devices = ds, ctx_valid = True\<rparr>"
  let ?s = "put_context c ?C (s\<lparr>devices := count_devices 1 ds (devices s)\<rparr>)"
  have live: "\<forall>d \<in> set ds. devices s d \<noteq> None" and av: "filter (dev_available E) ds = ds"
    using assms(2) by (auto simp: filter_id_conv)
  have "clCreateContext E (Some c) properties (Some (map Some ds)) notify user_data s = ok (Some c, CL_SUCCESS, ?s)"
    using assms(1,4-7) by (auto simp: clCreateContext_def retain_devices_ok[OF live] av)
  moreover have "clReleaseContext (Some c) ?s = ok (CL_SUCCESS, s)" by (rule release_fresh_context[OF live assms(3)])
  ultimately show ?thesis by (intro exI[of _ ?s]) simp
qed

text \<open>Two devices, of which the second is listed twice.\<close>

definition sample_environment :: context_environment where
  "sample_environment = \<lparr>platform_id = 7, dev_available = (\<lambda>d. d < 2), properties_malloc = True, devices_malloc = True,
     fresh_devices = [0, 0, 0]\<rparr>"

definition two_devices :: cl_state where
  "two_devices = no_objects\<lparr>devices := [0 \<mapsto> sample_device, 1 \<mapsto> sample_device]\<rparr>"

lemma create_release_context_witness:
  "\<exists>s'. clCreateContext sample_environment (Some 0) (Some [(CL_CONTEXT_PLATFORM, 7)]) (Some (map Some [0, 1, 1])) False False
      two_devices = ok (Some 0, CL_SUCCESS, s') \<and>
    contexts s' 0 = Some \<lparr>ctx_refcount = 1, ctx_devices = [0, 1, 1], ctx_valid = True\<rparr> \<and>
    devices s' = count_devices 1 [0, 1, 1] (devices two_devices) \<and> clReleaseContext (Some 0) s' = ok (CL_SUCCESS, two_devices)"
  by (rule create_release_context)
    (simp_all add: sample_environment_def two_devices_def context_set_properties_def)

section \<open>Buffers\<close>

text \<open>What the devices promise: the allocation only sets device pointers.\<close>

definition allocates :: "buffer_environment \<Rightarrow> nat list \<Rightarrow> bool" where
  "allocates E ds \<longleftrightarrow> (\<forall>d \<in> set ds. \<forall>m. \<exists>f. alloc_mem_obj E d m = (CL_SUCCESS, m\<lparr>device_ptrs := f\<rparr>))"

lemma alloc_on_devices_ok:
  assumes "allocates E ds"
  shows "\<exists>f. alloc_on_devices E served ds m =
    (None, m\<lparr>mem_refcount := mem_refcount m + int (length ds) - (if served = [] \<and> ds \<noteq> [] then 1 else 0), device_ptrs := f\<rparr>)"
  using assms
proof (induction ds arbitrary: served m)
  case Nil
  show ?case by (intro exI[of _ "device_ptrs m"]) simp
next
  case (Cons d ds)
  let ?m = "if served \<noteq> [] then m\<lparr>mem_refcount := mem_refcount m + 1\<rparr> else m"
  have "\<exists>f. alloc_mem_obj E d ?m = (CL_SUCCESS, ?m\<lparr>device_ptrs := f\<rparr>)"
    using Cons.prems unfolding allocates_def by (meson list.set_intros(1))
  then obtain g where g: "alloc_mem_obj E d ?m = (CL_SUCCESS, ?m\<lparr>device_ptrs := g\<rparr>)" by blast
  have "allocates E ds" using Cons.prems by (simp add: allocates_def)
  from Cons.IH[OF this, of "served @ [d]" "?m\<lparr>device_ptrs := g\<rparr>"] obtain f where
    "alloc_on_devices E (served @ [d]) ds (?m\<lparr>device_ptrs := g\<rparr>) =
      (None, ?m\<lparr>mem_refcount := mem_refcount ?m + int (length ds), device_ptrs := f\<rparr>)" by auto
  with g show ?case by (intro exI[of _ f]) (auto simp: Let_def)
qed

lemma created_buffer:
  assumes "clCreateBuffer E (Some b) (Some c) flags sz host_ptr s = ok (Some i, e, s')"
    and "contexts s c = Some C" and "ctx_devices C \<noteq> []" and "allocates E (ctx_devices C)"
  shows "e = CL_SUCCESS \<and> i = b \<and> (\<exists>m. s' = put_context c (C\<lparr>ctx_refcount := ctx_refcount C + 1\<rparr>) (put_mem b m s) \<and>
      mem_refcount m = int (length (ctx_devices C)) \<and> mem_type m = CL_MEM_OBJECT_BUFFER \<and> mem_size m = sz \<and>
      mem_host_ptr m = host_ptr \<and> mem_context m = c)"
proof -
  let ?flags = "if flags = 0 then 1 else flags"
  define m0 where "m0 = \<lparr>mem_refcount = 1, mem_type = CL_MEM_OBJECT_BUFFER, mem_flags = ?flags, mem_size = sz,
    mem_host_ptr = host_ptr, map_count = 0, mem_context = c, device_ptrs = (\<lambda>d. NULL), mappings = None, parent = None\<rparr>"
  from alloc_on_devices_ok[OF assms(4), of "[]" m0] obtain f where
    "alloc_on_devices E [] (ctx_devices C) m0 = (None, m0\<lparr>mem_refcount := int (length (ctx_devices C)), device_ptrs := f\<rparr>)"
    using assms(3) by (auto simp: m0_def)
  then show ?thesis
    using assms(1,2) unfolding clCreateBuffer_def Let_def m0_def[symmetric] option.case
    by (auto simp: fetch_def retain_context_def m0_def split: if_splits)
qed

text \<open>C53: A buffer is undone by one release exactly when its context has one device. An accepted
  \<open>clCreateBuffer\<close> gives the buffer one reference for each device of the context and retains the
  context once. With one device, \<open>clReleaseMemObject\<close> frees the device memory and restores the
  buffers and the context; with more, the buffer stays alive after the release of the caller's only
  reference.\<close>

theorem create_release_buffer:
  assumes "contexts s c = Some C" and "ctx_devices C \<noteq> []" and "mems s i = None" and "sz \<noteq> 0"
    and flags: "flags' = (if flags = 0 then 1 else flags)" "buffer_flags_error flags' host_ptr = CL_SUCCESS"
    and "\<forall>d \<in> set (ctx_devices C). ucast sz \<le> max_mem_alloc_size E d" and "table_malloc E" and "allocates E (ctx_devices C)"
  shows "\<exists>s' m s''. clCreateBuffer E (Some i) (Some c) flags sz host_ptr s = ok (Some i, CL_SUCCESS, s') \<and>
    mems s' i = Some m \<and> mem_refcount m = int (length (ctx_devices C)) \<and> mem_size m = sz \<and> mem_flags m = flags' \<and>
    contexts s' = (contexts s)(c \<mapsto> C\<lparr>ctx_refcount := ctx_refcount C + 1\<rparr>) \<and>
    clReleaseMemObject (Some i) s' = ok (CL_SUCCESS, s'') \<and>
    (case ctx_devices C of
       [d] \<Rightarrow> s'' = s\<lparr>actions := actions s @ [Dev_free d flags' (device_ptrs m d)]\<rparr>
     | _ \<Rightarrow> mems s'' i = Some (m\<lparr>mem_refcount := mem_refcount m - 1\<rparr>) \<and> contexts s'' = contexts s')"
proof -
  let ?ds = "ctx_devices C"
  define m0 where "m0 = \<lparr>mem_refcount = 1, mem_type = CL_MEM_OBJECT_BUFFER, mem_flags = flags', mem_size = sz,
    mem_host_ptr = host_ptr, map_count = 0, mem_context = c, device_ptrs = (\<lambda>d. NULL), mappings = None, parent = None\<rparr>"
  from alloc_on_devices_ok[OF assms(9), of "[]" m0] obtain f where
    "alloc_on_devices E [] ?ds m0 = (None, m0\<lparr>mem_refcount := mem_refcount m0 + int (length ?ds) - 1, device_ptrs := f\<rparr>)"
    using assms(2) by auto
  moreover define m where "m = m0\<lparr>mem_refcount := int (length ?ds), device_ptrs := f\<rparr>"
  ultimately have a: "alloc_on_devices E [] ?ds m0 = (None, m)" by (simp add: m0_def)
  define s' where "s' = put_context c (C\<lparr>ctx_refcount := ctx_refcount C + 1\<rparr>) (put_mem i m s)"
  have big: "\<not> (\<exists>d \<in> set ?ds. ucast sz > max_mem_alloc_size E d)" using assms(7) by (auto simp: not_less)
  have c: "clCreateBuffer E (Some i) (Some c) flags sz host_ptr s = ok (Some i, CL_SUCCESS, s')"
    using assms(4,8) flags(2) a assms(1)
    unfolding clCreateBuffer_def flags(1)[symmetric] m0_def[symmetric] Let_def option.case
    by (simp add: fetch_def big retain_context_def s'_def not_le)
  show ?thesis
  proof (cases "\<exists>d. ?ds = [d]")
    case True
    then obtain d where d: "?ds = [d]" by blast
    have undo: "(mems s)(i := None) = mems s" "(contexts s)(c \<mapsto> C) = contexts s"
      using assms(1,3) by (simp_all add: fun_upd_idem)
    let ?s2 = "s\<lparr>actions := actions s @ [Dev_free d flags' (device_ptrs m d)]\<rparr>"
    have "clReleaseMemObject (Some i) s' = ok (CL_SUCCESS, ?s2)"
      using undo by (simp add: clReleaseMemObject_def release_mem_def release_context_def fetch_def s'_def m_def m0_def d
          Let_def act_def free_mappings.simps[of None])
    with c show ?thesis
      by (intro exI[of _ s'] exI[of _ m] exI[of _ ?s2]) (simp add: s'_def m_def m0_def d)
  next
    case False
    with assms(2) obtain d e ds where ds: "?ds = d # e # ds" by (cases ?ds; cases "tl ?ds") auto
    have "clReleaseMemObject (Some i) s' = ok (CL_SUCCESS, put_mem i (m\<lparr>mem_refcount := mem_refcount m - 1\<rparr>) s')"
      by (simp add: clReleaseMemObject_def release_mem_def fetch_def s'_def m_def m0_def ds Let_def)
    with c show ?thesis
      by (intro exI[of _ s'] exI[of _ m] exI[of _ "put_mem i (m\<lparr>mem_refcount := mem_refcount m - 1\<rparr>) s'"])
        (simp add: s'_def m_def m0_def ds)
  qed
qed

text \<open>The basic device answers memory at one address; two devices, and then one.\<close>

definition sample_alloc :: buffer_environment where
  "sample_alloc = \<lparr>max_mem_alloc_size = (\<lambda>d. 1024), pocl_num_devices = 2, table_malloc = True,
     alloc_mem_obj = (\<lambda>d m. (CL_SUCCESS, m\<lparr>device_ptrs := (device_ptrs m)(d := 0x1000)\<rparr>))\<rparr>"

definition device_context :: "nat list \<Rightarrow> cl_context" where
  "device_context ds = \<lparr>ctx_refcount = 1, ctx_devices = ds, ctx_valid = True\<rparr>"

lemma create_release_buffer_witness:
  "(\<exists>s' m s''. clCreateBuffer sample_alloc (Some 5) (Some 0) 0 16 NULL (no_objects\<lparr>contexts := [0 \<mapsto> device_context [0, 1]]\<rparr>) =
      ok (Some 5, CL_SUCCESS, s') \<and>
    mems s' 5 = Some m \<and> mem_refcount m = int (length (ctx_devices (device_context [0, 1]))) \<and> mem_size m = 16 \<and> mem_flags m = 1 \<and>
    contexts s' = (contexts (no_objects\<lparr>contexts := [0 \<mapsto> device_context [0, 1]]\<rparr>))
      (0 \<mapsto> device_context [0, 1]\<lparr>ctx_refcount := ctx_refcount (device_context [0, 1]) + 1\<rparr>) \<and>
    clReleaseMemObject (Some 5) s' = ok (CL_SUCCESS, s'') \<and>
    (case ctx_devices (device_context [0, 1]) of
       [d] \<Rightarrow> s'' = no_objects\<lparr>contexts := [0 \<mapsto> device_context [0, 1]]\<rparr>\<lparr>actions := actions (no_objects\<lparr>contexts := [0 \<mapsto> device_context [0, 1]]\<rparr>) @ [Dev_free d 1 (device_ptrs m d)]\<rparr>
     | _ \<Rightarrow> mems s'' 5 = Some (m\<lparr>mem_refcount := mem_refcount m - 1\<rparr>) \<and> contexts s'' = contexts s'))"
  by (rule create_release_buffer)
    (auto simp: sample_alloc_def device_context_def buffer_flags_error_def allocates_def)

section \<open>Sub-buffers\<close>

text \<open>C56: No sub-buffer can be created: every \<open>clCreateSubBuffer\<close> that passes the checks of its arguments
  and gets its memory writes past the end of its table of device pointers, which is allocated with
  half the size it needs, as soon as the system has a device.\<close>

theorem sub_buffers_overrun:
  assumes "mems s b = Some B" and "parent B = None" and "sz \<noteq> 0" and "sz + origin \<le> mem_size B"
    and "sub_buffer_flags_error (mem_flags B) flags = CL_SUCCESS" and "table_malloc E" and "0 < pocl_num_devices E"
  shows "clCreateSubBuffer E (Some i) junk (Some b) flags True (Some (origin, sz)) s = throw OutOfBounds"
proof -
  have "clear_device_ptrs (pocl_num_devices E) (4 * pocl_num_devices E) = throw OutOfBounds"
    using assms(7) by (auto simp: clear_device_ptrs_def intro!: exI[of _ "pocl_num_devices E - 1"])
  then show ?thesis using assms(1-6) by (simp add: clCreateSubBuffer_def fetch_def Let_def not_less)
qed

definition sample_parent :: cl_mem where
  "sample_parent = \<lparr>mem_refcount = 1, mem_type = CL_MEM_OBJECT_BUFFER, mem_flags = 1, mem_size = 16,
     mem_host_ptr = NULL, map_count = 0, mem_context = 0, device_ptrs = (\<lambda>_. 0x1000), mappings = None, parent = None\<rparr>"

lemma sub_buffers_overrun_witness:
  "clCreateSubBuffer sample_alloc (Some 6) sample_parent (Some 5) 0 True (Some (4, 8))
     (no_objects\<lparr>mems := [5 \<mapsto> sample_parent]\<rparr>) = throw OutOfBounds"
  by (rule sub_buffers_overrun) (auto simp: sample_parent_def sample_alloc_def sub_buffer_flags_error_def)

section \<open>Queues\<close>

text \<open>C55: Every queue that \<open>clCreateCommandQueue\<close> gives is in order, empty and held once, and its device
  is one of its context; so \<open>clFinish\<close> never meets the out-of-order queue it cannot handle.\<close>

theorem created_queue_in_order:
  assumes "clCreateCommandQueue ca (Some c) d properties s = ok (Some q, e, s')"
  shows "e = CL_SUCCESS \<and> (\<exists>Q C. queues s' q = Some Q \<and> \<not> q_out_of_order Q \<and> root Q = None \<and> q_refcount Q = 1 \<and>
      contexts s c = Some C \<and> q_context Q = c \<and> q_device Q = d \<and> d \<in> set (ctx_devices C)) \<and>
    clFinish (Suc n) q s' = ok (CL_SUCCESS, s')"
proof -
  from assms obtain C where C: "contexts s c = Some C" "d \<in> set (ctx_devices C)" "\<not> bit properties 0"
    and s': "s' = put_queue q \<lparr>q_refcount = 1, q_context = c, q_device = d, q_out_of_order = bit properties 0,
                          q_profiling = bit properties 1, root = None\<rparr> s" "e = CL_SUCCESS"
    by (auto simp: clCreateCommandQueue_def fetch_def split: if_splits option.splits)
  have "clFinish (Suc n) q s' = ok (CL_SUCCESS, s')"
    using fin_ok_clFinish[of n] C(3) unfolding fin_ok_def by (simp add: s'(1) del: clFinish.simps)
  with C s' show ?thesis by simp
qed

lemma created_queue_in_order_witness:
  "\<exists>s'. CL_SUCCESS = CL_SUCCESS \<and> (\<exists>Q C. queues s' 3 = Some Q \<and> \<not> q_out_of_order Q \<and> root Q = None \<and> q_refcount Q = 1 \<and>
      contexts (no_objects\<lparr>contexts := [0 \<mapsto> device_context [0, 1]]\<rparr>) 0 = Some C \<and> q_context Q = 0 \<and> q_device Q = 1 \<and>
      1 \<in> set (ctx_devices C)) \<and>
    clFinish (Suc 0) 3 s' = ok (CL_SUCCESS, s')"
  by (rule exI, rule created_queue_in_order[where ca = "Some 3" and properties = 2])
    (simp add: clCreateCommandQueue_def fetch_def device_context_def bit_simps)

end
