(* ===== verification/Cl_Transfer.thy ===== *)
theory Cl_Transfer
  imports Cl_Enqueue Cl_Util
begin

text \<open>
  The commands that move buffer contents: \<^verbatim>\<open>clEnqueueReadBuffer.c\<close>, \<^verbatim>\<open>clEnqueueWriteBuffer.c\<close> and
  \<^verbatim>\<open>clEnqueueCopyBuffer.c\<close> queue a command, their rectangular variants finish the queue and call the
  device at once, \<^verbatim>\<open>clEnqueueMapBuffer.c\<close> and \<^verbatim>\<open>clEnqueueUnmapMemObject.c\<close> queue a command that
  maps or unmaps; and the calls on commands without data, \<^verbatim>\<open>clEnqueueBarrier.c\<close>,
  \<^verbatim>\<open>clEnqueueMarkerWithWaitList.c\<close> and \<^verbatim>\<open>clSetEventCallback.c\<close>.
\<close>

abbreviation CL_MAP_FAILURE :: int where "CL_MAP_FAILURE \<equiv> -12"
abbreviation CL_INVALID_OPERATION :: int where "CL_INVALID_OPERATION \<equiv> -59"

section \<open>Common steps\<close>

text \<open>The checks of a wait list with the number of its events; \<open>None\<close> is a null pointer.\<close>

definition bad_wait_list :: "nat \<Rightarrow> 'a list option \<Rightarrow> bool" where
  "bad_wait_list num_events wait_list \<longleftrightarrow>
     wait_list = None \<and> num_events > 0 \<or> wait_list \<noteq> None \<and> num_events = 0"

definition has_null_event :: "nat \<Rightarrow> nat option list option \<Rightarrow> bool" where
  "has_null_event num_events wait_list \<longleftrightarrow>
     (case wait_list of None \<Rightarrow> False | Some ws \<Rightarrow> None \<in> set (take num_events ws))"

text \<open>The device of the queue must be one of its context.\<close>

definition in_context :: "cl_command_queue \<Rightarrow> cl_state \<Rightarrow> bool prog" where
  "in_context Q s = andthen (fetch (contexts s) (q_context Q)) (\<lambda>c. ok (q_device Q \<in> set (ctx_devices c)))"

fun retain_all :: "nat list \<Rightarrow> cl_state \<Rightarrow> cl_state prog" where
  "retain_all [] s = ok s"
| "retain_all (b # bs) s = andthen (clRetainMemObject (Some b) s) (\<lambda>(e, s1). retain_all bs s1)"

text \<open>
  Creating the command \<open>c\<close>, retaining its buffers and queueing it. The payload \<open>c\<close> is what the code
  fills in after the creation.
\<close>

definition queue_transfer ::
  "nat option \<Rightarrow> nat option \<Rightarrow> nat \<Rightarrow> cl_command \<Rightarrow> nat list \<Rightarrow> nat \<Rightarrow> nat option list option \<Rightarrow> bool \<Rightarrow> cl_state \<Rightarrow>
   (int \<times> nat option \<times> cl_state) prog" where
  "queue_transfer cmd_ca event_ca q c bufs num_events wait_list wants s =
     andthen (pocl_create_command cmd_ca event_ca q c wants num_events wait_list s) (\<lambda>(errcode, r, s1).
     case r of
       None \<Rightarrow> ok (errcode, None, s1)
     | Some (cmd, ev) \<Rightarrow>
         andthen (retain_all bufs s1) (\<lambda>s2.
         andthen (pocl_command_enqueue q cmd s2) (\<lambda>s3. ok (CL_SUCCESS, Some ev, s3))))"

definition finish_if :: "bool \<Rightarrow> nat \<Rightarrow> nat \<Rightarrow> (int \<times> nat option \<times> cl_state) \<Rightarrow> (int \<times> nat option \<times> cl_state) prog" where
  "finish_if blocking depth q r =
     (let (errcode, ev, s) = r in
      if blocking \<and> ev \<noteq> None then andthen (clFinish depth q s) (\<lambda>(e, s'). ok (errcode, ev, s')) else ok r)"

section \<open>Reading, writing and copying\<close>

definition clEnqueueReadBuffer ::
  "nat \<Rightarrow> nat option \<Rightarrow> nat option \<Rightarrow> nat option \<Rightarrow> nat option \<Rightarrow> bool \<Rightarrow> size_t \<Rightarrow> size_t \<Rightarrow> addr \<Rightarrow> nat \<Rightarrow>
   nat option list option \<Rightarrow> bool \<Rightarrow> cl_state \<Rightarrow> (int \<times> nat option \<times> cl_state) prog" where
  "clEnqueueReadBuffer depth cmd_ca event_ca command_queue buffer blocking_read offset cb ptr num_events wait_list wants s =
     (case command_queue of None \<Rightarrow> ok (CL_INVALID_COMMAND_QUEUE, None, s) | Some q \<Rightarrow>
     (case buffer of None \<Rightarrow> ok (CL_INVALID_MEM_OBJECT, None, s) | Some b \<Rightarrow>
     andthen (fetch (queues s) q) (\<lambda>Q.
     andthen (fetch (mems s) b) (\<lambda>B.
     if q_context Q \<noteq> mem_context B then ok (CL_INVALID_CONTEXT, None, s)
     else if ptr = NULL then ok (CL_INVALID_VALUE, None, s)
     else if pocl_buffer_boundcheck B offset cb \<noteq> CL_SUCCESS then ok (CL_INVALID_VALUE, None, s)
     else if bad_wait_list num_events wait_list \<or> has_null_event num_events wait_list
     then ok (CL_INVALID_EVENT_WAIT_LIST, None, s)
     else andthen (queue_transfer cmd_ca event_ca q
            (Read_buffer ptr (device_ptrs B (q_device Q)) offset cb b) [b] num_events wait_list wants s)
          (finish_if blocking_read depth q)))))"

definition clEnqueueWriteBuffer ::
  "nat \<Rightarrow> nat option \<Rightarrow> nat option \<Rightarrow> nat option \<Rightarrow> nat option \<Rightarrow> bool \<Rightarrow> size_t \<Rightarrow> size_t \<Rightarrow> addr \<Rightarrow> nat \<Rightarrow>
   nat option list option \<Rightarrow> bool \<Rightarrow> cl_state \<Rightarrow> (int \<times> nat option \<times> cl_state) prog" where
  "clEnqueueWriteBuffer depth cmd_ca event_ca command_queue buffer blocking_write offset cb ptr num_events wait_list wants s =
     (case command_queue of None \<Rightarrow> ok (CL_INVALID_COMMAND_QUEUE, None, s) | Some q \<Rightarrow>
     (case buffer of None \<Rightarrow> ok (CL_INVALID_MEM_OBJECT, None, s) | Some b \<Rightarrow>
     andthen (fetch (queues s) q) (\<lambda>Q.
     andthen (fetch (mems s) b) (\<lambda>B.
     if q_context Q \<noteq> mem_context B then ok (CL_INVALID_CONTEXT, None, s)
     else if ptr = NULL then ok (CL_INVALID_VALUE, None, s)
     else if pocl_buffer_boundcheck B offset cb \<noteq> CL_SUCCESS then ok (CL_INVALID_VALUE, None, s)
     else if bad_wait_list num_events wait_list \<or> has_null_event num_events wait_list
     then ok (CL_INVALID_EVENT_WAIT_LIST, None, s)
     else andthen (in_context Q s) (\<lambda>found.
          if \<not> found then throw AssertFail
          else andthen (queue_transfer cmd_ca event_ca q
                 (Write_buffer ptr (device_ptrs B (q_device Q)) offset cb b) [b] num_events wait_list wants s)
               (finish_if blocking_write depth q))))))"

definition clEnqueueCopyBuffer ::
  "nat option \<Rightarrow> nat option \<Rightarrow> nat option \<Rightarrow> nat option \<Rightarrow> nat option \<Rightarrow> size_t \<Rightarrow> size_t \<Rightarrow> size_t \<Rightarrow> nat \<Rightarrow>
   nat option list option \<Rightarrow> bool \<Rightarrow> cl_state \<Rightarrow> (int \<times> nat option \<times> cl_state) prog" where
  "clEnqueueCopyBuffer cmd_ca event_ca command_queue src_buffer dst_buffer src_offset dst_offset sz
      num_events wait_list wants s =
     (case command_queue of None \<Rightarrow> ok (CL_INVALID_COMMAND_QUEUE, None, s) | Some q \<Rightarrow>
     (case src_buffer of None \<Rightarrow> ok (CL_INVALID_MEM_OBJECT, None, s) | Some b1 \<Rightarrow>
     (case dst_buffer of None \<Rightarrow> ok (CL_INVALID_MEM_OBJECT, None, s) | Some b2 \<Rightarrow>
     andthen (fetch (queues s) q) (\<lambda>Q.
     andthen (fetch (mems s) b1) (\<lambda>B1.
     andthen (fetch (mems s) b2) (\<lambda>B2.
     if mem_type B1 \<noteq> CL_MEM_OBJECT_BUFFER \<or> mem_type B2 \<noteq> CL_MEM_OBJECT_BUFFER
     then ok (CL_INVALID_MEM_OBJECT, None, s)
     else if q_context Q \<noteq> mem_context B1 \<or> q_context Q \<noteq> mem_context B2 then ok (CL_INVALID_CONTEXT, None, s)
     else if sz = 0 then ok (CL_INVALID_VALUE, None, s)
     else if bad_wait_list num_events wait_list then ok (CL_INVALID_EVENT_WAIT_LIST, None, s)
     else if pocl_buffers_boundcheck B1 B2 src_offset dst_offset sz \<noteq> CL_SUCCESS then ok (CL_INVALID_VALUE, None, s)
     else if pocl_buffers_overlap (\<lambda>i. the (mems s i)) b1 b2 src_offset dst_offset sz \<noteq> CL_SUCCESS
     then ok (CL_MEM_COPY_OVERLAP, None, s)
     else andthen (in_context Q s) (\<lambda>found.
          if \<not> found then throw AssertFail
          else queue_transfer cmd_ca event_ca q
            (Copy_buffer (device_ptrs B1 (q_device Q)) src_offset (device_ptrs B2 (q_device Q)) dst_offset sz b1 b2)
            [b1, b2] num_events wait_list wants s)))))))"

section \<open>Rectangular transfers\<close>

text \<open>
  These calls do not create an event: they update the one that the caller's variable happens to hold.
  \<open>old\<close> is its content, \<open>None\<close> when the variable or its content is null.
\<close>

fun update_old :: "(nat \<Rightarrow> nat \<Rightarrow> cl_state \<Rightarrow> cl_state prog) \<Rightarrow> nat option \<Rightarrow> nat \<Rightarrow> cl_state \<Rightarrow> cl_state prog" where
  "update_old upd None q s = ok s"
| "update_old upd (Some ev) q s = upd ev q s"

text \<open>Releasing buffers whose status codes are ignored, and the finished queue before a transfer.\<close>

definition settle :: "nat \<Rightarrow> nat \<Rightarrow> nat list \<Rightarrow> cl_command_queue \<Rightarrow> cl_state \<Rightarrow> cl_state prog" where
  "settle depth q bufs Q s =
     (if q_out_of_order Q then throw (Exit 2)
      else andthen (retain_all bufs s) (\<lambda>s1. andthen (clFinish depth q s1) (\<lambda>(e, s2). ok s2)))"

definition volume_zero :: "vec3 \<Rightarrow> bool" where
  "volume_zero region = (let (r0, r1, r2) = region in r0 * r1 * r2 = 0)"

text \<open>The pitches are the ones the checks answer; the second check is for the host's array.\<close>

definition check_boxes ::
  "size_t \<Rightarrow> vec3 \<Rightarrow> size_t \<Rightarrow> size_t \<Rightarrow> size_t \<Rightarrow> vec3 \<Rightarrow> size_t \<Rightarrow> size_t \<Rightarrow> vec3 \<Rightarrow>
   (size_t \<times> size_t \<times> size_t \<times> size_t) option prog" where
  "check_boxes size1 o1 rp1 sp1 size2 o2 rp2 sp2 region =
     andthen (pocl_buffer_boundcheck_3d size1 o1 region rp1 sp1) (\<lambda>(e1, rp1', sp1').
     if e1 \<noteq> CL_SUCCESS then ok None
     else andthen (pocl_buffer_boundcheck_3d size2 o2 region rp2 sp2) (\<lambda>(e2, rp2', sp2').
          ok (if e2 \<noteq> CL_SUCCESS then None else Some (rp1', sp1', rp2', sp2'))))"

text \<open>\<open>CL_MEM_HOST_WRITE_ONLY | CL_MEM_HOST_NO_ACCESS\<close> and \<open>CL_MEM_HOST_READ_ONLY | CL_MEM_HOST_NO_ACCESS\<close>.\<close>

abbreviation NO_HOST_READ :: cl_bitfield where "NO_HOST_READ \<equiv> 640"
abbreviation NO_HOST_WRITE :: cl_bitfield where "NO_HOST_WRITE \<equiv> 768"

text \<open>The checks that the rectangular read and write share: the buffer, or the error they answer.\<close>

definition rect_error ::
  "cl_bitfield \<Rightarrow> cl_command_queue \<Rightarrow> cl_mem \<Rightarrow> addr \<Rightarrow> vec3 option \<Rightarrow> vec3 option \<Rightarrow> vec3 option \<Rightarrow> nat \<Rightarrow>
   nat option list option \<Rightarrow> int" where
  "rect_error forbidden Q B ptr buffer_origin host_origin region num_events wait_list =
     (if mem_type B \<noteq> CL_MEM_OBJECT_BUFFER then CL_INVALID_MEM_OBJECT
      else if mem_flags B AND forbidden \<noteq> 0 then CL_INVALID_OPERATION
      else if q_context Q \<noteq> mem_context B then CL_INVALID_CONTEXT
      else if bad_wait_list num_events wait_list then CL_INVALID_EVENT_WAIT_LIST
      else if ptr = NULL \<or> buffer_origin = None \<or> host_origin = None \<or> region = None then CL_INVALID_VALUE
      else if volume_zero (the region) then CL_INVALID_VALUE
      else CL_SUCCESS)"

definition clEnqueueReadBufferRect ::
  "nat \<Rightarrow> nat option \<Rightarrow> nat option \<Rightarrow> vec3 option \<Rightarrow> vec3 option \<Rightarrow> vec3 option \<Rightarrow> size_t \<Rightarrow> size_t \<Rightarrow> size_t \<Rightarrow> size_t \<Rightarrow>
   addr \<Rightarrow> nat \<Rightarrow> nat option list option \<Rightarrow> nat option \<Rightarrow> cl_state \<Rightarrow> (int \<times> cl_state) prog" where
  "clEnqueueReadBufferRect depth command_queue buffer buffer_origin host_origin region buffer_rp buffer_sp
      host_rp host_sp ptr num_events wait_list old s =
     (case command_queue of None \<Rightarrow> ok (CL_INVALID_COMMAND_QUEUE, s) | Some q \<Rightarrow>
     (case buffer of None \<Rightarrow> ok (CL_INVALID_MEM_OBJECT, s) | Some b \<Rightarrow>
     andthen (fetch (queues s) q) (\<lambda>Q.
     andthen (fetch (mems s) b) (\<lambda>B.
     let err = rect_error NO_HOST_READ Q B ptr buffer_origin host_origin region num_events wait_list;
         bo = the buffer_origin; ho = the host_origin; reg = the region
     in if err \<noteq> CL_SUCCESS then ok (err, s)
        else andthen (check_boxes (mem_size B) bo buffer_rp buffer_sp (- 1) ho host_rp host_sp reg) (\<lambda>r.
        case r of None \<Rightarrow> ok (CL_INVALID_VALUE, s) | Some (brp, bsp, hrp, hsp) \<Rightarrow>
        andthen (in_context Q s) (\<lambda>found.
        if \<not> found then throw AssertFail
        else andthen (settle depth q [b] Q s) (\<lambda>s1.
             andthen (update_old POCL_UPDATE_EVENT_SUBMITTED old q s1) (\<lambda>s2.
             andthen (update_old POCL_UPDATE_EVENT_RUNNING old q s2) (\<lambda>s3.
             andthen (update_old POCL_UPDATE_EVENT_COMPLETE old q
               (act (Dev_read_box (q_device Q) ptr (device_ptrs B (q_device Q)) bo ho reg brp bsp hrp hsp) s3)) (\<lambda>s4.
             andthen (clReleaseMemObject (Some b) s4) (\<lambda>(e, s5). ok (CL_SUCCESS, s5))))))))))))"

definition clEnqueueWriteBufferRect ::
  "nat \<Rightarrow> nat option \<Rightarrow> nat option \<Rightarrow> vec3 option \<Rightarrow> vec3 option \<Rightarrow> vec3 option \<Rightarrow> size_t \<Rightarrow> size_t \<Rightarrow> size_t \<Rightarrow> size_t \<Rightarrow>
   addr \<Rightarrow> nat \<Rightarrow> nat option list option \<Rightarrow> nat option \<Rightarrow> cl_state \<Rightarrow> (int \<times> cl_state) prog" where
  "clEnqueueWriteBufferRect depth command_queue buffer buffer_origin host_origin region buffer_rp buffer_sp
      host_rp host_sp ptr num_events wait_list old s =
     (case command_queue of None \<Rightarrow> ok (CL_INVALID_COMMAND_QUEUE, s) | Some q \<Rightarrow>
     (case buffer of None \<Rightarrow> ok (CL_INVALID_MEM_OBJECT, s) | Some b \<Rightarrow>
     andthen (fetch (queues s) q) (\<lambda>Q.
     andthen (fetch (mems s) b) (\<lambda>B.
     let err = rect_error NO_HOST_WRITE Q B ptr buffer_origin host_origin region num_events wait_list;
         bo = the buffer_origin; ho = the host_origin; reg = the region
     in if err \<noteq> CL_SUCCESS then ok (err, s)
        else andthen (check_boxes (mem_size B) bo buffer_rp buffer_sp (- 1) ho host_rp host_sp reg) (\<lambda>r.
        case r of None \<Rightarrow> ok (CL_INVALID_VALUE, s) | Some (brp, bsp, hrp, hsp) \<Rightarrow>
        andthen (in_context Q s) (\<lambda>found.
        if \<not> found then throw AssertFail
        else andthen (settle depth q [b] Q s) (\<lambda>s1.
             andthen (update_old POCL_UPDATE_EVENT_RUNNING old q s1) (\<lambda>s2.
             andthen (update_old POCL_UPDATE_EVENT_COMPLETE old q
               (act (Dev_write_box (q_device Q) ptr (device_ptrs B (q_device Q)) bo ho reg brp bsp hrp hsp) s2)) (\<lambda>s3.
             andthen (clReleaseMemObject (Some b) s3) (\<lambda>(e, s4). ok (CL_SUCCESS, s4)))))))))))"

text \<open>The checks of a copy between the two boxes: the pitches, or the error.\<close>

definition copy_box_error ::
  "nat \<Rightarrow> nat \<Rightarrow> vec3 \<Rightarrow> vec3 \<Rightarrow> vec3 \<Rightarrow> size_t \<times> size_t \<times> size_t \<times> size_t \<Rightarrow> int prog" where
  "copy_box_error b1 b2 o1 o2 region pitches =
     (let (rp1, sp1, rp2, sp2) = pitches in
      if b1 \<noteq> b2 then ok CL_SUCCESS
      else if sp1 \<noteq> sp2 \<or> rp1 \<noteq> rp2 then ok CL_INVALID_VALUE
      else andthen (check_copy_overlap o1 o2 region rp1 sp1) (\<lambda>overlap.
           ok (if overlap then CL_MEM_COPY_OVERLAP else CL_SUCCESS)))"

definition clEnqueueCopyBufferRect ::
  "nat \<Rightarrow> nat option \<Rightarrow> nat option \<Rightarrow> nat option \<Rightarrow> vec3 option \<Rightarrow> vec3 option \<Rightarrow> vec3 option \<Rightarrow> size_t \<Rightarrow> size_t \<Rightarrow>
   size_t \<Rightarrow> size_t \<Rightarrow> nat \<Rightarrow> nat option list option \<Rightarrow> nat option \<Rightarrow> cl_state \<Rightarrow> (int \<times> cl_state) prog" where
  "clEnqueueCopyBufferRect depth command_queue src_buffer dst_buffer src_origin dst_origin region src_rp src_sp
      dst_rp dst_sp num_events wait_list old s =
     (case command_queue of None \<Rightarrow> ok (CL_INVALID_COMMAND_QUEUE, s) | Some q \<Rightarrow>
     (case src_buffer of None \<Rightarrow> ok (CL_INVALID_MEM_OBJECT, s) | Some b1 \<Rightarrow>
     (case dst_buffer of None \<Rightarrow> ok (CL_INVALID_MEM_OBJECT, s) | Some b2 \<Rightarrow>
     andthen (fetch (queues s) q) (\<lambda>Q.
     andthen (fetch (mems s) b1) (\<lambda>B1.
     andthen (fetch (mems s) b2) (\<lambda>B2.
     let o1 = the src_origin; o2 = the dst_origin; reg = the region; d = q_device Q
     in if mem_type B1 \<noteq> CL_MEM_OBJECT_BUFFER \<or> mem_type B2 \<noteq> CL_MEM_OBJECT_BUFFER then ok (CL_INVALID_MEM_OBJECT, s)
        else if q_context Q \<noteq> mem_context B1 \<or> q_context Q \<noteq> mem_context B2 then ok (CL_INVALID_CONTEXT, s)
        else if bad_wait_list num_events wait_list then ok (CL_INVALID_EVENT_WAIT_LIST, s)
        else if src_origin = None \<or> dst_origin = None \<or> region = None then ok (CL_INVALID_VALUE, s)
        else if volume_zero reg then ok (CL_INVALID_VALUE, s)
        else andthen (check_boxes (mem_size B1) o1 src_rp src_sp (mem_size B2) o2 dst_rp dst_sp reg) (\<lambda>r.
        case r of None \<Rightarrow> ok (CL_INVALID_VALUE, s) | Some (rp1, sp1, rp2, sp2) \<Rightarrow>
        andthen (copy_box_error b1 b2 o1 o2 reg (rp1, sp1, rp2, sp2)) (\<lambda>err.
        if err \<noteq> CL_SUCCESS then ok (err, s)
        else andthen (in_context Q s) (\<lambda>found.
        if \<not> found then throw AssertFail
        else andthen (settle depth q [b1, b2] Q s) (\<lambda>s1.
             andthen (update_old POCL_UPDATE_EVENT_SUBMITTED old q s1) (\<lambda>s2.
             andthen (update_old POCL_UPDATE_EVENT_RUNNING old q s2) (\<lambda>s3.
             andthen (update_old POCL_UPDATE_EVENT_COMPLETE old q
               (act (Dev_copy_box d (device_ptrs B1 d) (device_ptrs B2 d) o1 o2 reg rp1 sp1 rp2 sp2) s3)) (\<lambda>s4.
             andthen (clReleaseMemObject (Some b1) s4) (\<lambda>(e, s5).
             andthen (clReleaseMemObject (Some b2) s5) (\<lambda>(e', s6). ok (CL_SUCCESS, s6))))))))))))))))"

section \<open>Mapping\<close>

text \<open>
  An error with an event variable frees that variable; here it is a variable of the caller's, not the
  result of \<open>malloc\<close>. \<open>map_ca\<close> is the record \<open>calloc\<close> gives, \<open>map_mem\<close> the operation of the device, and
  \<open>blocking_map\<close> says that the argument is \<open>CL_TRUE\<close>.
\<close>

definition map_failed :: "bool \<Rightarrow> int \<Rightarrow> cl_state \<Rightarrow> (addr \<times> int \<times> nat option \<times> cl_state) prog" where
  "map_failed wants errcode s = (if wants then throw BadFree else ok (NULL, errcode, None, s))"

text \<open>\<open>CL_MAP_READ\<close> is bit 0 of the map flags, \<open>CL_MAP_WRITE\<close> and \<open>CL_MAP_WRITE_INVALIDATE_REGION\<close> are 6.\<close>

definition map_error :: "cl_command_queue \<Rightarrow> cl_mem \<Rightarrow> 64 word \<Rightarrow> size_t \<Rightarrow> size_t \<Rightarrow> nat \<Rightarrow> nat option list option \<Rightarrow> int" where
  "map_error Q B map_flags offset sz num_events wait_list =
     (if sz = 0 then CL_INVALID_VALUE
      else if mem_type B \<noteq> CL_MEM_OBJECT_BUFFER then CL_INVALID_MEM_OBJECT
      else if q_context Q \<noteq> mem_context B then CL_INVALID_CONTEXT
      else if bad_wait_list num_events wait_list then CL_INVALID_EVENT_WAIT_LIST
      else if pocl_buffer_boundcheck B offset sz \<noteq> CL_SUCCESS then pocl_buffer_boundcheck B offset sz
      else if mem_flags B AND NO_HOST_READ \<noteq> 0 \<and> bit map_flags 0 then CL_INVALID_OPERATION
      else if mem_flags B AND NO_HOST_WRITE \<noteq> 0 \<and> map_flags AND 6 \<noteq> 0 then CL_INVALID_OPERATION
      else CL_SUCCESS)"

definition clEnqueueMapBuffer ::
  "(nat \<Rightarrow> addr \<Rightarrow> size_t \<Rightarrow> size_t \<Rightarrow> addr \<Rightarrow> addr) \<Rightarrow> nat \<Rightarrow> nat option \<Rightarrow> nat option \<Rightarrow> nat option \<Rightarrow> nat option \<Rightarrow>
   nat option \<Rightarrow> bool \<Rightarrow> 64 word \<Rightarrow> size_t \<Rightarrow> size_t \<Rightarrow> nat \<Rightarrow> nat option list option \<Rightarrow> bool \<Rightarrow> cl_state \<Rightarrow>
   (addr \<times> int \<times> nat option \<times> cl_state) prog" where
  "clEnqueueMapBuffer map_mem depth map_ca cmd_ca event_ca command_queue buffer blocking_map map_flags offset sz
      num_events wait_list wants s =
     (case command_queue of None \<Rightarrow> map_failed wants CL_INVALID_COMMAND_QUEUE s | Some q \<Rightarrow>
     (case buffer of None \<Rightarrow> map_failed wants CL_INVALID_MEM_OBJECT s | Some b \<Rightarrow>
     andthen (fetch (queues s) q) (\<lambda>Q.
     andthen (fetch (mems s) b) (\<lambda>B.
     if map_error Q B map_flags offset sz num_events wait_list \<noteq> CL_SUCCESS
     then map_failed wants (map_error Q B map_flags offset sz num_events wait_list) s
     else andthen (retain_all [b] s) (\<lambda>s1.
     case map_ca of None \<Rightarrow> map_failed wants CL_OUT_OF_HOST_MEMORY s1 | Some p \<Rightarrow>
     if bit (mem_flags B) 3 \<and> mem_host_ptr B = NULL then throw AssertFail
     else let d = q_device Q;
              hp = (if bit (mem_flags B) 3 then mem_host_ptr B + offset
                    else map_mem d (device_ptrs B d) offset sz NULL)
          in if hp = NULL then map_failed wants CL_MAP_FAILURE s1
             else andthen (pocl_create_command cmd_ca event_ca q (Map_buffer b p) wants num_events wait_list s1)
               (\<lambda>(errcode, r, s2).
             case r of None \<Rightarrow> map_failed wants errcode s2 | Some (cmd, ev) \<Rightarrow>
               andthen (fetch (mems s2) b) (\<lambda>B2.
               andthen (DL_APPEND (map_links s2) (mappings B2) p) (\<lambda>(lk, h).
               andthen (pocl_command_enqueue q cmd
                 ((put_mem b (B2\<lparr>mappings := h\<rparr>) s2)\<lparr>map_links := lk,
                    maps := (maps s2)(p \<mapsto> \<lparr>map_host_ptr = hp, map_offset = offset, map_size = sz\<rparr>)\<rparr>)) (\<lambda>s3.
               andthen (if blocking_map then clFinish depth q s3 else ok (CL_SUCCESS, s3)) (\<lambda>(e, s4).
               ok (hp, e, Some ev, s4)))))))))))"

text \<open>
  Unmapping looks for the first mapping at the given address. When the command cannot be created, the
  call frees the event the caller's variable happens to hold, \<open>old\<close>, and the command, whose variable
  is not set when a null event stopped the creation.
\<close>

definition unmap_failed :: "bool \<Rightarrow> nat option \<Rightarrow> int \<Rightarrow> cl_state \<Rightarrow> (int \<times> nat option \<times> cl_state) prog" where
  "unmap_failed wants old errcode s =
     (if \<not> wants then throw NullDeref
      else if errcode = CL_INVALID_EVENT_WAIT_LIST then throw BadFree
      else case old of None \<Rightarrow> ok (errcode, None, s)
         | Some ev \<Rightarrow> if events s ev = None then throw BadFree
                     else ok (errcode, None, s\<lparr>events := (events s)(ev := None)\<rparr>))"

definition clEnqueueUnmapMemObject ::
  "nat option \<Rightarrow> nat option \<Rightarrow> nat option \<Rightarrow> nat option \<Rightarrow> addr \<Rightarrow> nat \<Rightarrow> nat option list option \<Rightarrow> bool \<Rightarrow> nat option \<Rightarrow>
   cl_state \<Rightarrow> (int \<times> nat option \<times> cl_state) prog" where
  "clEnqueueUnmapMemObject cmd_ca event_ca command_queue memobj mapped_ptr num_events wait_list wants old s =
     (case memobj of None \<Rightarrow> ok (CL_INVALID_MEM_OBJECT, None, s) | Some b \<Rightarrow>
     (case command_queue of None \<Rightarrow> ok (CL_INVALID_COMMAND_QUEUE, None, s) | Some q \<Rightarrow>
     andthen (fetch (queues s) q) (\<lambda>Q.
     andthen (fetch (mems s) b) (\<lambda>B.
     if q_context Q \<noteq> mem_context B then ok (CL_INVALID_CONTEXT, None, s)
     else if bad_wait_list num_events wait_list then ok (CL_INVALID_EVENT_WAIT_LIST, None, s)
     else (case foreach_find (nxt (map_links s)) (\<lambda>p. maps s p \<noteq> None \<and> map_host_ptr (the (maps s p)) = mapped_ptr)
              (mappings B) of
         None \<Rightarrow> None
       | Some None \<Rightarrow> ok (CL_INVALID_VALUE, None, s)
       | Some (Some p) \<Rightarrow>
           andthen (in_context Q s) (\<lambda>found.
           if \<not> found then throw AssertFail
           else andthen (pocl_create_command cmd_ca event_ca q (Unmap_mem_object b p) wants num_events wait_list s)
             (\<lambda>(errcode, r, s1).
             case r of
               None \<Rightarrow> unmap_failed wants old errcode s1
             | Some (cmd, ev) \<Rightarrow>
                 andthen (pocl_command_enqueue q cmd s1) (\<lambda>s2. ok (CL_SUCCESS, Some ev, s2)))))))))"

section \<open>Commands without data\<close>

abbreviation CL_COMMAND_BARRIER :: int where "CL_COMMAND_BARRIER \<equiv> 0x1205"

text \<open>The result of creating the barrier's command is not looked at; without memory the command is null.\<close>

definition clEnqueueBarrier :: "nat option \<Rightarrow> nat option \<Rightarrow> nat option \<Rightarrow> cl_state \<Rightarrow> (int \<times> cl_state) prog" where
  "clEnqueueBarrier cmd_ca event_ca command_queue s =
     (case command_queue of None \<Rightarrow> ok (CL_INVALID_COMMAND_QUEUE, s) | Some q \<Rightarrow>
      andthen (pocl_create_command cmd_ca event_ca q (Unknown_command CL_COMMAND_BARRIER) False 0 None s)
        (\<lambda>(errcode, r, s1).
      case r of
        None \<Rightarrow> throw NullDeref
      | Some (cmd, ev) \<Rightarrow> andthen (pocl_command_enqueue q cmd s1) (\<lambda>s2. ok (CL_SUCCESS, s2))))"

text \<open>On an error the marker frees the caller's event variable, and a command that need not be set.\<close>

definition clEnqueueMarkerWithWaitList ::
  "nat option \<Rightarrow> nat option \<Rightarrow> nat option \<Rightarrow> nat \<Rightarrow> nat option list option \<Rightarrow> bool \<Rightarrow> cl_state \<Rightarrow>
   (int \<times> nat option \<times> cl_state) prog" where
  "clEnqueueMarkerWithWaitList cmd_ca event_ca command_queue num_events wait_list wants s =
     (case command_queue of None \<Rightarrow> ok (CL_INVALID_COMMAND_QUEUE, None, s) | Some q \<Rightarrow>
      andthen (pocl_create_command cmd_ca event_ca q Marker wants num_events wait_list s) (\<lambda>(errcode, r, s1).
      case r of
        None \<Rightarrow> if wants \<or> errcode = CL_INVALID_EVENT_WAIT_LIST then throw BadFree else ok (errcode, None, s1)
      | Some (cmd, ev) \<Rightarrow> andthen (pocl_command_enqueue q cmd s1) (\<lambda>s2. ok (CL_SUCCESS, Some ev, s2))))"

definition clSetEventCallback ::
  "bool \<Rightarrow> nat option \<Rightarrow> int \<Rightarrow> nat option \<Rightarrow> cl_state \<Rightarrow> (int \<times> cl_state) prog" where
  "clSetEventCallback mallocs event trigger pfn_notify s =
     (case event of None \<Rightarrow> ok (CL_INVALID_EVENT, s) | Some ev \<Rightarrow>
     (case pfn_notify of None \<Rightarrow> ok (CL_INVALID_VALUE, s) | Some f \<Rightarrow>
      if trigger \<noteq> CL_SUBMITTED \<and> trigger \<noteq> CL_RUNNING \<and> trigger \<noteq> CL_COMPLETE then ok (CL_INVALID_VALUE, s)
      else if \<not> mallocs then ok (CL_OUT_OF_HOST_MEMORY, s)
      else andthen (fetch (events s) ev) (\<lambda>e.
           ok (CL_SUCCESS, put_event ev (e\<lparr>callbacks := callbacks e @ [(f, trigger)]\<rparr>) s))))"

end
