(* ===== verification/Cl_Transfer_Props.thy ===== *)
theory Cl_Transfer_Props
  imports Cl_Transfer Cl_Queue_Props Dev_Memory
begin

text \<open>
  The transfer commands: an accepted call leaves the queues in a state that \<open>clFinish\<close> can finish,
  with the references to its buffers counted; a blocking write followed by a blocking read returns
  the data; and the error paths that free or use what they must not.
\<close>

section \<open>Retaining buffers\<close>

definition more_refs :: "nat list \<Rightarrow> (nat \<Rightarrow> cl_mem option) \<Rightarrow> nat \<Rightarrow> cl_mem option" where
  "more_refs bs t b = map_option (\<lambda>m. m\<lparr>mem_refcount := mem_refcount m + int (count_list bs b)\<rparr>) (t b)"

lemma more_refs_Nil [simp]: "more_refs [] t = t"
  by (rule ext) (simp add: more_refs_def option.map_ident_strong)

lemma more_refs_Cons: "more_refs bs (more_refs [b] t) = more_refs (b # bs) t"
  by (rule ext) (simp add: more_refs_def option.map_comp comp_def algebra_simps)

lemma less_more_refs: "less_refs (map Some bs) (more_refs bs t) = t"
  by (rule ext) (simp add: more_refs_def less_refs_def option.map_comp comp_def count_list_map_conv
      option.map_ident_strong)

lemma clRetainMemObject_ok:
  assumes "mems s b \<noteq> None"
  shows "clRetainMemObject (Some b) s = ok (CL_SUCCESS, s\<lparr>mems := more_refs [b] (mems s)\<rparr>)"
proof -
  from assms obtain m where m: "mems s b = Some m" by auto
  have "more_refs [b] (mems s) = (mems s)(b \<mapsto> m\<lparr>mem_refcount := mem_refcount m + 1\<rparr>)"
    using m by (auto simp: more_refs_def fun_eq_iff option.map_ident_strong)
  then show ?thesis using m by (simp add: clRetainMemObject_def retain_mem_def fetch_def)
qed

lemma retain_all_ok:
  "\<forall>b \<in> set bs. mems s b \<noteq> None \<Longrightarrow> retain_all bs s = ok (s\<lparr>mems := more_refs bs (mems s)\<rparr>)"
proof (induction bs arbitrary: s)
  case (Cons b bs)
  have "\<forall>c \<in> set bs. mems (s\<lparr>mems := more_refs [b] (mems s)\<rparr>) c \<noteq> None"
    using Cons.prems by (auto simp: more_refs_def)
  from Cons.IH[OF this] Cons.prems show ?case by (simp add: clRetainMemObject_ok more_refs_Cons)
qed simp

section \<open>Queueing a transfer\<close>

text \<open>
  The queues hold the commands \<open>P\<close>, which can be executed, and the buffers and the queue of the new
  command are held by the application.
\<close>

lemma executable_append:
  assumes ex: "executable s P" and un: "unused Q s cmd ev" and P: "set P = queued Q"
    and q: "queues s q = Some Q0" "0 < q_refcount Q0" "devices s (q_device Q0) \<noteq> None"
    and c: "plain c" "kernel_refs c = []" "buffer_refs c = map Some bufs"
    and held: "\<forall>b \<in> set bufs. \<exists>m. mems s b = Some m \<and> 0 < mem_refcount m"
    and s': "nodes s' = (nodes s)(cmd \<mapsto> x)" "command x = c" "n_event x = ev" "n_device x = q_device Q0"
      "events s' = (events s)(ev \<mapsto> e)" "e_queue e = Some q" "e_refcount e = 1"
      "queues s' = (queues s)(q \<mapsto> Q1)" "q_refcount Q1 = q_refcount Q0 + 1"
      "mems s' = more_refs bufs (mems s)" "kernels s' = kernels s" "devices s' = devices s"
  shows "executable s' (P @ [cmd])"
proof -
  have nP: "n \<noteq> cmd" "node_event s n \<noteq> ev" if "n \<in> set P" for n
    using that un P by (auto simp: unused_def)
  have P': "\<exists>x e. nodes s' n = Some x \<and> plain (command x) \<and> devices s' (n_device x) \<noteq> None \<and>
      events s' (n_event x) = Some e \<and> (implicit_event e \<longrightarrow> e_refcount e = 1)" if n: "n \<in> set P" for n
  proof -
    from ex n obtain y f where y: "nodes s n = Some y" "plain (command y)" "devices s (n_device y) \<noteq> None"
      "events s (n_event y) = Some f" "implicit_event f \<longrightarrow> e_refcount f = 1"
      unfolding executable_def by blast
    moreover have "n_event y \<noteq> ev" using nP(2)[OF n] y(1) by (simp add: node_event_def)
    ultimately show ?thesis using nP(1)[OF n] by (simp add: s')
  qed
  have nc: "node_command s' n = node_command s n" if "n \<in> set P" for n
    using nP(1)[OF that] by (simp add: node_command_def s'(1))
  have qr: "queue_refs s' n = queue_refs s n" if "n \<in> set P" for n
    using nP[OF that] by (simp add: queue_refs_def node_event_def s'(1,5))
  have cmd: "node_command s' cmd = c" "queue_refs s' cmd = (if implicit_event e then [q] else [])"
    by (simp_all add: node_command_def queue_refs_def node_event_def s')
  have refs: "all_buffer_refs s' P = all_buffer_refs s P" "all_kernel_refs s' P = all_kernel_refs s P"
    "all_queue_refs s' P = all_queue_refs s P"
    using nc qr by (auto intro!: arg_cong[of _ _ concat] map_cong)
  note E = ex[unfolded executable_def]
  have "buffers_held (all_buffer_refs s P @ buffer_refs c) s'"
    unfolding buffers_held_def
  proof (intro allI impI)
    fix b assume b: "Some b \<in> set (all_buffer_refs s P @ buffer_refs c)"
    have cnt: "count_list (buffer_refs c) (Some b) = count_list bufs b"
      unfolding c(3) by (rule count_list_map_conv) simp
    have "\<exists>m. mems s b = Some m \<and> int (count_list (all_buffer_refs s P) (Some b)) < mem_refcount m"
    proof (cases "Some b \<in> set (all_buffer_refs s P)")
      case False
      moreover have "b \<in> set bufs" using b False c(3) by auto
      ultimately show ?thesis using held by (force simp: count_list_0_iff)
    qed (use E in \<open>auto simp: buffers_held_def\<close>)
    then show "\<exists>m. mems s' b = Some m \<and> int (count_list (all_buffer_refs s P @ buffer_refs c) (Some b)) < mem_refcount m"
      by (auto simp: s' more_refs_def cnt)
  qed
  moreover have "kernels_held (all_kernel_refs s P) s'" using E by (simp add: kernels_held_def s')
  moreover have "queues_held (all_queue_refs s P @ queue_refs s' cmd) s'"
    unfolding queues_held_def
  proof
    fix p assume "p \<in> set (all_queue_refs s P @ queue_refs s' cmd)"
    then have "p \<in> set (all_queue_refs s P) \<or> p = q" by (auto simp: cmd split: if_splits)
    then have "\<exists>y. queues s p = Some y \<and> int (count_list (all_queue_refs s P) p) < q_refcount y"
      using E q(1,2) by (cases "p \<in> set (all_queue_refs s P)") (auto simp: queues_held_def count_list_0_iff)
    then show "\<exists>y. queues s' p = Some y \<and> int (count_list (all_queue_refs s P @ queue_refs s' cmd) p) < q_refcount y"
      using q(1) by (auto simp: s' cmd)
  qed
  ultimately show ?thesis
    using P' c s'(7) q(3) unfolding executable_def
    by (auto simp: cmd refs s' simp del: append_assoc)
qed

text \<open>
  What a call leaves behind: the queues with the commands \<open>P\<close> can be finished. \<open>usable\<close> is what
  \<open>clFinish_run\<close> needs for the queue \<open>q\<close>.
\<close>

definition usable :: "(nat \<Rightarrow> nat) \<Rightarrow> (nat \<Rightarrow> nat list) \<Rightarrow> nat list \<Rightarrow> cl_state \<Rightarrow> bool" where
  "usable rank Q P s \<longleftrightarrow> loop_inv rank Q [] None s \<and> distinct P \<and> set P = queued Q \<and> executable s P"

text \<open>The queue, the buffers and the wait list of a transfer, and where its node and event come from.\<close>

definition can_queue ::
  "(nat \<Rightarrow> nat list) \<Rightarrow> nat option \<Rightarrow> nat option \<Rightarrow> nat \<Rightarrow> nat \<Rightarrow> nat \<Rightarrow> nat list \<Rightarrow> nat list option \<Rightarrow> cl_state \<Rightarrow> bool" where
  "can_queue Q cmd_ca event_ca cmd ev q bufs wl s \<longleftrightarrow>
     (\<exists>Q0. queues s q = Some Q0 \<and> 0 < q_refcount Q0 \<and> devices s (q_device Q0) \<noteq> None) \<and>
     (\<forall>b \<in> set bufs. \<exists>m. mems s b = Some m \<and> 0 < mem_refcount m) \<and>
     node_source cmd_ca cmd s \<and> event_source event_ca ev s \<and> unused Q s cmd ev \<and>
     wl \<noteq> Some [] \<and> (\<forall>w \<in> set (case wl of None \<Rightarrow> [] | Some ws \<Rightarrow> ws). waitable Q s w \<and> w \<noteq> ev)"

lemma queue_transfer_ok:
  assumes us: "usable rank Q P s" and cq: "can_queue Q cmd_ca event_ca cmd ev q bufs wl s"
    and c: "plain c" "kernel_refs c = []" "buffer_refs c = map Some bufs"
  obtains s' rank' where "queue_transfer cmd_ca event_ca q c bufs
      (length (case wl of None \<Rightarrow> [] | Some ws \<Rightarrow> ws)) (map_option (map Some) wl) wants s = ok (CL_SUCCESS, Some ev, s')"
    and "usable rank' (Q(q := Q q @ [cmd])) (P @ [cmd]) s'"
    and "mems s' = more_refs bufs (mems s)" and "actions s' = actions s"
    and "contexts s' = contexts s" and "devices s' = devices s"
    and "\<exists>Q0 h. queues s q = Some Q0 \<and> queues s' = (queues s)(q \<mapsto> Q0\<lparr>q_refcount := q_refcount Q0 + 1, root := h\<rparr>)"
    and "\<forall>w. w \<noteq> ev \<longrightarrow> events s' w = events s w"
    and "node_event s' cmd = ev" and "\<exists>e. events s' ev = Some e \<and> implicit_event e = (\<not> wants)"
    and "\<forall>n \<in> set P. node_event s' n = node_event s n \<and> queue_refs s' n = queue_refs s n \<and> node_actions s' n = node_actions s n"
    and "queue_refs s' cmd = (if wants then [] else [q])"
    and "buffer_refs (node_command s' cmd) = map Some bufs"
    and "\<forall>n \<in> set P. node_command s' n = node_command s n"
    and "\<exists>Q0 D. queues s q = Some Q0 \<and> devices s (q_device Q0) = Some D \<and>
      node_actions s' cmd = (if compiles_submitted D then [Dev_compile (q_device Q0) cmd] else []) @
        command_actions (q_device Q0) cmd c"
    and "event_list s = None \<longrightarrow> event_list s' = None" and "cmd_list s = None \<longrightarrow> cmd_list s' = None"
    and "\<forall>c' e'. unused Q s c' e' \<and> c' \<noteq> cmd \<and> e' \<notin> insert ev (set (case wl of None \<Rightarrow> [] | Some ws \<Rightarrow> ws)) \<longrightarrow>
      unused (Q(q := Q q @ [cmd])) s' c' e'"
proof -
  from us have inv: "loop_inv rank Q [] None s" and P: "distinct P" "set P = queued Q" and ex: "executable s P"
    by (simp_all add: usable_def)
  from cq obtain Q0 D where q: "queues s q = Some Q0" "0 < q_refcount Q0" "devices s (q_device Q0) = Some D"
    and held: "\<forall>b \<in> set bufs. \<exists>m. mems s b = Some m \<and> 0 < mem_refcount m"
    and src: "node_source cmd_ca cmd s" "event_source event_ca ev s" and un: "unused Q s cmd ev"
    and wl: "wl \<noteq> Some []" "\<forall>w \<in> set (case wl of None \<Rightarrow> [] | Some ws \<Rightarrow> ws). waitable Q s w \<and> w \<noteq> ev"
    unfolding can_queue_def by blast
  note I = inv[unfolded loop_inv_def]
  have l: "ll (node_next s) (root Q0) (Q q)" using I[THEN conjunct1, rule_format, of q] q by simp
  have live: "\<forall>n \<in> set (Q q). nodes s n \<noteq> None" using I by (auto simp: pending_ok_def)
  have new: "cmd \<notin> set (Q q)" using un by (auto simp: unused_def queued_def)
  obtain e s1 where s1: "pocl_create_command cmd_ca event_ca q c wants
      (length (case wl of None \<Rightarrow> [] | Some ws \<Rightarrow> ws)) (map_option (map Some) wl) s
      = ok (CL_SUCCESS, Some (cmd, ev), s1)"
    "s1 = s\<lparr>events := (events s)(ev \<mapsto> e), queues := (queues s)(q \<mapsto> Q0\<lparr>q_refcount := q_refcount Q0 + 1\<rparr>),
           event_next := event_next s1, event_list := event_list s1, cmd_list := cmd_list s1,
           nodes := nodes s1, node_next := (node_next s)(cmd := None)\<rparr>"
    "\<exists>x. nodes s1 = (nodes s)(cmd \<mapsto> x) \<and> command x = c \<and> n_event x = ev \<and> n_device x = q_device Q0 \<and>
           (case event_wait_list x of None \<Rightarrow> [] | Some ws \<Rightarrow> ws) =
             (case wl of None \<Rightarrow> [] | Some ws \<Rightarrow> ws) @ previous Q0 s (Q q)"
    "e_queue e = Some q" "e_refcount e = 1" "callbacks e = []" "implicit_event e = (\<not> wants)"
    "event_list s = None \<longrightarrow> event_list s1 = None" "cmd_list s = None \<longrightarrow> cmd_list s1 = None"
    by (rule pocl_create_command_ok[OF src q(1) l live new wl(1)])
  from s1(3) obtain x where x: "nodes s1 = (nodes s)(cmd \<mapsto> x)" "command x = c" "n_event x = ev" "n_device x = q_device Q0"
    "(case event_wait_list x of None \<Rightarrow> [] | Some ws \<Rightarrow> ws) = (case wl of None \<Rightarrow> [] | Some ws \<Rightarrow> ws) @ previous Q0 s (Q q)"
    by blast
  have sel1: "mems s1 = mems s" "events s1 = (events s)(ev \<mapsto> e)" "contexts s1 = contexts s" "devices s1 = devices s"
    "queues s1 = (queues s)(q \<mapsto> Q0\<lparr>q_refcount := q_refcount Q0 + 1\<rparr>)" "kernels s1 = kernels s"
    "node_next s1 = (node_next s)(cmd := None)" "actions s1 = actions s"
    using s1(2) by (cases s; cases s1; simp)+
  define s2 where "s2 = s1\<lparr>mems := more_refs bufs (mems s1)\<rparr>"
  have r: "retain_all bufs s1 = ok s2" unfolding s2_def
    by (rule retain_all_ok) (use held sel1 in force)
  have sel: "events s2 = (events s)(ev \<mapsto> e)" "queues s2 = (queues s)(q \<mapsto> Q0\<lparr>q_refcount := q_refcount Q0 + 1\<rparr>)"
    "node_next s2 = (node_next s)(cmd := None)" "actions s2 = actions s" "mems s2 = more_refs bufs (mems s)"
    "nodes s2 = (nodes s)(cmd \<mapsto> x)" "contexts s2 = contexts s" "devices s2 = devices s" "kernels s2 = kernels s"
    "event_list s2 = event_list s1" "cmd_list s2 = cmd_list s1"
    by (simp_all add: s2_def sel1 x)
  obtain s' e' h rank' where s': "pocl_command_enqueue q cmd s2 = ok s'"
    "s' = s2\<lparr>ticks := ticks s', events := (events s)(ev \<mapsto> e'),
       queues := (queues s)(q \<mapsto> Q0\<lparr>q_refcount := q_refcount Q0 + 1, root := h\<rparr>), node_next := node_next s'\<rparr>"
    "status e' = CL_QUEUED" "same_event e e'" "loop_inv rank' (Q(q := Q q @ [cmd])) [] None s'"
    by (rule enqueue_created_inv[OF inv q(1) un wl(2) sel(6) x(3,5) sel(1-3) s1(4)])
  have sel': "nodes s' = (nodes s)(cmd \<mapsto> x)" "events s' = (events s)(ev \<mapsto> e')" "actions s' = actions s"
    "mems s' = more_refs bufs (mems s)" "contexts s' = contexts s" "devices s' = devices s" "kernels s' = kernels s"
    "queues s' = (queues s)(q \<mapsto> Q0\<lparr>q_refcount := q_refcount Q0 + 1, root := h\<rparr>)"
    "event_list s' = event_list s1" "cmd_list s' = cmd_list s1"
    by (subst s'(2), simp add: sel)+
  have e': "e_queue e' = Some q" "e_refcount e' = 1" "callbacks e' = []" "implicit_event e' = (\<not> wants)"
    using s'(4) s1(4-7) by (simp_all add: same_event_def)
  have nP: "n \<noteq> cmd" "node_event s n \<noteq> ev" if "n \<in> set P" for n
    using that un P(2) by (auto simp: unused_def)
  have "devices s (q_device Q0) \<noteq> None" using q(3) by simp
  from executable_append[OF ex un P(2) q(1,2) this c held sel'(1) x(2-4) sel'(2) e'(1,2) sel'(8) _ sel'(4) sel'(7,6)]
  have ex': "executable s' (P @ [cmd])" by simp
  have qQ: "queued (Q(q := Q q @ [cmd])) = insert cmd (queued Q)" by (auto simp: queued_def split: if_splits)
  moreover have "cmd \<notin> queued Q" using un by (simp add: unused_def)
  ultimately have us': "usable rank' (Q(q := Q q @ [cmd])) (P @ [cmd]) s'"
    using P s'(5) ex' by (simp add: usable_def)
  have eq: "queue_transfer cmd_ca event_ca q c bufs
      (length (case wl of None \<Rightarrow> [] | Some ws \<Rightarrow> ws)) (map_option (map Some) wl) wants s = ok (CL_SUCCESS, Some ev, s')"
    by (simp add: queue_transfer_def s1(1) r s'(1))
  have cmd: "node_event s' cmd = ev" "node_command s' cmd = c" by (simp_all add: node_event_def node_command_def sel' x)
  have same: "node_event s' n = node_event s n \<and> queue_refs s' n = queue_refs s n \<and> node_actions s' n = node_actions s n
    \<and> node_command s' n = node_command s n"
    if n: "n \<in> set P" for n
  proof -
    from ex n obtain y where y: "nodes s n = Some y" unfolding executable_def by blast
    then have "n_event y \<noteq> ev" using nP(2)[OF n] by (simp add: node_event_def)
    then show ?thesis using y nP(1)[OF n]
      by (simp add: node_event_def queue_refs_def node_actions_def node_command_def sel' split: option.splits)
  qed
  have "queue_refs s' cmd = (if wants then [] else [q])" by (simp add: queue_refs_def cmd sel' e')
  moreover have "node_actions s' cmd = (if compiles_submitted D then [Dev_compile (q_device Q0) cmd] else []) @
      command_actions (q_device Q0) cmd c"
    by (simp add: node_actions_def sel' x q(3) e')
  moreover have "\<exists>Q1 k. queues s q = Some Q1 \<and>
      queues s' = (queues s)(q \<mapsto> Q1\<lparr>q_refcount := q_refcount Q1 + 1, root := k\<rparr>)"
    using q(1) sel'(8) by blast
  moreover have "unused (Q(q := Q q @ [cmd])) s' c' e'"
    if u: "unused Q s c' e'" and "c' \<noteq> cmd" and e: "e' \<notin> insert ev (set (case wl of None \<Rightarrow> [] | Some ws \<Rightarrow> ws))" for c' e'
  proof -
    have "waits s' cmd = (case wl of None \<Rightarrow> [] | Some ws \<Rightarrow> ws) @ previous Q0 s (Q q)"
      using x(5) by (simp add: waits_def sel')
    moreover have "e' \<notin> set (previous Q0 s (Q q))"
    proof (cases "Q q = []")
      case False
      then have "last (Q q) \<in> set (Q q)" by simp
      then have "last (Q q) \<in> queued Q" unfolding queued_def by blast
      with u show ?thesis by (auto simp: unused_def previous_def)
    qed (simp add: previous_def)
    moreover have "waits s' n = waits s n" if "n \<in> queued Q" for n
      using nP(1) that P(2) by (simp add: waits_def sel')
    ultimately show ?thesis
      using u same P(2) that e by (auto simp: unused_def cmd qQ)
  qed
  ultimately show thesis
    using same by (intro that[OF eq us']) (simp_all add: sel' cmd e' c q s1(8,9))
qed

section \<open>Finishing the only busy queue\<close>

text \<open>No queue holds a command.\<close>

definition idle :: "cl_state \<Rightarrow> bool" where
  "idle s \<longleftrightarrow> (\<forall>q Q. queues s q = Some Q \<longrightarrow> root Q = None)"

lemma idle_usable: "idle s \<Longrightarrow> usable id (\<lambda>_. []) [] s"
  by (auto simp: idle_def usable_def loop_inv_def queued_def executable_def ll_def buffers_held_def kernels_held_def
      queues_held_def split: option.splits)

lemma unused_idle: "unused (\<lambda>_. []) s cmd ev"
  by (simp add: unused_def queued_def)

lemma finish_only_queue:
  assumes us: "usable rank Q P s" and only: "\<forall>p. p \<noteq> q \<longrightarrow> Q p = []" and q: "queues s q = Some Q0" "\<not> q_out_of_order Q0"
  obtains s' where "clFinish (Suc (Suc d)) q s = ok (CL_SUCCESS, s')" and "idle s'"
    and "actions s' = actions s @ concat (map (node_actions s) (Q q))"
    and "mems s' = less_refs (all_buffer_refs s (Q q)) (mems s)"
    and "contexts s' = contexts s" and "devices s' = devices s"
    and "\<forall>n \<in> set (Q q). \<exists>e. events s' (node_event s n) = Some e \<and> status e = CL_COMPLETE"
proof -
  from us have inv: "loop_inv rank Q [] None s" and P: "distinct P" "set P = queued Q" "executable s P"
    by (simp_all add: usable_def)
  have other: "\<forall>p. p \<noteq> q \<longrightarrow> (\<forall>n \<in> set (Q p). queue_refs s n = [])" using only by simp
  obtain s' R Q' where R: "clFinish (Suc (Suc d)) q s = ok (CL_SUCCESS, s')"
    "Q' q = []" "\<forall>p. Q p = filter (\<lambda>n. n \<in> set (Q p)) R @ Q' p" "ordered s {} R"
    "actions s' = actions s @ concat (map (node_actions s) R)"
    "\<forall>n \<in> set R. \<exists>e. events s' (node_event s n) = Some e \<and> status e = CL_COMPLETE"
    "\<forall>w. w \<notin> node_event s ` set R \<longrightarrow> events s' w = events s w"
    "loop_inv rank Q' [] None s'" "distinct R" "set R \<subseteq> queued Q" "mems s' = less_refs (all_buffer_refs s R) (mems s)"
    "contexts s' = contexts s" "devices s' = devices s"
    by (rule clFinish_run[OF inv q P other, of d])
  have "n \<in> set (Q q)" if n: "n \<in> set R" for n
  proof -
    from n R(10) obtain p where "n \<in> set (Q p)" unfolding queued_def by blast
    with only show ?thesis by (cases "p = q") auto
  qed
  then have "filter (\<lambda>n. n \<in> set (Q q)) R = R" by (simp add: filter_id_conv)
  with R(2,3) have RQ: "R = Q q" by (metis append_Nil2)
  have "Q' p = []" for p
  proof (cases "p = q")
    case False
    with only R(3)[rule_format, of p] show ?thesis by simp
  qed (use R(2) in simp)
  then have "Q' = (\<lambda>_. [])" by (simp add: fun_eq_iff)
  with R(8) have i: "idle s'" by (auto simp: idle_def loop_inv_def ll_def dest!: spec split: option.splits)
  show thesis by (rule that[OF R(1) i]) (use R(5,6,11-13) in \<open>simp_all add: RQ\<close>)
qed

section \<open>Accepted calls\<close>

lemma wait_list_ok:
  assumes "wl \<noteq> Some []"
  shows "\<not> bad_wait_list (length (case wl of None \<Rightarrow> [] | Some ws \<Rightarrow> ws)) (map_option (map Some) wl)"
    and "\<not> has_null_event (length (case wl of None \<Rightarrow> [] | Some ws \<Rightarrow> ws)) (map_option (map Some) wl)"
  using assms by (cases wl; simp add: bad_wait_list_def has_null_event_def)+

text \<open>The queue and one of its buffers, with a range of the buffer.\<close>

definition buffer_of :: "nat \<Rightarrow> nat \<Rightarrow> cl_command_queue \<Rightarrow> cl_mem \<Rightarrow> cl_state \<Rightarrow> bool" where
  "buffer_of q b Q0 B s \<longleftrightarrow> queues s q = Some Q0 \<and> mems s b = Some B \<and> q_context Q0 = mem_context B \<and>
     (\<exists>C. contexts s (q_context Q0) = Some C \<and> q_device Q0 \<in> set (ctx_devices C))"

lemma write_accepted:
  assumes "buffer_of q b Q0 B s" and "ptr \<noteq> NULL" and "pocl_buffer_boundcheck B off cb = CL_SUCCESS" and "wl \<noteq> Some []"
  shows "clEnqueueWriteBuffer depth cmd_ca event_ca (Some q) (Some b) blocking off cb ptr
      (length (case wl of None \<Rightarrow> [] | Some ws \<Rightarrow> ws)) (map_option (map Some) wl) wants s =
    andthen (queue_transfer cmd_ca event_ca q (Write_buffer ptr (device_ptrs B (q_device Q0)) off cb b) [b]
      (length (case wl of None \<Rightarrow> [] | Some ws \<Rightarrow> ws)) (map_option (map Some) wl) wants s) (finish_if blocking depth q)"
  using assms wait_list_ok[OF assms(4)]
  by (auto simp: clEnqueueWriteBuffer_def buffer_of_def in_context_def fetch_def)

lemma read_accepted:
  assumes "buffer_of q b Q0 B s" and "ptr \<noteq> NULL" and "pocl_buffer_boundcheck B off cb = CL_SUCCESS" and "wl \<noteq> Some []"
  shows "clEnqueueReadBuffer depth cmd_ca event_ca (Some q) (Some b) blocking off cb ptr
      (length (case wl of None \<Rightarrow> [] | Some ws \<Rightarrow> ws)) (map_option (map Some) wl) wants s =
    andthen (queue_transfer cmd_ca event_ca q (Read_buffer ptr (device_ptrs B (q_device Q0)) off cb b) [b]
      (length (case wl of None \<Rightarrow> [] | Some ws \<Rightarrow> ws)) (map_option (map Some) wl) wants s) (finish_if blocking depth q)"
  using assms wait_list_ok[OF assms(4)]
  by (auto simp: clEnqueueReadBuffer_def buffer_of_def fetch_def)

lemma copy_accepted:
  assumes "buffer_of q b1 Q0 B1 s" and "buffer_of q b2 Q0 B2 s"
    and "mem_type B1 = CL_MEM_OBJECT_BUFFER" and "mem_type B2 = CL_MEM_OBJECT_BUFFER" and "cb \<noteq> 0"
    and "pocl_buffers_boundcheck B1 B2 o1 o2 cb = CL_SUCCESS"
    and "pocl_buffers_overlap (\<lambda>i. the (mems s i)) b1 b2 o1 o2 cb = CL_SUCCESS" and "wl \<noteq> Some []"
  shows "clEnqueueCopyBuffer cmd_ca event_ca (Some q) (Some b1) (Some b2) o1 o2 cb
      (length (case wl of None \<Rightarrow> [] | Some ws \<Rightarrow> ws)) (map_option (map Some) wl) wants s =
    queue_transfer cmd_ca event_ca q
      (Copy_buffer (device_ptrs B1 (q_device Q0)) o1 (device_ptrs B2 (q_device Q0)) o2 cb b1 b2) [b1, b2]
      (length (case wl of None \<Rightarrow> [] | Some ws \<Rightarrow> ws)) (map_option (map Some) wl) wants s"
  using assms wait_list_ok[OF assms(8)]
  by (auto simp: clEnqueueCopyBuffer_def buffer_of_def in_context_def fetch_def)

lemma boundcheck_refcount [simp]:
  "pocl_buffer_boundcheck (B\<lparr>mem_refcount := k\<rparr>) off cb = pocl_buffer_boundcheck B off cb"
  "pocl_buffers_boundcheck (B\<lparr>mem_refcount := k\<rparr>) (C\<lparr>mem_refcount := l\<rparr>) o1 o2 cb = pocl_buffers_boundcheck B C o1 o2 cb"
  by (simp_all add: pocl_buffer_boundcheck_def pocl_buffers_boundcheck_def)

lemma overlap_more_refs:
  "pocl_buffers_overlap (\<lambda>i. the (more_refs bs t i)) b1 b2 o1 o2 cb = pocl_buffers_overlap (\<lambda>i. the (t i)) b1 b2 o1 o2 cb"
proof -
  have "parent (the (more_refs bs t i)) = parent (the (t i)) \<and> mem_host_ptr (the (more_refs bs t i)) = mem_host_ptr (the (t i))"
    for i by (cases "t i") (simp_all add: more_refs_def)
  then show ?thesis by (simp add: pocl_buffers_overlap_def split: option.split)
qed

section \<open>Data written, copied and read back\<close>

text \<open>What the commands do to memory on the basic device.\<close>

fun basic_effect :: "action \<Rightarrow> memory \<Rightarrow> memory" where
  "basic_effect (Dev_read d hp dp off cb) m = pocl_basic_read hp dp off cb m"
| "basic_effect (Dev_write d hp dp off cb) m = pocl_basic_write hp dp off cb m"
| "basic_effect (Dev_copy d sp so dp do cb) m = pocl_basic_copy sp so dp do cb m"
| "basic_effect (Dev_read_rect d hp dp org reg rp sp) m = pocl_basic_read_rect hp dp org org reg rp sp rp sp m"
| "basic_effect (Dev_write_rect d hp dp org reg rp sp) m = pocl_basic_write_rect hp dp org org reg rp sp rp sp m"
| "basic_effect _ m = m"

lemma memcpy_at: "i < n \<Longrightarrow> memcpy dst src n m (dst + i) = m (src + i)"
  by (simp add: memcpy_def)

lemma more_refs_append: "more_refs bs (more_refs as t) = more_refs (as @ bs) t"
  by (rule ext) (simp add: more_refs_def option.map_comp comp_def algebra_simps)

text \<open>
  The state after transfers \<open>cmds\<close> with the events \<open>evs\<close> were queued on the idle queues of \<open>s0\<close>, in a
  runtime that has not recycled objects: \<open>as\<close> is what the device will see, \<open>refs\<close> the buffers held.
\<close>

definition loaded ::
  "cl_state \<Rightarrow> nat \<Rightarrow> cl_command_queue \<Rightarrow> nat list \<Rightarrow> nat list \<Rightarrow> action list \<Rightarrow> nat list \<Rightarrow> cl_state \<Rightarrow> bool" where
  "loaded s0 q Q0 cmds evs as refs s \<longleftrightarrow>
     (\<exists>rank. usable rank ((\<lambda>_. [])(q := cmds)) cmds s) \<and> event_list s = None \<and> cmd_list s = None \<and>
     mems s = more_refs refs (mems s0) \<and> contexts s = contexts s0 \<and> devices s = devices s0 \<and> actions s = actions s0 \<and>
     concat (map (node_actions s) cmds) = as \<and> all_buffer_refs s cmds = map Some refs \<and>
     (\<exists>k h. queues s = (queues s0)(q \<mapsto> Q0\<lparr>q_refcount := k, root := h\<rparr>) \<and> 0 < k) \<and>
     (\<forall>c e. c \<notin> set cmds \<and> e \<notin> set evs \<longrightarrow> unused ((\<lambda>_. [])(q := cmds)) s c e)"

lemma loaded_idle:
  assumes "idle s" and "event_list s = None" and "cmd_list s = None" and "queues s q = Some Q0" and "0 < q_refcount Q0"
  shows "loaded s q Q0 [] [] [] [] s"
proof -
  have "(\<lambda>_. [])(q := []) = (\<lambda>_. [] :: nat list)" by (simp add: fun_eq_iff)
  moreover have "queues s = (queues s)(q \<mapsto> Q0\<lparr>q_refcount := q_refcount Q0, root := None\<rparr>)"
    using assms(1,4) by (auto simp: idle_def fun_eq_iff)
  then have "\<exists>k h. queues s = (queues s)(q \<mapsto> Q0\<lparr>q_refcount := k, root := h\<rparr>) \<and> 0 < k" using assms(5) by blast
  ultimately show ?thesis
    using assms(2,3) idle_usable[OF assms(1)] unused_idle[of s] unfolding loaded_def by auto
qed

lemma loaded_more:
  assumes l: "loaded s0 q Q0 cmds evs as refs s" and new: "cmd \<notin> set cmds" "ev \<notin> set evs"
    and c: "plain c" "kernel_refs c = []" "buffer_refs c = map Some bufs"
    and live: "\<forall>b \<in> set bufs. \<exists>m. mems s0 b = Some m \<and> 0 < mem_refcount m" and D: "devices s0 (q_device Q0) = Some D"
  shows "\<exists>s'. queue_transfer (Some cmd) (Some ev) q c bufs 0 None wants s = ok (CL_SUCCESS, Some ev, s') \<and>
    loaded s0 q Q0 (cmds @ [cmd]) (evs @ [ev])
      (as @ (if compiles_submitted D then [Dev_compile (q_device Q0) cmd] else []) @ command_actions (q_device Q0) cmd c)
      (refs @ bufs) s'"
proof -
  let ?Q = "(\<lambda>_. [])(q := cmds)"
  from l obtain rank k h where us: "usable rank ?Q cmds s" and fr: "event_list s = None" "cmd_list s = None"
    and sel: "mems s = more_refs refs (mems s0)" "contexts s = contexts s0" "devices s = devices s0" "actions s = actions s0"
      "concat (map (node_actions s) cmds) = as" "all_buffer_refs s cmds = map Some refs"
      "queues s = (queues s0)(q \<mapsto> Q0\<lparr>q_refcount := k, root := h\<rparr>)" "0 < k"
    and un: "\<forall>c e. c \<notin> set cmds \<and> e \<notin> set evs \<longrightarrow> unused ?Q s c e"
    unfolding loaded_def by blast
  have "can_queue ?Q (Some cmd) (Some ev) cmd ev q bufs None s"
    unfolding can_queue_def node_source_def event_source_def
    using new un fr live D sel by (fastforce simp: more_refs_def)
  then obtain s' rank' where q: "queue_transfer (Some cmd) (Some ev) q c bufs
      (length (case None of None \<Rightarrow> [] | Some (ws :: nat list) \<Rightarrow> ws)) (map_option (map Some) None) wants s = ok (CL_SUCCESS, Some ev, s')"
    "usable rank' (?Q(q := ?Q q @ [cmd])) (cmds @ [cmd]) s'"
    "mems s' = more_refs bufs (mems s)" "actions s' = actions s" "contexts s' = contexts s" "devices s' = devices s"
    "\<exists>Q0 h. queues s q = Some Q0 \<and> queues s' = (queues s)(q \<mapsto> Q0\<lparr>q_refcount := q_refcount Q0 + 1, root := h\<rparr>)"
    "\<forall>w. w \<noteq> ev \<longrightarrow> events s' w = events s w"
    "node_event s' cmd = ev" "\<exists>e. events s' ev = Some e \<and> implicit_event e = (\<not> wants)"
    "\<forall>n \<in> set cmds. node_event s' n = node_event s n \<and> queue_refs s' n = queue_refs s n \<and> node_actions s' n = node_actions s n"
    "queue_refs s' cmd = (if wants then [] else [q])" "buffer_refs (node_command s' cmd) = map Some bufs"
    "\<forall>n \<in> set cmds. node_command s' n = node_command s n"
    "\<exists>Q0 D. queues s q = Some Q0 \<and> devices s (q_device Q0) = Some D \<and>
      node_actions s' cmd = (if compiles_submitted D then [Dev_compile (q_device Q0) cmd] else []) @
        command_actions (q_device Q0) cmd c"
    "event_list s = None \<longrightarrow> event_list s' = None" "cmd_list s = None \<longrightarrow> cmd_list s' = None"
    "\<forall>c' e'. unused ?Q s c' e' \<and> c' \<noteq> cmd \<and> e' \<notin> insert ev (set (case None of None \<Rightarrow> [] | Some ws \<Rightarrow> ws)) \<longrightarrow>
      unused (?Q(q := ?Q q @ [cmd])) s' c' e'"
    by (rule queue_transfer_ok[OF us _ c, where wants = wants])
  have Q: "?Q(q := ?Q q @ [cmd]) = (\<lambda>_. [])(q := cmds @ [cmd])" by simp
  have A: "concat (map (node_actions s') (cmds @ [cmd])) =
      as @ (if compiles_submitted D then [Dev_compile (q_device Q0) cmd] else []) @ command_actions (q_device Q0) cmd c"
    using q(11,15) sel(3,5,7) D by (auto cong: map_cong)
  have B: "all_buffer_refs s' (cmds @ [cmd]) = map Some (refs @ bufs)"
    using q(13,14) sel(6) by (auto cong: map_cong)
  have U: "\<forall>c e. c \<notin> set (cmds @ [cmd]) \<and> e \<notin> set (evs @ [ev]) \<longrightarrow> unused ((\<lambda>_. [])(q := cmds @ [cmd])) s' c e"
    using q(18) un unfolding Q by simp
  have K: "\<exists>k h. queues s' = (queues s0)(q \<mapsto> Q0\<lparr>q_refcount := k, root := h\<rparr>) \<and> 0 < k"
    using q(7) sel(7,8) by (intro exI[of _ "k + 1"]) auto
  have "loaded s0 q Q0 (cmds @ [cmd]) (evs @ [ev])
      (as @ (if compiles_submitted D then [Dev_compile (q_device Q0) cmd] else []) @ command_actions (q_device Q0) cmd c)
      (refs @ bufs) s'"
    unfolding loaded_def
    using q(2) A B U K fr q(3-6,16,17) sel(1-4) unfolding Q by (auto simp: more_refs_append)
  then show ?thesis using q(1) by auto
qed

lemma loaded_finish:
  assumes l: "loaded s0 q Q0 cmds evs as refs s" and "\<not> q_out_of_order Q0"
  shows "\<exists>s'. clFinish (Suc (Suc d)) q s = ok (CL_SUCCESS, s') \<and> idle s' \<and> actions s' = actions s0 @ as \<and> mems s' = mems s0"
proof -
  from l obtain rank k h where us: "usable rank ((\<lambda>_. [])(q := cmds)) cmds s"
    and sel: "mems s = more_refs refs (mems s0)" "actions s = actions s0"
      "concat (map (node_actions s) cmds) = as" "all_buffer_refs s cmds = map Some refs"
      "queues s q = Some (Q0\<lparr>q_refcount := k, root := h\<rparr>)"
    unfolding loaded_def by auto
  from finish_only_queue[OF us _ sel(5), of d] assms(2) obtain s' where "clFinish (Suc (Suc d)) q s = ok (CL_SUCCESS, s')"
    "idle s'" "actions s' = actions s @ concat (map (node_actions s) cmds)"
    "mems s' = less_refs (all_buffer_refs s cmds) (mems s)" by auto
  then show ?thesis using sel by (simp add: less_more_refs)
qed

lemma loaded_buffer:
  assumes "loaded s0 q Q0 cmds evs as refs s" and "buffer_of q b Q0 B s0"
  shows "\<exists>Q1. buffer_of q b Q1 (B\<lparr>mem_refcount := mem_refcount B + int (count_list refs b)\<rparr>) s \<and> q_device Q1 = q_device Q0"
  using assms by (auto simp: loaded_def buffer_of_def more_refs_def)

text \<open>C51: Data survives the trip through two buffers: on an idle in-order queue, writing \<open>cb\<close> bytes
  from the host to one buffer, copying them to another and reading them back with a blocking read,
  the first two calls only queued, answers \<open>CL_SUCCESS\<close> three times; the one \<open>clFinish\<close> inside the
  read runs the three commands in order, so the host area of the read ends up with the bytes of the
  host area of the write. The queues are idle again and all reference counts of buffers are as
  before.\<close>

theorem write_copy_read:
  assumes idle: "idle s" and fresh: "event_list s = None" "cmd_list s = None"
    and dist: "distinct [c1, c2, c3 :: nat]" "distinct [e1, e2, e3 :: nat]"
    and q: "\<not> q_out_of_order Q0" "0 < q_refcount Q0" "devices s (q_device Q0) = Some D"
    and b: "buffer_of q b1 Q0 B1 s" "buffer_of q b2 Q0 B2 s" "0 < mem_refcount B1" "0 < mem_refcount B2"
      "mem_type B1 = CL_MEM_OBJECT_BUFFER" "mem_type B2 = CL_MEM_OBJECT_BUFFER"
    and range: "cb \<noteq> 0" "pocl_buffer_boundcheck B1 o1 cb = CL_SUCCESS" "pocl_buffer_boundcheck B2 o2 cb = CL_SUCCESS"
      "pocl_buffers_boundcheck B1 B2 o1 o2 cb = CL_SUCCESS"
      "pocl_buffers_overlap (\<lambda>i. the (mems s i)) b1 b2 o1 o2 cb = CL_SUCCESS"
    and ptrs: "p \<noteq> NULL" "r \<noteq> NULL" "p \<noteq> device_ptrs B1 (q_device Q0)" "r \<noteq> device_ptrs B2 (q_device Q0)"
      "device_ptrs B1 (q_device Q0) \<noteq> device_ptrs B2 (q_device Q0)"
  shows "\<exists>s1 s2 s3 as.
    clEnqueueWriteBuffer d (Some c1) (Some e1) (Some q) (Some b1) False o1 cb p 0 None w1 s = ok (CL_SUCCESS, Some e1, s1) \<and>
    clEnqueueCopyBuffer (Some c2) (Some e2) (Some q) (Some b1) (Some b2) o1 o2 cb 0 None w2 s1 = ok (CL_SUCCESS, Some e2, s2) \<and>
    clEnqueueReadBuffer (Suc (Suc d)) (Some c3) (Some e3) (Some q) (Some b2) True o2 cb r 0 None w3 s2 =
      ok (CL_SUCCESS, Some e3, s3) \<and>
    actions s2 = actions s \<and> actions s3 = actions s @ as \<and> idle s3 \<and> mems s3 = mems s \<and>
    (\<forall>m i. i < cb \<longrightarrow> fold basic_effect as m (r + i) = m (p + i))"
proof -
  let ?d = "q_device Q0"
  let ?W = "Write_buffer p (device_ptrs B1 ?d) o1 cb b1"
  let ?C = "Copy_buffer (device_ptrs B1 ?d) o1 (device_ptrs B2 ?d) o2 cb b1 b2"
  let ?R = "Read_buffer r (device_ptrs B2 ?d) o2 cb b2"
  let ?compile = "\<lambda>c. if compiles_submitted D then [Dev_compile ?d c] else []"
  have Q: "queues s q = Some Q0" and m: "mems s b1 = Some B1" "mems s b2 = Some B2"
    using b by (simp_all add: buffer_of_def)
  note more = loaded_more[OF _ _ _ _ _ _ _ q(3)]
  from more[OF loaded_idle[OF idle fresh Q q(2)], of c1 e1 ?W "[b1]" w1] obtain s1 where
    s1: "queue_transfer (Some c1) (Some e1) q ?W [b1] 0 None w1 s = ok (CL_SUCCESS, Some e1, s1)"
    and l1: "loaded s q Q0 [c1] [e1] (?compile c1 @ command_actions ?d c1 ?W) [b1] s1"
    using m b by auto
  from more[OF l1, of c2 e2 ?C "[b1, b2]" w2] obtain s2 where
    s2: "queue_transfer (Some c2) (Some e2) q ?C [b1, b2] 0 None w2 s1 = ok (CL_SUCCESS, Some e2, s2)"
    and l2: "loaded s q Q0 [c1, c2] [e1, e2]
      (?compile c1 @ command_actions ?d c1 ?W @ ?compile c2 @ command_actions ?d c2 ?C) [b1, b1, b2] s2"
    using m b dist by auto
  from more[OF l2, of c3 e3 ?R "[b2]" w3] obtain s3 where
    s3: "queue_transfer (Some c3) (Some e3) q ?R [b2] 0 None w3 s2 = ok (CL_SUCCESS, Some e3, s3)"
    and l3: "loaded s q Q0 [c1, c2, c3] [e1, e2, e3]
      (?compile c1 @ command_actions ?d c1 ?W @ ?compile c2 @ command_actions ?d c2 ?C @ ?compile c3 @ command_actions ?d c3 ?R)
      [b1, b1, b2, b2] s3"
    using m b dist by auto
  from loaded_finish[OF l3 q(1), of d] obtain s4 where s4: "clFinish (Suc (Suc d)) q s3 = ok (CL_SUCCESS, s4)" "idle s4"
    "actions s4 = actions s @ ?compile c1 @ command_actions ?d c1 ?W @ ?compile c2 @ command_actions ?d c2 ?C @
       ?compile c3 @ command_actions ?d c3 ?R" "mems s4 = mems s" by blast
  have W: "clEnqueueWriteBuffer d (Some c1) (Some e1) (Some q) (Some b1) False o1 cb p 0 None w1 s = ok (CL_SUCCESS, Some e1, s1)"
    using write_accepted[OF b(1) ptrs(1) range(2), of None] s1 by (simp add: finish_if_def)
  obtain Q1 Q2 where b1': "buffer_of q b1 Q1 (B1\<lparr>mem_refcount := mem_refcount B1 + 1\<rparr>) s1" "q_device Q1 = ?d"
    and b2': "buffer_of q b2 Q2 (B2\<lparr>mem_refcount := mem_refcount B2 + int (count_list [b1] b2)\<rparr>) s1" "q_device Q2 = ?d"
    using loaded_buffer[OF l1 b(1)] loaded_buffer[OF l1 b(2)] by auto
  have "Q2 = Q1" using b1' b2' by (simp add: buffer_of_def)
  moreover have "pocl_buffers_overlap (\<lambda>i. the (mems s1 i)) b1 b2 o1 o2 cb = CL_SUCCESS"
    using l1 range(5) by (simp add: loaded_def overlap_more_refs)
  ultimately have C: "clEnqueueCopyBuffer (Some c2) (Some e2) (Some q) (Some b1) (Some b2) o1 o2 cb 0 None w2 s1 =
      ok (CL_SUCCESS, Some e2, s2)"
    using copy_accepted[OF b1'(1) b2'(1)[unfolded \<open>Q2 = Q1\<close>], of cb o1 o2 None] b(5,6) range(1,4) b1'(2) s2
    by simp
  obtain Q3 where b3: "buffer_of q b2 Q3 (B2\<lparr>mem_refcount := mem_refcount B2 + int (count_list [b1, b1, b2] b2)\<rparr>) s2"
    "q_device Q3 = ?d" using loaded_buffer[OF l2 b(2)] by blast
  have R: "clEnqueueReadBuffer (Suc (Suc d)) (Some c3) (Some e3) (Some q) (Some b2) True o2 cb r 0 None w3 s2 =
      ok (CL_SUCCESS, Some e3, s4)"
    using read_accepted[OF b3(1) ptrs(2), of o2 cb None] range(3) s3 s4(1) b3(2)
    by (simp add: finish_if_def)
  define as where "as = ?compile c1 @ command_actions ?d c1 ?W @ ?compile c2 @ command_actions ?d c2 ?C @
       ?compile c3 @ command_actions ?d c3 ?R"
  have "fold basic_effect as mm (r + i) = mm (p + i)" if "i < cb" for mm i
    using that ptrs
    by (simp add: as_def pocl_basic_write_def pocl_basic_copy_def pocl_basic_read_def memcpy_at)
  moreover have "actions s2 = actions s" using l2 by (simp add: loaded_def)
  ultimately show ?thesis using W C R s4(2-4) unfolding as_def[symmetric] by blast
qed

text \<open>A context with one device, an idle queue and two buffers of 16 bytes.\<close>

definition sample_buffer :: "addr \<Rightarrow> cl_mem" where
  "sample_buffer p = \<lparr>mem_refcount = 1, mem_type = CL_MEM_OBJECT_BUFFER, mem_flags = 1, mem_size = 16,
     mem_host_ptr = NULL, map_count = 0, mem_context = 0, device_ptrs = (\<lambda>_. p), mappings = None, parent = None\<rparr>"

definition two_buffers :: cl_state where
  "two_buffers = no_objects\<lparr>contexts := [0 \<mapsto> \<lparr>ctx_refcount = 4, ctx_devices = [0], ctx_valid = True\<rparr>],
     devices := [0 \<mapsto> sample_device], queues := [0 \<mapsto> sample_queue None],
     mems := [0 \<mapsto> sample_buffer 0x1000, 1 \<mapsto> sample_buffer 0x2000]\<rparr>"

lemma write_copy_read_witness:
  "\<exists>s1 s2 s3 as.
    clEnqueueWriteBuffer 0 (Some 1) (Some 1) (Some 0) (Some 0) False 4 8 0x100 0 None True two_buffers =
      ok (CL_SUCCESS, Some 1, s1) \<and>
    clEnqueueCopyBuffer (Some 2) (Some 2) (Some 0) (Some 0) (Some 1) 4 8 8 0 None False s1 = ok (CL_SUCCESS, Some 2, s2) \<and>
    clEnqueueReadBuffer (Suc (Suc 0)) (Some 3) (Some 3) (Some 0) (Some 1) True 8 8 0x200 0 None True s2 =
      ok (CL_SUCCESS, Some 3, s3) \<and>
    actions s2 = actions two_buffers \<and> actions s3 = actions two_buffers @ as \<and> idle s3 \<and> mems s3 = mems two_buffers \<and>
    (\<forall>m i. i < 8 \<longrightarrow> fold basic_effect as m (0x200 + i) = m (0x100 + i))"
  by (rule write_copy_read[where ?Q0.0 = "sample_queue None" and ?B1.0 = "sample_buffer 0x1000" and ?B2.0 = "sample_buffer 0x2000"
        and D = sample_device])
    (auto simp: two_buffers_def sample_buffer_def sample_defs idle_def buffer_of_def pocl_buffer_boundcheck_def
      pocl_buffers_boundcheck_def pocl_buffers_overlap_def)

section \<open>Rectangular transfers\<close>

lemma usable_more_refs:
  assumes "usable rank Q P s"
  shows "usable rank Q P (s\<lparr>mems := more_refs bs (mems s)\<rparr>)"
proof -
  have 1: "node_event (s\<lparr>mems := more_refs bs (mems s)\<rparr>) = node_event s" "waits (s\<lparr>mems := more_refs bs (mems s)\<rparr>) = waits s"
    "node_command (s\<lparr>mems := more_refs bs (mems s)\<rparr>) = node_command s"
    by (simp_all add: node_event_def[abs_def] waits_def[abs_def] node_command_def[abs_def])
  then have 2: "queue_refs (s\<lparr>mems := more_refs bs (mems s)\<rparr>) = queue_refs s" by (simp add: queue_refs_def[abs_def])
  have 3: "loop_inv rank Q [] None (s\<lparr>mems := more_refs bs (mems s)\<rparr>) = loop_inv rank Q [] None s"
    by (simp add: loop_inv_def pending_ok_def event_done_def 1 cong: option.case_cong)
  have "buffers_held as (s\<lparr>mems := more_refs bs (mems s)\<rparr>)" if "buffers_held as s" for as
    using that by (fastforce simp: buffers_held_def more_refs_def)
  then show ?thesis using assms unfolding usable_def 3 executable_def 1 2
    by (simp add: kernels_held_def queues_held_def)
qed

lemma sorted_wrt_rank_distinct: "sorted_wrt (<) (map (rank :: 'a \<Rightarrow> nat) xs) \<Longrightarrow> distinct xs"
  by (induction xs) auto

text \<open>The queue is finished with the buffer retained; then the transfer runs and the buffer is released.\<close>

lemma settle_ok:
  assumes us: "usable rank Q P s" and only: "\<forall>p. p \<noteq> q \<longrightarrow> Q p = []" and q: "queues s q = Some Q0" "\<not> q_out_of_order Q0"
    and b: "mems s b = Some B" "0 < mem_refcount B"
  obtains s1 where "settle (Suc (Suc d)) q [b] Q0 s = ok s1" and "idle s1"
    and "actions s1 = actions s @ concat (map (node_actions s) (Q q))"
    and "\<forall>a. clReleaseMemObject (Some b) (act a s1) =
           ok (CL_SUCCESS, (act a s1)\<lparr>mems := less_refs (all_buffer_refs s (Q q)) (mems s)\<rparr>)"
proof -
  let ?s = "s\<lparr>mems := more_refs [b] (mems s)\<rparr>"
  have sel: "node_actions ?s = node_actions s" "node_command ?s = node_command s"
    by (simp_all add: node_actions_def[abs_def] node_command_def[abs_def] cong: option.case_cong)
  have r: "retain_all [b] s = ok ?s" by (rule retain_all_ok) (simp add: b)
  have "queues ?s q = Some Q0" using q by simp
  from finish_only_queue[OF usable_more_refs[OF us, of "[b]"] only this q(2), of d] obtain s1 where
    f: "clFinish (Suc (Suc d)) q ?s = ok (CL_SUCCESS, s1)" "idle s1"
    "actions s1 = actions s @ concat (map (node_actions s) (Q q))"
    "mems s1 = less_refs (all_buffer_refs s (Q q)) (more_refs [b] (mems s))"
    unfolding sel by auto
  have eq: "less_refs [Some b] (less_refs as (more_refs [b] (mems s))) = less_refs as (mems s)" for as
    by (rule ext) (simp add: less_refs_def more_refs_def option.map_comp comp_def)
  have held: "int (count_list (all_buffer_refs s (Q q)) (Some b)) < mem_refcount B"
  proof (cases "Some b \<in> set (all_buffer_refs s (Q q))")
    case True
    have "set (Q q) \<subseteq> set P" using us by (auto simp: usable_def queued_def)
    moreover have "distinct (Q q)"
      using us by (auto simp: usable_def loop_inv_def dest!: spec[of _ q] intro: sorted_wrt_rank_distinct)
    ultimately have "buffers_held (all_buffer_refs s (Q q)) s"
      using us held_subset(1)[of "Q q" P] by (simp add: usable_def executable_def)
    with True b show ?thesis by (auto simp: buffers_held_def)
  qed (use b(2) in \<open>simp add: count_list_0_iff\<close>)
  have "clReleaseMemObject (Some b) (act a s1) =
      ok (CL_SUCCESS, (act a s1)\<lparr>mems := less_refs (all_buffer_refs s (Q q)) (mems s)\<rparr>)" for a
  proof -
    have "mems (act a s1) b = Some (B\<lparr>mem_refcount := mem_refcount B + 1 - int (count_list (all_buffer_refs s (Q q)) (Some b))\<rparr>)"
      using b(1) f(4) by (simp add: act_def less_refs_def more_refs_def)
    from clReleaseMemObject_held[OF this] held show ?thesis using f(4) eq by (simp add: act_def)
  qed
  then show thesis using f r q by (intro that[of s1]) (simp_all add: settle_def)
qed

text \<open>C52: An accepted rectangular write waits for the commands of its own queue and then is one call of the
  device with the pitches the checks answered: the commands of the queue are executed first, in
  order, the buffer is held meanwhile and given back, and \<open>CL_SUCCESS\<close> is answered. This is so
  whatever the wait list is: its events are never looked at, and no event is created for the caller.\<close>

theorem write_rect_runs_behind:
  assumes us: "usable rank Q P s" and only: "\<forall>p. p \<noteq> q \<longrightarrow> Q p = []" and b: "buffer_of q b Q0 B s"
    and q: "\<not> q_out_of_order Q0" "0 < mem_refcount B"
    and acc: "rect_error NO_HOST_WRITE Q0 B ptr (Some borg) (Some horg) (Some reg) num_events wait_list = CL_SUCCESS"
    and box: "check_boxes (mem_size B) borg brp bsp (- 1) horg hrp hsp reg = ok (Some (brp', bsp', hrp', hsp'))"
  shows "\<exists>s'. clEnqueueWriteBufferRect (Suc (Suc d)) (Some q) (Some b) (Some borg) (Some horg) (Some reg) brp bsp hrp hsp
      ptr num_events wait_list None s = ok (CL_SUCCESS, s') \<and> idle s' \<and>
    actions s' = actions s @ concat (map (node_actions s) (Q q)) @
      [Dev_write_box (q_device Q0) ptr (device_ptrs B (q_device Q0)) borg horg reg brp' bsp' hrp' hsp'] \<and>
    mems s' = less_refs (all_buffer_refs s (Q q)) (mems s)"
proof -
  have Q: "queues s q = Some Q0" "mems s b = Some B" and C: "in_context Q0 s = ok True"
    using b by (auto simp: buffer_of_def in_context_def fetch_def)
  let ?a = "Dev_write_box (q_device Q0) ptr (device_ptrs B (q_device Q0)) borg horg reg brp' bsp' hrp' hsp'"
  obtain s1 where s1: "settle (Suc (Suc d)) q [b] Q0 s = ok s1" "idle s1"
    "actions s1 = actions s @ concat (map (node_actions s) (Q q))"
    "\<forall>a. clReleaseMemObject (Some b) (act a s1) =
           ok (CL_SUCCESS, (act a s1)\<lparr>mems := less_refs (all_buffer_refs s (Q q)) (mems s)\<rparr>)"
    by (rule settle_ok[OF us only Q(1) q(1) Q(2) q(2), of d])
  have "idle ((act ?a s1)\<lparr>mems := less_refs (all_buffer_refs s (Q q)) (mems s)\<rparr>)"
    using s1(2) by (simp add: idle_def act_def)
  moreover have "clEnqueueWriteBufferRect (Suc (Suc d)) (Some q) (Some b) (Some borg) (Some horg) (Some reg) brp bsp hrp hsp
      ptr num_events wait_list None s = ok (CL_SUCCESS, (act ?a s1)\<lparr>mems := less_refs (all_buffer_refs s (Q q)) (mems s)\<rparr>)"
    by (simp add: clEnqueueWriteBufferRect_def fetch_def Q acc box C s1(1,4) Let_def)
  moreover have "actions ((act ?a s1)\<lparr>mems := less_refs (all_buffer_refs s (Q q)) (mems s)\<rparr>) =
      actions s @ concat (map (node_actions s) (Q q)) @ [?a]"
    using s1(3) by (simp add: act_def)
  ultimately show ?thesis by (metis cl_state.select_convs(4) cl_state.surjective cl_state.update_convs(4))
qed

text \<open>The wait list names an event that does not even exist.\<close>

lemma write_rect_runs_behind_witness:
  "\<exists>s'. clEnqueueWriteBufferRect (Suc (Suc 0)) (Some 0) (Some 0) (Some (0, 0, 0)) (Some (0, 0, 0)) (Some (2, 2, 1)) 4 8 2 4
      0x100 1 (Some [Some 99]) None two_buffers = ok (CL_SUCCESS, s') \<and> idle s' \<and>
    actions s' = actions two_buffers @ concat (map (node_actions two_buffers) []) @
      [Dev_write_box (q_device (sample_queue None)) 0x100
        (device_ptrs (sample_buffer 0x1000) (q_device (sample_queue None))) (0, 0, 0) (0, 0, 0) (2, 2, 1) 4 8 2 4] \<and>
    mems s' = less_refs (all_buffer_refs two_buffers []) (mems two_buffers)"
proof (rule write_rect_runs_behind[where Q = "\<lambda>_. []"])
  show "usable id (\<lambda>_. []) [] two_buffers"
    by (rule idle_usable) (simp add: idle_def two_buffers_def sample_queue_def)
  show "buffer_of 0 0 (sample_queue None) (sample_buffer 0x1000) two_buffers"
    by (simp add: buffer_of_def two_buffers_def sample_queue_def sample_buffer_def)
  show "rect_error NO_HOST_WRITE (sample_queue None) (sample_buffer 0x1000) 0x100 (Some (0, 0, 0)) (Some (0, 0, 0))
      (Some (2, 2, 1)) 1 (Some [Some 99]) = CL_SUCCESS"
    by (simp add: rect_error_def sample_queue_def sample_buffer_def bad_wait_list_def volume_zero_def)
  show "check_boxes (mem_size (sample_buffer 0x1000)) (0, 0, 0) 4 8 (- 1) (0, 0, 0) 2 4 (2, 2, 1) =
      ok (Some (4, 8, 2, 4))"
    by (simp add: check_boxes_def sample_buffer_def pocl_buffer_boundcheck_3d_def)
qed (simp_all add: sample_queue_def sample_buffer_def)

section \<open>Mapping and barriers\<close>

text \<open>
  Mapping a buffer retains it: of a buffer with one reference the map leaves two. Neither running the
  unmap command nor what follows it gives a reference back, so the last release of a buffer that was
  mapped never comes.
\<close>

lemma mapping_retains:
  "map_option (map_sum id (\<lambda>s. map_option mem_refcount (mems s 0)))
     (andthen (clEnqueueMapBuffer (\<lambda>d. pocl_basic_map_mem) 0 (Some 7) (Some 1) (Some 1) (Some 0) (Some 0) False 1 4 8 0 None True
        two_buffers) (\<lambda>(p, e, ev, s). ok s))
     = Some (Inr (Some 2))"
  by code_simp

lemma fetch_eq_ok: "fetch t i = ok x \<longleftrightarrow> t i = Some x"
  by (auto simp: fetch_def ok_def throw_def split: option.splits)

lemma unmapping_keeps_references:
  assumes "unmap_mem_cmd d b p s = ok s'" and "command x = Unmap_mem_object b p"
  shows "(\<forall>i. map_option mem_refcount (mems s' i) = map_option mem_refcount (mems s i)) \<and> release_command x s' = ok s'"
proof -
  from assms(1)[unfolded unmap_mem_cmd_def andthen_eq_ok fetch_eq_ok] obtain m s1 r and y :: cl_device where m: "mems s b = Some m"
    and s1: "(if mem_flags m AND HOST_PTR_FLAGS \<noteq> 0 \<or> \<not> unmaps y then ok s
       else andthen (fetch (maps s) p) (\<lambda>q. ok (act (Dev_unmap d (map_host_ptr q) (device_ptrs m d) (map_size q)) s))) = ok s1"
    and r: "(case r of (lk, h) \<Rightarrow>
       ok ((put_mem b (m\<lparr>mappings := h, map_count := map_count m - 1\<rparr>) s1)\<lparr>map_links := lk\<rparr>)) = ok s'"
    by blast
  have a: "mems (act x s) = mems s" for x by (simp add: act_def)
  have "mems s1 = mems s"
  proof (cases "mem_flags m AND HOST_PTR_FLAGS \<noteq> 0 \<or> \<not> unmaps y")
    case False
    with s1 obtain q :: mem_mapping where "act (Dev_unmap d (map_host_ptr q) (device_ptrs m d) (map_size q)) s = s1"
      unfolding if_not_P[OF False] andthen_eq_ok ok_inject by blast
    with a show ?thesis by blast
  qed (use s1 in simp)
  then have "mems s' = (mems s)(b \<mapsto> m\<lparr>mappings := snd r, map_count := map_count m - 1\<rparr>)"
    using r by (cases r) auto
  then have "map_option mem_refcount (mems s' i) = map_option mem_refcount (mems s i)" for i using m by simp
  then show ?thesis using assms(2) by (simp add: release_command_def)
qed

text \<open>A barrier is queued, and the queue that holds it ends the process: \<open>clFinish\<close> does not know the command.\<close>

lemma barrier_exits:
  "map_option (map_sum id fst) (andthen (clEnqueueBarrier (Some 1) (Some 1) (Some 0) two_buffers) (\<lambda>(e, s). clFinish 2 0 s))
     = Some (Inl (Exit 2))"
  by code_simp

end
