(* ===== verification/Sha1.thy ===== *)
theory Sha1
  imports Cl_Util
begin

text \<open>
  The hash that names compiled programs (\<^verbatim>\<open>lib/CL/pocl_hash.c\<close>), and what goes into it
  (\<open>build_program_compute_hash\<close> of \<^verbatim>\<open>lib/CL/clBuildProgram.c\<close>). The target is little-endian.
\<close>

section \<open>One block\<close>

type_synonym sha_state = "u32 \<times> u32 \<times> u32 \<times> u32 \<times> u32"

definition rol :: "u32 \<Rightarrow> nat \<Rightarrow> u32" where
  "rol value bits = push_bit bits value OR drop_bit (32 - bits) value"

text \<open>The block read as sixteen words; the macros answer the word they store back.\<close>

definition load_words :: "byte list \<Rightarrow> u32 list" where
  "load_words bs = map (\<lambda>i. word_of_bytes (bs ! (4 * i)) (bs ! (4 * i + 1)) (bs ! (4 * i + 2)) (bs ! (4 * i + 3))) [0..<16]"

definition blk0 :: "nat \<Rightarrow> u32 list \<Rightarrow> u32 \<times> u32 list" where
  "blk0 i l = (let w = (rol (l ! i) 24 AND 0xFF00FF00) OR (rol (l ! i) 8 AND 0x00FF00FF) in (w, l[i := w]))"

definition blk :: "nat \<Rightarrow> u32 list \<Rightarrow> u32 \<times> u32 list" where
  "blk i l = (let w = rol (l ! ((i + 13) mod 16) XOR l ! ((i + 8) mod 16) XOR l ! ((i + 2) mod 16) XOR l ! (i mod 16)) 1
              in (w, l[i mod 16 := w]))"

text \<open>The function and the constant of the macros \<open>R0\<close> and \<open>R1\<close>, \<open>R2\<close>, \<open>R3\<close> and \<open>R4\<close>.\<close>

definition round_function :: "nat \<Rightarrow> u32 \<Rightarrow> u32 \<Rightarrow> u32 \<Rightarrow> u32" where
  "round_function i w x y =
     (if i < 20 then (w AND (x XOR y)) XOR y
      else if i < 40 then w XOR x XOR y
      else if i < 60 then ((w OR x) AND y) OR (w AND x)
      else w XOR x XOR y)"

definition round_constant :: "nat \<Rightarrow> u32" where
  "round_constant i =
     (if i < 20 then 0x5A827999 else if i < 40 then 0x6ED9EBA1 else if i < 60 then 0x8F1BBCDC else 0xCA62C1D6)"

text \<open>
  One macro call changes its fifth and its second variable; the next call names the variables one
  place further, which the order of the result stands for.
\<close>

definition sha1_round :: "nat \<Rightarrow> sha_state \<times> u32 list \<Rightarrow> sha_state \<times> u32 list" where
  "sha1_round i s =
     (let ((v, w, x, y, z), l) = s; (b, l') = (if i < 16 then blk0 i l else blk i l)
      in ((z + (round_function i w x y + b + round_constant i + rol v 5), v, rol w 30, x, y), l'))"

definition SHA1_Transform :: "sha_state \<Rightarrow> byte list \<Rightarrow> sha_state" where
  "SHA1_Transform state buffer =
     (let (s0, s1, s2, s3, s4) = state;
          ((a, b, c, d, e), l) = fold sha1_round [0..<80] (state, load_words buffer)
      in (s0 + a, s1 + b, s2 + c, s3 + d, s4 + e))"

section \<open>Streaming\<close>

record SHA1_CTX =
  sha_state :: sha_state
  sha_count0 :: u32
  sha_count1 :: u32
  sha_buffer :: "byte list"

text \<open>\<open>junk\<close> is the content of the buffer of an uninitialised context.\<close>

definition pocl_SHA1_Init :: "byte list \<Rightarrow> SHA1_CTX" where
  "pocl_SHA1_Init junk =
     \<lparr>sha_state = (0x67452301, 0xEFCDAB89, 0x98BADCFE, 0x10325476, 0xC3D2E1F0), sha_count0 = 0, sha_count1 = 0,
      sha_buffer = junk\<rparr>"

text \<open>The loop over the complete blocks of the data: the new state and the rest.\<close>

fun transform_blocks :: "sha_state \<Rightarrow> byte list \<Rightarrow> sha_state \<times> byte list" where
  "transform_blocks state data =
     (if length data < 64 then (state, data)
      else transform_blocks (SHA1_Transform state (take 64 data)) (drop 64 data))"

declare transform_blocks.simps [simp del]

text \<open>
  The length of the data has the width of a word. Positions in the data are numbers here: an area that
  shares 32-bit addresses with the context is too short for them to wrap.
\<close>

definition pocl_SHA1_Update :: "SHA1_CTX \<Rightarrow> byte list \<Rightarrow> SHA1_CTX" where
  "pocl_SHA1_Update context data =
     (let len = of_nat (length data) :: size_t;
          j = unat (drop_bit 3 (sha_count0 context) AND 63);
          c0 = sha_count0 context + push_bit 3 len;
          c1 = (if c0 < push_bit 3 len then sha_count1 context + 1 else sha_count1 context) + drop_bit 29 len;
          context = context\<lparr>sha_count0 := c0, sha_count1 := c1\<rparr>
      in if j + length data > 63
         then let i = 64 - j;
                  buf = take j (sha_buffer context) @ take i data;
                  (st, rest) = transform_blocks (SHA1_Transform (sha_state context) buf) (drop i data)
              in context\<lparr>sha_state := st, sha_buffer := rest @ drop (length rest) buf\<rparr>
         else context\<lparr>sha_buffer := take j (sha_buffer context) @ data @ drop (j + length data) (sha_buffer context)\<rparr>)"

text \<open>The zero bytes of the padding, one call for each.\<close>

partial_function (option) pad_zeros :: "SHA1_CTX \<Rightarrow> SHA1_CTX option" where
  "pad_zeros context =
     (if sha_count0 context AND 504 \<noteq> 448 then pad_zeros (pocl_SHA1_Update context [0]) else Some context)"

definition final_count :: "SHA1_CTX \<Rightarrow> byte list" where
  "final_count context =
     map (\<lambda>i. ucast (drop_bit ((3 - i mod 4) * 8) (if i \<ge> 4 then sha_count0 context else sha_count1 context) AND 255)) [0..<8]"

definition digest_bytes :: "sha_state \<Rightarrow> byte list" where
  "digest_bytes state =
     (let (a, b, c, d, e) = state in
      map (\<lambda>i. ucast (drop_bit ((3 - i mod 4) * 8) ([a, b, c, d, e] ! (i div 4)) AND 255)) [0..<20])"

text \<open>The digest and the wiped context.\<close>

definition pocl_SHA1_Final :: "SHA1_CTX \<Rightarrow> (byte list \<times> SHA1_CTX) option" where
  "pocl_SHA1_Final context =
     (case pad_zeros (pocl_SHA1_Update context [0x80]) of
        None \<Rightarrow> None
      | Some context1 \<Rightarrow>
          let context2 = pocl_SHA1_Update context1 (final_count context)
          in Some (digest_bytes (sha_state context2),
               \<lparr>sha_state = (0, 0, 0, 0, 0), sha_count0 = 0, sha_count1 = 0, sha_buffer = replicate 64 0\<rparr>))"

declare pad_zeros.simps [code]

section \<open>The hash of a program\<close>

text \<open>
  Strings are their bytes without the final null. What is not in the function: the work-group method of
  the configuration, the three version strings of the build, and \<open>ops->build_hash\<close> of each device,
  where there is one.
\<close>

record build_environment =
  wg_method :: "byte list"
  package_version :: "byte list"
  llvm_version :: "byte list"
  build_timestamp :: "byte list"
  device_hashes :: "(SHA1_CTX \<Rightarrow> SHA1_CTX) option list"

definition build_program_compute_hash ::
  "build_environment \<Rightarrow> byte list \<Rightarrow> byte list option \<Rightarrow> byte list list \<Rightarrow> byte list option \<Rightarrow> byte list option" where
  "build_program_compute_hash E junk source binaries compiler_options =
     (let c = pocl_SHA1_Init junk;
          c = (case source of Some src \<Rightarrow> pocl_SHA1_Update c src | None \<Rightarrow> pocl_SHA1_Update c (concat binaries));
          c = (case compiler_options of Some opts \<Rightarrow> pocl_SHA1_Update c opts | None \<Rightarrow> c);
          c = pocl_SHA1_Update c (wg_method E);
          c = pocl_SHA1_Update c (package_version E);
          c = pocl_SHA1_Update c (llvm_version E);
          c = pocl_SHA1_Update c (build_timestamp E);
          c = fold (\<lambda>h c. case h of Some f \<Rightarrow> f c | None \<Rightarrow> c) (device_hashes E) c
      in map_option fst (pocl_SHA1_Final c))"

end
