(* ===== verification/Sha1_Props.thy ===== *)
theory Sha1_Props
  imports Sha1
begin

text \<open>
  The streaming hash computes SHA-1 as the standard defines it: the sixteen words of the block that
  the rounds overwrite are the schedule of eighty words, a context stands for the data it was given,
  and the padding ends. The hash of a program does not keep its parts apart.
\<close>

section \<open>SHA-1 of the standard\<close>

definition big_word :: "byte list \<Rightarrow> nat \<Rightarrow> u32" where
  "big_word bs t = word_of_bytes (bs ! (4 * t + 3)) (bs ! (4 * t + 2)) (bs ! (4 * t + 1)) (bs ! (4 * t))"

function schedule :: "byte list \<Rightarrow> nat \<Rightarrow> u32" where
  "schedule bs t = (if t < 16 then big_word bs t
     else word_rotl 1 (schedule bs (t - 3) XOR schedule bs (t - 8) XOR schedule bs (t - 14) XOR schedule bs (t - 16)))"
  by auto
termination by (relation "measure snd") auto

declare schedule.simps [simp del]

definition choice :: "u32 \<Rightarrow> u32 \<Rightarrow> u32 \<Rightarrow> u32" where
  "choice x y z = (x AND y) XOR (NOT x AND z)"

definition majority :: "u32 \<Rightarrow> u32 \<Rightarrow> u32 \<Rightarrow> u32" where
  "majority x y z = (x AND y) XOR (x AND z) XOR (y AND z)"

definition logical_function :: "nat \<Rightarrow> u32 \<Rightarrow> u32 \<Rightarrow> u32 \<Rightarrow> u32" where
  "logical_function t x y z =
     (if t < 20 then choice x y z else if 40 \<le> t \<and> t < 60 then majority x y z else x XOR y XOR z)"

definition standard_constant :: "nat \<Rightarrow> u32" where
  "standard_constant t = [0x5A827999, 0x6ED9EBA1, 0x8F1BBCDC, 0xCA62C1D6] ! (t div 20)"

definition compress :: "sha_state \<Rightarrow> byte list \<Rightarrow> sha_state" where
  "compress h bs =
     (let (h0, h1, h2, h3, h4) = h;
          (a, b, c, d, e) = fold (\<lambda>t (a, b, c, d, e).
            (word_rotl 5 a + logical_function t b c d + e + standard_constant t + schedule bs t, a, word_rotl 30 b, c, d)) [0..<80] h
      in (h0 + a, h1 + b, h2 + c, h3 + d, h4 + e))"

fun hash_blocks :: "sha_state \<Rightarrow> byte list \<Rightarrow> sha_state" where
  "hash_blocks h m = (if length m < 64 then h else hash_blocks (compress h (take 64 m)) (drop 64 m))"

declare hash_blocks.simps [simp del]

definition big_bytes :: "u32 \<Rightarrow> byte list" where
  "big_bytes w = [byte_of w 3, byte_of w 2, byte_of w 1, byte_of w 0]"

definition initial_hash :: sha_state where
  "initial_hash = (0x67452301, 0xEFCDAB89, 0x98BADCFE, 0x10325476, 0xC3D2E1F0)"

definition padding :: "nat \<Rightarrow> byte list" where
  "padding n = [0x80] @ replicate ((119 - n mod 64) mod 64) 0 @
     big_bytes (of_nat (8 * n div 2 ^ 32)) @ big_bytes (of_nat (8 * n))"

definition sha1 :: "byte list \<Rightarrow> byte list" where
  "sha1 m = (let (a, b, c, d, e) = hash_blocks initial_hash (m @ padding (length m))
             in concat (map big_bytes [a, b, c, d, e]))"

section \<open>One block\<close>

text \<open>The rotation of the code is that of the standard, and so are its constants.\<close>

lemma rol_rotl: "n < 32 \<Longrightarrow> rol w n = word_rotl n w"
  by (rule bit_word_eqI) (auto simp: rol_def bit_simps mod_if add.commute[of 32] dest: bit_imp_le_length)

lemma schedule_rol: "schedule bs t = (if t < 16 then big_word bs t
     else rol (schedule bs (t - 3) XOR schedule bs (t - 8) XOR schedule bs (t - 14) XOR schedule bs (t - 16)) 1)"
  by (simp add: schedule.simps[of bs t] rol_rotl)

lemma standard_constant_round: "t < 80 \<Longrightarrow> standard_constant t = round_constant t"
proof -
  assume "t < 80"
  then have "t div 20 = (if t < 20 then 0 else if t < 40 then 1 else if t < 60 then 2 else 3)" by auto
  then show ?thesis by (simp add: standard_constant_def round_constant_def numeral_2_eq_2 numeral_3_eq_3)
qed

lemma compress_rol: "compress h bs =
     (let (h0, h1, h2, h3, h4) = h;
          (a, b, c, d, e) = fold (\<lambda>t (a, b, c, d, e).
            (rol a 5 + logical_function t b c d + e + round_constant t + schedule bs t, a, rol b 30, c, d)) [0..<80] h
      in (h0 + a, h1 + b, h2 + c, h3 + d, h4 + e))"
proof -
  have "fold (\<lambda>t (a, b, c, d, e).
      (word_rotl 5 a + logical_function t b c d + e + standard_constant t + schedule bs t, a, word_rotl 30 b, c, d)) [0..<80] h =
    fold (\<lambda>t (a, b, c, d, e).
      (rol a 5 + logical_function t b c d + e + round_constant t + schedule bs t, a, rol b 30, c, d)) [0..<80] h"
    by (rule fold_cong) (simp_all add: rol_rotl standard_constant_round fun_eq_iff)
  then show ?thesis by (simp only: compress_def)
qed

lemma round_function_logical: "round_function t x y z = logical_function t x y z"
proof -
  have "(x AND (y XOR z)) XOR z = choice x y z" "((x OR y) AND z) OR (x AND y) = majority x y z"
    by (rule bit_word_eqI; auto simp: choice_def majority_def bit_simps)+
  then show ?thesis by (simp add: round_function_def logical_function_def ac_simps)
qed

lemma swap_word:
  "(rol (word_of_bytes b0 b1 b2 b3) 24 AND 0xFF00FF00) OR (rol (word_of_bytes b0 b1 b2 b3) 8 AND 0x00FF00FF)
     = word_of_bytes b3 b2 b1 b0"
proof (rule bit_word_eqI)
  let ?l = "(rol (word_of_bytes b0 b1 b2 b3) 24 AND 0xFF00FF00) OR (rol (word_of_bytes b0 b1 b2 b3) 8 AND 0x00FF00FF)"
  have high: "8 \<le> n \<Longrightarrow> \<not> bit (b :: byte) n" for b n by (auto dest: bit_imp_le_length)
  have positions: "[0..<32] = [0, 1, 2, 3, 4, 5, 6, 7, 8, 9, 10, 11, 12, 13, 14, 15, 16, 17, 18, 19, 20, 21, 22, 23, 24,
      25, 26, 27, 28, 29, 30, 31]" by code_simp
  have "list_all (\<lambda>n. bit ?l n = bit (word_of_bytes b3 b2 b1 b0) n) [0..<32]"
    unfolding positions by (simp add: rol_def word_of_bytes_def bit_simps high)
  then show "bit ?l n = bit (word_of_bytes b3 b2 b1 b0) n" if "n < LENGTH(32)" for n
    using that by (simp add: list_all_iff)
qed

text \<open>After \<open>i\<close> rounds the sixteen words hold the last sixteen words of the schedule, or those not yet swapped.\<close>

definition window :: "byte list \<Rightarrow> nat \<Rightarrow> u32 list \<Rightarrow> bool" where
  "window bs i l \<longleftrightarrow> length l = 16 \<and> (\<forall>t. t < i \<longrightarrow> i \<le> t + 16 \<longrightarrow> l ! (t mod 16) = schedule bs t) \<and>
     (\<forall>t. i \<le> t \<longrightarrow> t < 16 \<longrightarrow> l ! t = load_words bs ! t)"

lemma mod16_neq: "t < i \<Longrightarrow> i < t + 16 \<Longrightarrow> t mod 16 \<noteq> i mod (16 :: nat)"
proof
  assume t: "t < i" "i < t + 16" "t mod 16 = i mod 16"
  then have "16 dvd (i - t)" by (metis mod_eq_dvd_iff_nat less_imp_le)
  with t(1,2) show False by (auto dest!: dvd_imp_le)
qed

lemma window_start: "window bs 0 (load_words bs)"
  by (simp add: window_def load_words_def)

lemma window_step:
  assumes w: "window bs i l"
  shows "\<exists>l'. (if i < 16 then blk0 i l else blk i l) = (schedule bs i, l') \<and> window bs (Suc i) l'"
proof (cases "i < 16")
  case True
  have "l ! i = word_of_bytes (bs ! (4 * i)) (bs ! (4 * i + 1)) (bs ! (4 * i + 2)) (bs ! (4 * i + 3))"
    using w True by (simp add: window_def load_words_def)
  then have b: "blk0 i l = (schedule bs i, l[i := schedule bs i])"
    using True by (simp add: blk0_def swap_word schedule_rol[of bs i] big_word_def Let_def)
  have "window bs (Suc i) (l[i := schedule bs i])"
    using w True by (auto simp: window_def nth_list_update less_Suc_eq)
  with b True show ?thesis by simp
next
  case False
  have at: "l ! ((i + k) mod 16) = schedule bs (i + k - 16)" if "k < 16" for k
  proof -
    have "(i + k - 16) mod 16 = (i + k) mod 16" using False that by (simp add: le_mod_geq)
    moreover have "i + k - 16 < i" "i \<le> i + k - 16 + 16" using False that by auto
    ultimately show ?thesis using w unfolding window_def by metis
  qed
  have b: "blk i l = (schedule bs i, l[i mod 16 := schedule bs i])"
    using False at[of 13] at[of 8] at[of 2] at[of 0]
    by (simp add: blk_def Let_def schedule_rol[of bs i])
  have "window bs (Suc i) (l[i mod 16 := schedule bs i])"
    unfolding window_def
  proof (intro conjI allI impI)
    fix t assume t: "t < Suc i" "Suc i \<le> t + 16"
    show "l[i mod 16 := schedule bs i] ! (t mod 16) = schedule bs t"
    proof (cases "t = i")
      case True
      with w show ?thesis by (simp add: window_def)
    next
      case False
      with t have "t mod 16 \<noteq> i mod 16" by (intro mod16_neq) auto
      with w t False show ?thesis by (simp add: window_def)
    qed
  qed (use w False in \<open>simp_all add: window_def\<close>)
  with b False show ?thesis by simp
qed

lemma rounds:
  "\<exists>l. fold sha1_round [0..<n] (st, load_words bs) =
     (fold (\<lambda>t (a, b, c, d, e). (rol a 5 + logical_function t b c d + e + round_constant t + schedule bs t, a, rol b 30, c, d))
        [0..<n] st, l) \<and> window bs n l"
proof (induction n)
  case 0
  show ?case using window_start by simp
next
  case (Suc n)
  then obtain l where l: "fold sha1_round [0..<n] (st, load_words bs) =
     (fold (\<lambda>t (a, b, c, d, e). (rol a 5 + logical_function t b c d + e + round_constant t + schedule bs t, a, rol b 30, c, d))
        [0..<n] st, l)" and w: "window bs n l" by blast
  from window_step[OF w] obtain l' where l': "(if n < 16 then blk0 n l else blk n l) = (schedule bs n, l')"
    "window bs (Suc n) l'" by blast
  have "sha1_round n (s, l) =
      ((\<lambda>(a, b, c, d, e). (rol a 5 + logical_function n b c d + e + round_constant n + schedule bs n, a, rol b 30, c, d)) s, l')"
    for s using l'(1) by (cases s) (simp add: sha1_round_def round_function_logical algebra_simps)
  with l l'(2) show ?case by simp
qed

text \<open>
  One block is compressed as the standard says: the eighty rounds over sixteen words in place compute
  the same as eighty rounds over the full schedule of the block read as big-endian words.
\<close>

lemma transform_compresses: "SHA1_Transform h bs = compress h bs"
proof -
  from rounds[of 80 h bs] obtain l where l: "fold sha1_round [0..<80] (h, load_words bs) =
     (fold (\<lambda>t (a, b, c, d, e). (rol a 5 + logical_function t b c d + e + round_constant t + schedule bs t, a, rol b 30, c, d))
        [0..<80] h, l)" by blast
  show ?thesis unfolding SHA1_Transform_def compress_rol l by (simp split: prod.split)
qed

section \<open>Contexts and the data they were given\<close>

lemma hash_blocks_append:
  "hash_blocks h (m @ d) = hash_blocks (hash_blocks h m) (drop (64 * (length m div 64)) m @ d)"
proof (induction h m rule: hash_blocks.induct)
  case (1 h m)
  show ?case
  proof (cases "length m < 64")
    case True
    then show ?thesis by (simp add: hash_blocks.simps[of h m])
  next
    case False
    have e: "length m = length m - 64 + 64" using False by simp
    have "length m div 64 = Suc ((length m - 64) div 64)" by (subst e) simp
    moreover have "64 * Suc k = 64 * k + 64" for k :: nat by simp
    ultimately have d: "drop (64 * (length m div 64)) m = drop (64 * (length (drop 64 m) div 64)) (drop 64 m)"
      by (simp add: add.commute)
    have "hash_blocks h (m @ d) = hash_blocks (compress h (take 64 m)) (drop 64 m @ d)"
      using False by (subst hash_blocks.simps) simp
    also have "\<dots> = hash_blocks (hash_blocks (compress h (take 64 m)) (drop 64 m))
        (drop (64 * (length (drop 64 m) div 64)) (drop 64 m) @ d)"
      by (rule "1.IH") (use False in simp)
    also have "hash_blocks (compress h (take 64 m)) (drop 64 m) = hash_blocks h m"
      using False by (subst (2) hash_blocks.simps) simp
    finally show ?thesis unfolding d .
  qed
qed

lemma transform_blocks_hash:
  "transform_blocks h d = (hash_blocks h d, drop (64 * (length d div 64)) d)"
proof (induction h d rule: transform_blocks.induct)
  case (1 h d)
  show ?case
  proof (cases "length d < 64")
    case True
    then show ?thesis by (simp add: transform_blocks.simps hash_blocks.simps)
  next
    case False
    have e: "length d = length d - 64 + 64" using False by simp
    have "length d div 64 = Suc ((length d - 64) div 64)" by (subst e) simp
    moreover have "64 * Suc k = 64 * k + 64" for k :: nat by simp
    ultimately have "drop (64 * (length (drop 64 d) div 64)) (drop 64 d) = drop (64 * (length d div 64)) d"
      by (simp add: add.commute)
    moreover have "transform_blocks h d = transform_blocks (compress h (take 64 d)) (drop 64 d)"
      using False by (simp add: transform_blocks.simps[of h d] transform_compresses)
    moreover have "hash_blocks h d = hash_blocks (compress h (take 64 d)) (drop 64 d)"
      using False by (simp add: hash_blocks.simps[of h d])
    ultimately show ?thesis using "1.IH"[OF False] by (simp add: transform_compresses)
  qed
qed

text \<open>The context stands for the data \<open>m\<close>: complete blocks are hashed, the rest is in the buffer.\<close>

definition stands_for :: "SHA1_CTX \<Rightarrow> byte list \<Rightarrow> bool" where
  "stands_for c m \<longleftrightarrow> sha_state c = hash_blocks initial_hash m \<and> length (sha_buffer c) = 64 \<and>
     take (length m mod 64) (sha_buffer c) = drop (64 * (length m div 64)) m \<and>
     sha_count0 c = of_nat (8 * length m) \<and> sha_count1 c = of_nat (8 * length m div 2 ^ 32)"

lemma init_stands: "length junk = 64 \<Longrightarrow> stands_for (pocl_SHA1_Init junk) []"
  by (simp add: stands_for_def pocl_SHA1_Init_def hash_blocks.simps initial_hash_def)

lemma count_position: "unat (drop_bit 3 (of_nat (8 * n) :: u32) AND 63) = n mod 64"
proof -
  have bits: "unat (take_bit 6 (drop_bit 3 w)) = take_bit 6 (drop_bit 3 (unat w))" for w :: u32
    by (simp only: unsigned_take_bit_eq unat_drop_bit_eq)
  have "drop_bit 3 (of_nat (8 * n) :: u32) AND 63 = take_bit 6 (drop_bit 3 (of_nat (8 * n)))"
    by (simp add: take_bit_eq_mask mask_eq_exp_minus_1)
  also have "unat \<dots> = (8 * n) mod 2 ^ 32 div 8 mod 64"
    unfolding bits unfolding drop_bit_eq_div take_bit_eq_mod unat_of_nat by simp
  also have "(8 * n) mod 2 ^ 32 = 8 * (n mod 2 ^ 29)"
    using mult_mod_right[of 8 n "2 ^ 29"] by simp
  finally show ?thesis by (simp add: mod_mod_cancel)
qed

lemma count_low: "of_nat (8 * n) + push_bit 3 (of_nat k) = (of_nat (8 * (n + k)) :: u32)"
  by (simp add: push_bit_eq_mult algebra_simps)

lemma count_high:
  assumes "k < 2 ^ 32"
  shows "(if of_nat (8 * n) + push_bit 3 (of_nat k) < (push_bit 3 (of_nat k) :: u32)
      then of_nat (8 * n div 2 ^ 32) + 1 else of_nat (8 * n div 2 ^ 32)) + drop_bit 29 (of_nat k :: u32)
    = (of_nat (8 * (n + k) div 2 ^ 32) :: u32)"
proof -
  define x where "x = 8 * n mod 2 ^ 32"
  define y where "y = 8 * k mod 2 ^ 32"
  have xy: "x < 2 ^ 32" "y < 2 ^ 32" by (simp_all add: x_def y_def)
  have p: "push_bit 3 (of_nat k) = (of_nat (8 * k) :: u32)" by (simp add: push_bit_eq_mult algebra_simps)
  have "unat (of_nat (8 * n) + of_nat (8 * k) :: u32) = (8 * n + 8 * k) mod 2 ^ 32"
    by (subst of_nat_add[symmetric]) (simp only: unat_of_nat, simp)
  also have "\<dots> = (x + y) mod 2 ^ 32" by (simp add: x_def y_def mod_add_eq)
  finally have "of_nat (8 * n) + of_nat (8 * k) < (of_nat (8 * k) :: u32) \<longleftrightarrow> (x + y) mod 2 ^ 32 < y"
    by (simp only: word_less_nat_alt) (simp only: unat_of_nat y_def, simp)
  also have "\<dots> \<longleftrightarrow> 2 ^ 32 \<le> x + y"
  proof (cases "x + y < 2 ^ 32")
    case False
    then have "(x + y) mod 2 ^ 32 = x + y - 2 ^ 32" using xy by (simp add: le_mod_geq)
    with False xy show ?thesis by auto
  qed simp
  also have "\<dots> \<longleftrightarrow> (x + y) div 2 ^ 32 = 1"
  proof (cases "x + y < 2 ^ 32")
    case False
    then have "(x + y) div 2 ^ 32 = Suc ((x + y - 2 ^ 32) div 2 ^ 32)" by (simp add: le_div_geq)
    with False xy show ?thesis by simp
  qed simp
  finally have carry: "of_nat (8 * n) + of_nat (8 * k) < (of_nat (8 * k) :: u32) \<longleftrightarrow> (x + y) div 2 ^ 32 = 1" .
  have c01: "(x + y) div 2 ^ 32 = 0 \<or> (x + y) div 2 ^ 32 = 1" using xy by (cases "x + y < 2 ^ 32") (auto simp: le_div_geq)
  have "drop_bit 29 (of_nat k :: u32) = of_nat (k div 2 ^ 29)"
  proof (rule word_unat_eq_iff[THEN iffD2])
    have "k div 2 ^ 29 < 2 ^ 32" using assms by (simp add: div_less_dividend less_mult_imp_div_less)
    with assms show "unat (drop_bit 29 (of_nat k :: u32)) = unat (of_nat (k div 2 ^ 29) :: u32)"
      by (simp only: unat_drop_bit_eq unat_of_nat) (simp add: drop_bit_eq_div)
  qed
  moreover have "8 * k div 2 ^ 32 = k div 2 ^ 29" by simp
  moreover have "8 * (n + k) div 2 ^ 32 = 8 * n div 2 ^ 32 + 8 * k div 2 ^ 32 + (x + y) div 2 ^ 32"
    unfolding x_def y_def distrib_left by (rule div_add1_eq)
  ultimately show ?thesis unfolding p carry using c01 by auto
qed

lemma update_stands:
  assumes c: "stands_for c m" and d: "length d < 2 ^ 32"
  shows "stands_for (pocl_SHA1_Update c d) (m @ d)"
proof -
  note S = c[unfolded stands_for_def]
  define j where "j = length m mod 64"
  define rest where "rest = drop (64 * (length m div 64)) m"
  define buf where "buf = sha_buffer c"
  have j: "unat (drop_bit 3 (sha_count0 c) AND 63) = j" "j < 64" using S count_position[of "length m"] by (simp_all add: j_def)
  have rest: "take j buf = rest" "length rest = j" "length buf = 64"
    using S by (simp_all add: j_def rest_def buf_def minus_mult_div_eq_mod)
  have H: "hash_blocks initial_hash (m @ d) = hash_blocks (sha_state c) (rest @ d)"
    using S hash_blocks_append[of initial_hash m d] by (simp add: rest_def)
  have lm: "length m = 64 * (length m div 64) + j" by (simp add: j_def)
  have counts: "sha_count0 (pocl_SHA1_Update c d) = of_nat (8 * length (m @ d))"
    "sha_count1 (pocl_SHA1_Update c d) = of_nat (8 * length (m @ d) div 2 ^ 32)"
  proof -
    have c0: "sha_count0 c = of_nat (8 * length m)" and c1: "sha_count1 c = of_nat (8 * length m div 2 ^ 32)"
      using S by blast+
    have "sha_count0 (pocl_SHA1_Update c d) = sha_count0 c + push_bit 3 (of_nat (length d))"
      by (simp add: pocl_SHA1_Update_def Let_def transform_blocks_hash)
    then show "sha_count0 (pocl_SHA1_Update c d) = of_nat (8 * length (m @ d))"
      unfolding c0 length_append count_low .
    have "sha_count1 (pocl_SHA1_Update c d) =
        (if sha_count0 c + push_bit 3 (of_nat (length d)) < push_bit 3 (of_nat (length d))
         then sha_count1 c + 1 else sha_count1 c) + drop_bit 29 (of_nat (length d))"
      by (simp add: pocl_SHA1_Update_def Let_def transform_blocks_hash)
    then show "sha_count1 (pocl_SHA1_Update c d) = of_nat (8 * length (m @ d) div 2 ^ 32)"
      unfolding c0 c1 length_append count_high[OF d] .
  qed
  show ?thesis
  proof (cases "j + length d > 63")
    case True
    define d' where "d' = drop (64 - j) d"
    define r where "r = drop (64 * (length d' div 64)) d'"
    have d': "length d' = length d + j - 64" using j(2) by (simp add: d'_def)
    have r: "length r = length d' mod 64" by (simp add: r_def minus_mult_div_eq_mod)
    have len: "length (m @ d) = 64 * (length m div 64 + 1) + length d'"
      using True lm d' by simp
    have "(64 * a + b) mod 64 = b mod 64" "(64 * a + b) div 64 = a + b div 64" for a b :: nat by simp_all
    then have q: "length (m @ d) mod 64 = length r" "length (m @ d) div 64 = length m div 64 + 1 + length d' div 64"
      unfolding len r by blast+
    have dr: "drop (64 * (length m div 64 + 1)) (m @ d) = d'"
    proof -
      have "64 * (length m div 64 + 1) = length m + (64 - j)" using lm j(2) by simp
      then show ?thesis by (simp add: d'_def)
    qed
    have "drop (64 * (length (m @ d) div 64)) (m @ d) = drop (64 * (length d' div 64)) (drop (64 * (length m div 64 + 1)) (m @ d))"
      unfolding q(2) by (simp add: algebra_simps)
    then have tail: "drop (64 * (length (m @ d) div 64)) (m @ d) = r" by (simp only: dr r_def)
    let ?b = "rest @ take (64 - j) d"
    have b64: "length ?b = 64" using True rest(2) j(2) by simp
    have "take 64 (rest @ d) = ?b" "drop 64 (rest @ d) = d'" using rest(2) j(2) by (simp_all add: d'_def)
    moreover have "\<not> length (rest @ d) < 64" using True rest(2) by simp
    ultimately have "hash_blocks (sha_state c) (rest @ d) = hash_blocks (compress (sha_state c) ?b) d'"
      by (subst hash_blocks.simps) simp
    moreover have u: "sha_state (pocl_SHA1_Update c d) = hash_blocks (compress (sha_state c) ?b) d'"
      "sha_buffer (pocl_SHA1_Update c d) = r @ drop (length r) ?b"
      using True j(1) rest(1)
      by (simp_all add: pocl_SHA1_Update_def Let_def transform_blocks_hash transform_compresses d'_def r_def buf_def)
    moreover have "length r < 64" using r by simp
    ultimately show ?thesis
      unfolding stands_for_def counts q(1) tail H u(2) using b64 by simp
  next
    case False
    have len: "length (m @ d) = 64 * (length m div 64) + (j + length d)" using lm by simp
    have q: "length (m @ d) mod 64 = j + length d" "length (m @ d) div 64 = length m div 64"
      unfolding len using False by simp_all
    have "hash_blocks (sha_state c) (rest @ d) = sha_state c"
      using False rest(2) by (subst hash_blocks.simps) simp
    moreover have u: "sha_state (pocl_SHA1_Update c d) = sha_state c"
      "sha_buffer (pocl_SHA1_Update c d) = rest @ d @ drop (j + length d) buf"
      using False j(1) rest(1) by (simp_all add: pocl_SHA1_Update_def Let_def buf_def)
    moreover have "drop (64 * (length m div 64)) (m @ d) = rest @ d"
      using lm by (simp add: rest_def)
    ultimately show ?thesis
      unfolding stands_for_def counts q H u using rest False by simp
  qed
qed

section \<open>Padding and digest\<close>

lemma count_mask: "(of_nat (8 * n) AND 504 = (448 :: u32)) \<longleftrightarrow> n mod 64 = 56"
proof -
  have e: "mask 6 = (63 :: u32)" "push_bit 3 63 = (504 :: u32)" by (simp_all add: mask_eq_exp_minus_1)
  have "w AND push_bit 3 (mask 6) = push_bit 3 (drop_bit 3 w AND mask 6)" for w :: u32
    by (rule bit_word_eqI) (auto simp: bit_simps)
  note this[unfolded e(1), unfolded e(2)]
  then have "of_nat (8 * n) AND 504 = push_bit 3 (drop_bit 3 (of_nat (8 * n) :: u32) AND 63)" by blast
  also have "drop_bit 3 (of_nat (8 * n) :: u32) AND 63 = of_nat (n mod 64)"
    using count_position[of n] by (metis word_of_unat)
  also have "push_bit 3 (of_nat (n mod 64) :: u32) = of_nat (8 * (n mod 64))"
    by (simp only: push_bit_eq_mult) simp
  finally have "(of_nat (8 * n) AND 504 = (448 :: u32)) \<longleftrightarrow> unat (of_nat (8 * (n mod 64)) :: u32) = unat (448 :: u32)"
    by (simp add: word_unat_eq_iff)
  also have "unat (of_nat (8 * (n mod 64)) :: u32) = 8 * (n mod 64)"
    using mod_less_divisor[of 64 n] by (intro unat_eqI[OF refl]) simp
  also have "8 * (n mod 64) = unat (448 :: u32) \<longleftrightarrow> n mod 64 = 56" by simp
  finally show ?thesis .
qed

lemma pad_zeros_stands:
  "stands_for c m \<Longrightarrow> k < 64 \<Longrightarrow> (length m + k) mod 64 = 56 \<Longrightarrow>
     \<exists>c'. pad_zeros c = Some c' \<and> stands_for c' (m @ replicate k 0)"
proof (induction k arbitrary: c m)
  case 0
  then have "length m mod 64 = 56" by simp
  moreover have c0: "sha_count0 c = of_nat (8 * length m)" using 0(1) by (simp add: stands_for_def)
  ultimately have "sha_count0 c AND 504 = 448" unfolding c0 count_mask by blast
  then show ?case using 0(1) by (subst pad_zeros.simps) simp
next
  case (Suc k)
  have "length m mod 64 \<noteq> 56"
  proof
    assume "length m mod 64 = 56"
    then have "(56 + Suc k) mod 64 = 56" using Suc(4) by (metis mod_add_left_eq)
    with Suc(3) show False by (cases "Suc k < 8") (auto simp: le_mod_geq)
  qed
  moreover have c0: "sha_count0 c = of_nat (8 * length m)" using Suc(2) by (simp add: stands_for_def)
  ultimately have "sha_count0 c AND 504 \<noteq> 448" unfolding c0 count_mask by blast
  then have p: "pad_zeros c = pad_zeros (pocl_SHA1_Update c [0])" by (subst pad_zeros.simps) simp
  have "stands_for (pocl_SHA1_Update c [0]) (m @ [0])" by (rule update_stands[OF Suc(2)]) simp
  moreover have "(length (m @ [0 :: byte]) + k) mod 64 = 56" using Suc(4) by simp
  ultimately obtain c' where "pad_zeros (pocl_SHA1_Update c [0]) = Some c'" "stands_for c' ((m @ [0]) @ replicate k 0)"
    using Suc.IH Suc(3) by (metis Suc_lessD)
  then show ?case using p by simp
qed

text \<open>The two byte strings that the final call reads off words.\<close>

lemma word_byte: "ucast (drop_bit (8 * k) (w :: u32) AND 255) = byte_of w k"
proof -
  have e: "mask 8 = (255 :: u32)" by (simp add: mask_eq_exp_minus_1)
  have "ucast (drop_bit (8 * k) w AND mask 8) = byte_of w k"
    by (rule bit_word_eqI) (auto simp: byte_of_def bit_simps)
  then show ?thesis unfolding e .
qed

lemma final_count_bytes: "final_count c = big_bytes (sha_count1 c) @ big_bytes (sha_count0 c)"
proof -
  have "[0..<8] = [0, 1, 2, 3, 4, 5, 6, 7 :: nat]" by code_simp
  then show ?thesis
    using word_byte[of 0] word_byte[of 1] word_byte[of 2] word_byte[of 3]
    by (simp add: final_count_def big_bytes_def)
qed

lemma digest_words: "digest_bytes (a, b, c, d, e) = concat (map big_bytes [a, b, c, d, e])"
proof -
  have "[0..<20] = [0, 1, 2, 3, 4, 5, 6, 7, 8, 9, 10, 11, 12, 13, 14, 15, 16, 17, 18, 19 :: nat]" by code_simp
  then show ?thesis
    using word_byte[of 0] word_byte[of 1] word_byte[of 2] word_byte[of 3]
    by (simp add: digest_bytes_def big_bytes_def)
qed

lemma final_stands:
  assumes c: "stands_for c m"
  shows "\<exists>c'. pocl_SHA1_Final c = Some (sha1 m, c')"
proof -
  let ?k = "(119 - length m mod 64) mod 64" and ?m = "m @ [0x80]"
  have "stands_for (pocl_SHA1_Update c [0x80]) ?m" by (rule update_stands[OF c]) simp
  moreover have "(length ?m + ?k) mod 64 = 56"
  proof -
    have a: "length m mod 64 + 1 + (119 - length m mod 64) = 120"
      using mod_less_divisor[of 64 "length m"] by linarith
    have "(length m + 1 + (119 - length m mod 64) mod 64) mod 64 = (length m mod 64 + 1 + (119 - length m mod 64)) mod 64"
      by (metis mod_add_left_eq mod_add_right_eq)
    also have "\<dots> = 56" unfolding a by simp
    finally show ?thesis by simp
  qed
  ultimately obtain c1 where c1: "pad_zeros (pocl_SHA1_Update c [0x80]) = Some c1" "stands_for c1 (?m @ replicate ?k 0)"
    using pad_zeros_stands[of "pocl_SHA1_Update c [0x80]" ?m ?k] by auto
  have fc: "final_count c = big_bytes (of_nat (8 * length m div 2 ^ 32)) @ big_bytes (of_nat (8 * length m))"
    using c unfolding final_count_bytes stands_for_def by simp
  have "stands_for (pocl_SHA1_Update c1 (final_count c)) ((?m @ replicate ?k 0) @ final_count c)"
    by (rule update_stands[OF c1(2)]) (simp add: fc big_bytes_def)
  moreover have "(?m @ replicate ?k 0) @ final_count c = m @ padding (length m)" by (simp add: padding_def fc)
  ultimately have "sha_state (pocl_SHA1_Update c1 (final_count c)) = hash_blocks initial_hash (m @ padding (length m))"
    by (simp add: stands_for_def)
  then show ?thesis
    by (cases "hash_blocks initial_hash (m @ padding (length m))" rule: prod_cases5)
      (simp add: pocl_SHA1_Final_def c1(1) Let_def sha1_def digest_words)
qed

section \<open>The hash of data and of programs\<close>

lemma updates_stand:
  "stands_for c m \<Longrightarrow> \<forall>d \<in> set ds. length d < 2 ^ 32 \<Longrightarrow>
     stands_for (fold (\<lambda>d c. pocl_SHA1_Update c d) ds c) (m @ concat ds)"
proof (induction ds arbitrary: c m)
  case (Cons d ds)
  then have "stands_for (pocl_SHA1_Update c d) (m @ d)" by (intro update_stands) auto
  with Cons show ?case by fastforce
qed simp

text \<open>C57: Hashing data in pieces is SHA-1 of the standard: initialising a context, whatever its memory
  held, giving it the data in any number of updates, each shorter than \<open>2 ^ 32\<close> bytes, and taking the digest returns,
  and returns the SHA-1 digest of the concatenated data: padding, length, the schedule of eighty
  words and the three logical functions as the standard defines them.\<close>

theorem sha1_of_pieces:
  assumes "length junk = 64" and "\<forall>d \<in> set ds. length d < 2 ^ 32"
  shows "\<exists>c'. pocl_SHA1_Final (fold (\<lambda>d c. pocl_SHA1_Update c d) ds (pocl_SHA1_Init junk)) = Some (sha1 (concat ds), c')"
  using final_stands[OF updates_stand[OF init_stands[OF assms(1)] assms(2)]] by simp

lemma sha1_of_pieces_witness:
  "\<exists>c'. pocl_SHA1_Final (fold (\<lambda>d c. pocl_SHA1_Update c d) [replicate 70 0x61, [0x62, 0x63]] (pocl_SHA1_Init (replicate 64 7)))
     = Some (sha1 (concat [replicate 70 0x61, [0x62, 0x63]]), c')"
  by (rule sha1_of_pieces) simp_all

text \<open>The hash of a program from sources is the digest of its parts one after the other.\<close>

lemma build_hash_sha1:
  assumes "length junk = 64" and "length src < 2 ^ 32" and "\<forall>o' \<in> set_option opts. length o' < 2 ^ 32"
    and "\<forall>p \<in> {wg_method E, package_version E, llvm_version E, build_timestamp E}. length p < 2 ^ 32"
    and "\<forall>h \<in> set (device_hashes E). h = None"
  shows "build_program_compute_hash E junk (Some src) bins opts =
    Some (sha1 (src @ (case opts of Some o' \<Rightarrow> o' | None \<Rightarrow> []) @
      wg_method E @ package_version E @ llvm_version E @ build_timestamp E))"
proof -
  let ?ds = "[src] @ (case opts of Some o' \<Rightarrow> [o'] | None \<Rightarrow> []) @ [wg_method E, package_version E, llvm_version E, build_timestamp E]"
  have "fold (\<lambda>h c. case h of Some f \<Rightarrow> f c | None \<Rightarrow> c) hs c = c" if "\<forall>h \<in> set hs. h = None"
    for hs and c :: SHA1_CTX using that by (induction hs) auto
  then have "fold (\<lambda>h c. case h of Some f \<Rightarrow> f c | None \<Rightarrow> c) (device_hashes E) c = c" for c using assms(5) by blast
  moreover have "stands_for (fold (\<lambda>d c. pocl_SHA1_Update c d) ?ds (pocl_SHA1_Init junk)) ([] @ concat ?ds)"
    by (rule updates_stand[OF init_stands[OF assms(1)]]) (use assms(2-4) in \<open>auto split: option.splits\<close>)
  from final_stands[OF this] obtain c' where
    "pocl_SHA1_Final (fold (\<lambda>d c. pocl_SHA1_Update c d) ?ds (pocl_SHA1_Init junk)) = Some (sha1 ([] @ concat ?ds), c')" by blast
  ultimately show ?thesis by (cases opts) (simp_all add: build_program_compute_hash_def Let_def)
qed

lemma build_hash_joins:
  assumes "length junk = 64" and "length src < 2 ^ 32" and "length opts < 2 ^ 32"
    and "\<forall>p \<in> {wg_method E, package_version E, llvm_version E, build_timestamp E}. length p < 2 ^ 32"
    and "\<forall>h \<in> set (device_hashes E). h = None"
  shows "build_program_compute_hash E junk (Some src) bins (Some opts) =
    Some (sha1 (src @ opts @ wg_method E @ package_version E @ llvm_version E @ build_timestamp E))"
  using build_hash_sha1[OF assms(1,2) _ assms(4,5), of "Some opts"] assms(3) by simp

text \<open>The source \<open>ab\<close> with the option \<open>c\<close>, and the source \<open>a\<close> with the option \<open>bc\<close>.\<close>

definition no_devices :: build_environment where
  "no_devices = \<lparr>wg_method = [], package_version = [0x31], llvm_version = [0x33], build_timestamp = [0x34],
     device_hashes = [None]\<rparr>"

lemma build_hash_joins_witness:
  "build_program_compute_hash no_devices (replicate 64 0) (Some [0x61, 0x62]) [] (Some [0x63]) =
   build_program_compute_hash no_devices (replicate 64 0) (Some [0x61]) [] (Some [0x62, 0x63])"
  using build_hash_joins[of "replicate 64 0" "[0x61, 0x62]" "[0x63]" no_devices "[]"]
    build_hash_joins[of "replicate 64 0" "[0x61]" "[0x62, 0x63]" no_devices "[]"]
  by (simp add: no_devices_def)

end
