(* ===== verification/Cl_Images.thy ===== *)
theory Cl_Images
  imports Cl_Buffers Cl_Transfer
begin

text \<open>
  Images: the formats the devices support (\<^verbatim>\<open>clGetSupportedImageFormats.c\<close>, tables of
  \<^verbatim>\<open>devices/basic/basic.c\<close> and \<^verbatim>\<open>devices/zynq_basic/zynq_basic.c\<close>), the helpers of
  \<^verbatim>\<open>pocl_image_util.c\<close>, the creation of images (\<^verbatim>\<open>clCreateImage.c\<close>, \<^verbatim>\<open>clCreateImage2D.c\<close>,
  \<^verbatim>\<open>clCreateImage3D.c\<close>) and the commands on them (\<^verbatim>\<open>clEnqueueReadImage.c\<close>,
  \<^verbatim>\<open>clEnqueueWriteImage.c\<close>, \<^verbatim>\<open>clEnqueueCopyImage.c\<close>, \<^verbatim>\<open>clEnqueueFillImage.c\<close>,
  \<^verbatim>\<open>clEnqueueMapImage.c\<close>, \<^verbatim>\<open>clEnqueueCopyBufferToImage.c\<close>,
  \<^verbatim>\<open>clEnqueueCopyImageToBuffer.c\<close>).
\<close>

section \<open>Formats and image objects\<close>

datatype cl_channel_order =
    CL_R | CL_A | CL_RG | CL_RA | CL_RGB | CL_RGBA | CL_BGRA | CL_ARGB | CL_INTENSITY | CL_LUMINANCE
  | CL_Rx | CL_RGx | CL_RGBx | CL_DEPTH | CL_DEPTH_STENCIL | Other_order nat

datatype cl_channel_type =
    CL_SNORM_INT8 | CL_SNORM_INT16 | CL_UNORM_INT8 | CL_UNORM_INT16 | CL_UNORM_SHORT_565 | CL_UNORM_SHORT_555
  | CL_UNORM_INT_101010 | CL_SIGNED_INT8 | CL_SIGNED_INT16 | CL_SIGNED_INT32 | CL_UNSIGNED_INT8
  | CL_UNSIGNED_INT16 | CL_UNSIGNED_INT32 | CL_HALF_FLOAT | CL_FLOAT | CL_UNORM_INT24 | Other_type nat

type_synonym cl_image_format = "cl_channel_order \<times> cl_channel_type"

text \<open>
  The fields of a memory object that only images use; a buffer has \<open>is_image\<close> false and the others
  as \<open>malloc\<close> left them. A table gives them for each memory object.
\<close>

record cl_image =
  is_image :: bool
  image_channel_order :: cl_channel_order
  image_channel_data_type :: cl_channel_type
  image_width :: size_t
  image_height :: size_t
  image_depth :: size_t
  image_array_size :: size_t
  image_row_pitch :: size_t
  image_slice_pitch :: size_t
  image_elem_size :: size_t
  image_channels :: size_t

record cl_image_desc =
  desc_type :: int
  desc_width :: size_t
  desc_height :: size_t
  desc_depth :: size_t
  desc_array_size :: size_t
  desc_row_pitch :: size_t
  desc_slice_pitch :: size_t
  num_mip_levels :: nat
  num_samples :: nat

abbreviation CL_MEM_OBJECT_IMAGE2D :: int where "CL_MEM_OBJECT_IMAGE2D \<equiv> 0x10F1"
abbreviation CL_MEM_OBJECT_IMAGE3D :: int where "CL_MEM_OBJECT_IMAGE3D \<equiv> 0x10F2"
abbreviation CL_MEM_OBJECT_IMAGE2D_ARRAY :: int where "CL_MEM_OBJECT_IMAGE2D_ARRAY \<equiv> 0x10F3"
abbreviation CL_MEM_OBJECT_IMAGE1D :: int where "CL_MEM_OBJECT_IMAGE1D \<equiv> 0x10F4"
abbreviation CL_MEM_OBJECT_IMAGE1D_ARRAY :: int where "CL_MEM_OBJECT_IMAGE1D_ARRAY \<equiv> 0x10F5"

abbreviation CL_IMAGE_FORMAT_MISMATCH :: int where "CL_IMAGE_FORMAT_MISMATCH \<equiv> -9"
abbreviation CL_IMAGE_FORMAT_NOT_SUPPORTED :: int where "CL_IMAGE_FORMAT_NOT_SUPPORTED \<equiv> -10"
abbreviation CL_INVALID_IMAGE_FORMAT_DESCRIPTOR :: int where "CL_INVALID_IMAGE_FORMAT_DESCRIPTOR \<equiv> -39"
abbreviation CL_INVALID_IMAGE_SIZE :: int where "CL_INVALID_IMAGE_SIZE \<equiv> -40"
abbreviation CL_INVALID_IMAGE_DESCRIPTOR :: int where "CL_INVALID_IMAGE_DESCRIPTOR \<equiv> -65"

text \<open>What a device says about images; its operation answers a status and a table.\<close>

record image_device =
  image_support :: bool
  image2d_max_width :: size_t
  image2d_max_height :: size_t
  image3d_max_width :: size_t
  image3d_max_height :: size_t
  image3d_max_depth :: size_t
  get_supported_image_formats :: "cl_bitfield \<Rightarrow> int \<times> cl_image_format list"

section \<open>Supported formats\<close>

definition supported_image_formats :: "cl_image_format list" where
  "supported_image_formats =
     List.product [CL_R, CL_Rx, CL_A, CL_RG, CL_RGx, CL_RA, CL_RGBA]
       [CL_SNORM_INT8, CL_SNORM_INT16, CL_UNORM_INT8, CL_UNORM_INT16, CL_UNORM_SHORT_565, CL_UNORM_SHORT_555,
        CL_UNORM_INT_101010, CL_SIGNED_INT8, CL_SIGNED_INT16, CL_SIGNED_INT32, CL_UNSIGNED_INT8, CL_UNSIGNED_INT16,
        CL_UNSIGNED_INT32, CL_HALF_FLOAT, CL_FLOAT] @
     List.product [CL_INTENSITY, CL_LUMINANCE]
       [CL_UNORM_INT8, CL_UNORM_INT16, CL_SNORM_INT8, CL_SNORM_INT16, CL_HALF_FLOAT, CL_FLOAT] @
     List.product [CL_RGB, CL_RGBx] [CL_UNORM_SHORT_565, CL_UNORM_SHORT_555, CL_UNORM_INT_101010] @
     List.product [CL_ARGB, CL_BGRA] [CL_SNORM_INT8, CL_UNORM_INT8, CL_SIGNED_INT8, CL_UNSIGNED_INT8]"

definition pocl_basic_get_supported_image_formats :: "cl_bitfield \<Rightarrow> int \<times> cl_image_format list" where
  "pocl_basic_get_supported_image_formats flags = (CL_SUCCESS, supported_image_formats)"

definition pocl_zynq_basic_get_supported_image_formats :: "cl_bitfield \<Rightarrow> int \<times> cl_image_format list" where
  "pocl_zynq_basic_get_supported_image_formats flags = (CL_SUCCESS, supported_image_formats)"

text \<open>The answers of the devices, up to a failure or to a device without formats.\<close>

datatype device_answers = Failed int | No_formats | Formats "cl_image_format list list"

fun ask_devices :: "(nat \<Rightarrow> image_device) \<Rightarrow> cl_bitfield \<Rightarrow> nat list \<Rightarrow> device_answers" where
  "ask_devices D flags [] = Formats []"
| "ask_devices D flags (d # ds) =
     (let (errcode, fs) = get_supported_image_formats (D d) flags in
      if errcode \<noteq> CL_SUCCESS then Failed errcode
      else if fs = [] then No_formats
      else case ask_devices D flags ds of Formats fss \<Rightarrow> Formats (fs # fss) | r \<Rightarrow> r)"

fun pocl_find_img_format :: "cl_image_format \<Rightarrow> cl_image_format list \<Rightarrow> bool" where
  "pocl_find_img_format toFind [] = False"
| "pocl_find_img_format toFind (f # fs) =
     (if fst toFind = fst f \<and> snd toFind = snd f then True else pocl_find_img_format toFind fs)"

text \<open>
  The formats of the first device that all others have. \<open>out\<close> is the caller's array, \<open>None\<close> for a
  null pointer; the bound of the array is compared with \<open>\<le>\<close>.
\<close>

fun scan_formats ::
  "cl_image_format list list \<Rightarrow> cl_image_format list \<Rightarrow> nat \<Rightarrow> nat \<Rightarrow> cl_image_format list option \<Rightarrow>
   (nat \<times> cl_image_format list option) prog" where
  "scan_formats others [] num_entries formatCount out = ok (formatCount, out)"
| "scan_formats others (reff # fs) num_entries formatCount out =
     (if \<forall>l \<in> set others. pocl_find_img_format reff l
      then case out of
             None \<Rightarrow> scan_formats others fs num_entries (formatCount + 1) None
           | Some a \<Rightarrow>
               if formatCount \<le> num_entries
               then if formatCount < length a
                    then scan_formats others fs num_entries (formatCount + 1) (Some (a[formatCount := reff]))
                    else throw OutOfBounds
               else scan_formats others fs num_entries (formatCount + 1) (Some a)
      else scan_formats others fs num_entries formatCount out)"

text \<open>
  \<open>mallocs\<close> says whether the two tables can be allocated. The result is the status, the caller's
  array and the number for \<open>*num_image_formats\<close>, \<open>None\<close> when it is not written.
\<close>

definition clGetSupportedImageFormats ::
  "(nat \<Rightarrow> image_device) \<Rightarrow> bool \<Rightarrow> nat option \<Rightarrow> cl_bitfield \<Rightarrow> nat \<Rightarrow> cl_image_format list option \<Rightarrow> cl_state \<Rightarrow>
   (int \<times> cl_image_format list option \<times> nat option) prog" where
  "clGetSupportedImageFormats D mallocs context flags num_entries out s =
     (case context of None \<Rightarrow> ok (CL_INVALID_CONTEXT, out, None) | Some c \<Rightarrow>
      andthen (fetch (contexts s) c) (\<lambda>C.
      if ctx_devices C = [] then ok (CL_INVALID_CONTEXT, out, None)
      else if num_entries = 0 \<and> out \<noteq> None then ok (CL_INVALID_VALUE, out, None)
      else if \<not> mallocs then ok (CL_OUT_OF_HOST_MEMORY, out, None)
      else case ask_devices D flags (ctx_devices C) of
             Failed errcode \<Rightarrow> ok (errcode, out, None)
           | No_formats \<Rightarrow> ok (CL_SUCCESS, out, Some 0)
           | Formats fss \<Rightarrow>
               andthen (scan_formats (tl fss) (hd fss) num_entries 0 out) (\<lambda>(formatCount, out').
               ok (CL_SUCCESS, out', Some formatCount))))"

section \<open>Helpers\<close>

definition pocl_check_image_origin_region :: "cl_image \<Rightarrow> vec3 option \<Rightarrow> vec3 option \<Rightarrow> int" where
  "pocl_check_image_origin_region img origin region =
     (case origin of None \<Rightarrow> CL_INVALID_VALUE | Some (o0, o1, o2) \<Rightarrow>
     (case region of None \<Rightarrow> CL_INVALID_VALUE | Some (r0, r1, r2) \<Rightarrow>
      if o0 + r0 > image_row_pitch img \<or>
         image_height img > 0 \<and> o1 + r1 > image_height img \<or>
         image_depth img > 0 \<and> o2 + r2 > image_depth img
      then CL_INVALID_VALUE else CL_SUCCESS))"

text \<open>The limits of the device for the image's type.\<close>

definition image_too_large :: "image_device \<Rightarrow> int \<Rightarrow> cl_image \<Rightarrow> bool" where
  "image_too_large dev ty img \<longleftrightarrow>
     (ty = CL_MEM_OBJECT_IMAGE1D \<or> ty = CL_MEM_OBJECT_IMAGE1D_ARRAY) \<and> image_width img > image2d_max_width dev \<or>
     (ty = CL_MEM_OBJECT_IMAGE2D \<or> ty = CL_MEM_OBJECT_IMAGE2D_ARRAY) \<and>
       (image_width img > image2d_max_width dev \<or> image_height img > image2d_max_height dev) \<or>
     ty = CL_MEM_OBJECT_IMAGE3D \<and>
       (image_width img > image3d_max_width dev \<or> image_height img > image3d_max_height dev \<or>
        image_depth img > image3d_max_depth dev)"

text \<open>The loop over the supported formats leaves after its first round, whatever it compared.\<close>

fun compare_formats :: "cl_image_format \<Rightarrow> cl_image_format list \<Rightarrow> int \<Rightarrow> int" where
  "compare_formats fmt [] errcode = CL_INVALID_IMAGE_FORMAT_DESCRIPTOR"
| "compare_formats fmt (f # fs) errcode = (if fst f = fst fmt \<and> snd f = snd fmt then CL_SUCCESS else errcode)"

definition pocl_check_device_supports_image ::
  "(nat \<Rightarrow> image_device) \<Rightarrow> bool \<Rightarrow> cl_mem \<Rightarrow> cl_image \<Rightarrow> cl_command_queue \<Rightarrow> cl_state \<Rightarrow> int prog" where
  "pocl_check_device_supports_image D mallocs B img Q s =
     (if \<not> image_support (D (q_device Q)) then ok CL_INVALID_OPERATION
      else if image_too_large (D (q_device Q)) (mem_type B) img then ok CL_INVALID_IMAGE_SIZE
      else andthen (clGetSupportedImageFormats D mallocs (Some (q_context Q)) 0 0 None s) (\<lambda>(errcode, _, n).
           if errcode \<noteq> CL_SUCCESS then ok errcode
           else let num_entries = the n in
           if num_entries = 0 then ok errcode
           else if \<not> mallocs then ok CL_OUT_OF_HOST_MEMORY
           else andthen (clGetSupportedImageFormats D mallocs (Some (q_context Q)) 0 num_entries
                          (Some (replicate num_entries (CL_R, CL_FLOAT))) s) (\<lambda>(errcode, out, _).
                if errcode \<noteq> CL_SUCCESS then ok errcode
                else ok (compare_formats (image_channel_order img, image_channel_data_type img) (the out) errcode))))"

text \<open>\<open>elem\<close> is the size's variable before the call: it stays for the other types.\<close>

definition pocl_get_image_information :: "cl_channel_order \<Rightarrow> cl_channel_type \<Rightarrow> size_t \<Rightarrow> size_t \<times> size_t" where
  "pocl_get_image_information ch_order ch_type elem =
     ((if ch_order \<in> {CL_RGB, CL_RGBx, CL_R, CL_Rx, CL_A} then 1 else 4),
      (if ch_type \<in> {CL_SNORM_INT8, CL_UNORM_INT8, CL_SIGNED_INT8, CL_UNSIGNED_INT8} then 1
       else if ch_type \<in> {CL_UNSIGNED_INT32, CL_SIGNED_INT32, CL_FLOAT, CL_UNORM_INT_101010} then 4
       else if ch_type \<in> {CL_SNORM_INT16, CL_UNORM_INT16, CL_SIGNED_INT16, CL_UNSIGNED_INT16, CL_UNORM_SHORT_555,
                          CL_UNORM_SHORT_565, CL_HALF_FLOAT} then 2
       else elem))"

text \<open>Origins and regions whose first component counts bytes.\<close>

definition tuned :: "size_t \<Rightarrow> size_t \<Rightarrow> vec3 \<Rightarrow> vec3" where
  "tuned elem_size channels v = (let (v0, v1, v2) = v in (v0 * elem_size * channels, v1, v2))"

text \<open>
  Writing to an image counts 16 bytes for every pixel, and its check leaves the origin out.
\<close>

definition pocl_write_image ::
  "nat \<Rightarrow> cl_mem \<Rightarrow> cl_image \<Rightarrow> vec3 option \<Rightarrow> vec3 option \<Rightarrow> addr \<Rightarrow> cl_state \<Rightarrow> int \<times> cl_state" where
  "pocl_write_image device B img origin region ptr s =
     (if ptr = NULL \<or> region = None \<or> origin = None then (CL_INVALID_VALUE, s)
      else let org = tuned 4 4 (the origin); reg = tuned 4 4 (the region); (r0, r1, r2) = reg; rp = image_row_pitch img
      in if r0 * r1 * r2 > 0 \<and> r0 - 1 + rp * (r1 - 1) + 0 * (r2 - 1) \<ge> mem_size B then (CL_INVALID_VALUE, s)
         else (CL_SUCCESS, act (Dev_write_box device ptr (device_ptrs B device) org org reg rp 0 rp 0) s))"

definition pocl_read_image ::
  "nat \<Rightarrow> cl_mem \<Rightarrow> cl_image \<Rightarrow> vec3 option \<Rightarrow> vec3 option \<Rightarrow> addr \<Rightarrow> cl_state \<Rightarrow> int \<times> cl_state" where
  "pocl_read_image device B img origin region ptr s =
     (if ptr = NULL \<or> region = None \<or> origin = None then (CL_INVALID_VALUE, s)
      else let elem = image_elem_size img; ch = image_channels img;
               org = tuned elem ch (the origin); reg = tuned elem ch (the region);
               (o0, o1, o2) = org; (r0, r1, r2) = reg;
               rp = image_width img * elem * ch; sp = image_height img * rp
      in if o0 + r0 > rp \<or> o1 + r1 > image_height img then (CL_INVALID_VALUE, s)
         else if mem_type B = CL_MEM_OBJECT_IMAGE3D \<and> o2 + r2 > image_depth img then (CL_INVALID_VALUE, s)
         else if mem_type B \<noteq> CL_MEM_OBJECT_IMAGE3D \<and> r2 \<noteq> 1 then (CL_INVALID_VALUE, s)
         else (CL_SUCCESS, act (Dev_read_box device ptr (device_ptrs B device) org org reg rp sp rp sp) s))"

section \<open>Creating images\<close>

text \<open>
  \<open>D\<close> gives the devices, \<open>mallocs\<close> and \<open>list_malloc\<close> whether the tables of the format query and the
  list of formats can be allocated, \<open>junk\<close> what the variable of the element size holds before.
\<close>

definition clCreateImage ::
  "buffer_environment \<Rightarrow> (nat \<Rightarrow> image_device) \<Rightarrow> bool \<Rightarrow> bool \<Rightarrow> size_t \<Rightarrow> nat option \<Rightarrow> nat option \<Rightarrow> cl_bitfield \<Rightarrow>
   cl_image_format option \<Rightarrow> cl_image_desc option \<Rightarrow> addr \<Rightarrow> cl_state \<Rightarrow> (nat \<Rightarrow> cl_image) \<Rightarrow>
   (nat option \<times> int \<times> cl_state \<times> (nat \<Rightarrow> cl_image)) prog" where
  "clCreateImage E D mallocs list_malloc junk ca context flags image_format image_desc host_ptr s I =
     (case context of None \<Rightarrow> ok (None, CL_INVALID_CONTEXT, s, I) | Some c \<Rightarrow>
     (case image_format of None \<Rightarrow> ok (None, CL_INVALID_IMAGE_FORMAT_DESCRIPTOR, s, I) | Some (ch_order, ch_type) \<Rightarrow>
     (case image_desc of None \<Rightarrow> ok (None, CL_INVALID_IMAGE_DESCRIPTOR, s, I) | Some desc \<Rightarrow>
      if num_mip_levels desc \<noteq> 0 \<or> num_samples desc \<noteq> 0 then throw (Exit 2)
      else andthen (clGetSupportedImageFormats D mallocs (Some c) flags 0 None s) (\<lambda>(errcode, _, n).
      if errcode \<noteq> CL_SUCCESS \<or> n = Some 0 then ok (None, CL_INVALID_VALUE, s, I)
      else if \<not> list_malloc then ok (None, CL_OUT_OF_HOST_MEMORY, s, I)
      else andthen (clGetSupportedImageFormats D mallocs (Some c) flags (the n)
                      (Some (replicate (the n) (CL_R, CL_FLOAT))) s) (\<lambda>(errcode, out, _).
      if errcode \<noteq> CL_SUCCESS then ok (None, errcode, s, I)
      else if \<not> pocl_find_img_format (ch_order, ch_type) (the out) then ok (None, CL_IMAGE_FORMAT_NOT_SUPPORTED, s, I)
      else if desc_type desc \<noteq> CL_MEM_OBJECT_IMAGE2D \<and> desc_type desc \<noteq> CL_MEM_OBJECT_IMAGE3D then throw (Exit 2)
      else
        let (channels, elem_size) = pocl_get_image_information ch_order ch_type junk;
            sz = desc_width desc * desc_height desc * elem_size * channels;
            row_pitch = (if desc_row_pitch desc = 0 then desc_width desc * elem_size * channels else desc_row_pitch desc);
            slice_pitch =
              (if desc_slice_pitch desc = 0
               then if desc_type desc = CL_MEM_OBJECT_IMAGE3D \<or> desc_type desc = CL_MEM_OBJECT_IMAGE2D_ARRAY
                    then row_pitch * desc_height desc
                    else if desc_type desc = CL_MEM_OBJECT_IMAGE1D_ARRAY then row_pitch else 0
               else desc_slice_pitch desc)
        in andthen (clCreateBuffer E ca (Some c) flags sz host_ptr s) (\<lambda>(r, errcode, s1).
           case r of
             None \<Rightarrow> ok (None, CL_OUT_OF_HOST_MEMORY, s1, I)
           | Some i \<Rightarrow>
               andthen (fetch (mems s1) i) (\<lambda>B.
               ok (Some i, CL_SUCCESS, put_mem i (B\<lparr>mem_type := desc_type desc\<rparr>) s1,
                   I(i := \<lparr>is_image = True, image_channel_order = ch_order, image_channel_data_type = ch_type,
                           image_width = desc_width desc, image_height = desc_height desc,
                           image_depth = desc_depth desc, image_array_size = desc_array_size desc,
                           image_row_pitch = row_pitch, image_slice_pitch = slice_pitch,
                           image_elem_size = elem_size, image_channels = channels\<rparr>)))))))))"

definition clCreateImage2D ::
  "buffer_environment \<Rightarrow> (nat \<Rightarrow> image_device) \<Rightarrow> bool \<Rightarrow> bool \<Rightarrow> size_t \<Rightarrow> nat option \<Rightarrow> nat option \<Rightarrow> cl_bitfield \<Rightarrow>
   cl_image_format option \<Rightarrow> size_t \<Rightarrow> size_t \<Rightarrow> size_t \<Rightarrow> addr \<Rightarrow> cl_state \<Rightarrow> (nat \<Rightarrow> cl_image) \<Rightarrow>
   (nat option \<times> int \<times> cl_state \<times> (nat \<Rightarrow> cl_image)) prog" where
  "clCreateImage2D E D mallocs list_malloc junk ca context flags image_format width height row_pitch host_ptr s I =
     clCreateImage E D mallocs list_malloc junk ca context flags image_format
       (Some \<lparr>desc_type = CL_MEM_OBJECT_IMAGE2D, desc_width = width, desc_height = height, desc_depth = 0,
              desc_array_size = 1, desc_row_pitch = row_pitch, desc_slice_pitch = 0, num_mip_levels = 0,
              num_samples = 0\<rparr>) host_ptr s I"

definition clCreateImage3D ::
  "buffer_environment \<Rightarrow> (nat \<Rightarrow> image_device) \<Rightarrow> bool \<Rightarrow> bool \<Rightarrow> size_t \<Rightarrow> nat option \<Rightarrow> nat option \<Rightarrow> cl_bitfield \<Rightarrow>
   cl_image_format option \<Rightarrow> size_t \<Rightarrow> size_t \<Rightarrow> size_t \<Rightarrow> size_t \<Rightarrow> size_t \<Rightarrow> addr \<Rightarrow> cl_state \<Rightarrow> (nat \<Rightarrow> cl_image) \<Rightarrow>
   (nat option \<times> int \<times> cl_state \<times> (nat \<Rightarrow> cl_image)) prog" where
  "clCreateImage3D E D mallocs list_malloc junk ca context flags image_format width height depth row_pitch slice_pitch
      host_ptr s I =
     clCreateImage E D mallocs list_malloc junk ca context flags image_format
       (Some \<lparr>desc_type = CL_MEM_OBJECT_IMAGE3D, desc_width = width, desc_height = height, desc_depth = depth,
              desc_array_size = 1, desc_row_pitch = row_pitch, desc_slice_pitch = slice_pitch, num_mip_levels = 0,
              num_samples = 0\<rparr>) host_ptr s I"

section \<open>Reading and writing images\<close>

text \<open>
  The pitches of the host array are parameters that the code does not look at. When the command
  cannot be created the read goes on with a command pointer that is null or not set.
\<close>

definition clEnqueueReadImage ::
  "(nat \<Rightarrow> image_device) \<Rightarrow> bool \<Rightarrow> (nat \<Rightarrow> cl_image) \<Rightarrow> nat \<Rightarrow> nat option \<Rightarrow> nat option \<Rightarrow> nat option \<Rightarrow> nat option \<Rightarrow> bool \<Rightarrow>
   vec3 option \<Rightarrow> vec3 option \<Rightarrow> size_t \<Rightarrow> size_t \<Rightarrow> addr \<Rightarrow> nat \<Rightarrow> nat option list option \<Rightarrow> bool \<Rightarrow> cl_state \<Rightarrow>
   (int \<times> nat option \<times> cl_state) prog" where
  "clEnqueueReadImage D mallocs I depth cmd_ca event_ca command_queue img blocking_read origin region host_row_pitch
      host_slice_pitch ptr num_events wait_list wants s =
     (case command_queue of None \<Rightarrow> ok (CL_INVALID_COMMAND_QUEUE, None, s) | Some q \<Rightarrow>
     (case img of None \<Rightarrow> ok (CL_INVALID_MEM_OBJECT, None, s) | Some b \<Rightarrow>
      if ptr = NULL then ok (CL_INVALID_VALUE, None, s)
      else andthen (fetch (queues s) q) (\<lambda>Q.
      andthen (fetch (mems s) b) (\<lambda>B.
      if q_context Q \<noteq> mem_context B then ok (CL_INVALID_CONTEXT, None, s)
      else if bad_wait_list num_events wait_list then ok (CL_INVALID_EVENT_WAIT_LIST, None, s)
      else andthen (pocl_check_device_supports_image D mallocs B (I b) Q s) (\<lambda>errcode.
      if errcode \<noteq> CL_SUCCESS then ok (errcode, None, s)
      else if pocl_check_image_origin_region (I b) origin region \<noteq> CL_SUCCESS
      then ok (pocl_check_image_origin_region (I b) origin region, None, s)
      else let elem = image_elem_size (I b); ch = image_channels (I b)
      in andthen (pocl_create_command cmd_ca event_ca q
           (Read_image ptr (device_ptrs B (q_device Q)) (tuned elem ch (the origin)) (tuned elem ch (the region))
              (image_row_pitch (I b)) (image_slice_pitch (I b))) wants num_events wait_list s) (\<lambda>(errcode, r, s1).
         case r of
           None \<Rightarrow> throw NullDeref
         | Some (cmd, ev) \<Rightarrow>
             andthen (pocl_command_enqueue q cmd s1) (\<lambda>s2.
             andthen (clRetainMemObject (Some b) s2) (\<lambda>(e, s3).
             andthen (if blocking_read then clFinish depth q s3 else ok (CL_SUCCESS, s3)) (\<lambda>(e, s4).
             ok (errcode, Some ev, s4))))))))))"

text \<open>
  Freeing the event that the caller's variable happens to hold, \<open>old\<close>; \<open>None\<close> when the variable or
  its content is null.
\<close>

definition free_old_event :: "nat option \<Rightarrow> cl_state \<Rightarrow> cl_state prog" where
  "free_old_event old s =
     (case old of None \<Rightarrow> ok s
      | Some ev \<Rightarrow> if events s ev = None then throw BadFree else ok (s\<lparr>events := (events s)(ev := None)\<rparr>))"

definition clEnqueueWriteImage ::
  "(nat \<Rightarrow> image_device) \<Rightarrow> bool \<Rightarrow> (nat \<Rightarrow> cl_image) \<Rightarrow> nat \<Rightarrow> nat option \<Rightarrow> nat option \<Rightarrow> nat option \<Rightarrow> nat option \<Rightarrow> bool \<Rightarrow>
   vec3 option \<Rightarrow> vec3 option \<Rightarrow> size_t \<Rightarrow> size_t \<Rightarrow> addr \<Rightarrow> nat \<Rightarrow> nat option list option \<Rightarrow> bool \<Rightarrow> nat option \<Rightarrow> cl_state \<Rightarrow>
   (int \<times> nat option \<times> cl_state) prog" where
  "clEnqueueWriteImage D mallocs I depth cmd_ca event_ca command_queue img blocking_write origin region host_row_pitch
      host_slice_pitch ptr num_events wait_list wants old s =
     (case command_queue of None \<Rightarrow> ok (CL_INVALID_COMMAND_QUEUE, None, s) | Some q \<Rightarrow>
     (case img of None \<Rightarrow> ok (CL_INVALID_MEM_OBJECT, None, s) | Some b \<Rightarrow>
      if ptr = NULL then ok (CL_INVALID_VALUE, None, s)
      else andthen (fetch (queues s) q) (\<lambda>Q.
      andthen (fetch (mems s) b) (\<lambda>B.
      if q_context Q \<noteq> mem_context B then ok (CL_INVALID_CONTEXT, None, s)
      else if bad_wait_list num_events wait_list then ok (CL_INVALID_EVENT_WAIT_LIST, None, s)
      else andthen (pocl_check_device_supports_image D mallocs B (I b) Q s) (\<lambda>errcode.
      if errcode \<noteq> CL_SUCCESS then ok (errcode, None, s)
      else if pocl_check_image_origin_region (I b) origin region \<noteq> CL_SUCCESS
      then ok (pocl_check_image_origin_region (I b) origin region, None, s)
      else let elem = image_elem_size (I b); ch = image_channels (I b)
      in andthen (pocl_create_command cmd_ca event_ca q
           (Write_image ptr (device_ptrs B (q_device Q)) (tuned elem ch (the origin)) (tuned elem ch (the region))
              (image_row_pitch (I b)) (image_slice_pitch (I b))) wants num_events wait_list s) (\<lambda>(errcode, r, s1).
         case r of
           None \<Rightarrow> andthen (free_old_event (if wants then old else None) s1) (\<lambda>s2. ok (errcode, None, s2))
         | Some (cmd, ev) \<Rightarrow>
             andthen (pocl_command_enqueue q cmd s1) (\<lambda>s2.
             andthen (if blocking_write then clFinish depth q s2 else ok (errcode, s2)) (\<lambda>(e, s3).
             ok (e, Some ev, s3)))))))))"

section \<open>Copying images\<close>

text \<open>The checks of a copy between two images, up to those of the device.\<close>

definition copy_image_error ::
  "cl_command_queue \<Rightarrow> cl_mem \<Rightarrow> cl_mem \<Rightarrow> cl_image \<Rightarrow> cl_image \<Rightarrow> vec3 \<Rightarrow> vec3 \<Rightarrow> vec3 \<Rightarrow> nat \<Rightarrow> nat option list option \<Rightarrow> int" where
  "copy_image_error Q B1 B2 M1 M2 src_origin dst_origin region num_events wait_list =
     (if q_context Q \<noteq> mem_context B1 \<or> q_context Q \<noteq> mem_context B2 then CL_INVALID_CONTEXT
      else if \<not> is_image M1 \<or> \<not> is_image M2 then CL_INVALID_MEM_OBJECT
      else if bad_wait_list num_events wait_list then CL_INVALID_EVENT_WAIT_LIST
      else if image_channel_order M1 \<noteq> image_channel_order M2 \<or> image_channel_data_type M1 \<noteq> image_channel_data_type M2
      then CL_IMAGE_FORMAT_MISMATCH
      else if mem_type B1 = CL_MEM_OBJECT_IMAGE2D \<and> snd (snd src_origin) \<noteq> 0 then CL_INVALID_VALUE
      else if mem_type B2 = CL_MEM_OBJECT_IMAGE2D \<and> snd (snd dst_origin) \<noteq> 0 then CL_INVALID_VALUE
      else if (mem_type B2 = CL_MEM_OBJECT_IMAGE2D \<or> mem_type B1 = CL_MEM_OBJECT_IMAGE2D) \<and> snd (snd region) \<noteq> 1
      then CL_INVALID_VALUE
      else CL_SUCCESS)"

definition clEnqueueCopyImage ::
  "(nat \<Rightarrow> image_device) \<Rightarrow> bool \<Rightarrow> (nat \<Rightarrow> cl_image) \<Rightarrow> nat \<Rightarrow> nat option \<Rightarrow> nat option \<Rightarrow> nat option \<Rightarrow> vec3 option \<Rightarrow>
   vec3 option \<Rightarrow> vec3 option \<Rightarrow> nat \<Rightarrow> nat option list option \<Rightarrow> nat option \<Rightarrow> cl_state \<Rightarrow> (int \<times> cl_state) prog" where
  "clEnqueueCopyImage D mallocs I depth command_queue src_image dst_image src_origin dst_origin region num_events
      wait_list old s =
     (case command_queue of None \<Rightarrow> ok (CL_INVALID_COMMAND_QUEUE, s) | Some q \<Rightarrow>
      andthen (fetch (queues s) q) (\<lambda>Q.
      if \<not> image_support (D (q_device Q)) then ok (CL_INVALID_OPERATION, s)
      else case src_image of None \<Rightarrow> ok (CL_INVALID_MEM_OBJECT, s) | Some b1 \<Rightarrow>
     (case dst_image of None \<Rightarrow> ok (CL_INVALID_MEM_OBJECT, s) | Some b2 \<Rightarrow>
      if src_origin = None \<or> dst_origin = None \<or> region = None then ok (CL_INVALID_VALUE, s)
      else andthen (fetch (mems s) b1) (\<lambda>B1.
      andthen (fetch (mems s) b2) (\<lambda>B2.
      let M1 = I b1; M2 = I b2; o1 = the src_origin; o2 = the dst_origin; reg = the region;
          err = copy_image_error Q B1 B2 M1 M2 o1 o2 reg num_events wait_list
      in if err \<noteq> CL_SUCCESS then ok (err, s)
         else andthen (pocl_check_device_supports_image D mallocs B1 M1 Q s) (\<lambda>e1.
         if e1 \<noteq> CL_SUCCESS then ok (e1, s)
         else andthen (pocl_check_device_supports_image D mallocs B2 M2 Q s) (\<lambda>e2.
         if e2 \<noteq> CL_SUCCESS then ok (e2, s)
         else clEnqueueCopyBufferRect depth (Some q) (Some b1) (Some b2)
                (Some (tuned (image_elem_size M1) (image_channels M1) o1))
                (Some (tuned (image_elem_size M2) (image_channels M2) o2))
                (Some (tuned (image_elem_size M1) (image_channels M1) reg))
                (image_row_pitch M1) (image_slice_pitch M1) (image_row_pitch M2) (image_slice_pitch M2)
                num_events wait_list old s)))))))"

text \<open>
  The copy from a buffer reads the image into the block \<open>temp\<close> that \<open>malloc\<close> answers and writes it
  back from \<open>temp + src_offset\<close>.
\<close>

definition clEnqueueCopyBufferToImage ::
  "(nat \<Rightarrow> image_device) \<Rightarrow> bool \<Rightarrow> (nat \<Rightarrow> cl_image) \<Rightarrow> addr option \<Rightarrow> nat option \<Rightarrow> nat option \<Rightarrow> nat option \<Rightarrow> size_t \<Rightarrow>
   vec3 option \<Rightarrow> vec3 option \<Rightarrow> nat \<Rightarrow> nat option list option \<Rightarrow> nat option \<Rightarrow> cl_state \<Rightarrow> (int \<times> cl_state) prog" where
  "clEnqueueCopyBufferToImage D mallocs I temp command_queue buffer img src_offset dst_origin region num_events
      wait_list old s =
     (case command_queue of None \<Rightarrow> ok (CL_INVALID_COMMAND_QUEUE, s) | Some q \<Rightarrow>
      andthen (fetch (queues s) q) (\<lambda>Q.
      if \<not> image_support (D (q_device Q)) then ok (CL_INVALID_OPERATION, s)
      else case buffer of None \<Rightarrow> ok (CL_INVALID_MEM_OBJECT, s) | Some b1 \<Rightarrow>
      andthen (fetch (mems s) b1) (\<lambda>B1.
      if mem_type B1 \<noteq> CL_MEM_OBJECT_BUFFER then ok (CL_INVALID_MEM_OBJECT, s)
      else case img of None \<Rightarrow> ok (CL_INVALID_MEM_OBJECT, s) | Some b2 \<Rightarrow>
      andthen (fetch (mems s) b2) (\<lambda>B2.
      if \<not> is_image (I b2) then ok (CL_INVALID_MEM_OBJECT, s)
      else case region of None \<Rightarrow> ok (CL_INVALID_MEM_OBJECT, s) | Some (r0, r1, r2) \<Rightarrow>
      if r2 \<noteq> 1 then throw (Exit 2)
      else if mem_context B1 \<noteq> mem_context B2 \<or> mem_context B1 \<noteq> q_context Q then ok (CL_INVALID_CONTEXT, s)
      else if bad_wait_list num_events wait_list then ok (CL_INVALID_EVENT_WAIT_LIST, s)
      else andthen (pocl_check_device_supports_image D mallocs B2 (I b2) Q s) (\<lambda>errcode.
      if errcode \<noteq> CL_SUCCESS then ok (errcode, s)
      else case temp of None \<Rightarrow> throw NullDeref | Some t \<Rightarrow>
        let d = q_device Q;
            s1 = act (Dev_read d t (device_ptrs B2 d) src_offset (mem_size B2)) s;
            (ret_code, s2) = pocl_write_image d B2 (I b2) dst_origin region (t + src_offset) s1
        in andthen (update_old POCL_UPDATE_EVENT_COMPLETE old q s2) (\<lambda>s3. ok (ret_code, s3)))))))"

definition clEnqueueCopyImageToBuffer :: "cl_state \<Rightarrow> (int \<times> cl_state) prog" where
  "clEnqueueCopyImageToBuffer s = throw (Exit 2)"

section \<open>Filling and mapping images\<close>

text \<open>
  The pixel: four values of the element's size, lowest byte first; nothing is stored for other sizes.
\<close>

definition le_bytes :: "nat \<Rightarrow> u32 \<Rightarrow> byte list" where
  "le_bytes n c = map (\<lambda>i. ucast (drop_bit (8 * i) c)) [0..<n]"

definition fill_pixel :: "size_t \<Rightarrow> u32 \<times> u32 \<times> u32 \<times> u32 \<Rightarrow> byte list" where
  "fill_pixel elem_size color =
     (let (c0, c1, c2, c3) = color in
      if elem_size = 1 then concat (map (le_bytes 1) [c0, c1, c2, c3])
      else if elem_size = 2 then concat (map (le_bytes 2) [c0, c1, c2, c3])
      else if elem_size = 4 then concat (map (le_bytes 4) [c0, c1, c2, c3])
      else [])"

text \<open>The error exit of a fill frees \<open>*event\<close> without looking at \<open>event\<close>.\<close>

definition fill_failed :: "bool \<Rightarrow> nat option \<Rightarrow> int \<Rightarrow> cl_state \<Rightarrow> (int \<times> nat option \<times> cl_state) prog" where
  "fill_failed wants old errcode s =
     (if \<not> wants then throw NullDeref else andthen (free_old_event old s) (\<lambda>s1. ok (errcode, None, s1)))"

definition clEnqueueFillImage ::
  "(nat \<Rightarrow> image_device) \<Rightarrow> bool \<Rightarrow> bool \<Rightarrow> (nat \<Rightarrow> cl_image) \<Rightarrow> nat option \<Rightarrow> nat option \<Rightarrow> nat option \<Rightarrow> nat option \<Rightarrow>
   (u32 \<times> u32 \<times> u32 \<times> u32) option \<Rightarrow> vec3 option \<Rightarrow> vec3 option \<Rightarrow> nat \<Rightarrow> nat option list option \<Rightarrow> bool \<Rightarrow> nat option \<Rightarrow>
   cl_state \<Rightarrow> (int \<times> nat option \<times> cl_state) prog" where
  "clEnqueueFillImage D mallocs pixel_malloc I cmd_ca event_ca command_queue img fill_color origin region num_events
      wait_list wants old s =
     (case command_queue of None \<Rightarrow> ok (CL_INVALID_COMMAND_QUEUE, None, s) | Some q \<Rightarrow>
      andthen (fetch (queues s) q) (\<lambda>Q.
      if \<not> image_support (D (q_device Q)) then ok (CL_INVALID_OPERATION, None, s)
      else case img of None \<Rightarrow> ok (CL_INVALID_MEM_OBJECT, None, s) | Some b \<Rightarrow>
      if origin = None \<or> region = None \<or> fill_color = None then ok (CL_INVALID_VALUE, None, s)
      else andthen (fetch (mems s) b) (\<lambda>B.
      if q_context Q \<noteq> mem_context B then ok (CL_INVALID_CONTEXT, None, s)
      else if \<not> is_image (I b) then ok (CL_INVALID_MEM_OBJECT, None, s)
      else if bad_wait_list num_events wait_list then ok (CL_INVALID_EVENT_WAIT_LIST, None, s)
      else if pocl_check_image_origin_region (I b) origin region \<noteq> CL_SUCCESS
      then ok (pocl_check_image_origin_region (I b) origin region, None, s)
      else andthen (pocl_check_device_supports_image D mallocs B (I b) Q s) (\<lambda>errcode.
      if errcode \<noteq> CL_SUCCESS then ok (errcode, None, s)
      else if \<not> pixel_malloc then fill_failed wants old CL_OUT_OF_HOST_MEMORY s
      else andthen (pocl_create_command cmd_ca event_ca q
             (Fill_image (device_ptrs B (q_device Q)) (the origin) (the region) (image_row_pitch (I b))
                (image_slice_pitch (I b)) (fill_pixel (image_elem_size (I b)) (the fill_color))
                (image_elem_size (I b) * image_channels (I b))) wants num_events wait_list s) (\<lambda>(errcode, r, s1).
           case r of
             None \<Rightarrow> fill_failed wants old errcode s1
           | Some (cmd, ev) \<Rightarrow> andthen (pocl_command_enqueue q cmd s1) (\<lambda>s2. ok (errcode, Some ev, s2)))))))"

text \<open>
  \<open>map_mem\<close> is the operation of the device and \<open>map_ca\<close> the record \<open>malloc\<close> gives. The answer carries
  the address, the status, the event and the two pitches. An error after the address is known frees
  the address, which lies inside the image's memory.
\<close>

definition map_image_failed ::
  "bool \<Rightarrow> nat option \<Rightarrow> addr \<Rightarrow> int \<Rightarrow> cl_state \<Rightarrow> (addr \<times> int \<times> nat option \<times> (size_t \<times> size_t) option \<times> cl_state) prog" where
  "map_image_failed wants old hp errcode s =
     (if hp \<noteq> NULL then throw BadFree
      else andthen (free_old_event (if wants then old else None) s) (\<lambda>s1. ok (NULL, errcode, None, None, s1)))"

definition map_image_error ::
  "(nat \<Rightarrow> image_device) \<Rightarrow> bool \<Rightarrow> cl_command_queue \<Rightarrow> cl_mem \<Rightarrow> cl_image \<Rightarrow> bool \<Rightarrow> bool \<Rightarrow> vec3 option \<Rightarrow> vec3 option \<Rightarrow>
   nat \<Rightarrow> nat option list option \<Rightarrow> cl_state \<Rightarrow> int prog" where
  "map_image_error D mallocs Q B M wants_row wants_slice origin region num_events wait_list s =
     (if q_context Q \<noteq> mem_context B then ok CL_INVALID_CONTEXT
      else if \<not> is_image M then ok CL_INVALID_MEM_OBJECT
      else if bad_wait_list num_events wait_list then ok CL_INVALID_EVENT_WAIT_LIST
      else andthen (pocl_check_device_supports_image D mallocs B M Q s) (\<lambda>errcode.
           if errcode \<noteq> CL_SUCCESS then ok errcode
           else if \<not> wants_row then ok CL_INVALID_VALUE
           else if pocl_check_image_origin_region M origin region \<noteq> CL_SUCCESS
           then ok (pocl_check_image_origin_region M origin region)
           else if \<not> wants_slice \<and>
             (mem_type B = CL_MEM_OBJECT_IMAGE3D \<or> mem_type B = CL_MEM_OBJECT_IMAGE1D_ARRAY \<or>
              mem_type B = CL_MEM_OBJECT_IMAGE2D_ARRAY)
           then ok CL_INVALID_VALUE else ok CL_SUCCESS))"

definition clEnqueueMapImage ::
  "(nat \<Rightarrow> addr \<Rightarrow> size_t \<Rightarrow> size_t \<Rightarrow> addr \<Rightarrow> addr) \<Rightarrow> (nat \<Rightarrow> image_device) \<Rightarrow> bool \<Rightarrow> (nat \<Rightarrow> cl_image) \<Rightarrow> nat \<Rightarrow> nat option \<Rightarrow>
   nat option \<Rightarrow> nat option \<Rightarrow> nat option \<Rightarrow> nat option \<Rightarrow> bool \<Rightarrow> 64 word \<Rightarrow> vec3 option \<Rightarrow> vec3 option \<Rightarrow> bool \<Rightarrow> bool \<Rightarrow> nat \<Rightarrow>
   nat option list option \<Rightarrow> bool \<Rightarrow> nat option \<Rightarrow> cl_state \<Rightarrow>
   (addr \<times> int \<times> nat option \<times> (size_t \<times> size_t) option \<times> cl_state) prog" where
  "clEnqueueMapImage map_mem D mallocs I depth map_ca cmd_ca event_ca command_queue img blocking_map map_flags origin
      region wants_row wants_slice num_events wait_list wants old s =
     (case command_queue of None \<Rightarrow> map_image_failed wants old NULL CL_INVALID_COMMAND_QUEUE s | Some q \<Rightarrow>
      andthen (fetch (queues s) q) (\<lambda>Q.
      if \<not> image_support (D (q_device Q)) then map_image_failed wants old NULL CL_INVALID_OPERATION s
      else case img of None \<Rightarrow> throw NullDeref | Some b \<Rightarrow>
      andthen (fetch (mems s) b) (\<lambda>B.
      andthen (map_image_error D mallocs Q B (I b) wants_row wants_slice origin region num_events wait_list s) (\<lambda>errcode.
      if errcode \<noteq> CL_SUCCESS then map_image_failed wants old NULL errcode s
      else case map_ca of None \<Rightarrow> map_image_failed wants old NULL CL_OUT_OF_HOST_MEMORY s | Some p \<Rightarrow>
      let d = q_device Q; M = I b; org = the origin; reg = the region;
          offset = image_channels M * image_elem_size M * fst org; use = bit (mem_flags B) MEM_USE_HOST_PTR
      in if use \<and> mem_host_ptr B = NULL then throw AssertFail
         else let hp = (if use then mem_host_ptr B + offset else map_mem d (device_ptrs B d) offset 0 NULL)
         in andthen (if use
                     then update_old POCL_UPDATE_EVENT_COMPLETE old q
                            (act (Dev_read_box d hp (device_ptrs B d) org org reg (image_row_pitch M) (image_slice_pitch M)
                              (image_row_pitch M) (image_slice_pitch M)) s)
                     else ok s) (\<lambda>s1.
            if hp = NULL
            then andthen (update_old POCL_UPDATE_EVENT_COMPLETE old q s1) (map_image_failed wants old NULL CL_MAP_FAILURE)
            else andthen (DL_APPEND (map_links s1) (mappings B) p) (\<lambda>(lk, h).
                 andthen (pocl_create_command cmd_ca event_ca q (Map_image b p) wants num_events wait_list
                   ((put_mem b (B\<lparr>mappings := h\<rparr>) s1)\<lparr>map_links := lk,
                      maps := (maps s1)(p \<mapsto> \<lparr>map_host_ptr = hp, map_offset = offset, map_size = 0\<rparr>)\<rparr>))
                 (\<lambda>(errcode, r, s2).
                 case r of
                   None \<Rightarrow> map_image_failed wants old hp errcode s2
                 | Some (cmd, ev) \<Rightarrow>
                     andthen (pocl_command_enqueue q cmd s2) (\<lambda>s3.
                     andthen (if blocking_map then clFinish depth q s3 else ok (CL_SUCCESS, s3)) (\<lambda>(e, s4).
                     ok (hp, CL_SUCCESS, Some ev,
                         Some (image_row_pitch M, if wants_slice then image_slice_pitch M else 0), s4))))))))))"

end
