(* ===== verification/Cl_Images_Props.thy ===== *)
theory Cl_Images_Props
  imports Cl_Images Cl_Buffers_Props Cl_Transfer_Props Dev_Memory_Props
begin

text \<open>
  What images do: the formats a context supports, an image written and read back through a queue, and
  the checks that let a call leave the memory of an image or turn every copy away.
\<close>

section \<open>Formats\<close>

lemma find_img_format: "pocl_find_img_format f fs \<longleftrightarrow> f \<in> set fs"
  by (induction fs) (auto simp: prod_eq_iff)

text \<open>The formats of the first device that all others have, in the order of the first device.\<close>

definition common_formats :: "cl_image_format list list \<Rightarrow> cl_image_format list" where
  "common_formats fss = filter (\<lambda>f. \<forall>l \<in> set (tl fss). f \<in> set l) (hd fss)"

lemma scan_formats_count:
  "scan_formats others fs n k None = ok (k + length (filter (\<lambda>f. \<forall>l \<in> set others. f \<in> set l) fs), None)"
  by (induction fs arbitrary: k) (simp_all add: find_img_format)

lemma scan_formats_fill:
  "k + length (filter (\<lambda>f. \<forall>l \<in> set others. f \<in> set l) fs) \<le> min n (length a) \<Longrightarrow>
   scan_formats others fs n k (Some a) =
     ok (k + length (filter (\<lambda>f. \<forall>l \<in> set others. f \<in> set l) fs),
         Some (take k a @ filter (\<lambda>f. \<forall>l \<in> set others. f \<in> set l) fs @
               drop (k + length (filter (\<lambda>f. \<forall>l \<in> set others. f \<in> set l) fs)) a))"
proof (induction fs arbitrary: k a)
  case (Cons f fs)
  show ?case
  proof (cases "\<forall>l \<in> set others. f \<in> set l")
    case True
    with Cons.prems have k: "k < length a" "k \<le> n" by simp_all
    have "take (Suc k) (a[k := f]) = take k a @ [f]"
      using k by (simp add: take_Suc_conv_app_nth)
    with True k Cons.prems Cons.IH[of "k + 1" "a[k := f]"] show ?thesis by (simp add: find_img_format)
  next
    case False
    with Cons.prems have "k + length (filter (\<lambda>f. \<forall>l \<in> set others. f \<in> set l) fs) \<le> min n (length a)" by auto
    from Cons.IH[OF this] False show ?thesis by (auto simp: find_img_format)
  qed
qed simp

lemma scan_formats_overrun:
  "length a = n \<Longrightarrow> k \<le> n \<Longrightarrow> n < k + length (filter (\<lambda>f. \<forall>l \<in> set others. f \<in> set l) fs) \<Longrightarrow>
   scan_formats others fs n k (Some a) = throw OutOfBounds"
proof (induction fs arbitrary: k a)
  case (Cons f fs)
  then show ?case by (cases "\<forall>l \<in> set others. f \<in> set l"; cases "k < n") (auto simp: find_img_format)
qed simp

lemma ask_devices_ok:
  "\<forall>d \<in> set ds. \<exists>fs. fs \<noteq> [] \<and> get_supported_image_formats (D d) flags = (CL_SUCCESS, fs) \<Longrightarrow>
   ask_devices D flags ds = Formats (map (\<lambda>d. snd (get_supported_image_formats (D d) flags)) ds)"
  by (induction ds) auto

text \<open>C61: \<open>clGetSupportedImageFormats\<close> finds the formats that all devices of the context have. Asked for
  their number it counts them; into an array with room for all of them it writes exactly these, in the
  order of the first device's table, and leaves the rest of the array alone; an array of \<open>k\<close> entries
  for fewer formats than there are is overrun, since its bound is compared with \<open><=\<close>.\<close>

theorem formats_intersection:
  assumes C: "contexts s c = Some C" "ctx_devices C \<noteq> []"
    and dev: "\<forall>d \<in> set (ctx_devices C). \<exists>fs. fs \<noteq> [] \<and> get_supported_image_formats (D d) flags = (CL_SUCCESS, fs)"
    and F: "F = common_formats (map (\<lambda>d. snd (get_supported_image_formats (D d) flags)) (ctx_devices C))"
  shows "clGetSupportedImageFormats D True (Some c) flags 0 None s = ok (CL_SUCCESS, None, Some (length F)) \<and>
    (\<forall>a. a \<noteq> [] \<and> length F \<le> length a \<longrightarrow>
      clGetSupportedImageFormats D True (Some c) flags (length a) (Some a) s =
        ok (CL_SUCCESS, Some (F @ drop (length F) a), Some (length F))) \<and>
    (\<forall>a. a \<noteq> [] \<and> length a < length F \<longrightarrow>
      clGetSupportedImageFormats D True (Some c) flags (length a) (Some a) s = throw OutOfBounds) \<and>
    set F = (\<Inter>d \<in> set (ctx_devices C). set (snd (get_supported_image_formats (D d) flags)))"
proof -
  let ?fss = "map (\<lambda>d. snd (get_supported_image_formats (D d) flags)) (ctx_devices C)"
  note A = ask_devices_ok[OF dev]
  have F': "filter (\<lambda>f. \<forall>l \<in> set (tl ?fss). f \<in> set l) (hd ?fss) = F" by (simp add: F common_formats_def)
  have count: "clGetSupportedImageFormats D True (Some c) flags 0 None s = ok (CL_SUCCESS, None, Some (length F))"
    using C by (simp add: clGetSupportedImageFormats_def fetch_def A scan_formats_count F')
  have fill: "clGetSupportedImageFormats D True (Some c) flags (length a) (Some a) s =
      ok (CL_SUCCESS, Some (F @ drop (length F) a), Some (length F))" if "a \<noteq> []" "length F \<le> length a" for a
    using C that scan_formats_fill[of 0 "tl ?fss" "hd ?fss" "length a" a]
    by (simp add: clGetSupportedImageFormats_def fetch_def A F')
  have over: "clGetSupportedImageFormats D True (Some c) flags (length a) (Some a) s = throw OutOfBounds"
    if "a \<noteq> []" "length a < length F" for a
    using C that scan_formats_overrun[of a "length a" 0 "tl ?fss" "hd ?fss"]
    by (simp add: clGetSupportedImageFormats_def fetch_def A F')
  have "set F = (\<Inter>d \<in> set (ctx_devices C). set (snd (get_supported_image_formats (D d) flags)))"
    using C(2) by (cases "ctx_devices C") (auto simp: F common_formats_def)
  with count fill over show ?thesis by blast
qed

text \<open>Two devices with one format in common; an array of two entries, and one of three formats for one entry.\<close>

definition sample_images :: "(nat \<Rightarrow> cl_image_format list) \<Rightarrow> nat \<Rightarrow> image_device" where
  "sample_images fs d = \<lparr>image_support = True, image2d_max_width = 8192, image2d_max_height = 8192,
     image3d_max_width = 2048, image3d_max_height = 2048, image3d_max_depth = 2048,
     get_supported_image_formats = (\<lambda>_. (CL_SUCCESS, fs d))\<rparr>"

lemma formats_intersection_witness:
  "let D = sample_images (\<lambda>d. if d = 0 then [(CL_R, CL_FLOAT), (CL_A, CL_FLOAT), (CL_RG, CL_FLOAT)]
         else [(CL_A, CL_FLOAT), (CL_RG, CL_FLOAT)]);
       s = no_objects\<lparr>contexts := [0 \<mapsto> device_context [0, 1]]\<rparr> in
   clGetSupportedImageFormats D True (Some 0) 1 2 (Some [(CL_R, CL_FLOAT), (CL_R, CL_FLOAT)]) s =
     ok (CL_SUCCESS, Some [(CL_A, CL_FLOAT), (CL_RG, CL_FLOAT)], Some 2) \<and>
   clGetSupportedImageFormats D True (Some 0) 1 1 (Some [(CL_R, CL_FLOAT)]) s = throw OutOfBounds"
proof -
  define D where "D = sample_images (\<lambda>d. if d = 0 then [(CL_R, CL_FLOAT), (CL_A, CL_FLOAT), (CL_RG, CL_FLOAT)]
    else [(CL_A, CL_FLOAT), (CL_RG, CL_FLOAT)])"
  define s where "s = no_objects\<lparr>contexts := [0 \<mapsto> device_context [0, 1]]\<rparr>"
  have "contexts s 0 = Some (device_context [0, 1])" "ctx_devices (device_context [0, 1]) \<noteq> []"
    "\<forall>d \<in> set (ctx_devices (device_context [0, 1])). \<exists>fs. fs \<noteq> [] \<and> get_supported_image_formats (D d) 1 = (CL_SUCCESS, fs)"
    "[(CL_A, CL_FLOAT), (CL_RG, CL_FLOAT)] =
      common_formats (map (\<lambda>d. snd (get_supported_image_formats (D d) 1)) (ctx_devices (device_context [0, 1])))"
    by (simp_all add: s_def D_def sample_images_def device_context_def common_formats_def)
  note F = formats_intersection[OF this, THEN conjunct2]
  have "clGetSupportedImageFormats D True (Some 0) 1 2 (Some [(CL_R, CL_FLOAT), (CL_R, CL_FLOAT)]) s =
      ok (CL_SUCCESS, Some [(CL_A, CL_FLOAT), (CL_RG, CL_FLOAT)], Some 2)"
    using F[THEN conjunct1, rule_format, of "[(CL_R, CL_FLOAT), (CL_R, CL_FLOAT)]"] by (simp add: numeral_2_eq_2)
  moreover have "clGetSupportedImageFormats D True (Some 0) 1 1 (Some [(CL_R, CL_FLOAT)]) s = throw OutOfBounds"
    using F[THEN conjunct2, THEN conjunct1, rule_format, of "[(CL_R, CL_FLOAT)]"] by simp
  ultimately show ?thesis unfolding D_def s_def Let_def by blast
qed

section \<open>The checks of a command\<close>

text \<open>The queue's device supports images, and every device of its context answers a table of formats.\<close>

definition supports_images :: "(nat \<Rightarrow> image_device) \<Rightarrow> cl_command_queue \<Rightarrow> cl_state \<Rightarrow> bool" where
  "supports_images D Q s \<longleftrightarrow> image_support (D (q_device Q)) \<and>
     (\<exists>C. contexts s (q_context Q) = Some C \<and> ctx_devices C \<noteq> [] \<and>
        (\<forall>d \<in> set (ctx_devices C). \<exists>fs. fs \<noteq> [] \<and> get_supported_image_formats (D d) 0 = (CL_SUCCESS, fs)))"

lemma scan_formats_number: "scan_formats others fs n k None = ok (k', a') \<Longrightarrow> a' = None"
  by (simp add: scan_formats_count)

text \<open>The comparison of formats lets every format through.\<close>

lemma every_format_accepted:
  assumes "supports_images D Q s" and "\<not> image_too_large (D (q_device Q)) (mem_type B) M"
  shows "pocl_check_device_supports_image D True B M Q s = ok CL_SUCCESS"
proof -
  from assms(1) obtain C where C: "contexts s (q_context Q) = Some C" "ctx_devices C \<noteq> []" "image_support (D (q_device Q))"
    "\<forall>d \<in> set (ctx_devices C). \<exists>fs. fs \<noteq> [] \<and> get_supported_image_formats (D d) 0 = (CL_SUCCESS, fs)"
    unfolding supports_images_def by blast
  let ?fss = "map (\<lambda>d. snd (get_supported_image_formats (D d) 0)) (ctx_devices C)"
  let ?F = "filter (\<lambda>f. \<forall>l \<in> set (tl ?fss). f \<in> set l) (hd ?fss)" and ?junk = "\<lambda>n. replicate n (CL_R, CL_FLOAT)"
  note A = ask_devices_ok[OF C(4)]
  have 1: "clGetSupportedImageFormats D True (Some (q_context Q)) 0 0 None s = ok (CL_SUCCESS, None, Some (length ?F))"
    using C by (simp add: clGetSupportedImageFormats_def fetch_def A scan_formats_count)
  have 2: "clGetSupportedImageFormats D True (Some (q_context Q)) 0 (length ?F) (Some (?junk (length ?F))) s =
      ok (CL_SUCCESS, Some ?F, Some (length ?F))" if "length ?F \<noteq> 0"
    using C that scan_formats_fill[of 0 "tl ?fss" "hd ?fss" "length ?F" "?junk (length ?F)"]
    by (simp add: clGetSupportedImageFormats_def fetch_def A)
  have "compare_formats fmt (f # fs) CL_SUCCESS = CL_SUCCESS" for fmt f fs by simp
  then have "length ?F \<noteq> 0 \<Longrightarrow> compare_formats fmt ?F CL_SUCCESS = CL_SUCCESS" for fmt by (cases ?F) simp_all
  then show ?thesis
    using C(3) assms(2) 1 2 by (cases "length ?F = 0") (simp_all add: pocl_check_device_supports_image_def Let_def)
qed

text \<open>
  An accepted region may reach over the end of the image's row: the check compares pixels with the
  pitch in bytes.
\<close>

lemma region_overruns_row:
  assumes "image_row_pitch M = image_width M * image_elem_size M * image_channels M"
    and "image_height M > 0" and "image_depth M = 0"
  shows "pocl_check_image_origin_region M (Some (0, 0, 0)) (Some (image_row_pitch M, 1, 1)) = CL_SUCCESS"
  using assms inc_le[of 0 "image_height M"] by (simp add: pocl_check_image_origin_region_def not_less)

section \<open>Writing and reading an image\<close>

lemma create_command_status: "pocl_create_command cmd_ca event_ca q c wants n wl s = ok (e, Some r, s') \<Longrightarrow> e = CL_SUCCESS"
  by (auto simp: pocl_create_command_def Let_def andthen_eq_ok split: if_splits option.splits prod.splits)

lemma queue_transfer_nothing:
  assumes "queue_transfer cmd_ca event_ca q c [] n wl wants s = ok (CL_SUCCESS, Some ev, s')"
  obtains cmd s1 where "pocl_create_command cmd_ca event_ca q c wants n wl s = ok (CL_SUCCESS, Some (cmd, ev), s1)"
    and "pocl_command_enqueue q cmd s1 = ok s'"
  using assms create_command_status
  by (fastforce simp: queue_transfer_def andthen_eq_ok split: option.splits prod.splits)

text \<open>The queue and the image of a command, and the region that its checks let through.\<close>

definition image_of ::
  "(nat \<Rightarrow> image_device) \<Rightarrow> nat \<Rightarrow> nat \<Rightarrow> cl_command_queue \<Rightarrow> cl_mem \<Rightarrow> cl_image \<Rightarrow> vec3 \<Rightarrow> vec3 \<Rightarrow> cl_state \<Rightarrow> bool" where
  "image_of D q b Q0 B M org reg s \<longleftrightarrow> queues s q = Some Q0 \<and> mems s b = Some B \<and> q_context Q0 = mem_context B \<and>
     supports_images D Q0 s \<and> \<not> image_too_large (D (q_device Q0)) (mem_type B) M \<and>
     pocl_check_image_origin_region M (Some org) (Some reg) = CL_SUCCESS"

abbreviation tuned_to :: "cl_image \<Rightarrow> vec3 \<Rightarrow> vec3" where
  "tuned_to M \<equiv> tuned (image_elem_size M) (image_channels M)"

lemma write_image_accepted:
  assumes M: "M = I b" and "image_of D q b Q0 B M org reg s" and "ptr \<noteq> NULL"
    and "queue_transfer cmd_ca event_ca q
      (Write_image ptr (device_ptrs B (q_device Q0)) (tuned_to M org) (tuned_to M reg) (image_row_pitch M)
        (image_slice_pitch M)) [] 0 None wants s = ok (CL_SUCCESS, Some ev, s')"
  shows "clEnqueueWriteImage D True I depth cmd_ca event_ca (Some q) (Some b) False (Some org) (Some reg) hrp hsp ptr 0 None
    wants old s = ok (CL_SUCCESS, Some ev, s')"
  by (rule queue_transfer_nothing[OF assms(4)])
    (use M[symmetric] assms(2,3) in \<open>simp add: clEnqueueWriteImage_def image_of_def fetch_def every_format_accepted bad_wait_list_def\<close>)

lemma read_image_accepted:
  assumes M: "M = I b" and "image_of D q b Q0 B M org reg s" and "ptr \<noteq> NULL"
    and "queue_transfer cmd_ca event_ca q
      (Read_image ptr (device_ptrs B (q_device Q0)) (tuned_to M org) (tuned_to M reg) (image_row_pitch M)
        (image_slice_pitch M)) [] 0 None wants s = ok (CL_SUCCESS, Some ev, s')"
    and "mems s' b \<noteq> None" and "clFinish depth q (s'\<lparr>mems := more_refs [b] (mems s')\<rparr>) = ok (e, s'')"
  shows "clEnqueueReadImage D True I depth cmd_ca event_ca (Some q) (Some b) True (Some org) (Some reg) hrp hsp ptr 0 None
    wants s = ok (CL_SUCCESS, Some ev, s'')"
  by (rule queue_transfer_nothing[OF assms(4)])
    (use M[symmetric] assms(2,3,6) in \<open>simp add: clEnqueueReadImage_def image_of_def fetch_def every_format_accepted
       bad_wait_list_def clRetainMemObject_ok[OF assms(5)]\<close>)


lemma support_more_refs:
  assumes "image_of D q b Q0 B M org reg s0" and "loaded s0 q Q0 cmds evs as [] s"
  shows "\<exists>Q1. image_of D q b Q1 B M org reg s \<and> q_device Q1 = q_device Q0"
  using assms by (auto simp: image_of_def loaded_def supports_images_def)

text \<open>Finishing after one more reference to a buffer was taken.\<close>

lemma loaded_retained_finish:
  assumes l: "loaded s0 q Q0 cmds evs as [] s" and "\<not> q_out_of_order Q0"
  shows "\<exists>s'. clFinish (Suc (Suc d)) q (s\<lparr>mems := more_refs bs (mems s)\<rparr>) = ok (CL_SUCCESS, s') \<and> idle s' \<and>
    actions s' = actions s0 @ as \<and> mems s' = more_refs bs (mems s0)"
proof -
  let ?s = "s\<lparr>mems := more_refs bs (mems s)\<rparr>"
  from l obtain rank k h where us: "usable rank ((\<lambda>_. [])(q := cmds)) cmds s"
    and sel: "mems s = mems s0" "actions s = actions s0" "concat (map (node_actions s) cmds) = as"
      "all_buffer_refs s cmds = []" "queues s q = Some (Q0\<lparr>q_refcount := k, root := h\<rparr>)"
    unfolding loaded_def by auto
  have same: "node_actions (s\<lparr>mems := t\<rparr>) = node_actions s" "node_command (s\<lparr>mems := t\<rparr>) = node_command s" for t
    by (simp_all add: node_actions_def[abs_def] node_command_def[abs_def] cong: option.case_cong)
  have "queues ?s q = Some (Q0\<lparr>q_refcount := k, root := h\<rparr>)" using sel(5) by simp
  from finish_only_queue[OF usable_more_refs[OF us] _ this, of d] assms(2) obtain s' where
    "clFinish (Suc (Suc d)) q ?s = ok (CL_SUCCESS, s')" "idle s'"
    "actions s' = actions ?s @ concat (map (node_actions ?s) cmds)"
    "mems s' = less_refs (all_buffer_refs ?s cmds) (mems ?s)" by auto
  moreover have "less_refs [] t = t" for t by (rule ext) (simp add: less_refs_def option.map_ident_strong)
  ultimately show ?thesis using sel by (simp add: same cong: map_cong)
qed

text \<open>C59: An image written and read back through an idle in-order queue: the write is only queued, the
  blocking read runs both, and every byte of the region arrives in the second host array from its
  place in the first one, if the rows do not overlap and the arrays are apart. Both host arrays are
  addressed with the pitches of the image: the pitches of the host that the caller passes play no
  role. The read leaves one reference to the image behind.\<close>

theorem image_write_read:
  assumes idle: "idle s" and fresh: "event_list s = None" "cmd_list s = None"
    and dist: "distinct [c1, c2 :: nat]" "distinct [e1, e2 :: nat]"
    and q: "\<not> q_out_of_order Q0" "0 < q_refcount Q0" "devices s (q_device Q0) = Some Dv"
    and b: "image_of D q b Q0 B (I b) org reg s" "0 < mem_refcount B"
    and region: "tuned_to (I b) org = org'" "tuned_to (I b) reg = (n, r1, r2)"
    and pitch: "rp = image_row_pitch (I b)" "sp = image_slice_pitch (I b)" "dev = device_ptrs B (q_device Q0)"
    and ptrs: "p \<noteq> NULL" "r \<noteq> NULL" "spread_at dev org' rp sp (n, r1, r2)" "spread_at r org' rp sp (n, r1, r2)"
      "box_of dev org' rp sp (n, r1, r2) \<inter> box_of p org' rp sp (n, r1, r2) = {}"
      "box_of r org' rp sp (n, r1, r2) \<inter> box_of dev org' rp sp (n, r1, r2) = {}"
  shows "\<exists>s1 s2 as.
    clEnqueueWriteImage D True I d (Some c1) (Some e1) (Some q) (Some b) False (Some org) (Some reg) wrp wsp p 0 None w1 old s =
      ok (CL_SUCCESS, Some e1, s1) \<and>
    clEnqueueReadImage D True I (Suc (Suc d)) (Some c2) (Some e2) (Some q) (Some b) True (Some org) (Some reg) rrp rsp r 0 None
      w2 s1 = ok (CL_SUCCESS, Some e2, s2) \<and>
    actions s2 = actions s @ as \<and> idle s2 \<and> mems s2 = more_refs [b] (mems s) \<and>
    (\<forall>m x y z. x < n \<and> y < r1 \<and> z < r2 \<longrightarrow>
      fold basic_effect as m (box_byte r org' rp sp x y z) = m (box_byte p org' rp sp x y z))"
proof -
  let ?d = "q_device Q0" and ?reg = "(n, r1, r2)"
  let ?W = "Write_image p dev org' ?reg rp sp" and ?R = "Read_image r dev org' ?reg rp sp"
  let ?compile = "\<lambda>c. if compiles_submitted Dv then [Dev_compile ?d c] else []"
  have Q: "queues s q = Some Q0" and m: "mems s b = Some B" using b by (simp_all add: image_of_def)
  note more = loaded_more[OF _ _ _ _ _ _ _ q(3)]
  from more[OF loaded_idle[OF idle fresh Q q(2)], of c1 e1 ?W "[]" w1] obtain s1 where
    s1: "queue_transfer (Some c1) (Some e1) q ?W [] 0 None w1 s = ok (CL_SUCCESS, Some e1, s1)"
    and l1: "loaded s q Q0 [c1] [e1] (?compile c1 @ command_actions ?d c1 ?W) [] s1" by auto
  from more[OF l1, of c2 e2 ?R "[]" w2] dist obtain s2 where
    s2: "queue_transfer (Some c2) (Some e2) q ?R [] 0 None w2 s1 = ok (CL_SUCCESS, Some e2, s2)"
    and l2: "loaded s q Q0 [c1, c2] [e1, e2]
      (?compile c1 @ command_actions ?d c1 ?W @ ?compile c2 @ command_actions ?d c2 ?R) [] s2" by auto
  define as where "as = ?compile c1 @ command_actions ?d c1 ?W @ ?compile c2 @ command_actions ?d c2 ?R"
  from loaded_retained_finish[OF l2[folded as_def] q(1), of d "[b]"] obtain s3 where
    s3: "clFinish (Suc (Suc d)) q (s2\<lparr>mems := more_refs [b] (mems s2)\<rparr>) = ok (CL_SUCCESS, s3)" "idle s3"
      "actions s3 = actions s @ as" "mems s3 = more_refs [b] (mems s)" by blast
  have W: "clEnqueueWriteImage D True I d (Some c1) (Some e1) (Some q) (Some b) False (Some org) (Some reg) wrp wsp p 0 None
      w1 old s = ok (CL_SUCCESS, Some e1, s1)"
    by (rule write_image_accepted[where I = I and b = b, OF refl b(1) ptrs(1)]) (use s1 region pitch in simp)
  obtain Q1 where Q1: "image_of D q b Q1 B (I b) org reg s1" "q_device Q1 = ?d" using support_more_refs[OF b(1) l1] by blast
  have "mems s2 b \<noteq> None" using l2 m by (simp add: loaded_def)
  then have R: "clEnqueueReadImage D True I (Suc (Suc d)) (Some c2) (Some e2) (Some q) (Some b) True (Some org) (Some reg)
      rrp rsp r 0 None w2 s1 = ok (CL_SUCCESS, Some e2, s3)"
    by (intro read_image_accepted[where I = I and b = b, OF refl Q1(1) ptrs(2) _ _ s3(1)]) (use s2 region pitch Q1(2) in simp_all)
  have "fold basic_effect as mm = (\<lambda>m. pocl_basic_read_rect r dev org' org' ?reg rp sp rp sp
      (pocl_basic_write_rect p dev org' org' ?reg rp sp rp sp m)) mm" for mm
    by (simp add: as_def)
  then have "fold basic_effect as mm (box_byte r org' rp sp x y z) = mm (box_byte p org' rp sp x y z)"
    if "x < n" "y < r1" "z < r2" for mm x y z
    using box_roundtrip[OF ptrs(3-6), where m = mm] that by simp
  with W R s3(2-4) show ?thesis by blast
qed

text \<open>An image of two rows of two pixels of four bytes; one pixel is written and read back.\<close>

definition sample_image :: cl_image where
  "sample_image = \<lparr>is_image = True, image_channel_order = CL_RGBA, image_channel_data_type = CL_UNORM_INT8,
     image_width = 2, image_height = 2, image_depth = 0, image_array_size = 1, image_row_pitch = 8, image_slice_pitch = 0,
     image_elem_size = 1, image_channels = 4\<rparr>"

lemma image_write_read_witness:
  "\<exists>s1 s2 as.
    clEnqueueWriteImage (sample_images (\<lambda>_. supported_image_formats)) True (\<lambda>_. sample_image) 0 (Some 1) (Some 1) (Some 0) (Some 0)
      False (Some (1, 1, 0)) (Some (1, 1, 1)) 0 0 0x100 0 None True None two_buffers = ok (CL_SUCCESS, Some 1, s1) \<and>
    clEnqueueReadImage (sample_images (\<lambda>_. supported_image_formats)) True (\<lambda>_. sample_image) (Suc (Suc 0)) (Some 2) (Some 2)
      (Some 0) (Some 0) True (Some (1, 1, 0)) (Some (1, 1, 1)) 0 0 0x200 0 None False s1 = ok (CL_SUCCESS, Some 2, s2) \<and>
    actions s2 = actions two_buffers @ as \<and> idle s2 \<and> mems s2 = more_refs [0] (mems two_buffers) \<and>
    (\<forall>m x y z. x < 4 \<and> y < 1 \<and> z < 1 \<longrightarrow>
      fold basic_effect as m (box_byte 0x200 (4, 1, 0) 8 0 x y z) = m (box_byte 0x100 (4, 1, 0) 8 0 x y z))"
proof -
  have w1: "(x :: u32) < 1 \<longleftrightarrow> x = 0" for x by unat_arith
  have w4: "(x :: u32) < 4 \<longleftrightarrow> x = 0 \<or> x = 1 \<or> x = 2 \<or> x = 3" for x by unat_arith
  show ?thesis
    by (rule image_write_read[where ?Q0.0 = "sample_queue None" and B = "sample_buffer 0x1000" and Dv = sample_device
          and dev = "0x1000"])
      (auto simp: two_buffers_def sample_buffer_def sample_defs idle_def image_of_def supports_images_def sample_images_def
        image_too_large_def pocl_check_image_origin_region_def sample_image_def tuned_def spread_at_def adjusted_def
        box_of_def byte_at_def w1 w4 supported_image_formats_def)
qed


section \<open>Images of several slices\<close>

lemma created_image3d:
  assumes "clCreateImage3D E D True True junk (Some b) (Some c) flags (Some (ord, ty)) w h depth 0 0 host_ptr s I =
      ok (Some i, e, s1, I1)"
    and "contexts s c = Some C" and "ctx_devices C \<noteq> []" and "allocates E (ctx_devices C)"
    and info: "pocl_get_image_information ord ty junk = (ch, elem)"
  shows "e = CL_SUCCESS \<and> i = b \<and> (\<exists>B. mems s1 b = Some B \<and> mem_type B = CL_MEM_OBJECT_IMAGE3D \<and> mem_size B = w * h * elem * ch \<and>
      mem_context B = c \<and> 0 < mem_refcount B) \<and>
    image_width (I1 b) = w \<and> image_height (I1 b) = h \<and> image_depth (I1 b) = depth \<and> image_elem_size (I1 b) = elem \<and>
    image_channels (I1 b) = ch \<and> image_row_pitch (I1 b) = w * elem * ch \<and> image_slice_pitch (I1 b) = w * elem * ch * h"
proof -
  from assms(1) obtain err s' where c: "clCreateBuffer E (Some b) (Some c) flags (w * h * elem * ch) host_ptr s = ok (Some i, err, s')"
    and r: "e = CL_SUCCESS" "\<exists>B. mems s' i = Some B \<and> s1 = put_mem i (B\<lparr>mem_type := CL_MEM_OBJECT_IMAGE3D\<rparr>) s'"
      "I1 = I(i := \<lparr>is_image = True, image_channel_order = ord, image_channel_data_type = ty, image_width = w,
         image_height = h, image_depth = depth, image_array_size = 1, image_row_pitch = w * elem * ch,
         image_slice_pitch = w * elem * ch * h, image_elem_size = elem, image_channels = ch\<rparr>)"
    by (auto simp: clCreateImage3D_def clCreateImage_def info Let_def andthen_eq_ok fetch_eq_ok split: if_splits option.splits)
  from created_buffer[OF c assms(2-4)] r assms(3) show ?thesis by auto
qed


text \<open>C60: A three-dimensional image gets the memory of one slice: \<open>clCreateImage3D\<close> leaves the depth out
  of the size of its buffer, while the slice pitch it stores is that size. So reading one pixel of the
  second slice, which every check lets through, makes the device read just behind the buffer.\<close>

theorem image3d_reads_behind:
  assumes create: "clCreateImage3D E D True True junk (Some b) (Some c) flags (Some (ord, ty)) w h depth 0 0 host_ptr s0 I0 =
      ok (Some b', e, s, I)"
    and C: "contexts s0 c = Some C" "ctx_devices C \<noteq> []" "allocates E (ctx_devices C)"
    and info: "pocl_get_image_information ord ty junk = (ch, elem)"
    and shape: "1 \<le> w * elem * ch" "1 \<le> h" "2 \<le> depth"
    and run: "idle s" "event_list s = None" "cmd_list s = None"
    and q: "queues s q = Some Q0" "q_context Q0 = c" "\<not> q_out_of_order Q0" "0 < q_refcount Q0" "devices s (q_device Q0) = Some Dv"
      "supports_images D Q0 s" "\<not> image_too_large (D (q_device Q0)) CL_MEM_OBJECT_IMAGE3D (I b)"
    and ptr: "r \<noteq> NULL"
  shows "\<exists>B s' as. mems s b = Some B \<and> mem_size B = w * h * elem * ch \<and>
    clEnqueueReadImage D True I (Suc (Suc d)) (Some cmd) (Some ev) (Some q) (Some b) True (Some (0, 0, 1)) (Some (1, 1, 1)) rrp rsp
      r 0 None wants s = ok (CL_SUCCESS, Some ev, s') \<and>
    actions s' = actions s @ as @
      [Dev_read_rect (q_device Q0) r (device_ptrs B (q_device Q0)) (0, 0, 1) (elem * ch, 1, 1) (w * elem * ch) (mem_size B)] \<and>
    adjusted (device_ptrs B (q_device Q0)) (0, 0, 1) (w * elem * ch) (mem_size B) =
      device_ptrs B (q_device Q0) + mem_size B"
proof -
  from created_image3d[OF create C info] obtain B where B: "mems s b = Some B" "mem_type B = CL_MEM_OBJECT_IMAGE3D"
    "mem_size B = w * h * elem * ch" "mem_context B = c" "0 < mem_refcount B"
    and M: "image_width (I b) = w" "image_height (I b) = h" "image_depth (I b) = depth" "image_elem_size (I b) = elem"
      "image_channels (I b) = ch" "image_row_pitch (I b) = w * elem * ch" "image_slice_pitch (I b) = mem_size B"
    by (auto simp: algebra_simps)
  let ?d = "q_device Q0"
  let ?R = "Read_image r (device_ptrs B ?d) (tuned_to (I b) (0, 0, 1)) (tuned_to (I b) (1, 1, 1)) (image_row_pitch (I b))
    (image_slice_pitch (I b))"
  have "pocl_check_image_origin_region (I b) (Some (0, 0, 1)) (Some (1, 1, 1)) = CL_SUCCESS"
    using shape M by (auto simp: pocl_check_image_origin_region_def not_less)
  then have img: "image_of D q b Q0 B (I b) (0, 0, 1) (1, 1, 1) s"
    using q B by (simp add: image_of_def)
  from loaded_more[OF loaded_idle[OF run q(1,4)] _ _ _ _ _ _ q(5), of cmd ev ?R "[]" wants] obtain s1 where
    s1: "queue_transfer (Some cmd) (Some ev) q ?R [] 0 None wants s = ok (CL_SUCCESS, Some ev, s1)"
    and l1: "loaded s q Q0 [cmd] [ev] ((if compiles_submitted Dv then [Dev_compile ?d cmd] else []) @
      command_actions ?d cmd ?R) [] s1" by auto
  from loaded_retained_finish[OF l1 q(3), of d "[b]"] obtain s2 where
    s2: "clFinish (Suc (Suc d)) q (s1\<lparr>mems := more_refs [b] (mems s1)\<rparr>) = ok (CL_SUCCESS, s2)"
      "actions s2 = actions s @ ((if compiles_submitted Dv then [Dev_compile ?d cmd] else []) @ command_actions ?d cmd ?R)" by blast
  have "mems s1 b \<noteq> None" using l1 B by (simp add: loaded_def)
  from read_image_accepted[where I = I and b = b, OF refl img ptr s1 this s2(1)]
  have "clEnqueueReadImage D True I (Suc (Suc d)) (Some cmd) (Some ev) (Some q) (Some b) True (Some (0, 0, 1)) (Some (1, 1, 1)) rrp rsp
      r 0 None wants s = ok (CL_SUCCESS, Some ev, s2)" .
  moreover have "actions s2 = actions s @ (if compiles_submitted Dv then [Dev_compile ?d cmd] else []) @
      [Dev_read_rect ?d r (device_ptrs B ?d) (0, 0, 1) (elem * ch, 1, 1) (w * elem * ch) (mem_size B)]"
    using s2(2) M by (simp add: tuned_def)
  ultimately show ?thesis using B by (auto simp: adjusted_def)
qed

text \<open>Two slices of two by two pixels of four bytes, in a buffer of 16 bytes.\<close>

definition image_runtime :: cl_state where
  "image_runtime = no_objects\<lparr>contexts := [0 \<mapsto> device_context [0]], devices := [0 \<mapsto> sample_device], queues := [0 \<mapsto> sample_queue None]\<rparr>"

lemma image3d_reads_behind_witness:
  "\<exists>e s I. clCreateImage3D sample_alloc (sample_images (\<lambda>_. [(CL_RGBA, CL_UNORM_INT8)])) True True 0 (Some 5) (Some 0) 0
      (Some (CL_RGBA, CL_UNORM_INT8)) 2 2 2 0 0 NULL image_runtime (\<lambda>_. sample_image) = ok (Some 5, e, s, I) \<and>
    (\<exists>B s' as. mems s 5 = Some B \<and> mem_size B = 2 * 2 * 1 * 4 \<and>
      clEnqueueReadImage (sample_images (\<lambda>_. [(CL_RGBA, CL_UNORM_INT8)])) True I (Suc (Suc 0)) (Some 1) (Some 1) (Some 0) (Some 5)
        True (Some (0, 0, 1)) (Some (1, 1, 1)) 0 0 0x200 0 None True s = ok (CL_SUCCESS, Some 1, s') \<and>
      actions s' = actions s @ as @
        [Dev_read_rect (q_device (sample_queue None)) 0x200 (device_ptrs B (q_device (sample_queue None))) (0, 0, 1)
          (1 * 4, 1, 1) (2 * 1 * 4) (mem_size B)] \<and>
      adjusted (device_ptrs B (q_device (sample_queue None))) (0, 0, 1) (2 * 1 * 4) (mem_size B) =
        device_ptrs B (q_device (sample_queue None)) + mem_size B)"
proof -
  let ?D = "sample_images (\<lambda>_. [(CL_RGBA, CL_UNORM_INT8)])"
  define m where "m = \<lparr>mem_refcount = 1, mem_type = CL_MEM_OBJECT_BUFFER, mem_flags = 1, mem_size = 16, mem_host_ptr = NULL,
    map_count = 0, mem_context = 0, device_ptrs = (\<lambda>d. NULL)(0 := 0x1000), mappings = None, parent = None\<rparr>"
  define s where "s = put_mem 5 (m\<lparr>mem_type := CL_MEM_OBJECT_IMAGE3D\<rparr>)
    (put_context 0 (device_context [0]\<lparr>ctx_refcount := 2\<rparr>) (put_mem 5 m image_runtime))"
  define I :: "nat \<Rightarrow> cl_image" where "I = (\<lambda>_. sample_image)(5 := \<lparr>is_image = True, image_channel_order = CL_RGBA,
    image_channel_data_type = CL_UNORM_INT8, image_width = 2, image_height = 2, image_depth = 2, image_array_size = 1,
    image_row_pitch = 8, image_slice_pitch = 16, image_elem_size = 1, image_channels = 4\<rparr>)"
  have create: "clCreateImage3D sample_alloc ?D True True 0 (Some 5) (Some 0) 0 (Some (CL_RGBA, CL_UNORM_INT8)) 2 2 2 0 0 NULL
      image_runtime (\<lambda>_. sample_image) = ok (Some 5, CL_SUCCESS, s, I)"
    by (simp add: clCreateImage3D_def clCreateImage_def clGetSupportedImageFormats_def fetch_def image_runtime_def
        device_context_def sample_images_def clCreateBuffer_def sample_alloc_def buffer_flags_error_def retain_context_def
        pocl_get_image_information_def m_def s_def I_def Let_def)
  have info: "pocl_get_image_information CL_RGBA CL_UNORM_INT8 0 = (4, 1)" by (simp add: pocl_get_image_information_def)
  have C: "contexts image_runtime 0 = Some (device_context [0])" "ctx_devices (device_context [0]) \<noteq> []"
    "allocates sample_alloc (ctx_devices (device_context [0]))"
    by (auto simp: image_runtime_def device_context_def allocates_def sample_alloc_def)
  have run: "idle s" "event_list s = None" "cmd_list s = None" "queues s 0 = Some (sample_queue None)"
    "devices s (q_device (sample_queue None)) = Some sample_device"
    by (auto simp: s_def image_runtime_def idle_def sample_queue_def)
  have q: "q_context (sample_queue None) = 0" "\<not> q_out_of_order (sample_queue None)" "0 < q_refcount (sample_queue None)"
    "supports_images ?D (sample_queue None) s"
    "\<not> image_too_large (?D (q_device (sample_queue None))) CL_MEM_OBJECT_IMAGE3D (I 5)"
    by (simp_all add: sample_queue_def supports_images_def sample_images_def s_def device_context_def image_too_large_def I_def)
  have shape: "1 \<le> (2 :: size_t) * 1 * 4" "1 \<le> (2 :: size_t)" "2 \<le> (2 :: size_t)" "(0x200 :: addr) \<noteq> NULL" by simp_all
  show ?thesis
    by (rule exI, rule exI, rule exI, rule conjI, rule create,
      rule image3d_reads_behind[OF create C info shape(1-3) run(1-4) q(1-3) run(5) q(4,5) shape(4)])
qed

section \<open>Copying images\<close>

lemma copy_rect_of_images:
  assumes "mem_type B1 \<noteq> CL_MEM_OBJECT_BUFFER \<or> mem_type B2 \<noteq> CL_MEM_OBJECT_BUFFER"
    and "queues s q = Some Q" "mems s b1 = Some B1" "mems s b2 = Some B2"
  shows "clEnqueueCopyBufferRect depth (Some q) (Some b1) (Some b2) o1 o2 reg rp1 sp1 rp2 sp2 n wl old s =
    ok (CL_INVALID_MEM_OBJECT, s)"
  using assms by (simp add: clEnqueueCopyBufferRect_def fetch_def)

text \<open>C62: Images are never copied: \<open>clEnqueueCopyImage\<close> passes its images to \<open>clEnqueueCopyBufferRect\<close>,
  which takes buffers only. Whatever the two images and the region are, the call answers an error and
  changes nothing; when all its own checks pass the error is \<open>CL_INVALID_MEM_OBJECT\<close>.\<close>

theorem copy_image_fails:
  assumes "queues s q = Some Q" "mems s b1 = Some B1" "mems s b2 = Some B2" and "supports_images D Q s"
    and "mem_type B1 \<noteq> CL_MEM_OBJECT_BUFFER"
  shows "\<exists>e. clEnqueueCopyImage D True I depth (Some q) (Some b1) (Some b2) o1 o2 reg n wl old s = ok (e, s) \<and> e \<noteq> CL_SUCCESS \<and>
    (o1 \<noteq> None \<and> o2 \<noteq> None \<and> reg \<noteq> None \<and> copy_image_error Q B1 B2 (I b1) (I b2) (the o1) (the o2) (the reg) n wl = CL_SUCCESS \<and>
     \<not> image_too_large (D (q_device Q)) (mem_type B1) (I b1) \<and> \<not> image_too_large (D (q_device Q)) (mem_type B2) (I b2) \<longrightarrow>
     e = CL_INVALID_MEM_OBJECT)"
proof -
  have sup: "image_support (D (q_device Q))" using assms(4) by (simp add: supports_images_def)
  have chk: "pocl_check_device_supports_image D True B M Q s =
      ok (if image_too_large (D (q_device Q)) (mem_type B) M then CL_INVALID_IMAGE_SIZE else CL_SUCCESS)" for B M
    using every_format_accepted[OF assms(4)] sup by (simp add: pocl_check_device_supports_image_def)
  show ?thesis
    using assms(1-3) sup copy_rect_of_images[OF disjI1[OF assms(5)] assms(1-3)]
    by (auto simp: clEnqueueCopyImage_def fetch_def chk Let_def)
qed

lemma copy_image_fails_witness:
  "\<exists>e. clEnqueueCopyImage (sample_images (\<lambda>_. supported_image_formats)) True (\<lambda>_. sample_image) 2 (Some 0) (Some 0) (Some 1)
      (Some (0, 0, 0)) (Some (0, 0, 0)) (Some (1, 1, 1)) 0 None None
      (two_buffers\<lparr>mems := [0 \<mapsto> (sample_buffer 0x1000)\<lparr>mem_type := CL_MEM_OBJECT_IMAGE2D\<rparr>,
                            1 \<mapsto> (sample_buffer 0x2000)\<lparr>mem_type := CL_MEM_OBJECT_IMAGE2D\<rparr>]\<rparr>) =
      ok (e, two_buffers\<lparr>mems := [0 \<mapsto> (sample_buffer 0x1000)\<lparr>mem_type := CL_MEM_OBJECT_IMAGE2D\<rparr>,
                            1 \<mapsto> (sample_buffer 0x2000)\<lparr>mem_type := CL_MEM_OBJECT_IMAGE2D\<rparr>]\<rparr>) \<and>
    e \<noteq> CL_SUCCESS \<and> e = CL_INVALID_MEM_OBJECT"
proof -
  define s where "s = two_buffers\<lparr>mems := [0 \<mapsto> (sample_buffer 0x1000)\<lparr>mem_type := CL_MEM_OBJECT_IMAGE2D\<rparr>,
                            1 \<mapsto> (sample_buffer 0x2000)\<lparr>mem_type := CL_MEM_OBJECT_IMAGE2D\<rparr>]\<rparr>"
  have "queues s 0 = Some (sample_queue None)" "mems s 0 = Some ((sample_buffer 0x1000)\<lparr>mem_type := CL_MEM_OBJECT_IMAGE2D\<rparr>)"
    "mems s 1 = Some ((sample_buffer 0x2000)\<lparr>mem_type := CL_MEM_OBJECT_IMAGE2D\<rparr>)"
    "supports_images (sample_images (\<lambda>_. supported_image_formats)) (sample_queue None) s"
    by (simp_all add: s_def two_buffers_def sample_defs supports_images_def sample_images_def supported_image_formats_def)
  from copy_image_fails[OF this, of "\<lambda>_. sample_image" 2 "Some (0, 0, 0)" "Some (0, 0, 0)" "Some (1, 1, 1)" 0 None None]
  show ?thesis unfolding s_def[symmetric]
    by (auto simp: copy_image_error_def sample_buffer_def sample_defs sample_image_def bad_wait_list_def image_too_large_def
        sample_images_def)
qed

text \<open>
  Copying a buffer into an image never looks at the buffer: any other buffer of the context gives the
  same result.
\<close>

lemma buffer_copied_is_not_read:
  assumes "mems s b = Some B" "mems s b' = Some B'" "mem_type B = CL_MEM_OBJECT_BUFFER" "mem_type B' = CL_MEM_OBJECT_BUFFER"
    and "mem_context B = mem_context B'"
  shows "clEnqueueCopyBufferToImage D mallocs I temp cq (Some b) img off org reg n wl old s =
    clEnqueueCopyBufferToImage D mallocs I temp cq (Some b') img off org reg n wl old s"
  by (insert assms, cases cq; cases "queues s (the cq)"; cases "image_support (D (q_device (the (queues s (the cq)))))";
    (simp add: clEnqueueCopyBufferToImage_def fetch_def, (unfold assms(5), rule refl)?))

text \<open>Nor does its check look at the origin: the write begins at any distance from the image.\<close>

lemma image_written_anywhere:
  assumes "pocl_write_image d B M (Some (0, 0, 0)) (Some reg) ptr s = (CL_SUCCESS, s')"
  shows "\<exists>s''. pocl_write_image d B M (Some org) (Some reg) ptr s = (CL_SUCCESS, s'')"
  using assms by (auto simp: pocl_write_image_def Let_def split: prod.splits if_splits)

end
