(* ===== verification/Printf.thy ===== *)
theory Printf
  imports Prelude
begin

text \<open>
  The \<open>printf\<close> of kernels (\<^verbatim>\<open>lib/kernel/printf.c\<close>): it reads an OpenCL format string, builds a C99
  format for every conversion and has the C library print each element of the vector with it. The
  output is the list of calls of the C library's \<open>printf\<close>, each with the element it prints.
\<close>

section \<open>Conversions\<close>

record flags_t =
  left :: bool
  plus :: bool
  space :: bool
  alt :: bool
  zero_flag :: bool

text \<open>A conversion before its letter: the precision is \<open>-1\<close> when there is none.\<close>

record conversion =
  conv_flags :: flags_t
  field_width :: int
  precision :: int
  vector_length :: int
  length_modifier :: int

definition no_flags :: flags_t where
  "no_flags = \<lparr>left = False, plus = False, space = False, alt = False, zero_flag = False\<rparr>"

text \<open>\<open>None\<close> is the jump to \<open>error\<close>; the remaining format begins with the character at hand.\<close>

fun parse_flags :: "flags_t \<Rightarrow> string \<Rightarrow> (flags_t \<times> string) option" where
  "parse_flags f [] = Some (f, [])"
| "parse_flags f (ch # fmt) =
     (if ch = CHR ''-'' then if left f then None else parse_flags (f\<lparr>left := True\<rparr>) fmt
      else if ch = CHR ''+'' then if plus f then None else parse_flags (f\<lparr>plus := True\<rparr>) fmt
      else if ch = CHR '' '' then if space f then None else parse_flags (f\<lparr>space := True\<rparr>) fmt
      else if ch = CHR ''#'' then if alt f then None else parse_flags (f\<lparr>alt := True\<rparr>) fmt
      else if ch = CHR ''0'' then if zero_flag f then None else parse_flags (f\<lparr>zero_flag := True\<rparr>) fmt
      else Some (f, ch # fmt))"

definition is_digit :: "char \<Rightarrow> bool" where
  "is_digit ch \<longleftrightarrow> (48 :: nat) \<le> of_char ch \<and> of_char ch \<le> (57 :: nat)"

abbreviation INT_MAX :: int where "INT_MAX \<equiv> 2147483647"

text \<open>The three loops over digits; \<open>strict\<close> ones do not take a leading zero.\<close>

fun parse_number :: "bool \<Rightarrow> int \<Rightarrow> string \<Rightarrow> (int \<times> string) option" where
  "parse_number strict n [] = Some (n, [])"
| "parse_number strict n (ch # fmt) =
     (if \<not> is_digit ch then Some (n, ch # fmt)
      else if strict \<and> ch = CHR ''0'' \<and> n = 0 then None
      else if n > (INT_MAX - 9) div 10 then None
      else parse_number strict (10 * n + (of_char ch - 48)) fmt)"

definition next_is :: "char \<Rightarrow> string \<Rightarrow> bool" where
  "next_is ch fmt \<longleftrightarrow> fmt \<noteq> [] \<and> hd fmt = ch"

definition parse_precision :: "string \<Rightarrow> (int \<times> string) option" where
  "parse_precision fmt = (if next_is CHR ''.'' fmt then parse_number False 0 (tl fmt) else Some (- 1, fmt))"

definition parse_vector :: "string \<Rightarrow> (int \<times> string) option" where
  "parse_vector fmt =
     (if next_is CHR ''v'' fmt
      then case parse_number True 0 (tl fmt) of
             None \<Rightarrow> None
           | Some (n, rest) \<Rightarrow> if n = 2 \<or> n = 3 \<or> n = 4 \<or> n = 8 \<or> n = 16 then Some (n, rest) else None
      else Some (0, fmt))"

definition parse_length :: "string \<Rightarrow> int \<times> string" where
  "parse_length fmt =
     (if next_is CHR ''h'' fmt
      then if next_is CHR ''h'' (tl fmt) then (1, tl (tl fmt))
           else if next_is CHR ''l'' (tl fmt) then (4, tl (tl fmt))
           else (2, tl fmt)
      else if next_is CHR ''l'' fmt then (8, tl fmt)
      else (0, fmt))"

definition parse_conversion :: "string \<Rightarrow> (conversion \<times> string) option" where
  "parse_conversion fmt =
     (case parse_flags no_flags fmt of None \<Rightarrow> None | Some (f, r1) \<Rightarrow>
     (case parse_number True 0 r1 of None \<Rightarrow> None | Some (w, r2) \<Rightarrow>
     (case parse_precision r2 of None \<Rightarrow> None | Some (p, r3) \<Rightarrow>
     (case parse_vector r3 of None \<Rightarrow> None | Some (v, r4) \<Rightarrow>
      let (len, r5) = parse_length r4 in
      if v > 0 \<and> len = 0 then None
      else if v = 0 \<and> len = 4 then None
      else Some (\<lparr>conv_flags = f, field_width = w, precision = p, vector_length = (if v = 0 then 1 else v),
                  length_modifier = len\<rparr>, r5)))))"

section \<open>Formats for the C library\<close>

text \<open>A number as \<open>%.0d\<close> prints it: nothing for zero.\<close>

fun show_nat :: "nat \<Rightarrow> string" where
  "show_nat n = (if n < 10 then [char_of (48 + n)] else show_nat (n div 10) @ [char_of (48 + n mod 10)])"

declare show_nat.simps [simp del]

definition show_nonzero :: "int \<Rightarrow> string" where
  "show_nonzero i = (if i = 0 then [] else if i < 0 then CHR ''-'' # show_nat (nat (- i)) else show_nat (nat i))"

definition flag_text :: "flags_t \<Rightarrow> string" where
  "flag_text f = (if left f then ''-'' else []) @ (if plus f then ''+'' else []) @ (if space f then '' '' else []) @
     (if alt f then ''#'' else []) @ (if zero_flag f then ''0'' else [])"

text \<open>\<open>snprintf\<close> into an array of 1000 characters keeps 999 of them.\<close>

definition number_format :: "string \<Rightarrow> conversion \<Rightarrow> char \<Rightarrow> string" where
  "number_format width c conv =
     take 999 (''%'' @ flag_text (conv_flags c) @ show_nonzero (field_width c) @ (if precision c \<noteq> - 1 then ''.'' else []) @
       show_nonzero (if precision c \<noteq> - 1 then precision c else 0) @ width @ [conv])"

definition plain_format :: "conversion \<Rightarrow> char \<Rightarrow> string" where
  "plain_format c conv = take 999 (''%'' @ (if left (conv_flags c) then ''-'' else []) @ show_nonzero (field_width c) @ [conv])"

section \<open>Printing\<close>

datatype 'v item = Text string | Print string 'v

text \<open>The elements of a vector, with commas between them.\<close>

fun print_elements :: "string \<Rightarrow> 'v list \<Rightarrow> 'v item list" where
  "print_elements outfmt [] = []"
| "print_elements outfmt [v] = [Print outfmt v]"
| "print_elements outfmt (v # w # vs) = Print outfmt v # Text '','' # print_elements outfmt (w # vs)"

text \<open>What the device's compiler defines: \<^verbatim>\<open>cl_khr_int64\<close>, \<^verbatim>\<open>cl_khr_fp16\<close>, \<^verbatim>\<open>cl_khr_fp64\<close>.\<close>

record kernel_types =
  khr_int64 :: bool
  khr_fp16 :: bool
  khr_fp64 :: bool

text \<open>
  \<open>Printed\<close> carries the arguments that are left. \<open>Undefined\<close> is a branch that the code declares
  unreachable, and a \<open>va_arg\<close> without an argument that fits.
\<close>

datatype 'v converted = Printed "'v item list" "'v list list" | Bad_format | Undefined

definition take_arg :: "int \<Rightarrow> string \<Rightarrow> 'v list list \<Rightarrow> 'v converted" where
  "take_arg n outfmt args =
     (case args of [] \<Rightarrow> Undefined
      | vs # args' \<Rightarrow> if int (length vs) = n then Printed (print_elements outfmt vs) args' else Undefined)"

definition print_ints :: "kernel_types \<Rightarrow> conversion \<Rightarrow> char \<Rightarrow> 'v list list \<Rightarrow> 'v converted" where
  "print_ints X c conv args =
     (if length_modifier c = 1 then take_arg (vector_length c) (number_format ''hh'' c conv) args
      else if length_modifier c = 2 then take_arg (vector_length c) (number_format ''h'' c conv) args
      else if length_modifier c = 0 \<or> length_modifier c = 4 then take_arg (vector_length c) (number_format '''' c conv) args
      else if length_modifier c = 8 \<and> khr_int64 X then take_arg (vector_length c) (number_format ''ll'' c conv) args
      else Undefined)"

definition print_floats :: "kernel_types \<Rightarrow> conversion \<Rightarrow> char \<Rightarrow> 'v list list \<Rightarrow> 'v converted" where
  "print_floats X c conv args =
     (if length_modifier c = 2 \<and> khr_fp16 X then Bad_format
      else if khr_fp64 X
      then if length_modifier c = 0 \<or> length_modifier c = 8
           then take_arg (vector_length c) (number_format ''l'' c conv) args
           else if length_modifier c = 4 then take_arg (vector_length c) (number_format '''' c conv) args
           else Undefined
      else if length_modifier c = 0 then Printed [] args
      else Undefined)"

definition print_plain :: "conversion \<Rightarrow> char \<Rightarrow> 'v list list \<Rightarrow> 'v converted" where
  "print_plain c conv args =
     (let f = conv_flags c in
      if plus f \<or> space f \<or> alt f \<or> zero_flag f then Bad_format
      else if precision c \<noteq> - 1 then Bad_format
      else if vector_length c \<noteq> 1 then Bad_format
      else if length_modifier c \<noteq> 0 then Bad_format
      else take_arg 1 (plain_format c conv) args)"

definition convert :: "kernel_types \<Rightarrow> conversion \<Rightarrow> char \<Rightarrow> 'v list list \<Rightarrow> 'v converted" where
  "convert X c conv args =
     (if conv \<in> set ''dioux'' \<or> conv = CHR ''X'' then print_ints X c conv args
      else if conv \<in> set ''fFeEgGaA'' then print_floats X c conv args
      else if conv \<in> set ''csp'' then print_plain c conv args
      else Bad_format)"

text \<open>What one round of the main loop does at a character: the output, and how it goes on.\<close>

datatype 'v round = Go_on "'v item list" string "'v list list" | Stop "'v item list" "int option"

definition printf_error :: "'v round" where
  "printf_error = Stop [Text ''(printf format string error)''] (Some (- 1))"

definition printf_round :: "kernel_types \<Rightarrow> char \<Rightarrow> string \<Rightarrow> 'v list list \<Rightarrow> 'v round" where
  "printf_round X ch fmt args =
     (if ch \<noteq> CHR ''%'' then Go_on [Text [ch]] fmt args
      else if next_is CHR ''%'' fmt then Go_on [Text ''%''] (tl fmt) args
      else case parse_conversion fmt of
             None \<Rightarrow> printf_error
           | Some (c, rest) \<Rightarrow>
               if rest = [] then printf_error
               else case convert X c (hd rest) args of
                      Bad_format \<Rightarrow> printf_error
                    | Undefined \<Rightarrow> Stop [] None
                    | Printed out args' \<Rightarrow> Go_on out (tl rest) args')"

text \<open>The remaining format gets shorter.\<close>

lemma parse_flags_length: "parse_flags f fmt = Some (f', r) \<Longrightarrow> length r \<le> length fmt"
  by (induction f fmt rule: parse_flags.induct) (auto split: if_splits)

lemma parse_number_length: "parse_number st n fmt = Some (n', r) \<Longrightarrow> length r \<le> length fmt"
  by (induction st n fmt rule: parse_number.induct) (auto split: if_splits)

lemma parse_precision_length: "parse_precision fmt = Some (p, r) \<Longrightarrow> length r \<le> length fmt"
  by (auto simp: parse_precision_def dest!: parse_number_length split: if_splits)

lemma parse_vector_length: "parse_vector fmt = Some (v, r) \<Longrightarrow> length r \<le> length fmt"
  by (auto simp: parse_vector_def dest!: parse_number_length split: if_splits option.splits)

lemma parse_length_length: "parse_length fmt = (l, r) \<Longrightarrow> length r \<le> length fmt"
  by (auto simp: parse_length_def split: if_splits)

lemma parse_conversion_length: "parse_conversion fmt = Some (c, r) \<Longrightarrow> length r \<le> length fmt"
  by (auto simp: parse_conversion_def Let_def split: option.splits prod.splits if_splits
      dest!: parse_flags_length parse_number_length parse_precision_length parse_vector_length parse_length_length)

lemma printf_round_shorter: "printf_round X ch fmt args = Go_on out fmt' args' \<Longrightarrow> length fmt' \<le> length fmt"
  by (cases fmt) (auto simp: printf_round_def printf_error_def split: if_splits option.splits converted.splits
      dest!: parse_conversion_length)

text \<open>\<open>None\<close> as the answer is undefined behaviour.\<close>

function cl_printf :: "kernel_types \<Rightarrow> string \<Rightarrow> 'v list list \<Rightarrow> 'v item list \<times> int option" where
  "cl_printf X [] args = ([], Some 0)"
| "cl_printf X (ch # fmt) args =
     (case printf_round X ch fmt args of
        Stop out r \<Rightarrow> (out, r)
      | Go_on out fmt' args' \<Rightarrow> (let (out', r) = cl_printf X fmt' args' in (out @ out', r)))"
  by pat_completeness auto

termination
  by (relation "measure (\<lambda>(X, fmt, args). length fmt)") (auto dest: printf_round_shorter simp: less_Suc_eq_le)

end
