(* ===== verification/Printf_Props.thy ===== *)
theory Printf_Props
  imports Printf
begin

text \<open>
  What the \<open>printf\<close> of kernels prints: every conversion that it reads is one it can hand to the C
  library without truncation, and a conversion written out is read back and printed with the C99
  format that says the same.
\<close>

section \<open>Conversions and their text\<close>

text \<open>The conversions that a format can say.\<close>

definition wf_conversion :: "conversion \<Rightarrow> bool" where
  "wf_conversion c \<longleftrightarrow> 0 \<le> field_width c \<and> field_width c \<le> 2147483639 \<and> - 1 \<le> precision c \<and> precision c \<le> 2147483639 \<and>
     vector_length c \<in> {1, 2, 3, 4, 8, 16} \<and> length_modifier c \<in> {0, 1, 2, 4, 8} \<and>
     (vector_length c = 1 \<longrightarrow> length_modifier c \<noteq> 4) \<and> (vector_length c \<noteq> 1 \<longrightarrow> length_modifier c \<noteq> 0)"

definition precision_text :: "int \<Rightarrow> string" where
  "precision_text p = (if p = - 1 then [] else ''.'' @ show_nat (nat p))"

definition vector_text :: "int \<Rightarrow> string" where
  "vector_text v = (if v = 1 then [] else ''v'' @ show_nat (nat v))"

definition length_text :: "int \<Rightarrow> string" where
  "length_text l = (if l = 1 then ''hh'' else if l = 2 then ''h'' else if l = 4 then ''hl'' else if l = 8 then ''l'' else [])"

definition conversion_text :: "conversion \<Rightarrow> string" where
  "conversion_text c = flag_text (conv_flags c) @ show_nonzero (field_width c) @ precision_text (precision c) @
     vector_text (vector_length c) @ length_text (length_modifier c)"

text \<open>The characters that can stand before the letter of a conversion.\<close>

definition special :: "char set" where
  "special = set ''-+ #0123456789.vhl''"

section \<open>Reading numbers\<close>

lemma digit_char [simp]: "k < 10 \<Longrightarrow> is_digit (char_of (48 + k))" "k < 10 \<Longrightarrow> (of_char (char_of (48 + k)) :: int) = 48 + int k"
  "k < 10 \<Longrightarrow> char_of (48 + k) = CHR ''0'' \<longleftrightarrow> k = 0"
proof -
  have of_char: "k < 10 \<Longrightarrow> (of_char (char_of (48 + k)) :: nat) = 48 + k"
    by (simp add: of_char_of take_bit_nat_eq_self)
  then show "k < 10 \<Longrightarrow> is_digit (char_of (48 + k))" by (simp add: is_digit_def)
  have "(of_char c :: int) = int (of_char c)" for c by (simp add: of_char_def horner_sum_of_bool_2_less)
  with of_char show "k < 10 \<Longrightarrow> (of_char (char_of (48 + k)) :: int) = 48 + int k" by simp
  show "k < 10 \<Longrightarrow> char_of (48 + k) = CHR ''0'' \<longleftrightarrow> k = 0"
  proof
    assume "k < 10" "char_of (48 + k) = CHR ''0''"
    then have "(of_char (CHR ''0'') :: nat) = 48 + k" using of_char by metis
    then show "k = 0" by simp
  next
    have "char_of (48 :: nat) = CHR ''0''" by code_simp
    then show "k = 0 \<Longrightarrow> char_of (48 + k) = CHR ''0''" by simp
  qed
qed

lemma parse_number_show: "n \<le> 2147483639 \<Longrightarrow> (st \<longrightarrow> 0 < n) \<Longrightarrow> parse_number st 0 (show_nat n @ r) = parse_number st (int n) r"
proof (induction n arbitrary: r rule: show_nat.induct)
  case (1 n)
  show ?case
  proof (cases "n < 10")
    case True
    then show ?thesis using 1 by (subst show_nat.simps) auto
  next
    case False
    let ?d = "char_of (48 + n mod 10)"
    have "show_nat n @ r = show_nat (n div 10) @ ?d # r" using False by (subst show_nat.simps) simp
    moreover have "parse_number st 0 (show_nat (n div 10) @ ?d # r) = parse_number st (int (n div 10)) (?d # r)"
      using 1 False by (intro "1.IH") auto
    moreover have "10 * int (n div 10) + (48 + int (n mod 10) - 48) = int n" by presburger
    ultimately show ?thesis using 1(2) False by auto
  qed
qed

lemma parse_number_stop: "r = [] \<or> \<not> is_digit (hd r) \<Longrightarrow> parse_number st n r = Some (n, r)"
  by (cases r) auto


lemma parse_number_width:
  assumes "0 \<le> w" "w \<le> 2147483639" and "r \<noteq> [] \<and> \<not> is_digit (hd r)"
  shows "parse_number True 0 (show_nonzero w @ r) = Some (w, r)"
proof (cases "w = 0")
  case False
  then have "parse_number True 0 (show_nat (nat w) @ r) = parse_number True (int (nat w)) r"
    using assms by (intro parse_number_show) auto
  then show ?thesis using False assms parse_number_stop[of r True w] by (simp add: show_nonzero_def)
qed (use assms parse_number_stop in \<open>auto simp: show_nonzero_def\<close>)

section \<open>Reading conversions\<close>

lemma parse_flags_text:
  assumes "r \<noteq> []" and "hd r \<notin> set ''-+ #0''"
  shows "parse_flags no_flags (flag_text f @ r) = Some (f, r)"
proof -
  obtain c r' where r: "r = c # r'" using assms(1) by (cases r) auto
  obtain a b d e z where f: "f = \<lparr>left = a, plus = b, space = d, alt = e, zero_flag = z\<rparr>" by (cases f)
  show ?thesis using assms(2) by (cases a; cases b; cases d; cases e; cases z) (simp_all add: flag_text_def no_flags_def r f)
qed

text \<open>What comes first in the rest of a conversion's text.\<close>

lemma first_length: "hd (length_text l @ conv # r) \<in> set ''hl'' \<union> {conv}"
  by (simp add: length_text_def)

lemma first_vector: "hd (vector_text v @ length_text l @ conv # r) \<in> set ''vhl'' \<union> {conv}"
  using first_length[of l conv r] by (auto simp: vector_text_def)

lemma first_precision:
  "hd (precision_text p @ vector_text v @ length_text l @ conv # r) \<in> set ''.vhl'' \<union> {conv}"
  using first_vector[of v l conv r] by (auto simp: precision_text_def)

lemma first_digit: "0 < n \<Longrightarrow> is_digit (hd (show_nat n)) \<and> hd (show_nat n) \<noteq> CHR ''0'' \<and> show_nat n \<noteq> []"
proof (induction n rule: show_nat.induct)
  case (1 n)
  then show ?case by (subst (1 2 3) show_nat.simps) auto
qed

lemma not_digit: "c \<in> set ''.vhl'' \<or> c \<notin> special \<Longrightarrow> \<not> is_digit c"
proof -
  have d: "is_digit c \<Longrightarrow> c \<in> set ''0123456789''"
  proof -
    assume "is_digit c"
    moreover define k where "k = of_char c - (48 :: nat)"
    ultimately have k: "k < 10" "(of_char c :: nat) = 48 + k" unfolding is_digit_def by auto
    then have "c = char_of (48 + k)" by (metis char_of_char)
    with k(1) have "c \<in> (\<lambda>k. char_of (48 + k)) ` {..<10 :: nat}" by blast
    moreover have "(\<lambda>k. char_of (48 + k) :: char) ` {..<10 :: nat} = set ''0123456789''" by code_simp
    ultimately show ?thesis by blast
  qed
  assume "c \<in> set ''.vhl'' \<or> c \<notin> special"
  moreover have "set ''0123456789'' \<inter> set ''.vhl'' = {}" "set ''0123456789'' \<subseteq> special"
    unfolding special_def by code_simp+
  ultimately show "\<not> is_digit c" using d by blast
qed


lemma special_parts: "set ''-+ #0'' \<subseteq> special" "set ''.vhl'' \<subseteq> special" "set ''-+ #0'' \<inter> set ''.vhl'' = {}"
  unfolding special_def by code_simp+

text \<open>A conversion written out is read back, before a letter that is not special.\<close>

lemma parse_conversion_text:
  assumes wf: "wf_conversion c" and conv: "conv \<notin> special"
  shows "parse_conversion (conversion_text c @ conv # r) = Some (c, conv # r)"
proof -
  obtain f w p v l where c: "c = \<lparr>conv_flags = f, field_width = w, precision = p, vector_length = v, length_modifier = l\<rparr>"
    by (cases c)
  note wf = wf[unfolded wf_conversion_def c, simplified]
  let ?l = "length_text l @ conv # r" and ?v = "vector_text v @ length_text l @ conv # r"
    and ?p = "precision_text p @ vector_text v @ length_text l @ conv # r"
  have nd: "\<not> is_digit (hd ?l)" "\<not> is_digit (hd ?v)" "\<not> is_digit (hd ?p)"
    using not_digit[OF disjI1, of "hd ?l"] not_digit[OF disjI1, of "hd ?v"] not_digit[OF disjI1, of "hd ?p"]
      not_digit[OF disjI2, OF conv] first_length[of l conv r] first_vector[of v l conv r] first_precision[of p v l conv r]
    by auto
  have ne: "?l \<noteq> []" "?v \<noteq> []" "?p \<noteq> []" by simp_all
  have chars: "conv \<noteq> CHR ''v''" "conv \<noteq> CHR ''.''" "conv \<noteq> CHR ''h''" "conv \<noteq> CHR ''l''"
    using conv by (auto simp: special_def)
  have "hd (show_nonzero w @ ?p) \<notin> set ''-+ #0''"
  proof (cases "w = 0")
    case True
    then show ?thesis
      using first_precision[of p v l conv r] special_parts conv by (auto simp: show_nonzero_def)
  next
    case False
    then have "is_digit (hd (show_nat (nat w)))" "hd (show_nat (nat w)) \<noteq> CHR ''0''" "show_nat (nat w) \<noteq> []"
      using first_digit[of "nat w"] wf by auto
    then show ?thesis using False wf by (auto simp: show_nonzero_def is_digit_def)
  qed
  then have 1: "parse_flags no_flags (flag_text f @ show_nonzero w @ ?p) = Some (f, show_nonzero w @ ?p)"
    by (intro parse_flags_text) simp_all
  have 2: "parse_number True 0 (show_nonzero w @ ?p) = Some (w, ?p)"
    using wf ne nd by (intro parse_number_width) auto
  have 3: "parse_precision ?p = Some (p, ?v)"
  proof (cases "p = - 1")
    case True
    then show ?thesis using first_vector[of v l conv r] chars by (auto simp: parse_precision_def precision_text_def next_is_def)
  next
    case False
    with wf have "0 \<le> p" "nat p \<le> 2147483639" by (auto simp: nat_le_iff)
    then have "parse_number False 0 (show_nat (nat p) @ ?v) = Some (p, ?v)"
      using parse_number_show[of "nat p" False ?v] parse_number_stop[of ?v False p] nd by simp
    then show ?thesis using False by (simp add: parse_precision_def precision_text_def next_is_def)
  qed
  have 4: "parse_vector ?v = Some (if v = 1 then 0 else v, ?l)"
  proof (cases "v = 1")
    case True
    then show ?thesis using first_length[of l conv r] chars by (auto simp: parse_vector_def vector_text_def next_is_def)
  next
    case False
    then have "parse_number True 0 (show_nat (nat v) @ ?l) = Some (v, ?l)"
      using parse_number_show[of "nat v" True ?l] parse_number_stop[of ?l True v] wf nd by auto
    then show ?thesis using False wf by (auto simp: parse_vector_def vector_text_def next_is_def)
  qed
  have 5: "parse_length ?l = (l, conv # r)"
    using wf chars by (auto simp: parse_length_def length_text_def next_is_def)
  have "conversion_text c @ conv # r = flag_text f @ show_nonzero w @ ?p" by (simp add: conversion_text_def c)
  then show ?thesis using wf by (auto simp: parse_conversion_def 1 2 3 4 5 c)
qed


section \<open>What a format can say\<close>

lemma parse_number_bounds:
  "parse_number st n fmt = Some (m, r) \<Longrightarrow> 0 \<le> n \<Longrightarrow> n \<le> 2147483639 \<Longrightarrow> 0 \<le> m \<and> m \<le> 2147483639"
proof (induction st n fmt rule: parse_number.induct)
  case (2 st n ch fmt)
  show ?case
  proof (cases "is_digit ch")
    case True
    have "(of_char ch :: int) = int (of_char ch)" by (simp add: of_char_def horner_sum_of_bool_2_less)
    with True have "48 \<le> (of_char ch :: int)" "(of_char ch :: int) \<le> 57" by (auto simp: is_digit_def)
    with True 2 show ?thesis by (auto split: if_splits)
  qed (use 2 in simp)
qed auto

lemma parsed_wf: "parse_conversion fmt = Some (c, r) \<Longrightarrow> wf_conversion c"
proof -
  assume p: "parse_conversion fmt = Some (c, r)"
  then obtain f w p v l r1 r2 r3 r4 where
    P: "parse_number True 0 r1 = Some (w, r2)" "parse_precision r2 = Some (p, r3)" "parse_vector r3 = Some (v, r4)"
      "parse_length r4 = (l, r)" "\<not> (v > 0 \<and> l = 0)" "\<not> (v = 0 \<and> l = 4)"
    and c: "c = \<lparr>conv_flags = f, field_width = w, precision = p, vector_length = (if v = 0 then 1 else v), length_modifier = l\<rparr>"
    by (auto simp: parse_conversion_def split: option.splits prod.splits if_splits)
  have "0 \<le> w \<and> w \<le> 2147483639" using parse_number_bounds[OF P(1)] by simp
  moreover have "- 1 \<le> p \<and> p \<le> 2147483639"
    using P(2) parse_number_bounds[of False 0 "tl r2" p r3] by (auto simp: parse_precision_def split: if_splits)
  moreover have "v \<in> {0, 2, 3, 4, 8, 16}" using P(3) by (auto simp: parse_vector_def split: if_splits option.splits)
  moreover have "l \<in> {0, 1, 2, 4, 8}" using P(4) by (auto simp: parse_length_def split: if_splits)
  ultimately show "wf_conversion c" using P(5,6) by (auto simp: wf_conversion_def c)
qed

lemma show_nat_length: "n < 10 ^ k \<Longrightarrow> 0 < k \<Longrightarrow> length (show_nat n) \<le> k"
proof (induction n arbitrary: k rule: show_nat.induct)
  case (1 n)
  show ?case
  proof (cases "n < 10")
    case False
    then obtain k' where k: "k = Suc k'" "0 < k'" using 1 by (cases k; cases "k - 1") auto
    then have "n div 10 < 10 ^ k'" using 1(2) by (simp add: less_mult_imp_div_less mult.commute)
    from "1.IH"[OF False this k(2)] show ?thesis using False k by (subst show_nat.simps) simp
  qed (use 1 in \<open>subst show_nat.simps, simp\<close>)
qed

lemma show_nonzero_length: "0 \<le> i \<Longrightarrow> i \<le> 2147483639 \<Longrightarrow> length (show_nonzero i) \<le> 10"
  using show_nat_length[of "nat i" 10] by (simp add: show_nonzero_def nat_less_iff)

section \<open>The formats for the C library\<close>

text \<open>The C99 format of a conversion, with the C library's length modifier \<open>width\<close>.\<close>

definition c99_format :: "string \<Rightarrow> conversion \<Rightarrow> char \<Rightarrow> string" where
  "c99_format width c conv = ''%'' @ flag_text (conv_flags c) @ show_nonzero (field_width c) @
     (if precision c = - 1 then [] else ''.'' @ show_nonzero (precision c)) @ width @ [conv]"

definition c99_length :: "int \<Rightarrow> string" where
  "c99_length l = (if l = 1 then ''hh'' else if l = 2 then ''h'' else if l = 8 then ''ll'' else '''')"

lemma flag_text_length: "length (flag_text f) \<le> 5"
  by (simp add: flag_text_def)

lemma c99_format_length:
  assumes "wf_conversion c" and "length width \<le> 2"
  shows "length (c99_format width c conv) \<le> 30"
proof -
  have "length (show_nonzero (field_width c)) \<le> 10"
    using assms(1) by (intro show_nonzero_length) (auto simp: wf_conversion_def)
  moreover have "length (if precision c = - 1 then [] else ''.'' @ show_nonzero (precision c)) \<le> 11"
    using assms(1) show_nonzero_length[of "precision c"] by (auto simp: wf_conversion_def)
  moreover have "length (flag_text (conv_flags c)) \<le> 5" by (rule flag_text_length)
  ultimately show ?thesis using assms(2) by (simp add: c99_format_def)
qed

lemma number_format_c99:
  assumes "wf_conversion c" and "length width \<le> 2"
  shows "number_format width c conv = c99_format width c conv"
proof -
  have "''%'' @ flag_text (conv_flags c) @ show_nonzero (field_width c) @ (if precision c \<noteq> - 1 then ''.'' else []) @
      show_nonzero (if precision c \<noteq> - 1 then precision c else 0) @ width @ [conv] = c99_format width c conv"
    by (simp add: c99_format_def show_nonzero_def)
  moreover have "take 999 (c99_format width c conv) = c99_format width c conv"
    using c99_format_length[OF assms, of conv] by simp
  ultimately show ?thesis by (simp only: number_format_def)
qed

text \<open>C68: Whatever follows a percent sign, a conversion that is accepted has a width and a precision far
  from the overflow of \<open>int\<close>, one of six vector lengths with a length modifier that fits, and a C99
  format of at most 30 characters: the arrays of 1000 never cut a format short.\<close>

theorem parsed_conversion_fits:
  assumes "parse_conversion fmt = Some (c, r)"
  shows "wf_conversion c \<and> length r \<le> length fmt \<and>
    (\<forall>width conv. length width \<le> 2 \<longrightarrow> number_format width c conv = c99_format width c conv \<and>
      length (number_format width c conv) \<le> 30) \<and>
    (\<forall>conv. plain_format c conv = ''%'' @ (if left (conv_flags c) then ''-'' else []) @ show_nonzero (field_width c) @ [conv])"
proof -
  have wf: "wf_conversion c" by (rule parsed_wf[OF assms])
  have "length (show_nonzero (field_width c)) \<le> 10"
    using wf by (intro show_nonzero_length) (auto simp: wf_conversion_def)
  then have "plain_format c conv = ''%'' @ (if left (conv_flags c) then ''-'' else []) @ show_nonzero (field_width c) @ [conv]"
    for conv by (auto simp: plain_format_def)
  then show ?thesis
    using wf parse_conversion_length[OF assms] number_format_c99[OF wf] c99_format_length[OF wf] by simp
qed

text \<open>A width that would overflow is turned away, a long one is kept.\<close>

lemma parsed_conversion_fits_witness:
  "parse_conversion ''99999999999d'' = None \<and>
   (let c = \<lparr>conv_flags = no_flags\<lparr>zero_flag := True\<rparr>, field_width = 999999999, precision = 2, vector_length = 16, length_modifier = 4\<rparr>
    in wf_conversion c \<and> number_format [] c CHR ''x'' = c99_format [] c CHR ''x'' \<and> length (number_format [] c CHR ''x'') \<le> 30)"
proof -
  let ?c = "\<lparr>conv_flags = no_flags\<lparr>zero_flag := True\<rparr>, field_width = 999999999, precision = 2, vector_length = 16, length_modifier = 4\<rparr>"
  have "parse_conversion ''0999999999.2v16hlx'' = Some (?c, ''x'')" by code_simp
  note P = parsed_conversion_fits[OF this]
  have "wf_conversion ?c" by (rule P[THEN conjunct1])
  moreover have "number_format [] ?c CHR ''x'' = c99_format [] ?c CHR ''x'' \<and> length (number_format [] ?c CHR ''x'') \<le> 30"
    by (rule P[THEN conjunct2, THEN conjunct2, THEN conjunct1, rule_format]) simp
  moreover have "parse_conversion ''99999999999d'' = None" by code_simp
  ultimately show ?thesis unfolding Let_def by blast
qed

section \<open>Printing\<close>

definition integer_letter :: "char \<Rightarrow> bool" where
  "integer_letter conv \<longleftrightarrow> conv \<in> set ''dioux'' \<or> conv = CHR ''X''"

lemma integer_letter_plain: "integer_letter conv \<Longrightarrow> conv \<notin> special \<and> conv \<noteq> CHR ''%''"
proof -
  assume "integer_letter conv"
  then have "conv \<in> set ''diouxX''" by (auto simp: integer_letter_def)
  moreover have "set ''diouxX'' \<inter> insert (CHR ''%'') special = {}" unfolding special_def by code_simp
  ultimately show "conv \<notin> special \<and> conv \<noteq> CHR ''%''" by blast
qed

lemma conversion_not_percent:
  assumes "wf_conversion c" and "conv \<notin> special" and "conv \<noteq> CHR ''%''"
  shows "\<not> next_is CHR ''%'' (conversion_text c @ conv # r)"
proof
  assume "next_is CHR ''%'' (conversion_text c @ conv # r)"
  then obtain r' where r': "conversion_text c @ conv # r = CHR ''%'' # r'"
    unfolding next_is_def by (metis list.collapse)
  have "parse_conversion (CHR ''%'' # r') =
      Some (\<lparr>conv_flags = no_flags, field_width = 0, precision = - 1, vector_length = 1, length_modifier = 0\<rparr>, CHR ''%'' # r')"
    by (simp add: parse_conversion_def is_digit_def parse_precision_def parse_vector_def parse_length_def next_is_def)
  with parse_conversion_text[OF assms(1,2), of r] r' assms(3) show False by simp
qed

lemma integer_round:
  assumes "wf_conversion c" and "integer_letter conv" and "length_modifier c = 8 \<longrightarrow> khr_int64 X"
    and "int (length vs) = vector_length c"
  shows "printf_round X CHR ''%'' (conversion_text c @ conv # fmt) (vs # args) =
    Go_on (print_elements (c99_format (c99_length (length_modifier c)) c conv) vs) fmt args"
proof -
  have conv: "conv \<notin> special" "conv \<noteq> CHR ''%''" using integer_letter_plain[OF assms(2)] by simp_all
  have "convert X c conv (vs # args) = print_ints X c conv (vs # args)"
    using assms(2) by (simp add: convert_def integer_letter_def)
  also have "\<dots> = take_arg (vector_length c) (number_format (c99_length (length_modifier c)) c conv) (vs # args)"
    using assms(1,3) by (auto simp: print_ints_def c99_length_def wf_conversion_def)
  also have "\<dots> = Printed (print_elements (c99_format (c99_length (length_modifier c)) c conv) vs) args"
    using assms(4) number_format_c99[OF assms(1), of "c99_length (length_modifier c)" conv]
    by (simp add: take_arg_def c99_length_def)
  finally show ?thesis
    using conversion_not_percent[OF assms(1) conv] parse_conversion_text[OF assms(1) conv(1)] by (simp add: printf_round_def)
qed

text \<open>C67: A conversion of integers that is written out in a format is read back and printed as it says:
  its argument is printed element by element, with commas between, by the C99 format with the same
  flags, width and precision and the length modifier of the element's type, and the rest of the
  format goes on with the remaining arguments. The C99 format of a scalar is the conversion's own text,
  except for \<open>l\<close>, which becomes \<open>ll\<close>, and a precision of 0, whose digit is left out.\<close>

theorem printf_prints_integers:
  assumes "wf_conversion c" and "integer_letter conv" and "length_modifier c = 8 \<longrightarrow> khr_int64 X"
    and "int (length vs) = vector_length c"
  shows "cl_printf X (''%'' @ conversion_text c @ conv # fmt) (vs # args) =
      (print_elements (c99_format (c99_length (length_modifier c)) c conv) vs @ fst (cl_printf X fmt args),
       snd (cl_printf X fmt args)) \<and>
    (vector_length c = 1 \<and> length_modifier c \<noteq> 8 \<and> precision c \<noteq> 0 \<longrightarrow>
      c99_format (c99_length (length_modifier c)) c conv = ''%'' @ conversion_text c @ [conv])"
proof
  show "cl_printf X (''%'' @ conversion_text c @ conv # fmt) (vs # args) =
      (print_elements (c99_format (c99_length (length_modifier c)) c conv) vs @ fst (cl_printf X fmt args),
       snd (cl_printf X fmt args))"
    using integer_round[OF assms] by (simp add: split_beta)
  show "vector_length c = 1 \<and> length_modifier c \<noteq> 8 \<and> precision c \<noteq> 0 \<longrightarrow>
      c99_format (c99_length (length_modifier c)) c conv = ''%'' @ conversion_text c @ [conv]"
    using assms(1) by (auto simp: c99_format_def conversion_text_def c99_length_def length_text_def precision_text_def
        vector_text_def show_nonzero_def wf_conversion_def)
qed

text \<open>A vector of two shorts with a flag, a width and a precision, and a scalar behind it.\<close>

lemma printf_prints_integers_witness:
  "cl_printf \<lparr>khr_int64 = False, khr_fp16 = False, khr_fp64 = False\<rparr> ''%-5.3v2hd%i'' [[10 :: int, 20], [30]] =
    ([Print ''%-5.3hd'' 10, Text '','', Print ''%-5.3hd'' 20, Print ''%i'' 30], Some 0)"
proof -
  define X where "X = \<lparr>khr_int64 = False, khr_fp16 = False, khr_fp64 = False\<rparr>"
  let ?c = "\<lparr>conv_flags = no_flags\<lparr>left := True\<rparr>, field_width = 5, precision = 3, vector_length = 2, length_modifier = 2\<rparr>"
  let ?d = "\<lparr>conv_flags = no_flags, field_width = 0, precision = - 1, vector_length = 1, length_modifier = 0\<rparr>"
  have texts: "conversion_text ?c = ''-5.3v2h''" "conversion_text ?d = []" by code_simp+
  have forms: "c99_format (c99_length 2) ?c CHR ''d'' = ''%-5.3hd''" "c99_format (c99_length 0) ?d CHR ''i'' = ''%i''" by code_simp+
  have wf: "wf_conversion ?c" "wf_conversion ?d" by (simp_all add: wf_conversion_def)
  have l: "integer_letter CHR ''d''" "integer_letter CHR ''i''" by (simp_all add: integer_letter_def)
  have "cl_printf X (''%'' @ conversion_text ?c @ CHR ''d'' # ''%i'') [[10 :: int, 20], [30]] =
      (print_elements (c99_format (c99_length (length_modifier ?c)) ?c CHR ''d'') [10, 20] @ fst (cl_printf X ''%i'' [[30 :: int]]),
       snd (cl_printf X ''%i'' [[30 :: int]]))"
    by (rule printf_prints_integers[THEN conjunct1]) (use wf l in simp_all)
  moreover have "cl_printf X (''%'' @ conversion_text ?d @ CHR ''i'' # []) [[30 :: int]] =
      (print_elements (c99_format (c99_length (length_modifier ?d)) ?d CHR ''i'') [30] @ fst (cl_printf X [] ([] :: int list list)),
       snd (cl_printf X [] ([] :: int list list)))"
    by (rule printf_prints_integers[THEN conjunct1]) (use wf l in simp_all)
  ultimately show ?thesis
    by (simp add: X_def[symmetric] texts forms del: cl_printf.simps(2))
qed

lemma literal_text: "CHR ''%'' \<notin> set fmt \<Longrightarrow> cl_printf X fmt args = (map (\<lambda>ch. Text [ch]) fmt, Some 0)"
  by (induction fmt) (auto simp: printf_round_def)

text \<open>
  Without doubles \<open>%f\<close> prints nothing, and its argument is left for the next conversion; and the
  length modifiers that no float has lead into code declared unreachable.
\<close>

lemma floats_vanish: "\<not> khr_fp64 X \<Longrightarrow> cl_printf X (''%f'' @ fmt) args = cl_printf X fmt args"
  by (simp add: printf_round_def parse_conversion_def is_digit_def parse_precision_def parse_vector_def parse_length_def
      next_is_def convert_def print_floats_def split_beta)

lemma short_short_floats: "snd (cl_printf X (''%hhf'' @ fmt) args) = None"
  by (simp add: printf_round_def parse_conversion_def is_digit_def parse_precision_def parse_vector_def parse_length_def
      next_is_def convert_def print_floats_def split_beta)

end
