(* ===== verification/Cl_Half.thy ===== *)
theory Cl_Half
  imports Complex_Main Prelude
begin

text \<open>
  Conversions between floats and halves (\<^verbatim>\<open>lib/poclu/cl_half.c\<close>). A float is its bit pattern,
  which the code reads through a union. The conversion of a half to a float multiplies and divides by
  powers of two, which is exact; it is modelled on rationals.
\<close>

type_synonym cl_half = "16 word"

definition poclu_float_to_cl_half_fast :: "u32 \<Rightarrow> cl_half" where
  "poclu_float_to_cl_half_fast i =
     ucast (drop_bit 13 (i AND 0x007FFFFF)) OR ucast (drop_bit 13 (i AND 0x07800000)) OR
     ucast (drop_bit 16 (i AND 0x40000000)) OR ucast (drop_bit 16 (i AND 0x80000000))"

text \<open>The sign in place, and the exponent.\<close>

definition sign_bit :: "u32 \<Rightarrow> cl_half" where
  "sign_bit i = ucast (drop_bit 16 i AND 0x8000)"

definition exponent_bits :: "u32 \<Rightarrow> cl_half" where
  "exponent_bits i = ucast (drop_bit 23 i AND 0xff)"

text \<open>Infinity, or a NaN whose fraction is 1.\<close>

definition not_finite :: "u32 \<Rightarrow> cl_half" where
  "not_finite i = sign_bit i OR 0x7c00 OR (if exponent_bits i = 255 \<and> i AND 0x007fffff \<noteq> 0 then 1 else 0)"

definition poclu_float_to_cl_half :: "u32 \<Rightarrow> cl_half" where
  "poclu_float_to_cl_half i =
     (let half = sign_bit i; fraction = ucast (drop_bit 12 i AND 0x007ff); exponent = exponent_bits i in
      if exponent < 0x0067 then half
      else if exponent > 0x008e then not_finite i
      else if exponent < 0x0071
      then let fraction = fraction OR 0x0800 in
           half OR (drop_bit (unat (0x0072 - exponent)) fraction + (drop_bit (unat (0x0071 - exponent)) fraction AND 1))
      else (half OR (push_bit 10 (exponent - 0x0070) OR drop_bit 1 fraction)) + (fraction AND 1))"

definition poclu_float_to_cl_half_ceil :: "u32 \<Rightarrow> cl_half" where
  "poclu_float_to_cl_half_ceil i =
     (let half = sign_bit i; negative = (half \<noteq> 0); fraction = ucast (drop_bit 13 i AND 0x003ff);
          fractionLeftOver = i AND 0x00001fff; exponent = exponent_bits i in
      if exponent < 0x0067 then half
      else if exponent > 0x008e then not_finite i
      else if exponent < 0x0071
      then let fraction = drop_bit (unat (0x0071 - exponent)) (fraction OR 0x0400);
               fraction = (if \<not> negative \<and> fractionLeftOver \<noteq> 0 then fraction + 1 else fraction)
           in half OR fraction
      else let half = half OR (push_bit 10 (exponent - 0x0070) OR fraction)
           in if \<not> negative \<and> fractionLeftOver \<noteq> 0 then half + 1 else half)"

definition poclu_float_to_cl_half_floor :: "u32 \<Rightarrow> cl_half" where
  "poclu_float_to_cl_half_floor i =
     (let half = sign_bit i; negative = (half \<noteq> 0); fraction = ucast (drop_bit 13 i AND 0x003ff);
          fractionLeftOver = i AND 0x00001fff; exponent = exponent_bits i in
      if exponent < 0x0067 then half
      else if exponent > 0x008e then not_finite i
      else if exponent < 0x0071
      then let fraction = drop_bit (unat (0x0071 - exponent)) (fraction OR 0x0400);
               fraction = (if negative \<and> fractionLeftOver \<noteq> 0 then fraction + 1 else fraction)
           in half OR fraction
      else let half = half OR (push_bit 10 (exponent - 0x0070) OR fraction)
           in if negative \<and> fractionLeftOver \<noteq> 0 then half + 1 else half)"

text \<open>The float that a half is converted to.\<close>

datatype float_result = Infinity bool | Not_a_number | Finite rat

definition poclu_cl_half_to_float :: "cl_half \<Rightarrow> float_result" where
  "poclu_cl_half_to_float value =
     (if value = 0xFC00 then Infinity True
      else if value = 0x7C00 then Infinity False
      else let sgn = drop_bit 15 (value AND 0x8000); exp = drop_bit 10 (value AND 0x7C00); mant = value AND 0x03FF in
      if exp = 0x1F \<and> mant \<noteq> 0 then Not_a_number
      else let v = rat_of_nat (unat (if exp = 0 then mant else mant OR 0x0400)) / 1024 * (2 ^ unat exp / 2 ^ 15)
           in Finite (if sgn \<noteq> 0 then - v else v))"

end
