(* ===== verification/Cl_Half_Props.thy ===== *)
theory Cl_Half_Props
  imports Cl_Half
begin

text \<open>
  The conversions between floats and halves: in the range of normal halves they round as their names
  say, and a normal half survives the way to a float and back. Below that range they do not.
\<close>

section \<open>Fields of a float\<close>

text \<open>The magnitude of a float: its pattern without the sign.\<close>

definition magnitude :: "u32 \<Rightarrow> nat" where
  "magnitude u = unat u mod 2 ^ 31"

lemma field_value:
  "n \<le> 16 \<Longrightarrow> unat (ucast (drop_bit k u AND mask n :: u32) :: 16 word) = unat u div 2 ^ k mod 2 ^ n"
proof -
  assume n: "n \<le> 16"
  have "unat (drop_bit k u AND mask n :: u32) = unat u div 2 ^ k mod 2 ^ n"
    by (simp only: and_mask_unat unat_drop_bit_eq drop_bit_eq_div[of k "unat u"])
  moreover have "unat u div 2 ^ k mod 2 ^ n < 2 ^ 16"
    using n by (intro less_le_trans[OF mod_less_divisor power_increasing]) simp_all
  ultimately show ?thesis by (simp only: unsigned_ucast_eq) (simp add: take_bit_nat_eq_self)
qed

lemma div_mod_magnitude: "k + n \<le> 31 \<Longrightarrow> unat u div 2 ^ k mod 2 ^ n = magnitude u div 2 ^ k mod 2 ^ n"
proof -
  assume kn: "k + n \<le> 31"
  have "take_bit n (drop_bit k (take_bit 31 (unat u))) = take_bit n (drop_bit k (unat u))"
    using kn by (simp add: bit_eq_iff bit_simps) (auto simp: less_diff_conv)
  then show ?thesis by (simp add: magnitude_def take_bit_eq_mod drop_bit_eq_div)
qed

lemma exponent_value: "unat (exponent_bits u) = magnitude u div 2 ^ 23"
proof -
  have "(0xff :: u32) = mask 8" by (simp add: mask_eq_exp_minus_1)
  then have "unat (exponent_bits u) = unat u div 2 ^ 23 mod 2 ^ 8"
    unfolding exponent_bits_def by (simp only: field_value[of 8])
  also have "\<dots> = magnitude u div 2 ^ 23 mod 2 ^ 8" by (rule div_mod_magnitude) simp
  also have "\<dots> = magnitude u div 2 ^ 23" by (simp add: magnitude_def)
  finally show ?thesis .
qed

lemma sign_value: "unat (sign_bit u) = 32768 * (unat u div 2 ^ 31)"
proof -
  have "(0x8000 :: u32) = push_bit 15 (mask 1)" by (simp add: mask_eq_exp_minus_1)
  then have b: "bit (0x8000 :: u32) n \<longleftrightarrow> n = 15" for n by (simp only: bit_push_bit_iff bit_mask_iff) auto
  have "drop_bit 16 u AND 0x8000 = push_bit 15 (drop_bit 31 u AND mask 1)"
  proof (rule bit_word_eqI)
    fix n
    show "bit (drop_bit 16 u AND 0x8000) n = bit (push_bit 15 (drop_bit 31 u AND mask 1)) n"
    proof (cases "n = 15")
      case True
      then show ?thesis by (simp only: bit_and_iff b bit_drop_bit_eq bit_push_bit_iff bit_mask_iff) simp
    next
      case False
      then have "\<not> (15 \<le> n \<and> n - 15 < 1)" by arith
      with False show ?thesis by (simp only: bit_and_iff b bit_push_bit_iff bit_mask_iff) blast
    qed
  qed
  moreover have "unat (drop_bit 31 u AND mask 1 :: u32) = unat u div 2 ^ 31"
    using unat_lt32[of u] by (simp only: and_mask_unat unat_drop_bit_eq drop_bit_eq_div[of 31 "unat u"])
      (simp add: less_mult_imp_div_less)
  moreover have "unat u div 2 ^ 31 < 2" using unat_lt32[of u] by (simp add: less_mult_imp_div_less)
  ultimately have "unat (drop_bit 16 u AND 0x8000) = 32768 * (unat u div 2 ^ 31)"
    by (simp add: push_bit_eq_mult unat_word_ariths)
  then show ?thesis using \<open>unat u div 2 ^ 31 < 2\<close> unfolding sign_bit_def
    by (simp only: unsigned_ucast_eq) (simp add: take_bit_nat_eq_self)
qed

text \<open>Words put side by side.\<close>

lemma or_beside:
  fixes a b :: cl_half
  assumes "unat b < 2 ^ k" and "2 ^ k dvd unat a"
  shows "unat (a OR b) = unat a + unat b"
proof -
  obtain c where c: "unat a = push_bit k c" using assms(2) by (auto simp: push_bit_eq_mult mult.commute)
  have "\<not> bit (unat b) n" if "k \<le> n" for n
  proof -
    have "unat b < 2 ^ n" using assms that by (meson less_le_trans one_le_numeral power_increasing)
    then show ?thesis by (simp add: bit_iff_odd)
  qed
  then have "\<not> bit (unat a) n \<or> \<not> bit (unat b) n" for n by (auto simp: c bit_push_bit_iff)
  then have "unat a OR unat b = unat a + unat b" by (simp add: disjunctive_add)
  then show ?thesis by (simp add: unsigned_or_eq)
qed

text \<open>The patterns of the normal range: exponents from 113 to 142.\<close>

definition normal_range :: "u32 \<Rightarrow> bool" where
  "normal_range u \<longleftrightarrow> 113 \<le> unat (exponent_bits u) \<and> unat (exponent_bits u) \<le> 142"

abbreviation negative :: "u32 \<Rightarrow> nat" where
  "negative u \<equiv> unat u div 2 ^ 31"

lemma negative_le: "negative u \<le> 1"
proof -
  have "unat u div 2147483648 < 2" using unat_lt32[of u] by (simp add: less_mult_imp_div_less)
  then show ?thesis by simp
qed

lemma shifted_exponent: "unat (x :: cl_half) < 64 \<Longrightarrow> unat (push_bit 10 x) = unat x * 1024"
  by (simp add: push_bit_eq_mult unat_word_ariths)

lemma sign_zero: "sign_bit u = 0 \<longleftrightarrow> negative u = 0"
  using sign_value[of u] by (auto simp: unat_eq_zero)

lemma quotient_range:
  assumes "normal_range u"
  shows "115712 \<le> magnitude u div 8192" and "magnitude u div 8192 < 146432"
    and "magnitude u div 8192 - 114688 = (magnitude u div 2 ^ 23 - 112) * 1024 + magnitude u div 8192 mod 1024"
proof -
  have e: "113 \<le> magnitude u div 2 ^ 23" "magnitude u div 2 ^ 23 \<le> 142"
    using assms by (simp_all add: normal_range_def exponent_value)
  have d: "magnitude u div 8192 div 1024 = magnitude u div 2 ^ 23" by (simp add: div_mult2_eq[symmetric])
  then have q: "magnitude u div 8192 = magnitude u div 2 ^ 23 * 1024 + magnitude u div 8192 mod 1024"
    by (metis div_mult_mod_eq)
  have m: "magnitude u div 8192 mod 1024 < 1024" by simp
  show "115712 \<le> magnitude u div 8192" using q e by linarith
  show "magnitude u div 8192 < 146432" using q e m by linarith
  show "magnitude u div 8192 - 114688 = (magnitude u div 2 ^ 23 - 112) * 1024 + magnitude u div 8192 mod 1024"
    using q e by (simp add: diff_mult_distrib)
qed

lemma truncated_value:
  assumes n: "normal_range u" and F: "unat F = magnitude u div 8192 mod 1024"
  shows "unat (sign_bit u OR (push_bit 10 (exponent_bits u - 0x70) OR F)) =
    32768 * negative u + (magnitude u div 8192 - 114688)"
proof -
  have e: "113 \<le> unat (exponent_bits u)" "unat (exponent_bits u) \<le> 142" using n by (simp_all add: normal_range_def)
  then have "unat (exponent_bits u - 0x70) = magnitude u div 2 ^ 23 - 112"
    by (simp add: unat_sub_no_wrap exponent_value)
  moreover have "magnitude u div 2 ^ 23 - 112 < 64" using e by (simp add: exponent_value)
  ultimately have p: "unat (push_bit 10 (exponent_bits u - 0x70)) = (magnitude u div 2 ^ 23 - 112) * 1024"
    using shifted_exponent[of "exponent_bits u - 0x70"] by (simp only:)
  have "unat (push_bit 10 (exponent_bits u - 0x70) OR F) = magnitude u div 8192 - 114688"
    unfolding quotient_range(3)[OF n] using or_beside[of F 10 "push_bit 10 (exponent_bits u - 0x70)"] F by (simp add: p)
  moreover have "magnitude u div 8192 - 114688 < 2 ^ 15" using quotient_range(1,2)[OF n] by simp
  ultimately show ?thesis
    using or_beside[of "push_bit 10 (exponent_bits u - 0x70) OR F" 15 "sign_bit u"] by (simp add: sign_value)
qed

lemma fraction_value: "unat (ucast (drop_bit 13 u AND 0x003ff :: u32) :: cl_half) = magnitude u div 8192 mod 1024"
proof -
  have "(0x3ff :: u32) = mask 10" by (simp add: mask_eq_exp_minus_1)
  then have "unat (ucast (drop_bit 13 u AND 0x3ff :: u32) :: cl_half) = unat u div 2 ^ 13 mod 2 ^ 10"
    by (simp only: field_value[of 10])
  also have "\<dots> = magnitude u div 2 ^ 13 mod 2 ^ 10" by (rule div_mod_magnitude) simp
  finally show ?thesis by simp
qed

lemma left_over_value: "unat (u AND 0x00001fff) = magnitude u mod 8192"
proof -
  have "(0x1fff :: u32) = mask 13" by (simp add: mask_eq_exp_minus_1)
  then have "unat (u AND 0x1fff) = unat u mod 2 ^ 13" by (simp only: and_mask_unat)
  then show ?thesis by (simp add: magnitude_def mod_mod_cancel)
qed

text \<open>The pattern of the half next to the float towards zero, and what a conversion adds to it.\<close>

definition truncated :: "u32 \<Rightarrow> nat" where
  "truncated u = 32768 * negative u + (magnitude u div 8192 - 114688)"

lemma truncated_less: "normal_range u \<Longrightarrow> truncated u < 2 ^ 16 - 1"
  using quotient_range(1,2)[of u] negative_le[of u] by (simp add: truncated_def)

lemma unat_plus_one: "unat (x :: cl_half) < 2 ^ 16 - 1 \<Longrightarrow> unat (x + 1) = unat x + 1"
  by (subst unat_add_no_wrap) simp_all

lemma not_special_exponent:
  assumes "normal_range u"
  shows "\<not> exponent_bits u < 0x67" and "\<not> exponent_bits u > 0x8e" and "\<not> exponent_bits u < 0x71"
  using assms by (simp_all add: normal_range_def word_less_nat_alt)

lemma ceil_value:
  assumes "normal_range u"
  shows "unat (poclu_float_to_cl_half_ceil u) = truncated u + (if negative u = 0 \<and> magnitude u mod 8192 \<noteq> 0 then 1 else 0)"
proof -
  have "u AND 0x00001fff = 0 \<longleftrightarrow> magnitude u mod 8192 = 0" using left_over_value[of u] by (metis unat_eq_zero)
  then show ?thesis
    using truncated_value[OF assms fraction_value, folded truncated_def] truncated_less[OF assms] not_special_exponent[OF assms]
    by (simp add: poclu_float_to_cl_half_ceil_def Let_def sign_zero unat_plus_one del: One_nat_def)
qed

lemma floor_value:
  assumes "normal_range u"
  shows "unat (poclu_float_to_cl_half_floor u) = truncated u + (if negative u \<noteq> 0 \<and> magnitude u mod 8192 \<noteq> 0 then 1 else 0)"
proof -
  have "u AND 0x00001fff = 0 \<longleftrightarrow> magnitude u mod 8192 = 0" using left_over_value[of u] by (metis unat_eq_zero)
  then show ?thesis
    using truncated_value[OF assms fraction_value, folded truncated_def] truncated_less[OF assms] not_special_exponent[OF assms]
    by (simp add: poclu_float_to_cl_half_floor_def Let_def sign_zero unat_plus_one del: One_nat_def)
qed

lemma nearest_value:
  assumes "normal_range u"
  shows "unat (poclu_float_to_cl_half u) = truncated u + magnitude u div 4096 mod 2"
proof -
  define F where "F = (ucast (drop_bit 12 u AND 0x007ff :: u32) :: cl_half)"
  have "(0x7ff :: u32) = mask 11" by (simp add: mask_eq_exp_minus_1)
  then have "unat F = unat u div 2 ^ 12 mod 2 ^ 11" unfolding F_def by (simp only: field_value[of 11])
  also have "\<dots> = magnitude u div 2 ^ 12 mod 2 ^ 11" by (rule div_mod_magnitude) simp
  finally have F: "unat F = magnitude u div 4096 mod 2048" by simp
  have "unat (drop_bit 1 F) = unat F div 2" by (simp only: unat_drop_bit_eq drop_bit_eq_div[of 1 "unat F"]) simp
  also have "\<dots> = magnitude u div 8192 mod 1024" using mod_mult2_eq[of "magnitude u div 4096" 2 1024] by (simp add: F div_mult2_eq[symmetric])
  finally have h: "unat (drop_bit 1 F) = magnitude u div 8192 mod 1024" .
  have "unat (F AND 1) = unat F mod 2" using and_mask_unat[of F 1] by (simp add: mask_eq_exp_minus_1)
  then have l: "unat (F AND 1) = magnitude u div 4096 mod 2" by (simp add: F mod_mod_cancel)
  have "magnitude u div 4096 mod 2 < 2" by simp
  then have "unat (F AND 1) \<le> 1" unfolding l by linarith
  then show ?thesis
    using truncated_value[OF assms h, folded truncated_def] truncated_less[OF assms] not_special_exponent[OF assms] l
    unfolding poclu_float_to_cl_half_def Let_def F_def[symmetric]
    by (simp add: unat_add_no_wrap)
qed

section \<open>Values\<close>

text \<open>The value of a finite float, and of a half, with \<open>2 ^ 16\<close> for the infinite one.\<close>

definition float_mag :: "nat \<Rightarrow> rat" where
  "float_mag m = (if m < 2 ^ 23 then 2 * of_nat m else (2 ^ 23 + of_nat (m mod 2 ^ 23)) * 2 ^ (m div 2 ^ 23)) / 2 ^ 150"

definition half_mag :: "nat \<Rightarrow> rat" where
  "half_mag p = (if p < 1024 then 2 * of_nat p else (1024 + of_nat (p mod 1024)) * 2 ^ (p div 1024)) / 2 ^ 25"

definition float_value :: "u32 \<Rightarrow> rat" where
  "float_value u = (if negative u = 0 then float_mag (magnitude u) else - float_mag (magnitude u))"

definition half_value :: "cl_half \<Rightarrow> rat" where
  "half_value h = (if unat h < 32768 then half_mag (unat h) else - half_mag (unat h - 32768))"

text \<open>Halves that are not NaN.\<close>

definition is_number :: "cl_half \<Rightarrow> bool" where
  "is_number h \<longleftrightarrow> unat h mod 32768 \<le> 31744"

lemma half_mag_Suc: "half_mag p < half_mag (Suc p)"
proof (cases "p < 1024")
  case True
  then show ?thesis by (cases "p = 1023") (simp_all add: half_mag_def divide_strict_right_mono)
next
  case False
  show ?thesis
  proof (cases "p mod 1024 = 1023")
    case True
    then have "Suc p div 1024 = Suc (p div 1024)" "Suc p mod 1024 = 0" by (simp_all add: div_Suc mod_Suc)
    with False True show ?thesis by (simp add: half_mag_def divide_strict_right_mono)
  next
    case ne: False
    then have "Suc p div 1024 = p div 1024" "Suc p mod 1024 = Suc (p mod 1024)" by (simp_all add: div_Suc mod_Suc)
    with False show ?thesis by (simp add: half_mag_def divide_strict_right_mono)
  qed
qed

lemma half_mag_mono: "p \<le> p' \<Longrightarrow> half_mag p \<le> half_mag p'"
  by (rule lift_Suc_mono_le[of half_mag]) (simp_all add: half_mag_Suc less_imp_le)

lemma float_mag_parts: "1 \<le> a \<Longrightarrow> b < 1024 \<Longrightarrow> r < 8192 \<Longrightarrow>
  float_mag (8192 * (1024 * a + b) + r) = (2 ^ 23 + of_nat (8192 * b + r)) * 2 ^ a / 2 ^ 150"
proof -
  assume "1 \<le> a" "b < 1024" "r < 8192"
  have e: "8192 * (1024 * a + b) + r = a * 2 ^ 23 + (8192 * b + r)" by simp
  have l: "8192 * b + r < 2 ^ 23" using \<open>b < 1024\<close> \<open>r < 8192\<close> by simp
  have "\<not> a * 2 ^ 23 + (8192 * b + r) < 2 ^ 23" using \<open>1 \<le> a\<close> by simp
  then show ?thesis using l unfolding float_mag_def e by simp
qed

text \<open>Between two halves the floats lie on a line.\<close>

lemma float_mag_step:
  assumes "1024 \<le> q" and "r \<le> 8192"
  shows "float_mag (8192 * q + r) = float_mag (8192 * q) + of_nat r * 2 ^ (q div 1024) / 2 ^ 150"
proof -
  define a b where "a = q div 1024" and "b = q mod 1024"
  have q: "q = 1024 * a + b" "b < 1024" "1 \<le> a" using assms(1) by (simp_all add: a_def b_def Suc_le_eq div_greater_zero_iff)
  note P = float_mag_parts[OF q(3,2)]
  have z: "float_mag (8192 * q) = (2 ^ 23 + of_nat (8192 * b)) * 2 ^ a / 2 ^ 150" using P[of 0] by (simp add: q)
  show ?thesis
  proof (cases "r < 8192")
    case True
    have "float_mag (8192 * q + r) = (2 ^ 23 + of_nat (8192 * b + r)) * 2 ^ a / 2 ^ 150" using P[OF True] by (simp only: q)
    then show ?thesis unfolding z a_def[symmetric] by (simp add: add_divide_distrib algebra_simps)
  next
    case False
    then have r: "r = 8192" using assms(2) by simp
    have "float_mag (8192 * q + r) = (2 ^ 23 + of_nat (8192 * (b + 1))) * 2 ^ a / 2 ^ 150"
    proof (cases "b = 1023")
      case True
      have "8192 * q + r = 8192 * (1024 * (a + 1) + 0) + 0" by (simp add: q(1) r True)
      then have "float_mag (8192 * q + r) = (2 ^ 23 + of_nat (8192 * 0 + 0)) * 2 ^ (a + 1) / 2 ^ 150"
        using float_mag_parts[of "a + 1" 0 0] by simp
      then show ?thesis by (simp add: True)
    next
      case False
      have e: "8192 * q + r = 8192 * (1024 * a + (b + 1)) + 0" by (simp add: q(1) r)
      have "float_mag (8192 * (1024 * a + (b + 1)) + 0) = (2 ^ 23 + of_nat (8192 * (b + 1) + 0)) * 2 ^ a / 2 ^ 150"
        by (rule float_mag_parts) (use q False in simp_all)
      then show ?thesis unfolding e by (simp only: add_0_right)
    qed
    then show ?thesis unfolding z a_def[symmetric] by (simp add: r add_divide_distrib algebra_simps)
  qed
qed

lemma float_half_mag:
  assumes "115712 \<le> q"
  shows "float_mag (8192 * q) = half_mag (q - 114688)"
proof -
  define a b where "a = q div 1024" and "b = q mod 1024"
  have q: "q = 1024 * a + b" "b < 1024" "113 \<le> a" using assms by (simp_all add: a_def b_def less_eq_div_iff_mult_less_eq)
  define c where "c = a - 112"
  have c: "a = c + 112" "1 \<le> c" using q(3) by (simp_all add: c_def)
  have p: "q - 114688 = 1024 * c + b" by (simp add: q(1) c(1))
  have A: "float_mag (8192 * q) = (2 ^ 23 + of_nat (8192 * b)) * 2 ^ a / 2 ^ 150"
    using float_mag_parts[of a b 0] q by simp
  have B: "half_mag (q - 114688) = (1024 + of_nat b) * 2 ^ c / 2 ^ 25"
    unfolding p using c(2) q(2) by (simp add: half_mag_def)
  have "(2 ^ 23 + of_nat (8192 * b)) * 2 ^ a / 2 ^ 150 = ((1024 + of_nat b) * 2 ^ c / 2 ^ 25 :: rat)"
    by (simp add: c(1) power_add field_simps)
  then show ?thesis unfolding A B .
qed

section \<open>Rounding\<close>

lemma half_mag_nonneg: "0 \<le> half_mag p"
  by (simp add: half_mag_def)

text \<open>The halves around a float of the normal range, and the spacing of the floats between them.\<close>

lemma between_halves:
  assumes "normal_range u"
  defines "t \<equiv> magnitude u div 8192 - 114688" and "r \<equiv> magnitude u mod 8192"
  obtains w where "0 < w" and "float_mag (magnitude u) = half_mag t + of_nat r * w" and "half_mag (t + 1) = half_mag t + 8192 * w"
    and "t < 31744"
proof -
  let ?q = "magnitude u div 8192"
  define w :: rat where "w = 2 ^ (?q div 1024) / 2 ^ 150"
  have q: "115712 \<le> ?q" "?q < 146432" using quotient_range(1,2)[OF assms(1)] by simp_all
  have m: "magnitude u = 8192 * ?q + r" by (simp add: r_def)
  have "float_mag (8192 * ?q + r) = float_mag (8192 * ?q) + of_nat r * 2 ^ (?q div 1024) / 2 ^ 150"
    by (rule float_mag_step) (use q in \<open>simp_all add: r_def\<close>)
  then have v: "float_mag (magnitude u) = half_mag t + of_nat r * w"
    using float_half_mag[OF q(1)] m by (simp add: t_def w_def)
  have "t + 1 = ?q + 1 - 114688" using q by (simp add: t_def)
  then have "half_mag (t + 1) = half_mag (?q + 1 - 114688)" by (rule arg_cong)
  also have "\<dots> = float_mag (8192 * (?q + 1))" by (rule float_half_mag[symmetric]) (use q in simp)
  also have "\<dots> = float_mag (8192 * ?q + 8192)" by (simp only: distrib_left mult_1_right)
  also have "\<dots> = float_mag (8192 * ?q) + of_nat 8192 * 2 ^ (?q div 1024) / 2 ^ 150"
    by (rule float_mag_step) (use q in simp_all)
  also have "\<dots> = half_mag t + 8192 * w" unfolding float_half_mag[OF q(1)] t_def w_def by simp
  finally have "half_mag (t + 1) = half_mag t + 8192 * w" .
  moreover have "t < 31744" using q by (simp add: t_def)
  moreover have "0 < w" by (simp add: w_def)
  ultimately show thesis using v that by blast
qed

lemma half_value_signed:
  assumes "unat h = 32768 * k + p" and "k \<le> 1" and "p < 32768"
  shows "half_value h = (if k = 0 then half_mag p else - half_mag p)"
  using assms by (auto simp: half_value_def le_Suc_eq)

text \<open>Seen from a float's sign, no half lies strictly between two neighbours.\<close>

lemma no_half_between:
  assumes "is_number p" and "y = half_value p \<or> y = - half_value p"
  shows "y \<le> half_mag t \<or> half_mag (t + 1) \<le> y"
proof -
  have "y = half_mag (unat p mod 32768) \<or> y = - half_mag (unat p mod 32768)"
  proof (cases "unat p < 32768")
    case False
    have "unat p < 65536" using unsigned_less[of p] by simp
    then have "unat p - 32768 = unat p mod 32768" using False by (simp add: le_mod_geq)
    then show ?thesis using assms(2) False by (auto simp: half_value_def)
  qed (use assms(2) in \<open>auto simp: half_value_def\<close>)
  then show ?thesis
  proof
    assume y: "y = half_mag (unat p mod 32768)"
    then show ?thesis using half_mag_mono[of "unat p mod 32768" t] half_mag_mono[of "t + 1" "unat p mod 32768"]
      by (cases "unat p mod 32768 \<le> t") simp_all
  next
    assume "y = - half_mag (unat p mod 32768)"
    then show ?thesis using half_mag_nonneg[of "unat p mod 32768"] half_mag_nonneg[of t] by linarith
  qed
qed

lemma nearest_of_two:
  fixes l v h x :: rat
  assumes "l \<le> v" "v \<le> h" and "x \<le> l \<or> h \<le> x"
  shows "v - l < h - v \<Longrightarrow> \<bar>l - v\<bar> \<le> \<bar>x - v\<bar>" and "\<not> v - l < h - v \<Longrightarrow> \<bar>h - v\<bar> \<le> \<bar>x - v\<bar>"
  using assms by (auto simp: abs_if)

lemma div_mod_half: "m mod 8192 div 4096 = m div 4096 mod (2 :: nat)"
  using mod_mult2_eq[of m 4096 2] by simp

text \<open>C69: The conversions from floats to halves round as their names say, for floats whose exponent is one
  of a normal half: no half, and no infinity counted as \<open>2 ^ 16\<close>, is nearer to the float than the
  result of \<open>poclu_float_to_cl_half\<close>; and the results of \<open>poclu_float_to_cl_half_floor\<close> and
  \<open>poclu_float_to_cl_half_ceil\<close> are the greatest half below and the least half above the float.\<close>

theorem half_rounding:
  assumes n: "normal_range u"
  shows "(\<forall>p. is_number p \<longrightarrow> \<bar>half_value (poclu_float_to_cl_half u) - float_value u\<bar> \<le> \<bar>half_value p - float_value u\<bar>) \<and>
    half_value (poclu_float_to_cl_half_floor u) \<le> float_value u \<and>
    (\<forall>p. is_number p \<and> half_value p \<le> float_value u \<longrightarrow> half_value p \<le> half_value (poclu_float_to_cl_half_floor u)) \<and>
    float_value u \<le> half_value (poclu_float_to_cl_half_ceil u) \<and>
    (\<forall>p. is_number p \<and> float_value u \<le> half_value p \<longrightarrow> half_value (poclu_float_to_cl_half_ceil u) \<le> half_value p)"
proof -
  define t r where "t = magnitude u div 8192 - 114688" and "r = magnitude u mod 8192"
  define k where "k = negative u"
  define l h v where "l = half_mag t" and "h = half_mag (t + 1)" and "v = float_mag (magnitude u)"
  obtain w where w: "0 < w" "v = l + of_nat r * w" "h = l + 8192 * w" and t: "t < 31744"
    using between_halves[OF n] unfolding l_def h_def v_def t_def r_def by blast
  have r: "r < 8192" by (simp add: r_def)
  then have "of_nat r < (8192 :: rat)" by simp
  then have rw: "of_nat r * w < 8192 * w" "0 \<le> of_nat r * w" using w(1) by (simp_all only: mult_strict_right_mono) simp
  then have lv: "l \<le> v" "v \<le> h" using w by simp_all
  have k: "k \<le> 1" using negative_le by (simp add: k_def)
  have trunc: "truncated u = 32768 * k + t" by (simp add: truncated_def k_def t_def)
  have "magnitude u div 4096 mod 2 = r div 4096"
    by (simp only: r_def div_mod_half)
  then have d: "magnitude u div 4096 mod 2 = (if r < 4096 then 0 else 1)" using r by auto
  have H: "half_value (poclu_float_to_cl_half u) = (let x = (if r < 4096 then l else h) in if k = 0 then x else - x)"
    using half_value_signed[of "poclu_float_to_cl_half u" k "t + magnitude u div 4096 mod 2"] nearest_value[OF n] trunc k t d
    by (simp add: l_def h_def)
  have D: "v - l < h - v \<longleftrightarrow> r < 4096"
  proof -
    have "v - l < h - v \<longleftrightarrow> of_nat r * w < 4096 * w" using w by linarith
    also have "\<dots> \<longleftrightarrow> of_nat r < (4096 :: rat)" using w(1) by (rule mult_less_cancel_right_pos)
    finally show ?thesis by simp
  qed
  have F: "half_value (poclu_float_to_cl_half_floor u) = (if k = 0 then l else if r = 0 then - l else - h)"
    using half_value_signed[of "poclu_float_to_cl_half_floor u" k "t + (if k \<noteq> 0 \<and> r \<noteq> 0 then 1 else 0)"] floor_value[OF n]
      trunc k t by (auto simp: l_def h_def r_def k_def)
  have C: "half_value (poclu_float_to_cl_half_ceil u) = (if k \<noteq> 0 then - l else if r = 0 then l else h)"
    using half_value_signed[of "poclu_float_to_cl_half_ceil u" k "t + (if k = 0 \<and> r \<noteq> 0 then 1 else 0)"] ceil_value[OF n]
      trunc k t by (auto simp: l_def h_def r_def k_def)
  have V: "float_value u = (if k = 0 then v else - v)" by (simp add: float_value_def v_def k_def)
  have z: "r = 0 \<Longrightarrow> v = l" "r \<noteq> 0 \<Longrightarrow> l < v" "v < h" using w rw(1) by simp_all
  have N: "half_value p \<le> l \<or> h \<le> half_value p" "- half_value p \<le> l \<or> h \<le> - half_value p" if "is_number p" for p
    using no_half_between[OF that, of "half_value p" t] no_half_between[OF that, of "- half_value p" t]
    unfolding l_def h_def by simp_all
  have "\<bar>half_value (poclu_float_to_cl_half u) - float_value u\<bar> \<le> \<bar>half_value p - float_value u\<bar>" if "is_number p" for p
    unfolding H V using N[OF that] lv D by (auto simp: abs_if)
  moreover have "half_value p \<le> half_value (poclu_float_to_cl_half_floor u)" if "is_number p" "half_value p \<le> float_value u" for p
    unfolding F using N[OF that(1)] that(2)[unfolded V] z lv by (auto split: if_splits)
  moreover have "half_value (poclu_float_to_cl_half_ceil u) \<le> half_value p" if "is_number p" "float_value u \<le> half_value p" for p
    unfolding C using N[OF that(1)] that(2)[unfolded V] z lv by (auto split: if_splits)
  moreover have "half_value (poclu_float_to_cl_half_floor u) \<le> float_value u" "float_value u \<le> half_value (poclu_float_to_cl_half_ceil u)"
    unfolding F C V using z lv by auto
  ultimately show ?thesis by blast
qed

section \<open>From halves to floats\<close>

lemma field_in_place:
  fixes h :: cl_half
  assumes "m = push_bit k (mask n)"
  shows "unat (drop_bit k (h AND m)) = unat h div 2 ^ k mod 2 ^ n"
proof -
  have "drop_bit k (h AND push_bit k (mask n)) = drop_bit k h AND mask n"
    by (rule bit_word_eqI) (auto simp: bit_simps dest: bit_imp_le_length)
  then show ?thesis unfolding assms by (simp only: and_mask_unat unat_drop_bit_eq drop_bit_eq_div[of k "unat h"])
qed

lemma half_fields:
  "unat (drop_bit 15 (h AND 0x8000 :: cl_half)) = unat h div 32768"
  "unat (drop_bit 10 (h AND 0x7C00 :: cl_half)) = unat h div 1024 mod 32"
  "unat (h AND 0x03FF :: cl_half) = unat h mod 1024"
  "unat (h AND 0x03FF OR 0x0400 :: cl_half) = unat h mod 1024 + 1024"
proof -
  have "unat h div 32768 < 2" using unsigned_less[of h, where ?'a = nat] by (simp add: less_mult_imp_div_less)
  then show "unat (drop_bit 15 (h AND 0x8000)) = unat h div 32768"
    using field_in_place[of "0x8000" 15 1 h] by (simp add: mask_eq_exp_minus_1)
  show "unat (drop_bit 10 (h AND 0x7C00)) = unat h div 1024 mod 32"
    using field_in_place[of "0x7C00" 10 5 h] by (simp add: mask_eq_exp_minus_1)
  show m: "unat (h AND 0x03FF) = unat h mod 1024"
    using and_mask_unat[of h 10] by (simp add: mask_eq_exp_minus_1)
  have "unat (0x0400 OR (h AND 0x03FF)) = unat (0x0400 :: cl_half) + unat (h AND 0x03FF)"
    by (rule or_beside[of _ 10]) (simp_all add: m)
  then show "unat (h AND 0x03FF OR 0x0400) = unat h mod 1024 + 1024" by (simp add: m or.commute)
qed

text \<open>The conversion to a float is exact for normal halves; a denormal one loses half its value.\<close>

lemma half_to_float:
  assumes "unat h div 1024 mod 32 \<noteq> 31"
  shows "poclu_cl_half_to_float h = Finite (if unat h div 1024 mod 32 = 0 then half_value h / 2 else half_value h)"
proof -
  let ?p = "unat h mod 32768"
  have n: "h \<noteq> 0xFC00" "h \<noteq> 0x7C00" "drop_bit 10 (h AND 0x7C00) \<noteq> 0x1F"
    using assms half_fields(2)[of h] by auto
  have e: "unat h div 1024 mod 32 = ?p div 1024" "unat h mod 1024 = ?p mod 1024"
    using mod_mult2_eq[of "unat h" 1024 32] by (simp_all add: mod_mod_cancel)
  have s: "drop_bit 15 (h AND 0x8000) = 0 \<longleftrightarrow> unat h < 32768"
    using half_fields(1)[of h] by (auto simp: unat_eq_zero[symmetric] div_eq_0_iff)
  have z: "drop_bit 10 (h AND 0x7C00) = 0 \<longleftrightarrow> ?p < 1024"
    using half_fields(2)[of h] by (auto simp: unat_eq_zero[symmetric] e div_eq_0_iff)
  have v: "half_value h = (if unat h < 32768 then half_mag ?p else - half_mag ?p)"
    using unsigned_less[of h, where ?'a = nat] by (auto simp: half_value_def le_mod_geq)
  define x where "x = (if ?p < 1024 then rat_of_nat (?p mod 1024) else rat_of_nat (?p mod 1024 + 1024)) / 1024 * (2 ^ (?p div 1024) / 2 ^ 15)"
  have "poclu_cl_half_to_float h = Finite (if unat h < 32768 then x else - x)"
    unfolding poclu_cl_half_to_float_def Let_def x_def half_fields(2) s z not_False_eq_True
    using n s z by (simp only: if_False if_not_P simp_thms if_distrib[of unat] half_fields e cong: if_cong) simp
  moreover have "x = (if ?p div 1024 = 0 then half_mag ?p / 2 else half_mag ?p)"
    by (simp only: x_def half_mag_def div_eq_0_iff) (simp add: field_simps)
  ultimately show ?thesis unfolding v e by simp
qed

text \<open>A float that is a normal half comes back from the conversion to a half.\<close>

lemma exact_floats_survive:
  assumes n: "normal_range u" and r: "magnitude u mod 8192 = 0"
  shows "poclu_cl_half_to_float (poclu_float_to_cl_half u) = Finite (float_value u)"
proof -
  define t where "t = magnitude u div 8192 - 114688"
  have t: "1024 \<le> t" "t < 31744" using quotient_range(1,2)[OF n] by (simp_all add: t_def)
  have m: "magnitude u = 8192 * (magnitude u div 8192)" using r by (metis mod_eq_0_iff_dvd dvd_mult_div_cancel)
  have v: "float_mag (magnitude u) = half_mag t"
    unfolding t_def by (rule trans[OF arg_cong[OF m, of float_mag] float_half_mag[OF quotient_range(1)[OF n]]])
  have "magnitude u div 4096 mod 2 = 0" using div_mod_half[of "magnitude u"] r by simp
  then have h: "unat (poclu_float_to_cl_half u) = 32768 * negative u + t"
    using nearest_value[OF n] by (simp add: truncated_def t_def)
  have "half_value (poclu_float_to_cl_half u) = float_value u"
    using half_value_signed[OF h negative_le] t by (simp add: float_value_def v)
  moreover have "unat (poclu_float_to_cl_half u) div 1024 mod 32 = t div 1024"
  proof -
    have "(32768 * negative u + t) div 1024 = 32 * negative u + t div 1024" by simp
    moreover have "t div 1024 < 32" using t by (simp add: less_mult_imp_div_less)
    ultimately show ?thesis by (simp add: h)
  qed
  moreover have "1 \<le> t div 1024" "t div 1024 < 31" using t by (simp_all add: less_eq_div_iff_mult_less_eq less_mult_imp_div_less)
  ultimately show ?thesis using half_to_float[of "poclu_float_to_cl_half u"] by simp
qed

section \<open>Outside the normal range\<close>

text \<open>The ceiling of the float \<open>2 ^ -15 + 2 ^ -25\<close> is the half \<open>2 ^ -15\<close>, which is below it.\<close>

lemma ceil_rounds_down:
  "poclu_float_to_cl_half_ceil 0x38002000 = 0x0200 \<and> half_value 0x0200 < float_value 0x38002000"
  by (simp add: poclu_float_to_cl_half_ceil_def Let_def half_value_def float_value_def float_mag_def half_mag_def magnitude_def
    sign_bit_def exponent_bits_def)

text \<open>The nearest half of the float just below \<open>2 ^ -24\<close> is zero, whose distance is greater than that
  of the least denormal half; its ceiling is zero too.\<close>

lemma small_floats_vanish:
  "poclu_float_to_cl_half 0x337FFFFF = 0 \<and> poclu_float_to_cl_half_ceil 0x337FFFFF = 0 \<and>
    \<bar>half_value 1 - float_value 0x337FFFFF\<bar> < \<bar>half_value 0 - float_value 0x337FFFFF\<bar>"
  by (simp add: poclu_float_to_cl_half_ceil_def poclu_float_to_cl_half_def Let_def half_value_def float_value_def float_mag_def
    half_mag_def magnitude_def sign_bit_def exponent_bits_def)

text \<open>The least denormal half becomes half its value.\<close>

lemma denormal_halves_halved: "poclu_cl_half_to_float 1 = Finite (half_value 1 / 2) \<and> half_value 1 \<noteq> 0"
  using half_to_float[of 1] by (simp add: half_value_def half_mag_def)

lemma half_rounding_witness:
  "\<bar>half_value (poclu_float_to_cl_half 0x3F801000) - float_value 0x3F801000\<bar>
      \<le> \<bar>half_value 0x3C00 - float_value 0x3F801000\<bar> \<and>
    half_value (poclu_float_to_cl_half_floor 0x3F801000) \<le> float_value 0x3F801000 \<and>
    float_value 0x3F801000 \<le> half_value (poclu_float_to_cl_half_ceil 0x3F801000)"
proof -
  have "normal_range 0x3F801000" by (simp add: normal_range_def exponent_bits_def)
  moreover have "is_number 0x3C00" by (simp add: is_number_def)
  ultimately show ?thesis using half_rounding[of "0x3F801000"] by blast
qed

end
