(* ===== verification/C_Strings.thy ===== *)
theory C_Strings
  imports Prelude
begin

text \<open>
  What the runtime uses of the strings of the C library: the text before the null byte,
  \<open>strtok_r\<close> with the delimiter space, \<open>strstr\<close>, and the reading of numbers.
\<close>

text \<open>A C string at the start of an area: up to the first null, which has to come.\<close>

definition c_string :: "string \<Rightarrow> string" where
  "c_string a = takeWhile (\<lambda>c. c \<noteq> CHR 0x00) a"

definition c_strlen :: "string \<Rightarrow> nat prog" where
  "c_strlen a = (if CHR 0x00 \<in> set a then ok (length (c_string a)) else throw OutOfBounds)"

text \<open>\<open>strtok_r\<close> with the delimiter space.\<close>

lemma dropWhile_Cons_shorter: "dropWhile P s = c # cs \<Longrightarrow> length (dropWhile Q cs) < length s"
  using length_dropWhile_le[of P s] length_dropWhile_le[of Q cs] by simp

function tokens :: "string \<Rightarrow> string list" where
  "tokens s = (case dropWhile (\<lambda>c. c = CHR '' '') s of [] \<Rightarrow> []
     | c # cs \<Rightarrow> (c # takeWhile (\<lambda>c. c \<noteq> CHR '' '') cs) # tokens (dropWhile (\<lambda>c. c \<noteq> CHR '' '') cs))"
  by pat_completeness auto
termination by (relation "measure length") (simp_all only: in_measure dropWhile_Cons_shorter wf_measure)

definition starts_with :: "string \<Rightarrow> string \<Rightarrow> bool" where
  "starts_with p s \<longleftrightarrow> take (length p) s = p"

text \<open>\<open>strstr\<close>: the text from the first place where the word stands.\<close>

fun strstr :: "string \<Rightarrow> string \<Rightarrow> string option" where
  "strstr [] word = (if word = [] then Some [] else None)"
| "strstr (c # cs) word = (if take (length word) (c # cs) = word then Some (c # cs) else strstr cs word)"

section \<open>Numbers\<close>

definition is_space :: "char \<Rightarrow> bool" where
  "is_space c \<longleftrightarrow> c \<in> set [CHR '' '', CHR 0x09, CHR 0x0A, CHR 0x0B, CHR 0x0C, CHR 0x0D]"

definition is_digit :: "char \<Rightarrow> bool" where
  "is_digit c \<longleftrightarrow> 48 \<le> (of_char c :: int) \<and> (of_char c :: int) \<le> 57"

definition decimal_value :: "string \<Rightarrow> int" where
  "decimal_value ds = foldl (\<lambda>n c. 10 * n + (of_char c - 48)) 0 ds"

definition signed_text :: "string \<Rightarrow> int \<times> string" where
  "signed_text s = (case s of [] \<Rightarrow> (1, [])
     | c # cs \<Rightarrow> if c = CHR ''-'' then (-1, cs) else if c = CHR ''+'' then (1, cs) else (1, s))"

text \<open>\<open>atoi\<close>, and the conversion \<open>%d\<close> of \<open>sscanf\<close>, for values in the range of \<open>int\<close>.\<close>

definition atoi :: "string \<Rightarrow> int" where
  "atoi s = (let (sgn, t) = signed_text (dropWhile is_space s) in sgn * decimal_value (takeWhile is_digit t))"

definition scan_int :: "string \<Rightarrow> int option" where
  "scan_int s =
     (let (sgn, t) = signed_text (dropWhile is_space s); ds = takeWhile is_digit t
      in if ds = [] then None else Some (sgn * decimal_value ds))"

text \<open>The conversion \<open>: %d\<close> of \<open>sscanf\<close>.\<close>

definition scan_colon_int :: "string \<Rightarrow> int option" where
  "scan_colon_int s = (case s of [] \<Rightarrow> None | c # cs \<Rightarrow> if c = CHR '':'' then scan_int cs else None)"

section \<open>Tokens\<close>

declare tokens.simps [simp del]

lemma tokens_words: "t \<in> set (tokens s) \<Longrightarrow> t \<noteq> [] \<and> CHR '' '' \<notin> set t"
proof (induction s rule: tokens.induct)
  case (1 s)
  show ?case
  proof (cases "dropWhile (\<lambda>c. c = CHR '' '') s")
    case Nil
    then have "tokens s = []" by (subst tokens.simps) (simp only: list.case)
    then show ?thesis using "1.prems" by simp
  next
    case (Cons c cs)
    then have "c \<noteq> CHR '' ''" by (simp add: dropWhile_eq_Cons_conv)
    moreover have "CHR '' '' \<notin> set (takeWhile (\<lambda>c. c \<noteq> CHR '' '') cs)" by (blast dest: set_takeWhileD)
    moreover have "tokens s = (c # takeWhile (\<lambda>c. c \<noteq> CHR '' '') cs) # tokens (dropWhile (\<lambda>c. c \<noteq> CHR '' '') cs)"
      by (subst tokens.simps) (simp only: Cons list.case)
    ultimately show ?thesis using "1.prems" "1.IH"[OF Cons] by auto
  qed
qed

lemma tokens_Cons:
  assumes "t \<noteq> []" and "CHR '' '' \<notin> set t"
  shows "tokens (t @ '' '' @ s) = t # tokens s"
proof -
  obtain c cs where t: "t = c # cs" using assms(1) by (cases t) auto
  have c: "c \<noteq> CHR '' ''" and cs: "\<forall>x \<in> set cs. x \<noteq> CHR '' ''" using assms(2) by (auto simp: t)
  have d: "dropWhile (\<lambda>c. c = CHR '' '') (t @ '' '' @ s) = c # (cs @ CHR '' '' # s)" using c by (simp add: t)
  have w: "takeWhile (\<lambda>c. c \<noteq> CHR '' '') (cs @ CHR '' '' # s) = cs" "dropWhile (\<lambda>c. c \<noteq> CHR '' '') (cs @ CHR '' '' # s) = CHR '' '' # s"
    using cs by (simp_all add: takeWhile_append2 dropWhile_append2)
  have "tokens (CHR '' '' # s) = tokens s" by (simp only: tokens.simps[of "CHR '' '' # s"] tokens.simps[of s] dropWhile.simps simp_thms if_True)
  then show ?thesis by (subst tokens.simps) (simp only: d w list.case, simp only: t)
qed

lemma tokens_single: "t \<noteq> [] \<Longrightarrow> CHR '' '' \<notin> set t \<Longrightarrow> tokens t = [t]"
proof -
  assume t: "t \<noteq> []" "CHR '' '' \<notin> set t"
  obtain c cs where c: "t = c # cs" using t(1) by (cases t) auto
  have "c \<noteq> CHR '' ''" and cs: "\<forall>x \<in> set cs. x \<noteq> CHR '' ''" using t(2) by (auto simp: c)
  then have "dropWhile (\<lambda>c. c = CHR '' '') t = c # cs" by (simp add: c)
  moreover have "takeWhile (\<lambda>c. c \<noteq> CHR '' '') cs = cs" "dropWhile (\<lambda>c. c \<noteq> CHR '' '') cs = []"
    using cs by (simp_all add: takeWhile_eq_all_conv dropWhile_eq_Nil_conv)
  moreover have "tokens [] = []" by (simp add: tokens.simps)
  ultimately show ?thesis by (subst tokens.simps) (simp only: list.case c)
qed

abbreviation written_out :: "string list \<Rightarrow> string" where
  "written_out ws \<equiv> concat (map (\<lambda>t. t @ '' '') ws)"

lemma tokens_written_out: "\<forall>t \<in> set ws. t \<noteq> [] \<and> CHR '' '' \<notin> set t \<Longrightarrow> tokens (written_out ws) = ws"
proof (induction ws)
  case Nil
  show ?case by (simp add: tokens.simps)
next
  case (Cons t ws)
  then show ?case using tokens_Cons[of t "written_out ws"] by simp
qed

end
