(* ===== verification/Runtime_Config.thy ===== *)
theory Runtime_Config
  imports C_Strings
begin

text \<open>
  The configuration of the runtime (\<^verbatim>\<open>lib/CL/pocl_runtime_config.c\<close>): environment variables, each
  of which is read once and kept in a list. Every function returns the changed list.
\<close>

type_synonym env_cache = "(string \<times> string) list"

definition find_env :: "(string \<Rightarrow> string option) \<Rightarrow> env_cache \<Rightarrow> string \<Rightarrow> string option \<times> env_cache" where
  "find_env getenv cache key =
     (case find (\<lambda>ed. fst ed = key) cache of
        Some ed \<Rightarrow> (Some (snd ed), cache)
      | None \<Rightarrow> (case getenv key of Some value \<Rightarrow> (Some value, (key, value) # cache) | None \<Rightarrow> (None, cache)))"

definition pocl_is_option_set :: "(string \<Rightarrow> string option) \<Rightarrow> env_cache \<Rightarrow> string \<Rightarrow> bool \<times> env_cache" where
  "pocl_is_option_set getenv cache key = apfst (\<lambda>ed. ed \<noteq> None) (find_env getenv cache key)"

definition pocl_get_int_option :: "(string \<Rightarrow> string option) \<Rightarrow> env_cache \<Rightarrow> string \<Rightarrow> int \<Rightarrow> int \<times> env_cache" where
  "pocl_get_int_option getenv cache key default_value =
     apfst (\<lambda>ed. case ed of Some value \<Rightarrow> atoi value | None \<Rightarrow> default_value) (find_env getenv cache key)"

definition pocl_get_bool_option :: "(string \<Rightarrow> string option) \<Rightarrow> env_cache \<Rightarrow> string \<Rightarrow> bool \<Rightarrow> bool \<times> env_cache" where
  "pocl_get_bool_option getenv cache key default_value =
     apfst (\<lambda>ed. case ed of Some value \<Rightarrow> take 1 value = ''1'' | None \<Rightarrow> default_value) (find_env getenv cache key)"

definition pocl_get_string_option :: "(string \<Rightarrow> string option) \<Rightarrow> env_cache \<Rightarrow> string \<Rightarrow> string \<Rightarrow> string \<times> env_cache" where
  "pocl_get_string_option getenv cache key default_value =
     apfst (\<lambda>ed. case ed of Some value \<Rightarrow> value | None \<Rightarrow> default_value) (find_env getenv cache key)"

text \<open>What a variable counts as: its value in the list, or else in the environment.\<close>

definition env_value :: "(string \<Rightarrow> string option) \<Rightarrow> env_cache \<Rightarrow> string \<Rightarrow> string option" where
  "env_value getenv cache key = (case map_of cache key of Some v \<Rightarrow> Some v | None \<Rightarrow> getenv key)"

lemma find_map_of: "find (\<lambda>ed. fst ed = k) c = map_option (\<lambda>v. (k, v)) (map_of c k)"
  by (induction c) auto

lemma find_env_value [simp]: "fst (find_env getenv cache key) = env_value getenv cache key"
  by (simp add: find_env_def env_value_def find_map_of split: option.splits)

text \<open>Reading an option changes the value of none.\<close>

lemma env_value_stable [simp]: "env_value getenv (snd (find_env getenv cache k)) key = env_value getenv cache key"
  by (auto simp: find_env_def env_value_def find_map_of split: option.splits)

lemma options_stable [simp]:
  "env_value getenv (snd (pocl_get_bool_option getenv cache k b)) = env_value getenv cache"
  "env_value getenv (snd (pocl_get_int_option getenv cache k i)) = env_value getenv cache"
  "env_value getenv (snd (pocl_get_string_option getenv cache k v)) = env_value getenv cache"
  "env_value getenv (snd (pocl_is_option_set getenv cache k)) = env_value getenv cache"
  by (simp_all add: pocl_get_bool_option_def pocl_get_int_option_def pocl_get_string_option_def pocl_is_option_set_def fun_eq_iff)

lemma option_values [simp]:
  "fst (pocl_get_bool_option getenv cache k b) = (case env_value getenv cache k of Some v \<Rightarrow> take 1 v = ''1'' | None \<Rightarrow> b)"
  "fst (pocl_get_string_option getenv cache k w) = (case env_value getenv cache k of Some v \<Rightarrow> v | None \<Rightarrow> w)"
  by (simp_all add: pocl_get_bool_option_def pocl_get_string_option_def)

text \<open>A variable that has been read keeps its value, whatever becomes of the environment.\<close>

lemma options_remembered:
  assumes "env_value getenv cache key = Some v"
  shows "env_value getenv' (snd (find_env getenv cache key)) key = Some v"
  using assms by (auto simp: find_env_def env_value_def find_map_of split: option.splits)

end
