(* ===== verification/Cl_Programs.thy ===== *)
theory Cl_Programs
  imports Cl_Buffers Sha1 Runtime_Config
begin

text \<open>
  Programs and kernels: creating programs from sources and binaries
  (\<^verbatim>\<open>clCreateProgramWithSource.c\<close>, \<^verbatim>\<open>clCreateProgramWithBinary.c\<close>), building them with the
  cache of compiled programs on disk (\<^verbatim>\<open>clBuildProgram.c\<close>, the cache functions of
  \<^verbatim>\<open>pocl_util.c\<close>), and creating kernels (\<^verbatim>\<open>clCreateKernel.c\<close>,
  \<^verbatim>\<open>clCreateKernelsInProgram.c\<close>). Clang and LLVM are parameters.
\<close>

abbreviation CL_BUILD_PROGRAM_FAILURE :: int where "CL_BUILD_PROGRAM_FAILURE \<equiv> -11"
abbreviation CL_INVALID_BUILD_OPTIONS :: int where "CL_INVALID_BUILD_OPTIONS \<equiv> -43"
abbreviation CL_INVALID_PROGRAM_EXECUTABLE :: int where "CL_INVALID_PROGRAM_EXECUTABLE \<equiv> -45"
abbreviation CL_INVALID_KERNEL_NAME :: int where "CL_INVALID_KERNEL_NAME \<equiv> -46"
abbreviation CL_INVALID_OPERATION :: int where "CL_INVALID_OPERATION \<equiv> -59"

section \<open>Programs\<close>

datatype build_status = CL_BUILD_NONE | CL_BUILD_SUCCESS | CL_BUILD_ERROR

text \<open>
  The fields of a program beside its references: a table gives them for each program. An array is a
  list, a null pointer \<open>None\<close>; \<open>source\<close> is without the null the code puts behind it. \<open>'ir\<close> is the type
  of the modules of LLVM.
\<close>

record 'ir program_fields =
  source :: "string option"
  compiler_options :: "string option"
  prog_devices :: "nat list"
  binary_sizes :: "nat list option"
  binaries :: "byte list option list option"
  llvm_irs :: "'ir option list option"
  cache_dir :: "string option"
  build_hash :: "byte list"
  build_status :: build_status

type_synonym 'ir program_table = "nat \<Rightarrow> 'ir program_fields option"

section \<open>Programs from sources\<close>

text \<open>The length the caller gives for the string of an index: none when the table is null or has 0.\<close>

definition given_length :: "size_t list option \<Rightarrow> nat \<Rightarrow> size_t option prog" where
  "given_length lengths i =
     (case lengths of None \<Rightarrow> ok None
      | Some l \<Rightarrow> if i < length l then ok (if l ! i = 0 then None else Some (l ! i)) else throw OutOfBounds)"

text \<open>The sum of the lengths; \<open>None\<close> when a string is null.\<close>

fun source_size :: "string option list \<Rightarrow> size_t list option \<Rightarrow> nat list \<Rightarrow> u32 \<Rightarrow> u32 option prog" where
  "source_size strings lengths [] sz = ok (Some sz)"
| "source_size strings lengths (i # is) sz =
     (if i \<ge> length strings then throw OutOfBounds
      else case strings ! i of None \<Rightarrow> ok None | Some a \<Rightarrow>
      andthen (given_length lengths i) (\<lambda>n.
      case n of Some k \<Rightarrow> source_size strings lengths is (sz + k)
      | None \<Rightarrow> andthen (c_strlen a) (\<lambda>k. source_size strings lengths is (sz + of_nat k))))"

text \<open>\<open>memcpy\<close> of \<open>n\<close> bytes of \<open>a\<close> behind what is written to an area of \<open>room\<close> bytes.\<close>

definition copy_behind :: "nat \<Rightarrow> string \<Rightarrow> string \<Rightarrow> nat \<Rightarrow> string prog" where
  "copy_behind room written a n =
     (if n \<le> length a \<and> length written + n \<le> room then ok (written @ take n a) else throw OutOfBounds)"

fun copy_sources :: "string option list \<Rightarrow> size_t list option \<Rightarrow> nat list \<Rightarrow> nat \<Rightarrow> string \<Rightarrow> string prog" where
  "copy_sources strings lengths [] room written = ok written"
| "copy_sources strings lengths (i # is) room written =
     (if i \<ge> length strings then throw OutOfBounds
      else case strings ! i of None \<Rightarrow> throw NullDeref | Some a \<Rightarrow>
      andthen (given_length lengths i) (\<lambda>n.
      andthen (case n of Some k \<Rightarrow> ok (unat k) | None \<Rightarrow> c_strlen a) (\<lambda>k.
      andthen (copy_behind room written a k) (\<lambda>w. copy_sources strings lengths is room w))))"

text \<open>
  \<open>ca\<close> is the object \<open>malloc\<close> gives and \<open>has_room\<close> whether the area of the source is allocated; \<open>junk\<close>
  are the fields that are not written.
\<close>

definition clCreateProgramWithSource ::
  "nat option \<Rightarrow> bool \<Rightarrow> 'ir program_fields \<Rightarrow> nat option \<Rightarrow> nat \<Rightarrow> string option list \<Rightarrow> size_t list option \<Rightarrow>
   'ir program_table \<times> cl_state \<Rightarrow> (nat option \<times> int \<times> 'ir program_table \<times> cl_state) prog" where
  "clCreateProgramWithSource ca has_room junk context count strings lengths = (\<lambda>(T, s).
     if count = 0 then ok (None, CL_INVALID_VALUE, T, s)
     else case ca of None \<Rightarrow> ok (None, CL_OUT_OF_HOST_MEMORY, T, s) | Some p \<Rightarrow>
     andthen (source_size strings lengths [0..<count] 0) (\<lambda>r.
     case r of None \<Rightarrow> ok (None, CL_INVALID_VALUE, T, s) | Some sz \<Rightarrow>
     if \<not> has_room then ok (None, CL_OUT_OF_HOST_MEMORY, T, s)
     else andthen (copy_sources strings lengths [0..<count] (unat (sz + 1)) []) (\<lambda>w.
          if length w \<ge> unat (sz + 1) then throw OutOfBounds
          else case context of None \<Rightarrow> throw NullDeref | Some c \<Rightarrow>
          andthen (fetch (contexts s) c) (\<lambda>C.
          andthen (retain_context c (put_program p \<lparr>p_refcount = 1, p_context = c, p_kernels = None\<rparr> s)) (\<lambda>s1.
          ok (Some p, CL_SUCCESS,
              T(p \<mapsto> junk\<lparr>source := Some w, compiler_options := None, prog_devices := ctx_devices C,
                         binary_sizes := None, binaries := None, llvm_irs := None, cache_dir := None,
                         build_status := CL_BUILD_NONE\<rparr>), s1))))))"

section \<open>Programs from binaries\<close>

text \<open>\<open>lengths\<close> and \<open>binaries\<close> are arrays of the caller.\<close>

fun binaries_size :: "size_t list \<Rightarrow> byte list option list \<Rightarrow> nat list \<Rightarrow> u32 \<Rightarrow> u32 option prog" where
  "binaries_size lengths bins [] tot = ok (Some tot)"
| "binaries_size lengths bins (i # is) tot =
     (if i \<ge> length lengths then throw OutOfBounds
      else if lengths ! i = 0 then ok None
      else if i \<ge> length bins then throw OutOfBounds
      else if bins ! i = None then ok None
      else binaries_size lengths bins is (tot + lengths ! i))"

fun copy_binaries :: "size_t list \<Rightarrow> byte list option list \<Rightarrow> nat list \<Rightarrow> nat \<Rightarrow> byte list list prog" where
  "copy_binaries lengths bins [] room = ok []"
| "copy_binaries lengths bins (i # is) room =
     (let n = unat (lengths ! i); a = the (bins ! i)
      in if n \<le> length a \<and> n \<le> room
         then andthen (copy_binaries lengths bins is (room - n)) (\<lambda>rest. ok (take n a # rest))
         else throw OutOfBounds)"

text \<open>
  \<open>mallocs\<close> tells whether all tables could be allocated. The result has the table of statuses that
  the caller may ask for.
\<close>

definition clCreateProgramWithBinary ::
  "nat option \<Rightarrow> bool \<Rightarrow> nat \<Rightarrow> 'ir program_fields \<Rightarrow> nat option \<Rightarrow> nat \<Rightarrow> nat list option \<Rightarrow> size_t list option \<Rightarrow>
   byte list option list \<Rightarrow> bool \<Rightarrow> 'ir program_table \<times> cl_state \<Rightarrow>
   (nat option \<times> int \<times> int list option \<times> 'ir program_table \<times> cl_state) prog" where
  "clCreateProgramWithBinary ca mallocs pocl_devices junk context num_devices device_list lengths bins wants_status = (\<lambda>(T, s).
     case context of None \<Rightarrow> ok (None, CL_INVALID_CONTEXT, None, T, s) | Some c \<Rightarrow>
     case device_list of None \<Rightarrow> ok (None, CL_INVALID_VALUE, None, T, s) | Some ds \<Rightarrow>
     if num_devices = 0 then ok (None, CL_INVALID_VALUE, None, T, s)
     else case lengths of None \<Rightarrow> ok (None, CL_INVALID_VALUE, None, T, s) | Some ls \<Rightarrow>
     andthen (binaries_size ls bins [0..<num_devices] 0) (\<lambda>r.
     case r of None \<Rightarrow> ok (None, CL_INVALID_VALUE, None, T, s) | Some tot \<Rightarrow>
     andthen (fetch (contexts s) c) (\<lambda>C.
     if length ds < num_devices then throw OutOfBounds
     else let given = take num_devices ds in
     if \<not> set given \<subseteq> set (ctx_devices C) then ok (None, CL_INVALID_DEVICE, None, T, s)
     else if \<exists>d \<in> set (ctx_devices C). length (filter (\<lambda>d'. d' = d) given) > 1
     then ok (None, CL_INVALID_DEVICE, None, T, s)
     else case ca of None \<Rightarrow> ok (None, CL_OUT_OF_HOST_MEMORY, None, T, s) | Some p \<Rightarrow>
     if \<not> mallocs then ok (None, CL_OUT_OF_HOST_MEMORY, None, T, s)
     else if pocl_devices < num_devices then throw OutOfBounds
     else andthen (copy_binaries ls bins [0..<num_devices] (unat tot)) (\<lambda>bs.
          andthen (retain_context c (put_program p \<lparr>p_refcount = 1, p_context = c, p_kernels = None\<rparr> s)) (\<lambda>s1.
          ok (Some p, CL_SUCCESS, if wants_status then Some (replicate num_devices CL_SUCCESS) else None,
              T(p \<mapsto> junk\<lparr>source := None, compiler_options := None, prog_devices := given,
                         binary_sizes := Some (map (\<lambda>i. unat (ls ! i)) [0..<num_devices]),
                         binaries := Some (map Some bs), llvm_irs := Some (replicate pocl_devices None),
                         cache_dir := None, build_status := CL_BUILD_NONE\<rparr>), s1))))))"

section \<open>The options of a build\<close>

definition cl_parameters :: string where
  "cl_parameters = ''-cl-single-precision-constant -cl-fp32-correctly-rounded-divide-sqrt -cl-opt-disable '' @
     ''-cl-mad-enable -cl-unsafe-math-optimizations -cl-finite-math-only -cl-fast-relaxed-math '' @
     ''-cl-std=CL1.2 -cl-std=CL1.1 -cl-kernel-arg-info -w -g ''"

definition cl_parameters_not_yet_supported_by_clang :: string where
  "cl_parameters_not_yet_supported_by_clang = ''-cl-strict-aliasing -cl-denorms-are-zero -cl-no-signed-zeros ''"

text \<open>
  The buffer of the accepted options: its size, the counter \<open>i\<close>, and the string in it. A buffer that
  is too small grows once by 256.
\<close>

type_synonym option_buffer = "nat \<times> nat \<times> string"

definition append_option :: "string \<Rightarrow> option_buffer \<Rightarrow> option_buffer prog" where
  "append_option token = (\<lambda>(sz, i, out).
     let sz = (if sz \<le> i + (length token + 1) then sz + 256 else sz)
     in if length out + length token + 2 \<le> sz then ok (sz, i + (length token + 1), out @ token @ '' '')
        else throw OutOfBounds)"

definition is_cl_option :: "string \<Rightarrow> bool" where
  "is_cl_option token \<longleftrightarrow> starts_with ''-cl'' token \<or> starts_with ''-w'' token \<or> starts_with ''-g'' token"

definition is_preprocessor_option :: "string \<Rightarrow> bool" where
  "is_preprocessor_option token \<longleftrightarrow> starts_with ''-D'' token \<or> starts_with ''-I'' token"

text \<open>The loop over the tokens; \<open>None\<close> for an option that is not known.\<close>

function parse_options :: "string list \<Rightarrow> option_buffer \<Rightarrow> string option prog" where
  "parse_options [] b = ok (Some (snd (snd b)))"
| "parse_options (token # ts) b =
     (if is_cl_option token
      then if strstr cl_parameters token \<noteq> None then andthen (append_option token b) (parse_options ts)
           else if strstr cl_parameters_not_yet_supported_by_clang token \<noteq> None then parse_options ts b
           else ok None
      else if is_preprocessor_option token
      then andthen (append_option token b) (\<lambda>b'.
             if length token = 2
             then case ts of [] \<Rightarrow> throw NullDeref
                  | token' # ts' \<Rightarrow> andthen (append_option token' b') (parse_options ts')
             else parse_options ts b')
      else ok None)"
  by pat_completeness auto
termination by (relation "measure (\<lambda>(ts, b). length ts)") auto

definition modded_options :: "string \<Rightarrow> string option prog" where
  "modded_options options = parse_options (tokens options) (512, 1, [])"

section \<open>The cache on disk\<close>

text \<open>
  The directories and the files, and the list of options read. An environment tells the values of the
  variables, what may be created or written, the directory name of each device, whether allocations
  succeed, and stands for the functions of the compiler: \<open>compile\<close> for \<open>pocl_llvm_build_program\<close>,
  which answers the module and the bitcode it writes, and \<open>parse_ir\<close> for \<open>ParseIRFile\<close>.
\<close>

record host =
  directory :: "string \<Rightarrow> bool"
  contents :: "string \<Rightarrow> byte list option"
  env_cache :: env_cache

record 'ir build_setting =
  getenv :: "string \<Rightarrow> string option"
  may_write :: "string \<Rightarrow> bool"
  may_make :: "string \<Rightarrow> bool"
  may_create :: "string \<Rightarrow> bool"
  cache_dir_name :: "nat \<Rightarrow> string"
  hash_parts :: build_environment
  hash_junk :: "byte list"
  failing_table :: "nat option"           \<comment>\<open>which of the three tables cannot be allocated\<close>
  binary_malloc :: "nat \<Rightarrow> bool"
  compile :: "nat \<Rightarrow> string \<Rightarrow> string \<Rightarrow> ('ir \<times> byte list) option"
  parse_ir :: "byte list \<Rightarrow> 'ir option"

text \<open>\<open>snprintf (buf, n, "%s/%s", a, b)\<close>, \<open>access (p, F_OK)\<close>, \<open>mkdir\<close> and \<open>rm -fr\<close>.\<close>

definition join_path :: "nat \<Rightarrow> string \<Rightarrow> string \<Rightarrow> string" where
  "join_path n a b = take (n - 1) (a @ ''/'' @ b)"

abbreviation POCL_FILENAME_LENGTH :: nat where "POCL_FILENAME_LENGTH \<equiv> 1024"
abbreviation CACHE_DIR_PATH_CHARS :: nat where "CACHE_DIR_PATH_CHARS \<equiv> 512"

definition exists_path :: "host \<Rightarrow> string \<Rightarrow> bool" where
  "exists_path h p \<longleftrightarrow> directory h p \<or> contents h p \<noteq> None"

definition make_directory :: "'ir build_setting \<Rightarrow> string \<Rightarrow> host \<Rightarrow> host" where
  "make_directory E p h =
     (if \<not> exists_path h p \<and> may_make E p then h\<lparr>directory := (directory h)(p := True)\<rparr> else h)"

definition below :: "string \<Rightarrow> string \<Rightarrow> bool" where
  "below p q \<longleftrightarrow> q = p \<or> starts_with (p @ ''/'') q"

definition pocl_remove_directory :: "string \<Rightarrow> host \<Rightarrow> host" where
  "pocl_remove_directory p h =
     h\<lparr>directory := (\<lambda>q. directory h q \<and> \<not> below p q), contents := (\<lambda>q. if below p q then None else contents h q)\<rparr>"

definition pocl_touch_file :: "'ir build_setting \<Rightarrow> string \<Rightarrow> host \<Rightarrow> host prog" where
  "pocl_touch_file E p h =
     (if exists_path h p then ok h
      else if may_create E p then ok (h\<lparr>contents := (contents h)(p \<mapsto> [])\<rparr>)
      else throw NullDeref)"

text \<open>\<open>sprintf ("%02x")\<close> of every byte of the hash.\<close>

definition hex_digit :: "nat \<Rightarrow> char" where
  "hex_digit n = ''0123456789abcdef'' ! n"

definition hash_str :: "byte list \<Rightarrow> string" where
  "hash_str h = concat (map (\<lambda>b. [hex_digit (unat b div 16), hex_digit (unat b mod 16)]) h)"

definition home_cache_path :: "'ir build_setting \<Rightarrow> byte list \<Rightarrow> string" where
  "home_cache_path E hash =
     (case getenv E ''HOME'' of
        Some t \<Rightarrow> join_path CACHE_DIR_PATH_CHARS (t @ ''/.pocl/kcache'') (hash_str hash)
      | None \<Rightarrow> join_path CACHE_DIR_PATH_CHARS ''/tmp/pocl/kcache'' (hash_str hash))"

definition pocl_create_program_cache_dir :: "'ir build_setting \<Rightarrow> byte list \<Rightarrow> host \<Rightarrow> string \<times> host" where
  "pocl_create_program_cache_dir E hash h =
     (let path = (case getenv E ''POCL_CACHE_DIR'' of
                    Some t \<Rightarrow> if may_write E t then join_path CACHE_DIR_PATH_CHARS t (hash_str hash) else home_cache_path E hash
                  | None \<Rightarrow> home_cache_path E hash)
      in (path, make_directory E path h))"

text \<open>The scan of a source for \<open># include\<close>.\<close>

fun has_include :: "string \<Rightarrow> bool" where
  "has_include [] = False"
| "has_include (c # cs) =
     ((c = CHR ''#'' \<and> starts_with ''include'' (dropWhile (\<lambda>x. x = CHR '' '') cs)) \<or> has_include cs)"

definition pocl_check_and_invalidate_cache :: "'ir build_setting \<Rightarrow> string option \<Rightarrow> string \<Rightarrow> host \<Rightarrow> host" where
  "pocl_check_and_invalidate_cache E src dir h =
     (let (use, c) = pocl_get_bool_option (getenv E) (env_cache h) ''POCL_KERNEL_CACHE'' True;
          (ignore, c') = (if use then pocl_get_bool_option (getenv E) c ''POCL_KERNEL_CACHE_IGNORE_INCLUDES'' False
                          else (False, c));
          dirty = (\<not> use \<or> \<not> ignore \<and> (case src of Some a \<Rightarrow> has_include (c_string a) | None \<Rightarrow> False));
          h = h\<lparr>env_cache := c'\<rparr>
      in if dirty then make_directory E dir (pocl_remove_directory dir h) else h)"

section \<open>Building\<close>

definition at :: "'a list option \<Rightarrow> nat \<Rightarrow> 'a prog" where
  "at t i = (case t of None \<Rightarrow> throw NullDeref | Some l \<Rightarrow> if i < length l then ok (l ! i) else throw OutOfBounds)"

text \<open>
  The file \<open>program.bc\<close> of one device: if it can be created, it is filled by the compiler or with the
  binary of the program. The answer is whether that succeeded.
\<close>

definition fill_cache ::
  "'ir build_setting \<Rightarrow> string \<Rightarrow> nat \<Rightarrow> nat \<Rightarrow> string \<Rightarrow> 'ir program_fields \<Rightarrow> host \<Rightarrow> (bool \<times> 'ir program_fields \<times> host) prog" where
  "fill_cache E user_options device_i d bc p h =
     (if exists_path h bc \<or> \<not> may_create E bc then ok (True, p, h)
      else case source p of
        Some src \<Rightarrow> (case compile E d (c_string src) user_options of
            None \<Rightarrow> ok (False, p, h)
          | Some (ir, code) \<Rightarrow> andthen (at (llvm_irs p) device_i) (\<lambda>_.
              ok (True, p\<lparr>llvm_irs := Some ((the (llvm_irs p))[device_i := Some ir])\<rparr>,
                  h\<lparr>contents := (contents h)(bc \<mapsto> code)\<rparr>)))
      | None \<Rightarrow> andthen (at (binaries p) device_i) (\<lambda>b.
          case b of
            Some a \<Rightarrow> andthen (at (binary_sizes p) device_i) (\<lambda>n.
              ok (True, p, h\<lparr>contents := (contents h)(bc \<mapsto> take n a)\<rparr>))
          | None \<Rightarrow> ok (True, p, h\<lparr>contents := (contents h)(bc \<mapsto> [])\<rparr>)))"

text \<open>The binary read back into memory, unless there is one.\<close>

definition read_binary ::
  "'ir build_setting \<Rightarrow> nat \<Rightarrow> string \<Rightarrow> 'ir program_fields \<Rightarrow> host \<Rightarrow> (bool \<times> 'ir program_fields) prog" where
  "read_binary E device_i bc p h =
     andthen (at (binaries p) device_i) (\<lambda>b.
     if b \<noteq> None then ok (True, p)
     else case contents h bc of None \<Rightarrow> ok (False, p) | Some code \<Rightarrow>
     andthen (at (binary_sizes p) device_i) (\<lambda>_.
     let p = p\<lparr>binary_sizes := Some ((the (binary_sizes p))[device_i := length code])\<rparr>
     in if \<not> binary_malloc E device_i then ok (False, p)
        else ok (True, p\<lparr>binaries := Some ((the (binaries p))[device_i := Some code])\<rparr>)))"

text \<open>The module of a device is kept by the number of the device in the system.\<close>

definition update_ir ::
  "'ir build_setting \<Rightarrow> nat \<Rightarrow> string \<Rightarrow> 'ir program_fields \<Rightarrow> host \<Rightarrow> 'ir program_fields prog" where
  "update_ir E d bc p h =
     andthen (at (llvm_irs p) d) (\<lambda>ir.
     if ir \<noteq> None then ok p
     else ok (p\<lparr>llvm_irs := Some ((the (llvm_irs p))[d := Option.bind (contents h bc) (parse_ir E)])\<rparr>))"

text \<open>The loop over the devices, with the status that ends it.\<close>

fun build_devices ::
  "'ir build_setting \<Rightarrow> string \<Rightarrow> nat \<Rightarrow> nat list \<Rightarrow> 'ir program_fields \<Rightarrow> host \<Rightarrow> (int \<times> 'ir program_fields \<times> host) prog" where
  "build_devices E user_options device_i [] p h = ok (CL_SUCCESS, p, h)"
| "build_devices E user_options device_i (d # ds) p h =
     (let dir = join_path POCL_FILENAME_LENGTH (the (cache_dir p)) (cache_dir_name E d);
          h = pocl_check_and_invalidate_cache E (source p) dir (make_directory E dir h);
          bc = join_path POCL_FILENAME_LENGTH dir ''program.bc''
      in andthen (fill_cache E user_options device_i d bc p h) (\<lambda>(filled, p, h).
         if \<not> filled then ok (CL_BUILD_PROGRAM_FAILURE, p, h)
         else andthen (read_binary E device_i bc p h) (\<lambda>(complete, p).
         if \<not> complete then ok (CL_OUT_OF_HOST_MEMORY, p, h)
         else andthen (update_ir E d bc p h) (\<lambda>p.
         build_devices E user_options (device_i + 1) ds p h))))"

text \<open>The fields set before the devices are built: the hash and its directory, and fresh tables.\<close>

definition prepare_build :: "'ir build_setting \<Rightarrow> 'ir program_fields \<Rightarrow> host \<Rightarrow> ('ir program_fields \<times> host) option" where
  "prepare_build E p h =
     (let (wg, c) = pocl_get_string_option (getenv E) (env_cache h) ''POCL_WORK_GROUP_METHOD'' []
      in case build_program_compute_hash ((hash_parts E)\<lparr>wg_method := map of_char wg\<rparr>) (hash_junk E)
           (map_option (map of_char \<circ> c_string) (source p))
           (map (\<lambda>b. case b of Some a \<Rightarrow> a | None \<Rightarrow> []) (case binaries p of Some bs \<Rightarrow> bs | None \<Rightarrow> []))
           (map_option (map of_char) (compiler_options p)) of
         None \<Rightarrow> None
       | Some hash \<Rightarrow>
           let (cd, h) = pocl_create_program_cache_dir E hash (h\<lparr>env_cache := c\<rparr>)
           in Some (p\<lparr>build_hash := hash, cache_dir := Some cd\<rparr>, h))"

definition fresh_tables :: "nat \<Rightarrow> 'ir program_fields \<Rightarrow> 'ir program_fields" where
  "fresh_tables n p =
     (if source p = None then p
      else p\<lparr>binary_sizes := Some (replicate n 0), binaries := Some (replicate n None), llvm_irs := Some (replicate n None)\<rparr>)"

definition set_options :: "string option \<Rightarrow> (string \<times> string option) option prog" where
  "set_options options =
     (case options of None \<Rightarrow> ok (Some ([], None))
      | Some s \<Rightarrow> andthen (modded_options s) (\<lambda>r. ok (map_option (\<lambda>m. (m, Some m)) r)))"

text \<open>The build once its arguments are checked.\<close>

definition build_failed :: "int \<Rightarrow> nat \<Rightarrow> 'ir program_fields \<Rightarrow> 'ir program_table \<times> host \<times> cl_state \<Rightarrow>
    (int \<times> 'ir program_table \<times> host \<times> cl_state) prog" where
  "build_failed err i p = (\<lambda>(T, h, s). ok (err, T(i \<mapsto> p\<lparr>build_status := CL_BUILD_ERROR\<rparr>), h, s))"

definition run_build ::
  "'ir build_setting \<Rightarrow> string \<Rightarrow> nat list \<Rightarrow> nat \<Rightarrow> 'ir program_fields \<Rightarrow> 'ir program_table \<times> host \<times> cl_state \<Rightarrow>
   (int \<times> 'ir program_table \<times> host \<times> cl_state) prog" where
  "run_build E user_options ds i p = (\<lambda>(T, h, s).
     let clean = (\<lambda>p. p\<lparr>binaries := None, binary_sizes := None\<rparr>) in
     case prepare_build E p h of None \<Rightarrow> None | Some (p, h) \<Rightarrow>
     if source p \<noteq> None \<and> failing_table E \<noteq> None
     then build_failed CL_OUT_OF_HOST_MEMORY i (clean (if failing_table E = Some 2 then p\<lparr>llvm_irs := None\<rparr> else p)) (T, h, s)
     else andthen (build_devices E user_options 0 ds (fresh_tables (length ds) p) h) (\<lambda>(err, p, h).
          if err \<noteq> CL_SUCCESS then build_failed err i (clean p) (T, h, s)
          else andthen (pocl_touch_file E (join_path POCL_FILENAME_LENGTH (the (cache_dir p)) ''last_accessed'') h) (\<lambda>h.
               ok (CL_SUCCESS, T(i \<mapsto> p\<lparr>build_status := CL_BUILD_SUCCESS\<rparr>), h, s))))"

definition real_devices :: "'ir program_fields \<Rightarrow> nat \<Rightarrow> nat list option \<Rightarrow> nat list prog" where
  "real_devices p num_devices device_list =
     (if num_devices = 0 then ok (prog_devices p)
      else if num_devices \<le> length (the device_list) then ok (take num_devices (the device_list)) else throw OutOfBounds)"

definition clBuildProgram ::
  "'ir build_setting \<Rightarrow> nat option \<Rightarrow> nat \<Rightarrow> nat list option \<Rightarrow> string option \<Rightarrow> bool \<Rightarrow> bool \<Rightarrow>
   'ir program_table \<times> host \<times> cl_state \<Rightarrow> (int \<times> 'ir program_table \<times> host \<times> cl_state) prog" where
  "clBuildProgram E program num_devices device_list options has_notify has_user_data = (\<lambda>(T, h, s).
     case program of None \<Rightarrow> throw NullDeref | Some i \<Rightarrow>
     andthen (fetch (programs s) i) (\<lambda>P.
     andthen (fetch T i) (\<lambda>p.
     if \<not> has_notify \<and> has_user_data then build_failed CL_INVALID_VALUE i p (T, h, s)
     else if p_kernels P \<noteq> None then build_failed CL_INVALID_OPERATION i p (T, h, s)
     else andthen (set_options options) (\<lambda>r.
     case r of None \<Rightarrow> build_failed CL_INVALID_BUILD_OPTIONS i p (T, h, s) | Some (user_options, copts) \<Rightarrow>
     let p = p\<lparr>compiler_options := copts\<rparr> in
     if source p = None \<and> binaries p = None then build_failed CL_INVALID_PROGRAM i p (T, h, s)
     else if num_devices > 0 \<and> device_list = None \<or> num_devices = 0 \<and> device_list \<noteq> None
     then build_failed CL_INVALID_VALUE i p (T, h, s)
     else andthen (real_devices p num_devices device_list) (\<lambda>ds. run_build E user_options ds i p (T, h, s))))))"

text \<open>Releasing a program: with the last reference its fields go, and its cache unless it is to stay.\<close>

definition releaseProgram :: "'ir build_setting \<Rightarrow> nat option \<Rightarrow> 'ir program_table \<times> host \<times> cl_state \<Rightarrow>
    (int \<times> 'ir program_table \<times> host \<times> cl_state) prog" where
  "releaseProgram E program = (\<lambda>(T, h, s).
     andthen (clReleaseProgram program s) (\<lambda>(err, s').
     case program of None \<Rightarrow> ok (err, T, h, s') | Some i \<Rightarrow>
     if programs s' i \<noteq> None then ok (err, T, h, s')
     else andthen (fetch T i) (\<lambda>p.
       let (use, c) = pocl_get_bool_option (getenv E) (env_cache h) ''POCL_KERNEL_CACHE'' True;
           (leave, c') = (if use then (False, c)
                          else pocl_get_bool_option (getenv E) c ''POCL_LEAVE_KERNEL_COMPILER_TEMP_FILES'' False);
           h = h\<lparr>env_cache := c'\<rparr>
       in ok (err, T(i := None),
              case cache_dir p of Some cd \<Rightarrow> if \<not> use \<and> \<not> leave then pocl_remove_directory cd h else h | None \<Rightarrow> h, s'))))"

section \<open>Kernels\<close>

text \<open>
  What LLVM says of a kernel: for each argument its type and whether it is in local memory, and the
  sizes of its automatic local variables. \<open>G\<close> looks a kernel up in a module.
\<close>

type_synonym kernel_metadata = "(pocl_argument_type \<times> bool) list \<times> size_t list"

definition pocl_llvm_get_kernel_metadata ::
  "('ir \<Rightarrow> string \<Rightarrow> kernel_metadata option) \<Rightarrow> 'ir program_fields \<Rightarrow> cl_kernel \<Rightarrow> nat \<Rightarrow> string \<Rightarrow> (int \<times> cl_kernel) prog" where
  "pocl_llvm_get_kernel_metadata G p k d kernel_name =
     (if d \<ge> length (prog_devices p) then throw OutOfBounds
      else if llvm_irs p = None then ok (CL_INVALID_PROGRAM_EXECUTABLE, k)
      else andthen (at (llvm_irs p) d) (\<lambda>ir.
      case ir of None \<Rightarrow> ok (CL_INVALID_PROGRAM_EXECUTABLE, k) | Some input \<Rightarrow>
      case G input kernel_name of None \<Rightarrow> ok (CL_INVALID_KERNEL_NAME, k) | Some (args, locals) \<Rightarrow>
      ok (CL_SUCCESS,
          k\<lparr>num_args := length args, num_locals := length locals,
            dyn_arguments := replicate (length args) \<lparr>arg_size = 0, arg_val = None\<rparr> @
                             map (\<lambda>n. \<lparr>arg_size = n, arg_val = None\<rparr>) locals,
            arg_info := map (\<lambda>(t, l). \<lparr>arg_type = t, is_local = l, is_set = False\<rparr>) args\<rparr>)))"

text \<open>The loop over the devices: all but the first take a reference.\<close>

fun kernel_on_devices ::
  "'ir build_setting \<Rightarrow> ('ir \<Rightarrow> string \<Rightarrow> kernel_metadata option) \<Rightarrow> string \<Rightarrow> 'ir program_fields \<Rightarrow> host \<Rightarrow> nat \<Rightarrow> nat list \<Rightarrow>
   cl_kernel \<Rightarrow> (int \<times> cl_kernel) prog" where
  "kernel_on_devices E G kernel_name p h device_i [] k = ok (CL_SUCCESS, k)"
| "kernel_on_devices E G kernel_name p h device_i (d # ds) k =
     (let k = (if device_i > 0 then k\<lparr>k_refcount := k_refcount k + 1\<rparr> else k)
      in case cache_dir p of None \<Rightarrow> throw NullDeref | Some cd \<Rightarrow>
      if \<not> exists_path h (join_path POCL_FILENAME_LENGTH cd (cache_dir_name E d))
      then kernel_on_devices E G kernel_name p h (device_i + 1) ds k
      else andthen (pocl_llvm_get_kernel_metadata G p k d kernel_name) (\<lambda>(err, k).
           if err \<noteq> CL_SUCCESS then ok (err, k) else kernel_on_devices E G kernel_name p h (device_i + 1) ds k))"

text \<open>\<open>ca\<close> is the object \<open>malloc\<close> gives and \<open>junk\<close> what it contains.\<close>

definition clCreateKernel ::
  "'ir build_setting \<Rightarrow> ('ir \<Rightarrow> string \<Rightarrow> kernel_metadata option) \<Rightarrow> nat option \<Rightarrow> cl_kernel \<Rightarrow> nat option \<Rightarrow> string option \<Rightarrow>
   'ir program_table \<times> host \<times> cl_state \<Rightarrow> (nat option \<times> int \<times> cl_state) prog" where
  "clCreateKernel E G ca junk program kernel_name = (\<lambda>(T, h, s).
     case kernel_name of None \<Rightarrow> ok (None, CL_INVALID_VALUE, s) | Some name \<Rightarrow>
     case program of None \<Rightarrow> ok (None, CL_INVALID_VALUE, s) | Some i \<Rightarrow>
     andthen (fetch T i) (\<lambda>p.
     if prog_devices p = [] then ok (None, CL_INVALID_PROGRAM, s)
     else if binaries p = None \<or> binary_sizes p = None then ok (None, CL_INVALID_PROGRAM_EXECUTABLE, s)
     else case ca of None \<Rightarrow> ok (None, CL_OUT_OF_HOST_MEMORY, s) | Some k \<Rightarrow>
     andthen (kernel_on_devices E G name p h 0 (prog_devices p) (junk\<lparr>k_refcount := 1\<rparr>)) (\<lambda>(err, K).
     if err \<noteq> CL_SUCCESS then ok (None, err, s)
     else andthen (fetch (programs s) i) (\<lambda>P.
          andthen (retain_program i (put_program i (P\<lparr>p_kernels := Some k\<rparr>)
                    (put_kernel k (K\<lparr>k_context := p_context P, k_program := Some i\<rparr>)
                      (s\<lparr>kernel_next := (kernel_next s)(k := p_kernels P)\<rparr>)))) (\<lambda>s'.
          ok (Some k, CL_SUCCESS, s'))))))"

text \<open>
  The kernels of a list of names. After a failure the kernel made before is released, but only when
  there is one: a failing first kernel is passed over. \<open>cas\<close> gives the objects of \<open>malloc\<close>.
\<close>

fun create_kernels ::
  "'ir build_setting \<Rightarrow> ('ir \<Rightarrow> string \<Rightarrow> kernel_metadata option) \<Rightarrow> (nat \<Rightarrow> nat option) \<Rightarrow> cl_kernel \<Rightarrow> nat option \<Rightarrow> nat \<Rightarrow>
   string list \<Rightarrow> nat option list \<Rightarrow> 'ir program_table \<times> host \<times> cl_state \<Rightarrow> (int \<times> nat option list \<times> cl_state) prog" where
  "create_kernels E G cas junk program idx [] made (T, h, s) = ok (CL_SUCCESS, made, s)"
| "create_kernels E G cas junk program idx (n # ns) made (T, h, s) =
     andthen (clCreateKernel E G (cas idx) junk program (Some n) (T, h, s)) (\<lambda>(k, err, s').
     if err = CL_INVALID_KERNEL_NAME \<or> err = CL_INVALID_VALUE then throw AssertFail
     else if err \<noteq> CL_SUCCESS \<and> idx > 0
     then andthen (clReleaseKernel (last made) s') (\<lambda>(_, s''). ok (err, made @ [k], s''))
     else create_kernels E G cas junk program (idx + 1) ns (made @ [k]) (T, h, s'))"

text \<open>\<open>N\<close> lists the kernels of a module; the result has the number found and the array, where written.\<close>

definition clCreateKernelsInProgram ::
  "'ir build_setting \<Rightarrow> ('ir \<Rightarrow> string \<Rightarrow> kernel_metadata option) \<Rightarrow> ('ir \<Rightarrow> string list) \<Rightarrow> bool \<Rightarrow> (nat \<Rightarrow> nat option) \<Rightarrow> cl_kernel \<Rightarrow>
   nat option \<Rightarrow> nat \<Rightarrow> bool \<Rightarrow> 'ir program_table \<times> host \<times> cl_state \<Rightarrow> (int \<times> nat option \<times> nat option list \<times> cl_state) prog" where
  "clCreateKernelsInProgram E G N names_malloc cas junk program num_kernels wants_kernels = (\<lambda>(T, h, s).
     if \<not> names_malloc then ok (CL_OUT_OF_HOST_MEMORY, None, [], s)
     else case program of None \<Rightarrow> throw NullDeref | Some i \<Rightarrow>
     andthen (fetch T i) (\<lambda>p.
     andthen (at (llvm_irs p) 0) (\<lambda>ir.
     case ir of None \<Rightarrow> throw NullDeref | Some m \<Rightarrow>
     let found = length (N m)
     in if \<not> wants_kernels then ok (CL_SUCCESS, Some found, [], s)
        else if num_kernels < found then ok (CL_INVALID_VALUE, Some found, [], s)
        else andthen (create_kernels E G cas junk program 0 (N m) [] (T, h, s)) (\<lambda>(err, made, s').
             ok (err, Some found, made, s')))))"

end
