(* ===== verification/Cl_Programs_Props.thy ===== *)
theory Cl_Programs_Props
  imports Cl_Programs Sha1_Props
begin

text \<open>
  Programs: what becomes of the options of a build, when the parser overruns its buffer, what a build
  leaves in the cache and what the next one takes from it, and the references of a created kernel.
\<close>

section \<open>Options\<close>

text \<open>An accepted list of options: the same options are accepted again, and are all that is kept.\<close>

lemma append_option_ok:
  "append_option t b = ok b' \<Longrightarrow> snd (snd b') = snd (snd b) @ t @ '' ''"
  by (auto simp: append_option_def Let_def ok_def throw_def split: prod.splits if_splits)

lemma parse_options_words:
  "parse_options ts b = ok (Some m) \<Longrightarrow>
   \<exists>ws. m = snd (snd b) @ written_out ws \<and> set ws \<subseteq> set ts \<and> parse_options ws b = ok (Some m)"
proof (induction ts b rule: parse_options.induct)
  case (1 b)
  then show ?case by (intro exI[of _ "[]"]) (simp add: ok_def)
next
  case (2 t ts b)
  have keep: ?case if k: "append_option t b = ok b'" "parse_options ts b' = ok (Some m)"
      "\<exists>ws. m = snd (snd b') @ written_out ws \<and> set ws \<subseteq> set ts \<and> parse_options ws b' = ok (Some m)"
      "(is_cl_option t \<and> strstr cl_parameters t \<noteq> None) \<or> (\<not> is_cl_option t \<and> is_preprocessor_option t \<and> length t \<noteq> 2)" for b'
  proof -
    obtain ws where "m = snd (snd b') @ written_out ws" "set ws \<subseteq> set ts" "parse_options ws b' = ok (Some m)" using k(3) by blast
    then show ?thesis using k(1,4) append_option_ok[OF k(1)] by (intro exI[of _ "t # ws"]) auto
  qed
  show ?case
  proof (cases "is_cl_option t")
    case True
    show ?thesis
    proof (cases "strstr cl_parameters t \<noteq> None")
      case s: True
      then obtain b' where "append_option t b = ok b'" "parse_options ts b' = ok (Some m)"
        using "2.prems" True by (auto simp: andthen_eq_ok)
      then show ?thesis using keep "2.IH"(1)[OF True s] True s by blast
    next
      case False
      then have "parse_options ts b = ok (Some m)" using "2.prems" True by (simp add: ok_def split: if_splits)
      moreover have "strstr cl_parameters_not_yet_supported_by_clang t \<noteq> None" using "2.prems" True False by (simp add: ok_def split: if_splits)
      ultimately show ?thesis using "2.IH"(2)[OF True False] by auto
    qed
  next
    case False
    then have p: "is_preprocessor_option t" using "2.prems" by (simp add: ok_def split: if_splits)
    then obtain b' where b': "append_option t b = ok b'"
        "(if length t = 2 then case ts of [] \<Rightarrow> throw NullDeref
           | token' # ts' \<Rightarrow> andthen (append_option token' b') (parse_options ts') else parse_options ts b') = ok (Some m)"
      using "2.prems" False by (auto simp: andthen_eq_ok)
    show ?thesis
    proof (cases "length t = 2")
      case two: True
      then obtain t' ts' where ts: "ts = t' # ts'" using b'(2) by (cases ts) (auto simp: ok_def throw_def)
      then obtain b'' where b'': "append_option t' b' = ok b''" "parse_options ts' b'' = ok (Some m)"
        using b'(2) two by (auto simp: andthen_eq_ok)
      then obtain ws where "m = snd (snd b'') @ written_out ws" "set ws \<subseteq> set ts'" "parse_options ws b'' = ok (Some m)"
        using "2.IH"(3)[OF False p two ts] by blast
      then show ?thesis using False p two ts b'(1) b''(1) append_option_ok[OF b'(1)] append_option_ok[OF b''(1)]
        by (intro exI[of _ "t # t' # ws"]) auto
    next
      case ne: False
      then show ?thesis using keep[OF b'(1)] b'(2) "2.IH"(4)[OF False p ne] False p by auto
    qed
  qed
qed

text \<open>Note: The options a build accepts are kept in a normal form: each followed by a space, unsupported
  ones left out. Parsing the kept options again accepts them and gives the same string.\<close>

theorem options_normal_form:
  assumes "modded_options s = ok (Some m)"
  shows "modded_options m = ok (Some m) \<and> m = written_out (tokens m) \<and> set (tokens m) \<subseteq> set (tokens s)"
proof -
  obtain ws where ws: "m = written_out ws" "set ws \<subseteq> set (tokens s)" "parse_options ws (512, 1, []) = ok (Some m)"
    using parse_options_words[OF assms[unfolded modded_options_def]] by auto
  then have "tokens m = ws" using tokens_words[of _ s] by (auto intro!: tokens_written_out)
  with ws show ?thesis by (simp add: modded_options_def)
qed

text \<open>Options of at most 255 characters never leave the buffer.\<close>

definition has_slack :: "option_buffer \<Rightarrow> bool" where
  "has_slack = (\<lambda>(sz, i, out). i \<le> sz \<and> length out + 1 = i)"

lemma append_short: "has_slack b \<Longrightarrow> length t \<le> 255 \<Longrightarrow> \<exists>b'. append_option t b = ok b' \<and> has_slack b'"
  by (cases b) (auto simp: append_option_def has_slack_def Let_def)

lemma parse_short:
  "has_slack b \<Longrightarrow> \<forall>t \<in> set ts. length t \<le> 255 \<Longrightarrow>
   (\<exists>r. parse_options ts b = ok r) \<or>
   parse_options ts b = throw NullDeref \<and> (\<exists>us t. ts = us @ [t] \<and> is_preprocessor_option t \<and> length t = 2)"
proof (induction ts b rule: parse_options.induct)
  case (2 t ts b)
  obtain b' where b': "append_option t b = ok b'" "has_slack b'" using append_short[of b t] "2.prems" by auto
  have more: ?case if "parse_options (t # ts) b = parse_options ts c"
      "(\<exists>r. parse_options ts c = ok r) \<or>
       parse_options ts c = throw NullDeref \<and> (\<exists>us t. ts = us @ [t] \<and> is_preprocessor_option t \<and> length t = 2)" for c
    using that by (metis append_Cons)
  have short: "\<forall>t \<in> set ts. length t \<le> 255" using "2.prems" by simp
  show ?case
  proof (cases "is_cl_option t")
    case True
    show ?thesis
    proof (cases "strstr cl_parameters t \<noteq> None")
      case s: True
      show ?thesis by (rule more[of b']) (use True s b' "2.IH"(1)[OF True s b'(2) short] in simp_all)
    next
      case s: False
      show ?thesis
      proof (cases "strstr cl_parameters_not_yet_supported_by_clang t \<noteq> None")
        case u: True
        show ?thesis by (rule more[of b]) (use True s u "2.IH"(2)[OF True s u "2.prems"(1) short] in simp_all)
      qed (use True s in simp)
    qed
  next
    case False
    show ?thesis
    proof (cases "is_preprocessor_option t")
      case p: True
      show ?thesis
      proof (cases "length t = 2")
        case two: True
        show ?thesis
        proof (cases ts)
          case Nil
          then show ?thesis using False p two b' by simp
        next
          case (Cons t' ts')
          then obtain b'' where b'': "append_option t' b' = ok b''" "has_slack b''" using append_short[OF b'(2), of t'] short by auto
          have "parse_options (t # ts) b = parse_options ts' b''" using False p two b'(1) b''(1) Cons by simp
          then show ?thesis using "2.IH"(3)[OF False p two Cons b''(2)] short Cons by (metis append_Cons list.set_intros(2))
        qed
      next
        case ne: False
        show ?thesis by (rule more[of b']) (use False p ne b' "2.IH"(4)[OF False p ne b'(2) short] in simp_all)
      qed
    qed (use False in simp)
  qed
qed simp

text \<open>C66: A build whose options are at most 255 characters long each keeps within its buffer, which grows by
  256 at most for each option: parsing accepts or rejects them. The exception is an option \<^verbatim>\<open>-D\<close> or
  \<^verbatim>\<open>-I\<close> at the end, for whose missing value the parser reads a null pointer.\<close>

theorem short_options_safe:
  assumes "\<forall>t \<in> set (tokens s). length t \<le> 255"
  shows "(\<exists>r. modded_options s = ok r) \<or>
    modded_options s = throw NullDeref \<and> (\<exists>ts. tokens s = ts @ [''-D''] \<or> tokens s = ts @ [''-I''])"
proof -
  have "has_slack (512, 1, [])" by (simp add: has_slack_def)
  moreover have "t = ''-D'' \<or> t = ''-I''" if "is_preprocessor_option t" "length t = 2" for t
    using that by (auto simp: is_preprocessor_option_def starts_with_def)
  ultimately show ?thesis using parse_short[of "(512, 1, [])" "tokens s"] assms unfolding modded_options_def by blast
qed

lemma lone_define_crashes: "modded_options ''-D'' = throw NullDeref"
  by code_simp

text \<open>A long option overflows the buffer.\<close>

lemma long_option_overflows:
  assumes "765 \<le> n"
  shows "modded_options (''-D'' @ replicate n (CHR ''x'')) = throw OutOfBounds"
proof -
  let ?t = "''-D'' @ replicate n (CHR ''x'')"
  have "tokens ?t = [?t]" by (rule tokens_single) auto
  moreover have "\<not> is_cl_option ?t" "is_preprocessor_option ?t"
    by (simp_all add: is_cl_option_def is_preprocessor_option_def starts_with_def)
  moreover have "append_option ?t (512, 1, []) = throw OutOfBounds" using assms by (simp add: append_option_def)
  ultimately show ?thesis by (simp only: modded_options_def parse_options.simps if_False if_True andthen_throw)
qed

section \<open>The cache\<close>

text \<open>The cache of a source is kept: it is switched on, and the source includes no file, or that is ignored.\<close>

definition keeps_cache :: "'ir build_setting \<Rightarrow> host \<Rightarrow> string \<Rightarrow> bool" where
  "keeps_cache E h src \<longleftrightarrow>
     fst (pocl_get_bool_option (getenv E) (env_cache h) ''POCL_KERNEL_CACHE'' True) \<and>
     (fst (pocl_get_bool_option (getenv E) (env_cache h) ''POCL_KERNEL_CACHE_IGNORE_INCLUDES'' False) \<or>
      \<not> has_include (c_string src))"

text \<open>What is on disk stays, and no option changes its value.\<close>

definition extends :: "'ir build_setting \<Rightarrow> host \<Rightarrow> host \<Rightarrow> bool" where
  "extends E h h' \<longleftrightarrow> contents h \<subseteq>\<^sub>m contents h' \<and> directory h \<le> directory h' \<and>
     env_value (getenv E) (env_cache h') = env_value (getenv E) (env_cache h)"

lemma extends_refl: "extends E h h"
  by (simp add: extends_def)

lemma extends_trans: "extends E h h1 \<Longrightarrow> extends E h1 h2 \<Longrightarrow> extends E h h2"
  unfolding extends_def by (auto intro: map_le_trans order_trans)

lemma extends_contents: "extends E h h' \<Longrightarrow> contents h q = Some c \<Longrightarrow> contents h' q = Some c"
  by (auto simp: extends_def map_le_def dest!: bspec[of "dom (contents h)" _ q])

lemma extends_exists: "extends E h h' \<Longrightarrow> exists_path h q \<Longrightarrow> exists_path h' q"
  using extends_contents[of E h h' q] by (auto simp: exists_path_def extends_def le_fun_def)

lemma extends_keeps: "extends E h h' \<Longrightarrow> keeps_cache E h' src = keeps_cache E h src"
  by (simp add: extends_def keeps_cache_def)

text \<open>Directories that no further attempt would make.\<close>

definition settled :: "'ir build_setting \<Rightarrow> host \<Rightarrow> string \<Rightarrow> bool" where
  "settled E h q \<longleftrightarrow> exists_path h q \<or> \<not> may_make E q"

lemma make_settled: "settled E h q \<Longrightarrow> make_directory E q h = h"
  by (auto simp: settled_def make_directory_def)

lemma make_extends: "extends E h (make_directory E q h)" "settled E (make_directory E q h) q"
  by (auto simp: extends_def settled_def make_directory_def exists_path_def le_fun_def)

lemma settled_extends: "extends E h h' \<Longrightarrow> settled E h q \<Longrightarrow> settled E h' q"
  by (auto simp: settled_def dest: extends_exists)

lemma check_keeps:
  assumes "keeps_cache E h src"
  obtains c where "pocl_check_and_invalidate_cache E (Some src) dir h = h\<lparr>env_cache := c\<rparr>"
    and "env_value (getenv E) c = env_value (getenv E) (env_cache h)"
proof -
  obtain b c where b: "pocl_get_bool_option (getenv E) (env_cache h) ''POCL_KERNEL_CACHE'' True = (b, c)" by (metis surj_pair)
  obtain b' c' where b': "pocl_get_bool_option (getenv E) c ''POCL_KERNEL_CACHE_IGNORE_INCLUDES'' False = (b', c')" by (metis surj_pair)
  have c: "env_value (getenv E) c = env_value (getenv E) (env_cache h)"
    using options_stable(1)[of "getenv E" "env_cache h" "''POCL_KERNEL_CACHE''" True] by (simp only: b snd_conv)
  have c': "env_value (getenv E) c' = env_value (getenv E) c"
    using options_stable(1)[of "getenv E" c "''POCL_KERNEL_CACHE_IGNORE_INCLUDES''" False] by (simp only: b' snd_conv)
  have "b' = fst (pocl_get_bool_option (getenv E) (env_cache h) ''POCL_KERNEL_CACHE_IGNORE_INCLUDES'' False)"
    using arg_cong[OF b', of fst] by (simp only: option_values c fst_conv)
  then have "b" "b' \<or> \<not> has_include (c_string src)" using assms b by (simp_all add: keeps_cache_def)
  then have "pocl_check_and_invalidate_cache E (Some src) dir h = h\<lparr>env_cache := c'\<rparr>"
    by (auto simp: pocl_check_and_invalidate_cache_def b b' Let_def)
  then show thesis using that c c' by simp
qed

abbreviation device_dir :: "'ir build_setting \<Rightarrow> 'ir program_fields \<Rightarrow> nat \<Rightarrow> string" where
  "device_dir E p d \<equiv> join_path POCL_FILENAME_LENGTH (the (cache_dir p)) (cache_dir_name E d)"

abbreviation bitcode_file :: "'ir build_setting \<Rightarrow> 'ir program_fields \<Rightarrow> nat \<Rightarrow> string" where
  "bitcode_file E p d \<equiv> join_path POCL_FILENAME_LENGTH (device_dir E p d) ''program.bc''"

lemma at_ok: "at t i = ok x \<longleftrightarrow> (\<exists>l. t = Some l \<and> i < length l \<and> l ! i = x)"
  by (auto simp: at_def ok_def throw_def split: option.splits)

text \<open>The parts of a program a build does not touch.\<close>

definition same_build :: "'ir program_fields \<Rightarrow> 'ir program_fields \<Rightarrow> bool" where
  "same_build p p' \<longleftrightarrow> source p' = source p \<and> cache_dir p' = cache_dir p \<and> prog_devices p' = prog_devices p \<and>
     compiler_options p' = compiler_options p \<and> build_hash p' = build_hash p \<and>
     map_option length (llvm_irs p') = map_option length (llvm_irs p) \<and>
     map_option length (binary_sizes p') = map_option length (binary_sizes p)"

lemma fill_cache_effect:
  assumes "fill_cache E opts j d bc p h = ok (True, p', h')" and "source p \<noteq> None"
  shows "extends E h h' \<and> same_build p p' \<and> binaries p' = binaries p"
proof (cases "exists_path h bc \<or> \<not> may_create E bc")
  case True
  then show ?thesis using assms by (auto simp: fill_cache_def extends_refl same_build_def)
next
  case False
  obtain src where src: "source p = Some src" using assms(2) by auto
  obtain ir code where "compile E d (c_string src) opts = Some (ir, code)"
    using assms(1) False src by (auto simp: fill_cache_def split: option.splits)
  then show ?thesis using assms(1) False src
    by (auto simp: fill_cache_def andthen_eq_ok at_ok same_build_def extends_def exists_path_def map_le_def)
qed

lemma read_binary_effect:
  assumes "read_binary E j bc p h = ok (True, p')" and "binaries p = Some bs" and "j < length bs" and "bs ! j = None"
  shows "\<exists>code. contents h bc = Some code \<and> binaries p' = Some (bs[j := Some code]) \<and> same_build p p' \<and>
    binary_malloc E j \<and> (\<exists>z. binary_sizes p = Some z \<and> j < length z)"
  using assms
  by (auto simp: read_binary_def at_def Let_def same_build_def split: option.splits if_splits)

lemma update_ir_effect:
  assumes "update_ir E d bc p h = ok p'"
  shows "same_build p p' \<and> binaries p' = binaries p \<and> (\<exists>irs. llvm_irs p = Some irs \<and> d < length irs)"
  using assms by (auto simp: update_ir_def andthen_eq_ok at_ok same_build_def split: if_splits)

text \<open>One round of the first build, for a device whose binary is not there yet.\<close>

lemma build_devices_round:
  assumes "build_devices E opts j (d # ds) p h = ok (CL_SUCCESS, p', h')"
    and "source p = Some src" and "keeps_cache E h src"
    and "binaries p = Some bs" and "j < length bs" and "bs ! j = None"
  obtains p1 h1 code where "build_devices E opts (j + 1) ds p1 h1 = ok (CL_SUCCESS, p', h')"
    and "extends E h h1" and "settled E h1 (device_dir E p d)" and "contents h1 (bitcode_file E p d) = Some code"
    and "binaries p1 = Some (bs[j := Some code])" and "same_build p p1" and "binary_malloc E j"
    and "\<exists>z. binary_sizes p = Some z \<and> j < length z" and "\<exists>irs. llvm_irs p = Some irs \<and> d < length irs"
proof -
  let ?dir = "device_dir E p d" and ?bc = "bitcode_file E p d"
  define h0 where "h0 = make_directory E ?dir h"
  have e0: "extends E h h0" "settled E h0 ?dir" using make_extends by (simp_all add: h0_def)
  obtain c where c: "pocl_check_and_invalidate_cache E (Some src) ?dir h0 = h0\<lparr>env_cache := c\<rparr>"
      "env_value (getenv E) c = env_value (getenv E) (env_cache h0)"
    using check_keeps[of E h0 src] assms(3) extends_keeps[OF e0(1)] by blast
  define h2 where "h2 = h0\<lparr>env_cache := c\<rparr>"
  have e2: "extends E h0 h2" using c(2) by (simp add: h2_def extends_def)
  obtain p3 h3 where f: "fill_cache E opts j d ?bc p h2 = ok (True, p3, h3)" and rest:
      "andthen (read_binary E j ?bc p3 h3) (\<lambda>(complete, p). if \<not> complete then ok (CL_OUT_OF_HOST_MEMORY, p, h3)
         else andthen (update_ir E d ?bc p h3) (\<lambda>p. build_devices E opts (j + 1) ds p h3)) = ok (CL_SUCCESS, p', h')"
    using assms(1,2) c(1) unfolding h2_def h0_def
    by (auto simp: Let_def andthen_eq_ok split: if_splits)
  have F: "extends E h2 h3" "same_build p p3" "binaries p3 = Some bs"
    using fill_cache_effect[OF f] assms(2,4) by simp_all
  obtain p4 where r: "read_binary E j ?bc p3 h3 = ok (True, p4)" and rest': "andthen (update_ir E d ?bc p4 h3) (\<lambda>p. build_devices E opts (j + 1) ds p h3) = ok (CL_SUCCESS, p', h')"
    using rest by (auto simp: andthen_eq_ok split: if_splits)
  obtain code where R: "contents h3 ?bc = Some code" "binaries p4 = Some (bs[j := Some code])" "same_build p3 p4" "binary_malloc E j"
      "\<exists>z. binary_sizes p3 = Some z \<and> j < length z"
    using read_binary_effect[OF r F(3) assms(5,6)] by blast
  obtain p5 where u: "update_ir E d ?bc p4 h3 = ok p5" "build_devices E opts (j + 1) ds p5 h3 = ok (CL_SUCCESS, p', h')"
    using rest' by (auto simp: andthen_eq_ok)
  have U: "same_build p4 p5" "binaries p5 = Some (bs[j := Some code])" "\<exists>irs. llvm_irs p4 = Some irs \<and> d < length irs"
    using update_ir_effect[OF u(1)] R(2) by simp_all
  have e: "extends E h h3" using extends_trans[OF extends_trans[OF e0(1) e2] F(1)] .
  show thesis
  proof (rule that[OF u(2) e _ R(1) U(2)])
    show "settled E h3 ?dir" using settled_extends[OF extends_trans[OF e2 F(1)] e0(2)] .
    show "same_build p p5" using F(2) R(3) U(1) by (simp add: same_build_def)
    show "binary_malloc E j" by (rule R(4))
    show "\<exists>z. binary_sizes p = Some z \<and> j < length z"
      using R(5) F(2) by (auto simp: same_build_def map_option_case split: option.splits)
    show "\<exists>irs. llvm_irs p = Some irs \<and> d < length irs"
      using U(3) R(3) F(2) by (auto simp: same_build_def map_option_case split: option.splits)
  qed
qed

text \<open>What the whole loop leaves: for each device a file, and its content as the device's binary.\<close>

lemma build_devices_fills:
  assumes "build_devices E opts (length pre) ds p h = ok (CL_SUCCESS, p', h')"
    and "source p = Some src" and "keeps_cache E h src"
    and "binaries p = Some (pre @ replicate (length ds) None)"
  shows "\<exists>codes. binaries p' = Some (pre @ map Some codes) \<and> extends E h h' \<and> same_build p p' \<and>
    list_all2 (\<lambda>d code. contents h' (bitcode_file E p d) = Some code \<and> settled E h' (device_dir E p d)) ds codes \<and>
    (\<forall>j. length pre \<le> j \<and> j < length pre + length ds \<longrightarrow>
       binary_malloc E j \<and> (\<exists>z. binary_sizes p = Some z \<and> j < length z)) \<and>
    (\<forall>d \<in> set ds. \<exists>irs. llvm_irs p = Some irs \<and> d < length irs)"
  using assms
proof (induction ds arbitrary: pre p h)
  case Nil
  then show ?case by (auto simp: extends_refl same_build_def)
next
  case (Cons d ds)
  have nth: "(pre @ replicate (length (d # ds)) None) ! length pre = None" by simp
  obtain p1 h1 code where r: "build_devices E opts (length pre + 1) ds p1 h1 = ok (CL_SUCCESS, p', h')"
      "extends E h h1" "settled E h1 (device_dir E p d)" "contents h1 (bitcode_file E p d) = Some code"
      "binaries p1 = Some ((pre @ replicate (length (d # ds)) None)[length pre := Some code])" "same_build p p1" "binary_malloc E (length pre)"
      "\<exists>z. binary_sizes p = Some z \<and> length pre < length z" "\<exists>irs. llvm_irs p = Some irs \<and> d < length irs"
    by (rule build_devices_round[OF Cons.prems(1-4) _ nth]) simp_all
  have b: "binaries p1 = Some ((pre @ [Some code]) @ replicate (length ds) None)" using r(5) by simp
  have s: "source p1 = Some src" "cache_dir p1 = cache_dir p" using r(6) Cons.prems(2) by (simp_all add: same_build_def)
  have k: "keeps_cache E h1 src" using Cons.prems(3) extends_keeps[OF r(2)] by simp
  obtain codes where C: "binaries p' = Some ((pre @ [Some code]) @ map Some codes)" "extends E h1 h'" "same_build p1 p'"
      "list_all2 (\<lambda>d code. contents h' (bitcode_file E p1 d) = Some code \<and> settled E h' (device_dir E p1 d)) ds codes"
      "\<forall>j. length (pre @ [Some code]) \<le> j \<and> j < length (pre @ [Some code]) + length ds \<longrightarrow>
         binary_malloc E j \<and> (\<exists>z. binary_sizes p1 = Some z \<and> j < length z)"
      "\<forall>d \<in> set ds. \<exists>irs. llvm_irs p1 = Some irs \<and> d < length irs"
    using Cons.IH[of "pre @ [Some code]" p1 h1] r(1) s(1) k b by auto
  have m: "map_option length (binary_sizes p1) = map_option length (binary_sizes p)"
      "map_option length (llvm_irs p1) = map_option length (llvm_irs p)" using r(6) by (simp_all add: same_build_def)
  have sizes: "(\<exists>z. binary_sizes p1 = Some z \<and> j < length z) \<longleftrightarrow> (\<exists>z. binary_sizes p = Some z \<and> j < length z)" for j
    using m(1) by (auto simp: map_option_case split: option.splits)
  have irs: "(\<exists>z. llvm_irs p1 = Some z \<and> j < length z) \<longleftrightarrow> (\<exists>z. llvm_irs p = Some z \<and> j < length z)" for j
    using m(2) by (auto simp: map_option_case split: option.splits)
  show ?case
  proof (intro exI[of _ "code # codes"] conjI)
    show "list_all2 (\<lambda>d code. contents h' (bitcode_file E p d) = Some code \<and> settled E h' (device_dir E p d)) (d # ds) (code # codes)"
      using C(4) extends_contents[OF C(2) r(4)] settled_extends[OF C(2) r(3)] by (simp add: s(2))
    show "\<forall>j. length pre \<le> j \<and> j < length pre + length (d # ds) \<longrightarrow> binary_malloc E j \<and> (\<exists>z. binary_sizes p = Some z \<and> j < length z)"
    proof (intro allI impI)
      fix j
      assume "length pre \<le> j \<and> j < length pre + length (d # ds)"
      then show "binary_malloc E j \<and> (\<exists>z. binary_sizes p = Some z \<and> j < length z)"
        using C(5) r(7,8) unfolding sizes by (cases "j = length pre") auto
    qed
    show "same_build p p'" using r(6) C(3) by (simp add: same_build_def)
    show "extends E h h'" using extends_trans[OF r(2) C(2)] .
    show "\<forall>d \<in> set (d # ds). \<exists>irs. llvm_irs p = Some irs \<and> d < length irs" using r(9) C(6) unfolding irs by auto
  qed (use C(1) in simp)
qed

text \<open>The same loop with all files there: it needs no compiler.\<close>

lemma build_devices_cached:
  assumes "list_all2 (\<lambda>d code. contents h (bitcode_file E p d) = Some code \<and> settled E h (device_dir E p d)) ds codes"
    and "source p = Some src" and "keeps_cache E h src"
    and "binaries p = Some (pre @ replicate (length ds) None)"
    and "\<forall>j. length pre \<le> j \<and> j < length pre + length ds \<longrightarrow> binary_malloc E j \<and> (\<exists>z. binary_sizes p = Some z \<and> j < length z)"
    and "\<forall>d \<in> set ds. \<exists>irs. llvm_irs p = Some irs \<and> d < length irs"
  shows "\<exists>p' h'. build_devices E opts (length pre) ds p h = ok (CL_SUCCESS, p', h') \<and> binaries p' = Some (pre @ map Some codes) \<and>
    build_hash p' = build_hash p \<and> cache_dir p' = cache_dir p \<and> contents h' = contents h \<and> directory h' = directory h"
  using assms
proof (induction ds arbitrary: codes pre p h)
  case Nil
  then show ?case by simp
next
  case (Cons d ds codes')
  obtain code codes where codes: "codes' = code # codes" and hd: "contents h (bitcode_file E p d) = Some code" "settled E h (device_dir E p d)"
    and tl: "list_all2 (\<lambda>d code. contents h (bitcode_file E p d) = Some code \<and> settled E h (device_dir E p d)) ds codes"
    using Cons.prems(1) by (auto simp: list_all2_Cons1)
  let ?dir = "device_dir E p d" and ?bc = "bitcode_file E p d"
  have d: "contents h ?bc = Some code" "make_directory E ?dir h = h" using hd by (simp_all add: make_settled del: take_append)
  obtain c where c: "pocl_check_and_invalidate_cache E (Some src) ?dir h = h\<lparr>env_cache := c\<rparr>"
      "env_value (getenv E) c = env_value (getenv E) (env_cache h)"
    using check_keeps[OF Cons.prems(3)] by blast
  define h1 where "h1 = h\<lparr>env_cache := c\<rparr>"
  have e: "extends E h h1" using c(2) by (simp add: h1_def extends_def)
  obtain z irs where z: "binary_sizes p = Some z" "length pre < length z" "llvm_irs p = Some irs" "d < length irs"
      "binary_malloc E (length pre)" using Cons.prems(5,6) by force
  define p1 where "p1 = p\<lparr>binary_sizes := Some (z[length pre := length code]), binaries := Some ((pre @ [Some code]) @ replicate (length ds) None)\<rparr>"
  have f: "fill_cache E opts (length pre) d ?bc p h1 = ok (True, p, h1)"
    using d(1) by (simp add: fill_cache_def exists_path_def h1_def)
  have r: "read_binary E (length pre) ?bc p h1 = ok (True, p1)"
    using d(1) z Cons.prems(4) by (simp add: read_binary_def at_def h1_def p1_def Let_def)
  have "\<exists>p2. update_ir E d ?bc p1 h1 = ok p2" using z by (simp add: update_ir_def at_def p1_def)
  then obtain p2 where u: "update_ir E d ?bc p1 h1 = ok p2" by blast
  have p2: "same_build p1 p2" "binaries p2 = Some ((pre @ [Some code]) @ replicate (length ds) None)" "build_hash p2 = build_hash p"
    using update_ir_effect[OF u] u by (auto simp: p1_def update_ir_def andthen_eq_ok split: if_splits)
  have same: "same_build p p2" using p2(1) z by (simp add: same_build_def p1_def)
  have s: "cache_dir p2 = cache_dir p" "source p2 = Some src" using same Cons.prems(2) by (simp_all add: same_build_def)
  have "\<exists>p' h'. build_devices E opts (length (pre @ [Some code])) ds p2 h1 = ok (CL_SUCCESS, p', h') \<and>
      binaries p' = Some ((pre @ [Some code]) @ map Some codes) \<and>
      build_hash p' = build_hash p2 \<and> cache_dir p' = cache_dir p2 \<and> contents h' = contents h1 \<and> directory h' = directory h1"
  proof (rule Cons.IH)
    show "list_all2 (\<lambda>d code. contents h1 (bitcode_file E p2 d) = Some code \<and> settled E h1 (device_dir E p2 d)) ds codes"
      using tl settled_extends[OF e] unfolding s(1) by (auto simp: h1_def elim: list_all2_mono)
    show "keeps_cache E h1 src" using Cons.prems(3) extends_keeps[OF e] by simp
    show "\<forall>j. length (pre @ [Some code]) \<le> j \<and> j < length (pre @ [Some code]) + length ds \<longrightarrow>
        binary_malloc E j \<and> (\<exists>z. binary_sizes p2 = Some z \<and> j < length z)"
      using Cons.prems(5) same by (auto simp: same_build_def map_option_case split: option.splits)
    show "\<forall>d \<in> set ds. \<exists>irs. llvm_irs p2 = Some irs \<and> d < length irs"
      using Cons.prems(6) same by (auto simp: same_build_def map_option_case split: option.splits)
  qed (use s p2 in simp_all)
  moreover have "build_devices E opts (length pre) (d # ds) p h = build_devices E opts (length (pre @ [Some code])) ds p2 h1"
    using Cons.prems(2) d(2) c(1) f r u by (simp add: h1_def Let_def)
  ultimately show ?case using p2(3) s(1) by (simp add: h1_def codes)
qed

lemma prepare_cases:
  assumes "prepare_build E p h = Some (p0, h0)"
  obtains wg c hash cd h1 where
    "pocl_get_string_option (getenv E) (env_cache h) ''POCL_WORK_GROUP_METHOD'' [] = (wg, c)"
    and "build_program_compute_hash ((hash_parts E)\<lparr>wg_method := map of_char wg\<rparr>) (hash_junk E)
           (map_option (map of_char \<circ> c_string) (source p))
           (map (\<lambda>b. case b of Some a \<Rightarrow> a | None \<Rightarrow> []) (case binaries p of Some bs \<Rightarrow> bs | None \<Rightarrow> []))
           (map_option (map of_char) (compiler_options p)) = Some hash"
    and "pocl_create_program_cache_dir E hash (h\<lparr>env_cache := c\<rparr>) = (cd, h0)"
    and "p0 = p\<lparr>build_hash := hash, cache_dir := Some cd\<rparr>"
  using assms by (auto simp: prepare_build_def Let_def split: prod.splits option.splits)

lemma created_dir:
  "pocl_create_program_cache_dir E hash h = (cd, h') \<Longrightarrow> h' = make_directory E cd h"
  by (auto simp: pocl_create_program_cache_dir_def Let_def)

lemma prepare_fields:
  assumes "prepare_build E p h = Some (p0, h0)"
  shows "source p0 = source p \<and> prog_devices p0 = prog_devices p \<and> compiler_options p0 = compiler_options p \<and>
    extends E h h0 \<and> settled E h0 (the (cache_dir p0))"
proof -
  from assms obtain wg c hash cd where
      c: "pocl_get_string_option (getenv E) (env_cache h) ''POCL_WORK_GROUP_METHOD'' [] = (wg, c)"
      and d: "pocl_create_program_cache_dir E hash (h\<lparr>env_cache := c\<rparr>) = (cd, h0)"
      and p0: "p0 = p\<lparr>build_hash := hash, cache_dir := Some cd\<rparr>"
    by (rule prepare_cases)
  have "env_value (getenv E) c = env_value (getenv E) (env_cache h)"
    using options_stable(3)[of "getenv E" "env_cache h" "''POCL_WORK_GROUP_METHOD''" "[]"] by (simp only: c snd_conv)
  then have "extends E h (h\<lparr>env_cache := c\<rparr>)" by (simp add: extends_def)
  then have "extends E h h0" unfolding created_dir[OF d] by (rule extends_trans[OF _ make_extends(1)])
  moreover have "settled E h0 cd" unfolding created_dir[OF d] by (rule make_extends(2))
  ultimately show ?thesis by (simp add: p0)
qed

lemma change_compiler [simp]:
  "make_directory (E\<lparr>compile := C\<rparr>) q h = make_directory E q h"
  "settled (E\<lparr>compile := C\<rparr>) h q = settled E h q"
  "keeps_cache (E\<lparr>compile := C\<rparr>) h src = keeps_cache E h src"
  by (simp_all add: make_directory_def settled_def keeps_cache_def)

text \<open>A later build of the same source with the same options finds the same directory.\<close>

lemma prepare_again:
  assumes "prepare_build E p h = Some (p0, h0)" and "extends E h h'" and "settled E h' (the (cache_dir p0))"
    and "source p' = source p" and "source p \<noteq> None" and "compiler_options p' = compiler_options p"
  obtains h2 where "prepare_build (E\<lparr>compile := C\<rparr>) p' h' = Some (p'\<lparr>build_hash := build_hash p0, cache_dir := cache_dir p0\<rparr>, h2)"
    and "contents h2 = contents h'" and "directory h2 = directory h'" and "extends E h' h2"
proof -
  from assms(1) obtain wg c hash cd where
      c: "pocl_get_string_option (getenv E) (env_cache h) ''POCL_WORK_GROUP_METHOD'' [] = (wg, c)"
      and hash: "build_program_compute_hash ((hash_parts E)\<lparr>wg_method := map of_char wg\<rparr>) (hash_junk E)
           (map_option (map of_char \<circ> c_string) (source p))
           (map (\<lambda>b. case b of Some a \<Rightarrow> a | None \<Rightarrow> []) (case binaries p of Some bs \<Rightarrow> bs | None \<Rightarrow> []))
           (map_option (map of_char) (compiler_options p)) = Some hash"
      and d: "pocl_create_program_cache_dir E hash (h\<lparr>env_cache := c\<rparr>) = (cd, h0)"
      and p0: "p0 = p\<lparr>build_hash := hash, cache_dir := Some cd\<rparr>"
    by (rule prepare_cases)
  obtain wg' c' where c': "pocl_get_string_option (getenv E) (env_cache h') ''POCL_WORK_GROUP_METHOD'' [] = (wg', c')"
    by (metis surj_pair)
  have "wg' = fst (pocl_get_string_option (getenv E) (env_cache h') ''POCL_WORK_GROUP_METHOD'' [])" by (simp only: c' fst_conv)
  also have "\<dots> = fst (pocl_get_string_option (getenv E) (env_cache h) ''POCL_WORK_GROUP_METHOD'' [])"
    using assms(2) by (simp only: option_values extends_def)
  finally have wg: "wg' = wg" by (simp only: c fst_conv)
  have e: "env_value (getenv E) c' = env_value (getenv E) (env_cache h')"
    using options_stable(3)[of "getenv E" "env_cache h'" "''POCL_WORK_GROUP_METHOD''" "[]"] by (simp only: c' snd_conv)
  define h2 where "h2 = h'\<lparr>env_cache := c'\<rparr>"
  have x: "extends E h' h2" using e by (simp add: h2_def extends_def)
  have "settled E h2 cd" using settled_extends[OF x] assms(3) by (simp add: p0)
  moreover have "fst (pocl_create_program_cache_dir (E\<lparr>compile := C\<rparr>) hash h2) = cd"
    using arg_cong[OF d, of fst]
    by (auto simp: pocl_create_program_cache_dir_def Let_def home_cache_path_def split: option.splits)
  ultimately have D: "pocl_create_program_cache_dir (E\<lparr>compile := C\<rparr>) hash h2 = (cd, h2)"
    using created_dir[of "E\<lparr>compile := C\<rparr>" hash h2] make_settled[of E h2 cd] change_compiler(1)[of C E cd h2]
    by (metis prod.collapse)
  have H: "build_program_compute_hash ((hash_parts E)\<lparr>wg_method := map of_char wg\<rparr>) (hash_junk E)
      (map_option (map of_char \<circ> c_string) (source p')) b (map_option (map of_char) (compiler_options p')) = Some hash" for b
    using hash assms(4-6) by (auto simp: build_program_compute_hash_def)
  have "prepare_build (E\<lparr>compile := C\<rparr>) p' h' = Some (p'\<lparr>build_hash := build_hash p0, cache_dir := cache_dir p0\<rparr>, h2)"
    using D by (simp add: prepare_build_def c' wg H p0 h2_def)
  then show thesis using that x by (simp add: h2_def)
qed

lemma run_build_source:
  assumes "source p = Some src"
  shows "run_build E m ds i p (T, h, s) = ok (CL_SUCCESS, T1, h1, s1) \<longleftrightarrow>
    failing_table E = None \<and> s1 = s \<and>
    (\<exists>p0 h0 p2 h2. prepare_build E p h = Some (p0, h0) \<and>
       build_devices E m 0 ds (fresh_tables (length ds) p0) h0 = ok (CL_SUCCESS, p2, h2) \<and>
       pocl_touch_file E (join_path POCL_FILENAME_LENGTH (the (cache_dir p2)) ''last_accessed'') h2 = ok h1 \<and>
       T1 = T(i \<mapsto> p2\<lparr>build_status := CL_BUILD_SUCCESS\<rparr>))"
proof (cases "prepare_build E p h")
  case None
  then show ?thesis by (simp add: run_build_def)
next
  case (Some r)
  obtain p0 h0 where r: "r = (p0, h0)" by (cases r)
  then have "source p0 \<noteq> None" using prepare_fields[of E p h p0 h0] Some assms by simp
  then show ?thesis using Some r
    by (auto simp: run_build_def Let_def build_failed_def andthen_eq_ok split: if_splits)
qed

lemma build_source:
  assumes "programs s i = Some P" and "T i = Some p" and "source p = Some src"
  shows "clBuildProgram E (Some i) n dl options notify user (T, h, s) = ok (CL_SUCCESS, T1, h1, s1) \<longleftrightarrow>
    (user \<longrightarrow> notify) \<and> p_kernels P = None \<and> (n = 0 \<longleftrightarrow> dl = None) \<and>
    (\<exists>m copts ds. set_options options = ok (Some (m, copts)) \<and> real_devices (p\<lparr>compiler_options := copts\<rparr>) n dl = ok ds \<and>
       run_build E m ds i (p\<lparr>compiler_options := copts\<rparr>) (T, h, s) = ok (CL_SUCCESS, T1, h1, s1))"
proof (cases "set_options options" rule: prog_cases)
  case (ok r)
  have n: "dl = None \<or> (\<exists>l. dl = Some l)" by (cases dl) auto
  show ?thesis
  proof (cases r)
    case None
    then show ?thesis using assms ok by (auto simp: clBuildProgram_def fetch_def build_failed_def)
  next
    case (Some mc)
    then show ?thesis using assms ok n
      by (cases mc) (auto simp: clBuildProgram_def fetch_def build_failed_def andthen_eq_ok Let_def split: if_splits)
  qed
qed (use assms in \<open>auto simp: clBuildProgram_def fetch_def build_failed_def\<close>)

lemma touch_effect:
  "pocl_touch_file E q h = ok h' \<Longrightarrow> extends E h h' \<and> exists_path h' q"
  by (auto simp: pocl_touch_file_def exists_path_def extends_def map_le_def split: if_splits)

text \<open>C63: Building a program a second time takes everything from the cache. When the kernel cache is switched on
  and the first build of a source that includes no file succeeded, the same call succeeds again whatever the compiler would
  answer, changes no file or directory, and gives the program the same hash and the same binaries.\<close>

theorem rebuild_uses_cache:
  assumes first: "clBuildProgram E (Some i) n dl options notify user (T, h, s) = ok (CL_SUCCESS, T1, h1, s1)"
    and p: "T i = Some p" "source p = Some src" and k: "keeps_cache E h src"
  shows "\<exists>T2 h2. clBuildProgram (E\<lparr>compile := C\<rparr>) (Some i) n dl options notify user (T1, h1, s1) = ok (CL_SUCCESS, T2, h2, s1) \<and>
    contents h2 = contents h1 \<and> directory h2 = directory h1 \<and>
    binaries (the (T2 i)) = binaries (the (T1 i)) \<and> build_hash (the (T2 i)) = build_hash (the (T1 i))"
proof -
  obtain P where P: "programs s i = Some P"
    using first by (auto simp: clBuildProgram_def fetch_def throw_def ok_def split: option.splits)
  obtain m copts ds where o: "user \<longrightarrow> notify" "p_kernels P = None" "n = 0 \<longleftrightarrow> dl = None" "set_options options = ok (Some (m, copts))"
      "real_devices (p\<lparr>compiler_options := copts\<rparr>) n dl = ok ds"
      and run: "run_build E m ds i (p\<lparr>compiler_options := copts\<rparr>) (T, h, s) = ok (CL_SUCCESS, T1, h1, s1)"
    using first build_source[where T = T and n = n and dl = dl, OF P p] by blast
  let ?p = "p\<lparr>compiler_options := copts\<rparr>"
  obtain p0 h0 p2 h2 where r: "failing_table E = None" "s1 = s" "prepare_build E ?p h = Some (p0, h0)"
      "build_devices E m 0 ds (fresh_tables (length ds) p0) h0 = ok (CL_SUCCESS, p2, h2)"
      "pocl_touch_file E (join_path POCL_FILENAME_LENGTH (the (cache_dir p2)) ''last_accessed'') h2 = ok h1"
      "T1 = T(i \<mapsto> p2\<lparr>build_status := CL_BUILD_SUCCESS\<rparr>)"
    using run run_build_source[of ?p src] p(2) by auto
  note pf = prepare_fields[OF r(3)]
  let ?q = "fresh_tables (length ds) p0"
  have q: "source ?q = Some src" "binaries ?q = Some ([] @ replicate (length ds) None)" "cache_dir ?q = cache_dir p0"
    using pf p(2) by (simp_all add: fresh_tables_def)
  obtain codes where C: "binaries p2 = Some ([] @ map Some codes)" "extends E h0 h2" "same_build ?q p2"
      "list_all2 (\<lambda>d code. contents h2 (bitcode_file E ?q d) = Some code \<and> settled E h2 (device_dir E ?q d)) ds codes"
      "\<forall>j. length ([] :: byte list option list) \<le> j \<and> j < length ([] :: byte list option list) + length ds \<longrightarrow>
         binary_malloc E j \<and> (\<exists>z. binary_sizes ?q = Some z \<and> j < length z)"
      "\<forall>d \<in> set ds. \<exists>irs. llvm_irs ?q = Some irs \<and> d < length irs"
    using build_devices_fills[of E m "[]" ds ?q h0 p2 h2 src] r(4) q k pf extends_keeps[of E h h0 src] by simp blast
  let ?last = "join_path POCL_FILENAME_LENGTH (the (cache_dir p2)) ''last_accessed''"
  have t: "extends E h2 h1" "exists_path h1 ?last" using touch_effect[OF r(5)] by simp_all
  have e1: "extends E h0 h1" "extends E h h1" using extends_trans[OF C(2) t(1)] extends_trans pf by blast+
  define p1 where "p1 = p2\<lparr>build_status := CL_BUILD_SUCCESS, compiler_options := copts\<rparr>"
  have p1: "source p1 = Some src" "compiler_options p1 = compiler_options ?p" "prog_devices p1 = prog_devices p"
    using C(3) q(1) pf by (simp_all add: p1_def same_build_def fresh_tables_def split: if_splits)
  obtain h3 where h3: "prepare_build (E\<lparr>compile := C\<rparr>) p1 h1 = Some (p1\<lparr>build_hash := build_hash p0, cache_dir := cache_dir p0\<rparr>, h3)"
      "contents h3 = contents h1" "directory h3 = directory h1" "extends E h1 h3"
    using prepare_again[OF r(3) e1(2), where p' = p1 and C = C] p1(1,2) p(2) pf settled_extends[OF e1(1)] by auto
  define q2 where "q2 = fresh_tables (length ds) (p1\<lparr>build_hash := build_hash p0, cache_dir := cache_dir p0\<rparr>)"
  have q2: "source q2 = Some src" "binaries q2 = Some ([] @ replicate (length ds) None)" "cache_dir q2 = cache_dir p0"
      "build_hash q2 = build_hash p0" "binary_sizes q2 = binary_sizes ?q" "llvm_irs q2 = llvm_irs ?q"
    using p1(1) pf p(2) by (simp_all add: q2_def fresh_tables_def)
  have e3: "extends E h2 h3" using extends_trans[OF t(1) h3(4)] .
  have "\<exists>p4 h4. build_devices (E\<lparr>compile := C\<rparr>) m (length ([] :: byte list option list)) ds q2 h3 = ok (CL_SUCCESS, p4, h4) \<and>
      binaries p4 = Some ([] @ map Some codes) \<and>
      build_hash p4 = build_hash q2 \<and> cache_dir p4 = cache_dir q2 \<and> contents h4 = contents h3 \<and> directory h4 = directory h3"
  proof (rule build_devices_cached)
    show "list_all2 (\<lambda>d code. contents h3 (bitcode_file (E\<lparr>compile := C\<rparr>) q2 d) = Some code \<and>
        settled (E\<lparr>compile := C\<rparr>) h3 (device_dir (E\<lparr>compile := C\<rparr>) q2 d)) ds codes"
      using C(4) settled_extends[OF e3] extends_contents[OF e3] by (auto simp: q q2 elim: list_all2_mono)
    show "keeps_cache (E\<lparr>compile := C\<rparr>) h3 src"
      using k extends_keeps[OF e1(2)] extends_keeps[OF h3(4)] by simp
  qed (use C(5,6) q2 in simp_all)
  then obtain p4 h4 where d4: "build_devices (E\<lparr>compile := C\<rparr>) m 0 ds q2 h3 = ok (CL_SUCCESS, p4, h4)"
      "binaries p4 = binaries p2" "build_hash p4 = build_hash p0" "cache_dir p4 = cache_dir p2"
      "contents h4 = contents h1" "directory h4 = directory h1"
    using C(1,3) q(3) h3(2,3) q2 by (auto simp: same_build_def)
  have "pocl_touch_file (E\<lparr>compile := C\<rparr>) (join_path POCL_FILENAME_LENGTH (the (cache_dir p4)) ''last_accessed'') h4 = ok h4"
    using t(2) d4 by (simp add: pocl_touch_file_def exists_path_def)
  then have "run_build (E\<lparr>compile := C\<rparr>) m ds i p1 (T1, h1, s) = ok (CL_SUCCESS, T1(i \<mapsto> p4\<lparr>build_status := CL_BUILD_SUCCESS\<rparr>), h4, s)"
    using run_build_source[of p1 src] p1(1) r(1) h3(1) d4(1) by (auto simp: q2_def)
  moreover have "real_devices p1 n dl = ok ds" using o(5) p1(3) by (simp add: real_devices_def split: if_splits)
  moreover have T1: "T1 i = Some (p2\<lparr>build_status := CL_BUILD_SUCCESS\<rparr>)" by (simp add: r(6))
  ultimately have "clBuildProgram (E\<lparr>compile := C\<rparr>) (Some i) n dl options notify user (T1, h1, s1) =
      ok (CL_SUCCESS, T1(i \<mapsto> p4\<lparr>build_status := CL_BUILD_SUCCESS\<rparr>), h4, s1)"
    using build_source[of s i P T1 "p2\<lparr>build_status := CL_BUILD_SUCCESS\<rparr>" src] P p1(1) o(1-4) by (auto simp: p1_def r(2))
  moreover have "build_hash p2 = build_hash p0" using C(3) by (simp add: same_build_def fresh_tables_def split: if_splits)
  ultimately show ?thesis using d4 T1 by auto
qed

section \<open>Building what is not in the cache\<close>

text \<open>What the loop finds or makes in the file of a device.\<close>

abbreviation code_in :: "'a option \<Rightarrow> 'a \<Rightarrow> 'a" where
  "code_in c new \<equiv> (case c of Some x \<Rightarrow> x | None \<Rightarrow> new)"

lemma fill_cache_code:
  assumes "source p = Some src" and "\<not> directory h bc" and "may_create E bc" and "compile E d (c_string src) m = Some (ir, code)"
    and "llvm_irs p = Some irs" and "j < length irs"
  obtains irs' where "length irs' = length irs" and
    "fill_cache E m j d bc p h = ok (True, p\<lparr>llvm_irs := Some irs'\<rparr>,
       h\<lparr>contents := (contents h)(bc \<mapsto> code_in (contents h bc) code)\<rparr>)"
proof (cases "contents h bc")
  case None
  then show thesis
    using that[of "irs[j := Some ir]"] assms by (simp add: fill_cache_def exists_path_def at_def)
next
  case (Some c)
  then have "p\<lparr>llvm_irs := Some irs\<rparr> = p" "h\<lparr>contents := (contents h)(bc \<mapsto> code_in (contents h bc) code)\<rparr> = h"
    using assms(5) by (simp_all add: map_upd_triv)
  then show thesis using that[of irs] Some by (simp add: fill_cache_def exists_path_def)
qed

lemma round_compiles:
  assumes "source p = Some src" and "keeps_cache E h src" and "binaries p = Some bs" and "j < length bs" and "bs ! j = None"
    and "binary_sizes p = Some z" and "j < length z" and "llvm_irs p = Some irs" and "j < length irs" and "binary_malloc E j"
    and "\<not> directory h (bitcode_file E p d)" and "device_dir E p d \<noteq> bitcode_file E p d" and "may_create E (bitcode_file E p d)"
    and "compile E d (c_string src) m = Some (ir, code)"
  obtains p1 h1 where "build_devices E m j (d # ds) p h =
      andthen (update_ir E d (bitcode_file E p d) p1 h1) (\<lambda>p. build_devices E m (j + 1) ds p h1)"
    and "binaries p1 = Some (bs[j := Some (code_in (contents h (bitcode_file E p d)) code)])" and "same_build p p1"
    and "contents h1 = (contents h)(bitcode_file E p d \<mapsto> code_in (contents h (bitcode_file E p d)) code)"
    and "\<forall>q. directory h1 q \<longrightarrow> directory h q \<or> q = device_dir E p d" and "keeps_cache E h1 src"
proof -
  let ?dir = "device_dir E p d" and ?bc = "bitcode_file E p d"
  define h0 where "h0 = make_directory E ?dir h"
  have e0: "extends E h h0" using make_extends by (simp add: h0_def)
  have h0: "contents h0 = contents h" "\<forall>q. directory h0 q \<longrightarrow> directory h q \<or> q = ?dir"
    by (auto simp: h0_def make_directory_def)
  obtain c where c: "pocl_check_and_invalidate_cache E (Some src) ?dir h0 = h0\<lparr>env_cache := c\<rparr>"
      "env_value (getenv E) c = env_value (getenv E) (env_cache h0)"
    using check_keeps[of E h0 src] assms(2) extends_keeps[OF e0] by blast
  define new where "new = code_in (contents h ?bc) code"
  define h1 where "h1 = h0\<lparr>env_cache := c, contents := (contents h)(?bc \<mapsto> new)\<rparr>"
  have k: "keeps_cache E h1 src"
    using assms(2) c(2) e0 by (simp add: keeps_cache_def h1_def extends_def)
  have n: "\<not> directory (h0\<lparr>env_cache := c\<rparr>) ?bc" using assms(11,12) h0 by auto
  obtain irs' where irs': "length irs' = length irs" "fill_cache E m j d ?bc p (h0\<lparr>env_cache := c\<rparr>) =
      ok (True, p\<lparr>llvm_irs := Some irs'\<rparr>, h1)"
    using fill_cache_code[OF assms(1) n assms(13,14,8,9)] unfolding h1_def new_def by (simp add: h0(1) flip: option.case_eq_if) blast
  define p1 where "p1 = p\<lparr>llvm_irs := Some irs', binary_sizes := Some (z[j := length new]), binaries := Some (bs[j := Some new])\<rparr>"
  have "read_binary E j ?bc (p\<lparr>llvm_irs := Some irs'\<rparr>) h1 = ok (True, p1)"
    using assms(3-7,10) by (simp add: read_binary_def at_def h1_def p1_def Let_def)
  with irs'(2) have "build_devices E m j (d # ds) p h = andthen (update_ir E d ?bc p1 h1) (\<lambda>p. build_devices E m (j + 1) ds p h1)"
    using assms(1) c(1) by (simp add: Let_def h0_def)
  then show thesis
    by (rule that) (use h0 k assms(6,8) irs'(1) in \<open>simp_all add: p1_def same_build_def h1_def new_def\<close>)
qed

text \<open>Devices that can be built: no directory has the name of a device's file.\<close>

definition fresh_devices :: "'ir build_setting \<Rightarrow> 'ir program_fields \<Rightarrow> host \<Rightarrow> nat list \<Rightarrow> bool" where
  "fresh_devices E p h ds \<longleftrightarrow> (\<forall>d \<in> set ds. \<not> directory h (bitcode_file E p d) \<and> may_create E (bitcode_file E p d) \<and>
     (\<forall>d' \<in> set ds. device_dir E p d' \<noteq> bitcode_file E p d))"

lemma fresh_devices_tl:
  assumes "fresh_devices E p h (d # ds)"
    and "\<forall>q. directory h1 q \<longrightarrow> directory h q \<or> q = device_dir E p d" and "cache_dir p1 = cache_dir p"
  shows "fresh_devices E p1 h1 ds"
proof -
  have "\<not> directory h1 (bitcode_file E p e)" if "e \<in> set ds" for e
  proof
    assume "directory h1 (bitcode_file E p e)"
    then have "directory h (bitcode_file E p e) \<or> bitcode_file E p e = device_dir E p d" using assms(2) by blast
    moreover have "\<not> directory h (bitcode_file E p e)" "device_dir E p d \<noteq> bitcode_file E p e"
      using assms(1) that by (simp_all add: fresh_devices_def)
    ultimately show False by (simp only: simp_thms eq_commute[of "bitcode_file E p e"])
  qed
  then show ?thesis using assms(1) unfolding fresh_devices_def assms(3) by simp
qed

text \<open>The first device of the list that uses the same file.\<close>

definition first_with :: "(nat \<Rightarrow> 'b) \<Rightarrow> nat list \<Rightarrow> nat \<Rightarrow> nat" where
  "first_with f ds d = hd (filter (\<lambda>d'. f d' = f d) ds)"

lemma first_with_Cons: "first_with f (d # ds) e = (if f e = f d then d else first_with f ds e)"
proof (cases "f d = f e")
  case True
  then show ?thesis by (simp add: first_with_def)
next
  case False
  then have "f e \<noteq> f d" by (rule not_sym)
  with False show ?thesis by (simp add: first_with_def)
qed

lemma first_with_distinct: "distinct (map f ds) \<Longrightarrow> d \<in> set ds \<Longrightarrow> first_with f ds d = d"
proof (induction ds)
  case (Cons a ds)
  then have "d \<noteq> a \<Longrightarrow> f d \<noteq> f a" by (metis distinct.simps(2) imageI image_set list.map(2) set_ConsD)
  then show ?case using Cons by (cases "d = a") (simp_all add: first_with_Cons)
qed simp

lemma first_with_cong:
  assumes "\<And>d e. d \<in> set ds \<Longrightarrow> e \<in> set ds \<Longrightarrow> f d = f e \<longleftrightarrow> g d = g e" and "d \<in> set ds"
  shows "first_with f ds d = first_with g ds d"
proof -
  have "filter (\<lambda>d'. f d' = f d) ds = filter (\<lambda>d'. g d' = g d) ds"
    by (rule filter_cong) (use assms in simp_all)
  then show ?thesis by (simp add: first_with_def)
qed

text \<open>What each device gets: what its file holds, else what the first device with the file writes there.\<close>

definition codes_from :: "(string \<Rightarrow> byte list option) \<Rightarrow> (nat \<Rightarrow> string) \<Rightarrow> (nat \<Rightarrow> byte list) \<Rightarrow> nat list \<Rightarrow> byte list list" where
  "codes_from cs f code ds = map (\<lambda>d. code_in (cs (f d)) (code (first_with f ds d))) ds"

lemma codes_from_Cons:
  "codes_from cs f code (d # ds) = code_in (cs (f d)) (code d) # codes_from (cs(f d \<mapsto> code_in (cs (f d)) (code d))) f code ds"
  unfolding codes_from_def list.map first_with_Cons by (intro arg_cong2[of _ _ _ _ Cons] map_cong) simp_all

lemma build_devices_compiles:
  assumes "source p = Some src" and "keeps_cache E h src" and "binaries p = Some (pre @ replicate (length ds) None)"
    and "fresh_devices E p h ds" and "\<forall>d \<in> set ds. \<exists>ir. compile E d (c_string src) m = Some (ir, code d)"
    and "\<forall>j < length pre + length ds. binary_malloc E j"
    and "\<exists>z. binary_sizes p = Some z \<and> length pre + length ds \<le> length z"
    and "\<exists>irs. llvm_irs p = Some irs \<and> length pre + length ds \<le> length irs \<and> (\<forall>d \<in> set ds. d < length irs)"
    and "f = bitcode_file E p"
  shows "\<exists>p' h'. build_devices E m (length pre) ds p h = ok (CL_SUCCESS, p', h') \<and>
    binaries p' = Some (pre @ map Some (codes_from (contents h) f code ds))"
  using assms
proof (induction ds arbitrary: pre p h)
  case Nil
  then show ?case by (simp add: codes_from_def)
next
  case (Cons d ds)
  let ?bs = "pre @ replicate (length (d # ds)) None" and ?bc = "bitcode_file E p d"
  define new where "new = code_in (contents h ?bc) (code d)"
  obtain z irs where z: "binary_sizes p = Some z" "length pre < length z" "llvm_irs p = Some irs" "length pre < length irs" "d < length irs"
    using Cons.prems(7,8) by auto
  obtain ir where ir: "compile E d (c_string src) m = Some (ir, code d)" using Cons.prems(5) by auto
  obtain p1 h1 where r: "build_devices E m (length pre) (d # ds) p h =
        andthen (update_ir E d ?bc p1 h1) (\<lambda>p. build_devices E m (length pre + 1) ds p h1)"
      "binaries p1 = Some (?bs[length pre := Some new])" "same_build p p1"
      "contents h1 = (contents h)(?bc \<mapsto> new)"
      "\<forall>q. directory h1 q \<longrightarrow> directory h q \<or> q = device_dir E p d" "keeps_cache E h1 src"
    unfolding new_def
    by (rule round_compiles[OF Cons.prems(1-3) _ _ z(1,2,3,4) _ _ _ _ ir])
      (use Cons.prems(4,6) in \<open>auto simp: fresh_devices_def\<close>)
  have "map_option length (llvm_irs p1) = Some (length irs)" "map_option length (binary_sizes p1) = Some (length z)"
    using r(3) z by (simp_all add: same_build_def)
  then have "\<exists>p2. update_ir E d ?bc p1 h1 = ok p2" using z(5) by (auto simp: update_ir_def at_def)
  then obtain p2 where u: "update_ir E d ?bc p1 h1 = ok p2" by blast
  have U: "same_build p1 p2" "binaries p2 = binaries p1" using update_ir_effect[OF u] by simp_all
  have s: "same_build p p2" using r(3) U(1) by (simp add: same_build_def)
  have "\<exists>p' h'. build_devices E m (length (pre @ [Some new])) ds p2 h1 = ok (CL_SUCCESS, p', h') \<and>
      binaries p' = Some ((pre @ [Some new]) @ map Some (codes_from (contents h1) f code ds))"
  proof (rule Cons.IH)
    show "fresh_devices E p2 h1 ds" using fresh_devices_tl[OF Cons.prems(4) r(5)] s by (simp add: same_build_def)
    show "\<exists>z. binary_sizes p2 = Some z \<and> length (pre @ [Some new]) + length ds \<le> length z"
      using s z Cons.prems(7) by (auto simp: same_build_def map_option_case split: option.splits)
    show "\<exists>irs. llvm_irs p2 = Some irs \<and> length (pre @ [Some new]) + length ds \<le> length irs \<and> (\<forall>d \<in> set ds. d < length irs)"
      using s z Cons.prems(8) by (auto simp: same_build_def map_option_case split: option.splits)
    show "f = bitcode_file E p2" using Cons.prems(9) s by (simp add: same_build_def)
  qed (use Cons.prems r U s in \<open>auto simp: same_build_def\<close>)
  moreover have "codes_from (contents h) f code (d # ds) = new # codes_from (contents h1) f code ds"
    unfolding codes_from_Cons r(4) new_def Cons.prems(9) by (rule refl)
  ultimately show ?case using r(1) u by (simp del: build_devices.simps)
qed

text \<open>Directory names of devices: short and without a slash.\<close>

definition good_names :: "'ir build_setting \<Rightarrow> nat list \<Rightarrow> bool" where
  "good_names E ds \<longleftrightarrow> (\<forall>d \<in> set ds. CHR ''/'' \<notin> set (cache_dir_name E d) \<and> length (cache_dir_name E d) \<le> 255)"

lemma bitcode_path:
  assumes "length (the (cache_dir p)) \<le> 511" and "length (cache_dir_name E d) \<le> 255"
  shows "device_dir E p d = the (cache_dir p) @ ''/'' @ cache_dir_name E d"
    and "bitcode_file E p d = the (cache_dir p) @ ''/'' @ cache_dir_name E d @ ''/program.bc''"
  using assms by (simp_all add: join_path_def)

lemma fresh_devices_paths:
  assumes l: "length (the (cache_dir p)) \<le> 511" and g: "good_names E ds"
    and e: "\<forall>q. exists_path h (q @ ''/program.bc'') \<longrightarrow> q @ ''/program.bc'' = the (cache_dir p)" and c: "\<forall>q. may_create E q"
  shows "fresh_devices E p h ds" and "d \<in> set ds \<Longrightarrow> contents h (bitcode_file E p d) = None"
    and "d \<in> set ds \<Longrightarrow> d' \<in> set ds \<Longrightarrow> bitcode_file E p d = bitcode_file E p d' \<longleftrightarrow> cache_dir_name E d = cache_dir_name E d'"
proof -
  have n: "length (cache_dir_name E d) \<le> 255" "CHR ''/'' \<notin> set (cache_dir_name E d)" if "d \<in> set ds" for d
    using g that by (simp_all add: good_names_def)
  note P = bitcode_path[OF l n(1)]
  have x: "\<not> exists_path h (bitcode_file E p d)" if "d \<in> set ds" for d
  proof
    assume x: "exists_path h (bitcode_file E p d)"
    then have "exists_path h ((the (cache_dir p) @ ''/'' @ cache_dir_name E d) @ ''/program.bc'')"
      by (simp only: P(2)[OF that] append_assoc)
    then have "(the (cache_dir p) @ ''/'' @ cache_dir_name E d) @ ''/program.bc'' = the (cache_dir p)" using e by blast
    from arg_cong[OF this, of length] show False by simp
  qed
  moreover have "device_dir E p d' \<noteq> bitcode_file E p d" if "d \<in> set ds" "d' \<in> set ds" for d d'
  proof
    assume "device_dir E p d' = bitcode_file E p d"
    then have "cache_dir_name E d' = cache_dir_name E d @ ''/program.bc''" by (simp only: P(2)[OF that(1)] P(1)[OF that(2)] same_append_eq)
    then show False using n(2)[OF that(2)] by simp
  qed
  ultimately show "fresh_devices E p h ds" using c unfolding fresh_devices_def exists_path_def by blast
  show "contents h (bitcode_file E p d) = None" if "d \<in> set ds" using x[OF that] by (simp add: exists_path_def)
  show "bitcode_file E p d = bitcode_file E p d' \<longleftrightarrow> cache_dir_name E d = cache_dir_name E d'" if "d \<in> set ds" "d' \<in> set ds"
    by (simp only: P(2)[OF that(1)] P(2)[OF that(2)] same_append_eq append_same_eq append_assoc)
qed

text \<open>An environment without failures, an empty cache, and parts of the hash shorter than \<open>2 ^ 32\<close>.\<close>

definition ready_to_build :: "'ir build_setting \<Rightarrow> host \<Rightarrow> string \<Rightarrow> string option \<Rightarrow> bool" where
  "ready_to_build E h src copts \<longleftrightarrow> keeps_cache E h src \<and> failing_table E = None \<and> (\<forall>j. binary_malloc E j) \<and> (\<forall>q. may_create E q) \<and>
     (\<forall>q. \<not> exists_path h (q @ ''/program.bc'')) \<and> length (hash_junk E) = 64 \<and> length src < 2 ^ 32 \<and> (\<forall>m. copts = Some m \<longrightarrow> length m < 2 ^ 32) \<and>
     length (fst (pocl_get_string_option (getenv E) (env_cache h) ''POCL_WORK_GROUP_METHOD'' [])) < 2 ^ 32 \<and>
     (\<forall>v \<in> {package_version (hash_parts E), llvm_version (hash_parts E), build_timestamp (hash_parts E)}. length v < 2 ^ 32) \<and>
     (\<forall>f \<in> set (device_hashes (hash_parts E)). f = None)"

lemma cache_path_length: "pocl_create_program_cache_dir E hash h = (cd, h') \<Longrightarrow> length cd \<le> 511"
  by (auto simp: pocl_create_program_cache_dir_def home_cache_path_def join_path_def Let_def split: option.splits if_splits)

lemma prepare_ready:
  assumes "ready_to_build E h src copts" and "source p = Some src" and "compiler_options p = copts"
  obtains p0 h0 where "prepare_build E p h = Some (p0, h0)" and "length (the (cache_dir p0)) \<le> 511"
    and "\<forall>q. exists_path h0 (q @ ''/program.bc'') \<longrightarrow> q @ ''/program.bc'' = the (cache_dir p0)" and "keeps_cache E h0 src"
proof -
  obtain wg c where c: "pocl_get_string_option (getenv E) (env_cache h) ''POCL_WORK_GROUP_METHOD'' [] = (wg, c)" by (metis surj_pair)
  have "length (c_string src) \<le> length src" by (simp add: c_string_def length_takeWhile_le)
  with assms(1) c have "\<exists>hash. build_program_compute_hash ((hash_parts E)\<lparr>wg_method := map of_char wg\<rparr>) (hash_junk E)
      (Some (map of_char (c_string src))) b (map_option (map of_char) copts) = Some hash" for b
    by - (rule exI, rule build_hash_sha1, auto simp: ready_to_build_def)
  then obtain hash where hash: "build_program_compute_hash ((hash_parts E)\<lparr>wg_method := map of_char wg\<rparr>) (hash_junk E)
      (Some (map of_char (c_string src)))
      (map (\<lambda>b. case b of Some a \<Rightarrow> a | None \<Rightarrow> []) (case binaries p of Some bs \<Rightarrow> bs | None \<Rightarrow> []))
      (map_option (map of_char) copts) = Some hash" by blast
  obtain cd h0 where d: "pocl_create_program_cache_dir E hash (h\<lparr>env_cache := c\<rparr>) = (cd, h0)" by fastforce
  have P: "prepare_build E p h = Some (p\<lparr>build_hash := hash, cache_dir := Some cd\<rparr>, h0)"
    using hash d assms(2,3) by (simp add: prepare_build_def c)
  have "exists_path h0 q \<longrightarrow> exists_path h q \<or> q = cd" for q
    unfolding created_dir[OF d] by (auto simp: make_directory_def exists_path_def)
  then have "\<forall>q. exists_path h0 (q @ ''/program.bc'') \<longrightarrow> q @ ''/program.bc'' = cd"
    using assms(1) unfolding ready_to_build_def by blast
  moreover have "keeps_cache E h0 src"
    using prepare_fields[OF P] extends_keeps assms(1) unfolding ready_to_build_def by blast
  ultimately show thesis using that[OF P] cache_path_length[OF d] by simp
qed

lemma fresh_build:
  assumes P: "programs s i = Some P" "p_kernels P = None" and p: "T i = Some p" "source p = Some src"
    and args: "user \<longrightarrow> notify" "n = 0 \<longleftrightarrow> dl = None" "set_options options = ok (Some (m, copts))" "real_devices p n dl = ok ds"
    and E: "ready_to_build E h src copts" "good_names E ds" "\<forall>d \<in> set ds. d < length ds"
    and compiles: "\<forall>d \<in> set ds. \<exists>ir. compile E d (c_string src) m = Some (ir, code d)"
  shows "\<exists>T1 h1. clBuildProgram E (Some i) n dl options notify user (T, h, s) = ok (CL_SUCCESS, T1, h1, s) \<and>
    binaries (the (T1 i)) = Some (map (\<lambda>d. Some (code (first_with (cache_dir_name E) ds d))) ds)"
proof -
  let ?p = "p\<lparr>compiler_options := copts\<rparr>"
  obtain p0 h0 where p0: "prepare_build E ?p h = Some (p0, h0)" "length (the (cache_dir p0)) \<le> 511"
      "\<forall>q. exists_path h0 (q @ ''/program.bc'') \<longrightarrow> q @ ''/program.bc'' = the (cache_dir p0)" "keeps_cache E h0 src"
    using prepare_ready[OF E(1), of ?p] p(2) by auto
  let ?q = "fresh_tables (length ds) p0"
  have q: "source ?q = Some src" "cache_dir ?q = cache_dir p0" "binaries ?q = Some ([] @ replicate (length ds) None)"
      "binary_sizes ?q = Some (replicate (length ds) 0)" "llvm_irs ?q = Some (replicate (length ds) None)"
    using prepare_fields[OF p0(1)] p(2) by (simp_all add: fresh_tables_def)
  have c: "length (the (cache_dir ?q)) \<le> 511" "\<forall>q. exists_path h0 (q @ ''/program.bc'') \<longrightarrow> q @ ''/program.bc'' = the (cache_dir ?q)"
    "\<forall>q. may_create E q" using p0 E by (simp_all add: q ready_to_build_def)
  note f = fresh_devices_paths[OF c(1) E(2) c(2,3)]
  have "\<exists>p' h'. build_devices E m (length ([] :: byte list option list)) ds ?q h0 = ok (CL_SUCCESS, p', h') \<and>
      binaries p' = Some ([] @ map Some (codes_from (contents h0) (bitcode_file E ?q) code ds))"
    by (rule build_devices_compiles[OF q(1) p0(4) q(3) f(1) compiles]) (use E q in \<open>simp_all add: ready_to_build_def\<close>)
  moreover have "codes_from (contents h0) (bitcode_file E ?q) code ds = map (\<lambda>d. code (first_with (cache_dir_name E) ds d)) ds"
    unfolding codes_from_def using f(2) first_with_cong[OF f(3)] by simp
  ultimately obtain p2 h2 where d: "build_devices E m 0 ds ?q h0 = ok (CL_SUCCESS, p2, h2)"
      "binaries p2 = Some (map (\<lambda>d. Some (code (first_with (cache_dir_name E) ds d))) ds)" by auto
  have "\<exists>h1. pocl_touch_file E (join_path POCL_FILENAME_LENGTH (the (cache_dir p2)) ''last_accessed'') h2 = ok h1"
    using E(1) by (simp add: pocl_touch_file_def ready_to_build_def)
  then obtain h1 where "pocl_touch_file E (join_path POCL_FILENAME_LENGTH (the (cache_dir p2)) ''last_accessed'') h2 = ok h1" by blast
  then have "run_build E m ds i ?p (T, h, s) = ok (CL_SUCCESS, T(i \<mapsto> p2\<lparr>build_status := CL_BUILD_SUCCESS\<rparr>), h1, s)"
    using run_build_source[of ?p src] p(2) E(1) p0(1) d(1) by (auto simp: ready_to_build_def)
  then have "clBuildProgram E (Some i) n dl options notify user (T, h, s) =
      ok (CL_SUCCESS, T(i \<mapsto> p2\<lparr>build_status := CL_BUILD_SUCCESS\<rparr>), h1, s)"
    using build_source[OF P(1), where T = T, OF p] P(2) args by (auto simp: real_devices_def split: if_splits)
  then show ?thesis using d(2) by auto
qed

text \<open>C64: Building a source that is not in the cache succeeds on devices numbered below their count: the
  binary of each device is the compiler's for the source up to the first null, the accepted options and
  the first device of the list that has the same directory name, because the devices of a name share
  one file; with different names it is the compiler's for the device itself. Hypotheses: the cache is
  switched on and the source includes no file, nothing called \<open>program.bc\<close> is on the disk, every allocation
  succeeds and every file can be created, the texts of the hash are shorter than \<open>2 ^ 32\<close> and no device adds
  one of its own, directory names are at most 255 characters without a slash, the compiler accepts
  the source for each device, and the program has no kernels yet.\<close>

theorem build_compiles:
  assumes P: "programs s i = Some P" "p_kernels P = None" and p: "T i = Some p" "source p = Some src"
    and args: "user \<longrightarrow> notify" "n = 0 \<longleftrightarrow> dl = None" "set_options options = ok (Some (m, copts))" "real_devices p n dl = ok ds"
    and E: "ready_to_build E h src copts" "good_names E ds" "\<forall>d \<in> set ds. d < length ds"
    and compiles: "\<forall>d \<in> set ds. \<exists>ir. compile E d (c_string src) m = Some (ir, code d)"
  shows "\<exists>T1 h1. clBuildProgram E (Some i) n dl options notify user (T, h, s) = ok (CL_SUCCESS, T1, h1, s) \<and>
    binaries (the (T1 i)) = Some (map (\<lambda>d. Some (code (first_with (cache_dir_name E) ds d))) ds) \<and>
    (distinct (map (cache_dir_name E) ds) \<longrightarrow> binaries (the (T1 i)) = Some (map (Some \<circ> code) ds))"
proof -
  have "\<exists>T1 h1. clBuildProgram E (Some i) n dl options notify user (T, h, s) = ok (CL_SUCCESS, T1, h1, s) \<and>
      binaries (the (T1 i)) = Some (map (\<lambda>d. Some (code (first_with (cache_dir_name E) ds d))) ds)"
    by (rule fresh_build) (use assms in blast)+
  then show ?thesis by (auto simp: first_with_distinct)
qed

text \<open>C65: The table of modules has an entry for each device that is built and is used with the number of the
  device in the system: when the first device of the list has a number that is not below the length
  of the list, the build accesses memory behind the table. This is so for any single device but
  the first of the system.\<close>

theorem build_overruns:
  assumes P: "programs s i = Some P" "p_kernels P = None" and p: "T i = Some p" "source p = Some src"
    and args: "user \<longrightarrow> notify" "n = 0 \<longleftrightarrow> dl = None" "set_options options = ok (Some (m, copts))" "real_devices p n dl = ok (d # ds)"
    and E: "ready_to_build E h src copts" "good_names E (d # ds)" "length (d # ds) \<le> d"
    and compiles: "compile E d (c_string src) m \<noteq> None"
  shows "clBuildProgram E (Some i) n dl options notify user (T, h, s) = throw OutOfBounds"
proof -
  let ?p = "p\<lparr>compiler_options := copts\<rparr>"
  obtain p0 h0 where p0: "prepare_build E ?p h = Some (p0, h0)" "length (the (cache_dir p0)) \<le> 511"
      "\<forall>q. exists_path h0 (q @ ''/program.bc'') \<longrightarrow> q @ ''/program.bc'' = the (cache_dir p0)" "keeps_cache E h0 src"
    using prepare_ready[OF E(1), of ?p] p(2) by auto
  define k where "k = length (d # ds)"
  let ?q = "fresh_tables k p0"
  have q: "source ?q = Some src" "cache_dir ?q = cache_dir p0" "binaries ?q = Some (replicate k None)"
      "binary_sizes ?q = Some (replicate k 0)" "llvm_irs ?q = Some (replicate k None)"
    using prepare_fields[OF p0(1)] p(2) by (simp_all add: fresh_tables_def)
  have c: "length (the (cache_dir ?q)) \<le> 511" "\<forall>q. exists_path h0 (q @ ''/program.bc'') \<longrightarrow> q @ ''/program.bc'' = the (cache_dir ?q)"
    "\<forall>q. may_create E q" using p0 E by (simp_all add: q ready_to_build_def)
  note f = fresh_devices_paths(1)[OF c(1) E(2) c(2,3)]
  obtain ir code where ir: "compile E d (c_string src) m = Some (ir, code)" using compiles by auto
  obtain p1 h1 where r: "build_devices E m 0 (d # ds) ?q h0 =
        andthen (update_ir E d (bitcode_file E ?q d) p1 h1) (\<lambda>p. build_devices E m (0 + 1) ds p h1)" "same_build ?q p1"
    by (rule round_compiles[OF q(1) p0(4) q(3) _ _ q(4) _ q(5) _ _ _ _ _ ir])
      (use f E(1) in \<open>auto simp: fresh_devices_def ready_to_build_def k_def\<close>)
  obtain irs where "llvm_irs p1 = Some irs" "length irs = k" using r(2) q(5) by (auto simp: same_build_def k_def)
  then have "update_ir E d (bitcode_file E ?q d) p1 h1 = throw OutOfBounds" using E(3) by (simp add: update_ir_def at_def k_def)
  then have "build_devices E m 0 (d # ds) ?q h0 = throw OutOfBounds" using r(1) by (simp del: build_devices.simps)
  then have "run_build E m (d # ds) i ?p (T, h, s) = throw OutOfBounds"
    using p0(1) E(1) by (simp add: run_build_def ready_to_build_def k_def del: build_devices.simps)
  then show ?thesis using P p args by (cases dl) (auto simp: clBuildProgram_def fetch_def real_devices_def split: if_splits)
qed

text \<open>A compiler that answers the source as the module and the options as the bitcode; a program with the
  two devices of the system, and one with the second device only.\<close>

definition sample_setting :: "string build_setting" where
  "sample_setting = \<lparr>getenv = (\<lambda>_. None), may_write = (\<lambda>_. True), may_make = (\<lambda>_. True), may_create = (\<lambda>_. True),
     cache_dir_name = (\<lambda>d. if d = 0 then ''pthread'' else ''basic''), hash_parts = no_devices, hash_junk = replicate 64 0,
     failing_table = None, binary_malloc = (\<lambda>_. True), compile = (\<lambda>d src opts. Some (src, map of_char opts)),
     parse_ir = (\<lambda>_. None)\<rparr>"

definition empty_disk :: host where
  "empty_disk = \<lparr>directory = (\<lambda>_. False), contents = (\<lambda>_. None), env_cache = []\<rparr>"

definition sample_program :: "nat list \<Rightarrow> string program_fields" where
  "sample_program ds = \<lparr>source = Some ''kernel'', compiler_options = None, prog_devices = ds, binary_sizes = None,
     binaries = None, llvm_irs = None, cache_dir = None, build_hash = [], build_status = CL_BUILD_NONE\<rparr>"

definition sample_references :: cl_program where
  "sample_references = \<lparr>p_refcount = 1, p_context = 0, p_kernels = None\<rparr>"

definition program_state :: cl_state where
  "program_state = no_objects\<lparr>programs := [0 \<mapsto> sample_references]\<rparr>"

lemma sample_ready: "ready_to_build sample_setting empty_disk ''kernel'' copts \<longleftrightarrow> (\<forall>m. copts = Some m \<longrightarrow> length m < 2 ^ 32)"
proof -
  have "\<not> has_include (c_string ''kernel'')" by code_simp
  then show ?thesis
    by (simp add: ready_to_build_def sample_setting_def empty_disk_def keeps_cache_def env_value_def exists_path_def no_devices_def)
qed

lemma sample_names: "good_names sample_setting ds"
  by (simp add: good_names_def sample_setting_def)

lemma sample_options: "set_options (Some ''-DN=4'') = ok (Some (''-DN=4 '', Some ''-DN=4 ''))"
  by code_simp

lemma sample_compiles: "compile sample_setting d src m = Some (src, map of_char m)"
  by (simp add: sample_setting_def)

lemma short_options_safe_witness:
  "(\<exists>r. modded_options ''-DN=4 -w'' = ok r) \<or>
    modded_options ''-DN=4 -w'' = throw NullDeref \<and>
      (\<exists>ts. tokens ''-DN=4 -w'' = ts @ [''-D''] \<or> tokens ''-DN=4 -w'' = ts @ [''-I''])"
  by (rule short_options_safe) code_simp

text \<open>Two devices of one driver, for which the compiler answers their number.\<close>

definition twin_setting :: "string build_setting" where
  "twin_setting = sample_setting\<lparr>cache_dir_name := (\<lambda>_. ''pthread''), compile := (\<lambda>d src opts. Some (src, [of_nat d]))\<rparr>"

lemma twin_ready: "ready_to_build twin_setting empty_disk ''kernel'' (Some ''-DN=4 '')" "good_names twin_setting ds"
  using sample_ready[of "Some ''-DN=4 ''"]
  by (simp_all add: ready_to_build_def keeps_cache_def twin_setting_def good_names_def)

lemma build_compiles_witness:
  "\<exists>T1 h1. clBuildProgram twin_setting (Some 0) 0 None (Some ''-DN=4'') False False
      ([0 \<mapsto> sample_program [0, 1]], empty_disk, program_state) = ok (CL_SUCCESS, T1, h1, program_state) \<and>
    binaries (the (T1 0)) = Some [Some [0], Some [0]]"
proof -
  have "\<exists>T1 h1. clBuildProgram twin_setting (Some 0) 0 None (Some ''-DN=4'') False False
      ([0 \<mapsto> sample_program [0, 1]], empty_disk, program_state) = ok (CL_SUCCESS, T1, h1, program_state) \<and>
    binaries (the (T1 0)) = Some (map (\<lambda>d. Some ((\<lambda>d. [of_nat d]) (first_with (cache_dir_name twin_setting) [0, 1] d))) [0 :: nat, 1]) \<and>
    (distinct (map (cache_dir_name twin_setting) [0, 1]) \<longrightarrow>
      binaries (the (T1 0)) = Some (map (Some \<circ> (\<lambda>d. [of_nat d])) [0 :: nat, 1]))"
    by (rule build_compiles[where P = sample_references and p = "sample_program [0, 1]" and src = "''kernel''", OF _ _ _ _ _ _ sample_options _ twin_ready])
      (simp_all add: program_state_def sample_references_def sample_program_def real_devices_def twin_setting_def)
  then show ?thesis by (simp add: first_with_def twin_setting_def)
qed

lemma build_overruns_witness:
  "clBuildProgram sample_setting (Some 0) 0 None (Some ''-DN=4'') False False
    ([0 \<mapsto> sample_program [1]], empty_disk, program_state) = throw OutOfBounds"
  by (rule build_overruns[where P = sample_references and p = "sample_program [1]" and src = "''kernel''" and d = 1 and ds = "[]", OF _ _ _ _ _ _ sample_options _ _ sample_names])
    (simp_all add: program_state_def sample_references_def sample_program_def real_devices_def sample_ready sample_compiles)

text \<open>The second build with a compiler that fails.\<close>

lemma rebuild_uses_cache_witness:
  "\<exists>T1 h1 T2 h2. clBuildProgram sample_setting (Some 0) 0 None (Some ''-DN=4'') False False
      ([0 \<mapsto> sample_program [0, 1]], empty_disk, program_state) = ok (CL_SUCCESS, T1, h1, program_state) \<and>
    clBuildProgram (sample_setting\<lparr>compile := (\<lambda>d src opts. None)\<rparr>) (Some 0) 0 None (Some ''-DN=4'') False False
      (T1, h1, program_state) = ok (CL_SUCCESS, T2, h2, program_state) \<and>
    contents h2 = contents h1 \<and> directory h2 = directory h1 \<and>
    binaries (the (T2 0)) = binaries (the (T1 0)) \<and> build_hash (the (T2 0)) = build_hash (the (T1 0))"
proof -
  have r: "ready_to_build sample_setting empty_disk ''kernel'' (Some ''-DN=4 '')" by (simp add: sample_ready)
  have "\<exists>T1 h1. clBuildProgram sample_setting (Some 0) 0 None (Some ''-DN=4'') False False
      ([0 \<mapsto> sample_program [0, 1]], empty_disk, program_state) = ok (CL_SUCCESS, T1, h1, program_state) \<and>
    binaries (the (T1 0)) = Some (map (\<lambda>d. Some ((\<lambda>d. map of_char ''-DN=4 '') (first_with (cache_dir_name sample_setting) [0, 1] d))) [0 :: nat, 1])"
    by (rule fresh_build[where P = sample_references and p = "sample_program [0, 1]" and src = "''kernel''", OF _ _ _ _ _ _ sample_options _ r sample_names])
      (simp_all add: program_state_def sample_references_def sample_program_def real_devices_def sample_compiles)
  then obtain T1 h1 where b: "clBuildProgram sample_setting (Some 0) 0 None (Some ''-DN=4'') False False
      ([0 \<mapsto> sample_program [0, 1]], empty_disk, program_state) = ok (CL_SUCCESS, T1, h1, program_state)" by blast
  show ?thesis
    using b rebuild_uses_cache[OF b, of "sample_program [0, 1]" "''kernel''" "\<lambda>d src opts. None"] r
    by (auto simp: sample_program_def ready_to_build_def)
qed

section \<open>Kernels\<close>

lemma metadata_refcount:
  assumes "pocl_llvm_get_kernel_metadata G p k d name = ok (err, K)"
  shows "k_refcount K = k_refcount k"
proof (cases "llvm_irs p = None")
  case False
  with assms obtain ir where i: "at (llvm_irs p) d = ok ir" "(case ir of None \<Rightarrow> ok (CL_INVALID_PROGRAM_EXECUTABLE, k) | Some input \<Rightarrow>
      case G input name of None \<Rightarrow> ok (CL_INVALID_KERNEL_NAME, k) | Some (args, locals) \<Rightarrow>
      ok (CL_SUCCESS, k\<lparr>num_args := length args, num_locals := length locals,
            dyn_arguments := replicate (length args) \<lparr>arg_size = 0, arg_val = None\<rparr> @
                             map (\<lambda>n. \<lparr>arg_size = n, arg_val = None\<rparr>) locals,
            arg_info := map (\<lambda>(t, l). \<lparr>arg_type = t, is_local = l, is_set = False\<rparr>) args\<rparr>)) = ok (err, K)"
    by (auto simp: pocl_llvm_get_kernel_metadata_def andthen_eq_ok simp del: split_paired_Ex split: if_splits)
  then show ?thesis by (cases ir) (auto split: option.splits)
qed (use assms in \<open>auto simp: pocl_llvm_get_kernel_metadata_def split: if_splits\<close>)

lemma kernel_on_devices_refcount:
  "kernel_on_devices E G name p h j ds k = ok (CL_SUCCESS, K) \<Longrightarrow>
   k_refcount K = k_refcount k + int (length ds) - (if j = 0 \<and> ds \<noteq> [] then 1 else 0)"
proof (induction ds arbitrary: j k)
  case (Cons d ds)
  define k1 where "k1 = (if 0 < j then k\<lparr>k_refcount := k_refcount k + 1\<rparr> else k)"
  have "\<exists>k'. kernel_on_devices E G name p h (j + 1) ds k' = ok (CL_SUCCESS, K) \<and> k_refcount k' = k_refcount k1"
  proof (cases "cache_dir p")
    case (Some cd)
    show ?thesis
    proof (cases "exists_path h (join_path POCL_FILENAME_LENGTH cd (cache_dir_name E d))")
      case True
      with Cons.prems Some obtain err k' where "pocl_llvm_get_kernel_metadata G p k1 d name = ok (err, k')"
          "(if err \<noteq> CL_SUCCESS then ok (err, k') else kernel_on_devices E G name p h (j + 1) ds k') = ok (CL_SUCCESS, K)"
        by (auto simp: Let_def andthen_eq_ok k1_def)
      then show ?thesis using metadata_refcount[of G p k1 d name err k'] by (intro exI[of _ k']) (auto split: if_splits)
    next
      case False
      then show ?thesis using Cons.prems Some by (auto simp: Let_def k1_def)
    qed
  qed (use Cons.prems in simp)
  then show ?case using Cons.IH[of "j + 1"] by (auto simp: k1_def)
qed simp

fun release_times :: "nat \<Rightarrow> nat \<Rightarrow> cl_state \<Rightarrow> cl_state prog" where
  "release_times 0 k s = ok s"
| "release_times (Suc n) k s = andthen (clReleaseKernel (Some k) s) (\<lambda>(err, s'). release_times n k s')"

lemma release_times_last:
  "release_times (Suc n) k s = andthen (release_times n k s) (\<lambda>s'. andthen (clReleaseKernel (Some k) s') (\<lambda>(err, s''). ok s''))"
proof (induction n arbitrary: s)
  case (Suc n)
  let ?last = "\<lambda>s'. andthen (clReleaseKernel (Some k) s') (\<lambda>(err, s''). ok s'')"
  have "release_times (Suc (Suc n)) k s = andthen (clReleaseKernel (Some k) s) (\<lambda>(err, s'). andthen (release_times n k s') ?last)"
    by (simp only: release_times.simps(2)[of "Suc n"] Suc.IH split_def)
  also have "\<dots> = andthen (release_times (Suc n) k s) ?last"
    by (simp only: release_times.simps(2)[of n k s] andthen_assoc split_def)
  finally show ?case .
qed (simp add: split_def)

lemma release_keeps_kernel:
  assumes "kernels s k = Some K" and "int n < k_refcount K"
  shows "release_times n k s = ok (put_kernel k (K\<lparr>k_refcount := k_refcount K - int n\<rparr>) s)"
  using assms(2)
proof (induction n)
  case 0
  then show ?case using assms(1) by (simp add: fun_upd_idem)
next
  case (Suc n)
  let ?s = "put_kernel k (K\<lparr>k_refcount := k_refcount K - int n\<rparr>) s"
  have "clReleaseKernel (Some k) ?s = ok (CL_SUCCESS, put_kernel k (K\<lparr>k_refcount := k_refcount K - int (Suc n)\<rparr>) ?s)"
    using Suc.prems by (simp add: clReleaseKernel_def release_kernel_def fetch_def Let_def algebra_simps)
  moreover have "put_kernel k (K\<lparr>k_refcount := k_refcount K - int (Suc n)\<rparr>) ?s = put_kernel k (K\<lparr>k_refcount := k_refcount K - int (Suc n)\<rparr>) s"
    by (cases s) (simp add: fun_eq_iff)
  moreover have "release_times n k s = ok ?s" by (rule Suc.IH) (use Suc.prems in simp)
  ultimately show ?case by (simp only: release_times_last andthen_ok prod.case)
qed

text \<open>Note: A created kernel holds one reference for each device of its program, and its program one more. As many
  releases as there are devices give all back: the kernel is gone, the program has its old count and
  list of kernels. After fewer releases, and so after the caller's only one when there are several
  devices, the kernel stays alive.\<close>

theorem create_release_kernel:
  assumes c: "clCreateKernel E G (Some k) junk (Some i) (Some name) (T, h, s) = ok (Some k, CL_SUCCESS, s1)"
    and T: "T i = Some p" and P: "programs s i = Some P" "0 < p_refcount P" and fresh: "kernels s k = None"
  shows "\<exists>K. kernels s1 k = Some K \<and> k_refcount K = int (length (prog_devices p)) \<and>
    programs s1 i = Some (P\<lparr>p_kernels := Some k, p_refcount := p_refcount P + 1\<rparr>) \<and>
    release_times (length (prog_devices p)) k s1 = ok (s\<lparr>kernel_next := (kernel_next s)(k := p_kernels P)\<rparr>) \<and>
    (\<forall>n < length (prog_devices p). \<exists>s2. release_times n k s1 = ok s2 \<and> kernels s2 k \<noteq> None)"
proof -
  let ?n = "length (prog_devices p)"
  obtain K0 where k: "prog_devices p \<noteq> []" "kernel_on_devices E G name p h 0 (prog_devices p) (junk\<lparr>k_refcount := 1\<rparr>) = ok (CL_SUCCESS, K0)"
      and s1: "retain_program i (put_program i (P\<lparr>p_kernels := Some k\<rparr>)
                    (put_kernel k (K0\<lparr>k_context := p_context P, k_program := Some i\<rparr>)
                      (s\<lparr>kernel_next := (kernel_next s)(k := p_kernels P)\<rparr>))) = ok s1"
    using c T P(1) by (auto simp: clCreateKernel_def fetch_def andthen_eq_ok split: if_splits)
  define K where "K = K0\<lparr>k_context := p_context P, k_program := Some i\<rparr>"
  define P1 where "P1 = P\<lparr>p_kernels := Some k, p_refcount := p_refcount P + 1\<rparr>"
  have K: "k_refcount K = int ?n" "k_program K = Some i" using kernel_on_devices_refcount[OF k(2)] k(1) by (simp_all add: K_def)
  let ?sl = "s\<lparr>kernel_next := (kernel_next s)(k := p_kernels P)\<rparr>"
  have s1: "s1 = put_program i P1 (put_kernel k K ?sl)"
    using s1 by (simp add: retain_program_def fetch_def K_def P1_def)
  have k1: "kernels s1 k = Some K" by (simp add: s1)
  have early: "release_times n k s1 = ok (put_kernel k (K\<lparr>k_refcount := int ?n - int n\<rparr>) s1)" if "n < ?n" for n
    using release_keeps_kernel[OF k1, of n] that by (simp add: K(1))
  obtain m where m: "?n = Suc m" using k(1) by (cases ?n) auto
  let ?s2 = "put_kernel k (K\<lparr>k_refcount := 1\<rparr>) s1"
  have "clReleaseKernel (Some k) ?s2 = ok (CL_SUCCESS, ?sl)"
  proof -
    let ?s3 = "put_kernel k (K\<lparr>k_refcount := 0\<rparr>) ?s2"
    have "unlink_kernel i k ?s3 = ok (True, put_program i (P1\<lparr>p_kernels := p_kernels P\<rparr>) ?s3)"
      by (simp add: unlink_kernel_def fetch_def s1 P1_def foreach_find.simps[of _ _ "Some k"])
    moreover have "clReleaseProgram (Some i) (put_program i (P1\<lparr>p_kernels := p_kernels P\<rparr>) ?s3) = ok (CL_SUCCESS, put_program i P ?s3)"
      using P(2) by (simp add: clReleaseProgram_def release_program_def fetch_def Let_def P1_def)
    moreover have "(put_program i P ?s3)\<lparr>kernels := (kernels (put_program i P ?s3))(k := None)\<rparr> = ?sl"
      using P(1) fresh by (cases s) (simp add: s1 fun_upd_idem)
    ultimately show ?thesis
      by (simp add: clReleaseKernel_def release_kernel_def fetch_def Let_def K(2))
  qed
  then have all: "release_times ?n k s1 = ok ?sl"
    using early[of m] m by (simp add: release_times_last del: release_times.simps)
  show ?thesis
    by (rule exI[of _ K]) (use all early K in \<open>simp add: s1 P1_def del: release_times.simps\<close>)
qed

section \<open>Programs created from sources\<close>

text \<open>What one string contributes.\<close>

definition piece :: "string list \<Rightarrow> size_t list option \<Rightarrow> nat \<Rightarrow> string" where
  "piece areas lengths i =
     (case lengths of Some l \<Rightarrow> if l ! i = 0 then c_string (areas ! i) else take (unat (l ! i)) (areas ! i)
      | None \<Rightarrow> c_string (areas ! i))"

definition readable :: "string list \<Rightarrow> size_t list option \<Rightarrow> nat \<Rightarrow> bool" where
  "readable areas lengths i \<longleftrightarrow> i < length areas \<and>
     (case lengths of Some l \<Rightarrow> i < length l \<and> (if l ! i = 0 then CHR 0x00 \<in> set (areas ! i) else unat (l ! i) \<le> length (areas ! i))
      | None \<Rightarrow> CHR 0x00 \<in> set (areas ! i))"

lemma source_size_pieces:
  "\<forall>i \<in> set is. readable areas lengths i \<Longrightarrow>
   source_size (map Some areas) lengths is sz = ok (Some (sz + of_nat (length (concat (map (piece areas lengths) is)))))"
proof (induction "is" arbitrary: sz)
  case (Cons i "is")
  then show ?case
    by (auto simp: readable_def piece_def given_length_def c_strlen_def ac_simps of_nat_add split: option.splits)
qed simp

lemma c_string_take: "take (length (c_string a)) a = c_string a"
  unfolding c_string_def by (rule takeWhile_eq_take[symmetric])

lemma copy_sources_pieces:
  "\<forall>i \<in> set is. readable areas lengths i \<Longrightarrow> length written + length (concat (map (piece areas lengths) is)) \<le> room \<Longrightarrow>
   copy_sources (map Some areas) lengths is room written = ok (written @ concat (map (piece areas lengths) is))"
proof (induction "is" arbitrary: written)
  case (Cons i "is")
  have "length (c_string a) \<le> length a" for a by (simp add: c_string_def length_takeWhile_le)
  then show ?case using Cons
    by (auto simp: readable_def piece_def given_length_def c_strlen_def copy_behind_def c_string_take split: option.splits if_splits)
qed simp

text \<open>The source of a created program: the strings one after the other.\<close>

lemma created_source:
  assumes "areas \<noteq> []" and "\<forall>i < length areas. readable areas lengths i"
    and "length (concat (map (piece areas lengths) [0..<length areas])) < 2 ^ 32 - 1" and "contexts s c = Some C"
  shows "\<exists>T1 s1 p. clCreateProgramWithSource (Some i) True junk (Some c) (length areas) (map Some areas) lengths (T, s) =
      ok (Some i, CL_SUCCESS, T1, s1) \<and> T1 i = Some p \<and>
    source p = Some (concat (map (piece areas lengths) [0..<length areas])) \<and> prog_devices p = ctx_devices C \<and>
    contexts s1 = (contexts s)(c \<mapsto> C\<lparr>ctx_refcount := ctx_refcount C + 1\<rparr>)"
proof -
  let ?w = "concat (map (piece areas lengths) [0..<length areas])"
  have "unat (of_nat (length ?w) + 1 :: u32) = length ?w + 1"
  proof -
    have "of_nat (length ?w) + 1 = (of_nat (length ?w + 1) :: u32)" by simp
    moreover have "unat (of_nat (length ?w + 1) :: u32) = length ?w + 1"
      using assms(3) by (simp only: unsigned_of_nat) (simp add: take_bit_nat_eq_self)
    ultimately show ?thesis by (simp only:)
  qed
  moreover have "source_size (map Some areas) lengths [0..<length areas] 0 = ok (Some (of_nat (length ?w)))"
    using source_size_pieces[of "[0..<length areas]" areas lengths 0] assms(2) by simp
  moreover have "copy_sources (map Some areas) lengths [0..<length areas] (length ?w + 1) [] = ok ?w"
    using copy_sources_pieces[of "[0..<length areas]" areas lengths "[]" "length ?w + 1"] assms(2) by simp
  ultimately show ?thesis using assms(1,4)
    by (simp add: clCreateProgramWithSource_def fetch_def retain_context_def)
qed

text \<open>A null context is not rejected; the sum of the lengths wraps.\<close>

lemma null_context_crashes:
  "clCreateProgramWithSource (Some i) True junk None 1 [Some [CHR 0x00]] None (T, s) = throw NullDeref"
  by (simp add: clCreateProgramWithSource_def c_strlen_def given_length_def copy_behind_def c_string_def)

lemma source_size_wraps:
  assumes "2 ^ 31 \<le> length a"
  shows "clCreateProgramWithSource (Some i) True junk c 2 [Some a, Some a] (Some [0x80000000, 0x80000000]) (T, s) = throw OutOfBounds"
  using assms by (simp add: clCreateProgramWithSource_def given_length_def copy_behind_def upt_rec)

section \<open>Binaries\<close>

text \<open>A program from binaries that is not built yet passes the check for an executable.\<close>

lemma unbuilt_binary_program:
  assumes "T i = Some p" and "prog_devices p = d # ds" and "binaries p \<noteq> None" and "binary_sizes p \<noteq> None" and "cache_dir p = None"
  shows "clCreateKernel E G (Some k) junk (Some i) (Some name) (T, h, s) = throw NullDeref"
  using assms by (simp add: clCreateKernel_def fetch_def)

text \<open>Building a program from binaries for its second device alone stores the binary of the first.\<close>

lemma binary_of_other_device:
  assumes "source p = None" and "binaries p = Some [Some a, Some b]" and "binary_sizes p = Some [length a, length b]"
    and "\<not> exists_path h bc" and "may_create E bc"
  shows "fill_cache E opts 0 1 bc p h = ok (True, p, h\<lparr>contents := (contents h)(bc \<mapsto> a)\<rparr>)"
  using assms by (simp add: fill_cache_def at_def)

text \<open>Building a null program crashes.\<close>

lemma null_program_crashes: "clBuildProgram E None n dl options notify user \<sigma> = throw NullDeref"
  by (cases \<sigma>) (simp add: clBuildProgram_def)

end
