(* ===== verification/Cl_Cpuinfo.thy ===== *)
theory Cl_Cpuinfo
  imports C_Strings
begin

text \<open>
  What the devices learn of the processor and its memory: \<^verbatim>\<open>lib/CL/devices/cpuinfo.c\<close>, which
  reads text files of the kernel, and \<^verbatim>\<open>lib/CL/devices/topology/pocl_topology.c\<close>, which asks the
  library hwloc. The strings looked for are those of the ARM target.
\<close>

abbreviation newline :: char where "newline \<equiv> CHR 0x0A"

text \<open>
  The files and answers: \<open>None\<close> for a file that cannot be read; hwloc gives the memory and, when it
  knows them, the number of processing units, or fails; \<open>read_float\<close> is the conversion \<open>%f\<close> of the C
  library, with the fraction cut off.
\<close>

datatype float_scan = Converted int | Mismatch | End_of_text

record machine =
  cpufreq_file :: "string option"
  cpuinfo_file :: "string option"
  possible_file :: "string option"
  read_float :: "string \<Rightarrow> float_scan"
  hwloc :: "(64 word \<times> nat option) option"

definition FREQSTRING :: string where
  "FREQSTRING = '' ''"

definition MODELSTRING :: string where
  "MODELSTRING = ''Processor''"

text \<open>At most \<open>MAX_CPUINFO_SIZE - 1\<close> bytes are read; a null byte is put behind them.\<close>

definition MAX_CPUINFO_SIZE :: nat where
  "MAX_CPUINFO_SIZE = 64 * 1024"

definition read_cpuinfo :: "string \<Rightarrow> string" where
  "read_cpuinfo file_text = c_string (take (MAX_CPUINFO_SIZE - 1) file_text)"

section \<open>Clock frequency\<close>

text \<open>The division of C cuts towards 0.\<close>

definition c_div :: "int \<Rightarrow> int \<Rightarrow> int" where
  "c_div a b = sgn a * sgn b * (\<bar>a\<bar> div \<bar>b\<bar>)"

definition pocl_cpufreq_get_max :: "machine \<Rightarrow> int" where
  "pocl_cpufreq_get_max M =
     (case cpufreq_file M of None \<Rightarrow> -1
      | Some s \<Rightarrow> (case scan_int s of None \<Rightarrow> -1 | Some v \<Rightarrow> c_div v 1000))"

definition pocl_cpuinfo_detect_max_clock_frequency :: "machine \<Rightarrow> int" where
  "pocl_cpuinfo_detect_max_clock_frequency M =
     (let cpufreq = pocl_cpufreq_get_max M
      in if cpufreq \<noteq> -1 then cpufreq
         else case cpuinfo_file M of None \<Rightarrow> -1 | Some s \<Rightarrow>
           (case strstr (read_cpuinfo s) FREQSTRING of None \<Rightarrow> -1 | Some p \<Rightarrow>
            case strstr p '': '' of None \<Rightarrow> -1 | Some p \<Rightarrow>
            case read_float M (drop 2 p) of Mismatch \<Rightarrow> -1 | End_of_text \<Rightarrow> 0 | Converted v \<Rightarrow> v))"

section \<open>Number of processors\<close>

text \<open>
  The loop that counts: behind a find it goes on behind the end of the line, or behind the first
  character of the find in the last line.
\<close>

lemma strstr_suffix: "strstr s w = Some t \<Longrightarrow> \<exists>u. s = u @ t"
proof (induction s w rule: strstr.induct)
  case (2 c cs w)
  show ?case
  proof (cases "take (length w) (c # cs) = w")
    case False
    then have "strstr cs w = Some t" using "2.prems" by simp
    then obtain u where "cs = u @ t" using "2.IH"[OF False] by blast
    then show ?thesis by (intro exI[where x = "c # u"]) simp
  qed (use "2.prems" in auto)
qed (simp split: if_splits)

lemma strstr_length: "strstr s w = Some t \<Longrightarrow> length t \<le> length s"
  using strstr_suffix by fastforce

lemma strstr_starts: "strstr s w = Some t \<Longrightarrow> take (length w) t = w"
  by (induction s w rule: strstr.induct) (auto split: if_splits)

definition behind_line :: "string \<Rightarrow> string" where
  "behind_line p = (case strstr p [newline] of Some eol \<Rightarrow> tl eol | None \<Rightarrow> tl p)"

lemma behind_line_length: "p \<noteq> [] \<Longrightarrow> length (behind_line p) < length p"
  using strstr_length[of p "[newline]"] strstr_starts[of p "[newline]" "[]"]
  by (cases p) (auto simp: behind_line_def split: option.splits)

lemma behind_line_shorter: "strstr s ''rocessor'' = Some p \<Longrightarrow> length (behind_line p) < length s"
  using strstr_length[of s "''rocessor''" p] strstr_starts[of s "''rocessor''" p] behind_line_length[of p] by fastforce

function count_processors :: "string \<Rightarrow> int" where
  "count_processors p =
     (case strstr p ''rocessor'' of None \<Rightarrow> 0 | Some q \<Rightarrow> 1 + count_processors (behind_line q))"
  by pat_completeness auto
termination by (relation "measure length") (simp_all add: behind_line_shorter)

declare count_processors.simps [simp del]

definition pocl_cpuinfo_detect_compute_unit_count :: "machine \<Rightarrow> int prog" where
  "pocl_cpuinfo_detect_compute_unit_count M =
     (case cpuinfo_file M of None \<Rightarrow> ok (-1) | Some s \<Rightarrow>
        let text = read_cpuinfo s; cores = count_processors text
        in if cores = 0 then ok (-1)
           else
             let cores_per_cpu = (case strstr text ''cpu cores'' of None \<Rightarrow> 1
                   | Some p \<Rightarrow> (case scan_colon_int p of Some v \<Rightarrow> v | None \<Rightarrow> 1));
                 siblings = (case strstr text ''siblings'' of None \<Rightarrow> 1
                   | Some p \<Rightarrow> (case scan_colon_int p of Some v \<Rightarrow> v | None \<Rightarrow> cores_per_cpu))
             in if siblings > cores_per_cpu
                then if cores_per_cpu = 0 then throw DivByZero else ok (cores * c_div siblings cores_per_cpu)
                else ok cores)"

text \<open>\<open>fgetc\<close> gives \<open>EOF\<close>, which is -1, at the end, and only then \<open>feof\<close> holds.\<close>

definition pocl_sysfs_detect_compute_unit_count :: "machine \<Rightarrow> int" where
  "pocl_sysfs_detect_compute_unit_count M =
     (case possible_file M of None \<Rightarrow> -1
      | Some [] \<Rightarrow> -1 - 48 + 1
      | Some (c # cs) \<Rightarrow> (case scan_int (tl cs) of Some v \<Rightarrow> v | None \<Rightarrow> of_char c - 48) + 1)"

section \<open>Names and sizes\<close>

text \<open>The name of the device with the model of the processor, \<open>None\<close> when there is none to add.\<close>

definition model_name :: "string \<Rightarrow> string option" where
  "model_name text =
     (case strstr text (MODELSTRING @ [CHR 0x09, CHR '':'', CHR '' '']) of None \<Rightarrow> None
      | Some p \<Rightarrow>
         let start = drop (length MODELSTRING + 3) p
         in case strstr start [newline] of None \<Rightarrow> None
            | Some e \<Rightarrow> Some (take (length start - length e) start))"

definition pocl_cpuinfo_append_cpu_name :: "machine \<Rightarrow> string option \<Rightarrow> string option prog" where
  "pocl_cpuinfo_append_cpu_name M short =
     (case cpuinfo_file M of None \<Rightarrow> ok short
      | Some s \<Rightarrow> (case model_name (read_cpuinfo s) of None \<Rightarrow> ok short
         | Some n \<Rightarrow> (case short of None \<Rightarrow> throw NullDeref | Some t \<Rightarrow> ok (Some (t @ ''-'' @ n)))))"

end
