(* ===== verification/Cl_Cpuinfo_Props.thy ===== *)
theory Cl_Cpuinfo_Props
  imports Cl_Cpuinfo
begin

text \<open>
  What the numbers of \<open>Cl_Cpuinfo\<close> are: the processors of a machine are the lines of its file that
  name one, and the numbers of cores and siblings in the file have no influence.
\<close>

section \<open>Searching in lines\<close>

lemma take_before:
  assumes "c \<notin> set w"
  shows "take (length w) (l @ c # rest) = w \<longleftrightarrow> take (length w) l = w"
proof (cases "length w \<le> length l")
  case False
  then have "take (length w) (l @ c # rest) = l @ c # take (length w - length l - 1) rest"
    by (simp add: take_Cons')
  then have "take (length w) (l @ c # rest) \<noteq> w" using assms by (metis in_set_conv_decomp)
  moreover have "take (length w) l \<noteq> w" using False by auto
  ultimately show ?thesis by simp
qed simp

lemma strstr_line:
  assumes "c \<notin> set w" and "w \<noteq> []"
  shows "strstr (l @ c # rest) w = (case strstr l w of Some t \<Rightarrow> Some (t @ c # rest) | None \<Rightarrow> strstr rest w)"
proof (induction l)
  case Nil
  have "take (length w) (c # rest) \<noteq> w" using take_before[OF assms(1), of "[]" rest] assms(2) by simp
  then show ?case using assms(2) by simp
next
  case (Cons d l)
  have "take (length w) (d # l @ c # rest) = w \<longleftrightarrow> take (length w) (d # l) = w"
    using take_before[OF assms(1), of "d # l" rest] by simp
  then show ?case using Cons by simp
qed

lemma strstr_char: "c \<notin> set l \<Longrightarrow> strstr (l @ c # rest) [c] = Some (c # rest)"
  by (induction l) auto

lemma strstr_absent: "strstr s w = Some t \<Longrightarrow> set t \<subseteq> set s"
  using strstr_suffix by fastforce

section \<open>Processors\<close>

text \<open>A text in lines, each with its end.\<close>

abbreviation in_lines :: "string list \<Rightarrow> string" where
  "in_lines ls \<equiv> concat (map (\<lambda>l. l @ [newline]) ls)"

definition names_processor :: "string \<Rightarrow> bool" where
  "names_processor l \<longleftrightarrow> strstr l ''rocessor'' \<noteq> None"

lemma behind_line_of: "newline \<notin> set t \<Longrightarrow> behind_line (t @ newline # rest) = rest"
  by (simp add: behind_line_def strstr_char)

lemma count_line:
  assumes "newline \<notin> set l"
  shows "count_processors (l @ newline # rest) = (if names_processor l then 1 else 0) + count_processors rest"
proof (cases "strstr l ''rocessor''")
  case None
  then have "strstr (l @ newline # rest) ''rocessor'' = strstr rest ''rocessor''"
    using strstr_line[of newline "''rocessor''" l rest] by simp
  then show ?thesis using None
    by (simp add: count_processors.simps[of "l @ newline # rest"] count_processors.simps[of rest] names_processor_def)
next
  case (Some t)
  then have "strstr (l @ newline # rest) ''rocessor'' = Some (t @ newline # rest)"
    using strstr_line[of newline "''rocessor''" l rest] by simp
  moreover have "newline \<notin> set t" using strstr_absent[OF Some] assms by blast
  ultimately show ?thesis using Some
    by (simp add: count_processors.simps[of "l @ newline # rest"] names_processor_def behind_line_of)
qed

lemma count_lines:
  "\<forall>l \<in> set ls. newline \<notin> set l \<Longrightarrow> count_processors (in_lines ls) = int (length (filter names_processor ls))"
proof (induction ls)
  case Nil
  show ?case by (simp add: count_processors.simps)
next
  case (Cons l ls)
  then show ?case using count_line[of l "in_lines ls"] by simp
qed

lemma not_colon: "strstr s (c # w) = Some p \<Longrightarrow> c \<noteq> CHR '':'' \<Longrightarrow> scan_colon_int p = None"
  using strstr_starts[of s "c # w" p] by (cases p) (auto simp: scan_colon_int_def)

text \<open>
  The numbers behind \<open>cpu cores\<close> and \<open>siblings\<close> are never read: the conversion starts at the name
  of the field, not at the colon behind it. So hardware threads are never recognised.
\<close>

lemma compute_units_of_text:
  assumes "cpuinfo_file M = Some s" and "n = count_processors (read_cpuinfo s)"
  shows "pocl_cpuinfo_detect_compute_unit_count M = ok (if n = 0 then -1 else n)"
proof -
  have "scan_colon_int p = None" if "strstr (read_cpuinfo s) ''cpu cores'' = Some p" for p
    using not_colon[OF that] by simp
  moreover have "scan_colon_int p = None" if "strstr (read_cpuinfo s) ''siblings'' = Some p" for p
    using not_colon[OF that] by simp
  ultimately show ?thesis
    by (auto simp: pocl_cpuinfo_detect_compute_unit_count_def assms Let_def split: option.splits)
qed

lemma compute_units_ok: "\<exists>n. pocl_cpuinfo_detect_compute_unit_count M = ok n"
  using compute_units_of_text[of M] by (cases "cpuinfo_file M") (auto simp: pocl_cpuinfo_detect_compute_unit_count_def)

lemma c_string_all: "CHR 0x00 \<notin> set s \<Longrightarrow> c_string s = s"
  by (simp add: c_string_def takeWhile_eq_all_conv) blast

text \<open>Note: The number of compute units read from \<open>/proc/cpuinfo\<close> is the number of its lines that
  contain the word \<open>rocessor\<close>, whatever the file says of cores and siblings; -1 stands for none.\<close>

theorem processors_are_lines:
  assumes "cpuinfo_file M = Some (in_lines ls)" and "\<forall>l \<in> set ls. newline \<notin> set l \<and> CHR 0x00 \<notin> set l"
    and "length (in_lines ls) < MAX_CPUINFO_SIZE"
  shows "pocl_cpuinfo_detect_compute_unit_count M =
    ok (if filter names_processor ls = [] then -1 else int (length (filter names_processor ls)))"
proof -
  have "CHR 0x00 \<notin> set (in_lines ls)" using assms(2) by auto
  then have "read_cpuinfo (in_lines ls) = in_lines ls" using assms(3) by (simp add: read_cpuinfo_def c_string_all)
  then have "count_processors (read_cpuinfo (in_lines ls)) = int (length (filter names_processor ls))"
    using count_lines assms(2) by simp
  then show ?thesis using compute_units_of_text[OF assms(1)] by (simp del: length_greater_0_conv)
qed

definition arm_lines :: "string list" where
  "arm_lines = [''processor'' @ [CHR 0x09] @ '': 0'', ''model name'' @ [CHR 0x09] @ '': ARMv7 Processor rev 0 (v7l)'', '''',
     ''processor'' @ [CHR 0x09] @ '': 1'', ''model name'' @ [CHR 0x09] @ '': ARMv7 Processor rev 0 (v7l)'', '''']"

definition arm_machine :: machine where
  "arm_machine = \<lparr>cpufreq_file = None, cpuinfo_file = Some (in_lines arm_lines), possible_file = Some ''0-1'',
     read_float = (\<lambda>s. Mismatch), hwloc = None\<rparr>"

text \<open>The two processors of a Zynq count as four: the lines with the model name their kind too.\<close>

lemma processors_are_lines_witness: "pocl_cpuinfo_detect_compute_unit_count arm_machine = ok 4"
proof -
  have "\<forall>l \<in> set arm_lines. newline \<notin> set l \<and> CHR 0x00 \<notin> set l" by code_simp
  moreover have "length (in_lines arm_lines) < MAX_CPUINFO_SIZE" by (simp add: arm_lines_def MAX_CPUINFO_SIZE_def)
  moreover have "length (filter names_processor arm_lines) = 4" by code_simp
  ultimately show ?thesis using processors_are_lines[of arm_machine arm_lines] by (auto simp: arm_machine_def)
qed

lemma possible_processors: "pocl_sysfs_detect_compute_unit_count arm_machine = 2"
  by (simp add: arm_machine_def pocl_sysfs_detect_compute_unit_count_def) code_simp

text \<open>The model of the processor, from the line that starts with its keyword.\<close>

lemma model_name_line:
  assumes "strstr text (MODELSTRING @ [CHR 0x09, CHR '':'', CHR '' '']) = Some (MODELSTRING @ [CHR 0x09, CHR '':'', CHR '' ''] @ m @ newline # rest)"
    and "newline \<notin> set m"
  shows "model_name text = Some m"
  using assms by (simp add: model_name_def strstr_char)

end
