(* ===== verification/Cl_Devices.thy ===== *)
theory Cl_Devices
  imports Cl_Cpuinfo Cl_Buffers Zynq_Run
begin

text \<open>
  The table of devices (\<^verbatim>\<open>lib/CL/devices/devices.c\<close>): the drivers probe the environment for the
  devices to make, fill their descriptions and start them (\<^verbatim>\<open>devices/basic/basic.c\<close>,
  \<^verbatim>\<open>devices/pthread/pthread.c\<close>, \<^verbatim>\<open>devices/zynq_basic/zynq_basic.c\<close>); and the calls that hand
  them out (\<^verbatim>\<open>clGetPlatformIDs.c\<close>, \<^verbatim>\<open>clGetDeviceIDs.c\<close>, \<^verbatim>\<open>clCreateContextFromType.c\<close>,
  \<^verbatim>\<open>clCreateSubDevices.c\<close>).
\<close>

section \<open>Devices\<close>

datatype driver_kind = Pthread | Basic | Zynq_basic

text \<open>
  \<open>struct _cl_device_id\<close>. The reference count is in the table \<open>devices\<close> of the runtime; \<open>dev_data\<close>
  tells whether the driver's own data is attached.
\<close>

record device_queries =
  dev_type :: cl_bitfield
  vendor_id :: u32
  max_compute_units :: u32
  max_work_item_dimensions :: u32
  max_work_item_sizes :: "size_t list"
  max_work_group_size :: size_t
  preferred_wg_size_multiple :: size_t
  preferred_vector_width_char :: u32
  preferred_vector_width_short :: u32
  preferred_vector_width_int :: u32
  preferred_vector_width_long :: u32
  preferred_vector_width_float :: u32
  preferred_vector_width_double :: u32
  preferred_vector_width_half :: u32
  native_vector_width_char :: u32
  native_vector_width_short :: u32
  native_vector_width_int :: u32
  native_vector_width_long :: u32
  native_vector_width_float :: u32
  native_vector_width_double :: u32
  native_vector_width_half :: u32
  max_clock_frequency :: u32
  address_bits :: u32
  dev_max_mem_alloc_size :: "64 word"
  image_support :: u32
  max_read_image_args :: u32
  max_write_image_args :: u32
  image2d_max_width :: size_t
  image2d_max_height :: size_t
  image3d_max_width :: size_t
  image3d_max_height :: size_t
  image3d_max_depth :: size_t
  image_max_buffer_size :: size_t
  image_max_array_size :: size_t
  max_samplers :: u32
  max_parameter_size :: size_t
  mem_base_addr_align :: u32
  min_data_type_align_size :: u32

record device_limits = device_queries +
  half_fp_config :: cl_bitfield
  single_fp_config :: cl_bitfield
  double_fp_config :: cl_bitfield
  global_mem_cache_type :: u32
  global_mem_cacheline_size :: u32
  global_mem_cache_size :: "64 word"
  global_mem_size :: "64 word"
  max_constant_buffer_size :: "64 word"
  max_constant_args :: u32
  local_mem_type :: u32
  local_mem_size :: "64 word"
  error_correction_support :: u32
  host_unified_memory :: u32
  profiling_timer_resolution :: size_t
  endian_little :: u32
  available :: u32
  compiler_available :: u32
  execution_capabilities :: cl_bitfield
  queue_properties :: cl_bitfield
  device_partition_properties :: u32
  printf_buffer_size :: size_t

record device = device_limits +
  short_name :: "string option"
  long_name :: "string option"
  cache_dir_name :: "string option"
  parent_device :: "nat option"
  vendor :: "string option"
  driver_version :: "string option"
  profile :: "string option"
  version :: "string option"
  extensions :: "string option"
  dev_data :: bool
  llvm_target_triplet :: "string option"
  llvm_cpu :: "string option"
  dev_id :: nat
  global_mem_id :: nat
  has_64bit_long :: bool
  dev_ops :: driver_kind

section \<open>The system around the drivers\<close>

text \<open>
  What is not in these functions: the environment, the files and answers of \<open>machine\<close>, the FPGA
  ports, and the calls of \<open>calloc\<close> and \<open>malloc\<close>.
\<close>

record host_system =
  getenv :: "string \<Rightarrow> string option"
  this_machine :: machine
  ports :: environment
  table_calloc :: bool
  data_malloc :: bool

text \<open>
  The static variables: the table of devices, \<open>init_done\<close>, the memory shared by the devices of a
  driver, and the open device files.
\<close>

record device_system =
  pocl_devices :: "device list"
  init_done :: bool
  basic_global_mem_id :: "nat option"
  zynq_global_mem_id :: "nat option"
  port_files :: zynq

text \<open>The order of the table \<open>pocl_devices_init_ops\<close>, and the names the drivers are known by.\<close>

definition pocl_devices_init_ops :: "driver_kind list" where
  "pocl_devices_init_ops = [Pthread, Basic, Zynq_basic]"

fun device_name :: "driver_kind \<Rightarrow> string" where
  "device_name Pthread = ''pthread''"
| "device_name Basic = ''basic''"
| "device_name Zynq_basic = ''zynq_basic''"

definition pocl_device_get_env_count :: "host_system \<Rightarrow> string \<Rightarrow> int" where
  "pocl_device_get_env_count H dev_name =
     (case getenv H ''POCL_DEVICES'' of None \<Rightarrow> -1
      | Some dev_env \<Rightarrow> int (length (filter (\<lambda>token. token = dev_name) (tokens dev_env))))"

definition pocl_pthread_probe :: "host_system \<Rightarrow> nat" where
  "pocl_pthread_probe H = (let env_count = pocl_device_get_env_count H (device_name Pthread) in if env_count < 0 then 1 else nat env_count)"

definition pocl_basic_probe :: "host_system \<Rightarrow> nat" where
  "pocl_basic_probe H = (let env_count = pocl_device_get_env_count H (device_name Basic) in if env_count < 0 then 0 else nat env_count)"

definition pocl_zynq_basic_probe :: "host_system \<Rightarrow> nat" where
  "pocl_zynq_basic_probe H =
     (let env_count = pocl_device_get_env_count H (device_name Zynq_basic) in if env_count < 0 then 0 else nat env_count)"

fun probe :: "host_system \<Rightarrow> driver_kind \<Rightarrow> nat" where
  "probe H Pthread = pocl_pthread_probe H"
| "probe H Basic = pocl_basic_probe H"
| "probe H Zynq_basic = pocl_zynq_basic_probe H"

section \<open>Descriptions\<close>

text \<open>A device of the fresh table: all bytes are 0.\<close>

definition blank_device :: device where
  "blank_device =
     \<lparr>dev_type = 0, vendor_id = 0, max_compute_units = 0, max_work_item_dimensions = 0, max_work_item_sizes = [0, 0, 0],
      max_work_group_size = 0, preferred_wg_size_multiple = 0,
      preferred_vector_width_char = 0, preferred_vector_width_short = 0, preferred_vector_width_int = 0,
      preferred_vector_width_long = 0, preferred_vector_width_float = 0, preferred_vector_width_double = 0,
      preferred_vector_width_half = 0,
      native_vector_width_char = 0, native_vector_width_short = 0, native_vector_width_int = 0,
      native_vector_width_long = 0, native_vector_width_float = 0, native_vector_width_double = 0,
      native_vector_width_half = 0,
      max_clock_frequency = 0, address_bits = 0, dev_max_mem_alloc_size = 0, image_support = 0,
      max_read_image_args = 0, max_write_image_args = 0, image2d_max_width = 0, image2d_max_height = 0,
      image3d_max_width = 0, image3d_max_height = 0, image3d_max_depth = 0, image_max_buffer_size = 0,
      image_max_array_size = 0, max_samplers = 0, max_parameter_size = 0, mem_base_addr_align = 0,
      min_data_type_align_size = 0,
      half_fp_config = 0, single_fp_config = 0, double_fp_config = 0, global_mem_cache_type = 0,
      global_mem_cacheline_size = 0, global_mem_cache_size = 0, global_mem_size = 0, max_constant_buffer_size = 0,
      max_constant_args = 0, local_mem_type = 0, local_mem_size = 0, error_correction_support = 0,
      host_unified_memory = 0, profiling_timer_resolution = 0, endian_little = 0, available = 0,
      compiler_available = 0, execution_capabilities = 0, queue_properties = 0, device_partition_properties = 0,
      printf_buffer_size = 0,
      short_name = None, long_name = None, cache_dir_name = None, parent_device = None, vendor = None,
      driver_version = None, profile = None, version = None, extensions = None, dev_data = False,
      llvm_target_triplet = None, llvm_cpu = None, dev_id = 0, global_mem_id = 0, has_64bit_long = False,
      dev_ops = Pthread\<rparr>"

abbreviation CL_INT_MAX :: size_t where "CL_INT_MAX \<equiv> 2147483647"
abbreviation SIZE_MAX :: size_t where "SIZE_MAX \<equiv> 4294967295"
abbreviation CL_DEVICE_TYPE_CPU :: cl_bitfield where "CL_DEVICE_TYPE_CPU \<equiv> 2"
abbreviation CL_DEVICE_TYPE_ACCELERATOR :: cl_bitfield where "CL_DEVICE_TYPE_ACCELERATOR \<equiv> 8"

text \<open>The lines that the descriptions of the basic and the FPGA device share; the vector widths are 1.\<close>

definition common_limits :: "device \<Rightarrow> device" where
  "common_limits dev = dev
     \<lparr>vendor_id := 0, max_work_item_dimensions := 3, preferred_wg_size_multiple := 8,
      preferred_vector_width_char := 1, preferred_vector_width_short := 1, preferred_vector_width_int := 1,
      preferred_vector_width_long := 1, preferred_vector_width_float := 1, preferred_vector_width_double := 1,
      preferred_vector_width_half := 1,
      native_vector_width_char := 1, native_vector_width_short := 1, native_vector_width_int := 1,
      native_vector_width_long := 1, native_vector_width_float := 1, native_vector_width_double := 1,
      native_vector_width_half := 1,
      max_clock_frequency := 0, address_bits := 32,
      max_read_image_args := 128, max_write_image_args := 128, image2d_max_width := 8192, image2d_max_height := 8192,
      image3d_max_width := 2048, image3d_max_height := 2048, image3d_max_depth := 2048, max_samplers := 16,
      max_constant_args := 8\<rparr>"

definition common_sizes :: "device \<Rightarrow> device" where
  "common_sizes dev = dev
     \<lparr>dev_max_mem_alloc_size := 0, image_support := 1, image_max_buffer_size := 0, image_max_array_size := 0,
      max_parameter_size := 1024, min_data_type_align_size := 128, mem_base_addr_align := 128,
      half_fp_config := 0, single_fp_config := 6, double_fp_config := 6, global_mem_cache_type := 0,
      global_mem_cacheline_size := 0, global_mem_cache_size := 0, global_mem_size := 0,
      max_constant_buffer_size := 0, local_mem_type := 2, local_mem_size := 0, error_correction_support := 0,
      host_unified_memory := 1, profiling_timer_resolution := 0, endian_little := 1, available := 1,
      compiler_available := 1, execution_capabilities := 3, queue_properties := 2,
      device_partition_properties := 0, printf_buffer_size := 0,
      extensions := Some ''cl_khr_fp64 cl_khr_byte_addressable_store'',
      llvm_target_triplet := Some ''armv7-unknown-linux-gnueabihf'', llvm_cpu := Some ''cortex-a9'',
      has_64bit_long := True\<rparr>"

definition pocl_basic_init_device_infos :: "device \<Rightarrow> device" where
  "pocl_basic_init_device_infos dev =
     (common_sizes (common_limits (dev\<lparr>dev_type := CL_DEVICE_TYPE_CPU, max_compute_units := 0,
        max_work_item_sizes := [SIZE_MAX, SIZE_MAX, SIZE_MAX], max_work_group_size := 1024 * 4\<rparr>)))
     \<lparr>vendor := Some ''pocl'', profile := Some ''FULL_PROFILE''\<rparr>"

definition pocl_pthread_init_device_infos :: "device \<Rightarrow> device" where
  "pocl_pthread_init_device_infos dev = (pocl_basic_init_device_infos dev)
     \<lparr>dev_type := CL_DEVICE_TYPE_CPU, max_work_item_sizes := [SIZE_MAX, SIZE_MAX, SIZE_MAX]\<rparr>"

definition pocl_zynq_basic_init_device_infos :: "device \<Rightarrow> device" where
  "pocl_zynq_basic_init_device_infos dev =
     (common_sizes (common_limits (dev\<lparr>dev_type := CL_DEVICE_TYPE_ACCELERATOR, max_compute_units := 4,
        max_work_item_sizes := [CL_INT_MAX, CL_INT_MAX, CL_INT_MAX], max_work_group_size := 1024\<rparr>)))
     \<lparr>vendor := Some ''Mohammad Hosseinabady'', profile := Some ''EMBEDDED_PROFILE''\<rparr>"

fun init_device_infos :: "driver_kind \<Rightarrow> device \<Rightarrow> device" where
  "init_device_infos Pthread dev = pocl_pthread_init_device_infos dev"
| "init_device_infos Basic dev = pocl_basic_init_device_infos dev"
| "init_device_infos Zynq_basic dev = pocl_zynq_basic_init_device_infos dev"

definition pocl_device_common_init :: "device \<Rightarrow> device" where
  "pocl_device_common_init dev =
     (let dev = dev\<lparr>driver_version := Some ''0.11''\<rparr>;
          dev = (if version dev = None then dev\<lparr>version := Some ''OpenCL 1.2 pocl''\<rparr> else dev);
          dev = dev\<lparr>short_name := Some (device_name (dev_ops dev))\<rparr>
      in if long_name dev = None then dev\<lparr>long_name := short_name dev\<rparr> else dev)"

section \<open>Starting the devices\<close>

abbreviation MIN_MAX_MEM_ALLOC_SIZE :: "64 word" where "MIN_MAX_MEM_ALLOC_SIZE \<equiv> 128 * 1024 * 1024"

definition pocl_topology_detect_device_info :: "machine \<Rightarrow> device \<Rightarrow> device prog" where
  "pocl_topology_detect_device_info M dev =
     (case hwloc M of None \<Rightarrow> throw (Exit 2)
      | Some (total_memory, units) \<Rightarrow>
          let share = (if total_memory div 4 > MIN_MAX_MEM_ALLOC_SIZE then total_memory div 4 else MIN_MAX_MEM_ALLOC_SIZE)
          in ok (dev\<lparr>max_compute_units := (case units of Some n \<Rightarrow> of_nat n | None \<Rightarrow> max_compute_units dev),
                     dev_max_mem_alloc_size := share, global_mem_size := total_memory,
                     max_constant_buffer_size := share, local_mem_size := share\<rparr>))"

definition pocl_cpuinfo_detect_device_info :: "machine \<Rightarrow> device \<Rightarrow> device prog" where
  "pocl_cpuinfo_detect_device_info M dev =
     andthen (if max_compute_units dev = 0
              then andthen (pocl_cpuinfo_detect_compute_unit_count M) (\<lambda>n. ok (if n = -1 then 0 else of_int n))
              else ok (max_compute_units dev)) (\<lambda>units.
     let freq = pocl_cpuinfo_detect_max_clock_frequency M in
     andthen (pocl_cpuinfo_append_cpu_name M (short_name dev)) (\<lambda>name.
     ok (dev\<lparr>max_compute_units := units, max_clock_frequency := (if freq = -1 then 0 else of_int freq), long_name := name\<rparr>)))"

text \<open>\<open>if(!strcmp(device->llvm_cpu, "(unknown)")) device->llvm_cpu = NULL;\<close>\<close>

definition known_cpu :: "device \<Rightarrow> device prog" where
  "known_cpu dev = (case llvm_cpu dev of None \<Rightarrow> throw NullDeref
     | Some cpu \<Rightarrow> ok (if cpu = ''(unknown)'' then dev\<lparr>llvm_cpu := None\<rparr> else dev))"

definition detect_device_info :: "machine \<Rightarrow> device \<Rightarrow> device prog" where
  "detect_device_info M dev = andthen (pocl_topology_detect_device_info M dev) (pocl_cpuinfo_detect_device_info M)"

text \<open>
  The three functions \<open>init\<close>. None of them reads the parameters from the environment; the FPGA
  device opens the five device files.
\<close>

definition pocl_basic_init :: "host_system \<Rightarrow> device \<Rightarrow> device_system \<Rightarrow> (device \<times> device_system) prog" where
  "pocl_basic_init H dev S =
     (let S = (if basic_global_mem_id S = None then S\<lparr>basic_global_mem_id := Some (dev_id dev)\<rparr> else S);
          dev = dev\<lparr>global_mem_id := the (basic_global_mem_id S)\<rparr>
      in if \<not> data_malloc H then throw NullDeref
         else andthen (detect_device_info (this_machine H) (dev\<lparr>dev_data := True\<rparr>)) (\<lambda>dev.
              andthen (known_cpu (dev\<lparr>max_compute_units := 1\<rparr>)) (\<lambda>dev. ok (dev, S))))"

definition pocl_zynq_basic_init :: "host_system \<Rightarrow> device \<Rightarrow> device_system \<Rightarrow> (device \<times> device_system) prog" where
  "pocl_zynq_basic_init H dev S =
     (let S = (if zynq_global_mem_id S = None then S\<lparr>zynq_global_mem_id := Some (dev_id dev)\<rparr> else S);
          dev = dev\<lparr>global_mem_id := the (zynq_global_mem_id S)\<rparr>
      in if \<not> data_malloc H then throw NullDeref
         else andthen (detect_device_info (this_machine H) (dev\<lparr>dev_data := True\<rparr>)) (\<lambda>dev.
              andthen (known_cpu (dev\<lparr>max_compute_units := 1\<rparr>)) (\<lambda>dev.
              andthen (open_files (ports H) files (port_files S)) (\<lambda>z. ok (dev, S\<lparr>port_files := z\<rparr>)))))"

definition pocl_pthread_init :: "host_system \<Rightarrow> device \<Rightarrow> device_system \<Rightarrow> (device \<times> device_system) prog" where
  "pocl_pthread_init H dev S =
     (if dev_data dev then ok (dev, S)
      else if \<not> data_malloc H then throw NullDeref
      else let dev = dev\<lparr>address_bits := 32, max_read_image_args := 128, max_write_image_args := 128,
                         image2d_max_width := 8192, image2d_max_height := 8192, image3d_max_width := 2048,
                         image3d_max_height := 2048, image3d_max_depth := 2048, max_samplers := 16,
                         mem_base_addr_align := 128, min_data_type_align_size := 128, max_constant_args := 8,
                         extensions := Some ''cl_khr_fp64 cl_khr_byte_addressable_store'', dev_data := True\<rparr>
           in andthen (detect_device_info (this_machine H) dev) (\<lambda>dev.
              andthen (known_cpu dev) (\<lambda>dev. ok (dev, S))))"

fun init_device :: "host_system \<Rightarrow> driver_kind \<Rightarrow> device \<Rightarrow> device_system \<Rightarrow> (device \<times> device_system) prog" where
  "init_device H Pthread = pocl_pthread_init H"
| "init_device H Basic = pocl_basic_init H"
| "init_device H Zynq_basic = pocl_zynq_basic_init H"

definition is_alnum :: "char \<Rightarrow> bool" where
  "is_alnum c \<longleftrightarrow> is_digit c \<or> 65 \<le> (of_char c :: int) \<and> (of_char c :: int) \<le> 90 \<or> 97 \<le> (of_char c :: int) \<and> (of_char c :: int) \<le> 122"

definition pocl_string_to_dirname :: "string \<Rightarrow> string" where
  "pocl_string_to_dirname str = map (\<lambda>c. if is_alnum c then c else CHR ''_'') str"

text \<open>
  What the other calls read of a device, with its reference count. All three drivers have
  \<open>compile_submitted_kernels\<close>, none has \<open>unmap_mem\<close>.
\<close>

definition runtime_view :: "int \<Rightarrow> device \<Rightarrow> cl_device" where
  "runtime_view n dev = cl_device.make n (max_work_item_dimensions dev) (max_work_group_size dev)
     (\<lambda>i. max_work_item_sizes dev ! i) (preferred_wg_size_multiple dev) True False"

text \<open>
  The two loops, over the drivers and the devices of a driver, as one over the drivers of all
  devices. \<open>pocl_devices\<close> grows by the device that is finished; the entries behind it are blank.
\<close>

definition start_device :: "host_system \<Rightarrow> driver_kind \<Rightarrow> device_system \<times> cl_state \<Rightarrow> (device_system \<times> cl_state) prog" where
  "start_device H k = (\<lambda>(S, s).
     let i = length (pocl_devices S);
         dev = pocl_device_common_init (init_device_infos k (blank_device\<lparr>dev_id := i, global_mem_id := i, dev_ops := k\<rparr>))
     in andthen (init_device H k dev S) (\<lambda>(dev, S).
        let dev = (if i = 0 then dev\<lparr>dev_type := dev_type dev OR 1\<rparr> else dev);
            dev = dev\<lparr>cache_dir_name := map_option pocl_string_to_dirname (long_name dev)\<rparr>
        in ok (S\<lparr>pocl_devices := pocl_devices S @ [dev]\<rparr>, put_device i (runtime_view 1 dev) s)))"

fun start_devices :: "host_system \<Rightarrow> driver_kind list \<Rightarrow> device_system \<times> cl_state \<Rightarrow> (device_system \<times> cl_state) prog" where
  "start_devices H [] x = ok x"
| "start_devices H (k # ks) x = andthen (start_device H k x) (start_devices H ks)"

definition probed_devices :: "host_system \<Rightarrow> driver_kind list" where
  "probed_devices H = concat (map (\<lambda>k. replicate (probe H k) k) pocl_devices_init_ops)"

definition pocl_init_devices :: "host_system \<Rightarrow> device_system \<times> cl_state \<Rightarrow> (device_system \<times> cl_state) prog" where
  "pocl_init_devices H = (\<lambda>(S, s).
     if init_done S then ok (S, s)
     else if probed_devices H = [] then throw AssertFail
     else if \<not> table_calloc H then throw (Exit 2)
     else andthen (start_devices H (probed_devices H) (S\<lparr>pocl_devices := []\<rparr>, s)) (\<lambda>(S, s).
          ok (S\<lparr>init_done := True\<rparr>, s)))"

section \<open>Handing the devices out\<close>

text \<open>The loops over the table: a device fits when a bit of its type is asked for and it is available.\<close>

definition fits :: "cl_bitfield \<Rightarrow> device \<Rightarrow> bool" where
  "fits device_type dev \<longleftrightarrow> dev_type dev AND device_type \<noteq> 0 \<and> available dev = 1"

fun get_devices_from :: "cl_bitfield \<Rightarrow> nat \<Rightarrow> nat \<Rightarrow> device list \<Rightarrow> nat list \<Rightarrow> nat list" where
  "get_devices_from device_type num i [] added = added"
| "get_devices_from device_type num i (dev # devs) added =
     (if fits device_type dev
      then if length added < num then get_devices_from device_type num (Suc i) devs (added @ [i]) else added
      else get_devices_from device_type num (Suc i) devs added)"

definition pocl_get_devices :: "cl_bitfield \<Rightarrow> nat \<Rightarrow> device_system \<Rightarrow> nat list" where
  "pocl_get_devices device_type num_devices S = get_devices_from device_type num_devices 0 (pocl_devices S) []"

fun count_devices_from :: "cl_bitfield \<Rightarrow> device list \<Rightarrow> nat \<Rightarrow> nat" where
  "count_devices_from device_type [] n = n"
| "count_devices_from device_type (dev # devs) n =
     count_devices_from device_type devs (if fits device_type dev then n + 1 else n)"

definition pocl_get_device_type_count :: "cl_bitfield \<Rightarrow> device_system \<Rightarrow> nat" where
  "pocl_get_device_type_count device_type S = count_devices_from device_type (pocl_devices S) 0"

abbreviation CL_DEVICE_NOT_FOUND :: int where "CL_DEVICE_NOT_FOUND \<equiv> -1"

text \<open>
  The results of a call are its status and what it writes: \<open>None\<close> for nothing. A pointer that may be
  null is a truth value.
\<close>

definition clGetPlatformIDs :: "nat \<Rightarrow> bool \<Rightarrow> bool \<Rightarrow> int \<times> nat option \<times> nat option" where
  "clGetPlatformIDs num_entries platforms num_platforms =
     (if platforms \<and> num_entries < 1 then (CL_INVALID_VALUE, None, None)
      else (CL_SUCCESS, if platforms then Some 0 else None, if num_platforms then Some 1 else None))"

definition clGetDeviceIDs ::
  "host_system \<Rightarrow> bool \<Rightarrow> cl_bitfield \<Rightarrow> nat \<Rightarrow> bool \<Rightarrow> bool \<Rightarrow> device_system \<times> cl_state \<Rightarrow>
   (int \<times> nat list option \<times> nat option \<times> device_system \<times> cl_state) prog" where
  "clGetDeviceIDs H platform device_type num_entries devs num_devices x =
     andthen (pocl_init_devices H x) (\<lambda>(S, s).
     if \<not> platform then ok (CL_INVALID_PLATFORM, None, None, S, s)
     else if num_entries = 0 \<and> devs then ok (CL_INVALID_VALUE, None, None, S, s)
     else if \<not> num_devices \<and> \<not> devs then ok (CL_INVALID_VALUE, None, None, S, s)
     else
       let total_num = pocl_get_device_type_count device_type S;
           added = (if devs then Some (pocl_get_devices device_type num_entries S) else None);
           devices_added = (case added of Some ds \<Rightarrow> length ds | None \<Rightarrow> 0)
       in ok (if devices_added > 0 \<or> num_entries = 0 then CL_SUCCESS else CL_DEVICE_NOT_FOUND,
              added, if num_devices then Some total_num else None, S, s))"

text \<open>
  \<open>ca\<close> is the object \<open>malloc\<close> gives and \<open>junk\<close> the content of its table of devices. Without a
  device of the type a context is returned that is not valid.
\<close>

definition clCreateContextFromType ::
  "host_system \<Rightarrow> context_environment \<Rightarrow> nat option \<Rightarrow> nat list \<Rightarrow> (nat \<times> nat) list option \<Rightarrow> cl_bitfield \<Rightarrow> bool \<Rightarrow> bool \<Rightarrow>
   device_system \<times> cl_state \<Rightarrow> (nat option \<times> int \<times> device_system \<times> cl_state) prog" where
  "clCreateContextFromType H E ca junk properties device_type pfn_notify user_data x =
     andthen (pocl_init_devices H x) (\<lambda>(S, s).
     case ca of None \<Rightarrow> ok (None, CL_OUT_OF_HOST_MEMORY, S, s) | Some c \<Rightarrow>
     if \<not> pfn_notify \<and> user_data then ok (None, CL_INVALID_VALUE, S, s)
     else let errcode = context_set_properties (platform_id E) (properties_malloc E) properties;
              num_devices = pocl_get_device_type_count device_type S
     in if errcode \<noteq> CL_SUCCESS then ok (None, errcode, S, s)
        else if num_devices = 0
        then ok (Some c, CL_DEVICE_NOT_FOUND, S, put_context c \<lparr>ctx_refcount = 1, ctx_devices = junk, ctx_valid = False\<rparr> s)
        else if \<not> devices_malloc E then ok (None, CL_OUT_OF_HOST_MEMORY, S, s)
        else let devs = pocl_get_devices device_type num_devices S in
          andthen (retain_devices (\<lambda>d. True) (map Some devs) [] s) (\<lambda>(r, s).
          ok (Some c, CL_SUCCESS, S, put_context c \<lparr>ctx_refcount = 1, ctx_devices = devs, ctx_valid = True\<rparr> s)))"

text \<open>Both sub-devices are the device itself: it is initialised again, and made its own parent.\<close>

definition clCreateSubDevices ::
  "nat option \<Rightarrow> bool \<Rightarrow> device_system \<times> cl_state \<Rightarrow> (int \<times> nat list \<times> device_system \<times> cl_state) prog" where
  "clCreateSubDevices in_device out_devices = (\<lambda>(S, s).
     case in_device of None \<Rightarrow> ok (CL_INVALID_DEVICE, [], S, s) | Some i \<Rightarrow>
     andthen (fetch (devices s) i) (\<lambda>d.
     let s = put_device i (d\<lparr>dev_refcount := 1\<rparr>) s;
         S = S\<lparr>pocl_devices := (pocl_devices S)[i := (pocl_devices S ! i)\<lparr>parent_device := Some i\<rparr>]\<rparr>
     in if \<not> out_devices then throw NullDeref
        else andthen (retain_device i s) (\<lambda>s. andthen (retain_device i s) (\<lambda>s.
             ok (CL_SUCCESS, [i, i], S, s)))))"

section \<open>Samplers\<close>

record cl_sampler =
  normalized_coords :: u32
  addressing_mode :: u32
  filter_mode :: u32

abbreviation CL_ADDRESS_CLAMP_TO_EDGE :: u32 where "CL_ADDRESS_CLAMP_TO_EDGE \<equiv> 0x1131"
abbreviation CL_FILTER_NEAREST :: u32 where "CL_FILTER_NEAREST \<equiv> 0x1140"

text \<open>The process ends for everything but the one kind of sampler that is implemented.\<close>

definition clCreateSampler ::
  "bool \<Rightarrow> nat option \<Rightarrow> u32 \<Rightarrow> u32 \<Rightarrow> u32 \<Rightarrow> (nat \<Rightarrow> cl_sampler option) \<Rightarrow> (nat option \<times> int option \<times> (nat \<Rightarrow> cl_sampler option)) prog" where
  "clCreateSampler context ca coords addressing filtering T =
     (if \<not> context then ok (None, Some CL_INVALID_CONTEXT, T)
      else case ca of None \<Rightarrow> ok (None, Some CL_OUT_OF_HOST_MEMORY, T) | Some i \<Rightarrow>
      if coords = 1 then throw (Exit 2)
      else if addressing \<noteq> CL_ADDRESS_CLAMP_TO_EDGE then throw (Exit 2)
      else if filtering \<noteq> CL_FILTER_NEAREST then throw (Exit 2)
      else ok (Some i, None, T(i \<mapsto> \<lparr>normalized_coords = coords, addressing_mode = addressing, filter_mode = filtering\<rparr>)))"

definition clRetainSampler :: "nat \<Rightarrow> int prog" where
  "clRetainSampler sampler = throw (Exit 2)"

definition clReleaseSampler :: "nat \<Rightarrow> int prog" where
  "clReleaseSampler sampler = ok CL_SUCCESS"

end
