(* ===== verification/Cl_Info.thy ===== *)
theory Cl_Info
  imports Cl_Devices Cl_Programs Cl_Images Dev_Memory
begin

text \<open>
  The information queries (\<^verbatim>\<open>lib/CL/clGet*Info.c\<close>) on top of the macro
  \<open>POCL_RETURN_GETINFO\<close> of \<^verbatim>\<open>lib/CL/pocl_util.h\<close>. The caller gives a name, a place for the value
  with its size, and a place for the size of the value; both places may be null.
\<close>

abbreviation CL_PROFILING_INFO_NOT_AVAILABLE :: int where "CL_PROFILING_INFO_NOT_AVAILABLE \<equiv> -7"
abbreviation CL_KERNEL_ARG_INFO_NOT_AVAILABLE :: int where "CL_KERNEL_ARG_INFO_NOT_AVAILABLE \<equiv> -19"
abbreviation CL_INVALID_ARG_INDEX :: int where "CL_INVALID_ARG_INDEX \<equiv> -49"

section \<open>Writing the answer\<close>

record info_request =
  param_value_size :: size_t
  param_value :: addr
  param_value_size_ret :: addr

text \<open>The bytes of a word in memory, the low one first.\<close>

definition little :: "nat \<Rightarrow> 'a::len word \<Rightarrow> byte list" where
  "little n w = map (\<lambda>i. ucast (drop_bit (8 * i) w)) [0..<n]"

definition write_bytes :: "addr \<Rightarrow> byte list \<Rightarrow> memory \<Rightarrow> memory" where
  "write_bytes p bs m = (\<lambda>a. if unat (a - p) < length bs then bs ! unat (a - p) else m a)"

definition read_bytes :: "addr \<Rightarrow> nat \<Rightarrow> memory \<Rightarrow> byte list" where
  "read_bytes p n m = map (\<lambda>i. m (p + of_nat i)) [0..<n]"

text \<open>
  A value in an answer: its size, and its bytes, which are looked at only when there is a place for
  them.
\<close>

type_synonym info_value = "nat prog \<times> byte list prog"

definition POCL_RETURN_GETINFO_INNER :: "info_value \<Rightarrow> info_request \<Rightarrow> memory \<Rightarrow> (int \<times> memory) prog" where
  "POCL_RETURN_GETINFO_INNER v R m =
     andthen (fst v) (\<lambda>sz.
     let told = (\<lambda>m. if param_value_size_ret R \<noteq> NULL then write_bytes (param_value_size_ret R) (little 4 (of_nat sz :: u32)) m else m)
     in if param_value R = NULL then ok (CL_SUCCESS, told m)
        else if param_value_size R < of_nat sz then ok (CL_INVALID_VALUE, m)
        else andthen (snd v) (\<lambda>bs. ok (CL_SUCCESS, told (write_bytes (param_value R) bs m))))"

definition POCL_RETURN_GETINFO :: "nat \<Rightarrow> byte list prog \<Rightarrow> info_value" where
  "POCL_RETURN_GETINFO sz value = (ok sz, value)"

definition POCL_RETURN_GETINFO_STR :: "string option prog \<Rightarrow> info_value" where
  "POCL_RETURN_GETINFO_STR str =
     (let s = andthen str (\<lambda>s. case s of None \<Rightarrow> throw NullDeref | Some s \<Rightarrow> ok s)
      in (andthen s (\<lambda>s. ok (length s + 1)), andthen s (\<lambda>s. ok (map of_char s @ [0]))))"

text \<open>A \<open>switch\<close> over the names, each with its value; other names are answered with an error.\<close>

definition answer_from :: "(nat \<times> info_value) list \<Rightarrow> nat \<Rightarrow> info_request \<Rightarrow> memory \<Rightarrow> (int \<times> memory) prog" where
  "answer_from cases param_name R m =
     (case map_of cases param_name of None \<Rightarrow> ok (CL_INVALID_VALUE, m) | Some v \<Rightarrow> POCL_RETURN_GETINFO_INNER v R m)"

text \<open>The addresses of the objects, which are the handles the answers show.\<close>

record handles =
  context_at :: "nat \<Rightarrow> addr"
  device_at :: "nat \<Rightarrow> addr"
  queue_at :: "nat \<Rightarrow> addr"
  program_at :: "nat \<Rightarrow> addr"
  mem_at :: "nat \<Rightarrow> addr"
  platform_at :: addr

definition handle :: "(nat \<Rightarrow> addr) \<Rightarrow> nat option \<Rightarrow> addr" where
  "handle place r = (case r of None \<Rightarrow> NULL | Some i \<Rightarrow> place i)"

section \<open>Devices\<close>

text \<open>A field of the device, when there is one.\<close>

definition field :: "device option \<Rightarrow> (device \<Rightarrow> 'a) \<Rightarrow> 'a prog" where
  "field dev f = (case dev of None \<Rightarrow> throw NullDeref | Some d \<Rightarrow> ok (f d))"

definition field32 :: "device option \<Rightarrow> (device \<Rightarrow> u32) \<Rightarrow> info_value" where
  "field32 dev f = POCL_RETURN_GETINFO 4 (andthen (field dev f) (\<lambda>w. ok (little 4 w)))"

definition field64 :: "device option \<Rightarrow> (device \<Rightarrow> 64 word) \<Rightarrow> info_value" where
  "field64 dev f = POCL_RETURN_GETINFO 8 (andthen (field dev f) (\<lambda>w. ok (little 8 w)))"

definition max_wg_size :: "(string \<Rightarrow> string option) \<Rightarrow> device \<Rightarrow> size_t" where
  "max_wg_size env dev =
     (case env ''POCL_MAX_WORK_GROUP_SIZE'' of None \<Rightarrow> device_queries.max_work_group_size dev
      | Some v \<Rightarrow> let from_env = of_int (atoi v) in if from_env < device_queries.max_work_group_size dev then from_env else device_queries.max_work_group_size dev)"

text \<open>\<open>refs\<close> is the reference count of the device, which the runtime keeps.\<close>

definition device_answers ::
  "(string \<Rightarrow> string option) \<Rightarrow> handles \<Rightarrow> int \<Rightarrow> device option \<Rightarrow> (nat \<times> info_value) list" where
  "device_answers env H refs dev =
    [(0x1016, POCL_RETURN_GETINFO 4 (ok (little 4 (1 :: u32)))),     \<comment>\<open>\<open>CL_DEVICE_IMAGE_SUPPORT\<close>\<close>
     (0x1000, field64 dev dev_type),
     (0x1001, field32 dev vendor_id),
     (0x1002, field32 dev max_compute_units),
     (0x1003, field32 dev device_queries.max_work_item_dimensions),
     (0x1004, (andthen (field dev (max_wg_size env)) (\<lambda>w. ok 4), andthen (field dev (max_wg_size env)) (\<lambda>w. ok (little 4 w)))),
     (0x1005, POCL_RETURN_GETINFO 12 (andthen (field dev device_queries.max_work_item_sizes) (\<lambda>ws. ok (concat (map (little 4) ws))))),
     (0x1006, field32 dev preferred_vector_width_char),
     (0x1007, field32 dev preferred_vector_width_short),
     (0x1008, field32 dev preferred_vector_width_int),
     (0x1009, field32 dev preferred_vector_width_long),
     (0x100A, field32 dev preferred_vector_width_float),
     (0x100B, field32 dev preferred_vector_width_double),
     (0x100C, field32 dev max_clock_frequency),
     (0x100D, field32 dev address_bits),
     (0x100E, field32 dev max_read_image_args),
     (0x100F, field32 dev max_write_image_args),
     (0x1010, field64 dev dev_max_mem_alloc_size),
     (0x1011, field32 dev device_queries.image2d_max_width),
     (0x1012, field32 dev device_queries.image2d_max_height),
     (0x1013, field32 dev device_queries.image3d_max_width),
     (0x1014, field32 dev device_queries.image3d_max_height),
     (0x1015, field32 dev device_queries.image3d_max_depth),
     (0x1040, field32 dev image_max_buffer_size),
     (0x1041, field32 dev image_max_array_size),
     (0x1017, field32 dev max_parameter_size),
     (0x1018, field32 dev max_samplers),
     (0x1019, field32 dev mem_base_addr_align),
     (0x101A, field32 dev min_data_type_align_size),
     (0x101B, field64 dev single_fp_config),
     (0x101C, field32 dev global_mem_cache_type),
     (0x101D, field32 dev global_mem_cacheline_size),
     (0x101E, field64 dev global_mem_cache_size),
     (0x101F, field64 dev global_mem_size),
     (0x1020, field64 dev max_constant_buffer_size),
     (0x1021, field32 dev max_constant_args),
     (0x1022, field32 dev local_mem_type),
     (0x1023, field64 dev local_mem_size),
     (0x1024, field32 dev error_correction_support),
     (0x1025, field32 dev profiling_timer_resolution),
     (0x1026, field32 dev endian_little),
     (0x1027, field32 dev available),
     (0x1028, field32 dev compiler_available),
     (0x103E, field32 dev compiler_available),                       \<comment>\<open>\<open>CL_DEVICE_LINKER_AVAILABLE\<close>\<close>
     (0x1029, field64 dev execution_capabilities),
     (0x102A, field64 dev queue_properties),
     (0x102B, POCL_RETURN_GETINFO_STR (field dev long_name)),
     (0x102C, POCL_RETURN_GETINFO_STR (field dev vendor)),
     (0x102D, POCL_RETURN_GETINFO_STR (field dev driver_version)),
     (0x102E, POCL_RETURN_GETINFO_STR (field dev profile)),
     (0x102F, POCL_RETURN_GETINFO_STR (field dev version)),
     (0x1030, POCL_RETURN_GETINFO_STR (field dev extensions)),
     (0x1031, POCL_RETURN_GETINFO 4 (ok (little 4 (platform_at H)))),
     (0x1032, field64 dev double_fp_config),
     (0x1033, field64 dev half_fp_config),
     (0x1034, field32 dev preferred_vector_width_half),
     (0x1035, field32 dev host_unified_memory),
     (0x1036, field32 dev native_vector_width_char),
     (0x1037, field32 dev native_vector_width_short),
     (0x1038, field32 dev native_vector_width_int),
     (0x1039, field32 dev native_vector_width_long),
     (0x103A, field32 dev native_vector_width_float),
     (0x103B, field32 dev native_vector_width_double),
     (0x103C, field32 dev native_vector_width_half),
     (0x103D, POCL_RETURN_GETINFO_STR (ok (Some ''OpenCL C 1.2''))),
     (0x103F, POCL_RETURN_GETINFO_STR (ok (Some ''''))),             \<comment>\<open>\<open>CL_DEVICE_BUILT_IN_KERNELS\<close>\<close>
     (0x1042, POCL_RETURN_GETINFO 4 (ok (little 4 (NULL :: addr)))), \<comment>\<open>\<open>CL_DEVICE_PARENT_DEVICE\<close>\<close>
     (0x1043, POCL_RETURN_GETINFO 4 (ok (little 4 (2 :: u32)))),     \<comment>\<open>\<open>CL_DEVICE_PARTITION_MAX_SUB_DEVICES\<close>\<close>
     (0x1044, field32 dev device_partition_properties),
     (0x1046, field32 dev device_partition_properties),              \<comment>\<open>\<open>CL_DEVICE_PARTITION_TYPE\<close>\<close>
     (0x1045, POCL_RETURN_GETINFO 8 (ok (little 8 (0 :: 64 word)))), \<comment>\<open>\<open>CL_DEVICE_PARTITION_AFFINITY_DOMAIN\<close>\<close>
     (0x1048, POCL_RETURN_GETINFO 4 (ok (little 4 (1 :: u32)))),     \<comment>\<open>\<open>CL_DEVICE_PREFERRED_INTEROP_USER_SYNC\<close>\<close>
     (0x1049, field32 dev printf_buffer_size),
     (0x1047, POCL_RETURN_GETINFO 4 (andthen (field dev (\<lambda>d. of_int refs :: u32)) (\<lambda>w. ok (little 4 w))))]"

definition clGetDeviceInfo ::
  "(string \<Rightarrow> string option) \<Rightarrow> handles \<Rightarrow> int \<Rightarrow> device option \<Rightarrow> nat \<Rightarrow> info_request \<Rightarrow> memory \<Rightarrow> (int \<times> memory) prog" where
  "clGetDeviceInfo env H refs dev = answer_from (device_answers env H refs dev)"

section \<open>Platform, contexts and queues\<close>

definition platform_answers :: "(nat \<times> info_value) list" where
  "platform_answers =
    [(0x0900, POCL_RETURN_GETINFO_STR (ok (Some ''FULL_PROFILE''))),
     (0x0901, POCL_RETURN_GETINFO_STR (ok (Some ''OpenCL 1.2 pocl 0.11''))),
     (0x0902, POCL_RETURN_GETINFO_STR (ok (Some ''Portable Computing Language''))),
     (0x0903, POCL_RETURN_GETINFO_STR (ok (Some ''The pocl project''))),
     (0x0904, POCL_RETURN_GETINFO_STR (ok (Some ''cl_khr_icd''))),
     (0x0920, POCL_RETURN_GETINFO_STR (ok (Some ''POCL'')))]"

definition clGetPlatformInfo :: "handles \<Rightarrow> addr \<Rightarrow> nat \<Rightarrow> info_request \<Rightarrow> memory \<Rightarrow> (int \<times> memory) prog" where
  "clGetPlatformInfo H platform param_name R m =
     (if platform = NULL \<or> platform \<noteq> platform_at H then ok (CL_INVALID_PLATFORM, m)
      else answer_from platform_answers param_name R m)"

text \<open>
  \<open>props\<close> are the properties of the context, with the closing 0, or \<open>None\<close> for none: then the size is
  written without looking whether there is a place for it.
\<close>

definition context_answers :: "handles \<Rightarrow> cl_context \<Rightarrow> (nat \<times> info_value) list" where
  "context_answers H C =
    [(0x1080, POCL_RETURN_GETINFO 4 (ok (little 4 (of_int (ctx_refcount C) :: u32)))),
     (0x1081, POCL_RETURN_GETINFO (4 * length (ctx_devices C)) (ok (concat (map (\<lambda>d. little 4 (device_at H d)) (ctx_devices C))))),
     (0x1083, POCL_RETURN_GETINFO 4 (ok (little 4 (of_nat (length (ctx_devices C)) :: u32))))]"

definition clGetContextInfo ::
  "handles \<Rightarrow> u32 list option \<Rightarrow> nat option \<Rightarrow> cl_state \<Rightarrow> nat \<Rightarrow> info_request \<Rightarrow> memory \<Rightarrow> (int \<times> memory) prog" where
  "clGetContextInfo H props context s param_name R m =
     (case context of None \<Rightarrow> ok (CL_INVALID_CONTEXT, m) | Some c \<Rightarrow>
      andthen (fetch (contexts s) c) (\<lambda>C.
      if param_name = 0x1082
      then (case props of
          Some ps \<Rightarrow> POCL_RETURN_GETINFO_INNER (POCL_RETURN_GETINFO (4 * length ps) (ok (concat (map (little 4) ps)))) R m
        | None \<Rightarrow> if param_value_size_ret R = NULL then throw NullDeref
                 else ok (CL_SUCCESS, write_bytes (param_value_size_ret R) (little 4 (0 :: u32)) m))
      else answer_from (context_answers H C) param_name R m))"

definition queue_property_bits :: "cl_command_queue \<Rightarrow> cl_bitfield" where
  "queue_property_bits q = (if q_out_of_order q then 1 else 0) OR (if q_profiling q then 2 else 0)"

definition queue_answers :: "handles \<Rightarrow> cl_command_queue \<Rightarrow> (nat \<times> info_value) list" where
  "queue_answers H q =
    [(0x1090, POCL_RETURN_GETINFO 4 (ok (little 4 (context_at H (q_context q))))),
     (0x1091, POCL_RETURN_GETINFO 4 (ok (little 4 (device_at H (q_device q))))),
     (0x1092, POCL_RETURN_GETINFO 4 (ok (little 4 (of_int (q_refcount q) :: u32)))),
     (0x1093, POCL_RETURN_GETINFO 8 (ok (little 8 (queue_property_bits q))))]"

definition clGetCommandQueueInfo ::
  "handles \<Rightarrow> nat option \<Rightarrow> cl_state \<Rightarrow> nat \<Rightarrow> info_request \<Rightarrow> memory \<Rightarrow> (int \<times> memory) prog" where
  "clGetCommandQueueInfo H command_queue s param_name R m =
     (case command_queue of None \<Rightarrow> ok (CL_INVALID_COMMAND_QUEUE, m) | Some i \<Rightarrow>
      andthen (fetch (queues s) i) (\<lambda>q. answer_from (queue_answers H q) param_name R m))"

section \<open>Events\<close>

text \<open>The queue of an event; a user event has none.\<close>

definition event_queue :: "cl_event \<Rightarrow> cl_state \<Rightarrow> cl_command_queue prog" where
  "event_queue e s = (case e_queue e of None \<Rightarrow> throw NullDeref | Some q \<Rightarrow> fetch (queues s) q)"

definition event_answers :: "handles \<Rightarrow> cl_state \<Rightarrow> cl_event \<Rightarrow> (nat \<times> info_value) list" where
  "event_answers H s e =
    [(0x11D3, POCL_RETURN_GETINFO 4 (ok (little 4 (of_int (status e) :: u32)))),
     (0x11D0, POCL_RETURN_GETINFO 4 (ok (little 4 (handle (queue_at H) (e_queue e))))),
     (0x11D1, POCL_RETURN_GETINFO 4 (ok (little 4 (of_int (e_type e) :: u32)))),
     (0x11D2, POCL_RETURN_GETINFO 4 (ok (little 4 (of_int (e_refcount e) :: u32)))),
     (0x11D4, POCL_RETURN_GETINFO 4 (andthen (event_queue e s) (\<lambda>q. ok (little 4 (context_at H (q_context q))))))]"

definition clGetEventInfo :: "handles \<Rightarrow> nat option \<Rightarrow> cl_state \<Rightarrow> nat \<Rightarrow> info_request \<Rightarrow> memory \<Rightarrow> (int \<times> memory) prog" where
  "clGetEventInfo H event s param_name R m =
     (case event of None \<Rightarrow> ok (CL_INVALID_EVENT, m) | Some i \<Rightarrow>
      andthen (fetch (events s) i) (\<lambda>e. answer_from (event_answers H s e) param_name R m))"

definition clGetEventProfilingInfo :: "nat option \<Rightarrow> cl_state \<Rightarrow> nat \<Rightarrow> info_request \<Rightarrow> memory \<Rightarrow> (int \<times> memory) prog" where
  "clGetEventProfilingInfo event s param_name R m =
     (case event of None \<Rightarrow> ok (CL_INVALID_EVENT, m) | Some i \<Rightarrow>
      andthen (fetch (events s) i) (\<lambda>e.
      andthen (event_queue e s) (\<lambda>q.
      if \<not> q_profiling q then ok (CL_PROFILING_INFO_NOT_AVAILABLE, m)
      else if status e \<noteq> CL_COMPLETE then ok (CL_PROFILING_INFO_NOT_AVAILABLE, m)
      else
        let told = (\<lambda>m. if param_value_size_ret R \<noteq> NULL then write_bytes (param_value_size_ret R) (little 4 (8 :: u32)) m else m);
            stamps = [(0x1280 :: nat, time_queue e), (0x1281, time_submit e), (0x1282, time_start e), (0x1283, time_end e)]
        in if param_value R = NULL then ok (CL_SUCCESS, told m)
           else if param_value_size R < 8 then ok (CL_INVALID_VALUE, m)
           else case map_of stamps param_name of None \<Rightarrow> ok (CL_INVALID_VALUE, m)
             | Some t \<Rightarrow> ok (CL_SUCCESS, told (write_bytes (param_value R) (little 8 t) m)))))"

section \<open>Memory objects and images\<close>

definition mem_answers :: "handles \<Rightarrow> cl_mem \<Rightarrow> (nat \<times> info_value) list" where
  "mem_answers H b =
    [(0x1100, POCL_RETURN_GETINFO 4 (ok (little 4 (of_int (mem_type b) :: u32)))),
     (0x1101, POCL_RETURN_GETINFO 8 (ok (little 8 (mem_flags b)))),
     (0x1102, POCL_RETURN_GETINFO 4 (ok (little 4 (mem_size b)))),
     (0x1103, POCL_RETURN_GETINFO 4 (ok (little 4 (mem_host_ptr b)))),
     (0x1104, POCL_RETURN_GETINFO 4 (ok (little 4 (map_count b)))),
     (0x1105, POCL_RETURN_GETINFO 4 (ok (little 4 (of_int (mem_refcount b) :: u32)))),
     (0x1106, POCL_RETURN_GETINFO 4 (ok (little 4 (context_at H (mem_context b))))),
     (0x1107, POCL_RETURN_GETINFO 4 (ok (little 4 (handle (mem_at H) (parent b))))),
     (0x1108, POCL_RETURN_GETINFO 4 (ok (little 4 (0 :: size_t))))]"

definition clGetMemObjectInfo :: "handles \<Rightarrow> nat option \<Rightarrow> cl_state \<Rightarrow> nat \<Rightarrow> info_request \<Rightarrow> memory \<Rightarrow> (int \<times> memory) prog" where
  "clGetMemObjectInfo H memobj s param_name R m =
     (case memobj of None \<Rightarrow> ok (CL_INVALID_MEM_OBJECT, m) | Some i \<Rightarrow>
      andthen (fetch (mems s) i) (\<lambda>b.
      if param_name = 0x1108 \<and> parent b \<noteq> None then throw (Exit 2)
      else answer_from (mem_answers H b) param_name R m))"

fun order_code :: "cl_channel_order \<Rightarrow> u32" where
  "order_code CL_R = 0x10B0"
| "order_code CL_A = 0x10B1"
| "order_code CL_RG = 0x10B2"
| "order_code CL_RA = 0x10B3"
| "order_code CL_RGB = 0x10B4"
| "order_code CL_RGBA = 0x10B5"
| "order_code CL_BGRA = 0x10B6"
| "order_code CL_ARGB = 0x10B7"
| "order_code CL_INTENSITY = 0x10B8"
| "order_code CL_LUMINANCE = 0x10B9"
| "order_code CL_Rx = 0x10BA"
| "order_code CL_RGx = 0x10BB"
| "order_code CL_RGBx = 0x10BC"
| "order_code CL_DEPTH = 0x10BD"
| "order_code CL_DEPTH_STENCIL = 0x10BE"
| "order_code (Other_order n) = of_nat n"

fun type_code :: "cl_channel_type \<Rightarrow> u32" where
  "type_code CL_SNORM_INT8 = 0x10D0"
| "type_code CL_SNORM_INT16 = 0x10D1"
| "type_code CL_UNORM_INT8 = 0x10D2"
| "type_code CL_UNORM_INT16 = 0x10D3"
| "type_code CL_UNORM_SHORT_565 = 0x10D4"
| "type_code CL_UNORM_SHORT_555 = 0x10D5"
| "type_code CL_UNORM_INT_101010 = 0x10D6"
| "type_code CL_SIGNED_INT8 = 0x10D7"
| "type_code CL_SIGNED_INT16 = 0x10D8"
| "type_code CL_SIGNED_INT32 = 0x10D9"
| "type_code CL_UNSIGNED_INT8 = 0x10DA"
| "type_code CL_UNSIGNED_INT16 = 0x10DB"
| "type_code CL_UNSIGNED_INT32 = 0x10DC"
| "type_code CL_HALF_FLOAT = 0x10DD"
| "type_code CL_FLOAT = 0x10DE"
| "type_code CL_UNORM_INT24 = 0x10DF"
| "type_code (Other_type n) = of_nat n"

text \<open>\<open>buf\<close>, \<open>mips\<close> and \<open>samples\<close> are the three fields of an image that the table does not hold.\<close>

definition image_answers :: "handles \<Rightarrow> nat option \<Rightarrow> u32 \<Rightarrow> u32 \<Rightarrow> cl_image \<Rightarrow> (nat \<times> info_value) list" where
  "image_answers H buf mips samples I =
    [(0x1110, POCL_RETURN_GETINFO 8 (ok (little 4 (order_code (image_channel_order I)) @ little 4 (type_code (image_channel_data_type I))))),
     (0x1111, POCL_RETURN_GETINFO 4 (ok (little 4 (image_channels I * image_elem_size I)))),
     (0x1112, POCL_RETURN_GETINFO 4 (ok (little 4 (image_row_pitch I)))),
     (0x1113, POCL_RETURN_GETINFO 4 (ok (little 4 (image_slice_pitch I)))),
     (0x1114, POCL_RETURN_GETINFO 4 (ok (little 4 (image_width I)))),
     (0x1115, POCL_RETURN_GETINFO 4 (ok (little 4 (image_height I)))),
     (0x1116, POCL_RETURN_GETINFO 4 (ok (little 4 (image_depth I)))),
     (0x1117, POCL_RETURN_GETINFO 4 (ok (little 4 (image_array_size I)))),
     (0x1118, POCL_RETURN_GETINFO 4 (ok (little 4 (handle (mem_at H) buf)))),
     (0x1119, POCL_RETURN_GETINFO 4 (ok (little 4 mips))),
     (0x111A, POCL_RETURN_GETINFO 4 (ok (little 4 samples)))]"

definition clGetImageInfo ::
  "handles \<Rightarrow> (nat \<Rightarrow> cl_image) \<Rightarrow> nat option \<Rightarrow> u32 \<Rightarrow> u32 \<Rightarrow> nat option \<Rightarrow> nat \<Rightarrow> info_request \<Rightarrow> memory \<Rightarrow> (int \<times> memory) prog" where
  "clGetImageInfo H images buf mips samples img param_name R m =
     (case img of None \<Rightarrow> ok (CL_INVALID_MEM_OBJECT, m) | Some i \<Rightarrow>
      let I = images i in answer_from (image_answers H buf mips samples I) param_name R m)"

section \<open>Kernels\<close>

text \<open>
  The fields of a kernel that only its queries read: its name, what the compiler kept of the
  arguments, and the required work-group size.
\<close>

record arg_metadata =
  address_qualifier :: u32
  access_qualifier :: u32
  type_name :: "string option"
  type_qualifier :: "64 word"
  arg_name :: "string option"

record kernel_fields =
  kernel_name :: "string option"
  has_arg_metadata :: cl_bitfield
  arg_metadata :: "arg_metadata list"
  reqd_wg_size :: "size_t \<times> size_t \<times> size_t"

definition krn_answers :: "handles \<Rightarrow> kernel_fields \<Rightarrow> cl_kernel \<Rightarrow> (nat \<times> info_value) list" where
  "krn_answers H F k =
    [(0x1190, POCL_RETURN_GETINFO_STR (ok (kernel_name F))),
     (0x1191, POCL_RETURN_GETINFO 4 (ok (little 4 (of_nat (num_args k) :: u32)))),
     (0x1192, POCL_RETURN_GETINFO 4 (ok (little 4 (of_int (k_refcount k) :: u32)))),
     (0x1193, POCL_RETURN_GETINFO 4 (ok (little 4 (context_at H (k_context k))))),
     (0x1194, POCL_RETURN_GETINFO 4 (ok (little 4 (handle (program_at H) (k_program k)))))]"

definition clGetKernelInfo ::
  "handles \<Rightarrow> kernel_fields \<Rightarrow> nat option \<Rightarrow> cl_state \<Rightarrow> nat \<Rightarrow> info_request \<Rightarrow> memory \<Rightarrow> (int \<times> memory) prog" where
  "clGetKernelInfo H F krn s param_name R m =
     (case krn of None \<Rightarrow> ok (CL_INVALID_KERNEL, m) | Some i \<Rightarrow>
      andthen (fetch (kernels s) i) (\<lambda>k. answer_from (krn_answers H F k) param_name R m))"

text \<open>A name whose bit in \<open>has_arg_metadata\<close> is not set is not available.\<close>

definition metadata_bit :: "nat \<Rightarrow> nat option" where
  "metadata_bit = map_of [(0x1196, 0), (0x1197, 1), (0x1198, 2), (0x1199, 3), (0x119A, 4)]"

definition arg_answers :: "arg_metadata \<Rightarrow> (nat \<times> info_value) list" where
  "arg_answers arg =
    [(0x1196, POCL_RETURN_GETINFO 4 (ok (little 4 (address_qualifier arg)))),
     (0x1197, POCL_RETURN_GETINFO 4 (ok (little 4 (access_qualifier arg)))),
     (0x1198, POCL_RETURN_GETINFO_STR (ok (type_name arg))),
     (0x1199, POCL_RETURN_GETINFO 8 (ok (little 8 (type_qualifier arg)))),
     (0x119A, POCL_RETURN_GETINFO_STR (ok (arg_name arg)))]"

definition clGetKernelArgInfo ::
  "kernel_fields \<Rightarrow> nat option \<Rightarrow> u32 \<Rightarrow> cl_state \<Rightarrow> nat \<Rightarrow> info_request \<Rightarrow> memory \<Rightarrow> (int \<times> memory) prog" where
  "clGetKernelArgInfo F krn arg_indx s param_name R m =
     (case krn of None \<Rightarrow> ok (CL_INVALID_KERNEL, m) | Some i \<Rightarrow>
      andthen (fetch (kernels s) i) (\<lambda>k.
      if arg_indx \<ge> of_nat (num_args k) then ok (CL_INVALID_ARG_INDEX, m)
      else case metadata_bit param_name of None \<Rightarrow> ok (CL_INVALID_VALUE, m) | Some b \<Rightarrow>
      if \<not> bit (has_arg_metadata F) b then ok (CL_KERNEL_ARG_INFO_NOT_AVAILABLE, m)
      else let arg = arg_metadata F ! unat arg_indx in answer_from (arg_answers arg) param_name R m))"

text \<open>The sizes of the local arguments and of the automatic locals.\<close>

definition local_mem :: "cl_kernel \<Rightarrow> size_t" where
  "local_mem k =
     sum_list (map (\<lambda>i. if is_local (arg_info k ! i) then arg_size (dyn_arguments k ! i) else 0) [0..<num_args k]) +
     sum_list (map (\<lambda>i. arg_size (dyn_arguments k ! (num_args k + i))) [0..<num_locals k])"

text \<open>The device that is meant: the given one when the context has it, the only one otherwise.\<close>

definition chosen_device :: "cl_context \<Rightarrow> nat option \<Rightarrow> (int + nat) prog" where
  "chosen_device C device = (case device of
       Some d \<Rightarrow> ok (if d \<in> set (ctx_devices C) then Inr d else Inl CL_INVALID_DEVICE)
     | None \<Rightarrow> if length (ctx_devices C) > 1 then ok (Inl CL_INVALID_DEVICE)
              else case ctx_devices C of [] \<Rightarrow> throw OutOfBounds | d # _ \<Rightarrow> ok (Inr d))"

definition clGetKernelWorkGroupInfo ::
  "(string \<Rightarrow> string option) \<Rightarrow> handles \<Rightarrow> kernel_fields \<Rightarrow> nat option \<Rightarrow> nat option \<Rightarrow> device_system \<Rightarrow> cl_state \<Rightarrow> nat \<Rightarrow>
   info_request \<Rightarrow> memory \<Rightarrow> (int \<times> memory) prog" where
  "clGetKernelWorkGroupInfo env H F krn device S s param_name R m =
     (case krn of None \<Rightarrow> throw NullDeref | Some i \<Rightarrow>
      andthen (fetch (kernels s) i) (\<lambda>k.
      andthen (fetch (contexts s) (k_context k)) (\<lambda>C.
      andthen (chosen_device C device) (\<lambda>ch. case ch of Inl e \<Rightarrow> ok (e, m) | Inr d \<Rightarrow>
      let dev = pocl_devices S ! d; (x, y, z) = reqd_wg_size F
      in if param_name = 0x11B0 then clGetDeviceInfo env H 0 (Some dev) 0x1004 R m
         else if param_name = 0x11B4 then throw (Exit 2)
         else answer_from
          [(0x11B1, POCL_RETURN_GETINFO 12 (ok (little 4 x @ little 4 y @ little 4 z))),
           (0x11B3, POCL_RETURN_GETINFO 4 (ok (little 4 (preferred_wg_size_multiple dev)))),
           (0x11B2, POCL_RETURN_GETINFO 8 (ok (little 8 (ucast (local_mem k) :: 64 word))))] param_name R m))))"

section \<open>Programs\<close>

text \<open>A pointer in memory.\<close>

definition pointer_at :: "addr \<Rightarrow> memory \<Rightarrow> addr" where
  "pointer_at p m = word_of_bytes (m p) (m (p + 1)) (m (p + 2)) (m (p + 3))"

text \<open>The loop over the places for the binaries: a null place is passed over.\<close>

fun give_binaries :: "'ir program_fields \<Rightarrow> addr \<Rightarrow> nat list \<Rightarrow> memory \<Rightarrow> memory prog" where
  "give_binaries p target [] m = ok m"
| "give_binaries p target (i # is) m =
     (let place = pointer_at (target + of_nat (4 * i)) m
      in if place = NULL then give_binaries p target is m
         else case binaries p of None \<Rightarrow> throw NullDeref | Some bs \<Rightarrow>
           (case binary_sizes p of None \<Rightarrow> throw NullDeref | Some szs \<Rightarrow>
            if length bs \<le> i \<or> length szs \<le> i then throw OutOfBounds
            else case bs ! i of None \<Rightarrow> if szs ! i = 0 then give_binaries p target is m else throw NullDeref
              | Some b \<Rightarrow> if length b < szs ! i then throw OutOfBounds
                         else give_binaries p target is (write_bytes place (take (szs ! i) b) m)))"

text \<open>
  \<open>refresh\<close> is \<open>pocl_llvm_update_binaries\<close>, which writes the binaries anew through LLVM. The number of
  devices is the program's, the devices shown are the first ones of its context.
\<close>

definition clGetProgramInfo ::
  "('ir program_fields \<Rightarrow> 'ir program_fields prog) \<Rightarrow> handles \<Rightarrow> nat option \<Rightarrow> 'ir program_table \<Rightarrow> cl_state \<Rightarrow> nat \<Rightarrow> info_request \<Rightarrow>
   memory \<Rightarrow> (int \<times> 'ir program_table \<times> memory) prog" where
  "clGetProgramInfo refresh H program T s param_name R m =
     (case program of None \<Rightarrow> ok (CL_INVALID_PROGRAM, T, m) | Some i \<Rightarrow>
      andthen (fetch (programs s) i) (\<lambda>P.
      andthen (fetch T i) (\<lambda>p.
      let n = length (prog_devices p);
          simple = (\<lambda>v. andthen (POCL_RETURN_GETINFO_INNER v R m) (\<lambda>(e, m). ok (e, T, m)))
      in if param_name = 0x1160 then simple (POCL_RETURN_GETINFO 4 (ok (little 4 (of_int (p_refcount P) :: u32))))
         else if param_name = 0x1161 then simple (POCL_RETURN_GETINFO 4 (ok (little 4 (context_at H (p_context P)))))
         else if param_name = 0x1164
         then simple (POCL_RETURN_GETINFO_STR (ok (Some (case source p of Some src \<Rightarrow> src | None \<Rightarrow> []))))
         else if param_name = 0x1165
         then andthen (if param_value R \<noteq> NULL then refresh p else ok p) (\<lambda>p'.
              andthen (POCL_RETURN_GETINFO_INNER (POCL_RETURN_GETINFO (4 * n)
                (case binary_sizes p' of None \<Rightarrow> if n = 0 then ok [] else throw NullDeref
                 | Some szs \<Rightarrow> if length szs < n then throw OutOfBounds
                              else ok (concat (map (\<lambda>sz. little 4 (of_nat sz :: size_t)) (take n szs))))) R m) (\<lambda>(e, m).
              ok (e, T(i \<mapsto> p'), m)))
         else if param_name = 0x1166
         then if param_value R \<noteq> NULL \<and> param_value_size R < of_nat (4 * n) then ok (CL_INVALID_VALUE, T, m)
              else andthen (if param_value R \<noteq> NULL then give_binaries p (param_value R) [0..<n] m else ok m) (\<lambda>m.
                   ok (CL_SUCCESS, T, if param_value_size_ret R \<noteq> NULL
                                      then write_bytes (param_value_size_ret R) (little 4 (of_nat (4 * n) :: size_t)) m else m))
         else if param_name = 0x1162 then simple (POCL_RETURN_GETINFO 4 (ok (little 4 (of_nat n :: u32))))
         else if param_name = 0x1163
         then simple (POCL_RETURN_GETINFO (4 * n) (andthen (fetch (contexts s) (p_context P)) (\<lambda>C.
                if length (ctx_devices C) < n then throw OutOfBounds
                else ok (concat (map (\<lambda>d. little 4 (device_at H d)) (take n (ctx_devices C)))))))
         else throw (Exit 2))))"

fun status_code :: "build_status \<Rightarrow> u32" where
  "status_code CL_BUILD_SUCCESS = 0"
| "status_code CL_BUILD_NONE = - 1"
| "status_code CL_BUILD_ERROR = - 2"

text \<open>The text of the log, empty when there is no such file; a missing directory is written \<open>(null)\<close>.\<close>

definition build_log_text :: "'ir program_fields \<Rightarrow> host \<Rightarrow> string" where
  "build_log_text p h =
     (case contents h (join_path POCL_FILENAME_LENGTH (case cache_dir p of Some d \<Rightarrow> d | None \<Rightarrow> ''(null)'') ''build.log'') of
        None \<Rightarrow> [] | Some bs \<Rightarrow> c_string (map (\<lambda>b. char_of (unat b)) bs))"

definition build_answers :: "'ir program_fields \<Rightarrow> host \<Rightarrow> (nat \<times> info_value) list" where
  "build_answers p h =
    [(0x1181, POCL_RETURN_GETINFO 4 (ok (little 4 (status_code (build_status p))))),
     (0x1182, POCL_RETURN_GETINFO_STR (ok (Some (case compiler_options p of Some a \<Rightarrow> a | None \<Rightarrow> [])))),
     (0x1183, POCL_RETURN_GETINFO_STR (ok (Some (build_log_text p h))))]"

definition clGetProgramBuildInfo ::
  "nat option \<Rightarrow> nat \<Rightarrow> 'ir program_table \<Rightarrow> host \<Rightarrow> nat \<Rightarrow> info_request \<Rightarrow> memory \<Rightarrow> (int \<times> memory) prog" where
  "clGetProgramBuildInfo program device T h param_name R m =
     (case program of None \<Rightarrow> ok (CL_INVALID_PROGRAM, m) | Some i \<Rightarrow>
      andthen (fetch T i) (\<lambda>p.
      if device \<notin> set (prog_devices p) then ok (CL_INVALID_DEVICE, m)
      else answer_from (build_answers p h) param_name R m))"

end
