(* ===== verification/Cl_Devices_Props.thy ===== *)
theory Cl_Devices_Props
  imports Cl_Devices Cl_Cpuinfo_Props Zynq_Props Cl_Buffers_Props
begin

text \<open>
  The devices of a process: what the environment asks for is what the calls hand out, a second FPGA
  device ends the process, and what creating a context from a type and sub-devices does to the
  reference counts.
\<close>

section \<open>Descriptions\<close>

definition full_name :: "machine \<Rightarrow> string \<Rightarrow> string" where
  "full_name M n = (case cpuinfo_file M of None \<Rightarrow> n
     | Some s \<Rightarrow> (case model_name (read_cpuinfo s) of None \<Rightarrow> n | Some m \<Rightarrow> n @ ''-'' @ m))"

text \<open>What is detected only changes the sizes, the speed and the name.\<close>

lemma topology_effect:
  assumes "hwloc M = Some mu"
  obtains u z where "pocl_topology_detect_device_info M dev = ok (dev\<lparr>max_compute_units := u,
    dev_max_mem_alloc_size := z, global_mem_size := fst mu, max_constant_buffer_size := z, local_mem_size := z\<rparr>)"
proof -
  obtain m us where mu: "mu = (m, us)" by (cases mu)
  show ?thesis
    by (rule that) (simp only: pocl_topology_detect_device_info_def assms mu option.case prod.case Let_def fst_conv)
qed

lemma append_name: "pocl_cpuinfo_append_cpu_name M (Some n) = ok (Some (full_name M n))"
  by (simp add: pocl_cpuinfo_append_cpu_name_def full_name_def split: option.splits)

lemma cpuinfo_effect:
  assumes "short_name dev = Some n"
  obtains u f where "pocl_cpuinfo_detect_device_info M dev =
    ok (dev\<lparr>max_compute_units := u, max_clock_frequency := f, long_name := Some (full_name M n)\<rparr>)"
proof -
  obtain k where "pocl_cpuinfo_detect_compute_unit_count M = ok k" using compute_units_ok by blast
  then obtain u where u: "(if max_compute_units dev = 0
      then andthen (pocl_cpuinfo_detect_compute_unit_count M) (\<lambda>n. ok (if n = -1 then 0 else of_int n))
      else ok (max_compute_units dev)) = ok (u :: u32)" by (cases "max_compute_units dev = 0") simp_all
  show ?thesis by (rule that) (simp only: pocl_cpuinfo_detect_device_info_def u assms append_name andthen_ok Let_def)
qed

lemma detect_effect:
  assumes "hwloc M = Some mu" and "short_name dev = Some n"
  obtains u z v f where "detect_device_info M dev = ok ((dev\<lparr>max_compute_units := u,
      dev_max_mem_alloc_size := z, global_mem_size := fst mu, max_constant_buffer_size := z, local_mem_size := z\<rparr>)
    \<lparr>max_compute_units := v, max_clock_frequency := f, long_name := Some (full_name M n)\<rparr>)"
proof -
  obtain u z where 1: "pocl_topology_detect_device_info M dev = ok (dev\<lparr>max_compute_units := u,
    dev_max_mem_alloc_size := z, global_mem_size := fst mu, max_constant_buffer_size := z, local_mem_size := z\<rparr>)"
    (is "_ = ok ?d") using topology_effect[OF assms(1), of dev] by blast
  have "short_name ?d = Some n" using assms(2) by simp
  then obtain v f where 2: "pocl_cpuinfo_detect_device_info M ?d =
    ok (?d\<lparr>max_compute_units := v, max_clock_frequency := f, long_name := Some (full_name M n)\<rparr>)"
    using cpuinfo_effect[of ?d n M] by blast
  show ?thesis by (rule that) (simp only: detect_device_info_def 1 2 andthen_ok)
qed

fun kind_type :: "driver_kind \<Rightarrow> cl_bitfield" where
  "kind_type Zynq_basic = CL_DEVICE_TYPE_ACCELERATOR"
| "kind_type _ = CL_DEVICE_TYPE_CPU"

text \<open>A finished device of a driver at a position of the table.\<close>

definition started :: "machine \<Rightarrow> driver_kind \<Rightarrow> nat \<Rightarrow> device \<Rightarrow> bool" where
  "started M k i dev \<longleftrightarrow> dev_ops dev = k \<and> dev_id dev = i \<and> available dev = 1 \<and>
     dev_type dev = kind_type k OR (if i = 0 then 1 else 0) \<and>
     short_name dev = Some (device_name k) \<and> long_name dev = Some (full_name M (device_name k)) \<and>
     cache_dir_name dev = Some (pocl_string_to_dirname (full_name M (device_name k)))"

definition described :: "driver_kind \<Rightarrow> nat \<Rightarrow> device" where
  "described k i = pocl_device_common_init (init_device_infos k (blank_device\<lparr>dev_id := i, global_mem_id := i, dev_ops := k\<rparr>))"

lemmas descriptions = blank_device_def common_limits_def common_sizes_def pocl_basic_init_device_infos_def
  pocl_pthread_init_device_infos_def pocl_zynq_basic_init_device_infos_def pocl_device_common_init_def

lemma described_fields:
  "dev_ops (described k i) = k" "dev_id (described k i) = i" "available (described k i) = 1"
  "dev_type (described k i) = kind_type k" "short_name (described k i) = Some (device_name k)"
  "llvm_cpu (described k i) = Some ''cortex-a9''" "dev_data (described k i) = False"
  by (cases k; simp add: described_def descriptions)+

section \<open>Starting one device\<close>

definition identity :: "machine \<Rightarrow> device \<Rightarrow> device \<Rightarrow> bool" where
  "identity M dev dev' \<longleftrightarrow> dev_ops dev' = dev_ops dev \<and> dev_id dev' = dev_id dev \<and> available dev' = available dev \<and>
     dev_type dev' = dev_type dev \<and> short_name dev' = short_name dev \<and> llvm_cpu dev' = llvm_cpu dev \<and>
     long_name dev' = map_option (full_name M) (short_name dev)"

lemma detect_identity:
  assumes "hwloc M \<noteq> None" and "short_name dev = Some n"
  obtains dev' where "detect_device_info M dev = ok dev'" and "identity M dev dev'"
proof -
  obtain mu where "hwloc M = Some mu" using assms(1) by blast
  then obtain u z v f where "detect_device_info M dev = ok ((dev\<lparr>max_compute_units := u,
      dev_max_mem_alloc_size := z, global_mem_size := fst mu, max_constant_buffer_size := z, local_mem_size := z\<rparr>)
    \<lparr>max_compute_units := v, max_clock_frequency := f, long_name := Some (full_name M n)\<rparr>)"
    by (rule detect_effect[OF _ assms(2)])
  then show ?thesis by (rule that) (simp add: identity_def assms(2))
qed

lemma known_cpu_same: "llvm_cpu dev = Some ''cortex-a9'' \<Longrightarrow> known_cpu dev = ok dev"
  by (simp add: known_cpu_def)

text \<open>\<open>Z\<close> is what the device does to the open files: only the FPGA device touches them.\<close>

definition file_changes :: "host_system \<Rightarrow> driver_kind \<Rightarrow> zynq \<Rightarrow> zynq prog" where
  "file_changes H k z = (if k = Zynq_basic then open_files (ports H) files z else ok z)"

lemma init_device_ok:
  assumes "data_malloc H" and "hwloc (this_machine H) \<noteq> None" and "short_name dev = Some n"
    and "llvm_cpu dev = Some ''cortex-a9''" and "\<not> dev_data dev"
    and "file_changes H k (port_files S) = ok z"
  obtains dev' S' where "init_device H k dev S = ok (dev', S')" and "identity (this_machine H) dev dev'"
    and "port_files S' = z" and "pocl_devices S' = pocl_devices S"
proof (cases k)
  case Pthread
  let ?d = "dev\<lparr>address_bits := 32, max_read_image_args := 128, max_write_image_args := 128,
     image2d_max_width := 8192, image2d_max_height := 8192, image3d_max_width := 2048,
     image3d_max_height := 2048, image3d_max_depth := 2048, max_samplers := 16,
     mem_base_addr_align := 128, min_data_type_align_size := 128, max_constant_args := 8,
     extensions := Some ''cl_khr_fp64 cl_khr_byte_addressable_store'', dev_data := True\<rparr>"
  have "short_name ?d = Some n" using assms(3) by simp
  then obtain dev' where d: "detect_device_info (this_machine H) ?d = ok dev'" "identity (this_machine H) ?d dev'"
    using detect_identity[OF assms(2)] by blast
  then have "known_cpu dev' = ok dev'" using assms(4) by (simp add: identity_def known_cpu_same)
  then have "init_device H k dev S = ok (dev', S)"
    using d(1) assms(1,5) by (simp add: Pthread pocl_pthread_init_def Let_def)
  moreover have "identity (this_machine H) dev dev'" using d(2) by (simp add: identity_def)
  ultimately show ?thesis using that assms(6) by (simp add: Pthread file_changes_def)
next
  case Basic
  define S1 where "S1 = (if basic_global_mem_id S = None then S\<lparr>basic_global_mem_id := Some (dev_id dev)\<rparr> else S)"
  let ?d = "dev\<lparr>global_mem_id := the (basic_global_mem_id S1)\<rparr>\<lparr>dev_data := True\<rparr>"
  have "short_name ?d = Some n" using assms(3) by simp
  then obtain dev' where d: "detect_device_info (this_machine H) ?d = ok dev'" "identity (this_machine H) ?d dev'"
    using detect_identity[OF assms(2)] by blast
  then have "known_cpu (dev'\<lparr>max_compute_units := 1\<rparr>) = ok (dev'\<lparr>max_compute_units := 1\<rparr>)"
    using assms(4) by (simp add: identity_def known_cpu_same)
  then have "init_device H k dev S = ok (dev'\<lparr>max_compute_units := 1\<rparr>, S1)"
    using d(1) assms(1) by (simp add: Basic pocl_basic_init_def S1_def[symmetric])
  moreover have "identity (this_machine H) dev (dev'\<lparr>max_compute_units := 1\<rparr>)" using d(2) by (simp add: identity_def)
  ultimately show ?thesis using that assms(6) by (simp add: Basic file_changes_def S1_def)
next
  case Zynq_basic
  define S1 where "S1 = (if zynq_global_mem_id S = None then S\<lparr>zynq_global_mem_id := Some (dev_id dev)\<rparr> else S)"
  let ?d = "dev\<lparr>global_mem_id := the (zynq_global_mem_id S1)\<rparr>\<lparr>dev_data := True\<rparr>"
  have "short_name ?d = Some n" using assms(3) by simp
  then obtain dev' where d: "detect_device_info (this_machine H) ?d = ok dev'" "identity (this_machine H) ?d dev'"
    using detect_identity[OF assms(2)] by blast
  then have "known_cpu (dev'\<lparr>max_compute_units := 1\<rparr>) = ok (dev'\<lparr>max_compute_units := 1\<rparr>)"
    using assms(4) by (simp add: identity_def known_cpu_same)
  moreover have "open_files (ports H) files (port_files S1) = ok z"
    using assms(6) by (simp add: S1_def file_changes_def Zynq_basic)
  ultimately have "init_device H k dev S = ok (dev'\<lparr>max_compute_units := 1\<rparr>, S1\<lparr>port_files := z\<rparr>)"
    using d(1) assms(1) by (simp add: Zynq_basic pocl_zynq_basic_init_def S1_def[symmetric])
  moreover have "identity (this_machine H) dev (dev'\<lparr>max_compute_units := 1\<rparr>)" using d(2) by (simp add: identity_def)
  ultimately show ?thesis using that by (simp add: S1_def)
qed

definition can_start :: "host_system \<Rightarrow> bool" where
  "can_start H \<longleftrightarrow> data_malloc H \<and> hwloc (this_machine H) \<noteq> None"

text \<open>The device after its driver's \<open>init\<close>, with the default bit and the name of its cache.\<close>

lemma start_device_init:
  assumes "i = length (pocl_devices S)" and "init_device H k (described k i) S = ok (dev, S')" and "pocl_devices S' = pocl_devices S"
    and "identity (this_machine H) (described k i) dev"
  obtains dev' where "start_device H k (S, s) = ok (S'\<lparr>pocl_devices := pocl_devices S @ [dev']\<rparr>, put_device i (runtime_view 1 dev') s)"
    and "started (this_machine H) k i dev'"
proof -
  define d1 where "d1 = (if i = 0 then dev\<lparr>dev_type := dev_type dev OR 1\<rparr> else dev)"
  define d2 where "d2 = d1\<lparr>cache_dir_name := map_option pocl_string_to_dirname (long_name d1)\<rparr>"
  have "start_device H k (S, s) = ok (S'\<lparr>pocl_devices := pocl_devices S @ [d2]\<rparr>, put_device i (runtime_view 1 d2) s)"
    unfolding start_device_def prod.case Let_def assms(1)[symmetric] described_def[symmetric] assms(2) andthen_ok
    by (simp only: prod.case assms(3) d1_def[symmetric] d2_def[symmetric])
  moreover have "started (this_machine H) k i d2"
    using assms(4) by (auto simp: started_def identity_def d2_def d1_def described_fields)
  ultimately show ?thesis by (rule that)
qed

lemma start_device_ok:
  assumes "can_start H" and "i = length (pocl_devices S)" and "file_changes H k (port_files S) = ok z"
  obtains dev S' where "start_device H k (S, s) = ok (S', put_device i (runtime_view 1 dev) s)"
    and "pocl_devices S' = pocl_devices S @ [dev]" and "port_files S' = z" and "started (this_machine H) k i dev"
proof -
  obtain dev S' where d: "init_device H k (described k i) S = ok (dev, S')" "identity (this_machine H) (described k i) dev"
    "port_files S' = z" "pocl_devices S' = pocl_devices S"
    by (rule init_device_ok[OF _ _ _ _ _ assms(3), of "described k i" "device_name k"])
      (use assms(1) in \<open>simp_all add: can_start_def described_fields\<close>)
  obtain dev' where "start_device H k (S, s) = ok (S'\<lparr>pocl_devices := pocl_devices S @ [dev']\<rparr>, put_device i (runtime_view 1 dev') s)"
    "started (this_machine H) k i dev'" by (rule start_device_init[OF assms(2) d(1,4,2)])
  then show ?thesis using that d(3) by simp
qed

text \<open>When the device files cannot be opened, the process ends.\<close>

lemma start_device_exit:
  assumes "can_start H" and "open_files (ports H) files (port_files S) = throw e"
  shows "start_device H Zynq_basic (S, s) = throw e"
proof -
  define i where "i = length (pocl_devices S)"
  define S1 where "S1 = (if zynq_global_mem_id S = None then S\<lparr>zynq_global_mem_id := Some (dev_id (described Zynq_basic i))\<rparr> else S)"
  let ?d = "(described Zynq_basic i)\<lparr>global_mem_id := the (zynq_global_mem_id S1)\<rparr>\<lparr>dev_data := True\<rparr>"
  have "short_name ?d = Some (device_name Zynq_basic)" by (simp add: described_fields)
  then obtain dev' where d: "detect_device_info (this_machine H) ?d = ok dev'" "identity (this_machine H) ?d dev'"
    using detect_identity assms(1) unfolding can_start_def by blast
  then have "known_cpu (dev'\<lparr>max_compute_units := 1\<rparr>) = ok (dev'\<lparr>max_compute_units := 1\<rparr>)"
    by (simp add: identity_def known_cpu_same described_fields)
  moreover have "open_files (ports H) files (port_files S1) = throw e" using assms(2) by (simp add: S1_def)
  ultimately have "init_device H Zynq_basic (described Zynq_basic i) S = throw e"
    using d(1) assms(1) by (simp add: can_start_def pocl_zynq_basic_init_def S1_def[symmetric])
  then show ?thesis
    unfolding start_device_def prod.case Let_def i_def[symmetric] described_def[symmetric] by (simp only: andthen_throw)
qed

section \<open>Starting all devices\<close>

fun files_after :: "host_system \<Rightarrow> driver_kind list \<Rightarrow> zynq \<Rightarrow> zynq prog" where
  "files_after H [] z = ok z"
| "files_after H (k # ks) z = andthen (file_changes H k z) (files_after H ks)"

definition table_ok :: "machine \<Rightarrow> driver_kind list \<Rightarrow> device_system \<Rightarrow> cl_state \<Rightarrow> bool" where
  "table_ok M ks S s \<longleftrightarrow> map dev_ops (pocl_devices S) = ks \<and>
     (\<forall>i < length ks. started M (ks ! i) i (pocl_devices S ! i) \<and> devices s i = Some (runtime_view 1 (pocl_devices S ! i)))"

lemma table_ok_snoc:
  assumes "table_ok M ks S s" and "pocl_devices S' = pocl_devices S @ [dev]" and "started M k (length ks) dev"
  shows "table_ok M (ks @ [k]) S' (put_device (length ks) (runtime_view 1 dev) s)"
proof -
  have "length (pocl_devices S) = length ks" using assms(1) unfolding table_ok_def by (metis length_map)
  moreover have "dev_ops dev = k" using assms(3) by (simp add: started_def)
  ultimately show ?thesis using assms by (auto simp: table_ok_def nth_append less_Suc_eq)
qed

lemma start_devices_ok:
  assumes "can_start H"
  shows "table_ok (this_machine H) ks0 S s \<Longrightarrow> files_after H ks (port_files S) = ok z \<Longrightarrow>
    \<exists>S' s'. start_devices H ks (S, s) = ok (S', s') \<and> table_ok (this_machine H) (ks0 @ ks) S' s' \<and> port_files S' = z"
proof (induction ks arbitrary: ks0 S s)
  case Nil
  then show ?case by simp
next
  case (Cons k ks)
  obtain z1 where z1: "file_changes H k (port_files S) = ok z1" "files_after H ks z1 = ok z"
    using Cons.prems(2) by (auto simp: andthen_eq_ok)
  have len: "length ks0 = length (pocl_devices S)" using Cons.prems(1) unfolding table_ok_def by (metis length_map)
  obtain dev S1 where 1: "start_device H k (S, s) = ok (S1, put_device (length ks0) (runtime_view 1 dev) s)"
    "pocl_devices S1 = pocl_devices S @ [dev]" "port_files S1 = z1" "started (this_machine H) k (length ks0) dev"
    by (rule start_device_ok[OF assms len z1(1)])
  have "table_ok (this_machine H) (ks0 @ [k]) S1 (put_device (length ks0) (runtime_view 1 dev) s)"
    by (rule table_ok_snoc[OF Cons.prems(1) 1(2,4)])
  from Cons.IH[OF this] 1(1,3) z1(2) show ?case by simp
qed

lemma start_devices_append:
  "start_devices H (ks @ ls) = (\<lambda>x. andthen (start_devices H ks x) (start_devices H ls))"
proof (induction ks)
  case (Cons k ks)
  show ?case by (rule ext) (simp only: append_Cons start_devices.simps Cons.IH andthen_assoc)
qed (simp add: fun_eq_iff)

section \<open>The device files\<close>

text \<open>Hardware leaves a driver idle: it has no buffers to write to.\<close>

lemma idle_hardware_driver:
  assumes "hardware_ok E" and "idle_driver (driver_state s f)"
  shows "idle_driver (driver_now E f s)"
proof -
  let ?d = "driver_state s f"
  obtain regs m where h: "driver_now E f s = ?d\<lparr>io := regs, dma_mem := m\<rparr>" and "same_sizes (dma_mem ?d) m"
    using assms(1) unfolding hardware_ok_def driver_now_def by blast
  then have "dom m = dom (dma_mem ?d)" by (simp add: same_sizes_dom)
  then have "m = dma_mem ?d" using assms(2) by (auto simp: idle_driver_def)
  then have "driver_now E f s = ?d\<lparr>io := regs\<rparr>" using h by simp
  then show ?thesis using assms(2) by (simp add: idle_driver_def)
qed

lemma named_open:
  assumes "idle_driver d"
  obtains d' where "fop_open (named_driver iow f) d = (0, d')" and "port_shows d' []"
  using acp.open_law[OF assms, of iow] hp0.open_law[OF assms, of iow] hp1.open_law[OF assms, of iow]
    hp2.open_law[OF assms, of iow] hp3.open_law[OF assms, of iow]
  by (cases f) (auto simp: named_driver_def)

lemma named_busy: "port_shows d xs \<Longrightarrow> fop_open (named_driver iow f) d = (- EBUSY, d)"
  using acp.busy_law hp0.busy_law hp1.busy_law hp2.busy_law hp3.busy_law by (cases f) (simp_all add: named_driver_def)

lemma open_idle:
  assumes "hardware_ok E" and "\<forall>f. served_by E f = named_driver iow f"
  shows "distinct fs \<Longrightarrow> \<forall>f \<in> set fs. idle_driver (driver_state s f) \<Longrightarrow>
    \<exists>z. open_files E fs s = ok z \<and> (\<forall>f. port_shows (driver_state s f) [] \<or> f \<in> set fs \<longrightarrow> port_shows (driver_state z f) [])"
proof (induction fs arbitrary: s)
  case Nil
  then show ?case by simp
next
  case (Cons f fs)
  obtain d where d: "fop_open (named_driver iow f) (driver_now E f s) = (0, d)" "port_shows d []"
    using named_open idle_hardware_driver[OF assms(1), of s f] Cons.prems(2) by (metis list.set_intros(1))
  have "\<forall>g \<in> set fs. idle_driver (driver_state (returned f d s) g)" using Cons.prems by (auto simp: returned_def)
  then obtain z where z: "open_files E fs (returned f d s) = ok z"
    "\<forall>g. port_shows (driver_state (returned f d s) g) [] \<or> g \<in> set fs \<longrightarrow> port_shows (driver_state z g) []"
    using Cons.IH Cons.prems(1) by (meson distinct.simps(2))
  have "open_files E (f # fs) s = ok z" using z(1) d(1) assms(2) by simp
  moreover have "\<forall>g. port_shows (driver_state s g) [] \<or> g \<in> set (f # fs) \<longrightarrow> port_shows (driver_state z g) []"
    using z(2) d(2) by (auto simp: returned_def)
  ultimately show ?case by blast
qed

lemma open_busy_exits:
  assumes "hardware_ok E" and "\<forall>f. served_by E f = named_driver iow f" and "port_shows (driver_state s ACP) []"
  shows "open_files E files s = throw (Exit (-1))"
  using named_busy[OF empty_hardware[OF assms(1,3)], of iow ACP] assms(2) by (simp add: files_def)

text \<open>The FPGA behind its drivers, before any device file is opened.\<close>

definition ports_idle :: "host_system \<Rightarrow> device_system \<Rightarrow> iow \<Rightarrow> bool" where
  "ports_idle H S iow \<longleftrightarrow> hardware_ok (ports H) \<and> (\<forall>f. served_by (ports H) f = named_driver iow f) \<and>
     (\<forall>f. idle_driver (driver_state (port_files S) f))"

lemma UNIV_devfile: "(UNIV :: devfile set) = {ACP, HP0, HP1, HP2, HP3}"
  by (rule UNIV_eq_I) (metis devfile.exhaust insertCI)

lemma first_open:
  assumes "ports_idle H S iow"
  obtains z where "open_files (ports H) files (port_files S) = ok z" and "\<forall>f. port_shows (driver_state z f) []"
proof -
  have "distinct files" "set files = UNIV" using UNIV_devfile by (auto simp: files_def)
  then show ?thesis using open_idle[of "ports H" iow files "port_files S"] assms that by (auto simp: ports_idle_def)
qed

section \<open>The devices of a process\<close>

lemma files_after_others: "Zynq_basic \<notin> set ks \<Longrightarrow> files_after H (ks @ ls) z = files_after H ls z"
  by (induction ks) (auto simp: file_changes_def)

lemma probed_split: "probed_devices H =
    (replicate (probe H Pthread) Pthread @ replicate (probe H Basic) Basic) @ replicate (probe H Zynq_basic) Zynq_basic"
  by (simp add: probed_devices_def pocl_devices_init_ops_def)

definition wanted :: "string option \<Rightarrow> driver_kind list" where
  "wanted env = (case env of None \<Rightarrow> [Pthread]
     | Some e \<Rightarrow> concat (map (\<lambda>k. replicate (count_list (tokens e) (device_name k)) k) [Pthread, Basic, Zynq_basic]))"

lemma length_filter_count: "length (filter (\<lambda>t. t = x) ts) = count_list ts x"
  by (induction ts) auto

lemma probe_count: "probe H k = (case getenv H ''POCL_DEVICES'' of None \<Rightarrow> (if k = Pthread then 1 else 0)
    | Some e \<Rightarrow> count_list (tokens e) (device_name k))"
  by (cases k) (auto simp: pocl_pthread_probe_def pocl_basic_probe_def pocl_zynq_basic_probe_def
      pocl_device_get_env_count_def length_filter_count split: option.splits)

lemma probed_wanted: "probed_devices H = wanted (getenv H ''POCL_DEVICES'')"
  unfolding probed_split probe_count wanted_def by (simp split: option.splits)

lemma files_after_probed:
  assumes "ports_idle H S iow" and "probe H Zynq_basic \<le> 1"
  obtains z where "files_after H (probed_devices H) (port_files S) = ok z"
    and "if probe H Zynq_basic = 0 then z = port_files S else \<forall>f. port_shows (driver_state z f) []"
proof -
  have "files_after H (probed_devices H) (port_files S) = files_after H (replicate (probe H Zynq_basic) Zynq_basic) (port_files S)"
    unfolding probed_split by (rule files_after_others) auto
  moreover obtain z where z: "open_files (ports H) files (port_files S) = ok z" "\<forall>f. port_shows (driver_state z f) []"
    by (rule first_open[OF assms(1)])
  moreover have "probe H Zynq_basic = 0 \<or> probe H Zynq_basic = 1" using assms(2) by linarith
  ultimately show ?thesis using that by (elim disjE) (simp_all add: file_changes_def del: probe.simps)
qed

lemma init_devices_ok:
  assumes "\<not> init_done S" and "table_calloc H" and "can_start H" and "ports_idle H S iow"
    and "probed_devices H \<noteq> []" and "probe H Zynq_basic \<le> 1"
  obtains S' s' where "pocl_init_devices H (S, s) = ok (S', s')" and "init_done S'"
    and "table_ok (this_machine H) (probed_devices H) S' s'"
    and "if probe H Zynq_basic = 0 then port_files S' = port_files S else \<forall>f. port_shows (driver_state (port_files S') f) []"
proof -
  obtain z where z: "files_after H (probed_devices H) (port_files S) = ok z"
    and files: "if probe H Zynq_basic = 0 then z = port_files S else \<forall>f. port_shows (driver_state z f) []"
    by (rule files_after_probed[OF assms(4,6)])
  have "table_ok (this_machine H) [] (S\<lparr>pocl_devices := []\<rparr>) s" by (simp add: table_ok_def)
  from start_devices_ok[OF assms(3) this, of "probed_devices H" z] z
  obtain S1 s1 where 1: "start_devices H (probed_devices H) (S\<lparr>pocl_devices := []\<rparr>, s) = ok (S1, s1)"
    "table_ok (this_machine H) (probed_devices H) S1 s1" "port_files S1 = z" by auto
  have "pocl_init_devices H (S, s) = ok (S1\<lparr>init_done := True\<rparr>, s1)"
    using assms(1,2,5) by (simp add: pocl_init_devices_def 1(1))
  then show ?thesis using that 1(2,3) files by (simp add: table_ok_def del: probe.simps)
qed

lemma wanted_fpga: "Zynq_basic \<in> set (wanted (getenv H ''POCL_DEVICES'')) \<longleftrightarrow> probe H Zynq_basic \<noteq> 0"
  unfolding probed_wanted[symmetric] probed_split by auto

text \<open>C70: The first call makes the devices that the environment variable \<open>POCL_DEVICES\<close> names, as often
  as it names them and in the order of the drivers, or one pthread device when it is not set. Each
  has its position as its number, one reference, its driver's type and name; only the first is the
  default device. When the FPGA is among them all five device files are open and without arguments,
  otherwise no driver was touched; a second call changes nothing. Hypotheses: it is the process's first call,
  the variable names at least one device and at most one FPGA, the allocations of the table and of
  the drivers' data and the topology library succeed, and the device files are served by the five port
  drivers, found by their names, that nobody has open, over hardware that only changes registers and
  the contents of buffers.\<close>

theorem devices_of_environment:
  assumes "\<not> init_done S" and "table_calloc H" and "can_start H" and "ports_idle H S iow"
    and "probed_devices H \<noteq> []" and "probe H Zynq_basic \<le> 1"
  shows "\<exists>S' s'. pocl_init_devices H (S, s) = ok (S', s') \<and> pocl_init_devices H (S', s') = ok (S', s') \<and>
    table_ok (this_machine H) (wanted (getenv H ''POCL_DEVICES'')) S' s' \<and>
    (if Zynq_basic \<in> set (wanted (getenv H ''POCL_DEVICES'')) then \<forall>f. port_shows (driver_state (port_files S') f) []
     else port_files S' = port_files S)"
proof -
  obtain S' s' where "pocl_init_devices H (S, s) = ok (S', s')" "init_done S'"
    "table_ok (this_machine H) (probed_devices H) S' s'"
    "if probe H Zynq_basic = 0 then port_files S' = port_files S else \<forall>f. port_shows (driver_state (port_files S') f) []"
    by (rule init_devices_ok[OF assms])
  then show ?thesis unfolding wanted_fpga by (auto simp: pocl_init_devices_def probed_wanted simp del: probe.simps)
qed

text \<open>C72: The FPGA device can be asked for once only: in the first call of a process the second one finds
  the device files busy, and its driver ends the process. Hypotheses: the allocations and the topology library
  succeed, and the device files lead to the port drivers by their names and are free.\<close>

theorem second_fpga_device_exits:
  assumes "\<not> init_done S" and "table_calloc H" and "can_start H" and "ports_idle H S iow"
    and "2 \<le> probe H Zynq_basic"
  shows "pocl_init_devices H (S, s) = throw (Exit (-1))"
proof -
  let ?others = "replicate (probe H Pthread) Pthread @ replicate (probe H Basic) Basic"
  obtain m where "probe H Zynq_basic = Suc (Suc m)" using assms(5) by (metis Suc_le_D Suc_le_mono numeral_2_eq_2)
  then have ks: "probed_devices H = (?others @ [Zynq_basic]) @ Zynq_basic # replicate m Zynq_basic"
    unfolding probed_split by simp
  obtain z where z: "open_files (ports H) files (port_files S) = ok z" "\<forall>f. port_shows (driver_state z f) []"
    by (rule first_open[OF assms(4)])
  have "files_after H (?others @ [Zynq_basic]) (port_files S) = files_after H [Zynq_basic] (port_files S)"
    by (rule files_after_others) auto
  then have "files_after H (?others @ [Zynq_basic]) (port_files S) = ok z" using z(1) by (simp add: file_changes_def)
  moreover have "table_ok (this_machine H) [] (S\<lparr>pocl_devices := []\<rparr>) s" by (simp add: table_ok_def)
  ultimately obtain S1 s1 where 1: "start_devices H (?others @ [Zynq_basic]) (S\<lparr>pocl_devices := []\<rparr>, s) = ok (S1, s1)"
    "port_files S1 = z" using start_devices_ok[OF assms(3), of "[]" "S\<lparr>pocl_devices := []\<rparr>" s] by fastforce
  have "open_files (ports H) files (port_files S1) = throw (Exit (-1))"
    using open_busy_exits[of "ports H" iow z] z(2) assms(4) by (simp add: ports_idle_def 1(2))
  then have "start_device H Zynq_basic (S1, s1) = throw (Exit (-1))" by (rule start_device_exit[OF assms(3)])
  then have "start_devices H (probed_devices H) (S\<lparr>pocl_devices := []\<rparr>, s) = throw (Exit (-1))"
    unfolding ks start_devices_append[of H "?others @ [Zynq_basic]"] by (simp only: 1(1) andthen_ok start_devices.simps andthen_throw)
  moreover have "probed_devices H \<noteq> []" unfolding ks by simp
  ultimately show ?thesis using assms(1,2) by (simp add: pocl_init_devices_def)
qed

section \<open>Handing them out\<close>

text \<open>The positions of the devices that fit.\<close>

definition fitting :: "cl_bitfield \<Rightarrow> device list \<Rightarrow> nat list" where
  "fitting ty devs = filter (\<lambda>i. fits ty (devs ! i)) [0..<length devs]"

lemma get_devices_filter:
  "length added \<le> num \<Longrightarrow> get_devices_from ty num i devs added =
     added @ take (num - length added) (filter (\<lambda>j. fits ty (devs ! (j - i))) [i..<i + length devs])"
proof (induction devs arbitrary: i added)
  case Nil
  then show ?case by simp
next
  case (Cons dev devs)
  have up: "[i..<i + length (dev # devs)] = i # [Suc i..<Suc i + length devs]" by (simp add: upt_rec)
  have "filter (\<lambda>j. fits ty ((dev # devs) ! (j - i))) [Suc i..<Suc i + length devs]
      = filter (\<lambda>j. fits ty (devs ! (j - Suc i))) [Suc i..<Suc i + length devs]"
    by (rule filter_cong) (auto simp: Suc_diff_Suc[symmetric] less_eq_Suc_le nth_Cons' Suc_diff_le)
  then have f: "filter (\<lambda>j. fits ty ((dev # devs) ! (j - i))) [i..<i + length (dev # devs)] =
      (if fits ty dev then [i] else []) @ filter (\<lambda>j. fits ty (devs ! (j - Suc i))) [Suc i..<Suc i + length devs]"
    unfolding up by simp
  show ?case
  proof (cases "fits ty dev \<and> length added < num")
    case True
    then have "num - length added = Suc (num - length (added @ [i]))" by (simp add: Suc_diff_Suc)
    then show ?thesis using True Cons.IH[of "added @ [i]" "Suc i"] f by simp
  next
    case False
    then show ?thesis using Cons.IH[of added "Suc i"] Cons.prems f by auto
  qed
qed

lemma pocl_get_devices_fitting: "pocl_get_devices ty num S = take num (fitting ty (pocl_devices S))"
  using get_devices_filter[of "[]" num ty 0 "pocl_devices S"] by (simp add: pocl_get_devices_def fitting_def)

lemma count_devices_filter: "count_devices_from ty devs n = n + length (filter (fits ty) devs)"
  by (induction devs arbitrary: n) auto

lemma length_fitting: "length (fitting ty devs) = length (filter (fits ty) devs)"
proof -
  have "filter (fits ty) (map ((!) devs) [0..<length devs]) = map ((!) devs) (fitting ty devs)"
    unfolding fitting_def filter_map o_def by (rule refl)
  then show ?thesis unfolding map_nth by simp
qed

lemma pocl_get_device_type_count_fitting: "pocl_get_device_type_count ty S = length (fitting ty (pocl_devices S))"
  by (simp add: pocl_get_device_type_count_def count_devices_filter length_fitting)

lemma clGetDeviceIDs_done:
  assumes "pocl_init_devices H x = ok (S, s)" and "0 < n"
  shows "clGetDeviceIDs H True ty n True True x =
      ok (if fitting ty (pocl_devices S) = [] then CL_DEVICE_NOT_FOUND else CL_SUCCESS,
          Some (take n (fitting ty (pocl_devices S))), Some (length (fitting ty (pocl_devices S))), S, s)"
    and "clGetDeviceIDs H True ty 0 False True x = ok (CL_SUCCESS, None, Some (length (fitting ty (pocl_devices S))), S, s)"
    and "clGetDeviceIDs H True ty n False True x =
      ok (CL_DEVICE_NOT_FOUND, None, Some (length (fitting ty (pocl_devices S))), S, s)"
  using assms(2) by (simp_all add: clGetDeviceIDs_def assms(1) pocl_get_devices_fitting pocl_get_device_type_count_fitting)

text \<open>The numbers of the devices of a type, from the drivers alone: the first device is also of the type \<open>DEFAULT\<close>.\<close>

definition of_type :: "cl_bitfield \<Rightarrow> driver_kind list \<Rightarrow> nat list" where
  "of_type ty ks = filter (\<lambda>i. (kind_type (ks ! i) OR (if i = 0 then 1 else 0)) AND ty \<noteq> 0) [0..<length ks]"

lemma table_ok_fitting:
  assumes "table_ok M ks S s"
  shows "fitting ty (pocl_devices S) = of_type ty ks"
proof -
  have "length (pocl_devices S) = length ks" using assms unfolding table_ok_def by (metis length_map)
  moreover have "fits ty (pocl_devices S ! i) \<longleftrightarrow> (kind_type (ks ! i) OR (if i = 0 then 1 else 0)) AND ty \<noteq> 0"
    if "i < length ks" for i
    using assms that by (simp add: table_ok_def started_def fits_def)
  ultimately show ?thesis unfolding fitting_def of_type_def by (intro filter_cong) auto
qed

text \<open>C71: An application that asks a fresh process for its devices of any type, as the first call or later,
  gets as many numbers as it has room for, in the order of the table, and the number there are, and is told
  \<open>CL_DEVICE_NOT_FOUND\<close> when there are none; the devices of a type are those whose driver has a bit of
  the type, and the first device when the default device is asked for. Asking with no room is answered
  the number alone. Hypotheses: those of the start of the devices (the variable names at least one
  device and at most one FPGA, the allocations and the topology library succeed, the device files are
  free and found by name), and there is room for at least one device.\<close>

theorem device_ids_of_environment:
  assumes "\<not> init_done S" and "table_calloc H" and "can_start H" and "ports_idle H S iow"
    and "probed_devices H \<noteq> []" and "probe H Zynq_basic \<le> 1" and "0 < n"
    and "ids = (\<lambda>ty. of_type ty (wanted (getenv H ''POCL_DEVICES'')))"
  shows "\<exists>S' s'. \<forall>ty.
    clGetDeviceIDs H True ty n True True (S, s) =
      ok (if ids ty = [] then CL_DEVICE_NOT_FOUND else CL_SUCCESS, Some (take n (ids ty)), Some (length (ids ty)), S', s') \<and>
    clGetDeviceIDs H True ty n True True (S', s') =
      ok (if ids ty = [] then CL_DEVICE_NOT_FOUND else CL_SUCCESS, Some (take n (ids ty)), Some (length (ids ty)), S', s') \<and>
    clGetDeviceIDs H True ty 0 False True (S', s') = ok (CL_SUCCESS, None, Some (length (ids ty)), S', s')"
proof -
  obtain S' s' where 1: "pocl_init_devices H (S, s) = ok (S', s')" "init_done S'"
    "table_ok (this_machine H) (probed_devices H) S' s'" by (rule init_devices_ok[OF assms(1-6)])
  have ids: "fitting ty (pocl_devices S') = ids ty" for ty
    using table_ok_fitting[OF 1(3)] unfolding assms(8) probed_wanted by simp
  have again: "pocl_init_devices H (S', s') = ok (S', s')" using 1(2) by (simp add: pocl_init_devices_def)
  show ?thesis
    using clGetDeviceIDs_done(1)[OF 1(1) assms(7)] clGetDeviceIDs_done(1,2)[OF again assms(7)] unfolding ids by blast
qed

section \<open>Contexts and sub-devices\<close>

text \<open>
  A context from a type holds all devices that fit, each retained once, and its release gives them
  back; without a device the context is returned with an unset table, and no release frees it.
\<close>

lemma context_from_type:
  assumes "pocl_init_devices H x = ok (S, s)" and "fitting ty (pocl_devices S) \<noteq> []"
    and "\<forall>d \<in> set (fitting ty (pocl_devices S)). devices s d \<noteq> None" and "contexts s c = None"
    and "context_set_properties (platform_id E) (properties_malloc E) properties = CL_SUCCESS"
    and "devices_malloc E" and "pfn_notify \<or> \<not> user_data"
  shows "\<exists>s'. clCreateContextFromType H E (Some c) junk properties ty pfn_notify user_data x = ok (Some c, CL_SUCCESS, S, s') \<and>
    contexts s' c = Some \<lparr>ctx_refcount = 1, ctx_devices = fitting ty (pocl_devices S), ctx_valid = True\<rparr> \<and>
    clReleaseContext (Some c) s' = ok (CL_SUCCESS, s)"
proof -
  let ?ds = "fitting ty (pocl_devices S)"
  let ?s = "put_context c \<lparr>ctx_refcount = 1, ctx_devices = ?ds, ctx_valid = True\<rparr> (s\<lparr>devices := count_devices 1 ?ds (devices s)\<rparr>)"
  have "clCreateContextFromType H E (Some c) junk properties ty pfn_notify user_data x = ok (Some c, CL_SUCCESS, S, ?s)"
    using assms(2,5-7)
    by (auto simp: clCreateContextFromType_def assms(1) pocl_get_devices_fitting pocl_get_device_type_count_fitting
        retain_devices_ok[OF assms(3)] Let_def)
  then show ?thesis using release_fresh_context[OF assms(3,4)] by (intro exI[of _ ?s]) simp
qed

lemma dummy_context:
  assumes "pocl_init_devices H x = ok (S, s)" and "fitting ty (pocl_devices S) = []"
    and "context_set_properties (platform_id E) (properties_malloc E) properties = CL_SUCCESS" and "pfn_notify \<or> \<not> user_data"
  shows "\<exists>s'. clCreateContextFromType H E (Some c) junk properties ty pfn_notify user_data x = ok (Some c, CL_DEVICE_NOT_FOUND, S, s') \<and>
    contexts s' c = Some \<lparr>ctx_refcount = 1, ctx_devices = junk, ctx_valid = False\<rparr> \<and>
    clReleaseContext (Some c) s' = ok (CL_INVALID_CONTEXT, s')"
  using assms(2-4)
  by (auto simp: clCreateContextFromType_def assms(1) pocl_get_device_type_count_fitting clReleaseContext_def fetch_def)

text \<open>Both sub-devices are the device itself, whose references are forgotten.\<close>

lemma sub_devices_reset:
  assumes "devices s i = Some d"
  shows "\<exists>S' s'. clCreateSubDevices (Some i) True (S, s) = ok (CL_SUCCESS, [i, i], S', s') \<and>
    devices s' i = Some (d\<lparr>dev_refcount := 3\<rparr>)"
  using assms by (simp add: clCreateSubDevices_def fetch_def Let_def retain_device_def)

text \<open>Asking for no devices but their number, with room for some, answers that there are none.\<close>

lemma count_alone_not_found:
  assumes "pocl_init_devices H x = ok (S, s)" and "0 < n"
  shows "\<exists>k. clGetDeviceIDs H True ty n False True x = ok (CL_DEVICE_NOT_FOUND, None, Some k, S, s) \<and> k = length (fitting ty (pocl_devices S))"
  using clGetDeviceIDs_done(3)[OF assms] by blast

section \<open>A concrete process\<close>

definition board_machine :: machine where
  "board_machine = arm_machine\<lparr>hwloc := Some (1073741824, Some 2)\<rparr>"

definition unopened_port :: driver where
  "unopened_port = fresh_port\<lparr>device_open := 0\<rparr>"

definition board :: "string option \<Rightarrow> host_system" where
  "board env = \<lparr>getenv = (\<lambda>v. if v = ''POCL_DEVICES'' then env else None), this_machine = board_machine,
     ports = ex_environment (named_driver iow_linux), table_calloc = True, data_malloc = True\<rparr>"

definition fresh_process :: device_system where
  "fresh_process = \<lparr>pocl_devices = [], init_done = False, basic_global_mem_id = None, zynq_global_mem_id = None,
     port_files = ex_zynq\<lparr>driver_state := (\<lambda>f. unopened_port)\<rparr>\<rparr>"

lemma board_can_start: "can_start (board env)"
  by (simp add: can_start_def board_def board_machine_def)

lemma unopened_idle: "idle_driver unopened_port"
  by (simp add: idle_driver_def unopened_port_def fresh_port_def driver_inv_def rep_empty arguments_def)

lemma board_ports: "ports_idle (board env) fresh_process iow_linux"
  using ex_environment_ok(1) unopened_idle by (simp add: ports_idle_def board_def fresh_process_def ex_environment_def)

lemma board_calloc: "table_calloc (board env)" "\<not> init_done fresh_process" "getenv (board env) ''POCL_DEVICES'' = env"
  by (simp_all add: board_def fresh_process_def)

lemma three_tokens: "tokens ''pthread zynq_basic basic'' = [''pthread'', ''zynq_basic'', ''basic'']"
  by code_simp

lemma two_tokens: "tokens ''zynq_basic zynq_basic'' = [''zynq_basic'', ''zynq_basic'']"
  by code_simp

lemma devices_of_environment_witness:
  "\<exists>S' s'. pocl_init_devices (board (Some ''pthread zynq_basic basic'')) (fresh_process, no_objects) = ok (S', s') \<and>
    pocl_init_devices (board (Some ''pthread zynq_basic basic'')) (S', s') = ok (S', s') \<and>
    table_ok board_machine [Pthread, Basic, Zynq_basic] S' s' \<and> (\<forall>f. port_shows (driver_state (port_files S') f) [])"
proof -
  let ?H = "board (Some ''pthread zynq_basic basic'')"
  have w: "wanted (getenv ?H ''POCL_DEVICES'') = [Pthread, Basic, Zynq_basic]"
    by (simp add: board_calloc(3) wanted_def three_tokens)
  have "probed_devices ?H \<noteq> []" using w by (simp add: probed_wanted)
  moreover have "probe ?H Zynq_basic \<le> 1" by (simp add: probe_count board_calloc(3) three_tokens del: probe.simps)
  ultimately show ?thesis
    using devices_of_environment[OF board_calloc(2,1) board_can_start board_ports, of "Some ''pthread zynq_basic basic''" no_objects] w
    by (simp add: board_def)
qed

lemma second_fpga_device_exits_witness:
  "pocl_init_devices (board (Some ''zynq_basic zynq_basic'')) (fresh_process, no_objects) = throw (Exit (-1))"
  by (rule second_fpga_device_exits[OF board_calloc(2,1) board_can_start board_ports])
    (simp add: probe_count board_calloc(3) two_tokens del: probe.simps)

text \<open>All devices, the default one, the accelerators, and graphics processors, of which there are none.\<close>

lemma board_types:
  "of_type 0xFFFFFFFF [Pthread, Basic, Zynq_basic] = [0, 1, 2]" "of_type 1 [Pthread, Basic, Zynq_basic] = [0]"
  "of_type CL_DEVICE_TYPE_ACCELERATOR [Pthread, Basic, Zynq_basic] = [2]" "of_type 4 [Pthread, Basic, Zynq_basic] = []"
  by code_simp+

lemma device_ids_of_environment_witness:
  "\<exists>S' s'.
    clGetDeviceIDs (board (Some ''pthread zynq_basic basic'')) True 0xFFFFFFFF 2 True True (fresh_process, no_objects) =
      ok (CL_SUCCESS, Some [0, 1], Some 3, S', s') \<and>
    clGetDeviceIDs (board (Some ''pthread zynq_basic basic'')) True 1 2 True True (S', s') = ok (CL_SUCCESS, Some [0], Some 1, S', s') \<and>
    clGetDeviceIDs (board (Some ''pthread zynq_basic basic'')) True CL_DEVICE_TYPE_ACCELERATOR 2 True True (S', s') =
      ok (CL_SUCCESS, Some [2], Some 1, S', s') \<and>
    clGetDeviceIDs (board (Some ''pthread zynq_basic basic'')) True 4 2 True True (S', s') =
      ok (CL_DEVICE_NOT_FOUND, Some [], Some 0, S', s')"
proof -
  let ?H = "board (Some ''pthread zynq_basic basic'')"
  have w: "wanted (getenv ?H ''POCL_DEVICES'') = [Pthread, Basic, Zynq_basic]"
    by (simp add: board_calloc(3) wanted_def three_tokens)
  have "probed_devices ?H \<noteq> []" using w by (simp add: probed_wanted)
  moreover have "probe ?H Zynq_basic \<le> 1" by (simp add: probe_count board_calloc(3) three_tokens del: probe.simps)
  ultimately obtain S' s' where all: "\<And>ty.
    clGetDeviceIDs ?H True ty 2 True True (fresh_process, no_objects) =
      ok (if of_type ty [Pthread, Basic, Zynq_basic] = [] then CL_DEVICE_NOT_FOUND else CL_SUCCESS,
        Some (take 2 (of_type ty [Pthread, Basic, Zynq_basic])), Some (length (of_type ty [Pthread, Basic, Zynq_basic])), S', s') \<and>
    clGetDeviceIDs ?H True ty 2 True True (S', s') =
      ok (if of_type ty [Pthread, Basic, Zynq_basic] = [] then CL_DEVICE_NOT_FOUND else CL_SUCCESS,
        Some (take 2 (of_type ty [Pthread, Basic, Zynq_basic])), Some (length (of_type ty [Pthread, Basic, Zynq_basic])), S', s')"
    using device_ids_of_environment[OF board_calloc(2,1) board_can_start board_ports _ _ _ refl,
        of "Some ''pthread zynq_basic basic''" 2 no_objects, unfolded w] by auto
  show ?thesis
    using all[of "0xFFFFFFFF"] all[of 1] all[of CL_DEVICE_TYPE_ACCELERATOR] all[of 4] unfolding board_types
    by (intro exI[of _ S'] exI[of _ s']) simp
qed

end
