(* ===== verification/Cl_Info_Props.thy ===== *)
theory Cl_Info_Props
  imports Cl_Info Cl_Devices_Props
begin

text \<open>
  The information queries: the protocol that a caller relies on, asking for the size first and for
  the value then, as the contract of all of them; and the queries that leave it.
\<close>

section \<open>Memory\<close>

lemma length_little [simp]: "length (little n w) = n"
  by (simp add: little_def)

lemma unat_u32: "k < 4294967296 \<Longrightarrow> unat (of_nat k :: u32) = k"
  by (simp add: unsigned_of_nat take_bit_nat_eq_self)

lemma offset_back: "k < 4294967296 \<Longrightarrow> unat (p + of_nat k - p :: addr) = k"
  by (simp add: unat_u32)

lemma read_written: "length bs < 4294967296 \<Longrightarrow> read_bytes p (length bs) (write_bytes p bs m) = bs"
  by (rule nth_equalityI) (simp_all add: read_bytes_def write_bytes_def unat_u32)

text \<open>The bytes of a place.\<close>

definition place :: "addr \<Rightarrow> nat \<Rightarrow> addr set" where
  "place p n = {a. unat (a - p) < n}"

lemma write_outside: "a \<notin> place p (length bs) \<Longrightarrow> write_bytes p bs m a = m a"
  by (simp add: write_bytes_def place_def)

lemma read_cong: "\<forall>a \<in> place p n. m a = m' a \<Longrightarrow> n < 4294967296 \<Longrightarrow> read_bytes p n m = read_bytes p n m'"
  by (simp add: read_bytes_def place_def unat_u32)

lemma pointer_written: "pointer_at r (write_bytes r (little 4 w) m) = (w :: u32)"
proof -
  have "write_bytes r (little 4 w) m (r + of_nat k) = byte_of w k" if "k < 4" for k
  proof -
    have "unat (of_nat k :: addr) = k" using that by (simp add: unat_u32)
    then show ?thesis using that by (simp add: write_bytes_def little_def byte_of_def)
  qed
  from this[of 0] this[of 1] this[of 2] this[of 3] show ?thesis
    unfolding pointer_at_def by (simp add: word_of_bytes_of[unfolded One_nat_def])
qed

section \<open>The contract of a query\<close>

text \<open>What an answer with the value \<open>v\<close> is: the status, and the memory behind it.\<close>

definition answered :: "byte list \<Rightarrow> info_request \<Rightarrow> memory \<Rightarrow> int \<times> memory" where
  "answered v R m =
     (let told = (\<lambda>m. if param_value_size_ret R \<noteq> NULL then write_bytes (param_value_size_ret R) (little 4 (of_nat (length v) :: u32)) m else m)
      in if param_value R = NULL then (CL_SUCCESS, told m)
         else if param_value_size R < of_nat (length v) then (CL_INVALID_VALUE, m)
         else (CL_SUCCESS, told (write_bytes (param_value R) v m)))"

text \<open>\<open>ask\<close> is a query, \<open>value_of\<close> the names it has a value for.\<close>

locale info_query =
  fixes ask :: "nat \<Rightarrow> info_request \<Rightarrow> memory \<Rightarrow> (int \<times> memory) prog" and value_of :: "nat \<Rightarrow> byte list option"
  assumes answers: "value_of name = Some v \<Longrightarrow> ask name R m = ok (answered v R m)"
begin

lemma too_small:
  "value_of name = Some v \<Longrightarrow> p \<noteq> NULL \<Longrightarrow> k < of_nat (length v) \<Longrightarrow> ask name \<lparr>param_value_size = k, param_value = p, param_value_size_ret = r\<rparr> m
     = ok (CL_INVALID_VALUE, m)"
  by (simp add: answers answered_def)

text \<open>The size is asked for first; a place of that size then gets the value.\<close>

lemma two_calls:
  assumes "value_of name = Some v" and "length v < 4294967296" and "r \<noteq> NULL" and "p \<noteq> NULL"
    and "place r 4 \<inter> place p (length v) = {}"
  shows "\<exists>m1 m2. ask name \<lparr>param_value_size = 0, param_value = NULL, param_value_size_ret = r\<rparr> m = ok (CL_SUCCESS, m1) \<and>
    ask name \<lparr>param_value_size = pointer_at r m1, param_value = p, param_value_size_ret = NULL\<rparr> m1 = ok (CL_SUCCESS, m2) \<and>
    pointer_at r m1 = of_nat (length v) \<and> read_bytes p (length v) m2 = v \<and>
    (\<forall>a. a \<notin> place r 4 \<union> place p (length v) \<longrightarrow> m2 a = m a)"
proof -
  let ?m1 = "write_bytes r (little 4 (of_nat (length v) :: u32)) m"
  let ?m2 = "write_bytes p v ?m1"
  have P: "pointer_at r ?m1 = of_nat (length v)" by (rule pointer_written)
  have "ask name \<lparr>param_value_size = 0, param_value = NULL, param_value_size_ret = r\<rparr> m = ok (CL_SUCCESS, ?m1)"
    using assms(3) by (simp add: answers[OF assms(1)] answered_def)
  moreover have "ask name \<lparr>param_value_size = pointer_at r ?m1, param_value = p, param_value_size_ret = NULL\<rparr> ?m1 = ok (CL_SUCCESS, ?m2)"
    using assms(4) by (simp add: answers[OF assms(1)] answered_def P)
  moreover have "read_bytes p (length v) ?m2 = v" by (rule read_written[OF assms(2)])
  moreover have "\<forall>a. a \<notin> place r 4 \<union> place p (length v) \<longrightarrow> ?m2 a = m a" by (simp add: write_outside)
  ultimately show ?thesis using P by (intro exI[of _ ?m1] exI[of _ ?m2] conjI)
qed

end

section \<open>The queries meet the contract\<close>

text \<open>The value of a name in a table of answers: there when nothing on the way to it faults.\<close>

definition shown :: "(nat \<times> info_value) list \<Rightarrow> nat \<Rightarrow> byte list option" where
  "shown cases name = (case map_of cases name of
       Some (Some (Inr sz), Some (Inr bs)) \<Rightarrow> if length bs = sz then Some bs else None | _ \<Rightarrow> None)"

lemma shown_eq: "shown cases name = Some v \<longleftrightarrow> map_of cases name = Some (ok (length v), ok v)"
  by (auto simp: shown_def ok_def split: option.splits sum.splits prod.splits if_splits)

lemma answer_from_shown: "shown cases name = Some v \<Longrightarrow> answer_from cases name R m = ok (answered v R m)"
  by (simp add: shown_eq answer_from_def POCL_RETURN_GETINFO_INNER_def answered_def Let_def)

text \<open>The values of an object of a table, when it is live.\<close>

definition of_live :: "('k \<Rightarrow> 'a option) \<Rightarrow> 'k \<Rightarrow> ('a \<Rightarrow> nat \<Rightarrow> byte list option) \<Rightarrow> nat \<Rightarrow> byte list option" where
  "of_live t i f name = (case t i of None \<Rightarrow> None | Some x \<Rightarrow> f x name)"

lemma of_live_Some: "of_live t i f name = Some v \<longleftrightarrow> (\<exists>x. t i = Some x \<and> f x name = Some v)"
  by (simp add: of_live_def split: option.splits)

interpretation device_query: info_query "clGetDeviceInfo env H refs dev" "shown (device_answers env H refs dev)"
  for env H refs dev
  by unfold_locales (simp add: clGetDeviceInfo_def answer_from_shown)

interpretation platform_query: info_query "clGetPlatformInfo H platform"
  "\<lambda>name. if platform \<noteq> NULL \<and> platform = platform_at H then shown platform_answers name else None" for H platform
  by unfold_locales (auto simp: clGetPlatformInfo_def answer_from_shown split: if_splits)

interpretation context_query: info_query "clGetContextInfo H props (Some c) s"
  "\<lambda>name. if name = 0x1082 then None else of_live (contexts s) c (\<lambda>C. shown (context_answers H C)) name" for H props c s
  by unfold_locales (auto simp: clGetContextInfo_def of_live_Some fetch_def answer_from_shown split: if_splits)

interpretation queue_query: info_query "clGetCommandQueueInfo H (Some q) s"
  "of_live (queues s) q (\<lambda>q. shown (queue_answers H q))" for H q s
  by unfold_locales (auto simp: clGetCommandQueueInfo_def of_live_Some fetch_def answer_from_shown)

interpretation event_query: info_query "clGetEventInfo H (Some e) s" "of_live (events s) e (\<lambda>e. shown (event_answers H s e))" for H e s
  by unfold_locales (auto simp: clGetEventInfo_def of_live_Some fetch_def answer_from_shown)

interpretation mem_query: info_query "clGetMemObjectInfo H (Some b) s"
  "\<lambda>name. if name = 0x1108 then None else of_live (mems s) b (\<lambda>b. shown (mem_answers H b)) name" for H b s
  by unfold_locales (auto simp: clGetMemObjectInfo_def of_live_Some fetch_def answer_from_shown split: if_splits)

interpretation image_query: info_query "clGetImageInfo H images buf mips samples (Some i)"
  "shown (image_answers H buf mips samples (images i))" for H images buf mips samples i
  by unfold_locales (simp add: clGetImageInfo_def answer_from_shown)

interpretation krn_query: info_query "clGetKernelInfo H F (Some k) s" "of_live (kernels s) k (\<lambda>k. shown (krn_answers H F k))" for H F k s
  by unfold_locales (auto simp: clGetKernelInfo_def of_live_Some fetch_def answer_from_shown)

interpretation build_query: info_query "clGetProgramBuildInfo (Some p) d T h"
  "of_live T p (\<lambda>f name. if d \<in> set (prog_devices f) then shown (build_answers f h) name else None)" for p d T h
  by unfold_locales (auto simp: clGetProgramBuildInfo_def of_live_Some fetch_def answer_from_shown split: if_splits)

section \<open>What the devices answer\<close>

definition text_value :: "string \<Rightarrow> byte list" where
  "text_value s = map of_char s @ [0]"

lemma shown_string:
  assumes "map_of cases name = Some (POCL_RETURN_GETINFO_STR (ok (Some t)))"
  shows "shown cases name = Some (text_value t)"
  using assms by (simp add: shown_eq POCL_RETURN_GETINFO_STR_def text_value_def)

lemma started_answers:
  assumes "started M k i dev"
  shows "shown (device_answers env H refs (Some dev)) 0x102B = Some (text_value (full_name M (device_name k)))"
    and "shown (device_answers env H refs (Some dev)) 0x1000 = Some (little 8 (kind_type k OR (if i = 0 then 1 else 0)))"
    and "shown (device_answers env H refs (Some dev)) 0x1027 = Some (little 4 (1 :: u32))"
  using assms by (simp_all add: started_def device_answers_def shown_eq POCL_RETURN_GETINFO_STR_def POCL_RETURN_GETINFO_def
      text_value_def field_def field64_def field32_def)

text \<open>C73: The protocol of the queries, for every name of \<open>clGetDeviceInfo\<close> that has a value: a call without a
  place for the value tells its size; a second call with a place of that size stores exactly the
  value and nothing else; and a place that is too small is rejected with nothing written.\<close>

theorem device_info_two_calls:
  assumes "shown (device_answers env H refs (Some dev)) name = Some v" and "length v < 4294967296"
    and "r \<noteq> NULL" and "p \<noteq> NULL" and "place r 4 \<inter> place p (length v) = {}"
  shows "(\<exists>m1 m2. clGetDeviceInfo env H refs (Some dev) name \<lparr>param_value_size = 0, param_value = NULL, param_value_size_ret = r\<rparr> m
        = ok (CL_SUCCESS, m1) \<and>
      clGetDeviceInfo env H refs (Some dev) name \<lparr>param_value_size = pointer_at r m1, param_value = p, param_value_size_ret = NULL\<rparr> m1
        = ok (CL_SUCCESS, m2) \<and>
      pointer_at r m1 = of_nat (length v) \<and> read_bytes p (length v) m2 = v \<and>
      (\<forall>a. a \<notin> place r 4 \<union> place p (length v) \<longrightarrow> m2 a = m a)) \<and>
    (k < of_nat (length v) \<longrightarrow>
      clGetDeviceInfo env H refs (Some dev) name \<lparr>param_value_size = k, param_value = p, param_value_size_ret = r\<rparr> m = ok (CL_INVALID_VALUE, m))"
  using device_query.two_calls[OF assms, of m] device_query.too_small[OF assms(1,4), of k r m] by blast

text \<open>The FPGA device answers with its work-group size, which the environment can only lower.\<close>

lemma zynq_max_work_group:
  "shown (device_answers env H refs (Some (described Zynq_basic i))) 0x1004 =
     Some (little 4 (case env ''POCL_MAX_WORK_GROUP_SIZE'' of None \<Rightarrow> 1024 :: size_t
       | Some v \<Rightarrow> min 1024 (of_int (atoi v))))"
proof -
  have "device_queries.max_work_group_size (described Zynq_basic i) = 1024" by (simp add: described_def descriptions)
  then show ?thesis
    by (simp add: device_answers_def shown_eq field_def max_wg_size_def Let_def min_def split: option.splits) (auto simp: ok_def)
qed

lemma place_cases: "a \<in> place p n \<longleftrightarrow> unat (a - p) < n"
  by (simp add: place_def)

lemma length_four: "length [a, b, c, d] = 4"
  by simp

lemma device_info_two_calls_witness:
  "\<exists>m1 m2. clGetDeviceInfo (\<lambda>_. None) \<lparr>context_at = (\<lambda>i. 0), device_at = (\<lambda>i. 0), queue_at = (\<lambda>i. 0), program_at = (\<lambda>i. 0), mem_at = (\<lambda>i. 0),
        platform_at = 8\<rparr> 1 (Some (described Zynq_basic 0)) 0x1004
      \<lparr>param_value_size = 0, param_value = NULL, param_value_size_ret = 4096\<rparr> (\<lambda>a. 0) = ok (CL_SUCCESS, m1) \<and>
    clGetDeviceInfo (\<lambda>_. None) \<lparr>context_at = (\<lambda>i. 0), device_at = (\<lambda>i. 0), queue_at = (\<lambda>i. 0), program_at = (\<lambda>i. 0), mem_at = (\<lambda>i. 0),
        platform_at = 8\<rparr> 1 (Some (described Zynq_basic 0)) 0x1004
      \<lparr>param_value_size = pointer_at 4096 m1, param_value = 8192, param_value_size_ret = NULL\<rparr> m1 = ok (CL_SUCCESS, m2) \<and>
    read_bytes 8192 4 m2 = [0, 4, 0, 0]"
proof -
  let ?H = "\<lparr>context_at = (\<lambda>i. 0), device_at = (\<lambda>i. 0), queue_at = (\<lambda>i. 0), program_at = (\<lambda>i. 0), mem_at = (\<lambda>i. 0), platform_at = 8\<rparr>"
  have v: "shown (device_answers (\<lambda>_. None) ?H 1 (Some (described Zynq_basic 0))) 0x1004 = Some [0, 4, 0, 0]"
    unfolding zynq_max_work_group by simp code_simp
  have "place 4096 4 \<inter> place 8192 4 = {}"
  proof -
    have "4 \<le> unat (a - 8192)" if "unat (a - 4096) < 4" for a :: addr
    proof -
      have eq: "a - 4096 = of_nat (unat (a - 4096))" by (rule word_of_unat)
      have "unat (a - 4096) \<in> {0, 1, 2, 3}" using that by auto
      then have "of_nat (unat (a - 4096)) \<in> of_nat ` {0, 1, 2, 3 :: nat}" by (rule imageI)
      with eq have "a - 4096 \<in> of_nat ` {0, 1, 2, 3 :: nat}" by (rule ssubst)
      then have "a - 4096 = 0 \<or> a - 4096 = 1 \<or> a - 4096 = 2 \<or> a - 4096 = 3"
        unfolding image_insert image_empty insert_iff empty_iff of_nat_1 of_nat_numeral by simp
      then have "a = 0 + 4096 \<or> a = 1 + 4096 \<or> a = 2 + 4096 \<or> a = 3 + 4096" by (simp only: diff_eq_eq)
      then show ?thesis by (elim disjE) simp_all
    qed
    then show ?thesis by (fastforce simp: place_def)
  qed
  then have "place 4096 4 \<inter> place 8192 (length [0, 4, 0, 0 :: 8 word]) = {}" by (simp only: length_four)
  moreover have "length [0, 4, 0, 0 :: 8 word] < 4294967296" and "(4096 :: addr) \<noteq> NULL" and "(8192 :: addr) \<noteq> NULL" by simp_all
  ultimately obtain m1 m2 where
    "clGetDeviceInfo (\<lambda>_. None) ?H 1 (Some (described Zynq_basic 0)) 0x1004
       \<lparr>param_value_size = 0, param_value = NULL, param_value_size_ret = 4096\<rparr> (\<lambda>a. 0) = ok (CL_SUCCESS, m1)"
    and "clGetDeviceInfo (\<lambda>_. None) ?H 1 (Some (described Zynq_basic 0)) 0x1004
       \<lparr>param_value_size = pointer_at 4096 m1, param_value = 8192, param_value_size_ret = NULL\<rparr> m1 = ok (CL_SUCCESS, m2)"
    and "read_bytes 8192 (length [0, 4, 0, 0 :: 8 word]) m2 = [0, 4, 0, 0]"
    using device_info_two_calls[OF v, THEN conjunct1] by blast
  then show ?thesis unfolding length_four by (intro exI conjI)
qed

section \<open>Queries that leave the protocol\<close>

text \<open>A user event has no queue, and two queries read the queue of an event without asking.\<close>

lemma user_event_queries_crash:
  assumes "events s i = Some e" and "e_queue e = None" and "param_value R \<noteq> NULL" and "4 \<le> param_value_size R"
  shows "clGetEventInfo H (Some i) s 0x11D4 R m = throw NullDeref"
    and "clGetEventProfilingInfo (Some i) s n R m = throw NullDeref"
  using assms(3,4) by (simp_all add: clGetEventInfo_def clGetEventProfilingInfo_def fetch_def assms(1,2) event_queue_def event_answers_def
      answer_from_def POCL_RETURN_GETINFO_INNER_def POCL_RETURN_GETINFO_def Let_def)

text \<open>A context without properties has the size of its properties stored at a null place.\<close>

lemma null_size_crashes:
  assumes "contexts s c = Some C" and "param_value_size_ret R = NULL"
  shows "clGetContextInfo H None (Some c) s 0x1082 R m = throw NullDeref"
  using assms by (simp add: clGetContextInfo_def fetch_def)

text \<open>Every name is accepted when only the size of a time stamp is asked for.\<close>

lemma profiling_name_unchecked:
  assumes "events s i = Some e" and "event_queue e s = ok q" and "q_profiling q" and "status e = CL_COMPLETE"
  shows "clGetEventProfilingInfo (Some i) s name \<lparr>param_value_size = 0, param_value = NULL, param_value_size_ret = NULL\<rparr> m = ok (CL_SUCCESS, m)"
  using assms by (simp add: clGetEventProfilingInfo_def fetch_def Let_def)

text \<open>The devices shown for a program are the first ones of its context, not its own.\<close>

lemma program_devices_of_context:
  assumes "programs s i = Some P" and "T i = Some f" and "contexts s (p_context P) = Some C"
    and "length (prog_devices f) \<le> length (ctx_devices C)" and "4 * length (prog_devices f) < 4294967296"
    and "p \<noteq> NULL" and "of_nat (4 * length (prog_devices f)) \<le> k"
  shows "clGetProgramInfo refresh H (Some i) T s 0x1163 \<lparr>param_value_size = k, param_value = p, param_value_size_ret = NULL\<rparr> m =
    ok (CL_SUCCESS, T, write_bytes p (concat (map (\<lambda>d. little 4 (device_at H d)) (take (length (prog_devices f)) (ctx_devices C)))) m)"
  using assms by (simp add: clGetProgramInfo_def fetch_def POCL_RETURN_GETINFO_INNER_def POCL_RETURN_GETINFO_def Let_def not_less)

lemma wrong_program_device:
  assumes "programs s i = Some P" and "T i = Some f" and "contexts s (p_context P) = Some C"
    and "ctx_devices C = [0, 1]" and "prog_devices f = [1]"
  shows "clGetProgramInfo refresh H (Some i) T s 0x1163 \<lparr>param_value_size = 4, param_value = 8, param_value_size_ret = NULL\<rparr> m =
    ok (CL_SUCCESS, T, write_bytes 8 (little 4 (device_at H 0)) m)"
  using program_devices_of_context[where s = s and i = i and P = P and T = T and f = f and C = C and p = 8 and k = 4 and refresh = refresh and H = H and m = m] assms by simp

text \<open>A program that has no binaries yet crashes the query for them; an unknown name ends the process.\<close>

lemma missing_binaries_crash:
  assumes "programs s i = Some P" and "T i = Some f" and "binaries f = None" and "prog_devices f = [d]"
    and "pointer_at p m \<noteq> NULL" and "p \<noteq> NULL"
  shows "clGetProgramInfo refresh H (Some i) T s 0x1166 \<lparr>param_value_size = 4, param_value = p, param_value_size_ret = r\<rparr> m = throw NullDeref"
  using assms by (simp add: clGetProgramInfo_def fetch_def Let_def)

lemma unknown_name_exits:
  assumes "programs s i = Some P" and "T i = Some f" and "name \<notin> {0x1160, 0x1161, 0x1162, 0x1163, 0x1164, 0x1165, 0x1166}"
  shows "clGetProgramInfo refresh H (Some i) T s name R m = throw (Exit 2)"
  using assms by (simp add: clGetProgramInfo_def fetch_def)

end
