(* ===== verification/Spec2Isabelle.thy ===== *)
theory Spec2Isabelle
  imports Zynq_Props Fpga_Props Bufalloc_Props Cl_Util_Props Cl_Objects_Props Cl_Events Cl_Release_Props
    Cl_NDRange_Props Dev_Memory_Props Pthread_Alloc_Props Pthread_Run_Props Cl_Buffers_Props
    Cl_Transfer_Props Sha1_Props Cl_Images_Props Printf_Props Cl_Half_Props Cl_Programs_Props
    Cl_Cpuinfo_Props Cl_Info_Props
begin

text \<open>
  A verification development for PePCoRA: an OpenCL runtime (a fork of pocl 0.11) that runs kernels
  on the cores of a Zynq board and on accelerators in its FPGA, and the Linux drivers of the FPGA's
  ports.

  The program.

  An application calls the host functions (\<^verbatim>\<open>pocl-0.11-zynq/lib/CL/cl*.c\<close>). They keep reference
  counted objects (contexts, queues, buffers, kernels, programs, events), check the requests, and
  queue commands. \<open>clFinish\<close> collects the commands of a queue and of every queue its commands wait
  for, orders them, and has the device of each queue execute them through a table of operations
  (\<^verbatim>\<open>devices/basic\<close>, \<^verbatim>\<open>devices/pthread\<close>, \<^verbatim>\<open>devices/zynq_basic\<close>). The pthread device takes its
  buffers from regions of a buffer allocator (\<^verbatim>\<open>devices/bufalloc.c\<close>); the FPGA device opens five
  device files, each served by a port driver (\<^verbatim>\<open>linux_driver/fpgacl_device_driver\<close>), which owns DMA
  buffers and the registers of one accelerator.

  The theories.

  \<open>Prelude\<close> holds the machine integers and the type \<open>'a prog\<close> of outcomes: a result, a fault, or no
  return. Every operation is a function to outcomes on an explicit state; what the code leaves to the
  kernel, the allocators or the hardware is an argument that gives their answers.

  - \<open>Utlist\<close> models \<^verbatim>\<open>include/utlist.h\<close> on explicit link fields, with the locale of the laws both
    kinds of lists share.
  - \<open>Fpga_Driver\<close> models the port drivers (their five files are one text), \<open>Fpga_Inv\<close> and \<open>Fpga_Ops\<close>
    the abstraction of the argument list to the slots a user sees and what every operation does to
    them, \<open>Fpga_Reach\<close> the states any system calls and hardware activity reach, \<open>Fpga_Ports\<close> the five
    instances and the contract of a port, \<open>Fpga_Props\<close> the properties.
  - \<open>Bufalloc\<close> models \<^verbatim>\<open>bufalloc.c\<close>; \<open>Bufalloc_Inv\<close>, \<open>Bufalloc_Ops\<close> and \<open>Bufalloc_Free\<close> give the
    invariant of a region and what allocation and release do to the set of live blocks;
    \<open>Bufalloc_Regions\<close> states the contract of an allocator and shows that a list of regions meets it;
    \<open>Bufalloc_Props\<close> holds the properties.
  - \<open>Cl_Defs\<close> and \<open>Cl_Objects\<close> give the objects and the \<open>clRetain\<close>/\<open>clRelease\<close> functions; \<open>Cl_Util\<close>
    the helpers of \<^verbatim>\<open>pocl_util.c\<close>; \<open>Cl_Queue\<close> the recycling of events and commands
    (\<^verbatim>\<open>pocl_mem_management.c\<close>), the creation and queueing of commands (\<^verbatim>\<open>pocl_util.c\<close>), the event
    state machine (macros in \<^verbatim>\<open>pocl_cl.h\<close>) and \<open>clFinish\<close>.
  - \<open>Cl_Finish\<close> proves the loop of \<open>clFinish\<close> terminating and its order right, \<open>Cl_Exec\<close> the execution
    of the ready list, \<open>Cl_Enqueue\<close> that queueing keeps queues finishable; \<open>Cl_Queue_Props\<close>,
    \<open>Cl_Events\<close>, \<open>Cl_Objects_Props\<close>, \<open>Cl_Release_Props\<close> and \<open>Cl_Util_Props\<close> hold the properties;
    \<open>Cl_Events\<close> also models the timers the devices stamp events with, which count in 32 bits.
  - \<open>Cl_NDRange\<close> models \<^verbatim>\<open>clSetKernelArg.c\<close> and \<^verbatim>\<open>clEnqueueNDRangeKernel.c\<close>, on top of
    \<open>Cl_Queue\<close>; \<open>Cl_NDRange_Props\<close> holds the properties.
  - \<open>Dev_Memory\<close> models the transfers of the three devices on a memory of bytes, \<open>Dev_Memory_Props\<close>
    relates them to the bounds checks of \<open>Cl_Util\<close>.
  - \<open>Pthread_Alloc\<close> models the buffers of the basic and the pthread device as a growing list of
    regions and interprets the contract of \<open>Bufalloc_Regions\<close> on it (a host that has no room for a large
    region may still give the bare size of a request: then the assertion of the allocator can fail); \<open>Pthread_Run\<close> models the threads
    and work-groups of a launch and the arguments of a thread as clients of that contract.
  - \<open>Zynq_Run\<close> models \<^verbatim>\<open>zynq_basic.c\<close>: the buffer table and the run that splits an image into five
    blocks of lines for five accelerators, against the drivers of \<open>Fpga_Ports\<close>; \<open>Zynq_Setup\<close>,
    \<open>Zynq_Lines\<close>, \<open>Zynq_Rows\<close> and \<open>Zynq_Props\<close> follow it to its end, for the device files bound to
    the drivers by their numbers and by their names, which the two copies of the header give differently.
  - \<open>Cl_Buffers\<close> models the creation of contexts, queues, buffers, sub-buffers and user events
    (\<^verbatim>\<open>clCreateContext.c\<close>, \<^verbatim>\<open>clCreateCommandQueue.c\<close>, \<^verbatim>\<open>clCreateBuffer.c\<close>,
    \<^verbatim>\<open>clCreateSubBuffer.c\<close>, \<^verbatim>\<open>clCreateUserEvent.c\<close>); \<open>Cl_Buffers_Props\<close> shows that what a
    creation takes the last release gives back, that a created queue is in the state the queueing
    lemmas need, and where the end of a sub-buffer escapes its parent.
  - \<open>Cl_Transfer\<close> models the queueing of transfers, mappings, markers and barriers
    (\<^verbatim>\<open>clEnqueueReadBuffer.c\<close> to \<^verbatim>\<open>clEnqueueBarrier.c\<close>) and the execution of a queue of transfers on
    the bytes of \<open>Dev_Memory\<close>; \<open>Cl_Transfer_Props\<close> runs writing, copying, reading and \<open>clFinish\<close> end to
    end.
  - \<open>Cl_Images\<close> models image formats, the creation of images and their transfers
    (\<^verbatim>\<open>pocl_image_util.c\<close>, \<^verbatim>\<open>clCreateImage*.c\<close>, \<^verbatim>\<open>clEnqueue*Image*.c\<close>) on top of \<open>Cl_Transfer\<close>;
    \<open>Cl_Images_Props\<close> holds the round trip of a two-dimensional image, the missing depth of a
    three-dimensional one and the copies that always fail.
  - \<open>Sha1\<close> models \<^verbatim>\<open>pocl_hash.c\<close>, with the padding and rounds of the standard as the reference
    definition; \<open>Sha1_Props\<close> shows that feeding a message in pieces gives its SHA-1, and which inputs
    of a program's build the hash cannot tell apart.
  - \<open>C_Strings\<close> models what the runtime uses of the strings of the C library; \<open>Runtime_Config\<close> the
    remembered environment variables of \<^verbatim>\<open>pocl_runtime_config.c\<close>;
    \<open>Cl_Programs\<close> the creation, the building and the release of programs and kernels
    (\<^verbatim>\<open>clCreateProgramWith*.c\<close>, \<^verbatim>\<open>clBuildProgram.c\<close>, \<^verbatim>\<open>clCreateKernel*.c\<close>,
    \<^verbatim>\<open>clReleaseProgram.c\<close>) with the files of the cache; \<open>Cl_Programs_Props\<close> shows what a build compiles,
    that a second build of the same program takes the cache, what the option parser keeps, and where
    a list of devices makes it write past its tables.
  - \<open>Cl_Cpuinfo\<close> models what is read of the processor (\<^verbatim>\<open>devices/cpuinfo.c\<close>),
    \<open>Cl_Cpuinfo_Props\<close> shows which lines of \<^verbatim>\<open>/proc/cpuinfo\<close> are counted as processors; \<open>Cl_Devices\<close>
    models the table of devices (\<^verbatim>\<open>devices/devices.c\<close>), the probing, the description and the start of
    the three drivers, the calls that hand devices out (\<^verbatim>\<open>clGetPlatformIDs.c\<close>,
    \<^verbatim>\<open>clGetDeviceIDs.c\<close>, \<^verbatim>\<open>clCreateContextFromType.c\<close>, \<^verbatim>\<open>clCreateSubDevices.c\<close>) and
    samplers; \<open>Cl_Devices_Props\<close> shows which devices an environment gives, that the FPGA starts only once
    (on the drivers of \<open>Fpga_Ports\<close>), and which devices \<open>clGetDeviceIDs\<close> lists.
  - \<open>Cl_Info\<close> models the information queries (\<^verbatim>\<open>clGet*Info.c\<close>) on the macros of
    \<^verbatim>\<open>pocl_util.h\<close>; \<open>Cl_Info_Props\<close> states their protocol as a contract, which nine of the queries
    meet, and shows where the others leave it.
  - \<open>Printf\<close> models the parser and the conversions of \<^verbatim>\<open>lib/kernel/printf.c\<close>; \<open>Printf_Props\<close> shows
    that the format buffers are large enough and that integers come out as the C library prints them.
  - \<open>Cl_Half\<close> models the half precision conversions of \<^verbatim>\<open>lib/poclu/cl_half.c\<close>, \<open>Cl_Half_Props\<close>
    relates them to the values of floats and halves as rational numbers.

  Loops.

  Loops over data are structural recursions. The loop of \<open>clFinish\<close>, the search for a work-group size
  and the polling of the accelerators may not end; they are partial functions with the value \<open>None\<close>
  for that case, and termination is a property of its own under conditions that the code's inputs
  meet (acyclic wait lists; a limit and a multiple that are not 0; hardware that becomes idle).
  \<open>clFinish\<close> runs again when a command that nobody holds the event of is released with its queue; its
  first argument bounds this nesting, with \<open>None\<close> when the bound is too small. \<open>Cl_Queue_Props\<close> shows
  that a depth of 2 is enough for the queues an application builds through the modelled calls, since
  the inner call finds its queue empty.

  What the models assume.

  The target is the 32-bit one of \<^verbatim>\<open>config.h\<close>. A host function is one step: locks are not modelled,
  except where interleaving is the subject (threads of a launch). The wait list of a command is
  copied when the command is created. \<open>_IOW\<close> of the kernel is a parameter. \<open>posix_memalign\<close> gives
  aligned memory apart from the memory handed out before, or nothing. Two devices of one driver have one
  directory name, and so share the file a build writes.

  The answers of \<open>malloc\<close> and the operations of a device are parameters of the operations that create
  objects. The fields of an object that only its own operations read (images, programs, kernels of a
  program) are tables beside the objects of \<open>Cl_Defs\<close>. \<open>write_copy_read\<close> and \<open>image_write_read\<close> start
  from a runtime without recycled events and commands, with the event of the caller in a variable of
  its own. Unmapping an image frees an address that no allocator gave, a \<open>BadFree\<close>. The data lengths
  of \<open>Sha1\<close> fit 32 bits, as \<open>size_t\<close> does.

  The output of \<open>Printf\<close> is the list of calls of the C library's \<open>printf\<close> with their arguments. The
  compiler, the reader of bitcode, its kernels, the names of cache directories and the permissions of
  the file system are the parameters of \<open>build_setting\<close> in \<open>Cl_Programs\<close>; the unchecked allocations of
  the option parser succeed there, paths are cut as \<open>snprintf\<close> cuts them, and log files, lock files
  and the parents of created directories are left out.

  The files under \<^verbatim>\<open>/proc\<close> and \<^verbatim>\<open>/sys\<close>, the conversion of a text to a float and the
  answers of hwloc are the fields of \<open>machine\<close> in \<open>Cl_Cpuinfo\<close>. The parameters of a device from the
  environment are not read by the three drivers. A query shows an object by its address, which is an
  argument; so are the fields of an object that the tables do not hold (the name and the metadata of a
  kernel, three fields of an image, the properties of a context). \<open>pocl_llvm_update_binaries\<close> is the
  argument \<open>refresh\<close> of \<open>clGetProgramInfo\<close>.

  Not modelled.

  The compiler passes (\<^verbatim>\<open>lib/llvmopencl\<close>, \<^verbatim>\<open>pocl_llvm_api.cc\<close>, \<^verbatim>\<open>cl2vhls_pocl\<close>) are C++ against
  LLVM; the kernel library (\<^verbatim>\<open>lib/kernel\<close> besides \<open>printf\<close>, with vecmathlib) is OpenCL C, run on the
  device, most of it generated per vector type and specified by floating-point accuracy; loading the
  functions of a built kernel (\<^verbatim>\<open>devices/common.c\<close>) runs external tools and a dynamic loader;
  \<^verbatim>\<open>designs\<close>, \<^verbatim>\<open>examples\<close> and \<^verbatim>\<open>tests\<close> are applications; TCE and Cell devices are not
  built for this target.
\<close>

end
